(* ===== verification/Lub_Prelude.thy ===== *)
theory Lub_Prelude
  imports Complex_Main "HOL-Library.Finite_Map" "HOL-Library.Sublist"
begin

text \<open>
  Shared material of the development: the collections of simplification rules the
  components add to, the Python string operations the sources use (on strings as lists of
  characters), printing of integers, and generic facts on sums over finite maps and on
  filtered lists of time stamps.

  A Python \<open>str\<close> is a \<^typ>\<open>string\<close> holding its UTF-8 bytes. The operations used on it
  (equality, concatenation, prefix test, substring test, splitting at an ASCII character)
  give the same answer on bytes as on code points; \<open>lower\<close> and \<open>strip\<close> act on the ASCII
  range, which is where the sources' literals and keys are. Times (\<open>time.time()\<close>) and
  scores are exact rationals.
\<close>

named_theorems redis_law \<open>effects of the Redis commands on the observers\<close>
named_theorems lub_defs \<open>definitions unfolded to evaluate a component on concrete data\<close>

type_synonym time = rat
type_synonym key = string

section \<open>Strings\<close>

definition startswith :: "string \<Rightarrow> string \<Rightarrow> bool" where
  "startswith s p \<longleftrightarrow> take (length p) s = p"

fun contains :: "string \<Rightarrow> string \<Rightarrow> bool" where
  \<comment> \<open>\<open>contains pat s\<close> is Python's \<open>pat in s\<close>\<close>
  "contains pat [] = (pat = [])"
| "contains pat (c # s) = (startswith (c # s) pat \<or> contains pat s)"

definition lower_char :: "char \<Rightarrow> char" where
  "lower_char c = (let n = of_char c :: nat in if 65 \<le> n \<and> n \<le> 90 then char_of (n + 32) else c)"

definition lower :: "string \<Rightarrow> string" where
  "lower s = map lower_char s"

definition is_space :: "char \<Rightarrow> bool" where
  "is_space c = (c \<in> {CHR '' '', CHR 0x09, CHR 0x0A, CHR 0x0B, CHR 0x0C, CHR 0x0D, CHR 0x1C, CHR 0x1D, CHR 0x1E, CHR 0x1F})"

definition lstrip :: "string \<Rightarrow> string" where
  "lstrip s = dropWhile is_space s"

definition rstrip :: "string \<Rightarrow> string" where
  "rstrip s = rev (dropWhile is_space (rev s))"

definition strip :: "string \<Rightarrow> string" where
  "strip s = rstrip (lstrip s)"

fun split_on :: "char \<Rightarrow> string \<Rightarrow> string list" where
  \<comment> \<open>Python's \<open>s.split(c)\<close>\<close>
  "split_on c [] = [[]]"
| "split_on c (x # xs) =
     (if x = c then [] # split_on c xs
      else (case split_on c xs of [] \<Rightarrow> [[x]] | w # ws \<Rightarrow> (x # w) # ws))"

fun join :: "string \<Rightarrow> string list \<Rightarrow> string" where
  "join sep [] = []"
| "join sep [x] = x"
| "join sep (x # y # ys) = x @ sep @ join sep (y # ys)"

definition digit_char :: "nat \<Rightarrow> char" where
  "digit_char d = char_of (48 + d)"

function nat_str :: "nat \<Rightarrow> string" where
  "nat_str n = (if n < 10 then [digit_char n] else nat_str (n div 10) @ [digit_char (n mod 10)])"
  by pat_completeness auto
termination
  by (relation "measure id") auto

declare nat_str.simps [simp del]

definition int_str :: "int \<Rightarrow> string" where
  \<comment> \<open>\<open>str(n)\<close> of a Python int\<close>
  "int_str n = (if n < 0 then CHR ''-'' # nat_str (nat (- n)) else nat_str (nat n))"

lemma split_on_nonempty [simp]: "split_on c s \<noteq> []"
  by (induction s) (auto split: list.splits)

lemma startswith_append [simp]: "startswith (p @ s) p"
  by (simp add: startswith_def)

lemma contains_refl_append: "contains pat (pre @ pat @ post)"
proof (induction pre)
  case Nil
  have "startswith (pat @ post) pat" by simp
  then show ?case by (cases "pat @ post") (auto simp: startswith_def)
next
  case (Cons c pre)
  then show ?case by simp
qed

lemma contains_iff_sublist: "contains pat s \<longleftrightarrow> (\<exists>pre post. s = pre @ pat @ post)"
proof
  show "contains pat s \<Longrightarrow> \<exists>pre post. s = pre @ pat @ post"
  proof (induction s)
    case Nil
    then show ?case by simp
  next
    case (Cons c s)
    show ?case
    proof (cases "startswith (c # s) pat")
      case True
      then have "c # s = [] @ pat @ drop (length pat) (c # s)"
        unfolding startswith_def by (metis append_Nil append_take_drop_id)
      then show ?thesis by blast
    next
      case False
      with Cons obtain pre post where "s = pre @ pat @ post" by auto
      then have "c # s = (c # pre) @ pat @ post" by simp
      then show ?thesis by blast
    qed
  qed
next
  assume "\<exists>pre post. s = pre @ pat @ post"
  then show "contains pat s" using contains_refl_append by auto
qed

lemma contains_append_left: "contains pat s \<Longrightarrow> contains pat (s @ t)"
  unfolding contains_iff_sublist by (metis append.assoc)

lemma contains_append_right: "contains pat t \<Longrightarrow> contains pat (s @ t)"
  unfolding contains_iff_sublist by (metis append.assoc)

lemma contains_trans: "contains p q \<Longrightarrow> contains q s \<Longrightarrow> contains p s"
  unfolding contains_iff_sublist by (metis append.assoc)

lemma set_nat_str: "set (nat_str n) \<subseteq> digit_char ` {0..9}"
proof (induction n rule: nat_str.induct)
  case (1 n)
  show ?case
  proof (cases "n < 10")
    case True
    then show ?thesis by (subst nat_str.simps) auto
  next
    case False
    with 1 show ?thesis by (subst nat_str.simps) (auto simp: less_Suc_eq_le)
  qed
qed

lemma nat_str_nonempty [simp]: "nat_str n \<noteq> []"
  by (subst nat_str.simps) simp

lemma dropWhile_idem: "dropWhile P (dropWhile P xs) = dropWhile P xs"
  by (induction xs) auto

section \<open>Sums over finite maps\<close>

text \<open>The total of a finite map of amounts, as a sum over its domain.\<close>

definition map_total :: "('k, int) fmap \<Rightarrow> int" where
  "map_total m = (\<Sum>k \<in> fmdom' m. the (fmlookup m k))"

lemma map_total_empty [simp]: "map_total fmempty = 0"
  by (simp add: map_total_def)

lemma finite_fmdom' [simp]: "finite (fmdom' m)"
  by (simp add: fmdom'_alt_def)

lemma map_total_drop:
  "map_total (fmdrop k m) = map_total m - (case fmlookup m k of None \<Rightarrow> 0 | Some v \<Rightarrow> v)"
proof (cases "fmlookup m k")
  case None
  then have "fmdrop k m = m"
    by (intro fmap_ext) (auto simp: fmlookup_drop)
  with None show ?thesis by simp
next
  case (Some v)
  have dom: "fmdom' (fmdrop k m) = fmdom' m - {k}" by auto
  have "map_total (fmdrop k m) = (\<Sum>x \<in> fmdom' m - {k}. the (fmlookup (fmdrop k m) x))"
    by (simp add: map_total_def dom)
  also have "\<dots> = (\<Sum>x \<in> fmdom' m - {k}. the (fmlookup m x))"
    by (rule sum.cong) auto
  also have "\<dots> = (\<Sum>x \<in> fmdom' m. the (fmlookup m x)) - v"
    using Some by (subst sum_diff1) (auto simp: fmdom'I)
  finally show ?thesis using Some by (simp add: map_total_def)
qed

lemma map_total_upd:
  "map_total (fmupd k v m) = map_total m - (case fmlookup m k of None \<Rightarrow> 0 | Some w \<Rightarrow> w) + v"
proof -
  have "map_total (fmdrop k (fmupd k v m)) = map_total (fmupd k v m) - v"
    by (simp add: map_total_drop)
  moreover have "fmdrop k (fmupd k v m) = fmdrop k m"
    by (intro fmap_ext) auto
  ultimately show ?thesis by (simp add: map_total_drop)
qed

lemma map_total_nonneg:
  "(\<And>k v. fmlookup m k = Some v \<Longrightarrow> 0 \<le> v) \<Longrightarrow> 0 \<le> map_total m"
  unfolding map_total_def by (rule sum_nonneg) (metis fmlookup_dom'_iff option.sel)

lemma map_total_ge_entry:
  assumes nn: "\<And>k v. fmlookup m k = Some v \<Longrightarrow> 0 \<le> v" and k: "fmlookup m k = Some v"
  shows "v \<le> map_total m"
proof -
  have "0 \<le> map_total (fmdrop k m)"
    by (rule map_total_nonneg) (auto split: if_splits intro: nn)
  with k show ?thesis by (simp add: map_total_drop)
qed

section \<open>Windows of time stamps\<close>

lemma filter_window_idem:
  "filter (\<lambda>t. now - t < w) (filter (\<lambda>t. now - t < (w :: rat)) ts) = filter (\<lambda>t. now - t < w) ts"
  by simp

lemma filter_window_mono:
  "now \<le> now' \<Longrightarrow> length (filter (\<lambda>t. now' - t < (w :: rat)) ts) \<le> length (filter (\<lambda>t. now - t < w) ts)"
  by (induction ts) auto

end
