(* ===== verification/Lub_Redis.thy ===== *)
theory Lub_Redis
  imports Lub_Prelude "HOL-Library.List_Lexorder" "HOL-Library.Char_ord"
begin

text \<open>
  The Redis server the limit layer talks to. Redis is not code of this repository, so it is
  a parameter: a record of the observers and of the command interpreter that the scripts of
  \<open>limits/backend.py\<close> call, over an arbitrary type of server states. The locale
  \<open>redis_store\<close> names what the scripts rely on, command by command, as the Redis
  documentation states it. \<open>mem_redis\<close> is an executable store with a clock and key
  deadlines, and the interpretation at the end shows that it satisfies the laws.

  The laws speak of keys that are addressed with commands of one data type only, which is how
  the sources name them (ledgers and reservation metadata are hashes, concurrency leases are
  sorted sets, the reservation index is a set, freezes and fixed windows are strings). A script
  runs atomically at one instant; the passing of time between scripts is \<open>r_elapse\<close>. A hash
  or string value is a decimal number, some other text, or the JSON text of a dictionary of
  strings (kept as the dictionary); Lua prints numbers below \<open>10 ^ 14\<close> exactly, which is the
  range the amounts are in. \<open>INCRBY\<close> on a text is an error in Redis; here such a text counts as 0. The case
  does not arise: the sources apply \<open>INCRBY\<close> to fixed windows only, and nothing else writes those keys.
\<close>

section \<open>Commands and their documented effects\<close>

datatype hval = HNum int | HStr string | HJson "(string \<times> string) list"

datatype rcmd =
    HSET key "(string \<times> hval) list"
  | HDEL key "string list"
  | EXPIRE key int
  | DEL key
  | SETEX key hval int
  | SETP key hval
  | INCRBY key int
  | ZADD key rat string
  | ZREM key string
  | ZREMRANGEBYSCORE key rat rat
  | SADD key string
  | SREM key string

fun cmd_ok :: "rcmd \<Rightarrow> bool" where
  "cmd_ok (HSET k fvs) = (fvs \<noteq> [])"
| "cmd_ok (SETEX k v t) = (0 < t)"
| "cmd_ok _ = True"

fun clears :: "rcmd \<Rightarrow> key \<Rightarrow> bool" where
  \<comment> \<open>the commands that drop whatever the key held\<close>
  "clears (DEL k) k' = (k = k')"
| "clears (EXPIRE k t) k' = (k = k' \<and> t \<le> 0)"
| "clears (SETEX k v t) k' = (k = k')"
| "clears (SETP k v) k' = (k = k')"
| "clears _ _ = False"

definition hash_effect :: "rcmd \<Rightarrow> (key \<Rightarrow> string \<Rightarrow> hval option) \<Rightarrow> key \<Rightarrow> string \<Rightarrow> hval option" where
  "hash_effect c h k f =
     (case c of
        HSET k0 fvs \<Rightarrow> (if k = k0 then (case map_of (rev fvs) f of None \<Rightarrow> h k f | Some v \<Rightarrow> Some v) else h k f)
      | HDEL k0 fs \<Rightarrow> (if k = k0 \<and> f \<in> set fs then None else h k f)
      | _ \<Rightarrow> (if clears c k then None else h k f))"

definition zset_effect :: "rcmd \<Rightarrow> (key \<Rightarrow> string \<Rightarrow> rat option) \<Rightarrow> key \<Rightarrow> string \<Rightarrow> rat option" where
  "zset_effect c z k m =
     (case c of
        ZADD k0 sc m0 \<Rightarrow> (if k = k0 \<and> m = m0 then Some sc else z k m)
      | ZREM k0 m0 \<Rightarrow> (if k = k0 \<and> m = m0 then None else z k m)
      | ZREMRANGEBYSCORE k0 lo hi \<Rightarrow>
          (if k = k0 \<and> (\<exists>sc. z k m = Some sc \<and> lo \<le> sc \<and> sc \<le> hi) then None else z k m)
      | _ \<Rightarrow> (if clears c k then None else z k m))"

definition set_effect :: "rcmd \<Rightarrow> (key \<Rightarrow> string \<Rightarrow> bool) \<Rightarrow> key \<Rightarrow> string \<Rightarrow> bool" where
  "set_effect c S k x =
     (case c of
        SADD k0 x0 \<Rightarrow> (k = k0 \<and> x = x0 \<or> S k x)
      | SREM k0 x0 \<Rightarrow> (\<not> (k = k0 \<and> x = x0) \<and> S k x)
      | _ \<Rightarrow> (\<not> clears c k \<and> S k x))"

definition num_of :: "hval option \<Rightarrow> int" where
  \<comment> \<open>\<open>tonumber(v or '0') or 0\<close>: a missing or non-numeric value counts as 0\<close>
  "num_of v = (case v of Some (HNum n) \<Rightarrow> n | _ \<Rightarrow> 0)"

definition str_effect :: "rcmd \<Rightarrow> (key \<Rightarrow> hval option) \<Rightarrow> key \<Rightarrow> hval option" where
  "str_effect c g k =
     (case c of
        SETEX k0 v t \<Rightarrow> (if k = k0 then Some v else g k)
      | SETP k0 v \<Rightarrow> (if k = k0 then Some v else g k)
      | INCRBY k0 n \<Rightarrow> (if k = k0 then Some (HNum (num_of (g k) + n)) else g k)
      | _ \<Rightarrow> (if clears c k then None else g k))"

definition ttl_effect :: "rcmd \<Rightarrow> bool \<Rightarrow> int \<Rightarrow> key \<Rightarrow> int" where
  \<comment> \<open>\<open>pres\<close>: the key exists after the command; \<open>old\<close>: its TTL before (-2 absent, -1 no expiry)\<close>
  "ttl_effect c pres old k =
     (if \<not> pres then -2
      else (case c of
              EXPIRE k0 t \<Rightarrow> (if k = k0 then t else old)
            | SETEX k0 v t \<Rightarrow> (if k = k0 then t else old)
            | SETP k0 v \<Rightarrow> (if k = k0 then -1 else old)
            | _ \<Rightarrow> (if old = -2 then -1 else old)))"

section \<open>Key patterns\<close>

text \<open>
  The glob patterns of \<open>SCAN ... MATCH\<close> as the Redis documentation describes them: a star, a question mark, character
  classes with ranges and negation, and a backslash before a character that is meant literally.
\<close>

fun glob_class :: "char \<Rightarrow> string \<Rightarrow> bool \<times> string" where
  \<comment> \<open>the body of a class: whether it has the character, and the pattern after the closing bracket\<close>
  "glob_class c [] = (False, [])"
| "glob_class c (p # ps) =
     (if p = CHR '']'' then (False, ps)
      else if p = CHR 0x5C \<and> ps \<noteq> [] then (let (b, r) = glob_class c (tl ps) in (c = hd ps \<or> b, r))
      else if 2 \<le> length ps \<and> hd ps = CHR ''-'' then
        (let q = hd (tl ps); (b, r) = glob_class c (tl (tl ps))
         in ((min (of_char p) (of_char q) \<le> (of_char c :: nat) \<and> (of_char c :: nat) \<le> max (of_char p) (of_char q)) \<or> b, r))
      else (let (b, r) = glob_class c ps in (c = p \<or> b, r)))"

lemma glob_class_shorter: "length (snd (glob_class c ps)) \<le> length ps"
proof (induction c ps rule: glob_class.induct)
  case (2 c p ps)
  have t: "length (tl xs) \<le> length xs" for xs :: string by simp
  show ?case
    using 2 le_trans [OF _ t [of ps]] le_trans [OF _ le_trans [OF t [of "tl ps"] t [of ps]]]
    by (auto simp: Let_def split_def le_Suc_eq simp del: length_tl)
qed simp

function glob :: "string \<Rightarrow> string \<Rightarrow> bool" where
  "glob [] s = (s = [])"
| "glob (p # ps) s =
     (if p = CHR ''*'' then glob ps s \<or> (if s = [] then False else glob (p # ps) (tl s))
      else if s = [] then False
      else if p = CHR ''?'' then glob ps (tl s)
      else if p = CHR ''['' then
        (let neg = (ps \<noteq> [] \<and> hd ps = CHR ''^''); (b, r) = glob_class (hd s) (if neg then tl ps else ps)
         in b \<noteq> neg \<and> glob r (tl s))
      else if p = CHR 0x5C \<and> ps \<noteq> [] then hd s = hd ps \<and> glob (tl ps) (tl s)
      else hd s = p \<and> glob ps (tl s))"
  by pat_completeness auto
termination
proof (relation "measure (\<lambda>(p, s). length p + length s)", goal_cases)
  case (5 p ps s neg x b r)
  have "length r \<le> length (if neg then tl ps else ps)" using glob_class_shorter 5 by (metis snd_conv)
  also have "\<dots> \<le> length ps" by simp
  finally show ?case using 5 by (cases s) auto
qed (auto simp: neq_Nil_conv)

declare glob.simps [simp del]

definition glob_plain :: "string \<Rightarrow> bool" where
  \<comment> \<open>no character has a special meaning\<close>
  "glob_plain p \<longleftrightarrow> set p \<inter> set [CHR ''*'', CHR ''?'', CHR ''['', CHR 0x5C] = {}"

lemma glob_star: "glob ''*'' s"
proof (induction s)
  case Nil
  show ?case by (subst glob.simps) (simp add: glob.simps(1))
next
  case (Cons c s)
  then show ?case by (subst glob.simps) simp
qed

lemma glob_prefix: "glob_plain p \<Longrightarrow> glob (p @ ''*'') s \<longleftrightarrow> startswith s p"
proof (induction p arbitrary: s)
  case Nil
  then show ?case by (simp add: glob_star startswith_def)
next
  case (Cons c p)
  have "glob (c # p @ ''*'') s \<longleftrightarrow> s \<noteq> [] \<and> hd s = c \<and> glob (p @ ''*'') (tl s)"
    using Cons.prems by (subst glob.simps) (auto simp: glob_plain_def)
  moreover have "glob_plain p" using Cons.prems by (simp add: glob_plain_def)
  ultimately show ?case using Cons.IH [of "tl s"] by (cases s) (auto simp: startswith_def)
qed

section \<open>The server as a parameter\<close>

record 's redis =
  r_exec :: "rcmd \<Rightarrow> 's \<Rightarrow> 's"
  r_hget :: "'s \<Rightarrow> key \<Rightarrow> string \<Rightarrow> hval option"
  r_zscore :: "'s \<Rightarrow> key \<Rightarrow> string \<Rightarrow> rat option"
  r_sismember :: "'s \<Rightarrow> key \<Rightarrow> string \<Rightarrow> bool"
  r_get :: "'s \<Rightarrow> key \<Rightarrow> hval option"
  r_ttl :: "'s \<Rightarrow> key \<Rightarrow> int"
  r_zcard :: "'s \<Rightarrow> key \<Rightarrow> nat"
  r_scard :: "'s \<Rightarrow> key \<Rightarrow> nat"
  r_smembers :: "'s \<Rightarrow> key \<Rightarrow> string list"
  r_zfirst :: "'s \<Rightarrow> key \<Rightarrow> rat option"
  r_scan :: "'s \<Rightarrow> string \<Rightarrow> key list"
  r_elapse :: "rat \<Rightarrow> 's \<Rightarrow> 's"

text \<open>
  \<open>r_zfirst\<close> is the score of \<open>ZRANGE key 0 0 WITHSCORES\<close>, the smallest one. \<open>r_scan\<close> is a full \<open>SCAN\<close>
  iteration with a pattern; it may report a key more than once.
\<close>

definition present :: "('s, 'a) redis_scheme \<Rightarrow> 's \<Rightarrow> key \<Rightarrow> bool" where
  "present R s k \<longleftrightarrow> (\<exists>f. r_hget R s k f \<noteq> None) \<or> (\<exists>m. r_zscore R s k m \<noteq> None)
     \<or> (\<exists>x. r_sismember R s k x) \<or> r_get R s k \<noteq> None"

definition r_exists :: "('s, 'a) redis_scheme \<Rightarrow> 's \<Rightarrow> key \<Rightarrow> bool" where
  "r_exists R s k \<longleftrightarrow> r_ttl R s k \<noteq> -2"

definition same_key :: "('s, 'a) redis_scheme \<Rightarrow> key \<Rightarrow> 's \<Rightarrow> 's \<Rightarrow> bool" where
  \<comment> \<open>the two states agree on everything the key holds\<close>
  "same_key R k s t \<longleftrightarrow> r_hget R s k = r_hget R t k \<and> r_zscore R s k = r_zscore R t k
     \<and> r_sismember R s k = r_sismember R t k \<and> r_get R s k = r_get R t k"

locale redis_store =
  fixes R :: "'s redis"
  assumes hget_exec [redis_law]: "cmd_ok c \<Longrightarrow> r_hget R (r_exec R c s) k f = hash_effect c (r_hget R s) k f"
    and zscore_exec [redis_law]: "cmd_ok c \<Longrightarrow> r_zscore R (r_exec R c s) k m = zset_effect c (r_zscore R s) k m"
    and sismember_exec [redis_law]: "cmd_ok c \<Longrightarrow> r_sismember R (r_exec R c s) k x = set_effect c (r_sismember R s) k x"
    and get_exec [redis_law]: "cmd_ok c \<Longrightarrow> r_get R (r_exec R c s) k = str_effect c (r_get R s) k"
    and ttl_exec: "cmd_ok c \<Longrightarrow>
          r_ttl R (r_exec R c s) k = ttl_effect c (present R (r_exec R c s) k) (r_ttl R s k) k"
    and ttl_absent: "r_ttl R s k = -2 \<longleftrightarrow> \<not> present R s k"
    and finite_zset: "finite {m. r_zscore R s k m \<noteq> None}"
    and zcard_card: "r_zcard R s k = card {m. r_zscore R s k m \<noteq> None}"
    and finite_set: "finite {x. r_sismember R s k x}"
    and scard_card: "r_scard R s k = card {x. r_sismember R s k x}"
    and set_smembers: "set (r_smembers R s k) = {x. r_sismember R s k x} \<and> distinct (r_smembers R s k)"
    and zfirst_None: "r_zfirst R s k = None \<longleftrightarrow> (\<forall>m. r_zscore R s k m = None)"
    and zfirst_Some: "r_zfirst R s k = Some sc \<Longrightarrow>
          (\<exists>m. r_zscore R s k m = Some sc) \<and> (\<forall>m sc'. r_zscore R s k m = Some sc' \<longrightarrow> sc \<le> sc')"
    and scan_keys: "set (r_scan R s pat) = {k. present R s k \<and> glob pat k}"
    and elapse: "same_key R k (r_elapse R d s) s \<or> \<not> present R (r_elapse R d s) k"
begin

lemma exists_present: "r_exists R s k \<longleftrightarrow> present R s k"
  by (simp add: r_exists_def ttl_absent)

lemma hget_HSET [simp]:
  "fvs \<noteq> [] \<Longrightarrow> r_hget R (r_exec R (HSET k fvs) s) k' f =
     (if k' = k then (case map_of (rev fvs) f of None \<Rightarrow> r_hget R s k' f | Some v \<Rightarrow> Some v)
      else r_hget R s k' f)"
  by (simp add: hget_exec hash_effect_def)

lemma hget_HDEL [simp]:
  "r_hget R (r_exec R (HDEL k fs) s) k' f = (if k' = k \<and> f \<in> set fs then None else r_hget R s k' f)"
  by (simp add: hget_exec hash_effect_def)

lemma hget_EXPIRE [simp]: "0 < t \<Longrightarrow> r_hget R (r_exec R (EXPIRE k t) s) k' f = r_hget R s k' f"
  by (simp add: hget_exec hash_effect_def)

lemma hget_DEL [simp]: "r_hget R (r_exec R (DEL k) s) k' f = (if k' = k then None else r_hget R s k' f)"
  by (auto simp add: hget_exec hash_effect_def)

lemma hget_SETEX [simp]:
  "0 < t \<Longrightarrow> r_hget R (r_exec R (SETEX k v t) s) k' f = (if k' = k then None else r_hget R s k' f)"
  by (auto simp add: hget_exec hash_effect_def)

lemma hget_frame [simp]:
  "r_hget R (r_exec R (ZADD k sc m) s) k' f = r_hget R s k' f"
  "r_hget R (r_exec R (ZREM k m) s) k' f = r_hget R s k' f"
  "r_hget R (r_exec R (ZREMRANGEBYSCORE k lo hi) s) k' f = r_hget R s k' f"
  "r_hget R (r_exec R (SADD k x) s) k' f = r_hget R s k' f"
  "r_hget R (r_exec R (SREM k x) s) k' f = r_hget R s k' f"
  "r_hget R (r_exec R (INCRBY k n) s) k' f = r_hget R s k' f"
  by (simp_all add: hget_exec hash_effect_def)

lemma zscore_ZADD [simp]:
  "r_zscore R (r_exec R (ZADD k sc m) s) k' m' = (if k' = k \<and> m' = m then Some sc else r_zscore R s k' m')"
  by (simp add: zscore_exec zset_effect_def)

lemma zscore_ZREM [simp]:
  "r_zscore R (r_exec R (ZREM k m) s) k' m' = (if k' = k \<and> m' = m then None else r_zscore R s k' m')"
  by (simp add: zscore_exec zset_effect_def)

lemma zscore_ZREMRANGE [simp]:
  "r_zscore R (r_exec R (ZREMRANGEBYSCORE k lo hi) s) k' m =
     (if k' = k \<and> (\<exists>sc. r_zscore R s k' m = Some sc \<and> lo \<le> sc \<and> sc \<le> hi) then None
      else r_zscore R s k' m)"
  by (simp add: zscore_exec zset_effect_def)

lemma zscore_EXPIRE [simp]: "0 < t \<Longrightarrow> r_zscore R (r_exec R (EXPIRE k t) s) k' m = r_zscore R s k' m"
  by (simp add: zscore_exec zset_effect_def)

lemma zscore_DEL [simp]:
  "r_zscore R (r_exec R (DEL k) s) k' m = (if k' = k then None else r_zscore R s k' m)"
  by (auto simp add: zscore_exec zset_effect_def)

lemma zscore_SETEX [simp]:
  "0 < t \<Longrightarrow> r_zscore R (r_exec R (SETEX k v t) s) k' m = (if k' = k then None else r_zscore R s k' m)"
  by (auto simp add: zscore_exec zset_effect_def)

lemma zscore_frame [simp]:
  "fvs \<noteq> [] \<Longrightarrow> r_zscore R (r_exec R (HSET k fvs) s) k' m = r_zscore R s k' m"
  "r_zscore R (r_exec R (HDEL k fs) s) k' m = r_zscore R s k' m"
  "r_zscore R (r_exec R (SADD k x) s) k' m = r_zscore R s k' m"
  "r_zscore R (r_exec R (SREM k x) s) k' m = r_zscore R s k' m"
  "r_zscore R (r_exec R (INCRBY k n) s) k' m = r_zscore R s k' m"
  by (simp_all add: zscore_exec zset_effect_def)

lemma zcard_mono:
  assumes "\<And>m. r_zscore R s k m = None \<Longrightarrow> r_zscore R t k m = None"
  shows "r_zcard R t k \<le> r_zcard R s k"
  unfolding zcard_card
proof (rule card_mono [OF finite_zset], rule subsetI)
  fix m assume "m \<in> {m. r_zscore R t k m \<noteq> None}"
  then show "m \<in> {m. r_zscore R s k m \<noteq> None}"
    using assms [of m] by (cases "r_zscore R s k m") auto
qed

lemma zcard_insert_le:
  assumes "\<And>m'. m' \<noteq> m \<Longrightarrow> r_zscore R s k m' = None \<Longrightarrow> r_zscore R t k m' = None"
  shows "r_zcard R t k \<le> Suc (r_zcard R s k)"
proof -
  have "{m'. r_zscore R t k m' \<noteq> None} \<subseteq> insert m {m'. r_zscore R s k m' \<noteq> None}"
  proof (rule subsetI)
    fix x assume "x \<in> {m'. r_zscore R t k m' \<noteq> None}"
    then show "x \<in> insert m {m'. r_zscore R s k m' \<noteq> None}"
      using assms [of x] by (cases "r_zscore R s k x"; cases "x = m") auto
  qed
  then have "card {m'. r_zscore R t k m' \<noteq> None} \<le> card (insert m {m'. r_zscore R s k m' \<noteq> None})"
    by (rule card_mono [rotated]) (use finite_zset [of s k] in simp)
  also have "\<dots> \<le> Suc (card {m'. r_zscore R s k m' \<noteq> None})"
    using finite_zset [of s k] by (simp add: card_insert_if)
  finally show ?thesis by (simp add: zcard_card)
qed

lemma elapse_zscore: "r_zscore R s k m = None \<Longrightarrow> r_zscore R (r_elapse R d s) k m = None"
  using elapse [of k d s] by (auto simp: same_key_def present_def)

lemma elapse_hget: "r_hget R (r_elapse R d s) k = r_hget R s k \<or> (\<forall>f. r_hget R (r_elapse R d s) k f = None)"
  using elapse [of k d s] by (auto simp: same_key_def present_def)

lemma ttl_EXPIRE: "0 < t \<Longrightarrow> r_exists R s k \<Longrightarrow> r_ttl R (r_exec R (EXPIRE k t) s) k = t"
  by (simp add: ttl_exec ttl_effect_def exists_present)
     (auto simp: present_def hget_exec zscore_exec sismember_exec get_exec
        hash_effect_def zset_effect_def set_effect_def str_effect_def)

end

section \<open>An executable store\<close>

text \<open>
  Contents are kept flat, one finite map per data type keyed by the key and the field or
  member; \<open>deadlines\<close> holds the expiry instants. Commands drop the deadline of a key that has
  become empty, and \<open>mem_elapse\<close> moves the clock and drops the keys whose deadline has passed.
\<close>

record mem =
  clock :: rat
  hashes :: "(key \<times> string, hval) fmap"
  zsets :: "(key \<times> string, rat) fmap"
  sets :: "(key \<times> string, unit) fmap"
  strs :: "(key, hval) fmap"
  deadlines :: "(key, rat) fmap"

definition mem_empty :: mem where
  "mem_empty = \<lparr>clock = 0, hashes = fmempty, zsets = fmempty, sets = fmempty, strs = fmempty, deadlines = fmempty\<rparr>"

definition mem_has :: "mem \<Rightarrow> key \<Rightarrow> bool" where
  "mem_has m k \<longleftrightarrow> (\<exists>p \<in> fmdom' (hashes m). fst p = k) \<or> (\<exists>p \<in> fmdom' (zsets m). fst p = k)
     \<or> (\<exists>p \<in> fmdom' (sets m). fst p = k) \<or> k \<in> fmdom' (strs m)"

definition mem_ttl :: "mem \<Rightarrow> key \<Rightarrow> int" where
  "mem_ttl m k = (if \<not> mem_has m k then -2 else (case fmlookup (deadlines m) k of
     None \<Rightarrow> -1 | Some d \<Rightarrow> max 0 \<lceil>d - clock m\<rceil>))"

definition mem_wipe :: "key \<Rightarrow> mem \<Rightarrow> mem" where
  "mem_wipe k m = m\<lparr>hashes := fmfilter (\<lambda>p. fst p \<noteq> k) (hashes m), zsets := fmfilter (\<lambda>p. fst p \<noteq> k) (zsets m),
     sets := fmfilter (\<lambda>p. fst p \<noteq> k) (sets m), strs := fmdrop k (strs m), deadlines := fmdrop k (deadlines m)\<rparr>"

definition mem_tidy :: "key \<Rightarrow> mem \<Rightarrow> mem" where
  "mem_tidy k m = (if mem_has m k then m else m\<lparr>deadlines := fmdrop k (deadlines m)\<rparr>)"

primrec mem_exec :: "rcmd \<Rightarrow> mem \<Rightarrow> mem" where
  "mem_exec (HSET k fvs) m =
     (let m' = mem_tidy k m in m'\<lparr>hashes := fold (\<lambda>(f, v). fmupd (k, f) v) fvs (hashes m')\<rparr>)"
| "mem_exec (HDEL k fs) m = mem_tidy k (m\<lparr>hashes := fmfilter (\<lambda>p. \<not> (fst p = k \<and> snd p \<in> set fs)) (hashes m)\<rparr>)"
| "mem_exec (EXPIRE k t) m =
     (if t \<le> 0 then mem_wipe k m
      else if mem_has m k then m\<lparr>deadlines := fmupd k (clock m + of_int t) (deadlines m)\<rparr> else m)"
| "mem_exec (DEL k) m = mem_wipe k m"
| "mem_exec (SETEX k v t) m =
     (let m' = mem_wipe k m in m'\<lparr>strs := fmupd k v (strs m'), deadlines := fmupd k (clock m' + of_int t) (deadlines m')\<rparr>)"
| "mem_exec (SETP k v) m = (let m' = mem_wipe k m in m'\<lparr>strs := fmupd k v (strs m')\<rparr>)"
| "mem_exec (INCRBY k n) m =
     (let m' = mem_tidy k m in m'\<lparr>strs := fmupd k (HNum (num_of (fmlookup (strs m') k) + n)) (strs m')\<rparr>)"
| "mem_exec (ZADD k sc x) m = (let m' = mem_tidy k m in m'\<lparr>zsets := fmupd (k, x) sc (zsets m')\<rparr>)"
| "mem_exec (ZREM k x) m = mem_tidy k (m\<lparr>zsets := fmdrop (k, x) (zsets m)\<rparr>)"
| "mem_exec (ZREMRANGEBYSCORE k lo hi) m =
     mem_tidy k (m\<lparr>zsets := fmfilter (\<lambda>p. \<not> (fst p = k \<and>
        (case fmlookup (zsets m) p of None \<Rightarrow> False | Some sc \<Rightarrow> lo \<le> sc \<and> sc \<le> hi))) (zsets m)\<rparr>)"
| "mem_exec (SADD k x) m = (let m' = mem_tidy k m in m'\<lparr>sets := fmupd (k, x) () (sets m')\<rparr>)"
| "mem_exec (SREM k x) m = mem_tidy k (m\<lparr>sets := fmdrop (k, x) (sets m)\<rparr>)"

definition mem_elapse :: "rat \<Rightarrow> mem \<Rightarrow> mem" where
  "mem_elapse d m =
     (let t = clock m + d; live = (\<lambda>k. case fmlookup (deadlines m) k of None \<Rightarrow> True | Some e \<Rightarrow> t < e)
      in m\<lparr>clock := t, hashes := fmfilter (\<lambda>p. live (fst p)) (hashes m), zsets := fmfilter (\<lambda>p. live (fst p)) (zsets m),
           sets := fmfilter (\<lambda>p. live (fst p)) (sets m), strs := fmfilter live (strs m),
           deadlines := fmfilter live (deadlines m)\<rparr>)"

definition mem_scores :: "mem \<Rightarrow> key \<Rightarrow> rat set" where
  "mem_scores m k = (\<lambda>p. the (fmlookup (zsets m) p)) ` {p \<in> fmdom' (zsets m). fst p = k}"

definition mem_keys :: "mem \<Rightarrow> key set" where
  "mem_keys m = fst ` fmdom' (hashes m) \<union> fst ` fmdom' (zsets m) \<union> fst ` fmdom' (sets m) \<union> fmdom' (strs m)"

definition mem_redis :: "mem redis" where
  "mem_redis = \<lparr>
     r_exec = mem_exec,
     r_hget = (\<lambda>m k f. fmlookup (hashes m) (k, f)),
     r_zscore = (\<lambda>m k x. fmlookup (zsets m) (k, x)),
     r_sismember = (\<lambda>m k x. fmlookup (sets m) (k, x) \<noteq> None),
     r_get = (\<lambda>m k. fmlookup (strs m) k),
     r_ttl = mem_ttl,
     r_zcard = (\<lambda>m k. card {p \<in> fmdom' (zsets m). fst p = k}),
     r_scard = (\<lambda>m k. card {p \<in> fmdom' (sets m). fst p = k}),
     r_smembers = (\<lambda>m k. sorted_list_of_set (snd ` {p \<in> fmdom' (sets m). fst p = k})),
     r_zfirst = (\<lambda>m k. if mem_scores m k = {} then None else Some (Min (mem_scores m k))),
     r_scan = (\<lambda>m pat. filter (glob pat) (sorted_list_of_set (mem_keys m))),
     r_elapse = mem_elapse\<rparr>"

lemma mem_redis_sel [simp]:
  "r_exec mem_redis = mem_exec" "r_hget mem_redis m k f = fmlookup (hashes m) (k, f)"
  "r_zscore mem_redis m k x = fmlookup (zsets m) (k, x)"
  "r_sismember mem_redis m k x = (fmlookup (sets m) (k, x) \<noteq> None)"
  "r_get mem_redis m k = fmlookup (strs m) k" "r_ttl mem_redis = mem_ttl"
  "r_zcard mem_redis m k = card {p \<in> fmdom' (zsets m). fst p = k}"
  "r_scard mem_redis m k = card {p \<in> fmdom' (sets m). fst p = k}"
  "r_elapse mem_redis = mem_elapse"
  by (simp_all add: mem_redis_def)

lemma mem_present: "present mem_redis m k = mem_has m k"
  unfolding present_def mem_has_def by (force simp: fmlookup_dom'_iff)

lemma mem_has_tidy [simp]: "mem_has (mem_tidy k m) k' = mem_has m k'"
  by (simp add: mem_tidy_def mem_has_def)

lemma mem_tidy_sel [simp]:
  "hashes (mem_tidy k m) = hashes m" "zsets (mem_tidy k m) = zsets m" "sets (mem_tidy k m) = sets m"
  "strs (mem_tidy k m) = strs m" "clock (mem_tidy k m) = clock m"
  "fmlookup (deadlines (mem_tidy k m)) k' =
     (if k' = k \<and> \<not> mem_has m k then None else fmlookup (deadlines m) k')"
  by (simp_all add: mem_tidy_def)

lemma fmlookup_fold_hset:
  "fmlookup (fold (\<lambda>(f, v). fmupd (k0, f) v) fvs h) (k, f) =
     (if k = k0 then (case map_of (rev fvs) f of None \<Rightarrow> fmlookup h (k, f) | Some v \<Rightarrow> Some v)
      else fmlookup h (k, f))"
  by (induction fvs arbitrary: h) (auto simp: map_add_def split: option.splits)

lemma mem_hget_exec:
  "fmlookup (hashes (mem_exec c m)) (k, f) = hash_effect c (\<lambda>k f. fmlookup (hashes m) (k, f)) k f"
  by (cases c) (auto simp: hash_effect_def Let_def mem_wipe_def fmlookup_fold_hset)

lemma mem_zscore_exec:
  "fmlookup (zsets (mem_exec c m)) (k, x) = zset_effect c (\<lambda>k x. fmlookup (zsets m) (k, x)) k x"
  by (cases c) (auto simp: zset_effect_def Let_def mem_wipe_def split: option.splits)

lemma mem_sismember_exec:
  "(fmlookup (sets (mem_exec c m)) (k, x) \<noteq> None) = set_effect c (\<lambda>k x. fmlookup (sets m) (k, x) \<noteq> None) k x"
  by (cases c) (auto simp: set_effect_def Let_def mem_wipe_def)

lemma mem_get_exec:
  "fmlookup (strs (mem_exec c m)) k = str_effect c (\<lambda>k. fmlookup (strs m) k) k"
  by (cases c) (auto simp: str_effect_def Let_def mem_wipe_def)

primrec cmd_key :: "rcmd \<Rightarrow> key" where
  "cmd_key (HSET k fvs) = k" | "cmd_key (HDEL k fs) = k" | "cmd_key (EXPIRE k t) = k" | "cmd_key (DEL k) = k"
| "cmd_key (SETEX k v t) = k" | "cmd_key (SETP k v) = k" | "cmd_key (INCRBY k n) = k" | "cmd_key (ZADD k sc m) = k"
| "cmd_key (ZREM k m) = k" | "cmd_key (ZREMRANGEBYSCORE k lo hi) = k" | "cmd_key (SADD k x) = k" | "cmd_key (SREM k x) = k"

lemma mem_has_other: "k \<noteq> cmd_key c \<Longrightarrow> mem_has (mem_exec c m) k = mem_has m k"
  unfolding mem_present [symmetric] present_def mem_redis_sel mem_hget_exec mem_zscore_exec mem_get_exec
    mem_sismember_exec
  by (cases c) (simp_all add: hash_effect_def zset_effect_def set_effect_def str_effect_def)

lemma mem_deadline_other: "k \<noteq> cmd_key c \<Longrightarrow> fmlookup (deadlines (mem_exec c m)) k = fmlookup (deadlines m) k"
  by (cases c) (auto simp: Let_def mem_wipe_def)

lemma mem_clock_exec [simp]: "clock (mem_exec c m) = clock m"
  by (cases c) (auto simp: Let_def mem_wipe_def)

lemma mem_ttl_other: "k \<noteq> cmd_key c \<Longrightarrow> mem_ttl (mem_exec c m) k = mem_ttl m k"
  by (simp add: mem_ttl_def mem_has_other mem_deadline_other split: option.splits)

lemma ttl_effect_other: "k \<noteq> cmd_key c \<Longrightarrow> (old = -2 \<longleftrightarrow> \<not> pres) \<Longrightarrow> ttl_effect c pres old k = old"
  by (cases c) (auto simp: ttl_effect_def)

lemma mem_ttl_absent: "mem_ttl m k = -2 \<longleftrightarrow> \<not> mem_has m k"
  by (auto simp: mem_ttl_def split: option.splits)

lemma mem_deadline_set:
  "k = cmd_key c \<Longrightarrow> cmd_ok c \<Longrightarrow> mem_has (mem_exec c m) k \<Longrightarrow>
   fmlookup (deadlines (mem_exec c m)) k =
     (case c of EXPIRE k0 t \<Rightarrow> Some (clock m + of_int t) | SETEX k0 v t \<Rightarrow> Some (clock m + of_int t)
      | SETP k0 v \<Rightarrow> None | _ \<Rightarrow> (if mem_has m k then fmlookup (deadlines m) k else None))"
  by (cases c) (auto simp: Let_def mem_wipe_def mem_has_def fmdom'_notD split: if_splits)

lemma mem_has_EXPIRE: "mem_has (mem_exec (EXPIRE k t) m) k \<Longrightarrow> 0 < t"
  by (rule ccontr) (auto simp: mem_wipe_def mem_has_def)

lemma mem_ttl_exec:
  assumes ok: "cmd_ok c"
  shows "mem_ttl (mem_exec c m) k = ttl_effect c (mem_has (mem_exec c m) k) (mem_ttl m k) k"
proof (cases "k = cmd_key c")
  case False
  then show ?thesis by (simp add: mem_ttl_other ttl_effect_other mem_ttl_absent mem_has_other)
next
  case True
  show ?thesis
  proof (cases "mem_has (mem_exec c m) k")
    case has: True
    have "mem_ttl (mem_exec c m) k =
        (case fmlookup (deadlines (mem_exec c m)) k of None \<Rightarrow> -1 | Some d \<Rightarrow> max 0 \<lceil>d - clock m\<rceil>)"
      using has by (simp add: mem_ttl_def split: option.splits)
    with mem_deadline_set [OF True ok has] has True ok show ?thesis
      by (cases c) (auto simp: ttl_effect_def mem_ttl_absent mem_ttl_def simp del: mem_exec.simps
            dest: mem_has_EXPIRE split: option.splits)
  qed (simp add: mem_ttl_def ttl_effect_def)
qed

lemma mem_card_pairs: "card {p \<in> fmdom' m. fst p = k} = card {x. fmlookup m (k, x) \<noteq> None}"
proof -
  have "{p \<in> fmdom' m. fst p = k} = Pair k ` {x. fmlookup m (k, x) \<noteq> None}"
    by (force simp: fmlookup_dom'_iff)
  then show ?thesis by (simp add: card_image inj_on_def)
qed

lemma mem_finite_pairs: "finite {x. fmlookup m (k, x) \<noteq> None}"
proof -
  have "{x. fmlookup m (k, x) \<noteq> None} = snd ` {p \<in> fmdom' m. fst p = k}"
    by (force simp: fmlookup_dom'_iff)
  then show ?thesis by simp
qed

lemma mem_scores_iff: "sc \<in> mem_scores m k \<longleftrightarrow> (\<exists>x. fmlookup (zsets m) (k, x) = Some sc)"
  unfolding mem_scores_def by (force simp: fmlookup_dom'_iff)

lemma mem_elapse_key:
  "same_key mem_redis k (mem_elapse d m) m \<or> \<not> present mem_redis (mem_elapse d m) k"
  by (cases "fmlookup (deadlines m) k")
     (auto simp: same_key_def present_def mem_elapse_def Let_def mem_redis_def fun_eq_iff)

interpretation mem: redis_store mem_redis
proof unfold_locales
  fix c :: rcmd and s :: mem and k f m x :: string and sc d :: rat
  show "r_hget mem_redis (r_exec mem_redis c s) k f = hash_effect c (r_hget mem_redis s) k f"
    by (simp add: mem_hget_exec) (simp add: mem_redis_def)
  show "r_zscore mem_redis (r_exec mem_redis c s) k m = zset_effect c (r_zscore mem_redis s) k m"
    by (simp add: mem_zscore_exec) (simp add: mem_redis_def)
  show "r_sismember mem_redis (r_exec mem_redis c s) k x = set_effect c (r_sismember mem_redis s) k x"
    using mem_sismember_exec by (simp add: mem_redis_def)
  show "r_get mem_redis (r_exec mem_redis c s) k = str_effect c (r_get mem_redis s) k"
    by (simp add: mem_get_exec) (simp add: mem_redis_def)
  show "cmd_ok c \<Longrightarrow> r_ttl mem_redis (r_exec mem_redis c s) k =
      ttl_effect c (present mem_redis (r_exec mem_redis c s) k) (r_ttl mem_redis s k) k"
    by (simp add: mem_present mem_ttl_exec)
  show "(r_ttl mem_redis s k = - 2) = (\<not> present mem_redis s k)"
    by (simp add: mem_present mem_ttl_absent)
  show "finite {m. r_zscore mem_redis s k m \<noteq> None}"
    using mem_finite_pairs by simp
  show "r_zcard mem_redis s k = card {m. r_zscore mem_redis s k m \<noteq> None}"
    by (simp add: mem_card_pairs)
  show "finite {x. r_sismember mem_redis s k x}"
    using mem_finite_pairs [of "sets s" k] by (simp only: mem_redis_sel)
  show "r_scard mem_redis s k = card {x. r_sismember mem_redis s k x}"
    by (simp add: mem_card_pairs)
  have "snd ` {p \<in> fmdom' (sets s). fst p = k} = {x. r_sismember mem_redis s k x}"
    by (force simp: fmlookup_dom'_iff)
  then show "set (r_smembers mem_redis s k) = {x. r_sismember mem_redis s k x} \<and> distinct (r_smembers mem_redis s k)"
    using mem_finite_pairs [of "sets s" k] by (simp add: mem_redis_def)
  show "(r_zfirst mem_redis s k = None) = (\<forall>m. r_zscore mem_redis s k m = None)"
    using mem_scores_iff [of _ s k] by (auto simp: mem_redis_def) (meson not_None_eq)
  show "(\<exists>m. r_zscore mem_redis s k m = Some sc) \<and> (\<forall>m sc'. r_zscore mem_redis s k m = Some sc' \<longrightarrow> sc \<le> sc')"
    if "r_zfirst mem_redis s k = Some sc"
  proof -
    have fin: "finite (mem_scores s k)" by (simp add: mem_scores_def)
    from that have "mem_scores s k \<noteq> {}" and sc: "sc = Min (mem_scores s k)"
      by (auto simp: mem_redis_def split: if_splits)
    with fin have "sc \<in> mem_scores s k" and "\<forall>x \<in> mem_scores s k. sc \<le> x" by auto
    then show ?thesis by (auto simp: mem_scores_iff)
  qed
  have "finite (mem_keys s)" by (simp add: mem_keys_def)
  moreover have "mem_has s k' \<longleftrightarrow> k' \<in> mem_keys s" for k' by (auto simp: mem_has_def mem_keys_def)
  ultimately show "set (r_scan mem_redis s pat) = {k. present mem_redis s k \<and> glob pat k}" for pat
    unfolding mem_present by (simp add: mem_redis_def)
  show "same_key mem_redis k (r_elapse mem_redis d s) s \<or> \<not> present mem_redis (r_elapse mem_redis d s) k"
    by (simp add: mem_elapse_key)
qed

end
