(* ===== verification/Lub_PyVal.thy ===== *)
theory Lub_PyVal
  imports Lub_Prelude
begin

text \<open>
  Python's dynamically typed values as the sources handle them: JSON-like data with
  insertion-ordered dictionaries keyed by strings. The operations are the built-ins the
  sources apply to such values: truth testing, \<open>or\<close>, \<open>dict.get\<close>, item assignment,
  \<open>int()\<close> with its two exceptions and \<open>str()\<close>. A float is the decimal that \<open>repr\<close> shows.
\<close>

datatype pyval =
    PNone
  | PBool bool
  | PInt int
  | PFloat rat
  | PStr string
  | PList "pyval list"
  | PDict "(string \<times> pyval) list"

datatype pyerror = TypeError | ValueError | KeyError | IndexError | NameError | AttributeError | RuntimeError

type_synonym pydict = "(string \<times> pyval) list"

fun truthy :: "pyval \<Rightarrow> bool" where
  "truthy PNone = False"
| "truthy (PBool b) = b"
| "truthy (PInt n) = (n \<noteq> 0)"
| "truthy (PFloat r) = (r \<noteq> 0)"
| "truthy (PStr s) = (s \<noteq> [])"
| "truthy (PList xs) = (xs \<noteq> [])"
| "truthy (PDict d) = (d \<noteq> [])"

definition py_or :: "pyval \<Rightarrow> pyval \<Rightarrow> pyval" where
  "py_or a b = (if truthy a then a else b)"

definition dget :: "pydict \<Rightarrow> string \<Rightarrow> pyval" where
  \<comment> \<open>\<open>d.get(k)\<close>\<close>
  "dget d k = (case map_of d k of None \<Rightarrow> PNone | Some v \<Rightarrow> v)"

definition dget_or :: "pydict \<Rightarrow> string \<Rightarrow> pyval \<Rightarrow> pyval" where
  \<comment> \<open>\<open>d.get(k, default)\<close>\<close>
  "dget_or d k v0 = (case map_of d k of None \<Rightarrow> v0 | Some v \<Rightarrow> v)"

fun dset :: "(string \<times> 'v) list \<Rightarrow> string \<Rightarrow> 'v \<Rightarrow> (string \<times> 'v) list" where
  \<comment> \<open>\<open>d[k] = v\<close>: in place, or at the end for a new key\<close>
  "dset [] k v = [(k, v)]"
| "dset ((k', v') # d) k v = (if k' = k then (k, v) # d else (k', v') # dset d k v)"

definition as_dict :: "pyval \<Rightarrow> pydict option" where
  "as_dict v = (case v of PDict d \<Rightarrow> Some d | _ \<Rightarrow> None)"

definition as_list :: "pyval \<Rightarrow> pyval list option" where
  "as_list v = (case v of PList xs \<Rightarrow> Some xs | _ \<Rightarrow> None)"

section \<open>Integers from text\<close>

definition digit_val :: "char \<Rightarrow> nat option" where
  "digit_val c = (let n = of_char c :: nat in if 48 \<le> n \<and> n \<le> 57 then Some (n - 48) else None)"

fun parse_digits :: "nat \<Rightarrow> bool \<Rightarrow> string \<Rightarrow> nat option" where
  \<comment> \<open>\<open>sep\<close>: the last character read was a digit, so an underscore may follow\<close>
  "parse_digits acc sep [] = (if sep then Some acc else None)"
| "parse_digits acc sep (c # s) =
     (case digit_val c of
        Some d \<Rightarrow> parse_digits (10 * acc + d) True s
      | None \<Rightarrow> (if c = CHR ''_'' \<and> sep then parse_digits acc False s else None))"

definition parse_int :: "string \<Rightarrow> int option" where
  "parse_int s0 = (case strip s0 of
      [] \<Rightarrow> None
    | c # s \<Rightarrow> (if c = CHR ''-'' then map_option (\<lambda>n. - int n) (parse_digits 0 False s)
              else if c = CHR ''+'' then map_option int (parse_digits 0 False s)
              else map_option int (parse_digits 0 False (c # s))))"

definition trunc :: "rat \<Rightarrow> int" where
  "trunc r = (if 0 \<le> r then \<lfloor>r\<rfloor> else \<lceil>r\<rceil>)"

fun py_int :: "pyval \<Rightarrow> pyerror + int" where
  \<comment> \<open>\<open>int(v)\<close>\<close>
  "py_int (PInt n) = Inr n"
| "py_int (PBool b) = Inr (if b then 1 else 0)"
| "py_int (PFloat r) = Inr (trunc r)"
| "py_int (PStr s) = (case parse_int s of None \<Rightarrow> Inl ValueError | Some n \<Rightarrow> Inr n)"
| "py_int _ = Inl TypeError"

section \<open>Text of a value\<close>

function frac_digits :: "nat \<Rightarrow> rat \<Rightarrow> string" where
  "frac_digits n r = (if n = 0 \<or> r = 0 then [] else
     (let d = \<lfloor>10 * r\<rfloor> in digit_char (nat d) # frac_digits (n - 1) (10 * r - of_int d)))"
  by pat_completeness auto
termination
  by (relation "measure fst") auto

declare frac_digits.simps [simp del]

definition float_str :: "rat \<Rightarrow> string" where
  "float_str r = (let a = \<bar>r\<bar>; n = \<lfloor>a\<rfloor>; fs = frac_digits 17 (a - of_int n)
     in (if r < 0 then ''-'' else '''') @ nat_str (nat n) @ ''.'' @ (if fs = [] then ''0'' else fs))"

definition hex_char :: "nat \<Rightarrow> char" where
  "hex_char n = (if n < 10 then char_of (48 + n) else char_of (87 + n))"

definition repr_char :: "char \<Rightarrow> char \<Rightarrow> string" where
  "repr_char q c = (let n = of_char c :: nat in
     if c = q \<or> n = 92 then [char_of (92 :: nat), c]
     else if n = 10 then [char_of (92 :: nat), CHR ''n'']
     else if n = 13 then [char_of (92 :: nat), CHR ''r'']
     else if n = 9 then [char_of (92 :: nat), CHR ''t'']
     else if n < 32 \<or> n = 127 then [char_of (92 :: nat), CHR ''x'', hex_char (n div 16), hex_char (n mod 16)]
     else [c])"

definition repr_str :: "string \<Rightarrow> string" where
  \<comment> \<open>single quotes, unless the text has a single and no double quote\<close>
  "repr_str s = (let q = (if CHR 0x27 \<in> set s \<and> CHR 0x22 \<notin> set s then CHR 0x22 else CHR 0x27)
     in q # concat (map (repr_char q) s) @ [q])"

fun py_repr :: "pyval \<Rightarrow> string" where
  "py_repr PNone = ''None''"
| "py_repr (PBool b) = (if b then ''True'' else ''False'')"
| "py_repr (PInt n) = int_str n"
| "py_repr (PFloat r) = float_str r"
| "py_repr (PStr s) = repr_str s"
| "py_repr (PList xs) = ''['' @ join '', '' (map py_repr xs) @ '']''"
| "py_repr (PDict d) = ''{'' @ join '', '' (map (\<lambda>p. repr_str (fst p) @ '': '' @ py_repr (snd p)) d) @ ''}''"

definition py_str :: "pyval \<Rightarrow> string" where
  "py_str v = (case v of PStr s \<Rightarrow> s | _ \<Rightarrow> py_repr v)"

section \<open>Dictionary laws\<close>

lemma map_of_dset [simp]: "map_of (dset d k v) = (map_of d)(k \<mapsto> v)"
  by (induction d k v rule: dset.induct) (auto simp: fun_eq_iff)

lemma dget_dset: "dget (dset d k v) k' = (if k' = k then v else dget d k')"
  by (simp add: dget_def)

lemma set_fst_dset: "fst ` set (dset d k v) = insert k (fst ` set d)"
  by (induction d k v rule: dset.induct) auto

lemma distinct_dset: "distinct (map fst d) \<Longrightarrow> distinct (map fst (dset d k v))"
proof (induction d k v rule: dset.induct)
  case (2 k' v' d k v)
  then show ?case using set_fst_dset [of d k v] by (auto simp: image_image)
qed simp

lemma truthy_py_or: "truthy (py_or a b) \<longleftrightarrow> truthy a \<or> truthy b"
  by (simp add: py_or_def)

lemma parse_digits_append:
  "parse_digits acc sep (s @ [digit_char d]) =
     (if d < 10 then map_option (\<lambda>n. 10 * n + d) (if s = [] then Some acc else
        (case parse_digits acc sep s of None \<Rightarrow> None | Some n \<Rightarrow> Some n)) else None)"
  if "d < 10" "\<forall>c \<in> set s. digit_val c \<noteq> None"
  using that
proof (induction s arbitrary: acc sep)
  case Nil
  then show ?case by (simp add: digit_val_def digit_char_def)
next
  case (Cons c s)
  then show ?case by (cases s) (auto split: option.splits)
qed

lemma digit_val_digit_char [simp]: "d < 10 \<Longrightarrow> digit_val (digit_char d) = Some d"
  by (simp add: digit_val_def digit_char_def)

lemma digits_nat_str: "\<forall>c \<in> set (nat_str n). digit_val c \<noteq> None"
proof
  fix c assume "c \<in> set (nat_str n)"
  with set_nat_str obtain d where "d \<le> 9" "c = digit_char d" by fastforce
  then show "digit_val c \<noteq> None" by simp
qed

lemma parse_digits_nat_str: "parse_digits 0 False (nat_str n) = Some n"
proof (induction n rule: nat_str.induct)
  case (1 n)
  show ?case
  proof (cases "n < 10")
    case True
    then show ?thesis by (simp add: nat_str.simps [of n])
  next
    case False
    with 1 show ?thesis
      using parse_digits_append [of "n mod 10" "nat_str (n div 10)" 0 False] digits_nat_str
      by (simp add: nat_str.simps [of n])
  qed
qed

end
