(* ===== verification/Lub_LimitRules.thy ===== *)
theory Lub_LimitRules
  imports Lub_PyVal
begin

text \<open>
  The shared data structures of the limit layer, \<open>limits/rules.py\<close>: one record per
  dataclass, with the defaults of the dataclass as a constant of the same name suffixed
  \<open>_default\<close> where the sources rely on them, and the derived keys as definitions.
\<close>

record window_spec =
  ws_type :: string
  ws_seconds :: "int option"
  ws_calendar :: "string option"
  ws_timezone :: string

definition window_spec_default :: window_spec where
  "window_spec_default = \<lparr>ws_type = ''rolling'', ws_seconds = None, ws_calendar = None, ws_timezone = ''Asia/Shanghai''\<rparr>"

record limit_rule =
  lr_name :: string
  lr_scope :: string
  lr_metric :: string
  lr_limit :: int
  lr_window_seconds :: "int option"
  lr_window_type :: string
  lr_window :: "window_spec option"
  lr_hard :: bool
  lr_action :: string
  lr_source :: string

record limit_subject =
  sub_provider :: string
  sub_account :: string
  sub_model :: string
  sub_routed_model :: string
  sub_api_key :: "string option"
  sub_route_id :: "string option"

definition account_key :: "limit_subject \<Rightarrow> key" where
  "account_key u = ''account:'' @ sub_provider u @ '':'' @ sub_account u"

definition subject_model :: "limit_subject \<Rightarrow> string" where
  "subject_model u = (if sub_routed_model u \<noteq> [] then sub_routed_model u else sub_model u)"

definition model_key :: "limit_subject \<Rightarrow> key" where
  "model_key u = ''model:'' @ subject_model u"

definition provider_model_key :: "limit_subject \<Rightarrow> key" where
  "provider_model_key u = ''provider-model:'' @ sub_provider u @ '':'' @ subject_model u"

record limit_block =
  lb_rule :: string
  lb_reason :: string
  lb_retry_after :: "int option"
  lb_current :: "int option"
  lb_limit :: "int option"

record limit_decision =
  ld_allowed :: bool
  ld_reason :: string
  ld_retry_after :: "int option"
  ld_details :: pydict
  ld_blocked_by :: "limit_block list"
  ld_headroom :: "(string \<times> rat) list"

definition decision :: "bool \<Rightarrow> string \<Rightarrow> int option \<Rightarrow> pydict \<Rightarrow> limit_decision" where
  "decision a r ra d = \<lparr>ld_allowed = a, ld_reason = r, ld_retry_after = ra, ld_details = d, ld_blocked_by = [], ld_headroom = []\<rparr>"

text \<open>
  The dictionary of window identifiers. Its only producer is
  \<open>RedisLimitBackend._reservation_window_ids\<close>, which always sets these seven keys.
\<close>

record wids =
  w_rpm :: string
  w_rph :: string
  w_rpd :: string
  w_tpm :: string
  w_tph :: string
  w_tpd :: string
  w_model_tpm :: string

record limit_lease =
  lease_subject :: limit_subject
  lease_id :: string
  reservation_id :: string
  acquired_at :: time
  expires_at :: "time option"
  concurrency_acquired :: bool
  local_fallback :: bool
  acquired_keys :: "key list"
  reserved_amounts :: "(string \<times> int) list"
  window_ids :: "wids option"
  test_probe :: bool
  settled :: bool
  rolled_back :: bool
  renewal_task :: bool

text \<open>
  \<open>renewal_task\<close> holds a task object in the source; the model keeps whether there is one.
  \<open>window_ids = None\<close> is the empty dictionary of the default.
\<close>

definition lease_default :: "limit_subject \<Rightarrow> string \<Rightarrow> time \<Rightarrow> limit_lease" where
  "lease_default u i t = \<lparr>lease_subject = u, lease_id = i, reservation_id = '''', acquired_at = t, expires_at = None,
     concurrency_acquired = False, local_fallback = False, acquired_keys = [], reserved_amounts = [], window_ids = None,
     test_probe = False, settled = False, rolled_back = False, renewal_task = False\<rparr>"

record limit_reservation =
  lres_lease :: "limit_lease option"
  lres_decision :: limit_decision

definition reservation_allowed :: "limit_reservation \<Rightarrow> bool" where
  "reservation_allowed r \<longleftrightarrow> lres_lease r \<noteq> None \<and> ld_allowed (lres_decision r)"

record upstream_quota_snapshot =
  uq_rule :: string
  uq_provider :: string
  uq_metric :: string
  uq_scope :: string
  uq_subject :: string
  uq_limit :: "int option"
  uq_remaining :: "int option"
  uq_used :: "int option"
  uq_reset_at :: "time option"
  uq_source :: string
  uq_updated_at :: time

definition snapshot_key :: "upstream_quota_snapshot \<Rightarrow> key" where
  \<comment> \<open>\<open>ProviderLimitState.update_snapshot\<close>, the key the snapshot is stored under\<close>
  "snapshot_key q = uq_metric q @ '':'' @ uq_scope q @ '':'' @ uq_subject q"

end
