(* ===== verification/Lub_Ledger.thy ===== *)
theory Lub_Ledger
  imports Lub_Redis Lub_LimitRules
begin

text \<open>
  The reservation ledger of \<open>limits/backend.py\<close> (class \<open>RedisLimitBackend\<close>): the keys, the
  window identifiers and the Lua scripts that reserve, roll back, reconcile, renew and release
  one account reservation, and the reaper of orphaned reservations. Every script is a function
  of the Redis parameter and the server state; a script's reply is a record of the array it
  returns. Redis turns a Lua number of a reply into an integer, which \<open>trunc\<close> is.

  The lemmas relate the hash of one metric and window to a finite map from reservation
  identifiers to amounts (\<open>ledger_rel\<close>): each script refines an update of that map, and the
  stored \<open>__total\<close> is the sum of the map.
\<close>

section \<open>Keys and windows\<close>

definition be_key :: "string option \<Rightarrow> key \<Rightarrow> key" where
  \<comment> \<open>\<open>_key\<close>: the client's key prefix, if one is configured\<close>
  "be_key pfx k = (case pfx of Some p \<Rightarrow> if p \<noteq> [] then p @ '':'' @ k else k | None \<Rightarrow> k)"

lemma be_key_inj [simp]: "be_key pfx a = be_key pfx b \<longleftrightarrow> a = b"
  by (auto simp: be_key_def split: option.splits)

definition bare_key :: "string option \<Rightarrow> key \<Rightarrow> key" where
  "bare_key pfx k = (case pfx of
      Some p \<Rightarrow> if p \<noteq> [] \<and> startswith k (p @ '':'') then drop (length p + 1) k else k
    | None \<Rightarrow> k)"

definition RESERVATION_PREFIX :: string where "RESERVATION_PREFIX = ''limit:reservation:v1''"
definition RESERVATION_INDEX :: string where "RESERVATION_INDEX = ''limit:reservation:v1:active''"
definition PROCESS_HEARTBEAT_PREFIX :: string where "PROCESS_HEARTBEAT_PREFIX = ''limit:process-heartbeat''"
definition RESERVATION_GRACE :: int where "RESERVATION_GRACE = 60"

definition reservation_meta_key :: "string \<Rightarrow> key" where
  "reservation_meta_key rid = RESERVATION_PREFIX @ '':meta:'' @ rid"

definition process_heartbeat_key :: "string \<Rightarrow> key" where
  "process_heartbeat_key boot = PROCESS_HEARTBEAT_PREFIX @ '':'' @ boot"

text \<open>
  The local calendar of the host (its time zone) is a parameter: the label of the day a time
  lies in, the seconds to the next local midnight, the day of the week (0 is Monday) and the seconds to
  the first midnight of the next month.
\<close>

record calendar =
  day_label :: "time \<Rightarrow> string"
  to_midnight :: "time \<Rightarrow> rat"
  weekday :: "time \<Rightarrow> int"
  to_next_month :: "time \<Rightarrow> rat"

definition day_window_id_ttl :: "calendar \<Rightarrow> time \<Rightarrow> string \<times> int" where
  "day_window_id_ttl cal now = (day_label cal now, max 1 (trunc (to_midnight cal now)))"

definition reservation_window_ids :: "calendar \<Rightarrow> time \<Rightarrow> wids" where
  "reservation_window_ids cal now =
     (let day = fst (day_window_id_ttl cal now)
      in \<lparr>w_rpm = int_str \<lfloor>now / 60\<rfloor>, w_rph = int_str \<lfloor>now / 3600\<rfloor>, w_rpd = day,
          w_tpm = int_str \<lfloor>now / 60\<rfloor>, w_tph = int_str \<lfloor>now / 3600\<rfloor>, w_tpd = day,
          w_model_tpm = int_str \<lfloor>now / 60\<rfloor>\<rparr>)"

definition ledger_key :: "string option \<Rightarrow> string \<Rightarrow> string \<Rightarrow> string \<Rightarrow> string \<Rightarrow> key" where
  "ledger_key pfx scope subject_key metric window_id =
     be_key pfx (RESERVATION_PREFIX @ '':'' @ scope @ '':'' @ subject_key @ '':'' @ metric @ '':'' @ window_id)"

record account_keys =
  ak_rpm :: key
  ak_rph :: key
  ak_rpd :: key
  ak_tpm :: key
  ak_tph :: key
  ak_tpd :: key

definition account_ledger_keys :: "string option \<Rightarrow> string \<Rightarrow> wids \<Rightarrow> account_keys" where
  "account_ledger_keys pfx ak w =
     (let lk = (\<lambda>m wid. ledger_key pfx ''account'' ak m wid)
      in \<lparr>ak_rpm = lk ''rpm'' (w_rpm w), ak_rph = lk ''rph'' (w_rph w), ak_rpd = lk ''rpd'' (w_rpd w),
          ak_tpm = lk ''tpm'' (w_tpm w), ak_tph = lk ''tph'' (w_tph w), ak_tpd = lk ''tpd'' (w_tpd w)\<rparr>)"

definition model_ledger_key :: "string option \<Rightarrow> string \<Rightarrow> string \<Rightarrow> key" where
  "model_ledger_key pfx model_id window_id = ledger_key pfx ''model'' (''model:'' @ model_id) ''tpm'' window_id"

definition concurrency_key :: "string option \<Rightarrow> string \<Rightarrow> key" where
  "concurrency_key pfx ak = be_key pfx (''limit:account-reserve:'' @ ak @ '':concurrency'')"

section \<open>The reserve script\<close>

record reserve_args =
  ra_conc_key :: key
  ra_rpm_key :: key
  ra_rpd_key :: key
  ra_freeze_key :: key
  ra_model_freeze_key :: key
  ra_account_model_freeze_key :: key
  ra_rph_key :: key
  ra_tpm_key :: key
  ra_tph_key :: key
  ra_tpd_key :: key
  ra_model_tpm_key :: key
  ra_index_key :: key
  ra_meta_key :: key
  ra_now :: time
  ra_concurrent_limit :: int
  ra_concurrency_ttl :: int
  ra_rid :: string
  ra_rpm_limit :: int
  ra_rpm_ttl :: int
  ra_rpd_limit :: int
  ra_rpd_ttl :: int
  ra_rph_limit :: int
  ra_rph_ttl :: int
  ra_token_amount :: int
  ra_tpm_limit :: int
  ra_tpm_ttl :: int
  ra_tph_limit :: int
  ra_tph_ttl :: int
  ra_tpd_limit :: int
  ra_tpd_ttl :: int
  ra_model_tpm_limit :: int
  ra_model_tpm_ttl :: int
  ra_allow_overflow :: bool
  ra_grace :: int
  ra_account_key :: string
  ra_model_id :: string
  ra_window_ids :: wids
  ra_boot_id :: string
  ra_meta_ttl :: int
  ra_skip_freeze :: bool

record reserve_reply =
  rr_allowed :: bool
  rr_reason :: string
  rr_ttl :: int
  rr_rpm :: int
  rr_rpd :: int
  rr_concurrent_used :: int
  rr_lease_expires_at :: int
  rr_rph :: int
  rr_token_used :: "int list"
  rr_model_freeze :: int

definition denied :: "string \<Rightarrow> int \<Rightarrow> int \<Rightarrow> reserve_reply" where
  "denied reason ttl used = \<lparr>rr_allowed = False, rr_reason = reason, rr_ttl = ttl, rr_rpm = 0, rr_rpd = 0,
     rr_concurrent_used = used, rr_lease_expires_at = 0, rr_rph = 0, rr_token_used = [], rr_model_freeze = 0\<rparr>"

definition freeze_gate :: "'s redis \<Rightarrow> reserve_args \<Rightarrow> 's \<Rightarrow> reserve_reply option" where
  "freeze_gate R A s =
     (if ra_skip_freeze A then None
      else if 0 < r_ttl R s (ra_freeze_key A) then Some (denied ''frozen'' (r_ttl R s (ra_freeze_key A)) 0)
      else if 0 < r_ttl R s (ra_model_freeze_key A)
        then Some (denied ''model_frozen'' (r_ttl R s (ra_model_freeze_key A)) 0)
      else if 0 < r_ttl R s (ra_account_model_freeze_key A)
        then Some (denied ''account_model_frozen'' (r_ttl R s (ra_account_model_freeze_key A)) 0)
      else None)"

definition concurrency_gate :: "'s redis \<Rightarrow> reserve_args \<Rightarrow> 's \<Rightarrow> 's \<times> reserve_reply option" where
  "concurrency_gate R A s =
     (if 0 < ra_concurrent_limit A then
        (let k = ra_conc_key A;
             s1 = r_exec R (ZREMRANGEBYSCORE k 0 (ra_now A)) s;
             used = int (r_zcard R s1 k)
         in if ra_concurrent_limit A \<le> used then
              (let retry = (case r_zfirst R s1 k of None \<Rightarrow> 1 | Some e \<Rightarrow> max 1 \<lceil>e - ra_now A\<rceil>)
               in (s1, Some (denied ''concurrent'' retry used)))
            else (s1, None))
      else (s, None))"

definition projected :: "'s redis \<Rightarrow> 's \<Rightarrow> key \<Rightarrow> string \<Rightarrow> int \<Rightarrow> int" where
  "projected R s k rid amount =
     (let old_n = num_of (r_hget R s k rid);
          total = num_of (r_hget R s k ''__total'');
          next_total = total - old_n + amount
      in if next_total < 0 then 0 else next_total)"

definition state_field :: "string \<Rightarrow> string" where
  "state_field rid = rid @ '':state''"

definition ledger_write :: "'s redis \<Rightarrow> key \<Rightarrow> string \<Rightarrow> int \<Rightarrow> int \<Rightarrow> int \<Rightarrow> int \<Rightarrow> 's \<Rightarrow> 's" where
  "ledger_write R k rid amount next_total ttl grace s =
     (let s1 = r_exec R (HSET k [(rid, HNum amount), (state_field rid, HStr ''reserved''),
                                 (''__total'', HNum next_total)]) s
      in if r_ttl R s1 k < 0 then r_exec R (EXPIRE k (ttl + grace)) s1 else s1)"

definition token_specs :: "reserve_args \<Rightarrow> (key \<times> int \<times> int) list" where
  "token_specs A =
     [(ra_tpm_key A, ra_tpm_limit A, ra_tpm_ttl A), (ra_tph_key A, ra_tph_limit A, ra_tph_ttl A),
      (ra_tpd_key A, ra_tpd_limit A, ra_tpd_ttl A), (ra_model_tpm_key A, ra_model_tpm_limit A, ra_model_tpm_ttl A)]"

fun token_gate_loop :: "'s redis \<Rightarrow> string \<Rightarrow> int \<Rightarrow> 's \<Rightarrow> (key \<times> int \<times> int) list \<Rightarrow> reserve_reply option" where
  "token_gate_loop R rid amount s [] = None"
| "token_gate_loop R rid amount s ((k, cap, ttl) # specs) =
     (if 0 < cap \<and> cap \<le> projected R s k rid amount then
        Some (denied ''token_limit'' (if r_ttl R s k < 0 then ttl else r_ttl R s k) 0)
      else token_gate_loop R rid amount s specs)"

definition token_gate :: "'s redis \<Rightarrow> reserve_args \<Rightarrow> 's \<Rightarrow> reserve_reply option" where
  "token_gate R A s =
     (if 0 < ra_token_amount A \<and> \<not> ra_allow_overflow A
      then token_gate_loop R (ra_rid A) (ra_token_amount A) s (token_specs A) else None)"

text \<open>The freeze decided so far: its reason and its length, 0 for none.\<close>

type_synonym freeze_acc = "string \<times> int"

definition raise_freeze :: "string \<Rightarrow> int \<Rightarrow> freeze_acc \<Rightarrow> freeze_acc" where
  "raise_freeze name ttl fz = (if snd fz = 0 \<or> snd fz < ttl then (name, ttl) else fz)"

definition count_step :: "'s redis \<Rightarrow> reserve_args \<Rightarrow> string \<Rightarrow> key \<Rightarrow> int \<Rightarrow> int \<Rightarrow> 's \<times> freeze_acc \<Rightarrow> ('s \<times> freeze_acc) \<times> int" where
  "count_step R A name k cap ttl st =
     (case st of (s, fz) \<Rightarrow>
       if 0 < cap then
         (let n = projected R s k (ra_rid A) 1;
              s1 = ledger_write R k (ra_rid A) 1 n ttl (ra_grace A) s
          in ((s1, if cap \<le> n then raise_freeze name (r_ttl R s1 k) fz else fz), n))
       else ((s, fz), 0))"

record token_acc =
  ta_freeze :: freeze_acc
  ta_used :: "int list"
  ta_model_freeze :: int

definition token_step :: "'s redis \<Rightarrow> reserve_args \<Rightarrow> string \<Rightarrow> bool \<Rightarrow> key \<times> int \<times> int \<Rightarrow> 's \<times> token_acc \<Rightarrow> 's \<times> token_acc" where
  "token_step R A name is_model spec st =
     (case st of (s, a) \<Rightarrow> case spec of (k, cap, ttl) \<Rightarrow>
       if 0 < cap then
         (let n = projected R s k (ra_rid A) (ra_token_amount A);
              s1 = ledger_write R k (ra_rid A) (ra_token_amount A) n ttl (ra_grace A) s;
              a1 = a\<lparr>ta_used := ta_used a @ [n]\<rparr>;
              remaining = r_ttl R s1 k
          in if cap \<le> n \<and> 0 < remaining then
               (if is_model then (r_exec R (SETEX (ra_model_freeze_key A) (HStr ''reservation:model_tpm'') remaining) s1,
                                  a1\<lparr>ta_model_freeze := remaining\<rparr>)
                else (s1, a1\<lparr>ta_freeze := raise_freeze name remaining (ta_freeze a)\<rparr>))
             else (s1, a1))
       else (s, a\<lparr>ta_used := ta_used a @ [0]\<rparr>))"

definition token_names :: "string list" where
  "token_names = [''tpm'', ''tph'', ''tpd'', ''model_tpm'']"

definition token_phase :: "'s redis \<Rightarrow> reserve_args \<Rightarrow> freeze_acc \<Rightarrow> 's \<Rightarrow> 's \<times> token_acc" where
  "token_phase R A fz s =
     (let a0 = \<lparr>ta_freeze = fz, ta_used = [], ta_model_freeze = 0\<rparr>
      in if 0 < ra_token_amount A
         then fold (\<lambda>(name, spec). token_step R A name (name = ''model_tpm'') spec) (zip token_names (token_specs A)) (s, a0)
         else (s, a0\<lparr>ta_used := [0, 0, 0, 0]\<rparr>))"

definition wids_json :: "wids \<Rightarrow> (string \<times> string) list" where
  "wids_json w = [(''rpm'', w_rpm w), (''rph'', w_rph w), (''rpd'', w_rpd w), (''tpm'', w_tpm w),
     (''tph'', w_tph w), (''tpd'', w_tpd w), (''model_tpm'', w_model_tpm w)]"

definition register_phase :: "'s redis \<Rightarrow> reserve_args \<Rightarrow> 's \<Rightarrow> 's" where
  "register_phase R A s =
     (if \<not> ra_skip_freeze A then
        (let s1 = r_exec R (SADD (ra_index_key A) (ra_rid A)) s;
             s2 = r_exec R (HSET (ra_meta_key A) [(''account_key'', HStr (ra_account_key A)), (''model_id'', HStr (ra_model_id A)),
                    (''window_ids'', HJson (wids_json (ra_window_ids A))), (''boot_id'', HStr (ra_boot_id A))]) s1
         in r_exec R (EXPIRE (ra_meta_key A) (ra_meta_ttl A)) s2)
      else s)"

definition lease_phase :: "'s redis \<Rightarrow> reserve_args \<Rightarrow> 's \<Rightarrow> 's \<times> int" where
  "lease_phase R A s =
     (if 0 < ra_concurrent_limit A then
        (let e = ra_now A + of_int (ra_concurrency_ttl A);
             s1 = r_exec R (ZADD (ra_conc_key A) e (ra_rid A)) s
         in (r_exec R (EXPIRE (ra_conc_key A) (ra_concurrency_ttl A + 60)) s1, trunc e))
      else (s, 0))"

definition freeze_phase :: "'s redis \<Rightarrow> reserve_args \<Rightarrow> freeze_acc \<Rightarrow> 's \<Rightarrow> 's" where
  "freeze_phase R A fz s =
     (if 0 < snd fz then r_exec R (SETEX (ra_freeze_key A) (HStr (''reservation:'' @ fst fz)) (snd fz)) s else s)"

definition count_phase :: "'s redis \<Rightarrow> reserve_args \<Rightarrow> 's \<Rightarrow> ('s \<times> freeze_acc) \<times> int \<times> int \<times> int" where
  "count_phase R A s =
     (let (st1, rpm) = count_step R A ''rpm'' (ra_rpm_key A) (ra_rpm_limit A) (ra_rpm_ttl A) (s, ('''', 0));
          (st2, rpd) = count_step R A ''rpd'' (ra_rpd_key A) (ra_rpd_limit A) (ra_rpd_ttl A) st1;
          (st3, rph) = count_step R A ''rph'' (ra_rph_key A) (ra_rph_limit A) (ra_rph_ttl A) st2
      in (st3, rpm, rpd, rph))"

definition reserve_commit :: "'s redis \<Rightarrow> reserve_args \<Rightarrow> 's \<Rightarrow> 's \<times> reserve_reply" where
  \<comment> \<open>the part of the script after the gates: every write of an admitted reservation\<close>
  "reserve_commit R A s =
     (let ((s1, fz1), rpm, rpd, rph) = count_phase R A s;
          (s2, a) = token_phase R A fz1 s1;
          s3 = freeze_phase R A (ta_freeze a) s2;
          s4 = register_phase R A s3;
          (s5, lease_expires) = lease_phase R A s4
      in (s5, \<lparr>rr_allowed = True, rr_reason = fst (ta_freeze a), rr_ttl = snd (ta_freeze a), rr_rpm = rpm, rr_rpd = rpd,
               rr_concurrent_used = 0, rr_lease_expires_at = lease_expires, rr_rph = rph,
               rr_token_used = ta_used a, rr_model_freeze = ta_model_freeze a\<rparr>))"

definition reserve_script :: "'s redis \<Rightarrow> reserve_args \<Rightarrow> 's \<Rightarrow> 's \<times> reserve_reply" where
  "reserve_script R A s =
     (case freeze_gate R A s of
        Some r \<Rightarrow> (s, r)
      | None \<Rightarrow> (case concurrency_gate R A s of
          (s1, Some r) \<Rightarrow> (s1, r)
        | (s1, None) \<Rightarrow> (case token_gate R A s1 of
            Some r \<Rightarrow> (s1, r)
          | None \<Rightarrow> reserve_commit R A s1)))"

section \<open>The connection\<close>

text \<open>
  A call of the client reaches the server or not, and its reply comes back or not; the
  sources turn every failure into an exception they catch. \<open>conn_faults\<close> lists the outcomes of
  the next calls (an exhausted list means that calls succeed); theorems hold for every list.
\<close>

datatype net = Delivered | LostRequest | LostReply

record 's conn =
  conn_client :: bool
  conn_prefix :: "string option"
  conn_store :: 's
  conn_faults :: "net list"

definition call :: "('s \<Rightarrow> 's \<times> 'a) \<Rightarrow> 's conn \<Rightarrow> 's conn \<times> 'a option" where
  "call f c =
     (let (s1, a) = f (conn_store c); c1 = c\<lparr>conn_faults := tl (conn_faults c)\<rparr>
      in case conn_faults c of
           LostRequest # _ \<Rightarrow> (c1, None)
         | LostReply # _ \<Rightarrow> (c1\<lparr>conn_store := s1\<rparr>, None)
         | _ \<Rightarrow> (c1\<lparr>conn_store := s1\<rparr>, Some a))"

definition get_key :: "string option \<Rightarrow> key \<Rightarrow> key" where
  \<comment> \<open>\<open>RedisJdbc.get_key\<close>, applied by the overridden client methods\<close>
  "get_key pfx k = (case pfx of Some p \<Rightarrow> p @ '':'' @ k | None \<Rightarrow> k)"

section \<open>reserve_account_limits\<close>

record reserve_params =
  rp_account_key :: string
  rp_lease_id :: string
  rp_freeze_key :: key
  rp_model_freeze_key :: key
  rp_account_model_freeze_key :: key
  rp_concurrent_limit :: int
  rp_concurrency_ttl :: int
  rp_rpm_limit :: int
  rp_rpm_ttl :: int
  rp_rpd_limit :: int
  rp_rpd_ttl :: int
  rp_rph_limit :: int
  rp_rph_ttl :: int
  rp_model_id :: "string option"
  rp_token_amount :: int
  rp_tpm_limit :: int
  rp_tpm_ttl :: int
  rp_tph_limit :: int
  rp_tph_ttl :: int
  rp_tpd_limit :: int
  rp_tpd_ttl :: int
  rp_model_tpm_limit :: int
  rp_model_tpm_ttl :: int
  rp_allow_token_overflow :: bool
  rp_window_ids :: "wids option"
  rp_skip_freeze_checks :: bool

record reserve_result =
  res_allowed :: bool
  res_reason :: string
  res_ttl :: int
  res_retry_after :: int
  res_rpm :: int
  res_rpd :: int
  res_rph :: int
  res_concurrent_used :: int
  res_lease_expires_at :: int
  res_tpm :: int
  res_tph :: int
  res_tpd :: int
  res_model_tpm :: int
  res_model_tpm_freeze_ttl :: int
  res_window_ids :: wids

definition opt_str :: "string option \<Rightarrow> string option" where
  \<comment> \<open>an optional string is tested for truth: the empty one counts as absent\<close>
  "opt_str v = (case v of Some s \<Rightarrow> if s = [] then None else Some s | None \<Rightarrow> None)"

definition lease_owner :: "string \<Rightarrow> string" where
  \<comment> \<open>\<open>lease_id.split(":", 2)[1]\<close>, the boot id inside a lease id\<close>
  "lease_owner i = (if startswith i ''lease:'' \<and> 3 \<le> length (split_on (CHR '':'') i)
     then split_on (CHR '':'') i ! 1 else '''')"

definition reserve_args_of :: "string option \<Rightarrow> calendar \<Rightarrow> time \<Rightarrow> reserve_params \<Rightarrow> reserve_args" where
  "reserve_args_of pfx cal now P =
     (let w = (case rp_window_ids P of Some w \<Rightarrow> w | None \<Rightarrow> reservation_window_ids cal now);
          acc = account_ledger_keys pfx (rp_account_key P) w;
          mid = opt_str (rp_model_id P)
      in \<lparr>ra_conc_key = concurrency_key pfx (rp_account_key P),
          ra_rpm_key = ak_rpm acc, ra_rpd_key = ak_rpd acc,
          ra_freeze_key = be_key pfx (rp_freeze_key P),
          ra_model_freeze_key = be_key pfx (rp_model_freeze_key P),
          ra_account_model_freeze_key = be_key pfx (rp_account_model_freeze_key P),
          ra_rph_key = ak_rph acc, ra_tpm_key = ak_tpm acc, ra_tph_key = ak_tph acc, ra_tpd_key = ak_tpd acc,
          ra_model_tpm_key = (case mid of Some m \<Rightarrow> model_ledger_key pfx m (w_model_tpm w)
                              | None \<Rightarrow> ledger_key pfx ''model'' ''model:__none__'' ''tpm'' (w_model_tpm w)),
          ra_index_key = be_key pfx RESERVATION_INDEX,
          ra_meta_key = be_key pfx (reservation_meta_key (rp_lease_id P)),
          ra_now = now, ra_concurrent_limit = rp_concurrent_limit P, ra_concurrency_ttl = rp_concurrency_ttl P,
          ra_rid = rp_lease_id P,
          ra_rpm_limit = rp_rpm_limit P, ra_rpm_ttl = rp_rpm_ttl P,
          ra_rpd_limit = rp_rpd_limit P, ra_rpd_ttl = rp_rpd_ttl P,
          ra_rph_limit = rp_rph_limit P, ra_rph_ttl = rp_rph_ttl P,
          ra_token_amount = max 0 (rp_token_amount P),
          ra_tpm_limit = rp_tpm_limit P, ra_tpm_ttl = rp_tpm_ttl P,
          ra_tph_limit = rp_tph_limit P, ra_tph_ttl = rp_tph_ttl P,
          ra_tpd_limit = rp_tpd_limit P, ra_tpd_ttl = rp_tpd_ttl P,
          ra_model_tpm_limit = (if mid = None then 0 else rp_model_tpm_limit P),
          ra_model_tpm_ttl = rp_model_tpm_ttl P,
          ra_allow_overflow = rp_allow_token_overflow P, ra_grace = RESERVATION_GRACE,
          ra_account_key = rp_account_key P, ra_model_id = (case mid of Some m \<Rightarrow> m | None \<Rightarrow> ''''),
          ra_window_ids = w, ra_boot_id = lease_owner (rp_lease_id P),
          ra_meta_ttl = max (max (rp_rpd_ttl P) (rp_tpd_ttl P)) 86400 + RESERVATION_GRACE,
          ra_skip_freeze = rp_skip_freeze_checks P\<rparr>)"

definition nth_or_0 :: "int list \<Rightarrow> nat \<Rightarrow> int" where
  "nth_or_0 xs i = (if i < length xs then xs ! i else 0)"

definition reserve_result_of :: "wids \<Rightarrow> reserve_reply \<Rightarrow> reserve_result" where
  "reserve_result_of w r =
     (let raw_ttl = max 0 (rr_ttl r);
          transient = (rr_reason r = ''concurrent'' \<or> rr_reason r = ''token_limit'')
      in \<lparr>res_allowed = rr_allowed r, res_reason = rr_reason r,
          res_ttl = (if transient then 0 else raw_ttl), res_retry_after = (if transient then raw_ttl else 0),
          res_rpm = rr_rpm r, res_rpd = rr_rpd r, res_rph = rr_rph r,
          res_concurrent_used = rr_concurrent_used r, res_lease_expires_at = rr_lease_expires_at r,
          res_tpm = nth_or_0 (rr_token_used r) 0, res_tph = nth_or_0 (rr_token_used r) 1,
          res_tpd = nth_or_0 (rr_token_used r) 2, res_model_tpm = nth_or_0 (rr_token_used r) 3,
          res_model_tpm_freeze_ttl = max 0 (rr_model_freeze r), res_window_ids = w\<rparr>)"

definition reserve_account_limits :: "'s redis \<Rightarrow> calendar \<Rightarrow> time \<Rightarrow> reserve_params \<Rightarrow> 's conn \<Rightarrow> 's conn \<times> reserve_result option" where
  "reserve_account_limits R cal now P c =
     (if \<not> conn_client c then (c, None)
      else (let A = reserve_args_of (conn_prefix c) cal now P; (c1, r) = call (reserve_script R A) c
            in (c1, map_option (reserve_result_of (ra_window_ids A)) r)))"

section \<open>rollback_account_reservation and finalize_reservation\<close>

fun rollback_loop :: "'s redis \<Rightarrow> string \<Rightarrow> key list \<Rightarrow> int \<Rightarrow> 's \<Rightarrow> 's \<times> int option" where
  \<comment> \<open>\<open>None\<close>: the script stops with an error (\<open>tonumber\<close> of a non-number in arithmetic)\<close>
  "rollback_loop R rid [] removed s = (s, Some removed)"
| "rollback_loop R rid (k # ks) removed s =
     (case r_hget R s k rid of
        None \<Rightarrow> rollback_loop R rid ks removed s
      | Some (HNum old) \<Rightarrow>
          (let n = num_of (r_hget R s k ''__total'') - old;
               s1 = r_exec R (HSET k [(''__total'', HNum (if n < 0 then 0 else n))]) s;
               s2 = r_exec R (HDEL k [rid, state_field rid]) s1
           in rollback_loop R rid ks (removed + 1) s2)
      | Some _ \<Rightarrow> (s, None))"

definition rollback_script :: "'s redis \<Rightarrow> string \<Rightarrow> key list \<Rightarrow> key \<Rightarrow> key \<Rightarrow> 's \<Rightarrow> 's \<times> int option" where
  "rollback_script R rid ledgers index meta s =
     (case rollback_loop R rid ledgers 0 s of
        (s1, None) \<Rightarrow> (s1, None)
      | (s1, Some removed) \<Rightarrow> (r_exec R (DEL meta) (r_exec R (SREM index rid) s1), Some removed))"

definition rollback_keys :: "string option \<Rightarrow> string \<Rightarrow> string option \<Rightarrow> wids \<Rightarrow> key list" where
  "rollback_keys pfx ak model_id w =
     (let acc = account_ledger_keys pfx ak w
      in [ak_rpm acc, ak_rph acc, ak_rpd acc, ak_tpm acc, ak_tph acc, ak_tpd acc] @
         (case opt_str model_id of Some m \<Rightarrow> [model_ledger_key pfx m (w_model_tpm w)] | None \<Rightarrow> []))"

definition rollback_account_reservation ::
  "'s redis \<Rightarrow> calendar \<Rightarrow> time \<Rightarrow> string \<Rightarrow> string option \<Rightarrow> string \<Rightarrow> wids option \<Rightarrow> 's conn \<Rightarrow> 's conn \<times> int option" where
  \<comment> \<open>the number of ledgers the reservation was removed from, \<open>None\<close> on failure\<close>
  "rollback_account_reservation R cal now ak model_id rid wo c =
     (if \<not> conn_client c \<or> ak = [] \<or> rid = [] then (c, None)
      else (let pfx = conn_prefix c;
                w = (case wo of Some w \<Rightarrow> w | None \<Rightarrow> reservation_window_ids cal now);
                (c1, r) = call (rollback_script R rid (rollback_keys pfx ak model_id w)
                   (be_key pfx RESERVATION_INDEX) (be_key pfx (reservation_meta_key rid))) c
            in (c1, Option.bind r id)))"

definition finalize_reservation :: "'s redis \<Rightarrow> string \<Rightarrow> 's conn \<Rightarrow> 's conn" where
  "finalize_reservation R rid c =
     (if \<not> conn_client c \<or> rid = [] then c
      else (let pfx = conn_prefix c;
                meta_key = be_key pfx (reservation_meta_key rid);
                (c1, r) = call (\<lambda>s. (r_exec R (SREM (be_key pfx RESERVATION_INDEX) rid) s, ())) c
            in case r of
                 None \<Rightarrow> c1
               | Some _ \<Rightarrow> fst (call (\<lambda>s. (r_exec R (DEL (get_key pfx (bare_key pfx meta_key))) s, ())) c1)))"

section \<open>Process heartbeats and the orphan reaper\<close>

definition set_process_heartbeat :: "'s redis \<Rightarrow> string \<Rightarrow> int \<Rightarrow> 's conn \<Rightarrow> 's conn \<times> bool" where
  "set_process_heartbeat R boot ttl c =
     (if \<not> conn_client c \<or> boot = [] \<or> ttl \<le> 0 then (c, False)
      else (let (c1, r) = call (\<lambda>s. (r_exec R (SETEX (get_key (conn_prefix c) (process_heartbeat_key boot)) (HNum 1) ttl) s, ())) c
            in (c1, r \<noteq> None)))"

definition process_alive :: "'s redis \<Rightarrow> string \<Rightarrow> 's conn \<Rightarrow> 's conn \<times> bool" where
  "process_alive R boot c =
     (if \<not> conn_client c \<or> boot = [] then (c, True)
      else (let (c1, r) = call (\<lambda>s. (s, r_exists R s (be_key (conn_prefix c) (process_heartbeat_key boot)))) c
            in (c1, case r of None \<Rightarrow> True | Some b \<Rightarrow> b)))"

definition json_text :: "(string \<times> string) list \<Rightarrow> string" where
  \<comment> \<open>\<open>json.dumps\<close> of a dictionary of plain strings with the compact separators\<close>
  "json_text kvs = ''{'' @ join '','' (map (\<lambda>(k, v). [CHR 0x22] @ k @ [CHR 0x22] @ '':'' @ [CHR 0x22] @ v @ [CHR 0x22]) kvs) @ ''}''"

fun hval_text :: "hval \<Rightarrow> string" where
  "hval_text (HNum n) = int_str n"
| "hval_text (HStr s) = s"
| "hval_text (HJson kvs) = json_text kvs"

text \<open>
  The reply of \<open>HGETALL\<close> on a reservation's metadata, as the fields the sources read;
  \<open>None\<close> is the empty dictionary.
\<close>

record resv_meta =
  meta_boot_id :: "hval option"
  meta_account_key :: "hval option"
  meta_model_id :: "hval option"
  meta_window_ids :: "hval option"

definition read_meta :: "'s redis \<Rightarrow> key \<Rightarrow> 's \<Rightarrow> resv_meta option" where
  "read_meta R k s =
     (if r_exists R s k then
        Some \<lparr>meta_boot_id = r_hget R s k ''boot_id'', meta_account_key = r_hget R s k ''account_key'',
              meta_model_id = r_hget R s k ''model_id'', meta_window_ids = r_hget R s k ''window_ids''\<rparr>
      else None)"

definition decode_meta_field :: "hval option \<Rightarrow> string" where
  "decode_meta_field v = (case v of None \<Rightarrow> '''' | Some h \<Rightarrow> hval_text h)"

definition meta_wids :: "hval option \<Rightarrow> pyerror + wids option" where
  \<comment> \<open>\<open>json.loads\<close> of the stored text and the look-ups of the windows in it\<close>
  "meta_wids v = (case v of
      Some (HJson kvs) \<Rightarrow>
        (if kvs = [] then Inr None
         else (case map (map_of kvs) [''rpm'', ''rph'', ''rpd'', ''tpm'', ''tph'', ''tpd'', ''model_tpm''] of
             [Some a, Some b, Some d, Some e, Some f, Some g, Some h] \<Rightarrow>
               Inr (Some \<lparr>w_rpm = a, w_rph = b, w_rpd = d, w_tpm = e, w_tph = f, w_tpd = g, w_model_tpm = h\<rparr>)
           | _ \<Rightarrow> Inl KeyError))
    | Some (HNum n) \<Rightarrow> (if n = 0 then Inr None else Inl TypeError)
    | _ \<Rightarrow> Inr None)"

definition reap_one ::
  "'s redis \<Rightarrow> calendar \<Rightarrow> time \<Rightarrow> string \<Rightarrow> string \<Rightarrow> resv_meta option \<Rightarrow> 's conn \<times> int \<Rightarrow> 's conn \<times> (pyerror + int)" where
  "reap_one R cal now current_boot rid meta st =
     (case st of (c, reaped) \<Rightarrow> case meta of
        None \<Rightarrow> (c, Inr reaped)
      | Some m \<Rightarrow>
         (let boot = decode_meta_field (meta_boot_id m)
          in if boot = [] \<or> boot = current_boot then (c, Inr reaped)
             else (let (c1, alive) = process_alive R boot c
                   in if alive then (c1, Inr reaped)
                      else (case meta_wids (meta_window_ids m) of
                              Inl e \<Rightarrow> (c1, Inl e)
                            | Inr w \<Rightarrow>
                                (let (c2, r) = rollback_account_reservation R cal now (decode_meta_field (meta_account_key m))
                                       (opt_str (Some (decode_meta_field (meta_model_id m)))) rid w c1
                                 in case r of
                                      None \<Rightarrow> (c2, Inr reaped)
                                    | Some _ \<Rightarrow> (finalize_reservation R rid c2, Inr (reaped + 1)))))))"

fun reap_batch :: "'s redis \<Rightarrow> calendar \<Rightarrow> time \<Rightarrow> string \<Rightarrow> (string \<times> resv_meta option) list \<Rightarrow> 's conn \<times> int \<Rightarrow> 's conn \<times> (pyerror + int)" where
  "reap_batch R cal now boot [] st = (fst st, Inr (snd st))"
| "reap_batch R cal now boot ((rid, meta) # rest) st =
     (case reap_one R cal now boot rid meta st of
        (c, Inl e) \<Rightarrow> (c, Inl e)
      | (c, Inr n) \<Rightarrow> reap_batch R cal now boot rest (c, n))"

fun read_metas :: "'s redis \<Rightarrow> string list \<Rightarrow> 's conn \<Rightarrow> 's conn \<times> resv_meta option list option" where
  \<comment> \<open>the first failing \<open>HGETALL\<close> ends the reading of the batch\<close>
  "read_metas R [] c = (c, Some [])"
| "read_metas R (rid # rids) c =
     (let pfx = conn_prefix c;
          (c1, m) = call (\<lambda>s. (s, read_meta R (get_key pfx (bare_key pfx (be_key pfx (reservation_meta_key rid)))) s)) c
      in case m of
           None \<Rightarrow> (c1, None)
         | Some meta \<Rightarrow> (case read_metas R rids c1 of
               (c2, None) \<Rightarrow> (c2, None)
             | (c2, Some metas) \<Rightarrow> (c2, Some (meta # metas))))"

function chunks :: "nat \<Rightarrow> 'a list \<Rightarrow> 'a list list" where
  "chunks n xs = (if n = 0 \<or> xs = [] then [] else take n xs # chunks n (drop n xs))"
  by pat_completeness auto
termination
  by (relation "measure (length \<circ> snd)") (auto simp: neq_Nil_conv)

declare chunks.simps [simp del]

fun reap_batches :: "'s redis \<Rightarrow> calendar \<Rightarrow> time \<Rightarrow> string \<Rightarrow> string list list \<Rightarrow> 's conn \<times> int \<Rightarrow> 's conn \<times> (pyerror + int)" where
  "reap_batches R cal now boot [] st = (fst st, Inr (snd st))"
| "reap_batches R cal now boot (batch # rest) st =
     (let (c1, ms) = read_metas R batch (fst st);
          metas = (case ms of None \<Rightarrow> replicate (length batch) None | Some m \<Rightarrow> m)
      in case reap_batch R cal now boot (zip batch metas) (c1, snd st) of
           (c2, Inl e) \<Rightarrow> (c2, Inl e)
         | (c2, Inr n) \<Rightarrow> reap_batches R cal now boot rest (c2, n))"

definition owned_lease :: "string \<Rightarrow> bool" where
  "owned_lease m \<longleftrightarrow> m \<noteq> [] \<and> startswith m ''lease:'' \<and> 3 \<le> length (split_on (CHR '':'') m)"

definition reap_orphan_reservations ::
  "'s redis \<Rightarrow> calendar \<Rightarrow> time \<Rightarrow> string \<Rightarrow> nat \<Rightarrow> 's conn \<Rightarrow> 's conn \<times> (pyerror + int)" where
  \<comment> \<open>\<open>batch_size = 0\<close> makes \<open>range\<close> raise\<close>
  "reap_orphan_reservations R cal now current_boot batch_size c =
     (if \<not> conn_client c then (c, Inr 0)
      else (let (c1, ms) = call (\<lambda>s. (s, r_smembers R s (be_key (conn_prefix c) RESERVATION_INDEX))) c
            in case ms of
                 None \<Rightarrow> (c1, Inr 0)
               | Some members \<Rightarrow>
                   (if members = [] then (c1, Inr 0)
                    else if batch_size = 0 then (c1, Inl ValueError)
                    else reap_batches R cal now current_boot (chunks batch_size (filter owned_lease members)) (c1, 0))))"

section \<open>reconcile_account_reservation\<close>

record reconcile_args =
  rc_ledgers :: "(key \<times> int) list"
  rc_account_freeze_key :: key
  rc_model_freeze_key :: key
  rc_account_freeze_enabled :: bool
  rc_model_freeze_enabled :: bool
  rc_index_key :: key
  rc_meta_key :: key
  rc_rid :: string
  rc_actual :: int

record reconcile_acc =
  rca_out :: "int list"
  rca_account_ttl :: int
  rca_model_ttl :: int

definition reconcile_step :: "'s redis \<Rightarrow> reconcile_args \<Rightarrow> nat \<Rightarrow> key \<times> int \<Rightarrow> 's \<times> reconcile_acc \<Rightarrow> 's \<times> reconcile_acc" where
  \<comment> \<open>\<open>i\<close> counts from 1, as in the script\<close>
  "reconcile_step R A i ledger st =
     (case st of (s, a) \<Rightarrow> case ledger of (k, cap) \<Rightarrow>
       if \<not> r_exists R s k then (s, a\<lparr>rca_out := rca_out a @ [-1]\<rparr>)
       else
         (let n = projected R s k (rc_rid A) (rc_actual A);
              s1 = r_exec R (HSET k [(rc_rid A, HNum (rc_actual A)), (state_field (rc_rid A), HStr ''committed''),
                                     (''__total'', HNum n)]) s;
              a1 = a\<lparr>rca_out := rca_out a @ [n]\<rparr>;
              remaining = r_ttl R s1 k
          in if 0 < cap \<and> cap \<le> n \<and> 0 < remaining then
               (if i = 4 then
                  ((if rc_model_freeze_enabled A
                    then r_exec R (SETEX (rc_model_freeze_key A) (HStr ''reservation:model_tpm'') remaining) s1 else s1),
                   a1\<lparr>rca_model_ttl := remaining\<rparr>)
                else if rca_account_ttl a < remaining then (s1, a1\<lparr>rca_account_ttl := remaining\<rparr>)
                else (s1, a1))
             else (s1, a1)))"

fun reconcile_loop :: "'s redis \<Rightarrow> reconcile_args \<Rightarrow> nat \<Rightarrow> (key \<times> int) list \<Rightarrow> 's \<times> reconcile_acc \<Rightarrow> 's \<times> reconcile_acc" where
  "reconcile_loop R A i [] st = st"
| "reconcile_loop R A i (l # ls) st = reconcile_loop R A (Suc i) ls (reconcile_step R A i l st)"

definition reconcile_script :: "'s redis \<Rightarrow> reconcile_args \<Rightarrow> 's \<Rightarrow> 's \<times> reconcile_acc" where
  "reconcile_script R A s =
     (let (s1, a) = reconcile_loop R A 1 (rc_ledgers A) (s, \<lparr>rca_out = [], rca_account_ttl = 0, rca_model_ttl = 0\<rparr>);
          s2 = (if 0 < rca_account_ttl a \<and> rc_account_freeze_enabled A
                then r_exec R (SETEX (rc_account_freeze_key A) (HStr ''reservation:tpm'') (rca_account_ttl a)) s1 else s1);
          s3 = r_exec R (SREM (rc_index_key A) (rc_rid A)) s2
      in (r_exec R (DEL (rc_meta_key A)) s3, a))"

record reconcile_params =
  rcp_account_key :: string
  rcp_model_id :: "string option"
  rcp_reservation_id :: string
  rcp_actual_tokens :: int
  rcp_account_tpm_limit :: int
  rcp_account_tph_limit :: int
  rcp_account_tpd_limit :: int
  rcp_model_tpm_limit :: int
  rcp_window_ids :: "wids option"
  rcp_account_freeze_key :: "key option"
  rcp_model_freeze_key :: "key option"

record reconcile_result =
  rcr_used :: "(string \<times> int option) list"
  rcr_account_freeze_ttl :: int
  rcr_model_freeze_ttl :: int

definition reconcile_args_of :: "string option \<Rightarrow> calendar \<Rightarrow> time \<Rightarrow> reconcile_params \<Rightarrow> reconcile_args" where
  "reconcile_args_of pfx cal now P =
     (let w = (case rcp_window_ids P of Some w \<Rightarrow> w | None \<Rightarrow> reservation_window_ids cal now);
          acc = account_ledger_keys pfx (rcp_account_key P) w;
          afk = opt_str (rcp_account_freeze_key P);
          mfk = opt_str (rcp_model_freeze_key P)
      in \<lparr>rc_ledgers = [(ak_tpm acc, rcp_account_tpm_limit P), (ak_tph acc, rcp_account_tph_limit P),
                        (ak_tpd acc, rcp_account_tpd_limit P)] @
            (case opt_str (rcp_model_id P) of
               Some m \<Rightarrow> [(model_ledger_key pfx m (w_model_tpm w), rcp_model_tpm_limit P)] | None \<Rightarrow> []),
          rc_account_freeze_key = be_key pfx (case afk of Some k \<Rightarrow> k | None \<Rightarrow> ''limit:reservation:v1:__no_account_freeze__''),
          rc_model_freeze_key = be_key pfx (case mfk of Some k \<Rightarrow> k | None \<Rightarrow> ''limit:reservation:v1:__no_model_freeze__''),
          rc_account_freeze_enabled = (afk \<noteq> None), rc_model_freeze_enabled = (mfk \<noteq> None),
          rc_index_key = be_key pfx RESERVATION_INDEX,
          rc_meta_key = be_key pfx (reservation_meta_key (rcp_reservation_id P)),
          rc_rid = rcp_reservation_id P, rc_actual = max 0 (rcp_actual_tokens P)\<rparr>)"

definition reconcile_result_of :: "bool \<Rightarrow> reconcile_acc \<Rightarrow> reconcile_result" where
  "reconcile_result_of has_model a =
     (let order = [''account_tpm'', ''account_tph'', ''account_tpd''] @ (if has_model then [''model_tpm''] else [])
      in \<lparr>rcr_used = map (\<lambda>(i, name). (name, if i < length (rca_out a) \<and> 0 \<le> rca_out a ! i then Some (rca_out a ! i) else None))
                       (enumerate 0 order),
          rcr_account_freeze_ttl = max 0 (rca_account_ttl a), rcr_model_freeze_ttl = max 0 (rca_model_ttl a)\<rparr>)"

definition reconcile_account_reservation ::
  "'s redis \<Rightarrow> calendar \<Rightarrow> time \<Rightarrow> reconcile_params \<Rightarrow> 's conn \<Rightarrow> 's conn \<times> reconcile_result option" where
  "reconcile_account_reservation R cal now P c =
     (if \<not> conn_client c \<or> rcp_account_key P = [] \<or> rcp_reservation_id P = [] then (c, None)
      else (let (c1, a) = call (reconcile_script R (reconcile_args_of (conn_prefix c) cal now P)) c
            in (c1, map_option (reconcile_result_of (opt_str (rcp_model_id P) \<noteq> None)) a)))"

section \<open>Reading usage, renewing and releasing\<close>

definition account_metric_key :: "account_keys \<Rightarrow> string \<Rightarrow> key option" where
  "account_metric_key acc m = map_of [(''rpm'', ak_rpm acc), (''rph'', ak_rph acc), (''rpd'', ak_rpd acc),
     (''tpm'', ak_tpm acc), (''tph'', ak_tph acc), (''tpd'', ak_tpd acc)] m"

definition batch_get_account_window_usage ::
  "'s redis \<Rightarrow> calendar \<Rightarrow> time \<Rightarrow> string \<Rightarrow> string list \<Rightarrow> 's conn \<Rightarrow> 's conn \<times> (string \<times> int) list" where
  "batch_get_account_window_usage R cal now ak metrics c =
     (if \<not> conn_client c \<or> ak = [] then (c, [])
      else (let acc = account_ledger_keys (conn_prefix c) ak (reservation_window_ids cal now);
                wanted = filter (\<lambda>m. account_metric_key acc m \<noteq> None) metrics
            in if wanted = [] then (c, [])
               else (let (c1, r) = call (\<lambda>s. (s, map (\<lambda>m. (m, num_of (r_hget R s (the (account_metric_key acc m)) ''__total''))) wanted)) c
                     in (c1, case r of None \<Rightarrow> [] | Some us \<Rightarrow> us))))"

definition renew_script :: "'s redis \<Rightarrow> key \<Rightarrow> string \<Rightarrow> time \<Rightarrow> int \<Rightarrow> 's \<Rightarrow> 's \<times> int" where
  "renew_script R k lease now ttl s =
     (if r_zscore R s k lease = None then (s, 0)
      else (let e = now + of_int ttl
            in (r_exec R (EXPIRE k (ttl + 60)) (r_exec R (ZADD k e lease) s), trunc e)))"

definition renew_account_reservation :: "'s redis \<Rightarrow> time \<Rightarrow> string \<Rightarrow> string \<Rightarrow> int \<Rightarrow> 's conn \<Rightarrow> 's conn \<times> time option" where
  "renew_account_reservation R now ak lease ttl c =
     (if \<not> conn_client c \<or> lease = [] \<or> ttl \<le> 0 then (c, None)
      else (let (c1, r) = call (renew_script R (concurrency_key (conn_prefix c) ak) lease now ttl) c
            in (c1, case r of Some e \<Rightarrow> if 0 < e then Some (of_int e) else None | None \<Rightarrow> None)))"

definition release_script :: "'s redis \<Rightarrow> key \<Rightarrow> string \<Rightarrow> 's \<Rightarrow> 's \<times> bool" where
  "release_script R k lease s = (r_exec R (ZREM k lease) s, r_zscore R s k lease \<noteq> None)"

definition release_account_reservation :: "'s redis \<Rightarrow> string \<Rightarrow> string \<Rightarrow> 's conn \<Rightarrow> 's conn \<times> bool option" where
  "release_account_reservation R ak lease c =
     (if \<not> conn_client c \<or> lease = [] then (c, None)
      else call (release_script R (concurrency_key (conn_prefix c) ak) lease) c)"

end
