(* ===== verification/Lub_LedgerSpec.thy ===== *)
theory Lub_LedgerSpec
  imports Lub_Ledger
begin

text \<open>
  What the reservation ledger promises. The abstract ledger of a key is a finite map from
  reservation identifiers to amounts; \<open>ledger_rel\<close> ties it to the stored hash: one numeric field
  per reservation and \<open>__total\<close>, the sum. The refinement lemmas show that each script of
  \<open>limits/backend.py\<close> is an update of that map, that its clamp at 0 never fires, and that a
  denied reservation changes nothing. The interleaving of any number of clients is the step
  relation \<open>ledger_step\<close>, with every call free to fail before or after it takes effect.
\<close>

section \<open>Abstract ledgers\<close>

type_synonym ledger = "(string, int) fmap"

definition plain_rid :: "string \<Rightarrow> bool" where
  \<comment> \<open>identifiers that do not collide with the bookkeeping fields of the hash\<close>
  "plain_rid rid \<longleftrightarrow> rid \<noteq> ''__total'' \<and> (\<forall>x. rid \<noteq> state_field x)"

definition ledger_rel :: "('s, 'a) redis_scheme \<Rightarrow> 's \<Rightarrow> key \<Rightarrow> ledger \<Rightarrow> bool" where
  "ledger_rel R s k M \<longleftrightarrow>
     (\<forall>rid. plain_rid rid \<longrightarrow> r_hget R s k rid = map_option HNum (fmlookup M rid))
     \<and> num_of (r_hget R s k ''__total'') = map_total M
     \<and> (\<forall>rid v. fmlookup M rid = Some v \<longrightarrow> 0 \<le> v \<and> plain_rid rid)"

definition ledgers_rel :: "('s, 'a) redis_scheme \<Rightarrow> key set \<Rightarrow> 's \<Rightarrow> (key \<Rightarrow> ledger) \<Rightarrow> bool" where
  "ledgers_rel R K s L \<longleftrightarrow> (\<forall>k \<in> K. ledger_rel R s k (L k))"

definition put :: "string \<Rightarrow> key \<Rightarrow> int \<Rightarrow> (key \<Rightarrow> ledger) \<Rightarrow> key \<Rightarrow> ledger" where
  "put rid k a L = L(k := fmupd rid a (L k))"

definition reserve_entries :: "reserve_args \<Rightarrow> (key \<times> int) list" where
  \<comment> \<open>the ledgers an admitted reservation enters, in the order of the script\<close>
  "reserve_entries A =
     map (\<lambda>(k, cap). (k, 1)) (filter (\<lambda>(k, cap). 0 < cap)
       [(ra_rpm_key A, ra_rpm_limit A), (ra_rpd_key A, ra_rpd_limit A), (ra_rph_key A, ra_rph_limit A)])
     @ (if 0 < ra_token_amount A
        then map (\<lambda>(k, cap, ttl). (k, ra_token_amount A)) (filter (\<lambda>(k, cap, ttl). 0 < cap) (token_specs A)) else [])"

definition spec_reserve :: "reserve_args \<Rightarrow> (key \<Rightarrow> ledger) \<Rightarrow> key \<Rightarrow> ledger" where
  "spec_reserve A L = fold (\<lambda>(k, a). put (ra_rid A) k a) (reserve_entries A) L"

definition spec_rollback :: "string \<Rightarrow> key list \<Rightarrow> (key \<Rightarrow> ledger) \<Rightarrow> key \<Rightarrow> ledger" where
  "spec_rollback rid ks L = (\<lambda>k. if k \<in> set ks then fmdrop rid (L k) else L k)"

lemma plain_rid_state [simp]: "plain_rid rid \<Longrightarrow> rid \<noteq> state_field x" "\<not> plain_rid (state_field x)"
  "\<not> plain_rid ''__total''" "plain_rid rid \<Longrightarrow> rid \<noteq> ''__total''"
  by (auto simp: plain_rid_def)

lemma state_field_total [simp]: "state_field x \<noteq> ''__total''" "''__total'' \<noteq> state_field x"
proof -
  have "last (state_field x) \<noteq> last ''__total''" by (simp add: state_field_def)
  then show "state_field x \<noteq> ''__total''" "''__total'' \<noteq> state_field x" by metis+
qed

lemma ledger_rel_frame: "ledger_rel R s k M \<Longrightarrow> r_hget R t k = r_hget R s k \<Longrightarrow> ledger_rel R t k M"
  by (simp add: ledger_rel_def)

lemma ledger_rel_empty: "(\<And>f. r_hget R s k f = None) \<Longrightarrow> ledger_rel R s k fmempty"
  by (simp add: ledger_rel_def num_of_def)

lemma ledger_total_nonneg: "ledger_rel R s k M \<Longrightarrow> 0 \<le> map_total M"
  by (auto simp: ledger_rel_def intro: map_total_nonneg)

lemma put_same [simp]: "put rid k a L k = fmupd rid a (L k)"
  and put_other [simp]: "k' \<noteq> k \<Longrightarrow> put rid k a L k' = L k'"
  by (simp_all add: put_def)

section \<open>Scripts refine updates of the map\<close>

definition reserve_ok :: "key set \<Rightarrow> reserve_args \<Rightarrow> bool" where
  \<comment> \<open>a plain identifier, positive window lengths, and no other key of the script is a ledger\<close>
  "reserve_ok K A \<longleftrightarrow> plain_rid (ra_rid A)
     \<and> (\<forall>t \<in> {ra_rpm_ttl A, ra_rpd_ttl A, ra_rph_ttl A, ra_tpm_ttl A, ra_tph_ttl A, ra_tpd_ttl A, ra_model_tpm_ttl A}.
          0 < t + ra_grace A)
     \<and> 0 < ra_meta_ttl A \<and> 0 < ra_concurrency_ttl A
     \<and> {ra_rpm_key A, ra_rpd_key A, ra_rph_key A, ra_tpm_key A, ra_tph_key A, ra_tpd_key A, ra_model_tpm_key A} \<subseteq> K
     \<and> ra_freeze_key A \<notin> K \<and> ra_model_freeze_key A \<notin> K \<and> ra_meta_key A \<notin> K"

context redis_store
begin

lemma projected_rel:
  assumes rel: "ledger_rel R s k M" and rid: "plain_rid rid" and a: "0 \<le> a"
  shows "projected R s k rid a = map_total (fmupd rid a M)"
proof -
  have "0 \<le> map_total (fmupd rid a M)"
    using rel a by (intro map_total_nonneg) (auto simp: ledger_rel_def split: if_splits)
  moreover have "num_of (r_hget R s k rid) = (case fmlookup M rid of None \<Rightarrow> 0 | Some w \<Rightarrow> w)"
    using rel rid by (auto simp: ledger_rel_def num_of_def split: option.splits)
  ultimately show ?thesis
    using rel by (simp add: projected_def ledger_rel_def map_total_upd)
qed

lemma hset_rel:
  assumes rel: "ledger_rel R s k M" and rid: "plain_rid rid" and a: "0 \<le> a"
  shows "ledger_rel R (r_exec R (HSET k [(rid, HNum a), (state_field rid, HStr st),
           (''__total'', HNum (map_total (fmupd rid a M)))]) s) k (fmupd rid a M)"
  using assms by (auto simp: ledger_rel_def num_of_def)

lemma ledger_write_rel:
  assumes "ledger_rel R s k M" "plain_rid rid" "0 \<le> a" "0 < ttl + grace"
  shows "ledger_rel R (ledger_write R k rid a (projected R s k rid a) ttl grace s) k (fmupd rid a M)"
proof -
  have p: "projected R s k rid a = map_total (fmupd rid a M)"
    using assms by (simp add: projected_rel)
  show ?thesis
    unfolding p by (rule ledger_rel_frame [OF hset_rel [OF assms(1-3), of "''reserved''"]])
      (use assms(4) in \<open>simp add: ledger_write_def Let_def fun_eq_iff\<close>)
qed

lemma hget_ledger_write [simp]:
  "0 < ttl + grace \<Longrightarrow> k' \<noteq> k \<Longrightarrow> r_hget R (ledger_write R k rid a n ttl grace s) k' = r_hget R s k'"
  by (auto simp: ledger_write_def Let_def fun_eq_iff)

lemma zscore_ledger_write [simp]:
  "0 < ttl + grace \<Longrightarrow> r_zscore R (ledger_write R k rid a n ttl grace s) k' m = r_zscore R s k' m"
  by (auto simp: ledger_write_def Let_def)

lemma ledgers_rel_write:
  assumes "ledgers_rel R K s L" "k \<in> K" "plain_rid rid" "0 \<le> a" "0 < ttl + grace"
  shows "ledgers_rel R K (ledger_write R k rid a (projected R s k rid a) ttl grace s) (put rid k a L)"
  unfolding ledgers_rel_def
proof
  fix k' assume k': "k' \<in> K"
  show "ledger_rel R (ledger_write R k rid a (projected R s k rid a) ttl grace s) k' (put rid k a L k')"
  proof (cases "k' = k")
    case True
    with assms show ?thesis by (simp add: ledger_write_rel ledgers_rel_def)
  next
    case False
    have "ledger_rel R s k' (L k')" using assms k' by (simp add: ledgers_rel_def)
    moreover have "r_hget R (ledger_write R k rid a (projected R s k rid a) ttl grace s) k' = r_hget R s k'"
      using assms(5) False by (rule hget_ledger_write)
    ultimately show ?thesis using False by (simp add: ledger_rel_frame)
  qed
qed

lemma ledgers_rel_frame:
  "ledgers_rel R K s L \<Longrightarrow> (\<And>k. k \<in> K \<Longrightarrow> r_hget R t k = r_hget R s k) \<Longrightarrow> ledgers_rel R K t L"
  unfolding ledgers_rel_def by (blast intro: ledger_rel_frame)

lemma ledgers_rel_elapse:
  assumes "ledgers_rel R K s L"
  shows "\<exists>L'. ledgers_rel R K (r_elapse R d s) L' \<and> (\<forall>k. L' k = L k \<or> L' k = fmempty)"
proof (intro exI conjI)
  let ?L = "\<lambda>k. if r_hget R (r_elapse R d s) k = r_hget R s k then L k else fmempty"
  show "ledgers_rel R K (r_elapse R d s) ?L"
    unfolding ledgers_rel_def
  proof
    fix k assume k: "k \<in> K"
    then show "ledger_rel R (r_elapse R d s) k (?L k)"
      using assms elapse_hget [of d s k] ledger_rel_frame [of R s k "L k" "r_elapse R d s"]
        ledger_rel_empty [of R "r_elapse R d s" k]
      by (auto simp: ledgers_rel_def)
  qed
qed auto

end

section \<open>The reserve script\<close>

definition put_if :: "string \<Rightarrow> key \<Rightarrow> int \<Rightarrow> int \<Rightarrow> (key \<Rightarrow> ledger) \<Rightarrow> key \<Rightarrow> ledger" where
  "put_if rid k cap a L = (if 0 < cap then put rid k a L else L)"

lemma spec_reserve_steps:
  "spec_reserve A L =
     (let L3 = put_if (ra_rid A) (ra_rph_key A) (ra_rph_limit A) 1
                (put_if (ra_rid A) (ra_rpd_key A) (ra_rpd_limit A) 1
                  (put_if (ra_rid A) (ra_rpm_key A) (ra_rpm_limit A) 1 L))
      in if 0 < ra_token_amount A
         then fold (\<lambda>(k, cap, ttl). put_if (ra_rid A) k cap (ra_token_amount A)) (token_specs A) L3 else L3)"
  by (simp add: spec_reserve_def reserve_entries_def put_if_def token_specs_def Let_def)

context redis_store
begin

lemma count_step_rel:
  assumes "ledgers_rel R K s L" "k \<in> K" "plain_rid (ra_rid A)" "0 < ttl + ra_grace A"
    and st: "count_step R A name k cap ttl (s, fz) = ((s', fz'), n)"
  shows "ledgers_rel R K s' (put_if (ra_rid A) k cap 1 L)"
    and "r_zscore R s' = r_zscore R s"
    and "n = (if 0 < cap then map_total (fmupd (ra_rid A) 1 (L k)) else 0)"
proof -
  have rel: "ledger_rel R s k (L k)" using assms(1,2) by (simp add: ledgers_rel_def)
  show "ledgers_rel R K s' (put_if (ra_rid A) k cap 1 L)"
    using st ledgers_rel_write [OF assms(1-3) _ assms(4), of 1] assms(1)
    by (auto simp: count_step_def put_if_def Let_def split: if_splits)
  show "r_zscore R s' = r_zscore R s"
    using st assms(4) by (auto simp: count_step_def Let_def fun_eq_iff split: if_splits)
  show "n = (if 0 < cap then map_total (fmupd (ra_rid A) 1 (L k)) else 0)"
    using st projected_rel [OF rel assms(3), of 1] by (auto simp: count_step_def Let_def split: if_splits)
qed

lemma ledgers_rel_SETEX:
  assumes "ledgers_rel R K s L" "k \<notin> K" "0 < t"
  shows "ledgers_rel R K (r_exec R (SETEX k v t) s) L"
  by (rule ledgers_rel_frame [OF assms(1)]) (use assms in \<open>auto simp: fun_eq_iff\<close>)

lemma token_step_rel:
  assumes "ledgers_rel R K s L" "k \<in> K" "plain_rid (ra_rid A)" "0 < ttl + ra_grace A" "0 \<le> ra_token_amount A"
    and mfk: "ra_model_freeze_key A \<notin> K"
  shows "ledgers_rel R K (fst (token_step R A name is_model (k, cap, ttl) (s, a)))
           (put_if (ra_rid A) k cap (ra_token_amount A) L)"
  using ledgers_rel_write [OF assms(1-3) assms(5,4)] assms(1) mfk
  by (auto simp: token_step_def put_if_def Let_def intro!: ledgers_rel_SETEX)

lemma token_fold_rel:
  assumes "ledgers_rel R K s L" "plain_rid (ra_rid A)" "0 \<le> ra_token_amount A" "ra_model_freeze_key A \<notin> K"
    and "\<forall>(name, k, cap, ttl) \<in> set xs. k \<in> K \<and> 0 < ttl + ra_grace A"
  shows "ledgers_rel R K (fst (fold (\<lambda>(name, spec). token_step R A name (f name) spec) xs (s, a)))
     (fold (\<lambda>(k, cap, ttl). put_if (ra_rid A) k cap (ra_token_amount A)) (map snd xs) L)"
  using assms(1,5)
proof (induction xs arbitrary: s a L)
  case (Cons x xs)
  obtain name k cap ttl where x: "x = (name, k, cap, ttl)" by (metis surj_pair)
  let ?st = "token_step R A name (f name) (k, cap, ttl) (s, a)"
  have "ledgers_rel R K (fst ?st) (put_if (ra_rid A) k cap (ra_token_amount A) L)"
    using Cons.prems assms(2-4) x by (intro token_step_rel) auto
  from Cons.IH [OF this, of "snd ?st"] Cons.prems x show ?case by simp
qed simp

lemma token_phase_rel:
  assumes "ledgers_rel R K s L" "reserve_ok K A"
  shows "ledgers_rel R K (fst (token_phase R A fz s))
     (if 0 < ra_token_amount A
      then fold (\<lambda>(k, cap, ttl). put_if (ra_rid A) k cap (ra_token_amount A)) (token_specs A) L else L)"
proof (cases "0 < ra_token_amount A")
  case True
  have z: "map snd (zip token_names (token_specs A)) = token_specs A"
    by (simp add: token_names_def token_specs_def)
  have "\<forall>(name, k, cap, ttl) \<in> set (zip token_names (token_specs A)). k \<in> K \<and> 0 < ttl + ra_grace A"
    using assms(2) by (auto simp: reserve_ok_def token_names_def token_specs_def)
  then show ?thesis
    using token_fold_rel [where xs = "zip token_names (token_specs A)" and f = "\<lambda>n. n = ''model_tpm''"] assms True
    by (simp add: token_phase_def z reserve_ok_def)
qed (simp add: token_phase_def assms)

lemma late_phases_rel:
  assumes "ledgers_rel R K s L" "reserve_ok K A"
  shows "ledgers_rel R K (fst (lease_phase R A (register_phase R A (freeze_phase R A fz s)))) L"
proof -
  have 1: "ledgers_rel R K (freeze_phase R A fz s) L"
    using assms by (auto simp: freeze_phase_def reserve_ok_def intro: ledgers_rel_SETEX)
  show ?thesis
    by (rule ledgers_rel_frame [OF 1])
      (use assms(2) in \<open>auto simp: lease_phase_def register_phase_def reserve_ok_def Let_def fun_eq_iff\<close>)
qed

lemma reserve_commit_rel:
  assumes "ledgers_rel R K s L" "reserve_ok K A"
  shows "ledgers_rel R K (fst (reserve_commit R A s)) (spec_reserve A L)"
proof -
  obtain s1 fz1 rpm where 1: "count_step R A ''rpm'' (ra_rpm_key A) (ra_rpm_limit A) (ra_rpm_ttl A) (s, ('''', 0)) = ((s1, fz1), rpm)"
    by (metis surj_pair)
  obtain s2 fz2 rpd where 2: "count_step R A ''rpd'' (ra_rpd_key A) (ra_rpd_limit A) (ra_rpd_ttl A) (s1, fz1) = ((s2, fz2), rpd)"
    by (metis surj_pair)
  obtain s3 fz3 rph where 3: "count_step R A ''rph'' (ra_rph_key A) (ra_rph_limit A) (ra_rph_ttl A) (s2, fz2) = ((s3, fz3), rph)"
    by (metis surj_pair)
  have ok: "plain_rid (ra_rid A)" "ra_rpm_key A \<in> K" "ra_rpd_key A \<in> K" "ra_rph_key A \<in> K"
    "0 < ra_rpm_ttl A + ra_grace A" "0 < ra_rpd_ttl A + ra_grace A" "0 < ra_rph_ttl A + ra_grace A"
    using assms(2) by (auto simp: reserve_ok_def)
  note r1 = count_step_rel(1) [OF assms(1) ok(2,1,5) 1]
  note r2 = count_step_rel(1) [OF r1 ok(3,1,6) 2]
  note r3 = count_step_rel(1) [OF r2 ok(4,1,7) 3]
  note r4 = token_phase_rel [OF r3 assms(2), of fz3]
  show ?thesis
    using late_phases_rel [OF r4 assms(2), of "ta_freeze (snd (token_phase R A fz3 s3))"]
    by (simp add: reserve_commit_def count_phase_def 1 2 3 spec_reserve_steps Let_def split_def)
qed

lemma concurrency_gate_hget [simp]: "r_hget R (fst (concurrency_gate R A s)) = r_hget R s"
  by (auto simp: concurrency_gate_def Let_def fun_eq_iff)

lemma reserve_script_cases:
  obtains (denied) r where "reserve_script R A s = (fst (concurrency_gate R A s), r) \<or> reserve_script R A s = (s, r)" "\<not> rr_allowed r"
  | (admitted) "freeze_gate R A s = None" "concurrency_gate R A s = (fst (concurrency_gate R A s), None)"
      "token_gate R A (fst (concurrency_gate R A s)) = None"
      "reserve_script R A s = reserve_commit R A (fst (concurrency_gate R A s))"
proof -
  have tg: "\<not> rr_allowed r" if "token_gate_loop R rid a t specs = Some r" for rid a t specs r
    using that by (induction R rid a t specs rule: token_gate_loop.induct) (auto simp: denied_def split: if_splits)
  show thesis
  proof (cases "freeze_gate R A s")
    case None
    show ?thesis
    proof (cases "snd (concurrency_gate R A s)")
      case c: None
      show ?thesis
      proof (cases "token_gate R A (fst (concurrency_gate R A s))")
        case t: None
        with None c show ?thesis
          by (intro admitted) (auto simp: reserve_script_def split_def prod_eq_iff)
      next
        case (Some r)
        with None c show ?thesis
          by (intro denied [of r]) (auto simp: reserve_script_def split_def token_gate_def dest: tg split: if_splits)
      qed
    next
      case (Some r)
      with None show ?thesis
        by (intro denied [of r]) (auto simp: reserve_script_def split_def concurrency_gate_def denied_def Let_def split: if_splits)
    qed
  next
    case (Some r)
    then show ?thesis
      by (intro denied [of r]) (auto simp: reserve_script_def freeze_gate_def denied_def split: if_splits)
  qed
qed

lemma reserve_commit_allowed [simp]: "rr_allowed (snd (reserve_commit R A s))"
  by (simp add: reserve_commit_def Let_def split_def)

lemma reserve_script_denied_hget:
  "\<not> rr_allowed (snd (reserve_script R A s)) \<Longrightarrow> r_hget R (fst (reserve_script R A s)) = r_hget R s"
  by (rule reserve_script_cases [of A s]) (auto dest: arg_cong [where f = fst])

lemma reserve_script_rel:
  assumes "ledgers_rel R K s L" "reserve_ok K A"
  shows "ledgers_rel R K (fst (reserve_script R A s))
           (if rr_allowed (snd (reserve_script R A s)) then spec_reserve A L else L)"
proof (cases rule: reserve_script_cases [of A s])
  case (denied r)
  then have "\<not> rr_allowed (snd (reserve_script R A s))" by auto
  then show ?thesis
    using reserve_script_denied_hget ledgers_rel_frame [OF assms(1), of "fst (reserve_script R A s)"] by simp
next
  case admitted
  have "ledgers_rel R K (fst (concurrency_gate R A s)) L"
    by (rule ledgers_rel_frame [OF assms(1)]) simp
  with admitted show ?thesis by (simp add: reserve_commit_rel assms(2))
qed

end

section \<open>Admission\<close>

definition no_timed_freeze :: "('s, 'a) redis_scheme \<Rightarrow> reserve_args \<Rightarrow> 's \<Rightarrow> bool" where
  \<comment> \<open>no freeze key has time left; a freeze key without expiry reads -1 and does not count\<close>
  "no_timed_freeze R A s \<longleftrightarrow> ra_skip_freeze A \<or>
     (\<forall>k \<in> {ra_freeze_key A, ra_model_freeze_key A, ra_account_model_freeze_key A}. r_ttl R s k \<le> 0)"

definition live_leases :: "('s, 'a) redis_scheme \<Rightarrow> 's \<Rightarrow> key \<Rightarrow> time \<Rightarrow> string set" where
  \<comment> \<open>the members whose score is not in the range the gate removes\<close>
  "live_leases R s k now = {m. \<exists>e. r_zscore R s k m = Some e \<and> (now < e \<or> e < 0)}"

definition slot_free :: "('s, 'a) redis_scheme \<Rightarrow> reserve_args \<Rightarrow> 's \<Rightarrow> bool" where
  "slot_free R A s \<longleftrightarrow> ra_concurrent_limit A \<le> 0
     \<or> int (card (live_leases R s (ra_conc_key A) (ra_now A))) < ra_concurrent_limit A"

definition tokens_fit :: "reserve_args \<Rightarrow> (key \<Rightarrow> ledger) \<Rightarrow> bool" where
  "tokens_fit A L \<longleftrightarrow> ra_allow_overflow A \<or> ra_token_amount A \<le> 0 \<or>
     (\<forall>(k, cap, ttl) \<in> set (token_specs A). 0 < cap \<longrightarrow> map_total (fmupd (ra_rid A) (ra_token_amount A) (L k)) < cap)"

context redis_store
begin

lemma freeze_gate_None: "freeze_gate R A s = None \<longleftrightarrow> no_timed_freeze R A s"
  by (auto simp: freeze_gate_def no_timed_freeze_def)

lemma zcard_after_gate:
  "r_zcard R (r_exec R (ZREMRANGEBYSCORE k 0 now) s) k = card (live_leases R s k now)"
  unfolding zcard_card live_leases_def
  by (rule arg_cong [where f = card]) (auto simp: not_le split: if_splits)

lemma concurrency_gate_None: "snd (concurrency_gate R A s) = None \<longleftrightarrow> slot_free R A s"
  by (auto simp: concurrency_gate_def slot_free_def Let_def zcard_after_gate)

lemma token_gate_loop_None:
  "token_gate_loop R rid a s specs = None \<longleftrightarrow> (\<forall>(k, cap, ttl) \<in> set specs. 0 < cap \<longrightarrow> projected R s k rid a < cap)"
  by (induction R rid a s specs rule: token_gate_loop.induct) auto

lemma token_gate_None:
  assumes "ledgers_rel R K s L" "reserve_ok K A"
  shows "token_gate R A s = None \<longleftrightarrow> tokens_fit A L"
proof -
  have "projected R s k (ra_rid A) (ra_token_amount A) = map_total (fmupd (ra_rid A) (ra_token_amount A) (L k))"
    if "(k, cap, ttl) \<in> set (token_specs A)" "0 < ra_token_amount A" for k cap ttl
    using assms that by (intro projected_rel) (auto simp: reserve_ok_def token_specs_def ledgers_rel_def)
  then show ?thesis
    unfolding token_gate_def tokens_fit_def
    by (cases "0 < ra_token_amount A") (fastforce simp: token_gate_loop_None)+
qed

lemma reserve_admits_iff:
  assumes "ledgers_rel R K s L" "reserve_ok K A"
  shows "rr_allowed (snd (reserve_script R A s)) \<longleftrightarrow> no_timed_freeze R A s \<and> slot_free R A s \<and> tokens_fit A L"
proof -
  have rel: "ledgers_rel R K (fst (concurrency_gate R A s)) L"
    by (rule ledgers_rel_frame [OF assms(1)]) simp
  note gates = freeze_gate_None concurrency_gate_None token_gate_None [OF rel assms(2)]
  show ?thesis
  proof (cases rule: reserve_script_cases [of A s])
    case (denied r)
    then have d: "\<not> rr_allowed (snd (reserve_script R A s))" by auto
    have "\<not> (no_timed_freeze R A s \<and> slot_free R A s \<and> tokens_fit A L)"
    proof
      assume "no_timed_freeze R A s \<and> slot_free R A s \<and> tokens_fit A L"
      then have "reserve_script R A s = reserve_commit R A (fst (concurrency_gate R A s))"
        unfolding gates [symmetric] by (auto simp: reserve_script_def split_def)
      with d show False by simp
    qed
    with d show ?thesis by simp
  next
    case admitted
    then show ?thesis
      using gates by (metis reserve_commit_allowed snd_conv)
  qed
qed

section \<open>Concurrency\<close>

lemma zscore_freeze_phase: "r_zscore R s k m = None \<Longrightarrow> r_zscore R (freeze_phase R A fz s) k m = None"
  by (auto simp: freeze_phase_def)

lemma zscore_token_step:
  "0 < ttl + ra_grace A \<Longrightarrow> r_zscore R s k m = None \<Longrightarrow>
   r_zscore R (fst (token_step R A name b (k0, cap, ttl) (s, a))) k m = None"
  by (auto simp: token_step_def Let_def)

lemma zscore_token_fold:
  assumes "r_zscore R s k m = None" "\<forall>(name, k, cap, ttl) \<in> set xs. 0 < ttl + ra_grace A"
  shows "r_zscore R (fst (fold (\<lambda>(name, spec). token_step R A name (f name) spec) xs (s, a))) k m = None"
  using assms
proof (induction xs arbitrary: s a)
  case (Cons x xs)
  obtain name k0 cap ttl where x: "x = (name, k0, cap, ttl)" by (metis surj_pair)
  have "r_zscore R (fst (token_step R A name (f name) (k0, cap, ttl) (s, a))) k m = None"
    using Cons.prems x by (intro zscore_token_step) auto
  from Cons.IH [OF this, of "snd (token_step R A name (f name) (k0, cap, ttl) (s, a))"] Cons.prems x
  show ?case by simp
qed simp

lemma zscore_token_phase:
  assumes "reserve_ok K A" "r_zscore R s k m = None"
  shows "r_zscore R (fst (token_phase R A fz s)) k m = None"
proof -
  have "\<forall>(name, k, cap, ttl) \<in> set (zip token_names (token_specs A)). 0 < ttl + ra_grace A"
    using assms(1) by (auto simp: reserve_ok_def token_names_def token_specs_def)
  from zscore_token_fold [OF assms(2) this, where f = "\<lambda>n. n = ''model_tpm''"] assms(2) show ?thesis
    by (simp add: token_phase_def Let_def)
qed

lemma zscore_count_step:
  "0 < ttl + ra_grace A \<Longrightarrow> r_zscore R (fst (fst (count_step R A name k0 cap ttl (s, fz)))) k m = r_zscore R s k m"
  by (auto simp: count_step_def Let_def)

lemma zscore_reserve_commit:
  assumes ok: "reserve_ok K A" and none: "r_zscore R s k m = None"
    and new: "\<not> (0 < ra_concurrent_limit A \<and> k = ra_conc_key A \<and> m = ra_rid A)"
  shows "r_zscore R (fst (reserve_commit R A s)) k m = None"
proof -
  let ?c1 = "count_step R A ''rpm'' (ra_rpm_key A) (ra_rpm_limit A) (ra_rpm_ttl A) (s, ('''', 0))"
  let ?c2 = "count_step R A ''rpd'' (ra_rpd_key A) (ra_rpd_limit A) (ra_rpd_ttl A) (fst ?c1)"
  let ?c3 = "count_step R A ''rph'' (ra_rph_key A) (ra_rph_limit A) (ra_rph_ttl A) (fst ?c2)"
  let ?t = "token_phase R A (snd (fst ?c3)) (fst (fst ?c3))"
  have 3: "r_zscore R (fst (fst ?c3)) k m = None"
    using ok none zscore_count_step [of _ A _ _ _ "fst (fst ?c2)" "snd (fst ?c2)"]
      zscore_count_step [of _ A _ _ _ "fst (fst ?c1)" "snd (fst ?c1)"] zscore_count_step [of _ A _ _ _ s]
    by (simp add: reserve_ok_def)
  note 4 = zscore_freeze_phase [OF zscore_token_phase [OF ok 3, of "snd (fst ?c3)"], of A "ta_freeze (snd ?t)"]
  then have "r_zscore R (fst (lease_phase R A (register_phase R A (freeze_phase R A (ta_freeze (snd ?t)) (fst ?t))))) k m = None"
    using ok new by (auto simp: lease_phase_def register_phase_def reserve_ok_def Let_def)
  then show ?thesis
    by (simp add: reserve_commit_def count_phase_def Let_def split_def)
qed

lemma zscore_concurrency_gate: "r_zscore R s k m = None \<Longrightarrow> r_zscore R (fst (concurrency_gate R A s)) k m = None"
  by (auto simp: concurrency_gate_def Let_def)

lemma zscore_reserve_script:
  assumes "reserve_ok K A" "r_zscore R s k m = None"
    and "\<not> (0 < ra_concurrent_limit A \<and> k = ra_conc_key A \<and> m = ra_rid A)"
  shows "r_zscore R (fst (reserve_script R A s)) k m = None"
  using zscore_reserve_commit [OF assms(1) zscore_concurrency_gate assms(3)] assms(2)
    zscore_concurrency_gate [OF assms(2)]
  by (cases rule: reserve_script_cases [of A s]) auto

lemma reserve_zcard_other:
  assumes "reserve_ok K A" "k \<noteq> ra_conc_key A \<or> ra_concurrent_limit A \<le> 0"
  shows "r_zcard R (fst (reserve_script R A s)) k \<le> r_zcard R s k"
  using assms by (intro zcard_mono zscore_reserve_script) auto

lemma reserve_zcard_own:
  assumes ok: "reserve_ok K A" and le: "int (r_zcard R s (ra_conc_key A)) \<le> ra_concurrent_limit A"
    and pos: "0 < ra_concurrent_limit A"
  shows "int (r_zcard R (fst (reserve_script R A s)) (ra_conc_key A)) \<le> ra_concurrent_limit A"
proof (cases rule: reserve_script_cases [of A s])
  case (denied r)
  have "r_zcard R (fst (concurrency_gate R A s)) (ra_conc_key A) \<le> r_zcard R s (ra_conc_key A)"
    by (intro zcard_mono zscore_concurrency_gate)
  with denied le show ?thesis by auto
next
  case admitted
  then have "snd (concurrency_gate R A s) = None" by (metis snd_conv)
  then have "int (r_zcard R (fst (concurrency_gate R A s)) (ra_conc_key A)) < ra_concurrent_limit A"
    using pos by (auto simp: concurrency_gate_def Let_def split: if_splits)
  moreover have "r_zcard R (fst (reserve_commit R A (fst (concurrency_gate R A s)))) (ra_conc_key A)
      \<le> Suc (r_zcard R (fst (concurrency_gate R A s)) (ra_conc_key A))"
    by (rule zcard_insert_le [of "ra_rid A"]) (use ok in \<open>auto intro: zscore_reserve_commit\<close>)
  ultimately show ?thesis using admitted by simp
qed

end

section \<open>Rollback\<close>

context redis_store
begin

lemma rollback_write_rel:
  assumes rel: "ledgers_rel R K s L" and k: "k \<in> K" and rid: "plain_rid rid" and old: "r_hget R s k rid = Some (HNum old)"
  defines "n \<equiv> num_of (r_hget R s k ''__total'') - old"
  shows "ledgers_rel R K (r_exec R (HDEL k [rid, state_field rid])
           (r_exec R (HSET k [(''__total'', HNum (if n < 0 then 0 else n))]) s)) (L(k := fmdrop rid (L k)))"
proof -
  have r: "ledger_rel R s k (L k)" using rel k by (simp add: ledgers_rel_def)
  have lk: "fmlookup (L k) rid = Some old" using r rid old by (auto simp: ledger_rel_def)
  have "old \<le> map_total (L k)" using r lk by (intro map_total_ge_entry) (auto simp: ledger_rel_def)
  then have nn: "0 \<le> n" and n: "n = map_total (fmdrop rid (L k))"
    using r lk by (auto simp: n_def ledger_rel_def map_total_drop)
  show ?thesis
    unfolding ledgers_rel_def
  proof
    fix k' assume k': "k' \<in> K"
    show "ledger_rel R (r_exec R (HDEL k [rid, state_field rid])
        (r_exec R (HSET k [(''__total'', HNum (if n < 0 then 0 else n))]) s)) k' ((L(k := fmdrop rid (L k))) k')"
    proof (cases "k' = k")
      case True
      with r rid nn n show ?thesis by (auto simp: ledger_rel_def num_of_def split: if_splits)
    next
      case False
      with rel k' show ?thesis by (auto simp: ledgers_rel_def ledger_rel_def)
    qed
  qed
qed

lemma rollback_loop_rel:
  assumes "ledgers_rel R K s L" "set ks \<subseteq> K" "plain_rid rid"
  shows "\<exists>s' n. rollback_loop R rid ks removed s = (s', Some n) \<and> ledgers_rel R K s' (spec_rollback rid ks L)
           \<and> r_zscore R s' = r_zscore R s"
  using assms(1,2)
proof (induction ks arbitrary: s L removed)
  case Nil
  then show ?case by (simp add: spec_rollback_def)
next
  case (Cons k ks)
  then have k: "k \<in> K" and r: "ledger_rel R s k (L k)" by (auto simp: ledgers_rel_def)
  show ?case
  proof (cases "fmlookup (L k) rid")
    case None
    with r assms(3) have "r_hget R s k rid = None" by (simp add: ledger_rel_def)
    moreover from None have "fmdrop rid (L k) = L k" by (intro fmap_ext) auto
    then have "spec_rollback rid (k # ks) L = spec_rollback rid ks L" by (auto simp: spec_rollback_def fun_eq_iff)
    ultimately show ?thesis using Cons.IH [of s L removed] Cons.prems by simp
  next
    case (Some old)
    with r assms(3) have old: "r_hget R s k rid = Some (HNum old)" by (simp add: ledger_rel_def)
    note w = rollback_write_rel [OF Cons.prems(1) k assms(3) old]
    have sp: "spec_rollback rid ks (L(k := fmdrop rid (L k))) = spec_rollback rid (k # ks) L"
      by (auto simp: spec_rollback_def fun_eq_iff fmap_ext)
    have zs: "r_zscore R (r_exec R (HDEL k [rid, state_field rid]) (r_exec R (HSET k [(''__total'', v)]) s)) = r_zscore R s" for v
      by (simp add: fun_eq_iff)
    from Cons.IH [OF w, of "removed + 1", unfolded sp zs] Cons.prems(2) old show ?thesis
      by (simp add: Let_def)
  qed
qed

lemma rollback_script_rel:
  assumes "ledgers_rel R K s L" "set ks \<subseteq> K" "plain_rid rid" "meta \<notin> K"
  shows "ledgers_rel R K (fst (rollback_script R rid ks index meta s)) (spec_rollback rid ks L)"
    and "snd (rollback_script R rid ks index meta s) \<noteq> None"
    and "r_zscore R s k m = None \<Longrightarrow> r_zscore R (fst (rollback_script R rid ks index meta s)) k m = None"
proof -
  from rollback_loop_rel [OF assms(1-3), of 0] obtain s' n where
    l: "rollback_loop R rid ks 0 s = (s', Some n)" and r: "ledgers_rel R K s' (spec_rollback rid ks L)"
    and z: "r_zscore R s' = r_zscore R s" by blast
  show "ledgers_rel R K (fst (rollback_script R rid ks index meta s)) (spec_rollback rid ks L)"
    by (rule ledgers_rel_frame [OF r]) (use l assms(4) in \<open>auto simp: rollback_script_def fun_eq_iff\<close>)
  show "snd (rollback_script R rid ks index meta s) \<noteq> None" by (simp add: rollback_script_def l)
  show "r_zscore R s k m = None \<Longrightarrow> r_zscore R (fst (rollback_script R rid ks index meta s)) k m = None"
    using z by (simp add: rollback_script_def l)
qed

end

section \<open>Reconciliation\<close>

definition reconcile_ok :: "key set \<Rightarrow> reconcile_args \<Rightarrow> bool" where
  "reconcile_ok K A \<longleftrightarrow> plain_rid (rc_rid A) \<and> 0 \<le> rc_actual A \<and> fst ` set (rc_ledgers A) \<subseteq> K
     \<and> rc_account_freeze_key A \<notin> K \<and> rc_model_freeze_key A \<notin> K \<and> rc_meta_key A \<notin> K"

definition spec_reconcile :: "reconcile_args \<Rightarrow> key set \<Rightarrow> (key \<Rightarrow> ledger) \<Rightarrow> key \<Rightarrow> ledger" where
  \<comment> \<open>\<open>E\<close>: the ledger keys that still exist\<close>
  "spec_reconcile A E L = (\<lambda>k. if k \<in> fst ` set (rc_ledgers A) \<and> k \<in> E then fmupd (rc_rid A) (rc_actual A) (L k) else L k)"

context redis_store
begin

lemma exists_exec_other:
  assumes "cmd_ok c" "k \<noteq> cmd_key c"
  shows "r_exists R (r_exec R c s) k = r_exists R s k"
  unfolding exists_present present_def hget_exec [OF assms(1)] zscore_exec [OF assms(1)]
    sismember_exec [OF assms(1)] get_exec [OF assms(1)] using assms(2)
  by (cases c) (simp_all add: hash_effect_def zset_effect_def set_effect_def str_effect_def)

lemma exists_HSET: "fvs \<noteq> [] \<Longrightarrow> r_exists R (r_exec R (HSET k fvs) s) k"
proof -
  assume ne: "fvs \<noteq> []"
  then obtain f v where "map_of (rev fvs) f = Some v"
    by (metis eq_fst_iff last_in_set map_of_SomeD not_Some_eq map_of_eq_None_iff image_eqI set_rev)
  then show ?thesis using ne unfolding exists_present present_def
    by (intro disjI1 exI [of _ f]) simp
qed

lemma reconcile_step_rel:
  assumes "ledgers_rel R K s L" "reconcile_ok K A" "k \<in> K"
  shows "ledgers_rel R K (fst (reconcile_step R A i (k, cap) (s, a)))
           (if r_exists R s k then put (rc_rid A) k (rc_actual A) L else L)"
    and "k' \<in> K \<Longrightarrow> r_exists R (fst (reconcile_step R A i (k, cap) (s, a))) k' = r_exists R s k'"
    and "r_zscore R s z m = None \<Longrightarrow> r_zscore R (fst (reconcile_step R A i (k, cap) (s, a))) z m = None"
proof -
  let ?n = "projected R s k (rc_rid A) (rc_actual A)"
  let ?s1 = "r_exec R (HSET k [(rc_rid A, HNum (rc_actual A)), (state_field (rc_rid A), HStr ''committed''), (''__total'', HNum ?n)]) s"
  have r: "ledger_rel R s k (L k)" using assms by (simp add: ledgers_rel_def)
  have ok: "plain_rid (rc_rid A)" "0 \<le> rc_actual A" "rc_model_freeze_key A \<notin> K" using assms(2) by (auto simp: reconcile_ok_def)
  have 1: "ledgers_rel R K ?s1 (put (rc_rid A) k (rc_actual A) L)"
    unfolding ledgers_rel_def
  proof
    fix k' assume "k' \<in> K"
    then show "ledger_rel R ?s1 k' (put (rc_rid A) k (rc_actual A) L k')"
      using hset_rel [OF r ok(1,2), of "''committed''"] assms(1) projected_rel [OF r ok(1,2)]
      by (cases "k' = k") (auto simp: ledgers_rel_def ledger_rel_def)
  qed
  note 2 = ledgers_rel_SETEX [OF 1 ok(3)]
  show "ledgers_rel R K (fst (reconcile_step R A i (k, cap) (s, a)))
           (if r_exists R s k then put (rc_rid A) k (rc_actual A) L else L)"
    using 1 2 assms(1) by (auto simp: reconcile_step_def Let_def)
  have 3: "r_exists R ?s1 k' = r_exists R s k'" if "r_exists R s k" for k'
    using that exists_exec_other [of "HSET k _" k' s] exists_HSET [of _ k s] by (cases "k' = k") auto
  show "r_exists R (fst (reconcile_step R A i (k, cap) (s, a))) k' = r_exists R s k'" if "k' \<in> K"
    using 3 that ok(3) exists_exec_other [of "SETEX (rc_model_freeze_key A) _ _" k' ?s1]
    by (auto simp: reconcile_step_def Let_def)
  show "r_zscore R s z m = None \<Longrightarrow> r_zscore R (fst (reconcile_step R A i (k, cap) (s, a))) z m = None"
    by (auto simp: reconcile_step_def Let_def)
qed

lemma reconcile_loop_rel:
  assumes "ledgers_rel R K s L" "reconcile_ok K A" "fst ` set ls \<subseteq> K"
  shows "ledgers_rel R K (fst (reconcile_loop R A i ls (s, a)))
           (\<lambda>k. if k \<in> fst ` set ls \<and> r_exists R s k then fmupd (rc_rid A) (rc_actual A) (L k) else L k)
         \<and> (\<forall>z m. r_zscore R s z m = None \<longrightarrow> r_zscore R (fst (reconcile_loop R A i ls (s, a))) z m = None)"
  using assms(1,3)
proof (induction ls arbitrary: i s a L)
  case (Cons l ls)
  obtain k cap where l: "l = (k, cap)" by fastforce
  let ?st = "reconcile_step R A i (k, cap) (s, a)"
  let ?L = "if r_exists R s k then put (rc_rid A) k (rc_actual A) L else L"
  have k: "k \<in> K" "fst ` set ls \<subseteq> K" using Cons.prems l by auto
  note st = reconcile_step_rel [OF Cons.prems(1) assms(2) k(1)]
  note ih = Cons.IH [OF st(1) [of i cap a] k(2), of "Suc i" "snd ?st"]
  have "(\<lambda>k'. if k' \<in> fst ` set ls \<and> r_exists R (fst ?st) k' then fmupd (rc_rid A) (rc_actual A) (?L k') else ?L k') =
        (\<lambda>k'. if k' \<in> fst ` set (l # ls) \<and> r_exists R s k' then fmupd (rc_rid A) (rc_actual A) (L k') else L k')"
    using st(2) [of _ i cap a] k(2) l by (auto simp: fun_eq_iff put_def fmap_ext)
  with ih st(3) [of _ _ i cap a] show ?case by (simp add: l)
qed simp

lemma reconcile_script_rel:
  assumes "ledgers_rel R K s L" "reconcile_ok K A"
  shows "ledgers_rel R K (fst (reconcile_script R A s)) (spec_reconcile A {k. r_exists R s k} L)"
    and "r_zscore R s z m = None \<Longrightarrow> r_zscore R (fst (reconcile_script R A s)) z m = None"
proof -
  let ?l = "reconcile_loop R A 1 (rc_ledgers A) (s, \<lparr>rca_out = [], rca_account_ttl = 0, rca_model_ttl = 0\<rparr>)"
  have ok: "fst ` set (rc_ledgers A) \<subseteq> K" "rc_account_freeze_key A \<notin> K" "rc_meta_key A \<notin> K"
    using assms(2) by (auto simp: reconcile_ok_def)
  note l = reconcile_loop_rel [OF assms(1,2) ok(1), of 1 "\<lparr>rca_out = [], rca_account_ttl = 0, rca_model_ttl = 0\<rparr>"]
  have "ledgers_rel R K (fst (reconcile_script R A s)) (\<lambda>k. if k \<in> fst ` set (rc_ledgers A) \<and> r_exists R s k
      then fmupd (rc_rid A) (rc_actual A) (L k) else L k)"
    by (rule ledgers_rel_frame [OF conjunct1 [OF l]])
       (use ok in \<open>auto simp: reconcile_script_def Let_def split_def fun_eq_iff\<close>)
  then show "ledgers_rel R K (fst (reconcile_script R A s)) (spec_reconcile A {k. r_exists R s k} L)"
    by (simp add: spec_reconcile_def)
  show "r_zscore R s z m = None \<Longrightarrow> r_zscore R (fst (reconcile_script R A s)) z m = None"
    using conjunct2 [OF l] by (auto simp: reconcile_script_def Let_def split_def)
qed

end

section \<open>Round trips on the abstract ledgers\<close>

lemma fold_put_other:
  "k \<notin> fst ` set es \<Longrightarrow> fold (\<lambda>(k, a). put rid k a) es L k = L k"
  by (induction es arbitrary: L) (auto simp: put_def)

lemma fold_put_drop: "fmdrop rid (fold (\<lambda>(k, a). put rid k a) es L k) = fmdrop rid (L k)"
proof (induction es arbitrary: L)
  case (Cons e es)
  obtain k0 a where e: "e = (k0, a)" by fastforce
  have "fmdrop rid (put rid k0 a L k) = fmdrop rid (L k)"
    by (cases "k = k0") (auto intro!: fmap_ext)
  with Cons [of "put rid k0 a L"] show ?case by (simp add: e)
qed simp

lemma spec_rollback_reserve:
  assumes "fst ` set (reserve_entries A) \<subseteq> set ks" "\<And>k. k \<in> set ks \<Longrightarrow> fmlookup (L k) (ra_rid A) = None"
  shows "spec_rollback (ra_rid A) ks (spec_reserve A L) = L"
proof
  fix k
  have "k \<in> set ks \<Longrightarrow> fmdrop (ra_rid A) (L k) = L k"
    using assms(2) [of k] by (intro fmap_ext) auto
  then show "spec_rollback (ra_rid A) ks (spec_reserve A L) k = L k"
    using assms(1) fold_put_other [of k "reserve_entries A" "ra_rid A" L]
    by (auto simp: spec_rollback_def spec_reserve_def fold_put_drop)
qed

lemma spec_rollback_idem: "spec_rollback rid ks (spec_rollback rid ks L) = spec_rollback rid ks L"
  by (auto simp: spec_rollback_def fun_eq_iff intro!: fmap_ext)

lemma spec_rollback_lookup:
  "fmlookup (spec_rollback rid ks L k) rid' = (if rid' = rid \<and> k \<in> set ks then None else fmlookup (L k) rid')"
  by (auto simp: spec_rollback_def)

lemma spec_reconcile_lookup:
  "fmlookup (spec_reconcile A E L k) rid' =
     (if rid' = rc_rid A \<and> k \<in> fst ` set (rc_ledgers A) \<and> k \<in> E then Some (rc_actual A) else fmlookup (L k) rid')"
  by (auto simp: spec_reconcile_def)

lemma spec_reconcile_idem: "spec_reconcile A E (spec_reconcile A E L) = spec_reconcile A E L"
  by (auto simp: spec_reconcile_def fun_eq_iff intro!: fmap_ext)

lemma plain_rid_code [code]:
  "plain_rid rid \<longleftrightarrow> rid \<noteq> ''__total'' \<and> take (length '':state'') (rev rid) \<noteq> rev '':state''"
proof -
  have "(\<exists>x. rid = x @ t) \<longleftrightarrow> take (length t) (rev rid) = rev t" for t
    by (metis append_eq_conv_conj length_rev rev_append rev_rev_ident)
  then show ?thesis
    unfolding plain_rid_def state_field_def by blast
qed

section \<open>A limit that is reached freezes\<close>

context redis_store
begin

lemma ttl_exec_other:
  assumes "cmd_ok c" "k \<noteq> cmd_key c"
  shows "r_ttl R (r_exec R c s) k = r_ttl R s k"
proof -
  have "present R (r_exec R c s) k = present R s k"
    using exists_exec_other [OF assms] by (simp add: exists_present)
  then show ?thesis
    using ttl_exec [OF assms(1), of s k] ttl_absent [of s k] assms(2) by (cases c) (auto simp: ttl_effect_def)
qed

lemma ttl_SETEX: "0 < t \<Longrightarrow> r_ttl R (r_exec R (SETEX k v t) s) k = t"
proof -
  assume t: "0 < t"
  then have "present R (r_exec R (SETEX k v t) s) k" by (simp add: present_def get_exec str_effect_def)
  with ttl_exec [of "SETEX k v t" s k] t show ?thesis by (simp add: ttl_effect_def)
qed

lemma ttl_ledger_write:
  assumes "0 < ttl + grace" "r_ttl R s k \<noteq> 0"
  shows "0 < r_ttl R (ledger_write R k rid a n ttl grace s) k"
proof -
  let ?c = "HSET k [(rid, HNum a), (state_field rid, HStr ''reserved''), (''__total'', HNum n)]"
  let ?s1 = "r_exec R ?c s"
  have ex: "r_exists R ?s1 k" by (rule exists_HSET) simp
  have "r_ttl R ?s1 k = (if r_ttl R s k = -2 then -1 else r_ttl R s k)"
    using ttl_exec [of ?c s k] ex by (simp add: ttl_effect_def exists_present)
  with assms ttl_EXPIRE [OF assms(1) ex] show ?thesis
    by (auto simp: ledger_write_def Let_def)
qed

end

definition reached :: "reserve_args \<Rightarrow> reserve_reply \<Rightarrow> bool" where
  \<comment> \<open>a request window is at its limit after this reservation\<close>
  "reached A r \<longleftrightarrow> (0 < ra_rpm_limit A \<and> ra_rpm_limit A \<le> rr_rpm r) \<or> (0 < ra_rpd_limit A \<and> ra_rpd_limit A \<le> rr_rpd r)
     \<or> (0 < ra_rph_limit A \<and> ra_rph_limit A \<le> rr_rph r)"

definition freeze_apart :: "reserve_args \<Rightarrow> bool" where
  \<comment> \<open>the freeze key and the request ledgers are different keys\<close>
  "freeze_apart A \<longleftrightarrow> ra_freeze_key A \<notin> {ra_index_key A, ra_meta_key A, ra_conc_key A}
     \<and> distinct [ra_conc_key A, ra_rpm_key A, ra_rpd_key A, ra_rph_key A]"

lemma raise_freeze_pos: "0 < snd fz \<or> 0 < t \<and> 0 \<le> snd fz \<Longrightarrow> 0 < snd (raise_freeze n t fz)"
  by (auto simp: raise_freeze_def)

lemma raise_freeze_keeps: "0 < snd fz \<Longrightarrow> 0 < snd (raise_freeze n t fz)"
  by (auto simp: raise_freeze_def)

context redis_store
begin

lemma ttl_ledger_write_other:
  assumes "0 < ttl + grace" "k' \<noteq> k"
  shows "r_ttl R (ledger_write R k rid a n ttl grace s) k' = r_ttl R s k'"
  using assms by (simp add: ledger_write_def Let_def ttl_exec_other)

lemma count_step_freeze:
  assumes st: "count_step R A name k cap ttl (s, fz) = ((s', fz'), n)" and ttl: "0 < ttl + ra_grace A"
  shows "0 < snd fz \<Longrightarrow> 0 < snd fz'"
    and "r_ttl R s k \<noteq> 0 \<Longrightarrow> 0 < cap \<Longrightarrow> cap \<le> n \<Longrightarrow> 0 \<le> snd fz \<Longrightarrow> 0 < snd fz'"
    and "r_ttl R s k \<noteq> 0 \<Longrightarrow> 0 \<le> snd fz \<Longrightarrow> 0 \<le> snd fz'"
    and "k' \<noteq> k \<Longrightarrow> r_ttl R s' k' = r_ttl R s k'"
proof -
  let ?n = "projected R s k (ra_rid A) 1"
  note w = ttl_ledger_write [OF ttl, of s k "ra_rid A" 1 ?n]
  show "0 < snd fz \<Longrightarrow> 0 < snd fz'"
    using st by (auto simp: count_step_def Let_def raise_freeze_keeps split: if_splits)
  show "r_ttl R s k \<noteq> 0 \<Longrightarrow> 0 < cap \<Longrightarrow> cap \<le> n \<Longrightarrow> 0 \<le> snd fz \<Longrightarrow> 0 < snd fz'"
    using st w by (auto simp: count_step_def Let_def intro!: raise_freeze_pos split: if_splits)
  show "r_ttl R s k \<noteq> 0 \<Longrightarrow> 0 \<le> snd fz \<Longrightarrow> 0 \<le> snd fz'"
    using st w by (auto simp: count_step_def Let_def raise_freeze_def split: if_splits)
  show "k' \<noteq> k \<Longrightarrow> r_ttl R s' k' = r_ttl R s k'"
    using st ttl by (auto simp: count_step_def Let_def ttl_ledger_write_other split: if_splits)
qed

lemma count_phase_freeze:
  assumes cp: "count_phase R A s = ((s', fz), rpm, rpd, rph)" and ok: "reserve_ok K A"
    and dist: "distinct [ra_rpm_key A, ra_rpd_key A, ra_rph_key A]"
    and ttl: "r_ttl R s (ra_rpm_key A) \<noteq> 0" "r_ttl R s (ra_rpd_key A) \<noteq> 0" "r_ttl R s (ra_rph_key A) \<noteq> 0"
    and hit: "(0 < ra_rpm_limit A \<and> ra_rpm_limit A \<le> rpm) \<or> (0 < ra_rpd_limit A \<and> ra_rpd_limit A \<le> rpd)
              \<or> (0 < ra_rph_limit A \<and> ra_rph_limit A \<le> rph)"
  shows "0 < snd fz"
proof -
  obtain s1 fz1 n1 where 1: "count_step R A ''rpm'' (ra_rpm_key A) (ra_rpm_limit A) (ra_rpm_ttl A) (s, ('''', 0)) = ((s1, fz1), n1)"
    by (metis surj_pair)
  obtain s2 fz2 n2 where 2: "count_step R A ''rpd'' (ra_rpd_key A) (ra_rpd_limit A) (ra_rpd_ttl A) (s1, fz1) = ((s2, fz2), n2)"
    by (metis surj_pair)
  obtain s3 fz3 n3 where 3: "count_step R A ''rph'' (ra_rph_key A) (ra_rph_limit A) (ra_rph_ttl A) (s2, fz2) = ((s3, fz3), n3)"
    by (metis surj_pair)
  have pos: "0 < ra_rpm_ttl A + ra_grace A" "0 < ra_rpd_ttl A + ra_grace A" "0 < ra_rph_ttl A + ra_grace A"
    using ok by (auto simp: reserve_ok_def)
  have eq: "rpm = n1" "rpd = n2" "rph = n3" "fz = fz3" using cp by (simp_all add: count_phase_def 1 2 3)
  note f1 = count_step_freeze [OF 1 pos(1)] and f2 = count_step_freeze [OF 2 pos(2)] and f3 = count_step_freeze [OF 3 pos(3)]
  have t: "r_ttl R s1 (ra_rpd_key A) \<noteq> 0" "r_ttl R s2 (ra_rph_key A) \<noteq> 0"
    using f1(4) f2(4) dist ttl by auto
  from f1(3) ttl(1) have z1: "0 \<le> snd fz1" by simp
  with f2(3) t(1) have z2: "0 \<le> snd fz2" by simp
  from hit consider "0 < snd fz1" | "0 < snd fz2" | "0 < snd fz3"
    using f1(2) [OF ttl(1)] f2(2) [OF t(1) _ _ z1] f3(2) [OF t(2) _ _ z2] eq by auto
  then show ?thesis using f2(1) f3(1) eq by cases auto
qed

lemma token_step_freeze:
  "0 < snd (ta_freeze a) \<Longrightarrow> 0 < snd (ta_freeze (snd (token_step R A name b spec (s, a))))"
  by (cases spec) (auto simp: token_step_def Let_def raise_freeze_keeps)

lemma token_phase_freeze: "0 < snd fz \<Longrightarrow> 0 < snd (ta_freeze (snd (token_phase R A fz s)))"
proof -
  assume fz: "0 < snd fz"
  have "0 < snd (ta_freeze a) \<Longrightarrow>
      0 < snd (ta_freeze (snd (fold (\<lambda>(name, spec). token_step R A name (f name) spec) xs (s, a))))" for xs s a f
  proof (induction xs arbitrary: s a)
    case (Cons x xs)
    obtain name spec where x: "x = (name, spec)" by (cases x)
    show ?case
      using Cons.IH [OF token_step_freeze [OF Cons.prems, of A name "f name" spec s],
          of "fst (token_step R A name (f name) spec (s, a))"] by (simp add: x)
  qed simp
  with fz show ?thesis by (simp add: token_phase_def Let_def)
qed

lemma reserve_commit_freezes:
  assumes ok: "reserve_ok K A" and apart: "freeze_apart A"
    and ttl: "\<forall>k \<in> {ra_rpm_key A, ra_rpd_key A, ra_rph_key A}. r_ttl R s k \<noteq> 0"
    and hit: "reached A (snd (reserve_commit R A s))"
  shows "0 < r_ttl R (fst (reserve_commit R A s)) (ra_freeze_key A)"
proof -
  obtain s1 fz1 rpm rpd rph where cp: "count_phase R A s = ((s1, fz1), rpm, rpd, rph)" by (metis surj_pair)
  let ?tp = "token_phase R A fz1 s1"
  let ?fz = "ta_freeze (snd ?tp)"
  let ?s3 = "freeze_phase R A ?fz (fst ?tp)"
  have "0 < snd fz1"
    using count_phase_freeze [OF cp ok] apart ttl hit
    by (simp add: freeze_apart_def reached_def reserve_commit_def cp Let_def split_def)
  then have "0 < snd ?fz" by (rule token_phase_freeze)
  then have "0 < r_ttl R ?s3 (ra_freeze_key A)" by (simp add: freeze_phase_def ttl_SETEX)
  moreover have "r_ttl R (fst (lease_phase R A (register_phase R A ?s3))) (ra_freeze_key A) = r_ttl R ?s3 (ra_freeze_key A)"
    using apart ok by (auto simp: lease_phase_def register_phase_def Let_def ttl_exec_other freeze_apart_def reserve_ok_def)
  ultimately show ?thesis by (simp add: reserve_commit_def cp Let_def split_def)
qed

lemma reserve_freezes:
  assumes "reserve_ok K A" "freeze_apart A" "\<forall>k \<in> {ra_rpm_key A, ra_rpd_key A, ra_rph_key A}. r_ttl R s k \<noteq> 0"
    and "reserve_script R A s = (s', r)" "rr_allowed r" "reached A r"
  shows "0 < r_ttl R s' (ra_freeze_key A)"
proof (cases rule: reserve_script_cases [of A s])
  case (denied r')
  with assms(4,5) show ?thesis by auto
next
  case admitted
  have "r_ttl R (fst (concurrency_gate R A s)) k = r_ttl R s k" if "k \<noteq> ra_conc_key A" for k
    using that by (auto simp: concurrency_gate_def Let_def ttl_exec_other)
  then have "\<forall>k \<in> {ra_rpm_key A, ra_rpd_key A, ra_rph_key A}. r_ttl R (fst (concurrency_gate R A s)) k \<noteq> 0"
    using assms(2,3) by (auto simp: freeze_apart_def)
  from reserve_commit_freezes [OF assms(1,2) this] admitted(4) assms(4,6) show ?thesis
    by (metis fst_conv snd_conv)
qed

lemma reserve_frozen:
  "0 < r_ttl R s (ra_freeze_key A) \<Longrightarrow> \<not> ra_skip_freeze A \<Longrightarrow>
   reserve_script R A s = (s, denied ''frozen'' (r_ttl R s (ra_freeze_key A)) 0)"
  by (simp add: reserve_script_def freeze_gate_def)

end

context redis_store
begin

lemma reserve_commit_rpm:
  assumes "ledgers_rel R K s L" "reserve_ok K A"
  shows "rr_rpm (snd (reserve_commit R A s)) = (if 0 < ra_rpm_limit A then map_total (fmupd (ra_rid A) 1 (L (ra_rpm_key A))) else 0)"
proof -
  obtain s1 fz1 rpm where 1: "count_step R A ''rpm'' (ra_rpm_key A) (ra_rpm_limit A) (ra_rpm_ttl A) (s, ('''', 0)) = ((s1, fz1), rpm)"
    by (metis surj_pair)
  have "ra_rpm_key A \<in> K" "plain_rid (ra_rid A)" "0 < ra_rpm_ttl A + ra_grace A"
    using assms(2) by (auto simp: reserve_ok_def)
  from count_step_rel(3) [OF assms(1) this 1] show ?thesis
    by (simp add: reserve_commit_def count_phase_def 1 Let_def split_def)
qed

lemma reserve_script_rpm:
  assumes "ledgers_rel R K s L" "reserve_ok K A" "reserve_script R A s = (s', r)" "rr_allowed r" "0 < ra_rpm_limit A"
  shows "rr_rpm r = map_total (fmupd (ra_rid A) 1 (L (ra_rpm_key A)))"
proof (cases rule: reserve_script_cases [of A s])
  case (denied r')
  with assms(3,4) show ?thesis by auto
next
  case admitted
  have "ledgers_rel R K (fst (concurrency_gate R A s)) L"
    by (rule ledgers_rel_frame [OF assms(1)]) simp
  from reserve_commit_rpm [OF this assms(2)] admitted(4) assms(3,5) show ?thesis by (metis snd_conv)
qed

end

end
