(* ===== verification/Lub_LedgerSystem.thy ===== *)
theory Lub_LedgerSystem
  imports Lub_LedgerSpec
begin

text \<open>
  The ledger under any number of clients: the operations of \<open>RedisLimitBackend\<close> at the level of
  a connection, interleaved with the passing of time, lost requests and lost replies, as the step
  relation \<open>ledger_step\<close>. The invariant of its reachable states is that every ledger hash is a
  sum of reservations and that no account holds more leases than its limit. The second part is
  about the reaper of orphaned reservations: it leaves the reservations of a living process alone.
\<close>

section \<open>Key spaces\<close>

definition ledger_keys :: "string option \<Rightarrow> key set" where
  "ledger_keys pfx = {ledger_key pfx scope subj metric wid | scope subj metric wid. scope \<in> {''account'', ''model''}}"

definition freeze_key_ok :: "key \<Rightarrow> bool" where
  \<comment> \<open>the key families the manager passes as freeze keys\<close>
  "freeze_key_ok k \<longleftrightarrow> startswith k ''limit:cooldown:'' \<or> startswith k ''limit:model-tpm-freeze:''"

lemma startswith_iff: "startswith s p \<longleftrightarrow> (\<exists>t. s = p @ t)"
  by (auto simp: startswith_def) (metis append_take_drop_id)

lemma in_ledger_keys:
  "be_key pfx k \<in> ledger_keys pfx \<longleftrightarrow>
     (\<exists>scope \<in> {''account'', ''model''}. \<exists>subj metric wid.
        k = RESERVATION_PREFIX @ '':'' @ scope @ '':'' @ subj @ '':'' @ metric @ '':'' @ wid)"
  unfolding ledger_keys_def ledger_key_def mem_Collect_eq be_key_inj by blast

lemma account_keys_ledger [simp]:
  "ak_rpm (account_ledger_keys pfx ak w) \<in> ledger_keys pfx" "ak_rph (account_ledger_keys pfx ak w) \<in> ledger_keys pfx"
  "ak_rpd (account_ledger_keys pfx ak w) \<in> ledger_keys pfx" "ak_tpm (account_ledger_keys pfx ak w) \<in> ledger_keys pfx"
  "ak_tph (account_ledger_keys pfx ak w) \<in> ledger_keys pfx" "ak_tpd (account_ledger_keys pfx ak w) \<in> ledger_keys pfx"
  by (auto simp: account_ledger_keys_def Let_def ledger_keys_def)

lemma model_key_ledger [simp]: "model_ledger_key pfx m w \<in> ledger_keys pfx"
  "ledger_key pfx ''model'' x y z \<in> ledger_keys pfx"
  by (auto simp: model_ledger_key_def ledger_keys_def)

lemma meta_not_ledger [simp]: "be_key pfx (reservation_meta_key rid) \<notin> ledger_keys pfx"
  by (auto simp: in_ledger_keys reservation_meta_key_def)

lemma freeze_not_ledger [simp]: "freeze_key_ok k \<Longrightarrow> be_key pfx k \<notin> ledger_keys pfx"
  by (auto simp: in_ledger_keys freeze_key_ok_def startswith_iff RESERVATION_PREFIX_def)

lemma heartbeat_not_ledger [simp]: "be_key pfx (process_heartbeat_key b) \<notin> ledger_keys pfx"
  by (auto simp: in_ledger_keys process_heartbeat_key_def PROCESS_HEARTBEAT_PREFIX_def RESERVATION_PREFIX_def)

lemma no_freeze_not_ledger [simp]:
  "be_key pfx ''limit:reservation:v1:__no_account_freeze__'' \<notin> ledger_keys pfx"
  "be_key pfx ''limit:reservation:v1:__no_model_freeze__'' \<notin> ledger_keys pfx"
  by (auto simp: in_ledger_keys RESERVATION_PREFIX_def)

lemma concurrency_key_inj [simp]: "concurrency_key pfx a = concurrency_key pfx b \<longleftrightarrow> a = b"
  by (simp add: concurrency_key_def)

lemma bare_be_key: "pfx \<noteq> Some [] \<Longrightarrow> get_key pfx (bare_key pfx (be_key pfx k)) = be_key pfx k"
  by (auto simp: get_key_def bare_key_def be_key_def startswith_def split: option.splits)

lemma get_key_be_key: "pfx \<noteq> Some [] \<Longrightarrow> get_key pfx k = be_key pfx k"
  by (auto simp: get_key_def be_key_def split: option.splits)

section \<open>Well-formed calls\<close>

definition reserve_params_ok :: "(string \<Rightarrow> int) \<Rightarrow> reserve_params \<Rightarrow> bool" where
  \<comment> \<open>\<open>cap\<close> is the concurrency limit configured for an account\<close>
  "reserve_params_ok cap P \<longleftrightarrow> plain_rid (rp_lease_id P) \<and> rp_concurrent_limit P = cap (rp_account_key P)
     \<and> 0 < rp_concurrency_ttl P
     \<and> (\<forall>t \<in> {rp_rpm_ttl P, rp_rpd_ttl P, rp_rph_ttl P, rp_tpm_ttl P, rp_tph_ttl P, rp_tpd_ttl P, rp_model_tpm_ttl P}. 0 < t)
     \<and> freeze_key_ok (rp_freeze_key P) \<and> freeze_key_ok (rp_model_freeze_key P)"

definition reconcile_params_ok :: "reconcile_params \<Rightarrow> bool" where
  "reconcile_params_ok P \<longleftrightarrow> plain_rid (rcp_reservation_id P)
     \<and> (\<forall>k. opt_str (rcp_account_freeze_key P) = Some k \<longrightarrow> freeze_key_ok k)
     \<and> (\<forall>k. opt_str (rcp_model_freeze_key P) = Some k \<longrightarrow> freeze_key_ok k)"

lemma reserve_args_ok: "reserve_params_ok cap P \<Longrightarrow> reserve_ok (ledger_keys pfx) (reserve_args_of pfx cal now P)"
  by (auto simp: reserve_params_ok_def reserve_ok_def reserve_args_of_def Let_def RESERVATION_GRACE_def split: option.splits)

lemma reserve_args_conc [simp]:
  "ra_conc_key (reserve_args_of pfx cal now P) = concurrency_key pfx (rp_account_key P)"
  "ra_concurrent_limit (reserve_args_of pfx cal now P) = rp_concurrent_limit P"
  by (simp_all add: reserve_args_of_def Let_def)

lemma reconcile_args_ok: "reconcile_params_ok P \<Longrightarrow> reconcile_ok (ledger_keys pfx) (reconcile_args_of pfx cal now P)"
  by (auto simp: reconcile_params_ok_def reconcile_ok_def reconcile_args_of_def Let_def split: option.splits)

lemma rollback_keys_ledger: "set (rollback_keys pfx ak mid w) \<subseteq> ledger_keys pfx"
  by (auto simp: rollback_keys_def Let_def split: option.splits)

section \<open>Steps\<close>

text \<open>
  One step is one backend operation by any client, a change of the connection (client there or
  not, outcome of the calls to come), or time passing on the server.
\<close>

inductive ledger_step :: "'s redis \<Rightarrow> calendar \<Rightarrow> (string \<Rightarrow> int) \<Rightarrow> 's conn \<Rightarrow> 's conn \<Rightarrow> bool"
  for R cal cap where
  st_reserve: "reserve_params_ok cap P \<Longrightarrow> ledger_step R cal cap c (fst (reserve_account_limits R cal now P c))"
| st_rollback: "plain_rid rid \<Longrightarrow> ledger_step R cal cap c (fst (rollback_account_reservation R cal now ak mid rid wo c))"
| st_reconcile: "reconcile_params_ok P \<Longrightarrow> ledger_step R cal cap c (fst (reconcile_account_reservation R cal now P c))"
| st_finalize: "ledger_step R cal cap c (finalize_reservation R rid c)"
| st_heartbeat: "ledger_step R cal cap c (fst (set_process_heartbeat R boot ttl c))"
| st_alive: "ledger_step R cal cap c (fst (process_alive R boot c))"
| st_renew: "ledger_step R cal cap c (fst (renew_account_reservation R now ak lease ttl c))"
| st_release: "ledger_step R cal cap c (fst (release_account_reservation R ak lease c))"
| st_usage: "ledger_step R cal cap c (fst (batch_get_account_window_usage R cal now ak ms c))"
| st_net: "ledger_step R cal cap c (c\<lparr>conn_client := b, conn_faults := fs\<rparr>)"
| st_elapse: "ledger_step R cal cap c (c\<lparr>conn_store := r_elapse R d (conn_store c)\<rparr>)"

definition ledger_inv :: "('s, 'a) redis_scheme \<Rightarrow> (string \<Rightarrow> int) \<Rightarrow> 's conn \<Rightarrow> bool" where
  "ledger_inv R cap c \<longleftrightarrow> (\<exists>L. ledgers_rel R (ledger_keys (conn_prefix c)) (conn_store c) L)
     \<and> (\<forall>ak. int (r_zcard R (conn_store c) (concurrency_key (conn_prefix c) ak)) \<le> max 0 (cap ak))"

lemma call_prefix [simp]: "conn_prefix (fst (call f c)) = conn_prefix c"
  by (auto simp: call_def Let_def split_def split: list.splits net.splits)

lemma call_store: "conn_store (fst (call f c)) = conn_store c \<or> conn_store (fst (call f c)) = fst (f (conn_store c))"
  by (auto simp: call_def Let_def split_def split: list.splits net.splits)

definition store_inv :: "('s, 'a) redis_scheme \<Rightarrow> (string \<Rightarrow> int) \<Rightarrow> string option \<Rightarrow> 's \<Rightarrow> bool" where
  "store_inv R cap pfx s \<longleftrightarrow> (\<exists>L. ledgers_rel R (ledger_keys pfx) s L)
     \<and> (\<forall>ak. int (r_zcard R s (concurrency_key pfx ak)) \<le> max 0 (cap ak))"

lemma call_store_inv:
  assumes "\<And>s. store_inv R cap pfx s \<Longrightarrow> store_inv R cap pfx (fst (f s))" "store_inv R cap pfx (conn_store c)"
  shows "store_inv R cap pfx (conn_store (fst (call f c)))"
  using call_store [of f c] assms by auto

lemma ledger_inv_store: "ledger_inv R cap c = store_inv R cap (conn_prefix c) (conn_store c)"
  by (simp add: ledger_inv_def store_inv_def)

context redis_store
begin

lemma store_invI:
  assumes "store_inv R cap pfx s" "\<And>L. ledgers_rel R (ledger_keys pfx) s L \<Longrightarrow> \<exists>L'. ledgers_rel R (ledger_keys pfx) t L'"
    and z: "\<And>L k m. ledgers_rel R (ledger_keys pfx) s L \<Longrightarrow> r_zscore R s k m = None \<Longrightarrow> r_zscore R t k m = None"
  shows "store_inv R cap pfx t"
proof -
  obtain L where L: "ledgers_rel R (ledger_keys pfx) s L" using assms(1) by (auto simp: store_inv_def)
  have "int (r_zcard R t (concurrency_key pfx ak)) \<le> max 0 (cap ak)" for ak
  proof -
    have "r_zcard R t (concurrency_key pfx ak) \<le> r_zcard R s (concurrency_key pfx ak)"
      by (intro zcard_mono z [OF L])
    moreover have "int (r_zcard R s (concurrency_key pfx ak)) \<le> max 0 (cap ak)"
      using assms(1) by (simp add: store_inv_def)
    ultimately show ?thesis by linarith
  qed
  with assms(1,2) show ?thesis by (auto simp: store_inv_def)
qed

lemma store_inv_reserve:
  assumes inv: "store_inv R cap pfx s" and ok: "reserve_params_ok cap P"
  shows "store_inv R cap pfx (fst (reserve_script R (reserve_args_of pfx cal now P) s))"
proof -
  let ?A = "reserve_args_of pfx cal now P"
  note aok = reserve_args_ok [OF ok, of pfx cal now]
  from inv obtain L where L: "ledgers_rel R (ledger_keys pfx) s L" by (auto simp: store_inv_def)
  have le: "int (r_zcard R s (concurrency_key pfx ak)) \<le> max 0 (cap ak)" for ak
    using inv by (simp add: store_inv_def)
  have cl: "rp_concurrent_limit P = cap (rp_account_key P)" using ok by (simp add: reserve_params_ok_def)
  have "int (r_zcard R (fst (reserve_script R ?A s)) (concurrency_key pfx ak)) \<le> max 0 (cap ak)" for ak
  proof (cases "ak = rp_account_key P \<and> 0 < cap ak")
    case True
    with reserve_zcard_own [OF aok, of s] le [of ak] cl show ?thesis by auto
  next
    case False
    then have "r_zcard R (fst (reserve_script R ?A s)) (concurrency_key pfx ak) \<le> r_zcard R s (concurrency_key pfx ak)"
      using cl by (intro reserve_zcard_other [OF aok]) auto
    with le [of ak] show ?thesis by linarith
  qed
  with reserve_script_rel [OF L aok] show ?thesis by (auto simp: store_inv_def)
qed

lemma store_inv_frame:
  assumes "store_inv R cap pfx s" "\<And>k. k \<in> ledger_keys pfx \<Longrightarrow> r_hget R t k = r_hget R s k"
    and "\<And>k m. r_zscore R s k m = None \<Longrightarrow> r_zscore R t k m = None"
  shows "store_inv R cap pfx t"
  using assms(2) by (intro store_invI [OF assms(1) _ assms(3)]) (blast intro: ledgers_rel_frame)

lemma store_inv_elapse: "store_inv R cap pfx s \<Longrightarrow> store_inv R cap pfx (r_elapse R d s)"
  by (erule store_invI) (auto intro: elapse_zscore dest: ledgers_rel_elapse [where d = d])

lemma store_inv_cmds:
  "store_inv R cap pfx s \<Longrightarrow> store_inv R cap pfx (r_exec R (SREM k x) s)"
  "store_inv R cap pfx s \<Longrightarrow> store_inv R cap pfx (r_exec R (DEL (be_key pfx (reservation_meta_key rid))) s)"
  "store_inv R cap pfx s \<Longrightarrow> 0 < ttl \<Longrightarrow> store_inv R cap pfx (r_exec R (SETEX (be_key pfx (process_heartbeat_key b)) v ttl) s)"
  "store_inv R cap pfx s \<Longrightarrow> 0 < ttl \<Longrightarrow> store_inv R cap pfx (fst (renew_script R k lease now ttl s))"
  "store_inv R cap pfx s \<Longrightarrow> store_inv R cap pfx (fst (release_script R k lease s))"
  by (erule store_inv_frame; auto simp: fun_eq_iff renew_script_def release_script_def Let_def split: if_splits)+

lemma ledger_inv_step:
  assumes "ledger_step R cal cap c c'" "ledger_inv R cap c" "conn_prefix c \<noteq> Some []"
  shows "ledger_inv R cap c' \<and> conn_prefix c' = conn_prefix c"
  using assms
proof (induction rule: ledger_step.induct)
  case (st_reserve P c now)
  then show ?case
    by (auto simp: reserve_account_limits_def ledger_inv_store Let_def split_def intro!: call_store_inv store_inv_reserve)
next
  case (st_rollback rid c now ak mid wo)
  have *: "store_inv R cap (conn_prefix c) (fst (rollback_script R rid (rollback_keys (conn_prefix c) ak mid w) i
          (be_key (conn_prefix c) (reservation_meta_key rid)) s))"
    if "store_inv R cap (conn_prefix c) s" for s w i
    using rollback_script_rel [OF _ rollback_keys_ledger st_rollback(1) meta_not_ledger]
    by (intro store_invI [OF that]) blast+
  show ?case using st_rollback(2,3)
    by (auto simp: rollback_account_reservation_def ledger_inv_store Let_def split_def intro!: call_store_inv *)
next
  case (st_reconcile P c now)
  have *: "store_inv R cap (conn_prefix c) (fst (reconcile_script R (reconcile_args_of (conn_prefix c) cal now P) s))"
    if "store_inv R cap (conn_prefix c) s" for s
    using reconcile_script_rel [OF _ reconcile_args_ok [OF st_reconcile(1)]]
    by (intro store_invI [OF that]) blast+
  show ?case using st_reconcile(2,3)
    by (auto simp: reconcile_account_reservation_def ledger_inv_store Let_def split_def intro!: call_store_inv *)
next
  case (st_finalize c rid)
  then show ?case
    by (auto simp: finalize_reservation_def ledger_inv_store Let_def split_def bare_be_key
          intro!: call_store_inv store_inv_cmds split: option.splits)
next
  case (st_heartbeat c boot ttl)
  then show ?case
    by (auto simp: set_process_heartbeat_def ledger_inv_store Let_def split_def get_key_be_key
          intro!: call_store_inv store_inv_cmds)
next
  case (st_alive c boot)
  then show ?case
    by (auto simp: process_alive_def ledger_inv_store Let_def split_def intro!: call_store_inv)
next
  case (st_renew c now ak lease ttl)
  then show ?case
    by (auto simp: renew_account_reservation_def ledger_inv_store Let_def split_def intro!: call_store_inv store_inv_cmds)
next
  case (st_release c ak lease)
  then show ?case
    by (auto simp: release_account_reservation_def ledger_inv_store intro!: call_store_inv store_inv_cmds)
next
  case (st_usage c now ak ms)
  then show ?case
    by (auto simp: batch_get_account_window_usage_def ledger_inv_store Let_def split_def intro!: call_store_inv)
next
  case (st_net c b fs)
  then show ?case by (simp add: ledger_inv_store)
next
  case (st_elapse c d)
  then show ?case by (simp add: ledger_inv_store store_inv_elapse)
qed

lemma ledger_inv_reachable:
  assumes "(ledger_step R cal cap)\<^sup>*\<^sup>* c c'" "ledger_inv R cap c" "conn_prefix c \<noteq> Some []"
  shows "ledger_inv R cap c' \<and> conn_prefix c' = conn_prefix c"
  using assms by (induction rule: rtranclp_induct) (auto dest!: ledger_inv_step)

end

section \<open>The reaper spares the living\<close>

text \<open>
  \<open>spares R pfx rid s t\<close>: from \<open>s\<close> to \<open>t\<close> nothing that belongs to reservation \<open>rid\<close> has
  changed (its entries in the ledgers, its metadata), and no heartbeat has come or gone.
\<close>

definition spares :: "('s, 'a) redis_scheme \<Rightarrow> string option \<Rightarrow> string \<Rightarrow> 's \<Rightarrow> 's \<Rightarrow> bool" where
  "spares R pfx rid s t \<longleftrightarrow>
     (\<forall>k \<in> ledger_keys pfx. r_hget R t k rid = r_hget R s k rid)
     \<and> (\<forall>f. r_hget R t (be_key pfx (reservation_meta_key rid)) f = r_hget R s (be_key pfx (reservation_meta_key rid)) f)
     \<and> r_exists R t (be_key pfx (reservation_meta_key rid)) = r_exists R s (be_key pfx (reservation_meta_key rid))
     \<and> (\<forall>b. r_exists R t (be_key pfx (process_heartbeat_key b)) = r_exists R s (be_key pfx (process_heartbeat_key b)))"

definition owner_lives :: "('s, 'a) redis_scheme \<Rightarrow> string option \<Rightarrow> string \<Rightarrow> string \<Rightarrow> 's \<Rightarrow> bool" where
  \<comment> \<open>the owner recorded for the reservation is the current process or has a heartbeat\<close>
  "owner_lives R pfx current rid s \<longleftrightarrow>
     (let b = decode_meta_field (r_hget R s (be_key pfx (reservation_meta_key rid)) ''boot_id'')
      in b = current \<or> r_exists R s (be_key pfx (process_heartbeat_key b)))"

lemma spares_refl [simp]: "spares R pfx rid s s"
  by (simp add: spares_def)

lemma spares_trans: "spares R pfx rid s t \<Longrightarrow> spares R pfx rid t u \<Longrightarrow> spares R pfx rid s u"
  by (simp add: spares_def)

lemma spares_owner: "spares R pfx rid s t \<Longrightarrow> owner_lives R pfx cur rid t = owner_lives R pfx cur rid s"
  by (simp add: spares_def owner_lives_def Let_def)

lemma index_keys_distinct [simp]:
  "be_key pfx (reservation_meta_key rid) \<noteq> be_key pfx RESERVATION_INDEX"
  "be_key pfx (process_heartbeat_key b) \<noteq> be_key pfx RESERVATION_INDEX"
  "be_key pfx (process_heartbeat_key b) \<noteq> be_key pfx (reservation_meta_key rid)"
  by (simp_all add: reservation_meta_key_def process_heartbeat_key_def RESERVATION_INDEX_def RESERVATION_PREFIX_def
      PROCESS_HEARTBEAT_PREFIX_def)

lemma reservation_meta_key_inj [simp]: "reservation_meta_key a = reservation_meta_key b \<longleftrightarrow> a = b"
  by (simp add: reservation_meta_key_def)

lemma ledger_key_other [simp]:
  "k \<in> ledger_keys pfx \<Longrightarrow> k \<noteq> be_key pfx (reservation_meta_key rid)"
  "k \<in> ledger_keys pfx \<Longrightarrow> k \<noteq> be_key pfx (process_heartbeat_key b)"
  "k \<in> ledger_keys pfx \<Longrightarrow> be_key pfx (reservation_meta_key rid) \<noteq> k"
  "k \<in> ledger_keys pfx \<Longrightarrow> be_key pfx (process_heartbeat_key b) \<noteq> k"
  using meta_not_ledger heartbeat_not_ledger by metis+

context redis_store
begin

lemma spares_ledger_cmds:
  assumes "k \<in> ledger_keys pfx" "plain_rid rid0" "rid \<noteq> rid0"
  shows "spares R pfx rid0 s (r_exec R (HDEL k [rid, state_field rid]) (r_exec R (HSET k [(''__total'', v)]) s))"
  using assms meta_not_ledger [of pfx rid0] heartbeat_not_ledger [of pfx]
  by (auto simp: spares_def exists_exec_other)

lemma spares_SREM: "spares R pfx rid0 s (r_exec R (SREM (be_key pfx RESERVATION_INDEX) rid) s)"
  using index_keys_distinct by (simp add: spares_def exists_exec_other)

lemma spares_DEL: "rid \<noteq> rid0 \<Longrightarrow> spares R pfx rid0 s (r_exec R (DEL (be_key pfx (reservation_meta_key rid))) s)"
  using index_keys_distinct by (auto simp: spares_def exists_exec_other)

lemma spares_rollback_loop:
  assumes "set ks \<subseteq> ledger_keys pfx" "plain_rid rid0" "rid \<noteq> rid0"
  shows "spares R pfx rid0 s (fst (rollback_loop R rid ks n s))"
  using assms(1)
proof (induction ks arbitrary: n s)
  case (Cons k ks)
  then have k: "k \<in> ledger_keys pfx" and ks: "set ks \<subseteq> ledger_keys pfx" by auto
  show ?case
    using Cons.IH [OF ks] spares_trans [OF spares_ledger_cmds [OF k assms(2,3)] Cons.IH [OF ks]]
    by (auto simp: Let_def split: option.splits hval.splits)
qed simp

lemma spares_rollback_script:
  assumes "set ks \<subseteq> ledger_keys pfx" "plain_rid rid0" "rid \<noteq> rid0"
  shows "spares R pfx rid0 s (fst (rollback_script R rid ks (be_key pfx RESERVATION_INDEX) (be_key pfx (reservation_meta_key rid)) s))"
proof -
  note l = spares_rollback_loop [OF assms, of s 0]
  note f = spares_trans [OF spares_trans [OF l spares_SREM] spares_DEL [OF assms(3)]]
  show ?thesis
    using l f by (auto simp: rollback_script_def split: prod.splits option.splits)
qed

lemma call_spares:
  "(\<And>s. spares R pfx rid s (fst (f s))) \<Longrightarrow> spares R pfx rid (conn_store c) (conn_store (fst (call f c)))"
  using call_store [of f c] by (metis spares_refl)

lemma call_client [simp]: "conn_client (fst (call f c)) = conn_client c"
  by (auto simp: call_def Let_def split_def split: list.splits net.splits)

lemma call_read_store [simp]: "conn_store (fst (call (\<lambda>s. (s, g s)) c)) = conn_store c"
  using call_store [of "\<lambda>s. (s, g s)" c] by auto

lemma spares_rollback:
  assumes "plain_rid rid0" "rid \<noteq> rid0"
  shows "spares R (conn_prefix c) rid0 (conn_store c) (conn_store (fst (rollback_account_reservation R cal now ak mid rid w c)))"
    and "conn_prefix (fst (rollback_account_reservation R cal now ak mid rid w c)) = conn_prefix c"
  using spares_rollback_script [OF rollback_keys_ledger assms]
  by (auto simp: rollback_account_reservation_def Let_def split_def intro!: call_spares)

lemma spares_finalize:
  assumes "rid \<noteq> rid0" "conn_prefix c \<noteq> Some []"
  shows "spares R (conn_prefix c) rid0 (conn_store c) (conn_store (finalize_reservation R rid c))"
    and "conn_prefix (finalize_reservation R rid c) = conn_prefix c"
proof -
  let ?c1 = "call (\<lambda>s. (r_exec R (SREM (be_key (conn_prefix c) RESERVATION_INDEX) rid) s, ())) c"
  let ?c2 = "call (\<lambda>s. (r_exec R (DEL (be_key (conn_prefix c) (reservation_meta_key rid))) s, ())) (fst ?c1)"
  have 1: "spares R (conn_prefix c) rid0 (conn_store c) (conn_store (fst ?c1))"
    by (rule call_spares) (simp add: spares_SREM)
  have 2: "spares R (conn_prefix c) rid0 (conn_store (fst ?c1)) (conn_store (fst ?c2))"
    by (rule call_spares) (simp add: spares_DEL assms(1))
  show "spares R (conn_prefix c) rid0 (conn_store c) (conn_store (finalize_reservation R rid c))"
    using 1 spares_trans [OF 1 2]
    by (auto simp: finalize_reservation_def Let_def split_def bare_be_key assms(2) split: option.splits)
  show "conn_prefix (finalize_reservation R rid c) = conn_prefix c"
    by (simp add: finalize_reservation_def Let_def split_def split: option.splits)
qed

lemma process_alive_spares [simp]:
  "conn_store (fst (process_alive R b c)) = conn_store c" "conn_prefix (fst (process_alive R b c)) = conn_prefix c"
  by (auto simp: process_alive_def Let_def split_def)

lemma process_alive_heartbeat:
  "r_exists R (conn_store c) (be_key (conn_prefix c) (process_heartbeat_key b)) \<Longrightarrow> snd (process_alive R b c)"
  by (auto simp: process_alive_def Let_def split_def call_def split: list.splits net.splits)

lemma spares_reap_one:
  assumes plain: "plain_rid rid0" and pfx: "conn_prefix c \<noteq> Some []"
    and lives: "owner_lives R (conn_prefix c) cur rid0 (conn_store c)"
    and meta: "\<And>m. rid = rid0 \<Longrightarrow> meta = Some m \<Longrightarrow>
        meta_boot_id m = r_hget R (conn_store c) (be_key (conn_prefix c) (reservation_meta_key rid0)) ''boot_id''"
  shows "spares R (conn_prefix c) rid0 (conn_store c) (conn_store (fst (reap_one R cal now cur rid meta (c, n))))
       \<and> conn_prefix (fst (reap_one R cal now cur rid meta (c, n))) = conn_prefix c"
proof (cases meta)
  case (Some m')
  let ?b = "decode_meta_field (meta_boot_id m')"
  let ?c1 = "fst (process_alive R ?b c)"
  show ?thesis
  proof (cases "?b = [] \<or> ?b = cur \<or> snd (process_alive R ?b c)")
    case True
    with Some show ?thesis by (auto simp: reap_one_def Let_def split_def)
  next
    case False
    have ne: "rid \<noteq> rid0"
    proof
      assume eq: "rid = rid0"
      then have "r_exists R (conn_store c) (be_key (conn_prefix c) (process_heartbeat_key ?b))"
        using lives assms(4) Some False by (simp add: owner_lives_def Let_def)
      with False process_alive_heartbeat show False by blast
    qed
    let ?rb = "\<lambda>w. rollback_account_reservation R cal now (decode_meta_field (meta_account_key m'))
      (opt_str (Some (decode_meta_field (meta_model_id m')))) rid w ?c1"
    have rb: "spares R (conn_prefix c) rid0 (conn_store c) (conn_store (fst (?rb w)))" "conn_prefix (fst (?rb w)) = conn_prefix c" for w
      using spares_rollback [OF plain ne, where c = ?c1] by simp_all
    have fin: "spares R (conn_prefix c) rid0 (conn_store c) (conn_store (finalize_reservation R rid (fst (?rb w))))"
      "conn_prefix (finalize_reservation R rid (fst (?rb w))) = conn_prefix c" for w
      using spares_finalize [OF ne, of "fst (?rb w)"] pfx rb by (auto intro: spares_trans)
    show ?thesis
      using Some False rb fin by (auto simp: reap_one_def Let_def split_def split: sum.splits option.splits)
  qed
qed (simp add: reap_one_def)

end

definition meta_current :: "('s, 'a) redis_scheme \<Rightarrow> string \<Rightarrow> 's conn \<Rightarrow> (string \<times> resv_meta option) list \<Rightarrow> bool" where
  \<comment> \<open>what was read of the reservation's metadata still names the stored owner\<close>
  "meta_current R rid c xs \<longleftrightarrow> (\<forall>m. (rid, Some m) \<in> set xs \<longrightarrow>
     meta_boot_id m = r_hget R (conn_store c) (be_key (conn_prefix c) (reservation_meta_key rid)) ''boot_id'')"

definition conn_spares :: "('s, 'a) redis_scheme \<Rightarrow> string \<Rightarrow> 's conn \<Rightarrow> 's conn \<Rightarrow> bool" where
  "conn_spares R rid c c' \<longleftrightarrow> conn_prefix c' = conn_prefix c \<and> spares R (conn_prefix c) rid (conn_store c) (conn_store c')"

lemma conn_spares_trans: "conn_spares R rid c d \<Longrightarrow> conn_spares R rid d e \<Longrightarrow> conn_spares R rid c e"
  by (auto simp: conn_spares_def intro: spares_trans)

context redis_store
begin

lemma spares_reap_batch:
  assumes "plain_rid rid0" "conn_prefix c \<noteq> Some []" "owner_lives R (conn_prefix c) cur rid0 (conn_store c)"
    and "meta_current R rid0 c xs"
  shows "conn_spares R rid0 c (fst (reap_batch R cal now cur xs (c, n)))"
  using assms(2-4)
proof (induction xs arbitrary: c n)
  case Nil
  then show ?case by (simp add: conn_spares_def)
next
  case (Cons x xs)
  obtain rid meta where x: "x = (rid, meta)" by fastforce
  let ?o = "reap_one R cal now cur rid meta (c, n)"
  have "meta_boot_id m = r_hget R (conn_store c) (be_key (conn_prefix c) (reservation_meta_key rid0)) ''boot_id''"
    if "rid = rid0" "meta = Some m" for m
    using Cons.prems(3) x that by (simp add: meta_current_def)
  then have one: "conn_spares R rid0 c (fst ?o)"
    using spares_reap_one [OF assms(1) Cons.prems(1,2), of rid meta cal now n] by (simp add: conn_spares_def)
  have lives: "owner_lives R (conn_prefix (fst ?o)) cur rid0 (conn_store (fst ?o))" "conn_prefix (fst ?o) \<noteq> Some []"
    using Cons.prems one by (auto simp: conn_spares_def spares_owner)
  have "meta_current R rid0 (fst ?o) xs"
    using Cons.prems x one by (auto simp: conn_spares_def meta_current_def spares_def)
  note ih = conn_spares_trans [OF one Cons.IH [OF lives(2,1) this]]
  show ?case
    using one ih by (cases ?o; cases "snd ?o") (auto simp: x)
qed

lemma read_metas_store:
  "conn_store (fst (read_metas R rids c)) = conn_store c" "conn_prefix (fst (read_metas R rids c)) = conn_prefix c"
  by (induction rids arbitrary: c) (auto simp: Let_def split_def split: option.splits)

lemma call_read_Some: "snd (call (\<lambda>s. (s, g s)) c) = Some x \<Longrightarrow> x = g (conn_store c)"
  by (auto simp: call_def Let_def split: list.splits net.splits)

lemma read_metas_current:
  assumes "conn_prefix c \<noteq> Some []" "snd (read_metas R rids c) = Some ms" "(rid, Some m) \<in> set (zip rids ms)"
  shows "meta_boot_id m = r_hget R (conn_store c) (be_key (conn_prefix c) (reservation_meta_key rid)) ''boot_id''"
  using assms
proof (induction rids arbitrary: c ms)
  case (Cons r rids)
  let ?k = "get_key (conn_prefix c) (bare_key (conn_prefix c) (be_key (conn_prefix c) (reservation_meta_key r)))"
  let ?c1 = "call (\<lambda>s. (s, read_meta R ?k s)) c"
  from Cons.prems(2) obtain meta ms' where m: "snd ?c1 = Some meta" and ms: "snd (read_metas R rids (fst ?c1)) = Some ms'"
    and eq: "ms = meta # ms'"
    by (auto simp: Let_def split_def split: option.splits)
  from call_read_Some [OF m] have meta: "meta = read_meta R (be_key (conn_prefix c) (reservation_meta_key r)) (conn_store c)"
    by (simp add: bare_be_key Cons.prems(1))
  show ?case
  proof (cases "(rid, Some m) = (r, meta)")
    case True
    with meta show ?thesis by (auto simp: read_meta_def split: if_splits)
  next
    case False
    with Cons.prems(3) eq have "(rid, Some m) \<in> set (zip rids ms')" by auto
    with Cons.IH [of "fst ?c1" ms'] ms Cons.prems(1) show ?thesis by simp
  qed
qed simp

lemma spares_reap_batches:
  assumes "plain_rid rid0" "conn_prefix c \<noteq> Some []" "owner_lives R (conn_prefix c) cur rid0 (conn_store c)"
  shows "conn_spares R rid0 c (fst (reap_batches R cal now cur bs (c, n)))"
  using assms(2-3)
proof (induction bs arbitrary: c n)
  case Nil
  then show ?case by (simp add: conn_spares_def)
next
  case (Cons b bs)
  let ?r = "read_metas R b c"
  let ?xs = "zip b (case snd ?r of None \<Rightarrow> replicate (length b) None | Some m \<Rightarrow> m)"
  let ?o = "reap_batch R cal now cur ?xs (fst ?r, n)"
  note same = read_metas_store [of b c]
  have "meta_current R rid0 (fst ?r) ?xs"
    using read_metas_current [OF Cons.prems(1)] by (auto simp: meta_current_def same set_zip split: option.splits)
  then have "conn_spares R rid0 (fst ?r) (fst ?o)"
    using spares_reap_batch [OF assms(1), of "fst ?r"] Cons.prems by (simp add: same)
  then have one: "conn_spares R rid0 c (fst ?o)" by (simp add: conn_spares_def same)
  then have "owner_lives R (conn_prefix (fst ?o)) cur rid0 (conn_store (fst ?o))" "conn_prefix (fst ?o) \<noteq> Some []"
    using Cons.prems by (auto simp: conn_spares_def spares_owner)
  note ih = conn_spares_trans [OF one Cons.IH [OF this(2,1)]]
  show ?case
    using one ih by (cases ?o; cases "snd ?o") (auto simp: Let_def split_def)
qed

lemma spares_reap:
  assumes "plain_rid rid0" "conn_prefix c \<noteq> Some []" "owner_lives R (conn_prefix c) cur rid0 (conn_store c)"
  shows "conn_spares R rid0 c (fst (reap_orphan_reservations R cal now cur n c))"
proof -
  let ?c1 = "call (\<lambda>s. (s, r_smembers R s (be_key (conn_prefix c) RESERVATION_INDEX))) c"
  have 1: "conn_spares R rid0 c (fst ?c1)" by (simp add: conn_spares_def)
  have 2: "conn_spares R rid0 (fst ?c1) (fst (reap_batches R cal now cur bs (fst ?c1, 0)))" for bs
    using spares_reap_batches [OF assms(1), of "fst ?c1"] assms by simp
  show ?thesis
    using 1 conn_spares_trans [OF 1 2]
    by (auto simp: reap_orphan_reservations_def Let_def split_def conn_spares_def split: option.splits)
qed

end

end
