(* ===== verification/Lub_Windows.thy ===== *)
theory Lub_Windows
  imports Lub_LedgerSystem
begin

text \<open>
  The other counters of \<open>RedisLimitBackend\<close> (\<open>limits/backend.py\<close>): sliding event windows, fixed
  windows, the set of client addresses of an API key, the TPM recorder and the API-key concurrency
  leases. Scripts run through \<open>eval\<close>, which does not add the client's key prefix; the overridden
  client methods do (\<open>get_key\<close>). A random event member is an argument.
\<close>

section \<open>Sliding event windows\<close>

definition events_key :: "string \<Rightarrow> key" where
  "events_key k = ''limit:events:'' @ k"

definition count_events :: "'s redis \<Rightarrow> time \<Rightarrow> string \<Rightarrow> int \<Rightarrow> 's conn \<Rightarrow> 's conn \<times> int option" where
  "count_events R now k window c =
     (if \<not> conn_client c then (c, None)
      else (let rk = get_key (conn_prefix c) (events_key k);
                (c1, r1) = call (\<lambda>s. (r_exec R (ZREMRANGEBYSCORE rk 0 (now - of_int window)) s, ())) c
            in case r1 of None \<Rightarrow> (c1, None)
               | Some _ \<Rightarrow> call (\<lambda>s. (s, int (r_zcard R s rk))) c1))"

definition record_event :: "'s redis \<Rightarrow> time \<Rightarrow> string \<Rightarrow> int \<Rightarrow> string \<Rightarrow> 's conn \<Rightarrow> 's conn" where
  "record_event R now k window member c =
     (if \<not> conn_client c then c
      else (let rk = get_key (conn_prefix c) (events_key k);
                (c1, r1) = call (\<lambda>s. (r_exec R (ZREMRANGEBYSCORE rk 0 (now - of_int window)) s, ())) c
            in case r1 of None \<Rightarrow> c1
               | Some _ \<Rightarrow> (let (c2, r2) = call (\<lambda>s. (r_exec R (ZADD rk now member) s, ())) c1
                           in case r2 of None \<Rightarrow> c2
                              | Some _ \<Rightarrow> fst (call (\<lambda>s. (r_exec R (EXPIRE rk (window + 60)) s, ())) c2))))"

definition try_record_script :: "'s redis \<Rightarrow> key \<Rightarrow> time \<Rightarrow> int \<Rightarrow> int \<Rightarrow> string \<Rightarrow> 's \<Rightarrow> 's \<times> bool" where
  "try_record_script R k now window cap member s =
     (let s1 = r_exec R (ZREMRANGEBYSCORE k 0 (now - of_int window)) s
      in if cap \<le> int (r_zcard R s1 k) then (s1, False)
         else (r_exec R (EXPIRE k (window + 60)) (r_exec R (ZADD k now member) s1), True))"

definition try_record_event :: "'s redis \<Rightarrow> time \<Rightarrow> string \<Rightarrow> int \<Rightarrow> int \<Rightarrow> string \<Rightarrow> 's conn \<Rightarrow> 's conn \<times> bool option" where
  "try_record_event R now k window cap member c =
     (if cap \<le> 0 then (record_event R now k window member c, Some True)
      else if \<not> conn_client c then (c, None)
      else call (try_record_script R (events_key k) now window cap member) c)"

section \<open>Fixed windows\<close>

definition window_key :: "string option \<Rightarrow> string \<Rightarrow> key" where
  "window_key pfx k = be_key pfx (''limit:window:'' @ k)"

definition incr_script :: "'s redis \<Rightarrow> key \<Rightarrow> int \<Rightarrow> int \<Rightarrow> 's \<Rightarrow> 's \<times> int \<times> int" where
  "incr_script R k amount ttl s =
     (let s1 = r_exec R (INCRBY k amount) s;
          v = num_of (r_get R s1 k);
          s2 = (if v = amount then r_exec R (EXPIRE k ttl) s1 else s1)
      in (s2, v, r_ttl R s2 k))"

definition incr_window :: "'s redis \<Rightarrow> string \<Rightarrow> int \<Rightarrow> int \<Rightarrow> 's conn \<Rightarrow> 's conn \<times> (int \<times> int) option" where
  "incr_window R k ttl amount c =
     (if \<not> conn_client c then (c, None)
      else (let (c1, r) = call (incr_script R (window_key (conn_prefix c) k) amount ttl) c
            in (c1, map_option (\<lambda>(v, t). (v, if t < 0 then ttl else t)) r)))"

definition incrby_window :: "'s redis \<Rightarrow> string \<Rightarrow> int \<Rightarrow> int \<Rightarrow> 's conn \<Rightarrow> 's conn \<times> (int \<times> int) option" where
  "incrby_window R k amount ttl c = (if amount \<le> 0 then (c, None) else incr_window R k ttl amount c)"

definition record_model_tpm_window :: "'s redis \<Rightarrow> string \<Rightarrow> int \<Rightarrow> int \<Rightarrow> 's conn \<Rightarrow> 's conn \<times> (int \<times> int) option" where
  "record_model_tpm_window R mid tokens ttl c = incrby_window R (''model:'' @ mid @ '':tpm'') tokens ttl c"

definition get_window :: "'s redis \<Rightarrow> string \<Rightarrow> 's conn \<Rightarrow> 's conn \<times> int \<times> int" where
  \<comment> \<open>two client calls; \<open>int(raw)\<close> of a stored text that is no number raises and gives \<open>(0, 0)\<close>\<close>
  "get_window R k c =
     (if \<not> conn_client c then (c, 0, 0)
      else (let (c1, raw) = call (\<lambda>s. (s, r_get R s (get_key (conn_prefix c) (''limit:window:'' @ k)))) c
            in case raw of
                 None \<Rightarrow> (c1, 0, 0)
               | Some (Some (HStr t)) \<Rightarrow> (c1, 0, 0)
               | Some (Some (HJson t)) \<Rightarrow> (c1, 0, 0)
               | Some v \<Rightarrow> (let (c2, t) = call (\<lambda>s. (s, r_ttl R s (window_key (conn_prefix c) k))) c1
                           in case t of None \<Rightarrow> (c2, 0, 0) | Some t' \<Rightarrow> (c2, num_of v, if 0 < t' then t' else 0))))"

definition get_api_key_block_until :: "'s redis \<Rightarrow> time \<Rightarrow> string \<Rightarrow> string \<Rightarrow> 's conn \<Rightarrow> 's conn \<times> time option" where
  "get_api_key_block_until R now subject field c =
     (case get_window R (''api-key:'' @ subject @ '':'' @ field) c of
        (c1, used, ttl) \<Rightarrow> (c1, if used \<le> 0 \<or> ttl \<le> 0 then None else Some (now + of_int ttl)))"

definition get_model_tpm_cooldown_until :: "'s redis \<Rightarrow> time \<Rightarrow> string \<Rightarrow> 's conn \<Rightarrow> 's conn \<times> time option" where
  "get_model_tpm_cooldown_until R now mid c =
     (if mid = [] then (c, None)
      else (case get_window R (''model:'' @ mid @ '':tpm'') c of
        (c1, used, ttl) \<Rightarrow> (c1, if used \<le> 0 \<or> ttl \<le> 0 then None else Some (now + of_int ttl))))"

definition account_rpd_key :: "string \<Rightarrow> key" where
  "account_rpd_key ak = ''limit:account-reserve:'' @ ak @ '':rpd''"

definition get_account_rpd_used :: "'s redis \<Rightarrow> string \<Rightarrow> 's conn \<Rightarrow> 's conn \<times> int \<times> int" where
  "get_account_rpd_used R ak c =
     (if \<not> conn_client c then (c, 0, 0)
      else (let (c1, raw) = call (\<lambda>s. (s, r_get R s (get_key (conn_prefix c) (account_rpd_key ak)))) c
            in case raw of
                 None \<Rightarrow> (c1, 0, 0)
               | Some (Some (HStr t)) \<Rightarrow> (c1, 0, 0)
               | Some (Some (HJson t)) \<Rightarrow> (c1, 0, 0)
               | Some v \<Rightarrow> (let (c2, t) = call (\<lambda>s. (s, r_ttl R s (be_key (conn_prefix c) (account_rpd_key ak)))) c1
                           in case t of None \<Rightarrow> (c2, 0, 0) | Some t' \<Rightarrow> (c2, num_of v, if 0 < t' then t' else 0))))"

definition batch_get_account_rpd :: "'s redis \<Rightarrow> string list \<Rightarrow> 's conn \<Rightarrow> 's conn \<times> (string \<times> int) list" where
  "batch_get_account_rpd R aks c =
     (if \<not> conn_client c \<or> aks = [] then (c, [])
      else (let (c1, r) = call (\<lambda>s. (s, map (\<lambda>ak. r_get R s (be_key (conn_prefix c) (account_rpd_key ak))) aks)) c
            in (c1, case r of None \<Rightarrow> []
                 | Some raws \<Rightarrow> fold (\<lambda>(ak, raw) d. case raw of Some (HNum n) \<Rightarrow> if 0 < n then dset d ak n else d | _ \<Rightarrow> d)
                                  (zip aks raws) [])))"

section \<open>TPM recorder\<close>

definition tpm_part :: "'s redis \<Rightarrow> key \<Rightarrow> key \<Rightarrow> int \<Rightarrow> int \<Rightarrow> int \<Rightarrow> 's \<Rightarrow> 's \<times> int \<times> int" where
  "tpm_part R wkey fkey amount ttl_seconds cap s =
     (if 0 < cap then
        (let s1 = r_exec R (INCRBY wkey amount) s;
             used = num_of (r_get R s1 wkey);
             s2 = (if used = amount then r_exec R (EXPIRE wkey ttl_seconds) s1 else s1);
             ttl = r_ttl R s2 wkey;
             s3 = (if cap \<le> used \<and> 0 < ttl then r_exec R (SETEX fkey (HStr ''tpm'') ttl) s2 else s2)
         in (s3, used, ttl))
      else (s, 0, 0))"

record tpm_result =
  tr_account_used :: int
  tr_account_ttl :: int
  tr_model_used :: int
  tr_model_ttl :: int

definition record_tpm_and_freeze ::
  "'s redis \<Rightarrow> string \<Rightarrow> string \<Rightarrow> int \<Rightarrow> int \<Rightarrow> int \<Rightarrow> int \<Rightarrow> key \<Rightarrow> key \<Rightarrow> 's conn \<Rightarrow> 's conn \<times> tpm_result option" where
  "record_tpm_and_freeze R ak mid tokens ttl account_cap model_cap afk mfk c =
     (if tokens \<le> 0 \<or> \<not> conn_client c then (c, None)
      else (let pfx = conn_prefix c;
                script = (\<lambda>s. let (s1, au, aut) = tpm_part R (window_key pfx (ak @ '':tpm'')) (be_key pfx afk) tokens ttl account_cap s;
                                  (s2, mu, mut) = tpm_part R (window_key pfx (''model:'' @ mid @ '':tpm'')) (be_key pfx mfk) tokens ttl model_cap s1
                              in (s2, (au, aut, mu, mut)));
                (c1, r) = call script c
            in (c1, map_option (\<lambda>(au, aut, mu, mut). \<lparr>tr_account_used = au, tr_account_ttl = max 0 aut, tr_model_used = mu, tr_model_ttl = max 0 mut\<rparr>) r)))"

section \<open>Client addresses\<close>

definition ip_script :: "'s redis \<Rightarrow> key \<Rightarrow> string \<Rightarrow> int \<Rightarrow> int \<Rightarrow> 's \<Rightarrow> 's \<times> bool \<times> int" where
  "ip_script R k ip cap ttl s =
     (if r_sismember R s k ip then (s, True, int (r_scard R s k))
      else (let count = int (r_scard R s k)
            in if cap \<le> count then (s, False, count)
               else (let s1 = r_exec R (SADD k ip) s;
                         s2 = (if count = 0 then r_exec R (EXPIRE k ttl) s1 else s1)
                     in (s2, True, int (r_scard R s2 k)))))"

definition ipset_key :: "string option \<Rightarrow> string \<Rightarrow> key" where
  "ipset_key pfx k = be_key pfx (''limit:ipset:'' @ k)"

definition check_and_add_ip :: "'s redis \<Rightarrow> string \<Rightarrow> string \<Rightarrow> int \<Rightarrow> int \<Rightarrow> 's conn \<Rightarrow> 's conn \<times> (bool \<times> int) option" where
  "check_and_add_ip R k ip cap ttl c =
     (if \<not> conn_client c \<or> ip = [] \<or> cap \<le> 0 then (c, None)
      else call (ip_script R (ipset_key (conn_prefix c) k) ip cap (max 1 ttl)) c)"

definition set_cardinality :: "'s redis \<Rightarrow> string \<Rightarrow> 's conn \<Rightarrow> 's conn \<times> int option" where
  "set_cardinality R k c =
     (if \<not> conn_client c then (c, None) else call (\<lambda>s. (s, int (r_scard R s (ipset_key (conn_prefix c) k)))) c)"

section \<open>API-key concurrency\<close>

definition api_concurrency_key :: "string \<Rightarrow> key" where
  "api_concurrency_key k = ''limit:concurrency:'' @ k"

definition acquire_script :: "'s redis \<Rightarrow> key \<Rightarrow> time \<Rightarrow> int \<Rightarrow> string \<Rightarrow> int \<Rightarrow> 's \<Rightarrow> 's \<times> bool" where
  "acquire_script R k now cap lease ttl s =
     (let s1 = r_exec R (ZREMRANGEBYSCORE k 0 now) s
      in if cap \<le> int (r_zcard R s1 k) then (s1, False)
         else (r_exec R (EXPIRE k (ttl + 60)) (r_exec R (ZADD k (now + of_int ttl) lease) s1), True))"

definition acquire_concurrency :: "'s redis \<Rightarrow> time \<Rightarrow> string \<Rightarrow> int \<Rightarrow> string \<Rightarrow> int \<Rightarrow> 's conn \<Rightarrow> 's conn \<times> bool option" where
  "acquire_concurrency R now k cap lease ttl c =
     (if cap \<le> 0 then (c, Some True) else if \<not> conn_client c then (c, None)
      else call (acquire_script R (api_concurrency_key k) now cap lease ttl) c)"

definition release_concurrency :: "'s redis \<Rightarrow> string \<Rightarrow> string \<Rightarrow> 's conn \<Rightarrow> 's conn" where
  "release_concurrency R k lease c =
     (if \<not> conn_client c then c else fst (call (\<lambda>s. (r_exec R (ZREM (api_concurrency_key k) lease) s, ())) c))"

definition concurrency_used :: "'s redis \<Rightarrow> time \<Rightarrow> string \<Rightarrow> 's conn \<Rightarrow> 's conn \<times> int option" where
  "concurrency_used R now k c =
     (if \<not> conn_client c then (c, None)
      else (let rk = get_key (conn_prefix c) (api_concurrency_key k);
                (c1, r1) = call (\<lambda>s. (r_exec R (ZREMRANGEBYSCORE rk 0 now) s, ())) c
            in case r1 of None \<Rightarrow> (c1, None)
               | Some _ \<Rightarrow> call (\<lambda>s. (s, int (r_zcard R s rk))) c1))"

section \<open>The contract of a capped gate\<close>

text \<open>
  The address set, the API-key leases, the event windows and the account leases share one
  contract: a gate lets a member in only while fewer than \<open>cap\<close> are in, and otherwise adds
  nothing. The locale states it once; its lemmas bound the membership along any run in which
  gates alternate with anything that only removes members (release, expiry, pruning).
\<close>

inductive gate_run :: "('s \<Rightarrow> 'm set) \<Rightarrow> ('x \<Rightarrow> 's \<Rightarrow> 's \<times> bool) \<Rightarrow> 's \<Rightarrow> 's \<Rightarrow> bool" for members gate s where
  run_start: "gate_run members gate s s"
| run_gate: "gate_run members gate s t \<Longrightarrow> gate_run members gate s (fst (gate x t))"
| run_shrink: "gate_run members gate s t \<Longrightarrow> members u \<subseteq> members t \<Longrightarrow> gate_run members gate s u"

locale capped_gate =
  fixes members :: "'s \<Rightarrow> 'm set" and gate :: "'x \<Rightarrow> 's \<Rightarrow> 's \<times> bool" and who :: "'x \<Rightarrow> 'm" and cap :: int
  assumes finite_members: "finite (members s)"
    and gate_denies: "\<not> snd (gate x s) \<Longrightarrow> members (fst (gate x s)) \<subseteq> members s"
    and gate_admits: "snd (gate x s) \<Longrightarrow> members (fst (gate x s)) \<subseteq> members s
          \<or> (\<exists>S \<subseteq> members s. members (fst (gate x s)) = insert (who x) S \<and> int (card S) < cap)"
begin

lemma gate_bound:
  assumes "int (card (members s)) \<le> cap"
  shows "int (card (members (fst (gate x s)))) \<le> cap"
proof -
  have le: "T \<subseteq> members s \<Longrightarrow> card T \<le> card (members s)" for T
    by (rule card_mono [OF finite_members])
  show ?thesis
  proof (cases "snd (gate x s) \<and> \<not> members (fst (gate x s)) \<subseteq> members s")
    case True
    then obtain S where S: "members (fst (gate x s)) = insert (who x) S" "S \<subseteq> members s" "int (card S) < cap"
      using gate_admits [of x s] True by blast
    have "card (insert (who x) S) \<le> Suc (card S)"
      using finite_subset [OF S(2) finite_members] by (simp add: card_insert_if)
    with S(3) show ?thesis unfolding S(1) by linarith
  next
    case False
    then have "members (fst (gate x s)) \<subseteq> members s" using gate_denies [of x s] by blast
    from le [OF this] assms show ?thesis by linarith
  qed
qed

lemma run_bound: "gate_run members gate s t \<Longrightarrow> int (card (members s)) \<le> cap \<Longrightarrow> int (card (members t)) \<le> cap"
proof (induction rule: gate_run.induct)
  case (run_shrink t u)
  then have "card (members u) \<le> card (members t)" by (intro card_mono finite_members)
  with run_shrink show ?case by linarith
qed (auto intro: gate_bound)

end

definition zmembers :: "('s, 'a) redis_scheme \<Rightarrow> key \<Rightarrow> 's \<Rightarrow> string set" where
  "zmembers R k s = {m. r_zscore R s k m \<noteq> None}"

definition smembers :: "('s, 'a) redis_scheme \<Rightarrow> key \<Rightarrow> 's \<Rightarrow> string set" where
  "smembers R k s = {x. r_sismember R s k x}"

definition api_gate :: "'s redis \<Rightarrow> key \<Rightarrow> int \<Rightarrow> time \<times> string \<times> nat \<Rightarrow> 's \<Rightarrow> 's \<times> bool" where
  "api_gate R k cap = (\<lambda>(now, lease, ttl) s. acquire_script R k now cap lease (int ttl) s)"

definition event_gate :: "'s redis \<Rightarrow> key \<Rightarrow> int \<Rightarrow> time \<times> string \<times> nat \<Rightarrow> 's \<Rightarrow> 's \<times> bool" where
  "event_gate R k cap = (\<lambda>(now, member, window) s. try_record_script R k now (int window) cap member s)"

definition ip_gate :: "'s redis \<Rightarrow> key \<Rightarrow> int \<Rightarrow> string \<times> nat \<Rightarrow> 's \<Rightarrow> 's \<times> bool" where
  "ip_gate R k cap = (\<lambda>(ip, ttl) s. case ip_script R k ip cap (max 1 (int ttl)) s of (s', ok, n) \<Rightarrow> (s', ok))"

context redis_store
begin

lemma sismember_SADD: "r_sismember R (r_exec R (SADD k x) s) k' y = (k' = k \<and> y = x \<or> r_sismember R s k' y)"
  by (simp add: sismember_exec set_effect_def)

lemma sismember_EXPIRE: "0 < t \<Longrightarrow> r_sismember R (r_exec R (EXPIRE k t) s) k' y = r_sismember R s k' y"
  by (simp add: sismember_exec set_effect_def)

lemma zcard_zmembers: "r_zcard R s k = card (zmembers R k s)"
  by (simp add: zcard_card zmembers_def)

lemma scard_smembers: "r_scard R s k = card (smembers R k s)"
  by (simp add: scard_card smembers_def)

lemma smembers_SADD: "smembers R k (r_exec R (SADD k x) s) = insert x (smembers R k s)"
  by (auto simp: smembers_def sismember_SADD)

lemma smembers_EXPIRE: "0 < t \<Longrightarrow> smembers R k (r_exec R (EXPIRE k' t) s) = smembers R k s"
  by (simp add: smembers_def sismember_EXPIRE)

lemma zmembers_prune: "zmembers R k (r_exec R (ZREMRANGEBYSCORE k lo hi) s) \<subseteq> zmembers R k s"
  by (auto simp: zmembers_def split: if_splits)

lemma zmembers_add:
  "0 < t \<Longrightarrow> zmembers R k (r_exec R (EXPIRE k t) (r_exec R (ZADD k score m) s)) = insert m (zmembers R k s)"
  by (auto simp: zmembers_def)

lemma api_gate_capped: "capped_gate (zmembers R k) (api_gate R k cap) (\<lambda>(now, lease, ttl). lease) cap"
proof
  fix s :: 's and x :: "time \<times> string \<times> nat"
  obtain now lease ttl where x: "x = (now, lease, ttl)" by (metis surj_pair)
  show "finite (zmembers R k s)" unfolding zmembers_def by (rule finite_zset)
  show "\<not> snd (api_gate R k cap x s) \<Longrightarrow> zmembers R k (fst (api_gate R k cap x s)) \<subseteq> zmembers R k s"
    using zmembers_prune by (auto simp: x api_gate_def acquire_script_def Let_def split: if_splits)
  show "snd (api_gate R k cap x s) \<Longrightarrow> zmembers R k (fst (api_gate R k cap x s)) \<subseteq> zmembers R k s \<or>
     (\<exists>S \<subseteq> zmembers R k s. zmembers R k (fst (api_gate R k cap x s)) = insert (case x of (now, lease, ttl) \<Rightarrow> lease) S \<and> int (card S) < cap)"
    using zmembers_prune by (intro disjI2 exI [of _ "zmembers R k (r_exec R (ZREMRANGEBYSCORE k 0 now) s)"])
      (auto simp: x api_gate_def acquire_script_def Let_def zcard_zmembers zmembers_add split: if_splits)
qed

lemma event_gate_capped: "capped_gate (zmembers R k) (event_gate R k cap) (\<lambda>(now, member, window). member) cap"
proof
  fix s :: 's and x :: "time \<times> string \<times> nat"
  obtain now member window where x: "x = (now, member, window)" by (metis surj_pair)
  show "finite (zmembers R k s)" unfolding zmembers_def by (rule finite_zset)
  show "\<not> snd (event_gate R k cap x s) \<Longrightarrow> zmembers R k (fst (event_gate R k cap x s)) \<subseteq> zmembers R k s"
    using zmembers_prune by (auto simp: x event_gate_def try_record_script_def Let_def split: if_splits)
  show "snd (event_gate R k cap x s) \<Longrightarrow> zmembers R k (fst (event_gate R k cap x s)) \<subseteq> zmembers R k s \<or>
     (\<exists>S \<subseteq> zmembers R k s. zmembers R k (fst (event_gate R k cap x s)) = insert (case x of (now, member, window) \<Rightarrow> member) S \<and> int (card S) < cap)"
    using zmembers_prune by (intro disjI2 exI [of _ "zmembers R k (r_exec R (ZREMRANGEBYSCORE k 0 (now - of_int (int window))) s)"])
      (auto simp: x event_gate_def try_record_script_def Let_def zcard_zmembers zmembers_add split: if_splits)
qed

lemma ip_gate_capped: "capped_gate (smembers R k) (ip_gate R k cap) fst cap"
proof
  fix s :: 's and x :: "string \<times> nat"
  obtain ip ttl where x: "x = (ip, ttl)" by (metis surj_pair)
  show "finite (smembers R k s)" unfolding smembers_def by (rule finite_set)
  show "\<not> snd (ip_gate R k cap x s) \<Longrightarrow> smembers R k (fst (ip_gate R k cap x s)) \<subseteq> smembers R k s"
    by (auto simp: x ip_gate_def ip_script_def Let_def split: if_splits)
  show "snd (ip_gate R k cap x s) \<Longrightarrow> smembers R k (fst (ip_gate R k cap x s)) \<subseteq> smembers R k s \<or>
     (\<exists>S \<subseteq> smembers R k s. smembers R k (fst (ip_gate R k cap x s)) = insert (fst x) S \<and> int (card S) < cap)"
  proof (cases "r_sismember R s k ip")
    case True
    then show ?thesis by (simp add: x ip_gate_def ip_script_def)
  next
    case False
    assume "snd (ip_gate R k cap x s)"
    with False show ?thesis
      by (intro disjI2 exI [of _ "smembers R k s"])
         (simp add: x ip_gate_def ip_script_def Let_def smembers_SADD smembers_EXPIRE scard_smembers split: if_splits)
  qed
qed

end

interpretation api: capped_gate "zmembers mem_redis k" "api_gate mem_redis k cap" "\<lambda>(now, lease, ttl). lease" cap
  by (rule mem.api_gate_capped)

interpretation events: capped_gate "zmembers mem_redis k" "event_gate mem_redis k cap" "\<lambda>(now, member, window). member" cap
  by (rule mem.event_gate_capped)

interpretation ips: capped_gate "smembers mem_redis k" "ip_gate mem_redis k cap" fst cap
  by (rule mem.ip_gate_capped)

section \<open>Properties\<close>

text \<open>
  C30. The addresses allowed on an API key, its concurrency leases and the events of a sliding window
  never outgrow their limit, whatever is admitted, refused, released or expires in between.
\<close>

theorem capped_runs:
  assumes "redis_store R" "0 \<le> cap" "zmembers R k s = {}" "smembers R k' s = {}"
  shows "(gate_run (zmembers R k) (api_gate R k cap) s t \<longrightarrow> int (card (zmembers R k t)) \<le> cap)
       \<and> (gate_run (zmembers R k) (event_gate R k cap) s t \<longrightarrow> int (card (zmembers R k t)) \<le> cap)
       \<and> (gate_run (smembers R k') (ip_gate R k' cap) s t \<longrightarrow> int (card (smembers R k' t)) \<le> cap)"
  using capped_gate.run_bound [OF redis_store.api_gate_capped [OF assms(1)], of k cap s t]
    capped_gate.run_bound [OF redis_store.event_gate_capped [OF assms(1)], of k cap s t]
    capped_gate.run_bound [OF redis_store.ip_gate_capped [OF assms(1)], of k' cap s t] assms(2-4)
  by simp

theorem capped_runs_witness:
  "int (card (smembers mem_redis ''limit:ipset:k'' (fst (ip_gate mem_redis ''limit:ipset:k'' 1 (''10.0.0.1'', 60) mem_empty)))) \<le> 1"
proof -
  have "gate_run (smembers mem_redis ''limit:ipset:k'') (ip_gate mem_redis ''limit:ipset:k'' 1) mem_empty
      (fst (ip_gate mem_redis ''limit:ipset:k'' 1 (''10.0.0.1'', 60) mem_empty))"
    by (rule run_gate [OF run_start])
  moreover have "zmembers mem_redis ''z'' mem_empty = {}" "smembers mem_redis ''limit:ipset:k'' mem_empty = {}"
    by (simp_all add: zmembers_def smembers_def mem_empty_def)
  ultimately show ?thesis
    using capped_runs [OF mem.redis_store_axioms, where cap = 1 and k = "''z''" and s = mem_empty and k' = "''limit:ipset:k''"
        and t = "fst (ip_gate mem_redis ''limit:ipset:k'' 1 (''10.0.0.1'', 60) mem_empty)"] by simp
qed

text \<open>
  An address that is already known is always let through and changes nothing; a new one is let
  through exactly when fewer than the limit are known, and is known afterwards; a refused one leaves
  the set as it was. The reported count is the size of the set.
\<close>

theorem ip_admission:
  assumes "redis_store R" "0 < ttl"
  shows "case ip_script R k ip cap ttl s of (s', ok, n) \<Rightarrow>
     (ok \<longleftrightarrow> ip \<in> smembers R k s \<or> int (card (smembers R k s)) < cap)
     \<and> smembers R k s' = (if ok then insert ip (smembers R k s) else smembers R k s)
     \<and> n = int (card (smembers R k s'))"
proof (cases "r_sismember R s k ip")
  case True
  then have "ip \<in> smembers R k s" by (simp add: smembers_def)
  with True show ?thesis
    by (simp add: ip_script_def redis_store.scard_smembers [OF assms(1)] insert_absorb)
next
  case False
  then have "ip \<notin> smembers R k s" by (simp add: smembers_def)
  with False show ?thesis
    by (simp add: ip_script_def Let_def redis_store.scard_smembers [OF assms(1)] redis_store.smembers_SADD [OF assms(1)]
        redis_store.smembers_EXPIRE [OF assms])
qed

theorem ip_admission_witness:
  "case ip_script mem_redis ''k'' ''10.0.0.1'' 0 60 mem_empty of (s', ok, n) \<Rightarrow> \<not> ok \<and> smembers mem_redis ''k'' s' = {} \<and> n = 0"
  using ip_admission [OF mem.redis_store_axioms, where ttl = 60 and k = "''k''" and ip = "''10.0.0.1''" and cap = 0 and s = mem_empty]
  by (auto simp: smembers_def mem_empty_def ip_script_def)

text \<open>
  A fixed window adds up: an increment returns the old value plus the amount and a TTL, which is
  the window length when the window is new; a later increment keeps the running expiry.
\<close>

theorem fixed_window:
  assumes "redis_store R" "0 < amount" "0 < ttl" "0 \<le> num_of (r_get R s k)" "r_get R s k = None \<longleftrightarrow> r_ttl R s k = -2"
  shows "case incr_script R k amount ttl s of (s', v, t) \<Rightarrow>
     v = num_of (r_get R s k) + amount \<and> num_of (r_get R s' k) = v
     \<and> (r_get R s k = None \<longrightarrow> t = ttl) \<and> (num_of (r_get R s k) > 0 \<longrightarrow> t = r_ttl R s k)"
proof -
  let ?s1 = "r_exec R (INCRBY k amount) s"
  have get1: "r_get R ?s1 k = Some (HNum (num_of (r_get R s k) + amount))"
    by (simp add: redis_store.get_exec [OF assms(1)] str_effect_def)
  then have ex: "present R ?s1 k" by (simp add: present_def)
  have get2: "r_get R (r_exec R (EXPIRE k ttl) ?s1) k = r_get R ?s1 k"
    using assms(3) by (simp add: redis_store.get_exec [OF assms(1)] str_effect_def)
  have ttl2: "r_ttl R (r_exec R (EXPIRE k ttl) ?s1) k = ttl"
    using redis_store.ttl_EXPIRE [OF assms(1,3), of ?s1 k] ex by (simp add: redis_store.exists_present [OF assms(1)])
  have ttl1: "r_ttl R ?s1 k = (if r_ttl R s k = -2 then -1 else r_ttl R s k)"
    using redis_store.ttl_exec [OF assms(1), of "INCRBY k amount" s k] ex by (simp add: ttl_effect_def)
  show ?thesis
    using assms(2,4,5) get1 get2 ttl1 ttl2 by (auto simp: incr_script_def Let_def num_of_def)
qed

theorem fixed_window_witness:
  "case incr_script mem_redis ''limit:window:k'' 3 60 mem_empty of (s', v, t) \<Rightarrow> v = 3 \<and> t = 60"
  using fixed_window [OF mem.redis_store_axioms, of 3 60 mem_empty "''limit:window:k''"]
  by (auto simp: num_of_def mem_ttl_def mem_has_def mem_empty_def)

text \<open>
  With a key prefix configured, the usage read-out looks at another key than the leases are kept
  under: right after a lease of a fresh API key has been granted, \<open>concurrency_used\<close> reports 0.
\<close>

theorem concurrency_used_ignores_leases:
  assumes "redis_store R" "conn_client c" "conn_prefix c = Some p" "conn_faults c = []" "0 < cap" "0 < ttl"
    and "zmembers R (get_key (Some p) (api_concurrency_key k)) (conn_store c) = {}" "zmembers R (api_concurrency_key k) (conn_store c) = {}"
  shows "case acquire_concurrency R now k cap lease ttl c of (c1, granted) \<Rightarrow>
     granted = Some True \<and> lease \<in> zmembers R (api_concurrency_key k) (conn_store c1)
     \<and> snd (concurrency_used R now k c1) = Some 0"
proof -
  let ?k = "api_concurrency_key k" and ?rk = "get_key (Some p) (api_concurrency_key k)"
  have ne: "?rk \<noteq> ?k"
  proof
    assume "?rk = ?k"
    then have "length ?rk = length ?k" by simp
    then show False by (simp add: get_key_def)
  qed
  let ?s1 = "r_exec R (ZREMRANGEBYSCORE ?k 0 now) (conn_store c)"
  let ?s2 = "r_exec R (EXPIRE ?k (ttl + 60)) (r_exec R (ZADD ?k (now + of_int ttl) lease) ?s1)"
  note card = redis_store.zcard_zmembers [OF assms(1)]
  have s1: "zmembers R ?k ?s1 = {}" using redis_store.zmembers_prune [OF assms(1), of ?k 0 now "conn_store c"] assms(8) by simp
  have s2: "zmembers R ?k ?s2 = {lease}" using redis_store.zmembers_add [OF assms(1), of "ttl + 60" ?k] s1 assms(6) by simp
  have "zmembers R ?rk ?s2 = {}"
    using assms(6,7) ne redis_store.zscore_EXPIRE [OF assms(1), of "ttl + 60"] redis_store.zscore_ZADD [OF assms(1)]
      redis_store.zscore_ZREMRANGE [OF assms(1)] by (simp add: zmembers_def)
  then have "zmembers R ?rk (r_exec R (ZREMRANGEBYSCORE ?rk 0 now) ?s2) = {}"
    using redis_store.zmembers_prune [OF assms(1), of ?rk 0 now ?s2] by simp
  then show ?thesis
    using assms(2-5) s1 s2 by (simp add: acquire_concurrency_def acquire_script_def concurrency_used_def call_def Let_def card)
qed

theorem concurrency_used_ignores_leases_witness:
  "snd (concurrency_used mem_redis 10 ''k'' (fst (acquire_concurrency mem_redis 10 ''k'' 1 ''l'' 3600
     \<lparr>conn_client = True, conn_prefix = Some ''gw'', conn_store = mem_empty, conn_faults = []\<rparr>))) = Some 0"
  using concurrency_used_ignores_leases [OF mem.redis_store_axioms,
      where c = "\<lparr>conn_client = True, conn_prefix = Some ''gw'', conn_store = mem_empty, conn_faults = []\<rparr>"
        and p = "''gw''" and cap = 1 and ttl = 3600 and k = "''k''" and now = 10 and lease = "''l''"]
  by (simp add: zmembers_def mem_empty_def split_def)

end
