(* ===== verification/Lub_Quota.thy ===== *)
theory Lub_Quota
  imports Lub_PyVal
begin

text \<open>
  The quota trackers of \<open>providers/quota.py\<close>: a quota dimension, the window quota (a dictionary
  of dimensions) and the compatibility wrapper \<open>CountQuota\<close>. Operations that read the clock take
  it as an argument (\<open>int(time.time())\<close> as an integer). The Redis getter only feeds a flag of the
  snapshots, which takes its answer as an argument.

  The lemmas show the invariant of the dimensions (what remains is the limit less the use, not
  below 0), that a dimension admits exactly its limit, and what a response header does.
\<close>

section \<open>QuotaDimension\<close>

record dimension =
  dim_name :: string
  dim_window_seconds :: int
  dim_limit :: int
  dim_used :: int
  dim_remaining :: "int option"
  dim_reset_at :: "time option"
  dim_source :: string
  dim_updated_at :: int

definition remaining_of :: "int \<Rightarrow> int \<Rightarrow> int option" where
  "remaining_of lmt used = (if 0 < lmt then Some (max 0 (lmt - used)) else None)"

definition new_dimension :: "int \<Rightarrow> string \<Rightarrow> int \<Rightarrow> int \<Rightarrow> string \<Rightarrow> dimension" where
  "new_dimension now name window lmt source =
     \<lparr>dim_name = name, dim_window_seconds = window, dim_limit = lmt, dim_used = 0, dim_remaining = remaining_of lmt 0,
      dim_reset_at = None, dim_source = source, dim_updated_at = now\<rparr>"

definition is_exhausted :: "dimension \<Rightarrow> bool" where
  "is_exhausted d = (if dim_limit d \<le> 0 then False else (case dim_remaining d of None \<Rightarrow> 0 | Some r \<Rightarrow> r) \<le> 0)"

definition is_expired :: "dimension \<Rightarrow> time \<Rightarrow> int \<Rightarrow> bool" where
  "is_expired d now stale \<longleftrightarrow> now - of_int (dim_updated_at d) > of_int stale"

definition opt_num :: "int option \<Rightarrow> pyval" where
  "opt_num v = (case v of None \<Rightarrow> PNone | Some n \<Rightarrow> PInt n)"

definition to_snapshot :: "dimension \<Rightarrow> pydict" where
  "to_snapshot d = [(''name'', PStr (dim_name d)), (''limit'', PInt (dim_limit d)), (''used'', PInt (dim_used d)),
     (''remaining'', opt_num (dim_remaining d)), (''window_seconds'', PInt (dim_window_seconds d)),
     (''reset_at'', case dim_reset_at d of None \<Rightarrow> PNone | Some t \<Rightarrow> PFloat t), (''source'', PStr (dim_source d)),
     (''updated_at'', PInt (dim_updated_at d))]"

section \<open>WindowQuota\<close>

type_synonym window_quota = "(string \<times> dimension) list"

definition register_dimension :: "int \<Rightarrow> string \<Rightarrow> int \<Rightarrow> int \<Rightarrow> string \<Rightarrow> window_quota \<Rightarrow> window_quota" where
  "register_dimension now name window lmt source q =
     (case map_of q name of
        None \<Rightarrow> dset q name (new_dimension now name window lmt source)
      | Some d \<Rightarrow> (if 0 < lmt then dset q name (d\<lparr>dim_limit := lmt, dim_remaining := remaining_of lmt (dim_used d)\<rparr>) else q))"

definition dimensions :: "window_quota \<Rightarrow> dimension list" where
  "dimensions q = map snd q"

definition wq_check :: "window_quota \<Rightarrow> bool" where
  "wq_check q = (\<not> list_ex is_exhausted (dimensions q))"

definition record_dim :: "int \<Rightarrow> int \<Rightarrow> dimension \<Rightarrow> dimension" where
  "record_dim now tokens d =
     (if dim_limit d \<le> 0 then d
      else (let used = dim_used d + (if dim_name d = ''tpm'' then tokens else 1)
            in d\<lparr>dim_used := used, dim_remaining := Some (max 0 (dim_limit d - used)), dim_updated_at := now\<rparr>))"

definition wq_record :: "int \<Rightarrow> int \<Rightarrow> window_quota \<Rightarrow> window_quota" where
  "wq_record now tokens q = map (\<lambda>(k, d). (k, record_dim now tokens d)) q"

definition wq_snapshot :: "bool \<Rightarrow> window_quota \<Rightarrow> pydict" where
  "wq_snapshot redis_available q = [(''dimensions'', PList (map (PDict \<circ> to_snapshot) (dimensions q))),
     (''quota_redis_available'', PBool redis_available),
     (''quota_updated_at'', PInt (fold (max \<circ> dim_updated_at) (dimensions q) (case q of [] \<Rightarrow> 0 | (k, d) # _ \<Rightarrow> dim_updated_at d)))]"

definition to_int :: "pyval \<Rightarrow> int option" where
  \<comment> \<open>\<open>_to_int(value)\<close> with its default \<open>None\<close>\<close>
  "to_int v = (case v of PNone \<Rightarrow> None | _ \<Rightarrow> (case py_int v of Inr n \<Rightarrow> Some n | Inl _ \<Rightarrow> None))"

definition headers_lower :: "pydict \<Rightarrow> pydict" where
  "headers_lower hs = fold (\<lambda>(k, v) d. dset d (lower k) v) hs []"

definition upd_dim :: "string \<Rightarrow> (dimension \<Rightarrow> dimension) \<Rightarrow> window_quota \<Rightarrow> window_quota" where
  \<comment> \<open>a change of the object the dictionary holds under the name\<close>
  "upd_dim name f q = (case map_of q name of None \<Rightarrow> q | Some d \<Rightarrow> dset q name (f d))"

text \<open>
  \<open>update_from_headers\<close> assigns \<open>dim.updated_at = now\<close>, but neither the method nor the module
  binds \<open>now\<close>: Python raises \<open>NameError\<close> there, with the changes made so far in place. The token
  branch compares \<open>x_tok_limit > 0\<close>, which raises \<open>TypeError\<close> before that when the header gives
  no limit.
\<close>

definition headers_step ::
  "int \<Rightarrow> string \<Rightarrow> int option \<Rightarrow> int option \<Rightarrow> bool \<Rightarrow> window_quota \<Rightarrow> window_quota \<times> (pyerror + unit)" where
  "headers_step now name remaining lmt tokens_branch q =
     (if lmt = None \<and> remaining = None then (q, Inr ())
      else (let q1 = register_dimension now name 0 (case lmt of None \<Rightarrow> 0 | Some n \<Rightarrow> n) ''memory'' q
            in case remaining of
                 None \<Rightarrow> (upd_dim name (\<lambda>d. d\<lparr>dim_source := ''headers''\<rparr>) q1, Inl NameError)
               | Some r \<Rightarrow>
                   (if tokens_branch \<and> lmt = None
                    then (upd_dim name (\<lambda>d. d\<lparr>dim_remaining := Some r\<rparr>) q1, Inl TypeError)
                    else (let positive = (\<lambda>d. if tokens_branch then 0 < the lmt else 0 < dim_limit d)
                          in (upd_dim name (\<lambda>d. d\<lparr>dim_remaining := Some r,
                                dim_used := (if positive d then max 0 (dim_limit d - r) else 0),
                                dim_source := ''headers''\<rparr>) q1, Inl NameError)))))"

definition wq_update_from_headers :: "int \<Rightarrow> pydict \<Rightarrow> window_quota \<Rightarrow> window_quota \<times> (pyerror + unit)" where
  "wq_update_from_headers now hs q =
     (let h = headers_lower hs
      in case headers_step now ''requests_window'' (to_int (dget h ''x-ratelimit-remaining-requests''))
                (to_int (dget h ''x-ratelimit-limit-requests'')) False q of
           (q1, Inl e) \<Rightarrow> (q1, Inl e)
         | (q1, Inr _) \<Rightarrow> headers_step now ''tokens_window'' (to_int (dget h ''x-ratelimit-remaining-tokens''))
                (to_int (dget h ''x-ratelimit-limit-tokens'')) True q1)"

section \<open>CountQuota\<close>

record count_quota =
  cq_inner :: window_quota
  cq_daily_limit :: int
  cq_daily_remaining :: "int option"
  cq_per_model_limit :: int
  cq_model_remaining :: "(string \<times> int) list"
  cq_source :: string
  cq_updated_at :: int

definition new_count_quota :: "int \<Rightarrow> int \<Rightarrow> int \<Rightarrow> count_quota" where
  "new_count_quota now daily per_model =
     \<lparr>cq_inner = register_dimension now ''requests_daily'' 0 daily ''memory'' [], cq_daily_limit = daily,
      cq_daily_remaining = Some daily, cq_per_model_limit = per_model, cq_model_remaining = [], cq_source = ''memory'', cq_updated_at = 0\<rparr>"

definition sync_daily :: "count_quota \<Rightarrow> count_quota" where
  "sync_daily q = (case map_of (cq_inner q) ''requests_daily'' of
      None \<Rightarrow> q
    | Some d \<Rightarrow> q\<lparr>cq_daily_limit := dim_limit d, cq_daily_remaining := dim_remaining d, cq_source := dim_source d,
                  cq_updated_at := dim_updated_at d\<rparr>)"

definition cq_check :: "count_quota \<Rightarrow> bool" where
  "cq_check q = wq_check (cq_inner q)"

definition cq_record :: "int \<Rightarrow> int \<Rightarrow> count_quota \<Rightarrow> count_quota" where
  "cq_record now tokens q = sync_daily (q\<lparr>cq_inner := wq_record now tokens (cq_inner q)\<rparr>)"

definition model_dim_prefix :: string where
  "model_dim_prefix = ''requests_daily_model:''"

definition models_remaining :: "window_quota \<Rightarrow> (string \<times> int) list" where
  \<comment> \<open>\<open>name.split(":", 1)[1]\<close> of the dimensions named \<open>requests_daily_model:...\<close>\<close>
  "models_remaining q = fold (\<lambda>d acc. if startswith (dim_name d) model_dim_prefix
       then dset acc (drop (length model_dim_prefix) (dim_name d)) (case dim_remaining d of None \<Rightarrow> 0 | Some r \<Rightarrow> r)
       else acc) (dimensions q) []"

definition cq_update_from_headers :: "int \<Rightarrow> pydict \<Rightarrow> count_quota \<Rightarrow> count_quota \<times> (pyerror + unit)" where
  "cq_update_from_headers now hs q =
     (case wq_update_from_headers now hs (cq_inner q) of
        (w, Inl e) \<Rightarrow> (q\<lparr>cq_inner := w\<rparr>, Inl e)
      | (w, Inr _) \<Rightarrow> ((sync_daily (q\<lparr>cq_inner := w\<rparr>))\<lparr>cq_model_remaining := models_remaining w\<rparr>, Inr ()))"

section \<open>Invariant and admission\<close>

definition dim_ok :: "dimension \<Rightarrow> bool" where
  "dim_ok d \<longleftrightarrow> 0 \<le> dim_used d \<and> dim_remaining d = remaining_of (dim_limit d) (dim_used d)"

definition wq_ok :: "window_quota \<Rightarrow> bool" where
  "wq_ok q \<longleftrightarrow> distinct (map fst q) \<and> (\<forall>(k, d) \<in> set q. dim_ok d \<and> dim_name d = k)"

lemma dim_ok_exhausted: "dim_ok d \<Longrightarrow> is_exhausted d \<longleftrightarrow> 0 < dim_limit d \<and> dim_limit d \<le> dim_used d"
  by (auto simp: dim_ok_def is_exhausted_def remaining_of_def)

lemma dim_ok_new: "dim_ok (new_dimension now name w lmt src)"
  by (simp add: dim_ok_def new_dimension_def)

lemma dim_ok_record: "dim_ok d \<Longrightarrow> 0 \<le> tokens \<Longrightarrow> dim_ok (record_dim now tokens d)"
  by (auto simp: dim_ok_def record_dim_def remaining_of_def Let_def)

lemma record_dim_name [simp]: "dim_name (record_dim now tokens d) = dim_name d" "dim_limit (record_dim now tokens d) = dim_limit d"
  by (simp_all add: record_dim_def Let_def)

lemma wq_ok_dset:
  assumes "wq_ok q" "dim_ok d" "dim_name d = k"
  shows "wq_ok (dset q k d)"
proof -
  have "set (dset q k d) \<subseteq> insert (k, d) (set q)"
    by (induction q k d rule: dset.induct) auto
  with assms show ?thesis by (auto simp: wq_ok_def distinct_dset)
qed

lemma map_of_wq_ok: "wq_ok q \<Longrightarrow> map_of q k = Some d \<Longrightarrow> dim_ok d \<and> dim_name d = k"
  by (auto simp: wq_ok_def dest!: map_of_SomeD)

lemma wq_ok_register: "wq_ok q \<Longrightarrow> wq_ok (register_dimension now name w lmt src q)"
  by (auto simp: register_dimension_def dim_ok_def dim_ok_new new_dimension_def dest: map_of_wq_ok intro!: wq_ok_dset split: option.splits)

lemma wq_ok_record: "wq_ok q \<Longrightarrow> 0 \<le> tokens \<Longrightarrow> wq_ok (wq_record now tokens q)"
  by (auto simp: wq_ok_def wq_record_def dim_ok_record comp_def split_def)

lemma wq_check_iff:
  "wq_ok q \<Longrightarrow> wq_check q \<longleftrightarrow> (\<forall>d \<in> set (dimensions q). 0 < dim_limit d \<longrightarrow> dim_used d < dim_limit d)"
  by (force simp: wq_check_def list_ex_iff wq_ok_def dimensions_def dim_ok_exhausted)

fun record_times :: "nat \<Rightarrow> int \<Rightarrow> int \<Rightarrow> window_quota \<Rightarrow> window_quota" where
  "record_times 0 now tokens q = q"
| "record_times (Suc n) now tokens q = record_times n now tokens (wq_record now tokens q)"

lemma record_times_dims:
  "dimensions (record_times n now tokens q) = map (record_dim now tokens ^^ n) (dimensions q)"
  by (induction n arbitrary: q) (auto simp: wq_record_def dimensions_def funpow_swap1)

lemma record_dim_pow:
  assumes "0 < dim_limit d" "dim_name d \<noteq> ''tpm''"
  shows "dim_used ((record_dim now tokens ^^ n) d) = dim_used d + int n"
    and "dim_limit ((record_dim now tokens ^^ n) d) = dim_limit d" and "dim_name ((record_dim now tokens ^^ n) d) = dim_name d"
  using assms by (induction n) (auto simp: record_dim_def Let_def)

lemma wq_ok_record_times: "wq_ok q \<Longrightarrow> 0 \<le> tokens \<Longrightarrow> wq_ok (record_times n now tokens q)"
  by (induction n arbitrary: q) (auto simp: wq_ok_record)

lemma headers_step_raises:
  assumes "lmt \<noteq> None \<or> rem \<noteq> None"
  shows "snd (headers_step now name rem lmt False q) = Inl NameError"
    and "map_of (fst (headers_step now name rem lmt False q)) name \<noteq> None"
proof -
  have "map_of (register_dimension now name 0 l src q) name \<noteq> None" for l src
    by (simp add: register_dimension_def split: option.splits)
  then show "map_of (fst (headers_step now name rem lmt False q)) name \<noteq> None"
    using assms by (cases rem; cases lmt) (simp_all add: headers_step_def upd_dim_def Let_def split: option.splits)
  show "snd (headers_step now name rem lmt False q) = Inl NameError"
    using assms by (cases rem) (simp_all add: headers_step_def Let_def)
qed

section \<open>Properties\<close>

text \<open>
  A request quota admits exactly its limit: starting from a registered dimension with a positive
  limit and nothing used, the check succeeds after \<open>n\<close> recorded requests exactly when \<open>n\<close> is below
  the limit, whatever token counts the requests carry.
\<close>

theorem quota_admits_exactly_limit:
  assumes "0 < lmt" "name \<noteq> ''tpm''" "0 \<le> tokens"
  shows "wq_check (record_times n now tokens (register_dimension t name w lmt src [])) \<longleftrightarrow> int n < lmt"
proof -
  let ?d = "new_dimension t name w lmt src"
  have d: "dim_limit ?d = lmt" "dim_name ?d = name" "dim_used ?d = 0" by (simp_all add: new_dimension_def)
  have q: "register_dimension t name w lmt src [] = [(name, ?d)]" by (simp add: register_dimension_def)
  have "wq_ok (register_dimension t name w lmt src [])" by (rule wq_ok_register) (simp add: wq_ok_def)
  note chk = wq_check_iff [OF wq_ok_record_times [OF this assms(3)]]
  have "dimensions (register_dimension t name w lmt src []) = [?d]" by (simp add: q dimensions_def)
  then show ?thesis
    using assms record_dim_pow [where d = ?d and now = now and tokens = tokens and n = n] by (simp add: chk record_times_dims d)
qed

theorem quota_admits_exactly_limit_witness:
  "wq_check (record_times 2 0 5 (register_dimension 0 ''rpm'' 60 3 ''memory'' [])) \<and>
   \<not> wq_check (record_times 3 0 5 (register_dimension 0 ''rpm'' 60 3 ''memory'' []))"
  using quota_admits_exactly_limit [of 3 "''rpm''" 5 2 0 0 60 "''memory''"] quota_admits_exactly_limit [of 3 "''rpm''" 5 3 0 0 60 "''memory''"]
  by simp

text \<open>
  \<open>WindowQuota.update_from_headers\<close> fails on every response that carries an OpenAI request
  rate-limit header: the method refers to an unbound name, so the caller gets a \<open>NameError\<close> after
  the dimension has been entered.
\<close>

theorem headers_update_raises:
  assumes "to_int (dget (headers_lower hs) ''x-ratelimit-limit-requests'') \<noteq> None
           \<or> to_int (dget (headers_lower hs) ''x-ratelimit-remaining-requests'') \<noteq> None"
  shows "snd (wq_update_from_headers now hs q) = Inl NameError
       \<and> map_of (fst (wq_update_from_headers now hs q)) ''requests_window'' \<noteq> None"
  using headers_step_raises [OF assms, of now "''requests_window''" q]
  by (simp add: wq_update_from_headers_def Let_def split_def split: sum.splits)

theorem headers_update_raises_witness:
  "snd (wq_update_from_headers 7 [(''X-RateLimit-Limit-Requests'', PStr ''100'')] []) = Inl NameError"
proof -
  have "to_int (dget (headers_lower [(''X-RateLimit-Limit-Requests'', PStr ''100'')]) ''x-ratelimit-limit-requests'') = Some 100"
    by code_simp
  with headers_update_raises [of "[(''X-RateLimit-Limit-Requests'', PStr ''100'')]" 7 "[]"] show ?thesis by simp
qed

end
