(* ===== verification/Lub_Account.thy ===== *)
theory Lub_Account
  imports Lub_LimitRules Lub_Quota "HOL-Library.AList"
begin

text \<open>
  One upstream account at run time, \<open>server/rate_limiter.py\<close>: the failure window, the freeze
  bucket, the canonical state and the provider quota mirror of \<open>AccountClient\<close>. Methods that read
  the clock take the time as an argument. What the account reads of its provider object (another
  class hierarchy) is the record \<open>provider_view\<close>.
\<close>

section \<open>FailureWindow\<close>

record failure_window =
  fw_picks :: "time list"
  fw_success :: "time list"
  fw_failure :: "time list"
  fw_consecutive_failures :: int
  fw_consecutive_successes :: int
  fw_window :: rat

definition new_failure_window :: failure_window where
  "new_failure_window = \<lparr>fw_picks = [], fw_success = [], fw_failure = [], fw_consecutive_failures = 0,
     fw_consecutive_successes = 0, fw_window = 300\<rparr>"

definition record_pick :: "time \<Rightarrow> failure_window \<Rightarrow> failure_window" where
  "record_pick now w = w\<lparr>fw_picks := fw_picks w @ [now]\<rparr>"

definition pick_factor :: "time \<Rightarrow> int \<Rightarrow> rat \<Rightarrow> failure_window \<Rightarrow> failure_window \<times> rat" where
  "pick_factor now soft_cap window w =
     (let recent = filter (\<lambda>t. now - t < window) (fw_picks w);
          n = int (length recent)
      in (w\<lparr>fw_picks := recent\<rparr>,
          if n \<le> soft_cap then 1 else max (3 / 10) (1 - of_int (n - soft_cap) * (15 / 100))))"

definition record_success :: "time \<Rightarrow> failure_window \<Rightarrow> failure_window" where
  "record_success now w = w\<lparr>fw_success := fw_success w @ [now], fw_consecutive_failures := 0,
     fw_consecutive_successes := fw_consecutive_successes w + 1\<rparr>"

definition record_failure :: "time \<Rightarrow> bool \<Rightarrow> failure_window \<Rightarrow> failure_window" where
  "record_failure now account_level w = w\<lparr>fw_failure := fw_failure w @ [now], fw_consecutive_successes := 0,
     fw_consecutive_failures := fw_consecutive_failures w + (if account_level then 1 else 0)\<rparr>"

definition error_rate :: "time \<Rightarrow> rat \<Rightarrow> failure_window \<Rightarrow> failure_window \<times> rat" where
  "error_rate now window w =
     (let s = filter (\<lambda>t. now - t < window) (fw_success w);
          f = filter (\<lambda>t. now - t < window) (fw_failure w);
          total = length s + length f
      in (w\<lparr>fw_success := s, fw_failure := f\<rparr>,
          if 0 < total then of_nat (length f) / of_nat total else 0))"

definition circuit_failure_count :: "time \<Rightarrow> failure_window \<Rightarrow> failure_window \<times> nat" where
  "circuit_failure_count now w =
     (let f = filter (\<lambda>t. now - t < fw_window w) (fw_failure w) in (w\<lparr>fw_failure := f\<rparr>, length f))"

definition clear_circuit :: "failure_window \<Rightarrow> failure_window" where
  "clear_circuit w = w\<lparr>fw_failure := []\<rparr>"

definition reset_failures :: "failure_window \<Rightarrow> failure_window" where
  "reset_failures w = w\<lparr>fw_consecutive_failures := 0\<rparr>"

definition reset_streaks :: "failure_window \<Rightarrow> failure_window" where
  "reset_streaks w = w\<lparr>fw_consecutive_failures := 0, fw_consecutive_successes := 0\<rparr>"

definition clear_all :: "failure_window \<Rightarrow> failure_window" where
  "clear_all w = w\<lparr>fw_picks := [], fw_success := [], fw_failure := [], fw_consecutive_failures := 0, fw_consecutive_successes := 0\<rparr>"

section \<open>AccountClient\<close>

datatype account_state = DISABLED | CREDENTIAL_INVALID | QUOTA_EXHAUSTED | FROZEN | COOLING | MODEL_FROZEN
  | UNINITIALIZED | AUTH_FAILED | CHECKING | AVAILABLE

definition ROUTABLE_STATES :: "account_state set" where
  "ROUTABLE_STATES = {AVAILABLE, CHECKING, AUTH_FAILED, MODEL_FROZEN}"

text \<open>
  An entry of the freeze bucket: \<open>fe_until = None\<close> is permanent, \<open>Some 0\<close> is not frozen. A missing
  category is the empty string.
\<close>

record freeze_entry =
  fe_until :: "time option"
  fe_reason :: string
  fe_category :: string

definition no_freeze :: freeze_entry where
  "no_freeze = \<lparr>fe_until = Some 0, fe_reason = '''', fe_category = ''''\<rparr>"

record freeze_bucket =
  fb_account :: freeze_entry
  fb_models :: "(string \<times> freeze_entry) list"

record quota_view =
  qv_daily_remaining :: "int option"
  qv_daily_limit :: "int option"
  qv_dimensions :: "dimension list option"
  qv_model_remaining :: "(string \<times> int) list option"

record channel_view =
  ch_enabled :: bool
  ch_priority :: int
  ch_weight :: int

text \<open>
  \<open>pv_is_init\<close>: the answer of \<open>provider.is_init()\<close>, \<open>None\<close> if the provider has no such method.
\<close>

record provider_view =
  pv_name :: string
  pv_username :: string
  pv_is_init :: "(pyerror + bool) option"
  pv_quotas :: "quota_view option"
  pv_channel :: "channel_view option"

record account_client =
  ac_provider :: provider_view
  ac_rpm_limit :: int
  ac_rpd_limit :: int
  ac_rph_limit :: int
  ac_tph_limit :: int
  ac_tpd_limit :: int
  ac_tpm_limit :: int
  ac_concurrent_limit :: int
  ac_in_flight :: int
  ac_legacy_priority :: int
  ac_legacy_weight :: int
  ac_disabled :: bool
  ac_disable_reason :: string
  ac_requests :: "time list"
  ac_token_usages :: "(time \<times> int) list"
  ac_limit_leases :: "(string \<times> limit_lease) list"
  ac_auth_ok :: "bool option"
  ac_daily_remaining :: "int option"
  ac_daily_limit :: "int option"
  ac_quota_disabled_until :: time
  ac_freeze :: freeze_bucket
  ac_stats :: failure_window
  ac_is_test :: bool

definition until_of :: "time \<Rightarrow> int option \<Rightarrow> time option" where
  "until_of now seconds = (case seconds of None \<Rightarrow> None | Some n \<Rightarrow> if 0 < n then Some (now + of_int n) else Some 0)"

definition entry_frozen :: "time \<Rightarrow> freeze_entry \<Rightarrow> bool" where
  "entry_frozen now e = (case fe_until e of None \<Rightarrow> True | Some u \<Rightarrow> now < u)"

definition is_frozen :: "time \<Rightarrow> account_client \<Rightarrow> bool" where
  "is_frozen now a = entry_frozen now (fb_account (ac_freeze a))"

definition is_model_frozen :: "time \<Rightarrow> string \<Rightarrow> account_client \<Rightarrow> bool" where
  "is_model_frozen now mid a = (case map_of (fb_models (ac_freeze a)) mid of None \<Rightarrow> False | Some e \<Rightarrow> entry_frozen now e)"

definition freeze :: "time \<Rightarrow> string \<Rightarrow> string option \<Rightarrow> int option \<Rightarrow> string \<Rightarrow> bool \<Rightarrow> string \<Rightarrow> account_client \<Rightarrow> account_client \<times> bool" where
  "freeze now kind model_id seconds reason refresh category a =
     (let until = until_of now seconds;
          for_model = (kind = ''account_model'' \<and> model_id \<noteq> None \<and> model_id \<noteq> Some [])
      in if until = Some 0 then (a, False)
         else if \<not> refresh \<and> (if for_model then is_model_frozen now (the model_id) a else is_frozen now a) then (a, False)
         else (let entry = \<lparr>fe_until = until, fe_reason = reason, fe_category = category\<rparr>; b = ac_freeze a
               in (a\<lparr>ac_freeze := (if for_model then b\<lparr>fb_models := dset (fb_models b) (the model_id) entry\<rparr>
                                  else b\<lparr>fb_account := entry\<rparr>)\<rparr>, True)))"

definition unfreeze :: "time \<Rightarrow> string \<Rightarrow> string option \<Rightarrow> account_client \<Rightarrow> account_client \<times> bool" where
  "unfreeze now kind model_id a =
     (let b = ac_freeze a
      in if kind = ''account_model'' \<and> model_id \<noteq> None \<and> model_id \<noteq> Some [] then
           (if map_of (fb_models b) (the model_id) \<noteq> None
            then (a\<lparr>ac_freeze := b\<lparr>fb_models := AList.delete (the model_id) (fb_models b)\<rparr>\<rparr>, True) else (a, False))
         else (a\<lparr>ac_freeze := \<lparr>fb_account = no_freeze, fb_models = []\<rparr>\<rparr>,
               fe_until (fb_account b) \<noteq> None
               \<or> (case fe_until (fb_account b) of Some u \<Rightarrow> u \<noteq> 0 \<and> now < u | None \<Rightarrow> False)
               \<or> fb_models b \<noteq> []))"

definition set_freeze_state_raw ::
  "time option \<Rightarrow> (string \<times> time option) list \<Rightarrow> string \<Rightarrow> string \<Rightarrow> account_client \<Rightarrow> account_client" where
  "set_freeze_state_raw account_until model_untils reason category a =
     (let b = ac_freeze a;
          entry = (\<lambda>u. \<lparr>fe_until = u, fe_reason = reason, fe_category = category\<rparr>);
          b1 = (if account_until \<noteq> None \<and> account_until \<noteq> Some 0 then b\<lparr>fb_account := entry account_until\<rparr> else b)
      in a\<lparr>ac_freeze := b1\<lparr>fb_models := fold (\<lambda>(mid, u) ms. dset ms mid (entry u)) model_untils (fb_models b1)\<rparr>\<rparr>)"

definition cooldown_remaining :: "time \<Rightarrow> account_client \<Rightarrow> int" where
  "cooldown_remaining now a = (case fe_until (fb_account (ac_freeze a)) of
      None \<Rightarrow> 0 | Some u \<Rightarrow> if u \<le> now then 0 else trunc (u - now))"

definition freeze_reason :: "account_client \<Rightarrow> string" where
  "freeze_reason a = fe_reason (fb_account (ac_freeze a))"

definition last_request_at :: "account_client \<Rightarrow> time" where
  "last_request_at a = (if ac_requests a \<noteq> [] then last (ac_requests a) else 0)"

definition is_available :: "time \<Rightarrow> string option \<Rightarrow> account_client \<Rightarrow> bool" where
  "is_available now model_id a =
     (if ac_disabled a then False else if is_frozen now a then False
      else (case model_id of Some mid \<Rightarrow> \<not> (mid \<noteq> [] \<and> is_model_frozen now mid a) | None \<Rightarrow> True))"

definition frozen_model_ids :: "time \<Rightarrow> account_client \<Rightarrow> account_client \<times> string list" where
  "frozen_model_ids now a =
     (let ms = fb_models (ac_freeze a);
          permanent = filter (\<lambda>(mid, e). fe_until e = None) ms;
          temporary = filter (\<lambda>(mid, e). fe_until e \<noteq> None \<and> entry_frozen now e) ms;
          expired = filter (\<lambda>(mid, e). \<not> entry_frozen now e) ms
      in (a\<lparr>ac_freeze := (ac_freeze a)\<lparr>fb_models := filter (\<lambda>(mid, e). mid \<notin> set (map fst expired)) ms\<rparr>\<rparr>,
          map fst (sort_key (\<lambda>(mid, e). the (fe_until e)) temporary) @ map fst permanent))"

definition prune_freeze_for_models :: "string set \<Rightarrow> account_client \<Rightarrow> account_client \<times> string list" where
  "prune_freeze_for_models valid a =
     (let ms = fb_models (ac_freeze a); removed = filter (\<lambda>mid. mid \<notin> valid) (map fst ms)
      in (a\<lparr>ac_freeze := (ac_freeze a)\<lparr>fb_models := filter (\<lambda>(mid, e). mid \<notin> set removed) ms\<rparr>\<rparr>, removed))"

definition freeze_category :: "time \<Rightarrow> account_client \<Rightarrow> string" where
  "freeze_category now a = (if \<not> is_frozen now a then '''' else fe_category (fb_account (ac_freeze a)))"

definition initialized :: "account_client \<Rightarrow> bool" where
  "initialized a = (case pv_is_init (ac_provider a) of None \<Rightarrow> True | Some (Inr b) \<Rightarrow> b | Some (Inl e) \<Rightarrow> False)"

definition state :: "time \<Rightarrow> account_client \<Rightarrow> account_client \<times> account_state" where
  \<comment> \<open>the account comes back because \<open>frozen_model_ids\<close> drops expired entries\<close>
  "state now a =
     (if ac_disabled a then (a, DISABLED)
      else if is_frozen now a then
        (a, if freeze_category now a = ''credential'' then CREDENTIAL_INVALID
            else if freeze_category now a = ''quota'' then QUOTA_EXHAUSTED
            else if 0 < cooldown_remaining now a then COOLING else FROZEN)
      else (let (a1, frozen) = frozen_model_ids now a
            in (a1, if frozen \<noteq> [] then MODEL_FROZEN
                    else if \<not> initialized a then UNINITIALIZED
                    else (case ac_auth_ok a of Some False \<Rightarrow> AUTH_FAILED | None \<Rightarrow> CHECKING | Some True \<Rightarrow> AVAILABLE))))"

definition get_cooldown_until :: "account_client \<Rightarrow> time" where
  "get_cooldown_until a = (case fe_until (fb_account (ac_freeze a)) of None \<Rightarrow> 0 | Some u \<Rightarrow> u)"

definition set_cooldown_until :: "time \<Rightarrow> account_client \<Rightarrow> account_client" where
  "set_cooldown_until v a = a\<lparr>ac_freeze := (ac_freeze a)\<lparr>fb_account := (fb_account (ac_freeze a))\<lparr>fe_until := Some v\<rparr>\<rparr>\<rparr>"

definition set_cooldown_reason :: "string \<Rightarrow> account_client \<Rightarrow> account_client" where
  "set_cooldown_reason v a = a\<lparr>ac_freeze := (ac_freeze a)\<lparr>fb_account := (fb_account (ac_freeze a))\<lparr>fe_reason := v\<rparr>\<rparr>\<rparr>"

definition set_cooldown :: "time \<Rightarrow> int option \<Rightarrow> string \<Rightarrow> account_client \<Rightarrow> account_client" where
  "set_cooldown now seconds reason a = fst (freeze now ''account'' None seconds reason True '''' a)"

definition has_provider_quota :: "account_client \<Rightarrow> bool" where
  "has_provider_quota a = (ac_daily_limit a \<noteq> None)"

definition update_provider_quota :: "time \<Rightarrow> int option \<Rightarrow> int option \<Rightarrow> account_client \<Rightarrow> account_client" where
  "update_provider_quota now remaining lmt a =
     (let a1 = (case remaining of Some r \<Rightarrow> a\<lparr>ac_daily_remaining := Some r\<rparr> | None \<Rightarrow> a);
          a2 = (case lmt of Some l \<Rightarrow> a1\<lparr>ac_daily_limit := Some l\<rparr> | None \<Rightarrow> a1)
      in case remaining of
           None \<Rightarrow> a2
         | Some r \<Rightarrow> a2\<lparr>ac_quota_disabled_until := (if r \<le> 0 then now + 86400 else 0)\<rparr>)"

definition sync_provider_quota :: "time \<Rightarrow> account_client \<Rightarrow> account_client" where
  "sync_provider_quota now a = (case pv_quotas (ac_provider a) of
      None \<Rightarrow> a
    | Some q \<Rightarrow>
        (let a1 = (if qv_daily_remaining q \<noteq> None \<or> qv_daily_limit q \<noteq> None
                   then update_provider_quota now (qv_daily_remaining q) (qv_daily_limit q) a else a)
         in case qv_dimensions q of
              None \<Rightarrow> a1
            | Some ds \<Rightarrow> fold (\<lambda>d b. if dim_name d = ''requests_daily''
                  then update_provider_quota now (dim_remaining d) (Some (dim_limit d)) b else b) ds a1))"

definition find_dim :: "string \<Rightarrow> quota_view \<Rightarrow> dimension option" where
  "find_dim name q = (case qv_dimensions q of None \<Rightarrow> None | Some ds \<Rightarrow> find (\<lambda>d. dim_name d = name) ds)"

definition daily_requests_limit :: "account_client \<Rightarrow> int option" where
  "daily_requests_limit a = (case pv_quotas (ac_provider a) of None \<Rightarrow> None
     | Some q \<Rightarrow> (case find_dim ''requests_daily'' q of Some d \<Rightarrow> Some (dim_limit d) | None \<Rightarrow> qv_daily_limit q))"

definition daily_requests_remaining :: "account_client \<Rightarrow> int option" where
  "daily_requests_remaining a = (case pv_quotas (ac_provider a) of None \<Rightarrow> None
     | Some q \<Rightarrow> (case find_dim ''requests_daily'' q of Some d \<Rightarrow> dim_remaining d | None \<Rightarrow> qv_daily_remaining q))"

definition model_daily_remaining :: "account_client \<Rightarrow> (string \<times> int) list" where
  "model_daily_remaining a = (case pv_quotas (ac_provider a) of None \<Rightarrow> []
     | Some q \<Rightarrow>
        (let from_dims = (case qv_dimensions q of None \<Rightarrow> [] | Some ds \<Rightarrow> models_remaining (map (\<lambda>d. (dim_name d, d)) ds))
         in if from_dims \<noteq> [] then from_dims else (case qv_model_remaining q of Some m \<Rightarrow> m | None \<Rightarrow> [])))"

definition priority :: "account_client \<Rightarrow> int" where
  "priority a = (case pv_channel (ac_provider a) of Some ch \<Rightarrow> ch_priority ch | None \<Rightarrow> ac_legacy_priority a)"

definition weight :: "account_client \<Rightarrow> int" where
  "weight a = (case pv_channel (ac_provider a) of Some ch \<Rightarrow> max 1 (ch_weight ch) | None \<Rightarrow> ac_legacy_weight a)"

section \<open>Freeze bucket\<close>

definition bucket_ok :: "account_client \<Rightarrow> bool" where
  \<comment> \<open>the models' dictionary has one entry per model\<close>
  "bucket_ok a \<longleftrightarrow> distinct (map fst (fb_models (ac_freeze a)))"

lemma bucket_ok_freeze: "bucket_ok a \<Longrightarrow> bucket_ok (fst (freeze now kind mid s r rf c a))"
  by (auto simp: freeze_def bucket_ok_def Let_def distinct_dset)

lemma map_of_filter_key:
  "distinct (map fst xs) \<Longrightarrow> map_of (filter P xs) k = (case map_of xs k of Some v \<Rightarrow> if P (k, v) then Some v else None | None \<Rightarrow> None)"
proof (induction xs)
  case (Cons x xs)
  have "map_of xs (fst x) = None" using Cons.prems by (simp add: map_of_eq_None_iff)
  moreover from Cons.prems have "map_of (filter P xs) (fst x) = None" by (auto simp: map_of_eq_None_iff)
  ultimately show ?case using Cons by (cases x) auto
qed simp

lemma map_of_delete_key: "map_of (AList.delete k xs) k' = (if k' = k then None else map_of xs k')"
  by (simp add: AList.delete_conv)

lemma bucket_ok_unfreeze: "bucket_ok a \<Longrightarrow> bucket_ok (fst (unfreeze now kind mid a))"
  by (auto simp: unfreeze_def bucket_ok_def Let_def distinct_delete)

lemma bucket_ok_raw: "bucket_ok a \<Longrightarrow> bucket_ok (set_freeze_state_raw u mus r c a)"
proof -
  assume "bucket_ok a"
  then have *: "distinct (map fst (fb_models (ac_freeze a)))" by (simp add: bucket_ok_def)
  have "distinct (map fst ms) \<Longrightarrow> distinct (map fst (fold (\<lambda>(mid, u) ms. dset ms mid (g u)) mus ms))" for ms and g :: "time option \<Rightarrow> freeze_entry"
    by (induction mus arbitrary: ms) (auto simp: distinct_dset)
  with * show ?thesis by (simp add: set_freeze_state_raw_def bucket_ok_def Let_def)
qed

lemma frozen_keys:
  assumes "distinct (map fst ms)"
  shows "k \<in> fst ` {x \<in> set ms. P (snd x)} \<longleftrightarrow> (\<exists>e. map_of ms k = Some e \<and> P e)"
proof -
  have "k \<in> fst ` {x \<in> set ms. P (snd x)} \<longleftrightarrow> (\<exists>e. (k, e) \<in> set ms \<and> P e)" by force
  then show ?thesis using assms by simp
qed

lemma frozen_model_ids_snd:
  "set (snd (frozen_model_ids now a)) = fst ` {x \<in> set (fb_models (ac_freeze a)). entry_frozen now (snd x)}"
  unfolding frozen_model_ids_def Let_def by (force simp: entry_frozen_def image_iff split: option.splits)

lemma frozen_model_ids_set:
  assumes "bucket_ok a"
  shows "set (snd (frozen_model_ids now a)) = {mid. is_model_frozen now mid a}"
proof (rule set_eqI)
  fix mid
  have "mid \<in> set (snd (frozen_model_ids now a)) \<longleftrightarrow> (\<exists>e. map_of (fb_models (ac_freeze a)) mid = Some e \<and> entry_frozen now e)"
    unfolding frozen_model_ids_snd using assms by (intro frozen_keys) (simp add: bucket_ok_def)
  then show "mid \<in> set (snd (frozen_model_ids now a)) \<longleftrightarrow> mid \<in> {mid. is_model_frozen now mid a}"
    by (cases "map_of (fb_models (ac_freeze a)) mid") (simp_all add: is_model_frozen_def del: map_of_eq_Some_iff)
qed

lemma frozen_model_ids_frozen:
  assumes "bucket_ok a"
  shows "is_model_frozen now mid (fst (frozen_model_ids now a)) = is_model_frozen now mid a"
proof -
  let ?ms = "fb_models (ac_freeze a)"
  let ?ex = "map fst (filter (\<lambda>(mid, e). \<not> entry_frozen now e) ?ms)"
  have d: "distinct (map fst ?ms)" using assms by (simp add: bucket_ok_def)
  have ex: "mid \<in> set ?ex \<longleftrightarrow> (\<exists>e. map_of ?ms mid = Some e \<and> \<not> entry_frozen now e)"
    using frozen_keys [OF d, of mid "\<lambda>e. \<not> entry_frozen now e"] by (simp add: split_def image_iff Bex_def)
  have "fb_models (ac_freeze (fst (frozen_model_ids now a))) = filter (\<lambda>(m, e). m \<notin> set ?ex) ?ms"
    by (simp add: frozen_model_ids_def Let_def)
  then have "map_of (fb_models (ac_freeze (fst (frozen_model_ids now a)))) mid =
      (case map_of ?ms mid of Some v \<Rightarrow> if mid \<notin> set ?ex then Some v else None | None \<Rightarrow> None)"
    using map_of_filter_key [OF d, of "\<lambda>(m, e). m \<notin> set ?ex" mid] by (simp only: prod.case)
  then show ?thesis
    using ex by (cases "map_of ?ms mid") (simp_all add: is_model_frozen_def del: map_of_eq_Some_iff set_map)
qed

lemma is_frozen_frozen_model_ids [simp]: "is_frozen t (fst (frozen_model_ids now a)) = is_frozen t a"
  by (simp add: frozen_model_ids_def is_frozen_def Let_def)

section \<open>Properties\<close>

text \<open>
  The canonical state puts an account into routing exactly when it is enabled, not frozen at
  account level, and either fully initialized or carrying a frozen model.
\<close>

theorem routable_iff:
  assumes "bucket_ok a"
  shows "snd (state now a) \<in> ROUTABLE_STATES \<longleftrightarrow>
     is_available now None a \<and> (initialized a \<or> (\<exists>mid. is_model_frozen now mid a))"
proof -
  have "snd (frozen_model_ids now a) = [] \<longleftrightarrow> (\<forall>mid. \<not> is_model_frozen now mid a)"
    using frozen_model_ids_set [OF assms, of now] by auto
  then show ?thesis
    by (auto simp: state_def is_available_def ROUTABLE_STATES_def Let_def split_def split: option.splits bool.splits)
qed

definition provider0 :: provider_view where
  "provider0 = \<lparr>pv_name = ''p'', pv_username = ''u'', pv_is_init = Some (Inr True), pv_quotas = None, pv_channel = None\<rparr>"

definition account0 :: account_client where
  "account0 = \<lparr>ac_provider = provider0, ac_rpm_limit = 1, ac_rpd_limit = 0, ac_rph_limit = 0, ac_tph_limit = 0, ac_tpd_limit = 0,
     ac_tpm_limit = 0, ac_concurrent_limit = 1, ac_in_flight = 0, ac_legacy_priority = 0, ac_legacy_weight = 1,
     ac_disabled = False, ac_disable_reason = '''', ac_requests = [], ac_token_usages = [], ac_limit_leases = [],
     ac_auth_ok = None, ac_daily_remaining = None, ac_daily_limit = None, ac_quota_disabled_until = 0,
     ac_freeze = \<lparr>fb_account = no_freeze, fb_models = []\<rparr>, ac_stats = new_failure_window, ac_is_test = False\<rparr>"

lemma bucket_ok_account0: "bucket_ok account0"
  by (simp add: bucket_ok_def account0_def)

theorem routable_iff_witness: "snd (state 100 account0) \<in> ROUTABLE_STATES"
  using routable_iff [OF bucket_ok_account0, of 100]
  by (simp add: is_available_def is_frozen_def entry_frozen_def initialized_def account0_def provider0_def no_freeze_def)

text \<open>
  A freeze lasts exactly as long as it was asked for: after an account freeze of \<open>n > 0\<close>
  seconds the account is frozen at \<open>t\<close> exactly when \<open>t < now + n\<close>, after a permanent one always;
  models keep their own entries. With \<open>refresh\<close> off an account that is still frozen is left as it
  was, and a freeze of one model touches no other model and not the account.
\<close>

theorem freeze_exact:
  assumes "0 < n" "0 \<le> now" "m \<noteq> []"
  shows "(let (a1, w) = freeze now ''account'' mid (Some n) reason True cat a
          in w \<and> (\<forall>t. is_frozen t a1 \<longleftrightarrow> t < now + of_int n) \<and> (\<forall>t m'. is_model_frozen t m' a1 = is_model_frozen t m' a))
     \<and> (let (a2, w) = freeze now ''account'' mid None reason True cat a in w \<and> (\<forall>t. is_frozen t a2))
     \<and> (is_frozen now a \<longrightarrow> freeze now ''account'' mid s reason False cat a = (a, False))
     \<and> (let (a3, w) = freeze now ''account_model'' (Some m) (Some n) reason True cat a
          in w \<and> (\<forall>t. is_frozen t a3 = is_frozen t a) \<and>
             (\<forall>t m'. is_model_frozen t m' a3 = (if m' = m then t < now + of_int n else is_model_frozen t m' a)))"
proof -
  have "now + of_int n \<noteq> 0" using assms(1,2) by (simp add: add_nonneg_eq_0_iff)
  then have u: "until_of now (Some n) = Some (now + of_int n)" "until_of now (Some n) \<noteq> Some 0" "until_of now None = None"
    using assms(1) by (simp_all add: until_of_def)
  then show ?thesis
    using assms(3) by (auto simp: freeze_def is_frozen_def is_model_frozen_def entry_frozen_def Let_def split: option.splits)
qed

theorem freeze_exact_witness:
  "is_frozen 159 (fst (freeze 100 ''account'' None (Some 60) ''rpm'' True '''' account0)) \<and>
   \<not> is_frozen 160 (fst (freeze 100 ''account'' None (Some 60) ''rpm'' True '''' account0))"
  using freeze_exact [of 60 100 "''m''" None "''rpm''" "''''" account0 "Some 60"] by (simp add: Let_def split_def)

text \<open>
  \<open>unfreeze\<close> always leaves an account thawed, but what it returns is not whether a freeze was
  cleared: for an account under a permanent freeze (and no frozen model) it returns \<open>False\<close>, for one
  that was never frozen it returns \<open>True\<close>.
\<close>

theorem unfreeze_result:
  assumes "0 \<le> now" "fb_models (ac_freeze a) = []"
  shows "(let (a', changed) = unfreeze now ''account'' mid a in \<not> is_frozen now a' \<and> (\<forall>m. \<not> is_model_frozen now m a'))
     \<and> (fe_until (fb_account (ac_freeze a)) = None \<longrightarrow> is_frozen now a \<and> \<not> snd (unfreeze now ''account'' mid a))
     \<and> (fe_until (fb_account (ac_freeze a)) = Some 0 \<longrightarrow> \<not> is_frozen now a \<and> snd (unfreeze now ''account'' mid a))"
  using assms by (auto simp: unfreeze_def is_frozen_def is_model_frozen_def entry_frozen_def no_freeze_def Let_def)

theorem unfreeze_result_witness:
  "\<not> is_frozen 100 account0 \<and> snd (unfreeze 100 ''account'' None account0)"
  using unfreeze_result [of 100 account0 None] by (simp add: account0_def no_freeze_def)

text \<open>
  In the last second of a temporary freeze the canonical state says \<open>FROZEN\<close>, the permanent
  state, and not \<open>COOLING\<close>: the remaining time is rounded down to 0. Before that second it is \<open>COOLING\<close>.
\<close>

theorem cooling_last_second:
  assumes "fe_until (fb_account (ac_freeze a)) = Some u" "now < u" "\<not> ac_disabled a"
    and "fe_category (fb_account (ac_freeze a)) \<notin> {''credential'', ''quota''}"
  shows "snd (state now a) = (if u - now < 1 then FROZEN else COOLING)"
proof -
  have "0 < trunc (u - now) \<longleftrightarrow> \<not> u - now < 1"
    using assms(2) by (simp add: trunc_def not_less)
  with assms show ?thesis
    by (auto simp: state_def is_frozen_def entry_frozen_def freeze_category_def cooldown_remaining_def)
qed

theorem cooling_last_second_witness:
  "snd (state (199 / 2) (fst (freeze 40 ''account'' None (Some 60) ''rpm'' True '''' account0))) = FROZEN"
  using cooling_last_second [of "fst (freeze 40 ''account'' None (Some 60) ''rpm'' True '''' account0)" 100 "199 / 2"]
  by (simp add: freeze_def until_of_def account0_def Let_def)

text \<open>
  The scoring signals stay in range whatever happened before: the error rate in [0, 1], the
  pick factor in [0.3, 1], and reading a signal twice at the same time gives the same value.
\<close>

theorem scoring_signals_bounded:
  "(case error_rate now win w of (w', r) \<Rightarrow> 0 \<le> r \<and> r \<le> 1 \<and> snd (error_rate now win w') = r)
   \<and> (case pick_factor now soft_cap win w of (w', r) \<Rightarrow> 3 / 10 \<le> r \<and> r \<le> 1 \<and> snd (pick_factor now soft_cap win w') = r)"
proof (intro conjI)
  let ?s = "filter (\<lambda>t. now - t < win) (fw_success w)" and ?f = "filter (\<lambda>t. now - t < win) (fw_failure w)"
  have "(of_nat (length ?f) :: rat) / of_nat (length ?s + length ?f) \<le> 1"
    by (auto simp: divide_le_eq_1)
  then show "case error_rate now win w of (w', r) \<Rightarrow> 0 \<le> r \<and> r \<le> 1 \<and> snd (error_rate now win w') = r"
    by (simp add: error_rate_def Let_def)
  show "case pick_factor now soft_cap win w of (w', r) \<Rightarrow> 3 / 10 \<le> r \<and> r \<le> 1 \<and> snd (pick_factor now soft_cap win w') = r"
  proof -
    have "3 / 10 \<le> max (3 / 10) (x :: rat)" for x by simp
    then show ?thesis
      by (auto simp: pick_factor_def Let_def simp del: max.cobounded1 divide_le_eq_numeral1 le_divide_eq_numeral1)
  qed
qed

end
