(* ===== verification/Lub_Json.thy ===== *)
theory Lub_Json
  imports Lub_PyVal
begin

text \<open>
  The parts of Python's \<open>json\<close> module and of \<open>float()\<close> that the sources apply to stored text:
  \<open>json.dumps(v, ensure_ascii=False)\<close>, \<open>json.loads(text)\<close>, and whether \<open>float(text)\<close> accepts a text.
  Text is a list of UTF-8 bytes, so bytes above 127 pass through unchanged and a \<open>\u\<close> escape is
  decoded to its UTF-8 bytes. The words NaN and Infinity, which \<open>json.loads\<close> would turn into
  floats that are no numbers, are rejected here. The fuel of the reader is the length of the text: every step
  consumes a character.
\<close>

section \<open>Reader\<close>

definition json_ws :: "char \<Rightarrow> bool" where
  "json_ws c \<longleftrightarrow> c = CHR '' '' \<or> c = CHR 0x09 \<or> c = CHR 0x0A \<or> c = CHR 0x0D"

definition skip_ws :: "string \<Rightarrow> string" where
  "skip_ws s = dropWhile json_ws s"

definition hex_val :: "char \<Rightarrow> nat option" where
  "hex_val c = (let n = of_char c :: nat in
     if 48 \<le> n \<and> n \<le> 57 then Some (n - 48) else if 97 \<le> n \<and> n \<le> 102 then Some (n - 87)
     else if 65 \<le> n \<and> n \<le> 70 then Some (n - 55) else None)"

definition hex4 :: "string \<Rightarrow> (nat \<times> string) option" where
  "hex4 s = (case s of
      a # b # c # d # r \<Rightarrow> (case (hex_val a, hex_val b, hex_val c, hex_val d) of
          (Some w, Some x, Some y, Some z) \<Rightarrow> Some (((w * 16 + x) * 16 + y) * 16 + z, r)
        | _ \<Rightarrow> None)
    | _ \<Rightarrow> None)"

definition utf8 :: "nat \<Rightarrow> string" where
  "utf8 n = map char_of
     (if n < 128 then [n]
      else if n < 2048 then [192 + n div 64, 128 + n mod 64]
      else if n < 65536 then [224 + n div 4096, 128 + n div 64 mod 64, 128 + n mod 64]
      else [240 + n div 262144, 128 + n div 4096 mod 64, 128 + n div 64 mod 64, 128 + n mod 64])"

definition unicode_escape :: "string \<Rightarrow> (string \<times> string) option" where
  \<comment> \<open>after \<open>\u\<close>: four hex digits, two of them joined if they form a surrogate pair\<close>
  "unicode_escape s = (case hex4 s of
      None \<Rightarrow> None
    | Some (u, r) \<Rightarrow>
        (case (if 0xD800 \<le> u \<and> u \<le> 0xDBFF \<and> take 2 r = [CHR 0x5C, CHR ''u''] then hex4 (drop 2 r) else None) of
           Some (v, r2) \<Rightarrow> if 0xDC00 \<le> v \<and> v \<le> 0xDFFF then Some (utf8 (0x10000 + (u - 0xD800) * 1024 + (v - 0xDC00)), r2)
                          else Some (utf8 u, r)
         | None \<Rightarrow> Some (utf8 u, r)))"

definition json_escape :: "string \<Rightarrow> (string \<times> string) option" where
  "json_escape s = (case s of
      [] \<Rightarrow> None
    | c # r \<Rightarrow>
       (if c = CHR 0x22 \<or> c = CHR 0x5C \<or> c = CHR ''/'' then Some ([c], r)
        else if c = CHR ''b'' then Some ([CHR 0x08], r) else if c = CHR ''f'' then Some ([CHR 0x0C], r)
        else if c = CHR ''n'' then Some ([CHR 0x0A], r) else if c = CHR ''r'' then Some ([CHR 0x0D], r)
        else if c = CHR ''t'' then Some ([CHR 0x09], r) else if c = CHR ''u'' then unicode_escape r else None))"

fun json_str :: "nat \<Rightarrow> string \<Rightarrow> (string \<times> string) option" where
  \<comment> \<open>the rest of a string literal, after its opening quote\<close>
  "json_str 0 s = None"
| "json_str (Suc n) [] = None"
| "json_str (Suc n) (c # s) =
     (if c = CHR 0x22 then Some ([], s)
      else if c = CHR 0x5C then (case json_escape s of None \<Rightarrow> None | Some (t, r) \<Rightarrow> map_option (\<lambda>(u, r'). (t @ u, r')) (json_str n r))
      else if (of_char c :: nat) < 32 then None
      else map_option (\<lambda>(u, r). (c # u, r)) (json_str n s))"

definition is_digit :: "char \<Rightarrow> bool" where
  "is_digit c \<longleftrightarrow> digit_val c \<noteq> None"

definition digits_nat :: "string \<Rightarrow> nat" where
  "digits_nat s = fold (\<lambda>c n. 10 * n + the (digit_val c)) s 0"

definition json_num :: "string \<Rightarrow> (pyval \<times> string) option" where
  "json_num s =
     (let neg = (take 1 s = ''-''); s1 = (if neg then tl s else s); sg = (if neg then -1 else 1);
          ds = (if take 1 s1 = ''0'' then ''0'' else takeWhile is_digit s1); s2 = drop (length ds) s1;
          fs = (if take 1 s2 = ''.'' then takeWhile is_digit (tl s2) else []); s3 = (if fs = [] then s2 else drop (Suc (length fs)) s2);
          e = (if take 1 s3 = ''e'' \<or> take 1 s3 = ''E'' then tl s3 else []);
          e1 = (if take 1 e = ''+'' \<or> take 1 e = ''-'' then tl e else e); es = takeWhile is_digit e1;
          s4 = (if es = [] then s3 else drop (length es) e1)
      in if ds = [] then None
         else if fs = [] \<and> es = [] then Some (PInt (sg * int (digits_nat ds)), s4)
         else (let m = of_nat (digits_nat (ds @ fs)) / 10 ^ length fs :: rat; x = digits_nat es
               in Some (PFloat (of_int sg * (if take 1 e = ''-'' then m / 10 ^ x else m * 10 ^ x)), s4)))"

definition literal :: "string \<Rightarrow> (pyval \<times> string) option" where
  "literal s = (if startswith s ''null'' then Some (PNone, drop 4 s) else if startswith s ''true'' then Some (PBool True, drop 4 s)
     else if startswith s ''false'' then Some (PBool False, drop 5 s) else json_num s)"

fun json_val :: "nat \<Rightarrow> string \<Rightarrow> (pyval \<times> string) option"
  and json_items :: "nat \<Rightarrow> pyval list \<Rightarrow> string \<Rightarrow> (pyval \<times> string) option"
  and json_members :: "nat \<Rightarrow> pydict \<Rightarrow> string \<Rightarrow> (pyval \<times> string) option" where
  "json_val 0 s = None"
| "json_val (Suc n) s = (case s of
      [] \<Rightarrow> None
    | c # r \<Rightarrow>
       (if c = CHR 0x22 then map_option (\<lambda>(t, r'). (PStr t, r')) (json_str (length s) r)
        else if c = CHR ''{'' then (if take 1 (skip_ws r) = ''}'' then Some (PDict [], tl (skip_ws r)) else json_members n [] (skip_ws r))
        else if c = CHR ''['' then (if take 1 (skip_ws r) = '']'' then Some (PList [], tl (skip_ws r)) else json_items n [] (skip_ws r))
        else literal s))"
| "json_items 0 acc s = None"
| "json_items (Suc n) acc s = (case json_val n s of
      None \<Rightarrow> None
    | Some (v, r) \<Rightarrow> (case skip_ws r of
         [] \<Rightarrow> None
       | c # r1 \<Rightarrow> (if c = CHR '']'' then Some (PList (acc @ [v]), r1)
                    else if c = CHR '','' then json_items n (acc @ [v]) (skip_ws r1) else None)))"
| "json_members 0 acc s = None"
| "json_members (Suc n) acc s = (case s of
      [] \<Rightarrow> None
    | q # s1 \<Rightarrow>
       (if q \<noteq> CHR 0x22 then None
        else (case json_str (length s) s1 of
          None \<Rightarrow> None
        | Some (k, r) \<Rightarrow> (case skip_ws r of
            [] \<Rightarrow> None
          | c # r1 \<Rightarrow>
             (if c \<noteq> CHR '':'' then None
              else (case json_val n (skip_ws r1) of
                None \<Rightarrow> None
              | Some (v, r2) \<Rightarrow> (case skip_ws r2 of
                  [] \<Rightarrow> None
                | d # r3 \<Rightarrow> (if d = CHR ''}'' then Some (PDict (dset acc k v), r3)
                             else if d = CHR '','' then json_members n (dset acc k v) (skip_ws r3) else None))))))))"

definition json_loads :: "string \<Rightarrow> pyval option" where
  "json_loads s = (case json_val (Suc (length s)) (skip_ws s) of
      Some (v, r) \<Rightarrow> if skip_ws r = [] then Some v else None
    | None \<Rightarrow> None)"

section \<open>Writer\<close>

definition json_esc :: "char \<Rightarrow> string" where
  "json_esc c = (let n = of_char c :: nat in
     if c = CHR 0x22 \<or> c = CHR 0x5C then [CHR 0x5C, c]
     else if n = 10 then [CHR 0x5C, CHR ''n''] else if n = 13 then [CHR 0x5C, CHR ''r''] else if n = 9 then [CHR 0x5C, CHR ''t'']
     else if n = 12 then [CHR 0x5C, CHR ''f''] else if n = 8 then [CHR 0x5C, CHR ''b'']
     else if n < 32 then [CHR 0x5C, CHR ''u'', CHR ''0'', CHR ''0'', hex_char (n div 16), hex_char (n mod 16)]
     else [c])"

definition json_quote :: "string \<Rightarrow> string" where
  "json_quote s = CHR 0x22 # concat (map json_esc s) @ [CHR 0x22]"

fun json_dumps :: "pyval \<Rightarrow> string" where
  "json_dumps PNone = ''null''"
| "json_dumps (PBool b) = (if b then ''true'' else ''false'')"
| "json_dumps (PInt n) = int_str n"
| "json_dumps (PFloat r) = float_str r"
| "json_dumps (PStr s) = json_quote s"
| "json_dumps (PList xs) = ''['' @ join '', '' (map json_dumps xs) @ '']''"
| "json_dumps (PDict d) = ''{'' @ join '', '' (map (\<lambda>p. json_quote (fst p) @ '': '' @ json_dumps (snd p)) d) @ ''}''"

section \<open>float()\<close>

fun eat_digits :: "bool \<Rightarrow> string \<Rightarrow> bool \<times> string" where
  \<comment> \<open>digits with single underscores between them; whether there was one, and the rest\<close>
  "eat_digits prev [] = (prev, [])"
| "eat_digits prev (c # s) =
     (if is_digit c then eat_digits True s
      else if c = CHR ''_'' \<and> prev \<and> s \<noteq> [] \<and> is_digit (hd s) then eat_digits True s
      else (prev, c # s))"

definition py_float_ok :: "string \<Rightarrow> bool" where
  "py_float_ok s0 =
     (let s = lower (strip s0); s1 = (if take 1 s = ''+'' \<or> take 1 s = ''-'' then tl s else s);
          (d1, r1) = eat_digits False s1;
          (d2, r2) = (if take 1 r1 = ''.'' then eat_digits False (tl r1) else (False, r1));
          e = (if take 1 r2 = ''e'' then tl r2 else []); e1 = (if take 1 e = ''+'' \<or> take 1 e = ''-'' then tl e else e);
          (d3, r3) = eat_digits False e1
      in s1 = ''inf'' \<or> s1 = ''infinity'' \<or> s1 = ''nan'' \<or> ((d1 \<or> d2) \<and> (r2 = [] \<or> (take 1 r2 = ''e'' \<and> d3 \<and> r3 = []))))"

datatype fnum = Fin rat | PosInf | NegInf | NaN

definition py_float :: "string \<Rightarrow> fnum option" where
  \<comment> \<open>\<open>float(text)\<close>; a finite value is kept as the decimal that was written\<close>
  "py_float s0 =
     (if \<not> py_float_ok s0 then None
      else (let s = filter (\<lambda>c. c \<noteq> CHR ''_'') (lower (strip s0)); neg = (take 1 s = ''-'');
                s1 = (if take 1 s = ''+'' \<or> take 1 s = ''-'' then tl s else s)
            in if s1 = ''nan'' then Some NaN
               else if s1 = ''inf'' \<or> s1 = ''infinity'' then Some (if neg then NegInf else PosInf)
               else (let ds = takeWhile is_digit s1; r1 = drop (length ds) s1;
                         fs = (if take 1 r1 = ''.'' then takeWhile is_digit (tl r1) else []);
                         r2 = (if take 1 r1 = ''.'' then drop (length fs) (tl r1) else r1);
                         e = tl r2; e1 = (if take 1 e = ''+'' \<or> take 1 e = ''-'' then tl e else e); x = digits_nat e1;
                         m = of_nat (digits_nat (ds @ fs)) / 10 ^ length fs :: rat;
                         v = (if r2 = [] then m else if take 1 e = ''-'' then m / 10 ^ x else m * 10 ^ x)
                     in Some (Fin (if neg then - v else v)))))"

section \<open>What is written can be read\<close>

lemma hex_val_hex_char: "n < 16 \<Longrightarrow> hex_val (hex_char n) = Some n"
  by (auto simp: hex_val_def hex_char_def Let_def)

lemma unicode_escape_control:
  assumes "n < 32"
  shows "unicode_escape (CHR ''0'' # CHR ''0'' # hex_char (n div 16) # hex_char (n mod 16) # r) = Some ([char_of n], r)"
proof -
  have h0: "hex_val (CHR ''0'') = Some 0" by (simp add: hex_val_def)
  have "hex4 (CHR ''0'' # CHR ''0'' # hex_char (n div 16) # hex_char (n mod 16) # r) = Some (n, r)"
    using assms by (simp add: hex4_def h0 hex_val_hex_char)
  with assms show ?thesis by (simp add: unicode_escape_def utf8_def)
qed

lemma json_str_esc:
  "json_str (Suc (length t) + n) (concat (map json_esc t) @ CHR 0x22 # r) = Some (t, r)"
proof (induction t)
  case (Cons c t)
  let ?n = "of_char c :: nat"
  show ?case
  proof (cases "c = CHR 0x22 \<or> c = CHR 0x5C \<or> ?n < 32")
    case False
    then show ?thesis using Cons by (auto simp: json_esc_def [of c] Let_def)
  next
    case True
    consider "c = CHR 0x22 \<or> c = CHR 0x5C" | "?n \<in> {8, 9, 10, 12, 13}" | "?n < 32" "?n \<notin> {8, 9, 10, 12, 13}" using True by blast
    then show ?thesis
    proof cases
      case 1
      then show ?thesis using Cons by (auto simp: json_esc_def [of c] json_escape_def)
    next
      case 2
      then have "?n = of_char (CHR 0x08) \<or> ?n = of_char (CHR 0x09) \<or> ?n = of_char (CHR 0x0A) \<or> ?n = of_char (CHR 0x0C) \<or> ?n = of_char (CHR 0x0D)"
        by auto
      then have "c \<in> {CHR 0x08, CHR 0x09, CHR 0x0A, CHR 0x0C, CHR 0x0D}" by (simp only: of_char_eq_iff insert_iff empty_iff simp_thms)
      then show ?thesis using Cons by (auto simp: json_esc_def [of c] json_escape_def)
    next
      case 3
      then have "c \<noteq> CHR 0x22" "c \<noteq> CHR 0x5C" by auto
      with 3 show ?thesis
        using Cons unicode_escape_control [of ?n "concat (map json_esc t) @ CHR 0x22 # r"]
        by (auto simp: json_esc_def [of c] json_escape_def Let_def)
    qed
  qed
qed simp

lemma json_esc_ne: "json_esc c \<noteq> []"
  by (auto simp: json_esc_def Let_def)

lemma length_quote: "length t \<le> length (concat (map json_esc t))"
proof (induction t)
  case (Cons c t)
  have "0 < length (json_esc c)" using json_esc_ne by simp
  with Cons show ?case by (simp del: length_greater_0_conv)
qed simp

lemma json_str_quote:
  assumes "length (concat (map json_esc t)) < n"
  shows "json_str n (concat (map json_esc t) @ CHR 0x22 # r) = Some (t, r)"
  using json_str_esc [of t "n - Suc (length t)" r] assms length_quote [of t] by simp

lemma json_val_quote [simp]: "json_val (Suc n) (json_quote t @ r) = Some (PStr t, r)"
  by (simp add: json_quote_def json_str_quote del: length_concat)

lemma json_member_quote:
  "json_members (Suc (Suc n)) acc (json_quote k @ '': '' @ json_quote v @ '','' @ '' '' @ CHR 0x22 # r) =
     json_members (Suc n) (dset acc k (PStr v)) (CHR 0x22 # r)"
  "json_members (Suc (Suc n)) acc (json_quote k @ '': '' @ json_quote v @ ''}'' @ r) = Some (PDict (dset acc k (PStr v)), r)"
proof -
  have c [simp]: "skip_ws (CHR '':'' # x) = CHR '':'' # x" "skip_ws (CHR '','' # x) = CHR '','' # x" "skip_ws (CHR ''}'' # x) = CHR ''}'' # x"
    "skip_ws (CHR '' '' # x) = skip_ws x" "skip_ws (CHR 0x22 # x) = CHR 0x22 # x" for x
    by (simp_all add: skip_ws_def json_ws_def)
  show "json_members (Suc (Suc n)) acc (json_quote k @ '': '' @ json_quote v @ '','' @ '' '' @ CHR 0x22 # r) =
     json_members (Suc n) (dset acc k (PStr v)) (CHR 0x22 # r)"
    by (subst json_members.simps) (simp add: json_quote_def json_str_quote del: json_members.simps length_concat)
  show "json_members (Suc (Suc n)) acc (json_quote k @ '': '' @ json_quote v @ ''}'' @ r) = Some (PDict (dset acc k (PStr v)), r)"
    by (subst json_members.simps) (simp add: json_quote_def json_str_quote del: json_members.simps length_concat)
qed

lemma json_loads_two:
  assumes "a \<noteq> b"
  shows "json_loads (json_dumps (PDict [(a, PStr x), (b, PStr y)])) = Some (PDict [(a, PStr x), (b, PStr y)])"
proof -
  let ?m = "json_quote a @ '': '' @ json_quote x @ '','' @ '' '' @ json_quote b @ '': '' @ json_quote y @ ''}''"
  have t: "json_dumps (PDict [(a, PStr x), (b, PStr y)]) = CHR ''{'' # ?m" by simp
  have ws: "skip_ws ?m = ?m" "take 1 ?m = [CHR 0x22]" by (simp_all add: json_quote_def skip_ws_def json_ws_def)
  have q: "json_quote b @ z = CHR 0x22 # tl (json_quote b @ z)" for z by (simp add: json_quote_def)
  have "\<exists>j. length ?m = Suc (Suc j)" by (simp add: json_quote_def)
  then obtain j where j: "length ?m = Suc (Suc j)" by blast
  have "json_members (Suc (Suc (Suc j))) [] ?m = json_members (Suc (Suc j)) [(a, PStr x)] (json_quote b @ '': '' @ json_quote y @ ''}'')"
    using json_member_quote(1) [of "Suc j" "[]" a x "tl (json_quote b @ '': '' @ json_quote y @ ''}'')"] by (simp only: q [symmetric] dset.simps)
  also have "\<dots> = Some (PDict [(a, PStr x), (b, PStr y)], [])"
    using json_member_quote(2) [of j "[(a, PStr x)]" b y "[]"] assms by simp
  finally have "json_val (Suc (length (CHR ''{'' # ?m))) (CHR ''{'' # ?m) = Some (PDict [(a, PStr x), (b, PStr y)], [])"
    using ws j by (simp del: json_members.simps append_Cons)
  then show ?thesis unfolding json_loads_def t by (simp add: skip_ws_def json_ws_def)
qed

end
