(* ===== verification/Lub_Cooldown.thy ===== *)
theory Lub_Cooldown
  imports Lub_Ledger Lub_Json
begin

text \<open>
  The cooldown store of \<open>RedisLimitBackend\<close>: account and account-model freezes as string keys whose
  TTL is the remaining time (no TTL: a permanent freeze), the index sets that list who is frozen,
  and the readers used to restore and to display freezes. Every command is one \<open>call\<close>; an exception
  ends the \<open>try\<close> block it is raised in, which is what \<open>and_then\<close> expresses. A full \<open>scan_iter\<close> and a
  pipeline are one call each.
\<close>

section \<open>Commands in sequence\<close>

definition and_then :: "'s conn \<times> 'a option \<Rightarrow> ('a \<Rightarrow> 's conn \<Rightarrow> 's conn \<times> 'b option) \<Rightarrow> 's conn \<times> 'b option" where
  "and_then r f = (case r of (c, None) \<Rightarrow> (c, None) | (c, Some a) \<Rightarrow> f a c)"

definition cmd :: "'s redis \<Rightarrow> rcmd \<Rightarrow> 's conn \<Rightarrow> 's conn \<times> unit option" where
  "cmd R x = call (\<lambda>s. (r_exec R x s, ()))"

definition cmds :: "'s redis \<Rightarrow> rcmd list \<Rightarrow> 's conn \<Rightarrow> 's conn \<times> unit option" where
  \<comment> \<open>one command with several keys or members, or one pipeline\<close>
  "cmds R xs = call (\<lambda>s. (fold (r_exec R) xs s, ()))"

definition read :: "('s \<Rightarrow> 'a) \<Rightarrow> 's conn \<Rightarrow> 's conn \<times> 'a option" where
  "read f = call (\<lambda>s. (s, f s))"

section \<open>Keys\<close>

definition INDEX_PROVIDERS :: key where
  "INDEX_PROVIDERS = ''limit:cooldown_index:providers''"

definition MODEL_SEP :: char where
  "MODEL_SEP = CHR 0x1F"

definition index_accounts_key :: "string \<Rightarrow> key" where
  "index_accounts_key provider = ''limit:cooldown_index:'' @ provider @ '':accounts''"

definition index_models_key :: "string \<Rightarrow> key" where
  "index_models_key provider = ''limit:cooldown_index:'' @ provider @ '':models''"

definition cooldown_key :: "string \<Rightarrow> string \<Rightarrow> key" where
  "cooldown_key provider username = ''limit:cooldown:'' @ provider @ '':'' @ username"

definition model_cooldown_key :: "string \<Rightarrow> string \<Rightarrow> string \<Rightarrow> key" where
  "model_cooldown_key provider username mid = cooldown_key provider username @ '':model:'' @ mid"

definition member_of :: "string \<Rightarrow> string \<Rightarrow> string" where
  "member_of username mid = username @ [MODEL_SEP] @ mid"

definition split_member :: "string \<Rightarrow> (string \<times> string) option" where
  \<comment> \<open>at the first separator; both parts must be non-empty\<close>
  "split_member m = (if MODEL_SEP \<notin> set m then None
     else (let u = takeWhile (\<lambda>c. c \<noteq> MODEL_SEP) m; mid = tl (dropWhile (\<lambda>c. c \<noteq> MODEL_SEP) m)
           in if u = [] \<or> mid = [] then None else Some (u, mid)))"

section \<open>The index\<close>

definition index_mark :: "'s redis \<Rightarrow> string \<Rightarrow> string \<Rightarrow> string option \<Rightarrow> 's conn \<Rightarrow> 's conn" where
  "index_mark R provider username mid c =
     (if \<not> conn_client c \<or> provider = [] \<or> username = [] then c
      else (let k = be_key (conn_prefix c)
            in fst (and_then
                 (case mid of
                    None \<Rightarrow> cmd R (SADD (k (index_accounts_key provider)) username) c
                  | Some m \<Rightarrow> (if m \<noteq> [] then cmd R (SADD (k (index_models_key provider)) (member_of username m)) c else (c, Some ())))
                 (\<lambda>_. cmd R (SADD (k INDEX_PROVIDERS) provider)))))"

definition index_prune_provider :: "'s redis \<Rightarrow> string \<Rightarrow> 's conn \<Rightarrow> 's conn" where
  "index_prune_provider R provider c =
     (if \<not> conn_client c \<or> provider = [] then c
      else (let k = be_key (conn_prefix c)
            in fst (and_then (read (\<lambda>s. r_scard R s (k (index_accounts_key provider))) c) (\<lambda>acc.
                 \<lambda>c1. and_then (read (\<lambda>s. r_scard R s (k (index_models_key provider))) c1) (\<lambda>mdl.
                 \<lambda>c2. if acc = 0 \<and> mdl = 0 then cmd R (SREM (k INDEX_PROVIDERS) provider) c2 else (c2, Some ()))))))"

definition index_unmark_account :: "'s redis \<Rightarrow> string \<Rightarrow> string \<Rightarrow> 's conn \<Rightarrow> 's conn" where
  "index_unmark_account R provider username c =
     (if \<not> conn_client c \<or> provider = [] \<or> username = [] then c
      else (let acc = be_key (conn_prefix c) (index_accounts_key provider); mdl = be_key (conn_prefix c) (index_models_key provider)
            in fst (and_then (cmd R (SREM acc username) c) (\<lambda>_.
                 \<lambda>c1. and_then (read (\<lambda>s. r_smembers R s mdl) c1) (\<lambda>members.
                 \<lambda>c2. let gone = filter (\<lambda>m. startswith m (username @ [MODEL_SEP])) members
                      in and_then (if gone \<noteq> [] then cmds R (map (SREM mdl) gone) c2 else (c2, Some ())) (\<lambda>_.
                 \<lambda>c3. (index_prune_provider R provider c3, Some ())))))))"

definition index_unmark_model :: "'s redis \<Rightarrow> string \<Rightarrow> string \<Rightarrow> string \<Rightarrow> 's conn \<Rightarrow> 's conn" where
  "index_unmark_model R provider username mid c =
     (if \<not> conn_client c \<or> provider = [] \<or> username = [] \<or> mid = [] then c
      else fst (and_then (cmd R (SREM (be_key (conn_prefix c) (index_models_key provider)) (member_of username mid)) c)
             (\<lambda>_ c1. (index_prune_provider R provider c1, Some ()))))"

definition index_clear_provider :: "'s redis \<Rightarrow> string \<Rightarrow> 's conn \<Rightarrow> 's conn" where
  "index_clear_provider R provider c =
     (if \<not> conn_client c \<or> provider = [] then c
      else fst (and_then (cmd R (DEL (get_key (conn_prefix c) (index_accounts_key provider))) c) (\<lambda>_.
             \<lambda>c1. and_then (cmd R (DEL (get_key (conn_prefix c) (index_models_key provider))) c1) (\<lambda>_.
             cmd R (SREM (be_key (conn_prefix c) INDEX_PROVIDERS) provider)))))"

section \<open>Writing a cooldown\<close>

definition cooldown_value :: "string \<Rightarrow> string \<Rightarrow> string" where
  "cooldown_value reason category =
     (if category \<noteq> [] then json_dumps (PDict [(''reason'', PStr reason), (''category'', PStr category)]) else reason)"

definition set_key :: "'s redis \<Rightarrow> key \<Rightarrow> string \<Rightarrow> int option \<Rightarrow> 's conn \<Rightarrow> 's conn \<times> unit option" where
  "set_key R k v seconds = (case seconds of None \<Rightarrow> cmd R (SETP k (HStr v)) | Some n \<Rightarrow> cmd R (SETEX k (HStr v) n))"

definition set_account_cooldown ::
  "'s redis \<Rightarrow> string \<Rightarrow> string \<Rightarrow> int option \<Rightarrow> string \<Rightarrow> string \<Rightarrow> 's conn \<Rightarrow> 's conn" where
  "set_account_cooldown R provider username seconds reason category c =
     (if \<not> conn_client c \<or> (case seconds of Some n \<Rightarrow> n \<le> 0 | None \<Rightarrow> False) then c
      else fst (and_then (set_key R (get_key (conn_prefix c) (cooldown_key provider username)) (cooldown_value reason category) seconds c)
             (\<lambda>_ c1. (index_mark R provider username None c1, Some ()))))"

definition set_account_model_cooldown ::
  "'s redis \<Rightarrow> string \<Rightarrow> string \<Rightarrow> string \<Rightarrow> int option \<Rightarrow> string \<Rightarrow> 's conn \<Rightarrow> 's conn" where
  "set_account_model_cooldown R provider username mid seconds reason c =
     (if \<not> conn_client c \<or> (case seconds of Some n \<Rightarrow> n \<le> 0 | None \<Rightarrow> False) then c
      else fst (and_then (set_key R (get_key (conn_prefix c) (model_cooldown_key provider username mid)) reason seconds c)
             (\<lambda>_ c1. (index_mark R provider username (Some mid) c1, Some ()))))"

section \<open>Reading a cooldown\<close>

definition stored_text :: "hval option \<Rightarrow> string" where
  \<comment> \<open>\<open>str(raw or "")\<close> of the stored bytes\<close>
  "stored_text v = (case v of
      None \<Rightarrow> [] | Some (HStr t) \<Rightarrow> t | Some (HNum n) \<Rightarrow> int_str n
    | Some (HJson d) \<Rightarrow> json_dumps (PDict (map (\<lambda>(k, t). (k, PStr t)) d)))"

definition json_field :: "string \<Rightarrow> string \<Rightarrow> string" where
  \<comment> \<open>\<open>str(json.loads(value).get(field) or "")\<close>, empty if anything raises\<close>
  "json_field value field = (case json_loads value of
      Some (PDict d) \<Rightarrow> py_str (py_or (dget d field) (PStr ''''))
    | _ \<Rightarrow> [])"

definition looks_json :: "string \<Rightarrow> bool" where
  "looks_json value \<longleftrightarrow> startswith (strip value) ''{''"

definition parse_reason :: "string \<Rightarrow> string" where
  "parse_reason value = (if looks_json value then json_field value ''reason'' else if py_float_ok value then [] else value)"

definition parse_category :: "string \<Rightarrow> string" where
  "parse_category value = (if looks_json value then json_field value ''category'' else [])"

record cooldown_info =
  ci_until :: "time option"
  ci_remaining :: "int option"
  ci_reason :: string
  ci_category :: string
  ci_permanent :: bool

definition info_of :: "time \<Rightarrow> int \<Rightarrow> string \<Rightarrow> string \<Rightarrow> cooldown_info option" where
  "info_of now ttl reason category =
     (if ttl = -1 then Some \<lparr>ci_until = None, ci_remaining = None, ci_reason = reason, ci_category = category, ci_permanent = True\<rparr>
      else if 0 < ttl then Some \<lparr>ci_until = Some (now + of_int ttl), ci_remaining = Some ttl, ci_reason = reason,
                                ci_category = category, ci_permanent = False\<rparr>
      else None)"

definition read_value :: "'s redis \<Rightarrow> key \<Rightarrow> 's conn \<Rightarrow> 's conn \<times> (string \<times> int) option" where
  \<comment> \<open>\<open>redis.get(key)\<close>, which adds the prefix, then \<open>redis.ttl(cls._key(key))\<close>\<close>
  "read_value R k c =
     and_then (read (\<lambda>s. r_get R s (get_key (conn_prefix c) k)) c) (\<lambda>raw.
       \<lambda>c1. and_then (read (\<lambda>s. r_ttl R s (be_key (conn_prefix c) k)) c1) (\<lambda>ttl c2. (c2, Some (stored_text raw, ttl))))"

definition get_account_cooldown_info :: "'s redis \<Rightarrow> time \<Rightarrow> string \<Rightarrow> string \<Rightarrow> 's conn \<Rightarrow> 's conn \<times> cooldown_info option" where
  "get_account_cooldown_info R now provider username c =
     (if \<not> conn_client c then (c, None)
      else and_then (read_value R (cooldown_key provider username) c)
             (\<lambda>(v, ttl) c1. (c1, info_of now ttl (parse_reason v) (parse_category v))))"

definition get_account_cooldown_until :: "'s redis \<Rightarrow> time \<Rightarrow> string \<Rightarrow> string \<Rightarrow> 's conn \<Rightarrow> 's conn \<times> time option" where
  "get_account_cooldown_until R now provider username c =
     (case get_account_cooldown_info R now provider username c of (c1, i) \<Rightarrow> (c1, Option.bind i ci_until))"

definition get_account_cooldown_remaining :: "'s redis \<Rightarrow> time \<Rightarrow> string \<Rightarrow> string \<Rightarrow> 's conn \<Rightarrow> 's conn \<times> (pyerror + int)" where
  "get_account_cooldown_remaining R now provider username c =
     (case get_account_cooldown_info R now provider username c of
        (c1, None) \<Rightarrow> (c1, Inr 0)
      | (c1, Some i) \<Rightarrow> (c1, if ci_permanent i then Inr (-1) else case ci_remaining i of Some n \<Rightarrow> Inr n | None \<Rightarrow> Inl TypeError))"

definition get_account_model_cooldown_info ::
  "'s redis \<Rightarrow> time \<Rightarrow> string \<Rightarrow> string \<Rightarrow> string \<Rightarrow> 's conn \<Rightarrow> 's conn \<times> cooldown_info option" where
  "get_account_model_cooldown_info R now provider username mid c =
     (if \<not> conn_client c then (c, None)
      else and_then (read_value R (model_cooldown_key provider username mid) c) (\<lambda>(v, ttl) c1. (c1, info_of now ttl v '''')))"

definition get_account_model_cooldown_remaining ::
  "'s redis \<Rightarrow> time \<Rightarrow> string \<Rightarrow> string \<Rightarrow> string \<Rightarrow> 's conn \<Rightarrow> 's conn \<times> (pyerror + int)" where
  \<comment> \<open>\<open>int(info["remaining"]) if info else 0\<close>\<close>
  "get_account_model_cooldown_remaining R now provider username mid c =
     (case get_account_model_cooldown_info R now provider username mid c of
        (c1, None) \<Rightarrow> (c1, Inr 0)
      | (c1, Some i) \<Rightarrow> (c1, case ci_remaining i of Some n \<Rightarrow> Inr n | None \<Rightarrow> Inl TypeError))"

section \<open>Clearing\<close>

definition delete_each :: "'s redis \<Rightarrow> key list \<Rightarrow> 's conn \<Rightarrow> 's conn \<times> int" where
  \<comment> \<open>one by one, each failure ignored; how many went through\<close>
  "delete_each R ks c = fold (\<lambda>k (c, n). case cmd R (DEL (get_key (conn_prefix c) k)) c of
      (c1, Some _) \<Rightarrow> (c1, n + 1) | (c1, None) \<Rightarrow> (c1, n)) ks (c, 0)"

definition delete_matching :: "'s redis \<Rightarrow> string \<Rightarrow> 's conn \<Rightarrow> 's conn \<times> int" where
  \<comment> \<open>\<open>SCAN\<close> for the prefixed pattern, then \<open>DEL\<close> of the bare keys; the number of keys deleted\<close>
  "delete_matching R pattern c =
     (case read (\<lambda>s. r_scan R s (be_key (conn_prefix c) pattern)) c of
        (c1, None) \<Rightarrow> (c1, 0)
      | (c1, Some ks) \<Rightarrow>
          (let bare = map (bare_key (conn_prefix c)) ks
           in if bare = [] then (c1, 0)
              else (case cmds R (map (\<lambda>k. DEL (get_key (conn_prefix c) k)) bare) c1 of
                      (c2, Some _) \<Rightarrow> (c2, int (length bare))
                    | (c2, None) \<Rightarrow> delete_each R bare c2)))"

definition clear_account_cooldown :: "'s redis \<Rightarrow> string \<Rightarrow> string \<Rightarrow> 's conn \<Rightarrow> 's conn" where
  "clear_account_cooldown R provider username c =
     (if \<not> conn_client c then c
      else (let c1 = fst (cmd R (DEL (get_key (conn_prefix c) (cooldown_key provider username))) c);
                c2 = fst (delete_matching R (cooldown_key provider username @ '':model:*'') c1)
            in index_unmark_account R provider username c2))"

definition clear_all_provider_cooldowns :: "'s redis \<Rightarrow> string \<Rightarrow> 's conn \<Rightarrow> 's conn \<times> int" where
  "clear_all_provider_cooldowns R provider c =
     (if \<not> conn_client c then (c, 0)
      else (let (c1, n) = delete_matching R (''limit:cooldown:'' @ provider @ '':*'') c
            in (index_clear_provider R provider c1, n)))"

definition clear_account_model_cooldown :: "'s redis \<Rightarrow> string \<Rightarrow> string \<Rightarrow> string \<Rightarrow> 's conn \<Rightarrow> 's conn" where
  "clear_account_model_cooldown R provider username mid c =
     (if \<not> conn_client c then c
      else index_unmark_model R provider username mid
             (fst (cmd R (DEL (get_key (conn_prefix c) (model_cooldown_key provider username mid))) c)))"

section \<open>Batch readers\<close>

record model_status =
  ms_model :: string
  ms_info :: cooldown_info

definition append_at :: "(string \<times> 'a list) list \<Rightarrow> string \<Rightarrow> 'a \<Rightarrow> (string \<times> 'a list) list" where
  \<comment> \<open>\<open>d.setdefault(k, []).append(x)\<close>\<close>
  "append_at d k x = dset d k ((case map_of d k of None \<Rightarrow> [] | Some xs \<Rightarrow> xs) @ [x])"

definition whole_until :: "cooldown_info \<Rightarrow> cooldown_info" where
  \<comment> \<open>the overview reports \<open>int(now + remaining)\<close>\<close>
  "whole_until i = i\<lparr>ci_until := map_option (\<lambda>t. of_int (trunc t)) (ci_until i)\<rparr>"

definition ttl_and_get :: "'s redis \<Rightarrow> 's \<Rightarrow> key \<Rightarrow> int \<times> string" where
  "ttl_and_get R s k = (r_ttl R s k, stored_text (r_get R s k))"

definition batch_get_provider_model_cooldowns ::
  "'s redis \<Rightarrow> time \<Rightarrow> string \<Rightarrow> 's conn \<Rightarrow> 's conn \<times> (string \<times> model_status list) list" where
  "batch_get_provider_model_cooldowns R now provider c =
     (if \<not> conn_client c \<or> provider = [] then (c, [])
      else (let mdl = be_key (conn_prefix c) (index_models_key provider)
            in case read (\<lambda>s. r_smembers R s mdl) c of
                 (c1, None) \<Rightarrow> (c1, [])
               | (c1, Some members) \<Rightarrow>
                   (let ents = List.map_filter (\<lambda>m. map_option (\<lambda>(u, mid). (m, u, mid)) (split_member m)) members
                    in if ents = [] then (c1, [])
                       else (case read (\<lambda>s. map (\<lambda>(m, u, mid). ttl_and_get R s (be_key (conn_prefix c) (model_cooldown_key provider u mid))) ents) c1 of
                               (c2, None) \<Rightarrow> (c2, [])
                             | (c2, Some raws) \<Rightarrow>
                                 (let rows = map (\<lambda>((m, u, mid), ttl, v). (m, u, mid, info_of now ttl v '''')) (zip ents raws);
                                      stale = map fst (filter (\<lambda>(m, u, mid, i). i = None) rows);
                                      res = fold (\<lambda>(m, u, mid, i) d. case i of None \<Rightarrow> d
                                              | Some i' \<Rightarrow> append_at d u \<lparr>ms_model = mid, ms_info = whole_until i'\<rparr>) rows [];
                                      c3 = (if stale = [] then c2
                                            else fst (and_then (cmds R (map (SREM mdl) stale) c2)
                                                   (\<lambda>_ c'. (index_prune_provider R provider c', Some ()))))
                                  in (c3, res))))))"

definition batch_get_account_cooldowns ::
  "'s redis \<Rightarrow> time \<Rightarrow> string \<Rightarrow> string list \<Rightarrow> 's conn \<Rightarrow> 's conn \<times> (string \<times> cooldown_info) list" where
  \<comment> \<open>this reader reports no category\<close>
  "batch_get_account_cooldowns R now provider usernames c =
     (if \<not> conn_client c \<or> usernames = [] then (c, [])
      else (case read (\<lambda>s. map (\<lambda>u. ttl_and_get R s (be_key (conn_prefix c) (cooldown_key provider u))) usernames) c of
              (c1, None) \<Rightarrow> (c1, [])
            | (c1, Some raws) \<Rightarrow>
                (c1, fold (\<lambda>(u, ttl, v) d. case info_of now ttl (parse_reason v) '''' of None \<Rightarrow> d | Some i \<Rightarrow> dset d u i)
                       (zip usernames raws) [])))"

section \<open>The overview\<close>

datatype entry = AccountEntry string string | ModelEntry string string string

fun entry_key :: "entry \<Rightarrow> key" where
  "entry_key (AccountEntry p u) = cooldown_key p u"
| "entry_key (ModelEntry p u mid) = model_cooldown_key p u mid"

fun entry_provider :: "entry \<Rightarrow> string" where
  "entry_provider (AccountEntry p u) = p"
| "entry_provider (ModelEntry p u mid) = p"

definition index_entries :: "string \<Rightarrow> string list \<Rightarrow> string list \<Rightarrow> entry list" where
  "index_entries p accs mdls = map (AccountEntry p) (filter (\<lambda>u. u \<noteq> []) accs)
     @ List.map_filter (\<lambda>m. map_option (\<lambda>(u, mid). ModelEntry p u mid) (split_member m)) mdls"

record overview =
  ov_accounts :: "(string \<times> (string \<times> cooldown_info) list) list"
  ov_models :: "(string \<times> (string \<times> model_status list) list) list"

definition empty_overview :: overview where
  "empty_overview = \<lparr>ov_accounts = [], ov_models = []\<rparr>"

definition inner :: "(string \<times> 'a list) list \<Rightarrow> string \<Rightarrow> 'a list" where
  "inner d k = (case map_of d k of None \<Rightarrow> [] | Some x \<Rightarrow> x)"

definition overview_add :: "time \<Rightarrow> entry \<Rightarrow> int \<Rightarrow> string \<Rightarrow> overview \<Rightarrow> overview" where
  "overview_add now e ttl v ov =
     (case e of
        AccountEntry p u \<Rightarrow>
          (case info_of now ttl (parse_reason v) '''' of
             None \<Rightarrow> ov
           | Some i \<Rightarrow> ov\<lparr>ov_accounts := dset (ov_accounts ov) p (dset (inner (ov_accounts ov) p) u (whole_until i))\<rparr>)
      | ModelEntry p u mid \<Rightarrow>
          (case info_of now ttl v '''' of
             None \<Rightarrow> ov
           | Some i \<Rightarrow> ov\<lparr>ov_models := dset (ov_models ov) p (append_at (inner (ov_models ov) p) u \<lparr>ms_model = mid, ms_info = whole_until i\<rparr>)\<rparr>))"

definition live_ttl :: "int \<Rightarrow> bool" where
  \<comment> \<open>\<open>remaining <= 0\<close> marks an entry stale; a key without expiry has TTL -1\<close>
  "live_ttl ttl \<longleftrightarrow> 0 < ttl"

definition stale_accounts :: "(entry \<times> int) list \<Rightarrow> (string \<times> string list) list" where
  "stale_accounts es = fold (\<lambda>(e, ttl) d. case e of AccountEntry p u \<Rightarrow> if live_ttl ttl then d else append_at d p u | _ \<Rightarrow> d) es []"

definition stale_models :: "(entry \<times> int) list \<Rightarrow> (string \<times> string list) list" where
  "stale_models es = fold (\<lambda>(e, ttl) d. case e of ModelEntry p u mid \<Rightarrow> if live_ttl ttl then d else append_at d p (member_of u mid) | _ \<Rightarrow> d) es []"

definition drop_members :: "'s redis \<Rightarrow> (string \<Rightarrow> key) \<Rightarrow> (string \<times> string list) list \<Rightarrow> 's conn \<Rightarrow> 's conn" where
  \<comment> \<open>one \<open>SREM\<close> per provider, failures ignored\<close>
  "drop_members R key d c = fold (\<lambda>(p, ms) c. fst (cmds R (map (SREM (be_key (conn_prefix c) (key p))) ms) c)) d c"

definition scan_all_cooldowns :: "'s redis \<Rightarrow> time \<Rightarrow> 's conn \<Rightarrow> 's conn \<times> overview" where
  "scan_all_cooldowns R now c =
     (if \<not> conn_client c then (c, empty_overview)
      else (let k = be_key (conn_prefix c)
            in case read (\<lambda>s. r_smembers R s (k INDEX_PROVIDERS)) c of
                 (c1, None) \<Rightarrow> (c1, empty_overview)
               | (c1, Some ps0) \<Rightarrow>
                   (let ps = filter (\<lambda>p. p \<noteq> []) ps0
                    in if ps = [] then (c1, empty_overview)
                       else (case read (\<lambda>s. concat (map (\<lambda>p. index_entries p (r_smembers R s (k (index_accounts_key p)))
                                                        (r_smembers R s (k (index_models_key p)))) ps)) c1 of
                               (c2, None) \<Rightarrow> (c2, empty_overview)
                             | (c2, Some es) \<Rightarrow>
                                 (if es = [] then (c2, empty_overview)
                                  else (case read (\<lambda>s. map (\<lambda>e. ttl_and_get R s (k (entry_key e))) es) c2 of
                                          (c3, None) \<Rightarrow> (c3, empty_overview)
                                        | (c3, Some raws) \<Rightarrow>
                                            (let rows = zip es raws; ttls = map (\<lambda>(e, ttl, v). (e, ttl)) rows;
                                                 ov = fold (\<lambda>(e, ttl, v) ov. if live_ttl ttl then overview_add now e ttl v ov else ov) rows empty_overview;
                                                 sa = stale_accounts ttls; sm = stale_models ttls;
                                                 c4 = drop_members R index_models_key sm (drop_members R index_accounts_key sa c3)
                                             in (fold (index_prune_provider R) (remdups (map fst sa @ map fst sm)) c4, ov))))))))"

definition set_snapshot :: "'s redis \<Rightarrow> string \<Rightarrow> pydict \<Rightarrow> int \<Rightarrow> 's conn \<Rightarrow> 's conn" where
  "set_snapshot R k payload ttl c =
     (if \<not> conn_client c then c
      else fst (cmd R (SETEX (get_key (conn_prefix c) (''limit:snapshot:'' @ k)) (HStr (json_dumps (PDict payload))) ttl) c))"

definition get_snapshot :: "'s redis \<Rightarrow> string \<Rightarrow> 's conn \<Rightarrow> 's conn \<times> pyval option" where
  "get_snapshot R k c =
     (if \<not> conn_client c then (c, None)
      else and_then (read (\<lambda>s. r_get R s (get_key (conn_prefix c) (''limit:snapshot:'' @ k))) c)
             (\<lambda>raw c1. (c1, if stored_text raw = [] then None else json_loads (stored_text raw))))"

end
