(* ===== verification/Lub_LimitManager.thy ===== *)
theory Lub_LimitManager
  imports Lub_Windows Lub_Account Lub_Cooldown
begin

text \<open>
  \<open>limits/manager.py\<close>: the routing scope with its degradation flags, the hard deadline around
  Redis calls, and \<open>LimitManager\<close>, which decides whether an account may take a request, reserves
  it in the ledger, settles or rolls back the reservation and cleans up after uncertain outcomes.

  The manager's state \<open>mgr\<close> holds what the class keeps (active leases, scheduled cleanups, renewals)
  together with what its calls change elsewhere: the connection, the model cooldown mirror of
  \<open>ModelClientPool\<close> and the events published to other instances. A deadline that strikes is an
  argument (the elapsed milliseconds); whether the request took effect by then is a matter of the
  connection's faults. The cache of the routing scope is left out: nothing here reads it.
\<close>

section \<open>Routing scope\<close>

record timing =
  tm_redis_degraded :: bool
  tm_timeout_stage :: "string option"
  tm_timeout_ms :: "int option"
  tm_reservation_uncertain :: bool
  tm_denials :: "(string \<times> int) list"

record routing_state =
  rs_degraded :: bool
  rs_timeout_stage :: string
  rs_reserve_uncertain :: bool
  rs_timing :: "timing option"
  rs_token_estimate :: int

definition begin_routing_redis_scope :: "timing option \<Rightarrow> int \<Rightarrow> routing_state" where
  "begin_routing_redis_scope t estimate = \<lparr>rs_degraded = False, rs_timeout_stage = '''', rs_reserve_uncertain = False,
     rs_timing = t, rs_token_estimate = estimate\<rparr>"

definition set_default :: "'a option \<Rightarrow> 'a \<Rightarrow> 'a option" where
  "set_default cur v = (case cur of None \<Rightarrow> Some v | Some _ \<Rightarrow> cur)"

definition mark_routing_redis_degraded :: "string \<Rightarrow> int \<Rightarrow> routing_state option \<Rightarrow> routing_state option" where
  "mark_routing_redis_degraded stage elapsed_ms = map_option (\<lambda>s.
     s\<lparr>rs_degraded := True, rs_timeout_stage := (if rs_timeout_stage s = [] then stage else rs_timeout_stage s),
       rs_timing := map_option (\<lambda>t. t\<lparr>tm_redis_degraded := True, tm_timeout_stage := set_default (tm_timeout_stage t) stage,
                                      tm_timeout_ms := set_default (tm_timeout_ms t) elapsed_ms\<rparr>) (rs_timing s)\<rparr>)"

datatype cleanup =
    LedgerRollback string "string option" string "wids option"
  | FailedReservation string string "string option" "wids option"

datatype event =
    AccountCooldown string string time string
  | ModelTpmCooldown string time int

record 's mgr =
  mg_conn :: "'s conn"
  mg_routing :: "routing_state option"
  mg_active :: "(string \<times> limit_lease) list"
  mg_cleanups :: "cleanup list"
  mg_renewals :: "string list"
  mg_model_cooldowns :: "(string \<times> time) list"
  mg_published :: "event list"
  mg_aux_rejected :: nat

definition on_conn :: "('s conn \<Rightarrow> 's conn \<times> 'a) \<Rightarrow> 's mgr \<Rightarrow> 's mgr \<times> 'a" where
  "on_conn f m = (case f (mg_conn m) of (c, a) \<Rightarrow> (m\<lparr>mg_conn := c\<rparr>, a))"

definition routing_redis_call ::
  "string \<Rightarrow> bool \<Rightarrow> int option \<Rightarrow> ('s conn \<Rightarrow> 's conn \<times> 'a option) \<Rightarrow> 's mgr \<Rightarrow> 's mgr \<times> 'a option" where
  \<comment> \<open>\<open>deadline\<close>: \<open>Some ms\<close> if the deadline struck after that time\<close>
  "routing_redis_call stage skip_when_degraded deadline f m =
     (if skip_when_degraded \<and> (case mg_routing m of Some s \<Rightarrow> rs_degraded s | None \<Rightarrow> False) then (m, None)
      else (let (m1, r) = on_conn f m
            in case deadline of
                 None \<Rightarrow> (m1, r)
               | Some ms \<Rightarrow> (m1\<lparr>mg_routing := mark_routing_redis_degraded stage (max 1 ms) (mg_routing m1)\<rparr>, None)))"

definition aux_redis_call ::
  "bool \<Rightarrow> string \<Rightarrow> int option \<Rightarrow> ('s conn \<Rightarrow> 's conn \<times> 'a option) \<Rightarrow> 's mgr \<Rightarrow> 's mgr \<times> 'a option" where
  \<comment> \<open>\<open>locked\<close>: the semaphore has no permit left\<close>
  "aux_redis_call locked stage deadline f m =
     (if locked then (m\<lparr>mg_aux_rejected := mg_aux_rejected m + 1,
                        mg_routing := mark_routing_redis_degraded stage 0 (mg_routing m)\<rparr>, None)
      else routing_redis_call stage True deadline f m)"

section \<open>Availability\<close>

definition REQUEST_WINDOW_SECONDS :: int where "REQUEST_WINDOW_SECONDS = 60"
definition TOKEN_WINDOW_SECONDS :: int where "TOKEN_WINDOW_SECONDS = 60"
definition REQUEST_HOUR_SECONDS :: int where "REQUEST_HOUR_SECONDS = 3600"
definition TOKEN_HOUR_SECONDS :: int where "TOKEN_HOUR_SECONDS = 3600"
definition TOKEN_DAY_SECONDS :: int where "TOKEN_DAY_SECONDS = 86400"
definition CONCURRENCY_LEASE_SECONDS :: int where "CONCURRENCY_LEASE_SECONDS = 900"

definition seconds_until_day_end :: "calendar \<Rightarrow> time \<Rightarrow> int" where
  "seconds_until_day_end cal now = max 1 (trunc (to_midnight cal now))"

definition account_subject :: "account_client \<Rightarrow> string \<Rightarrow> limit_subject" where
  "account_subject a model_id = \<lparr>sub_provider = pv_name (ac_provider a), sub_account = pv_username (ac_provider a),
     sub_model = model_id, sub_routed_model = model_id, sub_api_key = None, sub_route_id = None\<rparr>"

definition deny :: "string \<Rightarrow> limit_decision" where
  "deny reason = decision False reason None []"

definition hard_state :: "time \<Rightarrow> account_client \<Rightarrow> limit_decision option" where
  \<comment> \<open>disabled, frozen, channel off: the first block of \<open>account_available_locked\<close>\<close>
  "hard_state now a =
     (if ac_disabled a then
        Some (decision False ''account_disabled'' None
          [(''message'', PStr (if ac_disable_reason a \<noteq> [] then ac_disable_reason a else ''account disabled''))])
      else if is_frozen now a then
        Some (if 0 < cooldown_remaining now a then decision False ''account_cooldown'' (Some (cooldown_remaining now a)) []
              else deny ''account_frozen'')
      else (case pv_channel (ac_provider a) of
              Some ch \<Rightarrow> if ch_enabled ch then None else Some (deny ''channel_disabled'')
            | None \<Rightarrow> None))"

definition soft_state :: "time \<Rightarrow> string option \<Rightarrow> account_client \<Rightarrow> account_client \<times> limit_decision option" where
  \<comment> \<open>frozen model and the quota mirror\<close>
  "soft_state now model_id a =
     (if opt_str model_id \<noteq> None \<and> is_model_frozen now (the model_id) a then (a, Some (deny ''account_model_cooldown''))
      else (let a1 = sync_provider_quota now a
            in (a1, if now < ac_quota_disabled_until a1 then Some (deny ''provider_quota_cooldown'')
                    else (case ac_daily_remaining a1 of
                            Some r \<Rightarrow> if r \<le> 0 then Some (deny ''provider_daily_quota_exhausted'') else None
                          | None \<Rightarrow> None))))"

definition trim_windows :: "time \<Rightarrow> account_client \<Rightarrow> account_client" where
  "trim_windows now a = a\<lparr>ac_requests := filter (\<lambda>t. now - t < of_int REQUEST_WINDOW_SECONDS) (ac_requests a),
     ac_token_usages := filter (\<lambda>(t, n). now - t < of_int TOKEN_WINDOW_SECONDS) (ac_token_usages a)\<rparr>"

definition quota_state :: "account_client \<Rightarrow> limit_decision option" where
  "quota_state a = (case pv_quotas (ac_provider a) of
      None \<Rightarrow> None
    | Some q \<Rightarrow> (case qv_dimensions q of None \<Rightarrow> None
        | Some ds \<Rightarrow> (case find is_exhausted ds of None \<Rightarrow> None
            | Some d \<Rightarrow> Some (decision False ''provider_quota_exhausted'' None [(''dimension'', PStr (dim_name d))]))))"

definition account_available_locked ::
  "time \<Rightarrow> string option \<Rightarrow> bool \<times> string \<Rightarrow> bool \<Rightarrow> account_client \<Rightarrow> account_client \<times> (pyerror + limit_decision)" where
  \<comment> \<open>\<open>check\<close>: what the provider's \<open>check_message_with_reason\<close> answers\<close>
  "account_available_locked now model_id check is_test a =
     (case (if is_test then None else hard_state now a) of
        Some d \<Rightarrow> (a, Inr d)
      | None \<Rightarrow> (case pv_is_init (ac_provider a) of
          None \<Rightarrow> (a, Inl AttributeError)
        | Some (Inl e) \<Rightarrow> (a, Inl e)
        | Some (Inr False) \<Rightarrow> (a, Inr (deny ''provider_not_initialized''))
        | Some (Inr True) \<Rightarrow>
            (case (if is_test then (a, None) else soft_state now model_id a) of
               (a1, Some d) \<Rightarrow> (a1, Inr d)
             | (a1, None) \<Rightarrow>
                 (let a2 = trim_windows now a1
                  in (a2, Inr (case quota_state a2 of
                        Some d \<Rightarrow> d
                      | None \<Rightarrow> (if opt_str model_id \<noteq> None \<and> \<not> fst check
                                then deny (if snd check \<noteq> [] then snd check else ''provider_message_quota_exceeded'')
                                else decision True '''' None [])))))))"

section \<open>acquire_account\<close>

definition record_reservation_denial :: "string \<Rightarrow> 's mgr \<Rightarrow> 's mgr" where
  "record_reservation_denial reason m = m\<lparr>mg_routing := map_option (\<lambda>s. s\<lparr>rs_timing := map_option (\<lambda>t.
     t\<lparr>tm_denials := dset (tm_denials t) reason ((case map_of (tm_denials t) reason of None \<Rightarrow> 0 | Some n \<Rightarrow> n) + 1)\<rparr>) (rs_timing s)\<rparr>)
     (mg_routing m)\<rparr>"

definition apply_model_tpm_cooldown_event :: "time \<Rightarrow> string \<Rightarrow> time \<Rightarrow> (string \<times> time) list \<Rightarrow> (string \<times> time) list" where
  "apply_model_tpm_cooldown_event now mid until cds =
     (if mid = [] then cds else if now < until then dset cds mid until else AList.delete mid cds)"

definition apply_model_tpm_freeze :: "time \<Rightarrow> string \<Rightarrow> int \<Rightarrow> int \<Rightarrow> 's mgr \<Rightarrow> 's mgr" where
  "apply_model_tpm_freeze now mid ttl used m =
     (if mid = [] \<or> ttl \<le> 0 then m
      else m\<lparr>mg_model_cooldowns := apply_model_tpm_cooldown_event now mid (now + of_int ttl) (mg_model_cooldowns m),
             mg_published := mg_published m @ [ModelTpmCooldown mid (now + of_int ttl) used]\<rparr>)"

definition freeze_account_local_and_broadcast :: "time \<Rightarrow> int \<Rightarrow> string \<Rightarrow> 's mgr \<times> account_client \<Rightarrow> 's mgr \<times> account_client" where
  "freeze_account_local_and_broadcast now seconds reason st =
     (case st of (m, a) \<Rightarrow>
       if seconds \<le> 0 then (m, a)
       else (m\<lparr>mg_published := mg_published m @
               [AccountCooldown (pv_name (ac_provider a)) (pv_username (ac_provider a)) (now + of_int seconds) reason]\<rparr>,
             fst (freeze now ''account'' None (Some seconds) reason True '''' a)))"

record acquire_in =
  ai_now :: time
  ai_model :: string
  ai_is_test :: bool
  ai_token_estimate :: int
  ai_check :: "bool \<times> string"
  ai_boot :: string
  ai_uuid :: string
  ai_model_tpm_limit :: int
  ai_allow_overflow :: bool
  ai_deadline :: "int option"

definition effective_limits :: "acquire_in \<Rightarrow> bool \<Rightarrow> account_client \<Rightarrow> account_client \<times> int \<times> int" where
  \<comment> \<open>the account with the limits in force, the model's TPM limit and the token amount; a test has none\<close>
  "effective_limits i test a =
     (if test then (a\<lparr>ac_rpm_limit := 0, ac_rpd_limit := 0, ac_rph_limit := 0, ac_tpm_limit := 0, ac_tph_limit := 0, ac_tpd_limit := 0\<rparr>, 0, 0)
      else (a, ai_model_tpm_limit i, max 0 (ai_token_estimate i)))"

definition acquire_params :: "calendar \<Rightarrow> acquire_in \<Rightarrow> bool \<Rightarrow> account_client \<Rightarrow> reserve_params" where
  "acquire_params cal i test a =
     (let (e, mtpm, amount) = effective_limits i test a; u = account_subject a (ai_model i);
          cool = ''limit:cooldown:'' @ sub_provider u @ '':'' @ sub_account u; day = seconds_until_day_end cal (ai_now i)
      in \<lparr>rp_account_key = account_key u, rp_lease_id = ''lease:'' @ ai_boot i @ '':'' @ ai_uuid i, rp_freeze_key = cool,
          rp_model_freeze_key = ''limit:model-tpm-freeze:'' @ ai_model i, rp_account_model_freeze_key = cool @ '':model:'' @ ai_model i,
          rp_concurrent_limit = ac_concurrent_limit a, rp_concurrency_ttl = CONCURRENCY_LEASE_SECONDS,
          rp_rpm_limit = ac_rpm_limit e, rp_rpm_ttl = REQUEST_WINDOW_SECONDS, rp_rpd_limit = ac_rpd_limit e, rp_rpd_ttl = day,
          rp_rph_limit = ac_rph_limit e, rp_rph_ttl = REQUEST_HOUR_SECONDS, rp_model_id = Some (ai_model i), rp_token_amount = amount,
          rp_tpm_limit = ac_tpm_limit e, rp_tpm_ttl = TOKEN_WINDOW_SECONDS, rp_tph_limit = ac_tph_limit e, rp_tph_ttl = TOKEN_HOUR_SECONDS,
          rp_tpd_limit = ac_tpd_limit e, rp_tpd_ttl = day, rp_model_tpm_limit = mtpm, rp_model_tpm_ttl = TOKEN_WINDOW_SECONDS,
          rp_allow_token_overflow = ai_allow_overflow i, rp_window_ids = Some (reservation_window_ids cal (ai_now i)),
          rp_skip_freeze_checks = test\<rparr>)"

definition has_token_limits :: "reserve_params \<Rightarrow> bool" where
  "has_token_limits P \<longleftrightarrow> 0 < rp_tpm_limit P \<or> 0 < rp_tph_limit P \<or> 0 < rp_tpd_limit P \<or> 0 < rp_model_tpm_limit P"

definition has_remote_limits :: "reserve_params \<Rightarrow> bool" where
  "has_remote_limits P \<longleftrightarrow> 0 < rp_concurrent_limit P \<or> 0 < rp_rpm_limit P \<or> 0 < rp_rpd_limit P \<or> 0 < rp_rph_limit P
     \<or> (0 < rp_token_amount P \<and> has_token_limits P)"

definition denial_reason :: "string \<Rightarrow> string" where
  "denial_reason r = (if r = ''frozen'' then ''account_frozen'' else if r = ''concurrent'' then ''concurrent_limit'' else r)"

definition on_denied :: "acquire_in \<Rightarrow> reserve_result \<Rightarrow> 's mgr \<times> account_client \<Rightarrow> ('s mgr \<times> account_client) \<times> limit_reservation" where
  "on_denied i r st =
     (case st of (m, a) \<Rightarrow>
       let br = (if res_reason r \<noteq> [] then res_reason r else ''limited''); reason = denial_reason br; ttl = res_ttl r;
           (m1, a1) =
             (if br = ''frozen'' \<and> 0 < ttl then (m, fst (freeze (ai_now i) ''account'' None (Some ttl) ''account limit cooling down'' True '''' a))
              else if br = ''model_frozen'' \<and> 0 < ttl then
                (m\<lparr>mg_model_cooldowns := apply_model_tpm_cooldown_event (ai_now i) (ai_model i) (ai_now i + of_int ttl) (mg_model_cooldowns m)\<rparr>, a)
              else if br = ''account_model_frozen'' \<and> 0 < ttl then
                (m, fst (freeze (ai_now i) ''account_model'' (Some (ai_model i)) (Some ttl) ''account limit cooling down'' True '''' a))
              else (m, a));
           retry = (if ttl \<noteq> 0 then Some ttl else if res_retry_after r \<noteq> 0 then Some (res_retry_after r) else None)
       in ((record_reservation_denial reason m1, a1),
           \<lparr>lres_lease = None, lres_decision = decision False reason retry
              [(''current'', PInt (res_concurrent_used r)), (''limit'', PInt (ac_concurrent_limit a)),
               (''scope'', PStr (if br = ''account_model_frozen'' then ''account_model'' else ''account''))]\<rparr>))"

definition touched :: string where
  \<comment> \<open>the UTF-8 text the source appends to the reason of a limit freeze\<close>
  "touched = [CHR '' '', CHR 0xE8, CHR 0xA7, CHR 0xA6, CHR 0xE7, CHR 0xBA, CHR 0xBF]"

definition on_admitted ::
  "acquire_in \<Rightarrow> reserve_params \<Rightarrow> limit_lease \<Rightarrow> reserve_result \<Rightarrow> 's mgr \<times> account_client \<Rightarrow> ('s mgr \<times> account_client) \<times> limit_reservation" where
  "on_admitted i P lease r st =
     (case st of (m, a) \<Rightarrow>
       let conc = 0 < rp_concurrent_limit P;
           lease1 = lease\<lparr>concurrency_acquired := conc, window_ids := Some (res_window_ids r),
              reserved_amounts := [(''rpm'', if 0 < rp_rpm_limit P then 1 else 0), (''rph'', if 0 < rp_rph_limit P then 1 else 0),
                (''rpd'', if 0 < rp_rpd_limit P then 1 else 0), (''tokens'', if has_token_limits P then rp_token_amount P else 0),
                (''tpm_limit'', rp_tpm_limit P), (''tph_limit'', rp_tph_limit P), (''tpd_limit'', rp_tpd_limit P),
                (''model_tpm_limit'', rp_model_tpm_limit P)],
              expires_at := (if 0 < res_lease_expires_at r then Some (of_int (res_lease_expires_at r)) else expires_at lease),
              renewal_task := conc\<rparr>;
           m1 = (if conc then m\<lparr>mg_active := dset (mg_active m) (lease_id lease) lease1, mg_renewals := mg_renewals m @ [lease_id lease]\<rparr> else m);
           (m2, a2) = (if res_reason r \<noteq> [] \<and> 0 < res_ttl r
                       then freeze_account_local_and_broadcast (ai_now i) (res_ttl r) (res_reason r @ touched) (m1, a) else (m1, a));
           m3 = (if 0 < res_model_tpm_freeze_ttl r
                 then apply_model_tpm_freeze (ai_now i) (ai_model i) (res_model_tpm_freeze_ttl r) (res_model_tpm r) m2 else m2)
       in ((m3, a2), \<lparr>lres_lease = Some lease1, lres_decision = decision True '''' None []\<rparr>))"

definition uncertain :: "pydict \<Rightarrow> limit_reservation" where
  "uncertain details = \<lparr>lres_lease = None, lres_decision = decision False ''redis_uncertain'' (Some 1) details\<rparr>"

definition on_uncertain :: "acquire_in \<Rightarrow> reserve_params \<Rightarrow> limit_lease \<Rightarrow> 's mgr \<Rightarrow> 's mgr \<times> limit_reservation" where
  "on_uncertain i P lease m =
     (if 0 < rp_concurrent_limit P then
        (let m1 = m\<lparr>mg_routing := map_option (\<lambda>s. s\<lparr>rs_reserve_uncertain := True,
                      rs_timing := map_option (\<lambda>t. t\<lparr>tm_reservation_uncertain := True\<rparr>) (rs_timing s)\<rparr>) (mg_routing m),
                    mg_cleanups := mg_cleanups m @ [FailedReservation (rp_account_key P) (lease_id lease) (rp_model_id P) (rp_window_ids P)]\<rparr>
         in (record_reservation_denial ''redis_uncertain'' m1,
             uncertain [(''stage'', PStr ''account_atomic_reserve''), (''cleanup_scheduled'', PBool True)]))
      else (m, \<lparr>lres_lease = Some (lease\<lparr>local_fallback := True\<rparr>), lres_decision = decision True '''' None []\<rparr>))"

definition acquire_account ::
  "'s redis \<Rightarrow> calendar \<Rightarrow> acquire_in \<Rightarrow> 's mgr \<times> account_client \<Rightarrow> ('s mgr \<times> account_client) \<times> (pyerror + limit_reservation)" where
  "acquire_account R cal i st =
     (case st of (m, a) \<Rightarrow>
       let test = (ai_is_test i \<or> ac_is_test a);
           (a1, avail) = (if test then (a, Inr (decision True '''' None []))
                          else account_available_locked (ai_now i) (Some (ai_model i)) (ai_check i) False a)
       in case avail of
            Inl e \<Rightarrow> ((m, a1), Inl e)
          | Inr d \<Rightarrow>
             (if \<not> ld_allowed d then ((m, a1), Inr \<lparr>lres_lease = None, lres_decision = d\<rparr>)
              else (let P = acquire_params cal i test a1;
                        lease = (lease_default (account_subject a1 (ai_model i)) (rp_lease_id P) (ai_now i))
                                  \<lparr>expires_at := Some (ai_now i + of_int CONCURRENCY_LEASE_SECONDS), reservation_id := rp_lease_id P, test_probe := test\<rparr>
                    in if 0 < rp_concurrent_limit P \<and> (case mg_routing m of Some s \<Rightarrow> rs_reserve_uncertain s | None \<Rightarrow> False)
                       then ((record_reservation_denial ''redis_uncertain'' m, a1),
                             Inr (uncertain [(''stage'', PStr ''account_atomic_reserve''), (''skipped'', PBool True)]))
                       else if \<not> has_remote_limits P
                       then ((m, a1), Inr \<lparr>lres_lease = Some lease, lres_decision = decision True '''' None []\<rparr>)
                       else (case routing_redis_call ''account_atomic_reserve'' False (ai_deadline i)
                                    (reserve_account_limits R cal (ai_now i) P) m of
                               (m1, Some r) \<Rightarrow>
                                 (if res_allowed r then (case on_admitted i P lease r (m1, a1) of (st', res) \<Rightarrow> (st', Inr res))
                                  else (case on_denied i r (m1, a1) of (st', res) \<Rightarrow> (st', Inr res)))
                             | (m1, None) \<Rightarrow> (case on_uncertain i P lease m1 of (m2, res) \<Rightarrow> ((m2, a1), Inr res))))))"

section \<open>Settlement\<close>

definition lease_rid :: "limit_lease \<Rightarrow> string" where
  "lease_rid l = (if reservation_id l \<noteq> [] then reservation_id l else lease_id l)"

definition amount_of :: "limit_lease \<Rightarrow> string \<Rightarrow> int" where
  "amount_of l k = (case map_of (reserved_amounts l) k of None \<Rightarrow> 0 | Some n \<Rightarrow> n)"

definition reconcile_params_of :: "limit_lease \<Rightarrow> int \<Rightarrow> reconcile_params" where
  "reconcile_params_of l actual =
     (let u = lease_subject l; mid = subject_model u
      in \<lparr>rcp_account_key = account_key u, rcp_model_id = Some mid, rcp_reservation_id = lease_rid l, rcp_actual_tokens = max 0 actual,
          rcp_account_tpm_limit = amount_of l ''tpm_limit'', rcp_account_tph_limit = amount_of l ''tph_limit'',
          rcp_account_tpd_limit = amount_of l ''tpd_limit'', rcp_model_tpm_limit = amount_of l ''model_tpm_limit'',
          rcp_window_ids = window_ids l,
          rcp_account_freeze_key = Some (''limit:cooldown:'' @ sub_provider u @ '':'' @ sub_account u),
          rcp_model_freeze_key = (if mid \<noteq> [] then Some (''limit:model-tpm-freeze:'' @ mid) else None)\<rparr>)"

definition mgr_reconcile ::
  "'s redis \<Rightarrow> calendar \<Rightarrow> time \<Rightarrow> int option \<Rightarrow> int \<Rightarrow> 's mgr \<times> limit_lease \<Rightarrow> ('s mgr \<times> limit_lease) \<times> reconcile_result option" where
  \<comment> \<open>\<open>LimitManager.reconcile_account_reservation\<close>; the lease object is returned updated\<close>
  "mgr_reconcile R cal now deadline actual st =
     (case st of (m, l) \<Rightarrow>
       if settled l \<or> rolled_back l then ((m, l), None)
       else if test_probe l \<or> lease_rid l = [] \<or> local_fallback l then ((m, l\<lparr>settled := True\<rparr>), None)
       else if amount_of l ''tokens'' = 0 \<and> actual \<le> 0 then
         ((m\<lparr>mg_conn := finalize_reservation R (lease_rid l) (mg_conn m)\<rparr>, l\<lparr>settled := True\<rparr>), None)
       else (let (m1, r) = routing_redis_call ''account_reservation_reconcile'' False deadline
                             (reconcile_account_reservation R cal now (reconcile_params_of l actual)) m;
                 mid = subject_model (lease_subject l)
             in case r of
                  None \<Rightarrow> ((m1, l\<lparr>settled := True\<rparr>), None)
                | Some res \<Rightarrow>
                    (let m2 = m1\<lparr>mg_conn := finalize_reservation R (lease_rid l) (mg_conn m1)\<rparr>;
                         used = (case map_of (rcr_used res) ''model_tpm'' of Some (Some n) \<Rightarrow> n | _ \<Rightarrow> 0)
                     in ((if 0 < rcr_model_freeze_ttl res \<and> mid \<noteq> []
                          then apply_model_tpm_freeze now mid (rcr_model_freeze_ttl res) used m2 else m2, l\<lparr>settled := True\<rparr>), Some res))))"

definition mgr_rollback ::
  "'s redis \<Rightarrow> calendar \<Rightarrow> time \<Rightarrow> int option \<Rightarrow> 's mgr \<times> limit_lease \<Rightarrow> ('s mgr \<times> limit_lease) \<times> int option" where
  \<comment> \<open>\<open>LimitManager.rollback_account_reservation\<close>\<close>
  "mgr_rollback R cal now deadline st =
     (case st of (m, l) \<Rightarrow>
       if rolled_back l \<or> settled l then ((m, l), None)
       else if test_probe l \<or> lease_rid l = [] \<or> local_fallback l then ((m, l\<lparr>rolled_back := True\<rparr>), None)
       else (let u = lease_subject l; mid = Some (subject_model u);
                 (m1, r) = routing_redis_call ''account_reservation_rollback'' False deadline
                             (rollback_account_reservation R cal now (account_key u) mid (lease_rid l) (window_ids l)) m;
                 m2 = (if r = None then m1\<lparr>mg_cleanups := mg_cleanups m1 @ [LedgerRollback (account_key u) mid (lease_rid l) (window_ids l)]\<rparr> else m1)
             in ((m2, l\<lparr>rolled_back := True\<rparr>), r)))"

definition CLEANUP_DELAYS :: "rat list" where
  "CLEANUP_DELAYS = [1 / 4, 1, 3]"

definition pass_time :: "'s redis \<Rightarrow> rat \<Rightarrow> 's mgr \<Rightarrow> 's mgr" where
  "pass_time R d m = m\<lparr>mg_conn := (mg_conn m)\<lparr>conn_store := r_elapse R d (conn_store (mg_conn m))\<rparr>\<rparr>"

fun retry_ledger_rollback ::
  "'s redis \<Rightarrow> calendar \<Rightarrow> time \<Rightarrow> string \<Rightarrow> string option \<Rightarrow> string \<Rightarrow> wids option \<Rightarrow> (rat \<times> int option) list \<Rightarrow> 's mgr \<Rightarrow> 's mgr \<times> bool" where
  \<comment> \<open>one attempt after each delay, each with its own deadline outcome, until one is answered\<close>
  "retry_ledger_rollback R cal now ak mid rid w [] m = (m, False)"
| "retry_ledger_rollback R cal now ak mid rid w ((delay, deadline) # rest) m =
     (let (m1, r) = routing_redis_call ''account_reservation_rollback_retry'' False deadline
                      (rollback_account_reservation R cal (now + delay) ak mid rid w) (pass_time R delay m)
      in if r \<noteq> None then (m1, True) else retry_ledger_rollback R cal (now + delay) ak mid rid w rest m1)"

fun cleanup_release :: "'s redis \<Rightarrow> string \<Rightarrow> string \<Rightarrow> (rat \<times> int option) list \<Rightarrow> 's mgr \<Rightarrow> 's mgr" where
  "cleanup_release R ak lease [] m = m"
| "cleanup_release R ak lease ((delay, deadline) # rest) m =
     (let (m1, r) = routing_redis_call ''account_failed_reservation_cleanup'' False deadline
                      (release_account_reservation R ak lease) (pass_time R delay m)
      in if r = Some True then m1 else cleanup_release R ak lease rest m1)"

definition cleanup_failed_reservation ::
  "'s redis \<Rightarrow> calendar \<Rightarrow> time \<Rightarrow> int option \<Rightarrow> int option list \<Rightarrow> string \<Rightarrow> string \<Rightarrow> string option \<Rightarrow> wids option \<Rightarrow> 's mgr \<Rightarrow> 's mgr" where
  "cleanup_failed_reservation R cal now deadline dls ak lease mid w m =
     (let (m1, _) = routing_redis_call ''account_failed_reservation_ledger_rollback'' False deadline
                      (rollback_account_reservation R cal now ak mid lease w) m
      in cleanup_release R ak lease (zip CLEANUP_DELAYS dls) m1)"

definition run_cleanup :: "'s redis \<Rightarrow> calendar \<Rightarrow> time \<Rightarrow> int option \<Rightarrow> int option list \<Rightarrow> cleanup \<Rightarrow> 's mgr \<Rightarrow> 's mgr" where
  \<comment> \<open>the body of a scheduled task\<close>
  "run_cleanup R cal now deadline dls t m = (case t of
      LedgerRollback ak mid rid w \<Rightarrow> fst (retry_ledger_rollback R cal now ak mid rid w (zip CLEANUP_DELAYS dls) m)
    | FailedReservation ak lease mid w \<Rightarrow> cleanup_failed_reservation R cal now deadline dls ak lease mid w m)"

section \<open>Leases\<close>

definition renew_account_lease :: "'s redis \<Rightarrow> time \<Rightarrow> int option \<Rightarrow> string \<Rightarrow> 's mgr \<Rightarrow> 's mgr" where
  \<comment> \<open>one turn of the loop, after its sleep\<close>
  "renew_account_lease R now deadline lid m =
     (case map_of (mg_active m) lid of
        None \<Rightarrow> m
      | Some l \<Rightarrow> (let (m1, r) = routing_redis_call ''account_concurrency_renew'' False deadline
                                  (renew_account_reservation R now (account_key (lease_subject l)) lid CONCURRENCY_LEASE_SECONDS) m
                  in case r of Some e \<Rightarrow> m1\<lparr>mg_active := dset (mg_active m1) lid (l\<lparr>expires_at := Some e\<rparr>)\<rparr> | None \<Rightarrow> m1))"

definition detach_account_lease_locked :: "string option \<Rightarrow> account_client \<Rightarrow> account_client \<times> limit_lease option" where
  "detach_account_lease_locked lid a =
     (case opt_str lid of
        None \<Rightarrow> (a, None)
      | Some i \<Rightarrow> (case map_of (ac_limit_leases a) i of
          None \<Rightarrow> (a, None)
        | Some l \<Rightarrow> (a\<lparr>ac_limit_leases := AList.delete i (ac_limit_leases a),
                       ac_in_flight := (if 0 < ac_in_flight a then ac_in_flight a - 1 else ac_in_flight a)\<rparr>, Some l)))"

definition release_account_lease :: "'s redis \<Rightarrow> int option \<Rightarrow> limit_lease option \<Rightarrow> 's mgr \<Rightarrow> 's mgr" where
  "release_account_lease R deadline lo m =
     (case lo of
        None \<Rightarrow> m
      | Some l \<Rightarrow>
         (if \<not> concurrency_acquired l then m
          else fst (routing_redis_call ''account_concurrency_release'' False deadline
                 (release_account_reservation R (account_key (lease_subject l)) (lease_id l))
                 (m\<lparr>mg_active := AList.delete (lease_id l) (mg_active m), mg_renewals := filter (\<lambda>x. x \<noteq> lease_id l) (mg_renewals m)\<rparr>))))"

definition HEARTBEAT_TTL_SECONDS :: int where "HEARTBEAT_TTL_SECONDS = 60"

definition heartbeat :: "'s redis \<Rightarrow> string \<Rightarrow> 's mgr \<Rightarrow> 's mgr" where
  \<comment> \<open>\<open>start_heartbeat\<close> and each turn of \<open>_heartbeat_loop\<close>\<close>
  "heartbeat R boot m = m\<lparr>mg_conn := fst (set_process_heartbeat R boot HEARTBEAT_TTL_SECONDS (mg_conn m))\<rparr>"

definition mgr_reap_orphan_reservations :: "'s redis \<Rightarrow> calendar \<Rightarrow> time \<Rightarrow> string \<Rightarrow> 's mgr \<Rightarrow> 's mgr \<times> (pyerror + int)" where
  "mgr_reap_orphan_reservations R cal now boot m = on_conn (reap_orphan_reservations R cal now boot 200) m"

definition shutdown :: "'s redis \<Rightarrow> (string \<Rightarrow> int option) \<Rightarrow> 's mgr \<Rightarrow> 's mgr" where
  "shutdown R deadline m =
     (let m1 = fold (\<lambda>l. release_account_lease R (deadline (lease_id l)) (Some l)) (map snd (mg_active m)) m
      in m1\<lparr>mg_cleanups := [], mg_renewals := []\<rparr>)"

section \<open>AccountClient.reserve_with_decision and release\<close>

text \<open>
  \<open>task\<close> is the lease stack of the request's task (the context variable). \<open>record_ok\<close> tells whether
  the provider's \<open>record_message\<close> returns; if it raises, the lease is taken back.
\<close>

definition account_reserve ::
  "'s redis \<Rightarrow> calendar \<Rightarrow> acquire_in \<Rightarrow> bool \<Rightarrow> int option \<Rightarrow> ('s mgr \<times> account_client) \<times> string list
     \<Rightarrow> (('s mgr \<times> account_client) \<times> string list) \<times> (pyerror + limit_reservation)" where
  "account_reserve R cal i record_ok deadline st =
     (case st of (ma, task) \<Rightarrow>
       case acquire_account R cal i ma of
         (ma1, Inl e) \<Rightarrow> ((ma1, task), Inl e)
       | ((m, a), Inr res) \<Rightarrow> (case lres_lease res of
           None \<Rightarrow> (((m, a), task), Inr res)
         | Some l \<Rightarrow>
            (if local_fallback l \<and> 0 < ac_concurrent_limit a \<and> ac_concurrent_limit a \<le> ac_in_flight a
             then (((m, a), task), Inr \<lparr>lres_lease = None, lres_decision = deny ''concurrent_limit''\<rparr>)
             else (let probe = ac_is_test a;
                       a1 = a\<lparr>ac_limit_leases := dset (ac_limit_leases a) (lease_id l) l,
                              ac_requests := (if probe then ac_requests a else ac_requests a @ [ai_now i]),
                              ac_in_flight := ac_in_flight a + 1\<rparr>;
                       task1 = task @ [lease_id l]
                   in if probe \<or> record_ok then (((m, a1), task1), Inr res)
                      else (let (a2, back) = detach_account_lease_locked (Some (lease_id l)) a1
                            in (((release_account_lease R deadline back m, a2), filter (\<lambda>x. x \<noteq> lease_id l) task1), Inl RuntimeError))))))"

definition account_release ::
  "'s redis \<Rightarrow> int option \<Rightarrow> ('s mgr \<times> account_client) \<times> string list \<Rightarrow> ('s mgr \<times> account_client) \<times> string list" where
  "account_release R deadline st =
     (case st of ((m, a), task) \<Rightarrow>
       (let lid = (if task = [] then None else Some (last task));
            task1 = (if opt_str lid \<noteq> None then butlast task else task);
            (a1, l) = detach_account_lease_locked lid a
        in ((release_account_lease R deadline l m, a1), task1)))"

definition current_limit_lease :: "string list \<Rightarrow> account_client \<Rightarrow> limit_lease option" where
  "current_limit_lease task a = (if task = [] then None else map_of (ac_limit_leases a) (last task))"

section \<open>Recording tokens\<close>

definition touch_reason :: "string \<Rightarrow> int \<Rightarrow> int \<Rightarrow> string" where
  "touch_reason field used cap = field @ touched @ '' '' @ int_str used @ ''/'' @ int_str cap"

definition apply_account_freeze :: "'s redis \<Rightarrow> time \<Rightarrow> int \<Rightarrow> string \<Rightarrow> 's mgr \<times> account_client \<Rightarrow> 's mgr \<times> account_client" where
  \<comment> \<open>the background task that writes the cooldown runs at once\<close>
  "apply_account_freeze R now seconds reason st =
     (case freeze_account_local_and_broadcast now seconds reason st of (m, a) \<Rightarrow>
       if seconds \<le> 0 then (m, a)
       else (m\<lparr>mg_conn := set_account_cooldown R (pv_name (ac_provider a)) (pv_username (ac_provider a)) (Some seconds) reason '''' (mg_conn m)\<rparr>, a))"

definition record_window_and_freeze ::
  "'s redis \<Rightarrow> time \<Rightarrow> string \<Rightarrow> string \<Rightarrow> int \<Rightarrow> int \<Rightarrow> int \<Rightarrow> 's mgr \<times> account_client \<Rightarrow> 's mgr \<times> account_client" where
  "record_window_and_freeze R now ak field cap window tokens st =
     (case st of (m, a) \<Rightarrow>
       case on_conn (incrby_window R (ak @ '':'' @ field) tokens window) m of
         (m1, Some (used, ttl)) \<Rightarrow> (if 0 < cap \<and> cap \<le> used then apply_account_freeze R now ttl (touch_reason field used cap) (m1, a) else (m1, a))
       | (m1, None) \<Rightarrow> (m1, a))"

definition record_hour_day_tokens_and_freeze :: "'s redis \<Rightarrow> time \<Rightarrow> string \<Rightarrow> int \<Rightarrow> 's mgr \<times> account_client \<Rightarrow> 's mgr \<times> account_client" where
  "record_hour_day_tokens_and_freeze R now ak tokens st =
     (let step = (\<lambda>field cap window st. if cap \<le> 0 then st else record_window_and_freeze R now ak field cap window tokens st);
          st1 = step ''tph'' (ac_tph_limit (snd st)) TOKEN_HOUR_SECONDS st
      in step ''tpd'' (ac_tpd_limit (snd st1)) TOKEN_DAY_SECONDS st1)"

definition record_account_tokens :: "'s redis \<Rightarrow> time \<Rightarrow> int \<Rightarrow> 's mgr \<times> account_client \<Rightarrow> 's mgr \<times> account_client" where
  "record_account_tokens R now tokens st =
     (if tokens \<le> 0 then st
      else (let ak = account_key (account_subject (snd st) '''');
                st1 = record_window_and_freeze R now ak ''tpm'' (ac_tpm_limit (snd st)) TOKEN_WINDOW_SECONDS tokens st;
                (m, a) = record_hour_day_tokens_and_freeze R now ak tokens st1
            in (m, a\<lparr>ac_token_usages := filter (\<lambda>(t, n). now - t < of_int TOKEN_WINDOW_SECONDS) (ac_token_usages a) @ [(now, tokens)]\<rparr>)))"

definition record_tpm_and_maybe_freeze ::
  "'s redis \<Rightarrow> time \<Rightarrow> int option \<Rightarrow> string \<Rightarrow> int \<Rightarrow> int \<Rightarrow> 's mgr \<times> account_client \<Rightarrow> ('s mgr \<times> account_client) \<times> tpm_result option" where
  "record_tpm_and_maybe_freeze R now deadline mid tokens model_limit st =
     (if tokens \<le> 0 then (st, None)
      else (let u = account_subject (snd st) mid;
                (m, a) = record_hour_day_tokens_and_freeze R now (account_key u) tokens st
            in if ac_tpm_limit a \<le> 0 \<and> model_limit \<le> 0 then ((m, a), None)
               else (let (m1, r) = routing_redis_call ''tpm_record_and_freeze'' False deadline
                        (record_tpm_and_freeze R (account_key u) mid tokens TOKEN_WINDOW_SECONDS (ac_tpm_limit a) model_limit
                           (''limit:cooldown:'' @ sub_provider u @ '':'' @ sub_account u) (''limit:model-tpm-freeze:'' @ mid)) m
                     in ((m1, a), r))))"

definition record_model_tokens :: "'s redis \<Rightarrow> int option \<Rightarrow> string \<Rightarrow> int \<Rightarrow> 's mgr \<Rightarrow> 's mgr \<times> (int \<times> int) option" where
  "record_model_tokens R deadline mid tokens m =
     (if tokens \<le> 0 then (m, None)
      else routing_redis_call ''model_tpm_record'' False deadline (record_model_tpm_window R mid tokens TOKEN_WINDOW_SECONDS) m)"

section \<open>Well-formed reservations\<close>

definition uuid_ok :: "string \<Rightarrow> bool" where
  \<comment> \<open>\<open>uuid.uuid4().hex\<close>: hexadecimal digits only\<close>
  "uuid_ok u \<longleftrightarrow> 2 \<le> length u \<and> set u \<subseteq> set ''0123456789abcdef''"

definition lease_id_of :: "acquire_in \<Rightarrow> string" where
  "lease_id_of i = ''lease:'' @ ai_boot i @ '':'' @ ai_uuid i"

lemma plain_lease_id: "uuid_ok (ai_uuid i) \<Longrightarrow> plain_rid (lease_id_of i)"
proof -
  assume ok: "uuid_ok (ai_uuid i)"
  have "length (ai_uuid i) \<ge> 2" using ok by (simp add: uuid_ok_def)
  then obtain p q y where "rev (ai_uuid i) = p # q # y"
    by (metis One_nat_def Suc_1 length_rev Suc_le_length_iff)
  then have u: "ai_uuid i = rev y @ [q, p]" by (metis append_Cons append_Nil append_assoc rev.simps(2) rev_rev_ident)
  then have q: "q \<in> set ''0123456789abcdef''" using ok by (auto simp: uuid_ok_def)
  have "rev (lease_id_of i) = p # q # (y @ rev (''lease:'' @ ai_boot i @ '':''))" by (simp add: lease_id_of_def u)
  then have "take (length '':state'') (rev (lease_id_of i)) \<noteq> rev '':state''" using q by auto
  then show ?thesis by (simp add: plain_rid_code lease_id_of_def)
qed

lemma acquire_params_sel [simp]:
  "rp_lease_id (acquire_params cal i test a) = lease_id_of i"
  "rp_concurrent_limit (acquire_params cal i test a) = ac_concurrent_limit a"
  "rp_account_key (acquire_params cal i test a) = account_key (account_subject a (ai_model i))"
  "rp_model_id (acquire_params cal i test a) = Some (ai_model i)"
  "rp_window_ids (acquire_params cal i test a) = Some (reservation_window_ids cal (ai_now i))"
  by (simp_all add: acquire_params_def Let_def split_def lease_id_of_def)

lemma acquire_params_ok:
  assumes "uuid_ok (ai_uuid i)"
  shows "reserve_params_ok (\<lambda>ak. ac_concurrent_limit a) (acquire_params cal i test a)"
  using plain_lease_id [OF assms]
  by (simp add: reserve_params_ok_def acquire_params_def Let_def split_def lease_id_of_def seconds_until_day_end_def freeze_key_ok_def
      startswith_def REQUEST_WINDOW_SECONDS_def REQUEST_HOUR_SECONDS_def TOKEN_WINDOW_SECONDS_def TOKEN_HOUR_SECONDS_def
      CONCURRENCY_LEASE_SECONDS_def)

lemma probe_entries: "reserve_entries (reserve_args_of pfx cal now (acquire_params cal i True a)) = []"
  by (simp add: reserve_entries_def reserve_args_of_def acquire_params_def effective_limits_def Let_def token_specs_def)

section \<open>Frames\<close>

lemma on_conn_sel [simp]:
  "mg_conn (fst (on_conn f m)) = fst (f (mg_conn m))" "snd (on_conn f m) = snd (f (mg_conn m))"
  "mg_cleanups (fst (on_conn f m)) = mg_cleanups m"
  by (simp_all add: on_conn_def split_def)

lemma routing_call_conn [simp]:
  "mg_conn (fst (routing_redis_call stage False dl f m)) = fst (f (mg_conn m))"
  "mg_cleanups (fst (routing_redis_call stage False dl f m)) = mg_cleanups m"
  by (simp_all add: routing_redis_call_def Let_def split_def split: option.splits)

lemma routing_call_result:
  "snd (routing_redis_call stage False dl f m) = (if dl = None then snd (f (mg_conn m)) else None)"
  by (simp add: routing_redis_call_def Let_def split_def split: option.splits)

lemma denial_conn [simp]: "mg_conn (record_reservation_denial r m) = mg_conn m" "mg_cleanups (record_reservation_denial r m) = mg_cleanups m"
  by (simp_all add: record_reservation_denial_def)

lemma model_freeze_conn [simp]: "mg_conn (apply_model_tpm_freeze now mid ttl used m) = mg_conn m"
  "mg_cleanups (apply_model_tpm_freeze now mid ttl used m) = mg_cleanups m"
  by (simp_all add: apply_model_tpm_freeze_def)

lemma local_freeze_conn [simp]: "mg_conn (fst (freeze_account_local_and_broadcast now s r st)) = mg_conn (fst st)"
  "mg_cleanups (fst (freeze_account_local_and_broadcast now s r st)) = mg_cleanups (fst st)"
  by (simp_all add: freeze_account_local_and_broadcast_def split_def)

lemma on_admitted_conn [simp]: "mg_conn (fst (fst (on_admitted i P l r st))) = mg_conn (fst st)"
  "mg_cleanups (fst (fst (on_admitted i P l r st))) = mg_cleanups (fst st)"
  by (simp_all add: on_admitted_def Let_def split_def)

lemma on_denied_conn [simp]: "mg_conn (fst (fst (on_denied i r st))) = mg_conn (fst st)"
  "mg_cleanups (fst (fst (on_denied i r st))) = mg_cleanups (fst st)"
  by (simp_all add: on_denied_def Let_def split_def)

lemma on_uncertain_conn [simp]: "mg_conn (fst (on_uncertain i P l m)) = mg_conn m"
  by (simp add: on_uncertain_def Let_def)

definition same_leases :: "account_client \<Rightarrow> account_client \<Rightarrow> bool" where
  "same_leases a b \<longleftrightarrow> ac_limit_leases b = ac_limit_leases a \<and> ac_in_flight b = ac_in_flight a
     \<and> ac_concurrent_limit b = ac_concurrent_limit a \<and> ac_provider b = ac_provider a \<and> ac_is_test b = ac_is_test a"

lemma same_leases_refl [simp]: "same_leases a a"
  by (simp add: same_leases_def)

lemma same_leases_trans: "same_leases a b \<Longrightarrow> same_leases b c \<Longrightarrow> same_leases a c"
  by (simp add: same_leases_def)

lemma freeze_leases [simp]: "same_leases a (fst (freeze now kind mid s r rf c a))"
  by (simp add: freeze_def same_leases_def Let_def)

lemma update_quota_leases: "same_leases a (update_provider_quota now r l a)"
  by (simp add: update_provider_quota_def same_leases_def Let_def split: option.splits)

lemma fold_quota_leases:
  "same_leases a b \<Longrightarrow> same_leases a
     (fold (\<lambda>d b. if dim_name d = n then update_provider_quota now (dim_remaining d) (Some (dim_limit d)) b else b) ds b)"
  by (induction ds arbitrary: b) (simp_all add: same_leases_trans [OF _ update_quota_leases])

lemma sync_quota_leases: "same_leases a (sync_provider_quota now a)"
  by (auto simp: sync_provider_quota_def Let_def update_quota_leases fold_quota_leases split: option.splits)

lemma available_leases: "same_leases a (fst (account_available_locked now mid check test a))"
proof -
  have "same_leases a (fst (soft_state now mid a))"
    using sync_quota_leases by (auto simp: soft_state_def Let_def)
  moreover have "same_leases b (trim_windows now b)" for b by (simp add: trim_windows_def same_leases_def)
  ultimately show ?thesis
    unfolding account_available_locked_def Let_def
    by (auto split: option.splits sum.splits bool.splits prod.splits intro: same_leases_trans)
qed

definition acquire_probe :: "acquire_in \<Rightarrow> account_client \<Rightarrow> bool" where
  "acquire_probe i a \<longleftrightarrow> ai_is_test i \<or> ac_is_test a"

lemma acquire_params_same: "same_leases a b \<Longrightarrow> account_subject b mid = account_subject a mid"
  by (simp add: same_leases_def account_subject_def)

lemma reserve_conn_store:
  "conn_prefix (fst (reserve_account_limits R cal now P c)) = conn_prefix c"
  "conn_store (fst (reserve_account_limits R cal now P c)) = conn_store c
   \<or> conn_store (fst (reserve_account_limits R cal now P c)) = fst (reserve_script R (reserve_args_of (conn_prefix c) cal now P) (conn_store c))"
  using call_store [of "reserve_script R (reserve_args_of (conn_prefix c) cal now P)" c]
  by (auto simp: reserve_account_limits_def Let_def split_def)

lemma acquire_cases:
  assumes "acquire_account R cal i (m, a) = ((m1, a1), res)"
  obtains (local_only) "mg_conn m1 = mg_conn m" "mg_cleanups m1 = mg_cleanups m"
  | (reserved) b P where "same_leases a b" "P = acquire_params cal i (acquire_probe i a) b"
      "mg_conn m1 = fst (reserve_account_limits R cal (ai_now i) P (mg_conn m))"
      "mg_cleanups m1 = mg_cleanups m
       \<or> (0 < ac_concurrent_limit a \<and> mg_cleanups m1 = mg_cleanups m @
            [FailedReservation (rp_account_key P) (lease_id_of i) (Some (ai_model i)) (Some (reservation_window_ids cal (ai_now i)))])"
proof -
  let ?t = "acquire_probe i a"
  obtain b av where av: "(if ?t then (a, Inr (decision True '''' None [])) else account_available_locked (ai_now i) (Some (ai_model i)) (ai_check i) False a) = (b, av)"
    by (metis surj_pair)
  have sb: "same_leases a b"
    using av available_leases [of a "ai_now i" "Some (ai_model i)" "ai_check i" False] by (auto split: if_splits)
  then have cl: "ac_concurrent_limit b = ac_concurrent_limit a" by (simp add: same_leases_def)
  let ?P = "acquire_params cal i ?t b"
  let ?call = "routing_redis_call ''account_atomic_reserve'' False (ai_deadline i) (reserve_account_limits R cal (ai_now i) ?P) m"
  note [simp] = acquire_probe_def [symmetric]
  show thesis
  proof (cases "(case av of Inl e \<Rightarrow> False | Inr d \<Rightarrow> ld_allowed d)
      \<and> \<not> (0 < rp_concurrent_limit ?P \<and> (case mg_routing m of Some s \<Rightarrow> rs_reserve_uncertain s | None \<Rightarrow> False)) \<and> has_remote_limits ?P")
    case False
    with assms av show thesis
      by (intro local_only) (auto simp: acquire_account_def Let_def split: sum.splits if_splits)
  next
    case True
    then obtain d where d: "av = Inr d" "ld_allowed d" by (cases av) auto
    show thesis
    proof (cases "snd ?call")
      case None
      with assms av d True sb cl show thesis
        by (intro reserved [of b ?P]) (auto simp: acquire_account_def Let_def split_def on_uncertain_def lease_default_def split: if_splits)
    next
      case (Some r)
      have "m1 = (if res_allowed r then fst (fst (on_admitted i ?P x r (fst ?call, b))) else fst (fst (on_denied i r (fst ?call, b))))"
        if "x = (lease_default (account_subject b (ai_model i)) (rp_lease_id ?P) (ai_now i))
              \<lparr>expires_at := Some (ai_now i + of_int CONCURRENCY_LEASE_SECONDS), reservation_id := rp_lease_id ?P, test_probe := ?t\<rparr>" for x
        using assms av d True Some that by (auto simp: acquire_account_def Let_def split_def split: if_splits)
      then have "mg_conn m1 = mg_conn (fst ?call)" "mg_cleanups m1 = mg_cleanups (fst ?call)" by auto
      with sb show thesis by (intro reserved [of b ?P]) auto
    qed
  qed
qed

end
