(* ===== verification/Lub_LedgerProps.thy ===== *)
theory Lub_LedgerProps
  imports Lub_LedgerSystem
begin

text \<open>
  The properties of the reservation ledger, stated for an arbitrary Redis server that keeps the
  laws of \<open>redis_store\<close> and for the backend's operations as the rest of the program calls them.
  The witnesses run on the executable store \<open>mem_redis\<close>.
\<close>

section \<open>Concrete data for the witnesses\<close>

definition cal0 :: calendar where
  "cal0 = \<lparr>day_label = (\<lambda>t. ''2025-01-01''), to_midnight = (\<lambda>t. 3600), weekday = (\<lambda>t. 0), to_next_month = (\<lambda>t. 90000)\<rparr>"

definition w0 :: wids where
  "w0 = \<lparr>w_rpm = ''10'', w_rph = ''1'', w_rpd = ''2025-01-01'', w_tpm = ''10'', w_tph = ''1'', w_tpd = ''2025-01-01'',
     w_model_tpm = ''10''\<rparr>"

definition params0 :: reserve_params where
  "params0 = \<lparr>rp_account_key = ''account:p:u'', rp_lease_id = ''lease:b1:01'', rp_freeze_key = ''limit:cooldown:p:u'',
     rp_model_freeze_key = ''limit:model-tpm-freeze:m'', rp_account_model_freeze_key = ''limit:cooldown:p:u:model:m'',
     rp_concurrent_limit = 1, rp_concurrency_ttl = 900, rp_rpm_limit = 1, rp_rpm_ttl = 60, rp_rpd_limit = 0, rp_rpd_ttl = 3600,
     rp_rph_limit = 0, rp_rph_ttl = 3600, rp_model_id = Some ''m'', rp_token_amount = 0, rp_tpm_limit = 0, rp_tpm_ttl = 60,
     rp_tph_limit = 0, rp_tph_ttl = 3600, rp_tpd_limit = 0, rp_tpd_ttl = 3600, rp_model_tpm_limit = 0, rp_model_tpm_ttl = 60,
     rp_allow_token_overflow = False, rp_window_ids = Some w0, rp_skip_freeze_checks = False\<rparr>"

definition conn0 :: "mem conn" where
  "conn0 = \<lparr>conn_client = True, conn_prefix = None, conn_store = mem_empty, conn_faults = []\<rparr>"

lemma conn0_sel [simp]: "conn_client conn0" "conn_prefix conn0 = None" "conn_store conn0 = mem_empty" "conn_faults conn0 = []"
  by (simp_all add: conn0_def)

lemma mem_empty_sel [simp]: "hashes mem_empty = fmempty" "zsets mem_empty = fmempty" "sets mem_empty = fmempty"
  "strs mem_empty = fmempty" "deadlines mem_empty = fmempty"
  by (simp_all add: mem_empty_def)

lemma params0_ok: "reserve_params_ok (\<lambda>ak. 1) params0"
  by (simp add: reserve_params_ok_def params0_def freeze_key_ok_def startswith_def plain_rid_code)

lemma ledgers_rel_mem_empty [simp]: "ledgers_rel mem_redis K mem_empty (\<lambda>k. fmempty)"
  by (auto simp: ledgers_rel_def intro: ledger_rel_empty)

lemma call_Some: "call f c = (c', Some a) \<Longrightarrow> conn_store c' = fst (f (conn_store c)) \<and> a = snd (f (conn_store c)) \<and> conn_prefix c' = conn_prefix c \<and> conn_client c' = conn_client c"
  by (auto simp: call_def Let_def split_def split: list.splits net.splits)

lemma call_ok: "conn_faults c = [] \<Longrightarrow> call f c = (c\<lparr>conn_store := fst (f (conn_store c))\<rparr>, Some (snd (f (conn_store c))))"
  by (simp add: call_def Let_def split_def)

lemma reserve_Some:
  assumes "reserve_account_limits R cal now P c = (c', Some r)"
  obtains rep where "reserve_script R (reserve_args_of (conn_prefix c) cal now P) (conn_store c) = (conn_store c', rep)"
    "res_allowed r = rr_allowed rep" "res_reason r = rr_reason rep"
    "res_window_ids r = ra_window_ids (reserve_args_of (conn_prefix c) cal now P)"
    "conn_prefix c' = conn_prefix c" "conn_client c'"
proof -
  let ?A = "reserve_args_of (conn_prefix c) cal now P"
  from assms have cl: "conn_client c" by (auto simp: reserve_account_limits_def split: if_splits)
  from assms cl obtain rep where "call (reserve_script R ?A) c = (c', Some rep)" "r = reserve_result_of (ra_window_ids ?A) rep"
    by (auto simp: reserve_account_limits_def Let_def split: prod.splits)
  with call_Some [of "reserve_script R ?A" c c' rep] cl show thesis
    by (intro that [of rep]) (auto simp: reserve_result_of_def Let_def)
qed

lemma reserve_conn_rel:
  assumes "redis_store R" "reserve_params_ok cap P" "ledgers_rel R (ledger_keys (conn_prefix c)) (conn_store c) L"
    and "reserve_account_limits R cal now P c = (c', Some r)"
  shows "ledgers_rel R (ledger_keys (conn_prefix c)) (conn_store c')
           (if res_allowed r then spec_reserve (reserve_args_of (conn_prefix c) cal now P) L else L)"
    and "\<not> res_allowed r \<Longrightarrow> r_hget R (conn_store c') = r_hget R (conn_store c)"
proof -
  let ?A = "reserve_args_of (conn_prefix c) cal now P"
  from reserve_Some [OF assms(4)] obtain rep where rep: "reserve_script R ?A (conn_store c) = (conn_store c', rep)"
    "res_allowed r = rr_allowed rep" by blast
  show "ledgers_rel R (ledger_keys (conn_prefix c)) (conn_store c') (if res_allowed r then spec_reserve ?A L else L)"
    using redis_store.reserve_script_rel [OF assms(1,3) reserve_args_ok [OF assms(2)], of cal now] rep by simp
  show "\<not> res_allowed r \<Longrightarrow> r_hget R (conn_store c') = r_hget R (conn_store c)"
    using redis_store.reserve_script_denied_hget [OF assms(1), of ?A "conn_store c"] rep by simp
qed

definition conn1 :: "mem conn" where
  "conn1 = fst (reserve_account_limits mem_redis cal0 600 params0 conn0)"

definition res1 :: reserve_result where
  "res1 = the (snd (reserve_account_limits mem_redis cal0 600 params0 conn0))"

lemma reserve1: "reserve_account_limits mem_redis cal0 600 params0 conn0 = (conn1, Some res1)"
  by (simp add: conn1_def res1_def reserve_account_limits_def call_ok Let_def)

lemma mem_ttl_empty [simp]: "mem_ttl mem_empty k = -2"
  by (simp add: mem_ttl_def mem_has_def)

lemma conn1_faults [simp]: "conn_faults conn1 = []" "conn_client conn1" "conn_prefix conn1 = None"
  by (simp_all add: conn1_def reserve_account_limits_def call_ok Let_def)

lemma res1_allowed: "res_allowed res1"
proof -
  let ?A = "reserve_args_of None cal0 600 params0"
  have "rr_allowed (snd (reserve_script mem_redis ?A mem_empty))"
    by (subst mem.reserve_admits_iff [OF ledgers_rel_mem_empty reserve_args_ok [OF params0_ok]])
       (simp add: no_timed_freeze_def slot_free_def tokens_fit_def live_leases_def reserve_args_of_def params0_def Let_def)
  with reserve_Some [OF reserve1] show ?thesis by (metis conn0_sel(2,3) snd_conv)
qed

definition reconcile_params0 :: reconcile_params where
  "reconcile_params0 = \<lparr>rcp_account_key = ''account:p:u'', rcp_model_id = Some ''m'', rcp_reservation_id = ''lease:b1:01'',
     rcp_actual_tokens = 42, rcp_account_tpm_limit = 100, rcp_account_tph_limit = 0, rcp_account_tpd_limit = 0,
     rcp_model_tpm_limit = 0, rcp_window_ids = Some w0, rcp_account_freeze_key = Some ''limit:cooldown:p:u'',
     rcp_model_freeze_key = None\<rparr>"

lemma conn1_rel: "ledgers_rel mem_redis (ledger_keys None) (conn_store conn1) (spec_reserve (reserve_args_of None cal0 600 params0) (\<lambda>k. fmempty))"
  using reserve_conn_rel(1) [OF mem.redis_store_axioms params0_ok _ reserve1, of "\<lambda>k. fmempty"] res1_allowed by simp

lemma rollback_Some:
  assumes "rollback_account_reservation R cal now ak mid rid wo c = (c', Some n)"
  shows "conn_store c' = fst (rollback_script R rid
      (rollback_keys (conn_prefix c) ak mid (case wo of Some w \<Rightarrow> w | None \<Rightarrow> reservation_window_ids cal now))
      (be_key (conn_prefix c) RESERVATION_INDEX) (be_key (conn_prefix c) (reservation_meta_key rid)) (conn_store c))"
proof -
  let ?f = "rollback_script R rid (rollback_keys (conn_prefix c) ak mid (case wo of Some w \<Rightarrow> w | None \<Rightarrow> reservation_window_ids cal now))
      (be_key (conn_prefix c) RESERVATION_INDEX) (be_key (conn_prefix c) (reservation_meta_key rid))"
  from assms have "call ?f c = (c', Some (Some n))"
    by (auto simp: rollback_account_reservation_def Let_def split: if_splits prod.splits bind_splits)
  from call_Some [OF this] show ?thesis by blast
qed

section \<open>Properties\<close>

text \<open>
  C1. Whatever the clients do (reserve, roll back, reconcile, finalize, renew, release, heartbeat
  and read, in any order, any number of them), with requests and replies lost anywhere and keys
  expiring at any time, every ledger hash stays a sum: one non-negative amount per reservation and
  \<open>__total\<close> equal to their sum; and no account ever holds more concurrency leases than its limit.
\<close>

theorem ledger_invariant:
  assumes "redis_store R" "(ledger_step R cal cap)\<^sup>*\<^sup>* c c'" "conn_prefix c \<noteq> Some []"
    and "\<forall>k f. r_hget R (conn_store c) k f = None" "\<forall>k m. r_zscore R (conn_store c) k m = None"
  shows "(\<forall>k \<in> ledger_keys (conn_prefix c). \<exists>M. ledger_rel R (conn_store c') k M)
       \<and> (\<forall>ak. int (r_zcard R (conn_store c') (concurrency_key (conn_prefix c) ak)) \<le> max 0 (cap ak))"
proof -
  have "ledgers_rel R (ledger_keys (conn_prefix c)) (conn_store c) (\<lambda>k. fmempty)"
    using assms(4) by (simp add: ledgers_rel_def ledger_rel_empty)
  moreover have "r_zcard R (conn_store c) k = 0" for k
    using redis_store.zcard_card [OF assms(1), of "conn_store c" k] assms(5) by simp
  ultimately have "ledger_inv R cap c" by (auto simp: ledger_inv_def)
  from redis_store.ledger_inv_reachable [OF assms(1,2) this assms(3)] show ?thesis
    by (auto simp: ledger_inv_def ledgers_rel_def)
qed

theorem ledger_invariant_witness:
  "let c = conn0\<lparr>conn_faults := [LostReply]\<rparr>; c1 = fst (reserve_account_limits mem_redis cal0 600 params0 c);
       c2 = fst (rollback_account_reservation mem_redis cal0 601 ''account:p:u'' (Some ''m'') ''lease:b1:01'' (Some w0) c1)
   in (\<forall>k \<in> ledger_keys None. \<exists>M. ledger_rel mem_redis (conn_store c2) k M)
    \<and> (\<forall>ak. int (r_zcard mem_redis (conn_store c2) (concurrency_key None ak)) \<le> max 0 1)"
proof -
  let ?c = "conn0\<lparr>conn_faults := [LostReply]\<rparr>"
  let ?c1 = "fst (reserve_account_limits mem_redis cal0 600 params0 ?c)"
  let ?c2 = "fst (rollback_account_reservation mem_redis cal0 601 ''account:p:u'' (Some ''m'') ''lease:b1:01'' (Some w0) ?c1)"
  have "ledger_step mem_redis cal0 (\<lambda>ak. 1) ?c ?c1" by (rule st_reserve [OF params0_ok])
  moreover have "ledger_step mem_redis cal0 (\<lambda>ak. 1) ?c1 ?c2" by (rule st_rollback) (simp add: plain_rid_code)
  ultimately have "(ledger_step mem_redis cal0 (\<lambda>ak. 1))\<^sup>*\<^sup>* ?c ?c2" by auto
  from ledger_invariant [OF mem.redis_store_axioms this] show ?thesis by (simp add: Let_def)
qed

text \<open>
  C2. \<open>reserve_account_limits\<close> refines the abstract ledger: an admitted reservation enters the
  given amounts under its own identifier in the ledgers whose limit is set (replacing what it
  had entered before) and changes no other reservation; a denied one leaves every hash as it was.
\<close>

theorem reserve_refines:
  assumes "redis_store R" "reserve_params_ok cap P" "ledgers_rel R (ledger_keys (conn_prefix c)) (conn_store c) L"
    and "reserve_account_limits R cal now P c = (c', Some r)"
  shows "ledgers_rel R (ledger_keys (conn_prefix c)) (conn_store c')
           (if res_allowed r then spec_reserve (reserve_args_of (conn_prefix c) cal now P) L else L)
       \<and> (\<not> res_allowed r \<longrightarrow> r_hget R (conn_store c') = r_hget R (conn_store c))"
  using reserve_conn_rel [OF assms] by blast

theorem reserve_refines_witness:
  "ledgers_rel mem_redis (ledger_keys None) (conn_store conn1) (spec_reserve (reserve_args_of None cal0 600 params0) (\<lambda>k. fmempty))"
  using reserve_refines [OF mem.redis_store_axioms params0_ok _ reserve1, of "\<lambda>k. fmempty"] res1_allowed by simp

text \<open>
  C3. When \<open>reserve_account_limits\<close> gets a reply, the reservation is admitted exactly if none of
  its three freeze keys has time left to run (or the caller is a test or probe, which skips this check),
  fewer live leases than the limit are held, and, unless overflow is allowed or no tokens are asked for,
  every token window with a limit stays below it with this reservation's amount in place of what it held
  before. A freeze stored without expiry has no time left in this sense and stops nothing.
\<close>

theorem reserve_admission:
  assumes "redis_store R" "reserve_params_ok cap P" "ledgers_rel R (ledger_keys (conn_prefix c)) (conn_store c) L"
    and "reserve_account_limits R cal now P c = (c', Some r)"
  shows "res_allowed r \<longleftrightarrow>
     (let A = reserve_args_of (conn_prefix c) cal now P
      in no_timed_freeze R A (conn_store c) \<and> slot_free R A (conn_store c) \<and> tokens_fit A L)"
proof -
  from reserve_Some [OF assms(4)] obtain rep where
    "reserve_script R (reserve_args_of (conn_prefix c) cal now P) (conn_store c) = (conn_store c', rep)"
    "res_allowed r = rr_allowed rep" by blast
  with redis_store.reserve_admits_iff [OF assms(1,3) reserve_args_ok [OF assms(2)], of cal now] show ?thesis
    by (simp add: Let_def)
qed

theorem reserve_admission_witness:
  "res_allowed res1 \<and> no_timed_freeze mem_redis (reserve_args_of None cal0 600 params0) mem_empty
     \<and> tokens_fit (reserve_args_of None cal0 600 params0) (\<lambda>k. fmempty)"
  using reserve_admission [OF mem.redis_store_axioms params0_ok _ reserve1, of "\<lambda>k. fmempty"] res1_allowed
  by (simp add: Let_def)

text \<open>
  C4. Reserve then roll back is the identity on the ledgers: an admitted reservation with a fresh
  identifier, rolled back with the windows it was given, leaves every ledger with exactly the
  entries it had before.
\<close>

theorem reserve_rollback_roundtrip:
  assumes "redis_store R" "reserve_params_ok cap P" "ledgers_rel R (ledger_keys (conn_prefix c)) (conn_store c) L"
    and "reserve_account_limits R cal now P c = (c1, Some r)" "res_allowed r"
    and "\<forall>k. fmlookup (L k) (rp_lease_id P) = None"
    and "rollback_account_reservation R cal now' (rp_account_key P) (rp_model_id P) (rp_lease_id P) (Some (res_window_ids r)) c1 = (c2, Some n)"
  shows "ledgers_rel R (ledger_keys (conn_prefix c)) (conn_store c2) L"
proof -
  let ?pfx = "conn_prefix c"
  let ?A = "reserve_args_of ?pfx cal now P"
  let ?ks = "rollback_keys ?pfx (rp_account_key P) (rp_model_id P) (res_window_ids r)"
  from reserve_Some [OF assms(4)] have wid: "res_window_ids r = ra_window_ids ?A" and pfx: "conn_prefix c1 = ?pfx" by blast+
  from reserve_conn_rel(1) [OF assms(1-4)] assms(5)
  have r1: "ledgers_rel R (ledger_keys ?pfx) (conn_store c1) (spec_reserve ?A L)" by simp
  have c2: "conn_store c2 = fst (rollback_script R (rp_lease_id P) ?ks (be_key ?pfx RESERVATION_INDEX)
      (be_key ?pfx (reservation_meta_key (rp_lease_id P))) (conn_store c1))"
    using rollback_Some [OF assms(7)] pfx by simp
  have sub: "fst ` set (reserve_entries ?A) \<subseteq> set ?ks"
    by (auto simp: reserve_entries_def token_specs_def wid rollback_keys_def reserve_args_of_def Let_def opt_str_def
        split: if_splits option.splits)
  have rid: "ra_rid ?A = rp_lease_id P" by (simp add: reserve_args_of_def Let_def)
  have plain: "plain_rid (rp_lease_id P)" using assms(2) by (simp add: reserve_params_ok_def)
  have "ledgers_rel R (ledger_keys ?pfx) (conn_store c2) (spec_rollback (rp_lease_id P) ?ks (spec_reserve ?A L))"
    unfolding c2 by (rule redis_store.rollback_script_rel(1) [OF assms(1) r1 rollback_keys_ledger plain meta_not_ledger])
  moreover have "spec_rollback (rp_lease_id P) ?ks (spec_reserve ?A L) = L"
    using spec_rollback_reserve [OF sub, of L] assms(6) rid by simp
  ultimately show ?thesis by simp
qed

theorem reserve_rollback_roundtrip_witness:
  "\<exists>c2 n. rollback_account_reservation mem_redis cal0 700 ''account:p:u'' (Some ''m'') ''lease:b1:01'' (Some (res_window_ids res1)) conn1 = (c2, Some n)
     \<and> ledgers_rel mem_redis (ledger_keys None) (conn_store c2) (\<lambda>k. fmempty)"
proof -
  have p: "rp_account_key params0 = ''account:p:u''" "rp_model_id params0 = Some ''m''" "rp_lease_id params0 = ''lease:b1:01''"
    by (simp_all add: params0_def)
  have "\<exists>c2 n. rollback_account_reservation mem_redis cal0 700 ''account:p:u'' (Some ''m'') ''lease:b1:01'' (Some (res_window_ids res1)) conn1 = (c2, Some n)"
    using mem.rollback_script_rel(2) [OF reserve_conn_rel(1) [OF mem.redis_store_axioms params0_ok _ reserve1] rollback_keys_ledger _ meta_not_ledger,
        of "\<lambda>k. fmempty" "''lease:b1:01''"]
    by (simp add: rollback_account_reservation_def call_ok Let_def plain_rid_code)
  then obtain c2 n where *: "rollback_account_reservation mem_redis cal0 700 ''account:p:u'' (Some ''m'') ''lease:b1:01'' (Some (res_window_ids res1)) conn1 = (c2, Some n)"
    by blast
  with reserve_rollback_roundtrip [OF mem.redis_store_axioms params0_ok _ reserve1 res1_allowed, of "\<lambda>k. fmempty" 700 c2 n, unfolded p]
  show ?thesis by auto
qed

text \<open>
  A rollback removes exactly the entries of its own reservation from the ledgers of the
  windows it is given, keeps every other reservation's amount, never fails on well-formed ledgers,
  and doing it again changes nothing (the second call finds no entry).
\<close>

theorem rollback_exact:
  assumes "redis_store R" "ledgers_rel R (ledger_keys (conn_prefix c)) (conn_store c) L" "plain_rid rid"
    and "rollback_account_reservation R cal now ak mid rid (Some w) c = (c', res)"
  shows "(res \<noteq> None \<longrightarrow> (\<exists>L'. ledgers_rel R (ledger_keys (conn_prefix c)) (conn_store c') L'
            \<and> (\<forall>k rid'. fmlookup (L' k) rid' =
                 (if rid' = rid \<and> k \<in> set (rollback_keys (conn_prefix c) ak mid w) then None else fmlookup (L k) rid'))))
       \<and> (conn_client c \<and> ak \<noteq> [] \<and> rid \<noteq> [] \<and> conn_faults c = [] \<longrightarrow> res \<noteq> None)"
proof (intro conjI impI)
  assume "res \<noteq> None"
  then obtain n where "res = Some n" by blast
  with assms(4) have st: "conn_store c' = fst (rollback_script R rid (rollback_keys (conn_prefix c) ak mid w)
      (be_key (conn_prefix c) RESERVATION_INDEX) (be_key (conn_prefix c) (reservation_meta_key rid)) (conn_store c))"
    using rollback_Some [of R cal now ak mid rid "Some w" c c' n] by simp
  show "\<exists>L'. ledgers_rel R (ledger_keys (conn_prefix c)) (conn_store c') L' \<and> (\<forall>k rid'. fmlookup (L' k) rid' =
      (if rid' = rid \<and> k \<in> set (rollback_keys (conn_prefix c) ak mid w) then None else fmlookup (L k) rid'))"
    by (intro exI [of _ "spec_rollback rid (rollback_keys (conn_prefix c) ak mid w) L"] conjI allI spec_rollback_lookup)
       (unfold st, rule redis_store.rollback_script_rel(1) [OF assms(1,2) rollback_keys_ledger assms(3) meta_not_ledger])
next
  assume "conn_client c \<and> ak \<noteq> [] \<and> rid \<noteq> [] \<and> conn_faults c = []"
  then show "res \<noteq> None"
    using redis_store.rollback_script_rel(2) [OF assms(1,2) rollback_keys_ledger assms(3) meta_not_ledger] assms(4)
    by (auto simp: rollback_account_reservation_def call_ok Let_def)
qed

theorem rollback_exact_witness:
  "\<exists>L'. ledgers_rel mem_redis (ledger_keys None)
      (conn_store (fst (rollback_account_reservation mem_redis cal0 700 ''account:p:u'' (Some ''m'') ''lease:b1:01'' (Some w0) conn1))) L'
     \<and> (\<forall>k \<in> set (rollback_keys None ''account:p:u'' (Some ''m'') w0). fmlookup (L' k) ''lease:b1:01'' = None)"
proof -
  have "plain_rid ''lease:b1:01''" by (simp add: plain_rid_code)
  from rollback_exact [OF mem.redis_store_axioms, of conn1, unfolded conn1_faults, OF conn1_rel this prod.collapse [symmetric]]
  show ?thesis by fastforce
qed

text \<open>
  C5. Reconciliation replaces the reserved token amount by the actual one in every token ledger
  that still exists and does nothing to a window that has expired; no other entry changes.
\<close>

theorem reconcile_exact:
  assumes "redis_store R" "reconcile_params_ok P" "ledgers_rel R (ledger_keys (conn_prefix c)) (conn_store c) L"
    and "reconcile_account_reservation R cal now P c = (c', Some r)"
  shows "\<exists>L'. ledgers_rel R (ledger_keys (conn_prefix c)) (conn_store c') L'
     \<and> (\<forall>k rid. fmlookup (L' k) rid =
          (if rid = rcp_reservation_id P \<and> k \<in> fst ` set (rc_ledgers (reconcile_args_of (conn_prefix c) cal now P)) \<and> r_exists R (conn_store c) k
           then Some (max 0 (rcp_actual_tokens P)) else fmlookup (L k) rid))"
proof -
  let ?A = "reconcile_args_of (conn_prefix c) cal now P"
  from assms(4) obtain a where "call (reconcile_script R ?A) c = (c', Some a)"
    by (auto simp: reconcile_account_reservation_def Let_def split: if_splits prod.splits)
  from call_Some [OF this] have st: "conn_store c' = fst (reconcile_script R ?A (conn_store c))" by blast
  have A: "rc_rid ?A = rcp_reservation_id P" "rc_actual ?A = max 0 (rcp_actual_tokens P)"
    by (simp_all add: reconcile_args_of_def Let_def)
  show ?thesis
    by (intro exI [of _ "spec_reconcile ?A {k. r_exists R (conn_store c) k} L"] conjI allI)
       (unfold st, rule redis_store.reconcile_script_rel(1) [OF assms(1,3) reconcile_args_ok [OF assms(2)]],
        simp add: spec_reconcile_lookup A)
qed

theorem reconcile_exact_witness:
  "\<exists>L'. ledgers_rel mem_redis (ledger_keys None) (conn_store (fst (reconcile_account_reservation mem_redis cal0 610 reconcile_params0 conn1))) L'
     \<and> (\<forall>k rid. rid \<noteq> ''lease:b1:01'' \<longrightarrow> fmlookup (L' k) rid = fmlookup (spec_reserve (reserve_args_of None cal0 600 params0) (\<lambda>k. fmempty) k) rid)"
proof -
  have ok: "reconcile_params_ok reconcile_params0"
    by (simp add: reconcile_params_ok_def reconcile_params0_def plain_rid_code opt_str_def freeze_key_ok_def startswith_def)
  have "\<exists>c' r. reconcile_account_reservation mem_redis cal0 610 reconcile_params0 conn1 = (c', Some r)"
    by (simp add: reconcile_account_reservation_def reconcile_params0_def call_ok Let_def)
  then obtain c' r where *: "reconcile_account_reservation mem_redis cal0 610 reconcile_params0 conn1 = (c', Some r)" by blast
  have "rcp_reservation_id reconcile_params0 = ''lease:b1:01''" by (simp add: reconcile_params0_def)
  with reconcile_exact [OF mem.redis_store_axioms ok, of conn1, unfolded conn1_faults, OF conn1_rel *] show ?thesis
    by (auto simp: *)
qed

text \<open>
  C6. The reaper of orphaned reservations never touches a reservation whose recorded owner is the
  current process or has a live heartbeat: its entry in every ledger is what it was, whatever else
  is in the index and whichever calls fail on the way.
\<close>

theorem reaper_spares_living:
  assumes "redis_store R" "conn_prefix c \<noteq> Some []" "plain_rid rid"
    and "owner_lives R (conn_prefix c) current rid (conn_store c)" "k \<in> ledger_keys (conn_prefix c)"
  shows "r_hget R (conn_store (fst (reap_orphan_reservations R cal now current batch_size c))) k rid = r_hget R (conn_store c) k rid"
  using redis_store.spares_reap [OF assms(1,3,2,4), of cal now batch_size] assms(5)
  by (simp add: conn_spares_def spares_def)

definition reap_store0 :: mem where
  "reap_store0 = mem_exec (SETEX (process_heartbeat_key ''b1'') (HNum 1) 60)
     (mem_exec (HSET (reservation_meta_key ''lease:b1:01'') [(''boot_id'', HStr ''b1'')])
       (mem_exec (SADD RESERVATION_INDEX ''lease:b1:01'')
         (mem_exec (HSET (ledger_key None ''account'' ''a'' ''rpm'' ''1'') [(''lease:b1:01'', HNum 1), (''__total'', HNum 1)]) mem_empty)))"

theorem reaper_spares_living_witness:
  "fmlookup (hashes (conn_store (fst (reap_orphan_reservations mem_redis cal0 0 ''b2'' 200 (conn0\<lparr>conn_store := reap_store0\<rparr>)))))
      (ledger_key None ''account'' ''a'' ''rpm'' ''1'', ''lease:b1:01'') = Some (HNum 1)"
proof -
  let ?c = "conn0\<lparr>conn_store := reap_store0\<rparr>"
  let ?k = "ledger_key None ''account'' ''a'' ''rpm'' ''1''"
  have hb: "process_heartbeat_key ''b1'' \<noteq> reservation_meta_key ''lease:b1:01''" "?k \<noteq> process_heartbeat_key ''b1''"
    "?k \<noteq> reservation_meta_key ''lease:b1:01''"
    by (simp_all add: process_heartbeat_key_def reservation_meta_key_def ledger_key_def be_key_def RESERVATION_PREFIX_def
        PROCESS_HEARTBEAT_PREFIX_def)
  have "r_hget mem_redis reap_store0 (reservation_meta_key ''lease:b1:01'') ''boot_id'' = Some (HStr ''b1'')"
    using hb unfolding reap_store0_def mem_redis_sel(1) [symmetric] by (simp del: mem_redis_sel)
  moreover have "r_ttl mem_redis reap_store0 (process_heartbeat_key ''b1'') = 60"
    unfolding reap_store0_def mem_redis_sel(1) [symmetric] by (rule mem.ttl_SETEX) simp
  ultimately have "owner_lives mem_redis None ''b2'' ''lease:b1:01'' reap_store0"
    by (simp add: owner_lives_def decode_meta_field_def be_key_def r_exists_def)
  moreover have "plain_rid ''lease:b1:01''" by (simp add: plain_rid_code)
  moreover have "?k \<in> ledger_keys None" by (auto simp: ledger_keys_def)
  moreover have "r_hget mem_redis reap_store0 ?k ''lease:b1:01'' = Some (HNum 1)"
    using hb unfolding reap_store0_def mem_redis_sel(1) [symmetric] by (simp del: mem_redis_sel)
  ultimately show ?thesis
    using reaper_spares_living [OF mem.redis_store_axioms, of ?c "''lease:b1:01''" "''b2''" ?k cal0 0 200] by simp
qed

text \<open>
  C7. Reaching a request limit freezes the account: once an admitted reservation brings a request
  window to its limit, the next reservation of that account that checks freezes is refused as
  \<open>frozen\<close> and changes nothing.
\<close>

theorem limit_reached_freezes:
  assumes "redis_store R" "reserve_ok K A" "freeze_apart A"
    and "\<forall>k \<in> {ra_rpm_key A, ra_rpd_key A, ra_rph_key A}. r_ttl R s k \<noteq> 0"
    and "reserve_script R A s = (s', r)" "rr_allowed r" "reached A r"
    and "ra_freeze_key A' = ra_freeze_key A" "\<not> ra_skip_freeze A'"
  shows "\<exists>ttl > 0. reserve_script R A' s' = (s', denied ''frozen'' ttl 0)"
  using redis_store.reserve_freezes [OF assms(1-7)] redis_store.reserve_frozen [OF assms(1), of s' A'] assms(8,9)
  by auto

theorem limit_reached_freezes_witness:
  "\<exists>ttl > 0. reserve_script mem_redis (reserve_args_of None cal0 601 (params0\<lparr>rp_lease_id := ''lease:b1:02''\<rparr>)) (conn_store conn1)
     = (conn_store conn1, denied ''frozen'' ttl 0)"
proof -
  let ?A = "reserve_args_of None cal0 600 params0"
  note ok = reserve_args_ok [OF params0_ok, of None cal0 600]
  from reserve_Some [OF reserve1] res1_allowed obtain rep where
    rep: "reserve_script mem_redis ?A mem_empty = (conn_store conn1, rep)" "rr_allowed rep" by auto
  have "rr_rpm rep = 1"
    using mem.reserve_script_rpm [OF ledgers_rel_mem_empty ok rep]
    by (simp add: map_total_upd reserve_args_of_def params0_def Let_def)
  then have "reached ?A rep" by (simp add: reached_def reserve_args_of_def params0_def Let_def)
  moreover have "freeze_apart ?A"
    by (simp add: freeze_apart_def reserve_args_of_def params0_def Let_def account_ledger_keys_def w0_def ledger_key_def be_key_def
        concurrency_key_def reservation_meta_key_def RESERVATION_PREFIX_def RESERVATION_INDEX_def)
  ultimately show ?thesis
    using limit_reached_freezes [OF mem.redis_store_axioms ok _ _ rep, of "reserve_args_of None cal0 601 (params0\<lparr>rp_lease_id := ''lease:b1:02''\<rparr>)"]
    by (simp add: reserve_args_of_def params0_def Let_def)
qed

text \<open>
  Renewal never revives a lease: a lease that is no longer in its account's set is not put
  back and the caller gets \<open>None\<close>; a held one gets its expiry moved to \<open>now + ttl\<close>.
\<close>

theorem renew_only_held:
  assumes "redis_store R" "conn_client c" "lease \<noteq> []" "0 < ttl" "0 \<le> now" "conn_faults c = []"
  shows "let k = concurrency_key (conn_prefix c) ak; (c', res) = renew_account_reservation R now ak lease ttl c
         in if r_zscore R (conn_store c) k lease = None then conn_store c' = conn_store c \<and> res = None
            else r_zscore R (conn_store c') k lease = Some (now + of_int ttl) \<and> res = Some (of_int \<lfloor>now\<rfloor> + of_int ttl)"
proof -
  have "0 \<le> now + of_int ttl" "trunc (now + of_int ttl) = \<lfloor>now\<rfloor> + ttl" "0 < \<lfloor>now\<rfloor> + ttl"
    using assms(4,5) by (auto simp: trunc_def add_nonneg_pos)
  then show ?thesis
    using assms redis_store.zscore_EXPIRE [OF assms(1), of "ttl + 60"] redis_store.zscore_ZADD [OF assms(1)]
    by (auto simp: renew_account_reservation_def renew_script_def call_ok Let_def)
qed

theorem renew_only_held_witness:
  "renew_account_reservation mem_redis 700 ''account:p:u'' ''lease:b1:09'' 900 conn0 = (conn0, None)"
  using renew_only_held [OF mem.redis_store_axioms, of conn0 "''lease:b1:09''" 900 700 "''account:p:u''"]
  by (simp add: renew_account_reservation_def renew_script_def call_ok Let_def)

end
