(* ===== verification/Lub_ManagerProps.thy ===== *)
theory Lub_ManagerProps
  imports Lub_LimitManager Lub_LedgerProps
begin

text \<open>
  Properties of \<open>LimitManager\<close> and of the lease bookkeeping of \<open>AccountClient\<close>: probes leave the
  ledgers alone, an uncertain reservation is undone by the cleanup that is scheduled for it, a
  lease is settled at most once, and the in-flight counter follows the leases.
\<close>

section \<open>Ledgers along manager operations\<close>

abbreviation mg_store :: "'s mgr \<Rightarrow> 's" where
  "mg_store m \<equiv> conn_store (mg_conn m)"

abbreviation mg_ledgers :: "'s mgr \<Rightarrow> key set" where
  "mg_ledgers m \<equiv> ledger_keys (conn_prefix (mg_conn m))"

lemma reserve_store_rel:
  assumes "redis_store R" "reserve_params_ok cap P" "ledgers_rel R (ledger_keys (conn_prefix c)) (conn_store c) L"
  shows "\<exists>L' \<in> {L, spec_reserve (reserve_args_of (conn_prefix c) cal now P) L}.
     ledgers_rel R (ledger_keys (conn_prefix c)) (conn_store (fst (reserve_account_limits R cal now P c))) L'"
  using reserve_conn_store(2) [of R cal now P c] redis_store.reserve_script_rel [OF assms(1,3) reserve_args_ok [OF assms(2)], of cal now] assms(3)
  by (auto split: if_splits)

lemma pass_time_rel:
  assumes "redis_store R" "ledgers_rel R (mg_ledgers m) (mg_store m) L"
  shows "\<exists>L'. ledgers_rel R (mg_ledgers m) (mg_store (pass_time R d m)) L'
    \<and> (\<forall>k. L' k = L k \<or> L' k = fmempty \<and> r_hget R (r_elapse R d (mg_store m)) k \<noteq> r_hget R (mg_store m) k)"
proof (intro exI conjI)
  let ?s = "mg_store m"
  let ?L = "\<lambda>k. if r_hget R (r_elapse R d ?s) k = r_hget R ?s k then L k else fmempty"
  have "ledger_rel R (r_elapse R d ?s) k (?L k)" if "k \<in> mg_ledgers m" for k
    using assms(2) that redis_store.elapse_hget [OF assms(1), of d ?s k] ledger_rel_frame [of R ?s k "L k" "r_elapse R d ?s"]
      ledger_rel_empty [of R "r_elapse R d ?s" k]
    by (auto simp: ledgers_rel_def)
  then show "ledgers_rel R (mg_ledgers m) (mg_store (pass_time R d m)) ?L" by (simp add: ledgers_rel_def pass_time_def)
qed auto

lemma release_conn_rel:
  assumes "redis_store R" "ledgers_rel R K (conn_store c) L"
  shows "ledgers_rel R K (conn_store (fst (release_account_reservation R ak lease c))) L"
    and "conn_prefix (fst (release_account_reservation R ak lease c)) = conn_prefix c"
proof -
  have "ledgers_rel R K (fst (release_script R k lease s)) L" if "ledgers_rel R K s L" for k s
    by (rule redis_store.ledgers_rel_frame [OF assms(1) that])
       (simp add: release_script_def fun_eq_iff redis_store.hget_frame [OF assms(1)])
  then show "ledgers_rel R K (conn_store (fst (release_account_reservation R ak lease c))) L"
    using assms(2) call_store [of "release_script R (concurrency_key (conn_prefix c) ak) lease" c]
    by (auto simp: release_account_reservation_def)
  show "conn_prefix (fst (release_account_reservation R ak lease c)) = conn_prefix c"
    by (simp add: release_account_reservation_def)
qed

fun release_waits :: "'s redis \<Rightarrow> string \<Rightarrow> string \<Rightarrow> (rat \<times> int option) list \<Rightarrow> 's mgr \<Rightarrow> (rat \<times> 's) list" where
  \<comment> \<open>the pauses \<open>cleanup_release\<close> makes, each with the server state it finds\<close>
  "release_waits R ak lease [] m = []"
| "release_waits R ak lease ((delay, deadline) # rest) m =
     (let (m1, r) = routing_redis_call ''account_failed_reservation_cleanup'' False deadline
                      (release_account_reservation R ak lease) (pass_time R delay m)
      in (delay, mg_store m) # (if r = Some True then [] else release_waits R ak lease rest m1))"

definition expired_in :: "'s redis \<Rightarrow> (rat \<times> 's) list \<Rightarrow> key \<Rightarrow> bool" where
  \<comment> \<open>the hash ran out during one of the pauses\<close>
  "expired_in R waits k \<longleftrightarrow> (\<exists>(d, s) \<in> set waits. r_hget R (r_elapse R d s) k \<noteq> r_hget R s k)"

lemma cleanup_release_rel:
  assumes "redis_store R" "ledgers_rel R (mg_ledgers m) (mg_store m) L"
  shows "\<exists>L'. ledgers_rel R (mg_ledgers m) (mg_store (cleanup_release R ak lease ds m)) L'
    \<and> (\<forall>k. L' k = L k \<or> L' k = fmempty \<and> expired_in R (release_waits R ak lease ds m) k)"
  using assms(2)
proof (induction ds arbitrary: m L)
  case (Cons d ds)
  obtain delay dl where d: "d = (delay, dl)" by fastforce
  let ?c = "routing_redis_call ''account_failed_reservation_cleanup'' False dl (release_account_reservation R ak lease) (pass_time R delay m)"
  let ?m1 = "fst ?c"
  obtain L1 where L1: "ledgers_rel R (mg_ledgers m) (mg_store (pass_time R delay m)) L1"
      "\<forall>k. L1 k = L k \<or> L1 k = fmempty \<and> r_hget R (r_elapse R delay (mg_store m)) k \<noteq> r_hget R (mg_store m) k"
    using pass_time_rel [OF assms(1) Cons.prems] by blast
  have pfx: "conn_prefix (mg_conn ?m1) = conn_prefix (mg_conn m)"
    using release_conn_rel(2) [OF assms(1) L1(1)] by (simp add: pass_time_def)
  have rel: "ledgers_rel R (mg_ledgers ?m1) (mg_store ?m1) L1"
    using release_conn_rel(1) [OF assms(1) L1(1), of ak lease] pfx by simp
  obtain L2 where L2: "ledgers_rel R (mg_ledgers m) (mg_store (cleanup_release R ak lease ds ?m1)) L2"
      "\<forall>k. L2 k = L1 k \<or> L2 k = fmempty \<and> expired_in R (release_waits R ak lease ds ?m1) k"
    using Cons.IH [OF rel] pfx by auto
  show ?case
  proof (cases "snd ?c = Some True")
    case True
    then have "cleanup_release R ak lease (d # ds) m = ?m1" "release_waits R ak lease (d # ds) m = [(delay, mg_store m)]"
      by (simp_all add: d Let_def split_def)
    with rel L1(2) pfx show ?thesis by (auto simp: expired_in_def)
  next
    case False
    then have "cleanup_release R ak lease (d # ds) m = cleanup_release R ak lease ds ?m1"
        "release_waits R ak lease (d # ds) m = (delay, mg_store m) # release_waits R ak lease ds ?m1"
      by (simp_all add: d Let_def split_def)
    moreover have "L2 k = L k \<or> L2 k = fmempty \<and> expired_in R ((delay, mg_store m) # release_waits R ak lease ds ?m1) k" for k
      using L1(2) [rule_format, of k] L2(2) [rule_format, of k] by (auto simp: expired_in_def)
    ultimately show ?thesis using L2(1) by auto
  qed
qed auto

lemma rollback_delivered:
  assumes "redis_store R" "ledgers_rel R (ledger_keys (conn_prefix c)) (conn_store c) L" "plain_rid rid"
    and "conn_client c" "conn_faults c = []" "ak \<noteq> []" "rid \<noteq> []"
  shows "ledgers_rel R (ledger_keys (conn_prefix c)) (conn_store (fst (rollback_account_reservation R cal now ak mid rid (Some w) c)))
           (spec_rollback rid (rollback_keys (conn_prefix c) ak mid w) L)"
    and "conn_prefix (fst (rollback_account_reservation R cal now ak mid rid (Some w) c)) = conn_prefix c"
  using redis_store.rollback_script_rel(1) [OF assms(1,2) rollback_keys_ledger assms(3) meta_not_ledger] assms(4-7)
  by (simp_all add: rollback_account_reservation_def call_ok Let_def)

lemma reserve_entries_rolled_back:
  "fst ` set (reserve_entries (reserve_args_of pfx cal now P)) \<subseteq>
     set (rollback_keys pfx (rp_account_key P) (rp_model_id P) (case rp_window_ids P of Some w \<Rightarrow> w | None \<Rightarrow> reservation_window_ids cal now))"
  by (auto simp: reserve_entries_def token_specs_def rollback_keys_def reserve_args_of_def Let_def opt_str_def
      split: if_splits option.splits)

lemma spec_rollback_fresh: "(\<And>k. k \<in> set ks \<Longrightarrow> fmlookup (L k) rid = None) \<Longrightarrow> spec_rollback rid ks L = L"
  by (auto simp: spec_rollback_def fun_eq_iff intro!: fmap_ext)

section \<open>Concrete data for the witnesses\<close>

definition acquire0 :: acquire_in where
  "acquire0 = \<lparr>ai_now = 600, ai_model = ''m'', ai_is_test = False, ai_token_estimate = 0, ai_check = (True, ''''), ai_boot = ''b1'',
     ai_uuid = ''00ff'', ai_model_tpm_limit = 0, ai_allow_overflow = True, ai_deadline = Some 1000\<rparr>"

definition mgr0 :: "mem mgr" where
  "mgr0 = \<lparr>mg_conn = conn0\<lparr>conn_faults := [LostReply]\<rparr>, mg_routing = None, mg_active = [], mg_cleanups = [], mg_renewals = [],
     mg_model_cooldowns = [], mg_published = [], mg_aux_rejected = 0\<rparr>"

lemma acquire0_sel [simp]: "ai_now acquire0 = 600" "ai_model acquire0 = ''m''" "\<not> ai_is_test acquire0" "ai_check acquire0 = (True, '''')"
  "ai_deadline acquire0 = Some 1000"
  by (simp_all add: acquire0_def)

lemma account0_sel [simp]: "\<not> ac_is_test account0" "ac_concurrent_limit account0 = 1"
  by (simp_all add: account0_def)

lemma mgr0_sel [simp]: "mg_conn mgr0 = conn0\<lparr>conn_faults := [LostReply]\<rparr>" "mg_routing mgr0 = None" "mg_cleanups mgr0 = []"
  by (simp_all add: mgr0_def)

lemma uuid0 [simp]: "uuid_ok (ai_uuid acquire0)" "uuid_ok (ai_uuid (acquire0\<lparr>ai_is_test := b\<rparr>))"
  by (simp_all add: acquire0_def uuid_ok_def)

section \<open>Properties\<close>

lemma acquire_lease_probe:
  assumes "acquire_account R cal i (m, a) = ((m1, a1), res)" "res = Inr r" "lres_lease r = Some l"
  shows "test_probe l = acquire_probe i a"
proof -
  obtain b av where av: "(if acquire_probe i a then (a, Inr (decision True '''' None []))
      else account_available_locked (ai_now i) (Some (ai_model i)) (ai_check i) False a) = (b, av)"
    by (metis surj_pair)
  note eq = assms(1) [unfolded acquire_account_def prod.case Let_def acquire_probe_def [symmetric] av]
  have lad: "test_probe l = test_probe l0" if "lres_lease (snd (on_admitted i P l0 r0 (m2, b))) = Some l" for P l0 r0 m2
    using that by (auto simp: on_admitted_def Let_def split_def)
  have lden: "lres_lease (snd (on_denied i r0 (m2, b))) = None" for r0 m2
    by (simp add: on_denied_def Let_def split_def)
  have lunc: "test_probe l = test_probe l0" if "lres_lease (snd (on_uncertain i P l0 m2)) = Some l" for P l0 m2
    using that by (auto simp: on_uncertain_def uncertain_def Let_def split: if_splits)
  show ?thesis
    using eq assms(2,3) by (auto simp: split_def lden uncertain_def dest!: lad lunc split: sum.splits if_splits option.splits)
qed

text \<open>
  C8. A test or probe never changes a ledger: whatever comes back from Redis and whichever deadline strikes,
  every ledger keeps exactly the entries it had when the account is asked for, and settling or rolling back the
  lease that was granted, with any usage and in any state of the manager, changes nothing at all.
\<close>

theorem probe_leaves_ledgers:
  assumes "redis_store R" "uuid_ok (ai_uuid i)" "ledgers_rel R (mg_ledgers m) (mg_store m) L" "ai_is_test i \<or> ac_is_test a"
    and "acquire_account R cal i (m, a) = ((m1, a1), res)"
  shows "ledgers_rel R (mg_ledgers m) (mg_store m1) L
    \<and> (\<forall>r l m2. res = Inr r \<longrightarrow> lres_lease r = Some l \<longrightarrow>
         fst (fst (mgr_reconcile R cal now dl actual (m2, l))) = m2 \<and> fst (fst (mgr_rollback R cal now dl (m2, l))) = m2)"
proof -
  have "ledgers_rel R (mg_ledgers m) (mg_store m1) L"
    using assms(5)
  proof (cases rule: acquire_cases)
    case local_only
    with assms(3) show ?thesis by simp
  next
    case (reserved b P)
    have "acquire_probe i a" using assms(4) by (simp add: acquire_probe_def)
    with reserved have P: "P = acquire_params cal i True b" by simp
    have "spec_reserve (reserve_args_of pfx cal (ai_now i) P) L = L" for pfx
      by (simp add: P spec_reserve_def probe_entries)
    then show ?thesis
      using reserve_store_rel [OF assms(1) acquire_params_ok [OF assms(2), of b cal True] assms(3), where cal = cal and now = "ai_now i"] reserved
      by (simp add: P)
  qed
  moreover have "fst (fst (mgr_reconcile R cal now dl actual (m2, l))) = m2 \<and> fst (fst (mgr_rollback R cal now dl (m2, l))) = m2"
    if "res = Inr r" "lres_lease r = Some l" for r l m2
    using acquire_lease_probe [OF assms(5) that] assms(4) by (auto simp: acquire_probe_def mgr_reconcile_def mgr_rollback_def)
  ultimately show ?thesis by blast
qed

definition probe0 :: acquire_in where
  "probe0 = acquire0\<lparr>ai_is_test := True, ai_deadline := None\<rparr>"

definition mgr1 :: "mem mgr" where
  "mgr1 = mgr0\<lparr>mg_conn := conn0\<rparr>"

lemma probe_granted: "\<exists>r l. snd (acquire_account mem_redis cal0 probe0 (mgr1, account0)) = Inr r \<and> lres_lease r = Some l"
proof -
  have "case snd (acquire_account mem_redis cal0 probe0 (mgr1, account0)) of Inr r \<Rightarrow> lres_lease r \<noteq> None | Inl e \<Rightarrow> False"
    by code_simp
  then show ?thesis by (auto split: sum.splits)
qed

theorem probe_leaves_ledgers_witness:
  "\<exists>m1 a1 r l. acquire_account mem_redis cal0 probe0 (mgr1, account0) = ((m1, a1), Inr r) \<and> lres_lease r = Some l
     \<and> ledgers_rel mem_redis (ledger_keys None) (mg_store m1) (\<lambda>k. fmempty)
     \<and> fst (fst (mgr_reconcile mem_redis cal0 610 None 500 (m1, l))) = m1"
proof -
  obtain r l m1 a1 where *: "acquire_account mem_redis cal0 probe0 (mgr1, account0) = ((m1, a1), Inr r)" "lres_lease r = Some l"
    using probe_granted by (metis prod.collapse)
  have "ledgers_rel mem_redis (mg_ledgers mgr1) (mg_store mgr1) (\<lambda>k. fmempty)" "conn_prefix (mg_conn mgr1) = None"
    by (simp_all add: mgr1_def mgr0_def)
  moreover have "uuid_ok (ai_uuid probe0)" "ai_is_test probe0" by (simp_all add: probe0_def acquire0_def uuid_ok_def)
  ultimately show ?thesis
    using probe_leaves_ledgers [OF mem.redis_store_axioms _ _ _ *(1), of "\<lambda>k. fmempty" 610 None 500] * by auto
qed

definition cleanup_waits :: "'s redis \<Rightarrow> calendar \<Rightarrow> time \<Rightarrow> int option list \<Rightarrow> cleanup \<Rightarrow> 's mgr \<Rightarrow> (rat \<times> 's) list" where
  \<comment> \<open>the pauses of the task for a failed reservation, which follow its one rollback call\<close>
  "cleanup_waits R cal now dls t m = (case t of
      FailedReservation ak lease mid w \<Rightarrow> release_waits R ak lease (zip CLEANUP_DELAYS dls)
        (fst (routing_redis_call ''account_failed_reservation_ledger_rollback'' False None (rollback_account_reservation R cal now ak mid lease w) m))
    | _ \<Rightarrow> [])"

text \<open>
  An uncertain reservation leaves no trace in the ledgers once its cleanup has got through: if
  \<open>acquire_account\<close> schedules a cleanup because no answer came back (the script may or may not have run), then
  running that cleanup over a connection that works brings every ledger back to exactly the entries it had before the
  reservation; only a ledger whose hash runs out during one of the cleanup's own pauses is empty instead. The
  connection has to work for one call, the rollback, which the cleanup makes once and does not repeat.
\<close>

theorem uncertain_reservation_undone:
  assumes "redis_store R" "uuid_ok (ai_uuid i)" "ledgers_rel R (mg_ledgers m) (mg_store m) L"
    and "\<forall>k. fmlookup (L k) (lease_id_of i) = None"
    and "acquire_account R cal i (m, a) = ((m1, a1), res)" "mg_cleanups m1 = mg_cleanups m @ [t]"
    and "conn_client (mg_conn m1)" "conn_faults (mg_conn m1) = []"
  shows "\<exists>L'. ledgers_rel R (mg_ledgers m) (mg_store (run_cleanup R cal now None dls t m1)) L'
     \<and> (\<forall>k. L' k = L k \<or> L' k = fmempty \<and> expired_in R (cleanup_waits R cal now dls t m1) k)"
  using assms(5)
proof (cases rule: acquire_cases)
  case local_only
  with assms(6) show ?thesis by simp
next
  case (reserved b P)
  let ?w = "reservation_window_ids cal (ai_now i)"
  let ?A = "reserve_args_of (conn_prefix (mg_conn m)) cal (ai_now i) P"
  let ?ks = "rollback_keys (conn_prefix (mg_conn m)) (rp_account_key P) (Some (ai_model i)) ?w"
  have t: "t = FailedReservation (rp_account_key P) (lease_id_of i) (Some (ai_model i)) (Some ?w)"
    using assms(6) reserved(4) by auto
  have ok: "reserve_params_ok (\<lambda>ak. ac_concurrent_limit b) P" unfolding reserved(2) by (rule acquire_params_ok [OF assms(2)])
  have pfx: "conn_prefix (mg_conn m1) = conn_prefix (mg_conn m)" using reserved(3) reserve_conn_store(1) by metis
  obtain L1 where L1: "L1 \<in> {L, spec_reserve ?A L}" "ledgers_rel R (mg_ledgers m) (mg_store m1) L1"
    using reserve_store_rel [OF assms(1) ok assms(3), of cal "ai_now i"] reserved(3) by auto
  have rid: "ra_rid ?A = lease_id_of i" using reserved(2) by (simp add: reserve_args_of_def Let_def)
  have "spec_rollback (lease_id_of i) ?ks (spec_reserve ?A L) = L"
    using spec_rollback_reserve [of ?A ?ks L] reserve_entries_rolled_back [of "conn_prefix (mg_conn m)" cal "ai_now i" P] reserved(2) assms(4) rid by simp
  then have undone: "spec_rollback (lease_id_of i) ?ks L1 = L"
    using L1(1) assms(4) spec_rollback_fresh [of ?ks L "lease_id_of i"] by auto
  let ?c = "mg_conn m1"
  have ne: "rp_account_key P \<noteq> []" "lease_id_of i \<noteq> []" using reserved(2) by (simp_all add: account_key_def lease_id_of_def)
  note rb = rollback_delivered [OF assms(1) _ plain_lease_id [OF assms(2)] assms(7,8) ne, of L1 cal now "Some (ai_model i)" ?w]
  let ?m2 = "fst (routing_redis_call ''account_failed_reservation_ledger_rollback'' False None
     (rollback_account_reservation R cal now (rp_account_key P) (Some (ai_model i)) (lease_id_of i) (Some ?w)) m1)"
  have "ledgers_rel R (mg_ledgers ?m2) (mg_store ?m2) L" "conn_prefix (mg_conn ?m2) = conn_prefix (mg_conn m)"
    using rb L1(2) pfx undone by simp_all
  with cleanup_release_rel [OF assms(1), of ?m2 L "rp_account_key P" "lease_id_of i" "zip CLEANUP_DELAYS dls"] show ?thesis
    by (simp add: t run_cleanup_def cleanup_waits_def cleanup_failed_reservation_def Let_def split_def)
qed

lemma acquire0_uncertain:
  "\<exists>m1 a1 res t. acquire_account mem_redis cal0 acquire0 (mgr0, account0) = ((m1, a1), res) \<and> mg_cleanups m1 = mg_cleanups mgr0 @ [t]
     \<and> conn_client (mg_conn m1) \<and> conn_faults (mg_conn m1) = []"
proof -
  have av: "account_available_locked 600 (Some ''m'') (True, '''') False account0 = (account0, Inr (decision True '''' None []))"
    by (simp add: account_available_locked_def hard_state_def is_frozen_def entry_frozen_def account0_def provider0_def no_freeze_def
        soft_state_def is_model_frozen_def sync_provider_quota_def trim_windows_def quota_state_def Let_def opt_str_def)
  have hr: "has_remote_limits (acquire_params cal0 acquire0 False account0)"
    by (simp add: has_remote_limits_def account0_def)
  show ?thesis
    by (simp add: acquire_account_def Let_def av hr routing_redis_call_def on_conn_def reserve_account_limits_def call_def split_def
        on_uncertain_def decision_def)
qed

theorem uncertain_reservation_undone_witness:
  "\<exists>m1 a1 res t L'. acquire_account mem_redis cal0 acquire0 (mgr0, account0) = ((m1, a1), res)
     \<and> ledgers_rel mem_redis (ledger_keys None) (mg_store (run_cleanup mem_redis cal0 610 None [None, None, None] t m1)) L' \<and> (\<forall>k. L' k = fmempty)"
proof -
  obtain m1 a1 res t where *: "acquire_account mem_redis cal0 acquire0 (mgr0, account0) = ((m1, a1), res)"
    "mg_cleanups m1 = mg_cleanups mgr0 @ [t]" "conn_client (mg_conn m1)" "conn_faults (mg_conn m1) = []"
    using acquire0_uncertain by blast
  from uncertain_reservation_undone [OF mem.redis_store_axioms uuid0(1) _ _ *, where L = "\<lambda>k. fmempty" and now = 610 and dls = "[None, None, None]"] *(1)
  show ?thesis by auto
qed

text \<open>
  A lease is settled at most once: after a reconciliation or a rollback has been asked for, every
  further reconciliation or rollback of that lease is answered without touching anything.
\<close>

theorem settled_once:
  "(let (st1, r) = mgr_reconcile R cal now dl actual (m, l)
    in mgr_reconcile R cal now' dl' actual' st1 = (st1, None) \<and> mgr_rollback R cal now' dl' st1 = (st1, None))
   \<and> (let (st1, r) = mgr_rollback R cal now dl (m, l)
      in mgr_reconcile R cal now' dl' actual' st1 = (st1, None) \<and> mgr_rollback R cal now' dl' st1 = (st1, None))"
proof -
  have 1: "settled (snd (fst (mgr_reconcile R cal now dl actual (m, l)))) \<or> rolled_back (snd (fst (mgr_reconcile R cal now dl actual (m, l))))"
    by (auto simp: mgr_reconcile_def Let_def split_def split: option.splits)
  have 2: "settled (snd (fst (mgr_rollback R cal now dl (m, l)))) \<or> rolled_back (snd (fst (mgr_rollback R cal now dl (m, l))))"
    by (auto simp: mgr_rollback_def Let_def split_def)
  have "mgr_reconcile R cal now' dl' actual' (m', l') = ((m', l'), None) \<and> mgr_rollback R cal now' dl' (m', l') = ((m', l'), None)"
    if "settled l' \<or> rolled_back l'" for m' l'
    using that by (auto simp: mgr_reconcile_def mgr_rollback_def)
  with 1 2 show ?thesis by (simp add: split_def Let_def) (metis prod.collapse)
qed

definition leases_ok :: "account_client \<Rightarrow> bool" where
  "leases_ok a \<longleftrightarrow> distinct (map fst (ac_limit_leases a)) \<and> ac_in_flight a = int (length (ac_limit_leases a))"

lemma length_dset_new: "map_of d k = None \<Longrightarrow> length (dset d k v) = Suc (length d)"
  by (induction d k v rule: dset.induct) (auto split: if_splits)

lemma length_delete:
  "distinct (map fst xs) \<Longrightarrow> map_of xs k \<noteq> None \<Longrightarrow> length xs = Suc (length (AList.delete k xs))"
proof (induction xs)
  case (Cons x xs)
  show ?case
  proof (cases "fst x = k")
    case True
    with Cons.prems(1) have "k \<notin> fst ` set xs" by simp
    then have "AList.delete k xs = xs" by (simp add: delete_id)
    with True show ?thesis by (cases x) simp
  next
    case False
    with Cons show ?thesis by (cases x) auto
  qed
qed simp

lemma leases_ok_detach: "leases_ok a \<Longrightarrow> leases_ok (fst (detach_account_lease_locked lid a))"
proof -
  assume ok: "leases_ok a"
  have "int (length (AList.delete i (ac_limit_leases a))) = ac_in_flight a - 1 \<and> 0 < ac_in_flight a" if "map_of (ac_limit_leases a) i = Some l" for i l
    using length_delete [of "ac_limit_leases a" i] ok that by (simp add: leases_ok_def)
  with ok show ?thesis
    by (auto simp: detach_account_lease_locked_def leases_ok_def distinct_delete split: option.splits)
qed

lemma leases_ok_add:
  "leases_ok a \<Longrightarrow> map_of (ac_limit_leases a) i = None \<Longrightarrow>
   leases_ok (a\<lparr>ac_limit_leases := dset (ac_limit_leases a) i l, ac_requests := rq, ac_in_flight := ac_in_flight a + 1\<rparr>)
   \<and> leases_ok (a\<lparr>ac_limit_leases := dset (ac_limit_leases a) i l, ac_in_flight := ac_in_flight a + 1\<rparr>)"
  by (simp add: leases_ok_def distinct_dset length_dset_new)

lemma same_leases_ok: "same_leases a b \<Longrightarrow> leases_ok b = leases_ok a"
  by (simp add: leases_ok_def same_leases_def)

lemma local_freeze_leases: "same_leases a (snd st) \<Longrightarrow> same_leases a (snd (freeze_account_local_and_broadcast now s r st))"
  using same_leases_trans [OF _ freeze_leases] by (auto simp: freeze_account_local_and_broadcast_def split: prod.splits)

lemma on_admitted_leases: "same_leases a (snd (fst (on_admitted i P l r (m, a))))"
  by (simp add: on_admitted_def Let_def split_def local_freeze_leases)

lemma on_denied_leases: "same_leases a (snd (fst (on_denied i r (m, a))))"
  by (simp add: on_denied_def Let_def split_def)

lemma acquire_leases:
  assumes "acquire_account R cal i (m, a) = ((m1, a1), res)"
  shows "same_leases a a1" and "res = Inr r \<Longrightarrow> lres_lease r = Some l \<Longrightarrow> lease_id l = lease_id_of i"
proof -
  obtain b av where av: "(if acquire_probe i a then (a, Inr (decision True '''' None []))
      else account_available_locked (ai_now i) (Some (ai_model i)) (ai_check i) False a) = (b, av)"
    by (metis surj_pair)
  have sb: "same_leases a b"
    using av available_leases [of a "ai_now i" "Some (ai_model i)" "ai_check i" False] by (auto split: if_splits)
  have adm: "same_leases a a1" if "fst (on_admitted i P l r (m2, b)) = (m1, a1)" for P l r m2
    using same_leases_trans [OF sb on_admitted_leases [of b i P l r m2]] that by simp
  have den: "same_leases a a1" if "fst (on_denied i r (m2, b)) = (m1, a1)" for r m2
    using same_leases_trans [OF sb on_denied_leases [of b i r m2]] that by simp
  note eq = assms [unfolded acquire_account_def prod.case Let_def acquire_probe_def [symmetric] av]
  show "same_leases a a1"
    using eq sb by (auto simp: split_def dest: adm den split: sum.splits if_splits option.splits)
  have lad: "lease_id l = lease_id l0" if "lres_lease (snd (on_admitted i P l0 r0 (m2, b))) = Some l" for P l0 r0 m2
    using that by (auto simp: on_admitted_def Let_def split_def)
  have lden: "lres_lease (snd (on_denied i r0 (m2, b))) = None" for r0 m2
    by (simp add: on_denied_def Let_def split_def)
  have lunc: "lease_id l = lease_id l0" if "lres_lease (snd (on_uncertain i P l0 m2)) = Some l" for P l0 m2
    using that by (auto simp: on_uncertain_def uncertain_def Let_def split: if_splits)
  have [simp]: "lease_id (lease_default u x t) = x" for u x t by (simp add: lease_default_def)
  show "lease_id l = lease_id_of i" if "res = Inr r" "lres_lease r = Some l"
    using eq that by (auto simp: split_def lden uncertain_def dest!: lad lunc split: sum.splits if_splits option.splits)
qed

text \<open>
  C9. The in-flight counter is the number of leases the account holds, and reserving and releasing
  keep it so, on every branch (denial, fallback refusal, a provider that raises after the reservation).
\<close>

theorem in_flight_counts_leases:
  assumes "leases_ok a" "map_of (ac_limit_leases a) (lease_id_of i) = None"
  shows "leases_ok (snd (fst (fst (account_reserve R cal i ok dl ((m, a), task)))))
     \<and> leases_ok (snd (fst (account_release R dl ((m, a), task))))"
proof -
  obtain m1 a1 res where acq: "acquire_account R cal i (m, a) = ((m1, a1), res)" by (metis surj_pair)
  note same = acquire_leases(1) [OF acq]
  have ok1: "leases_ok a1" using same_leases_ok [OF same] assms(1) by simp
  have fresh: "map_of (ac_limit_leases a1) (lease_id l) = None" if "res = Inr r" "lres_lease r = Some l" for r l
    using acquire_leases(2) [OF acq that] same assms(2) by (simp add: same_leases_def)
  have "leases_ok (snd (fst (fst (account_reserve R cal i ok dl ((m, a), task)))))"
    using ok1 fresh
    by (auto simp: account_reserve_def acq Let_def split_def leases_ok_add leases_ok_detach split: sum.splits option.splits)
  moreover have "leases_ok (snd (fst (account_release R dl ((m, a), task))))"
    using leases_ok_detach [OF assms(1)] by (auto simp: account_release_def Let_def split_def)
  ultimately show ?thesis by blast
qed

theorem in_flight_counts_leases_witness:
  "leases_ok account0 \<and> leases_ok (snd (fst (fst (account_reserve mem_redis cal0 acquire0 True None ((mgr0, account0), [])))))"
proof -
  have "leases_ok account0" "map_of (ac_limit_leases account0) (lease_id_of acquire0) = None" by (simp_all add: leases_ok_def account0_def)
  with in_flight_counts_leases [OF this] show ?thesis by blast
qed

end
