(* ===== verification/Lub_CooldownProps.thy ===== *)
theory Lub_CooldownProps
  imports Lub_Cooldown
begin

text \<open>
  Properties of the cooldown store over a connection that works: what is written is read back,
  clearing an account removes its keys and no others, the overview keeps exactly the index members
  with a running expiry, which drops permanent freezes, and one reader raises on those.
\<close>

section \<open>A working connection\<close>

definition live :: "'s conn \<Rightarrow> bool" where
  "live c \<longleftrightarrow> conn_client c \<and> conn_faults c = [] \<and> conn_prefix c \<noteq> Some []"

lemma live_store [simp]: "live (c\<lparr>conn_store := s\<rparr>) = live c"
  by (simp add: live_def)

lemma conn_store_id [simp]: "c\<lparr>conn_store := conn_store c\<rparr> = c"
  by simp

lemma keys_agree [simp]: "live c \<Longrightarrow> get_key (conn_prefix c) k = be_key (conn_prefix c) k"
  by (auto simp: live_def get_key_def be_key_def split: option.splits)

lemma bare_of_be_key [simp]: "bare_key pfx (be_key pfx k) = k"
  by (auto simp: bare_key_def be_key_def startswith_def split: option.splits)

lemma live_ops [simp]:
  "live c \<Longrightarrow> cmd R x c = (c\<lparr>conn_store := r_exec R x (conn_store c)\<rparr>, Some ())"
  "live c \<Longrightarrow> cmds R xs c = (c\<lparr>conn_store := fold (r_exec R) xs (conn_store c)\<rparr>, Some ())"
  "live c \<Longrightarrow> read f c = (c, Some (f (conn_store c)))"
  by (simp_all add: live_def cmd_def cmds_def read_def call_def)

lemma and_then_simps [simp]: "and_then (c, Some a) f = f a c" "and_then (c, None) f = (c, None)"
  by (simp_all add: and_then_def)

lemma live_client [simp]: "live c \<Longrightarrow> conn_client c"
  by (simp add: live_def)

lemma index_mark_live:
  "live c \<Longrightarrow> p \<noteq> [] \<Longrightarrow> u \<noteq> [] \<Longrightarrow> index_mark R p u None c = c\<lparr>conn_store := r_exec R (SADD (be_key (conn_prefix c) INDEX_PROVIDERS) p)
     (r_exec R (SADD (be_key (conn_prefix c) (index_accounts_key p)) u) (conn_store c))\<rparr>"
  "live c \<Longrightarrow> p \<noteq> [] \<Longrightarrow> u \<noteq> [] \<Longrightarrow> m \<noteq> [] \<Longrightarrow> index_mark R p u (Some m) c = c\<lparr>conn_store := r_exec R (SADD (be_key (conn_prefix c) INDEX_PROVIDERS) p)
     (r_exec R (SADD (be_key (conn_prefix c) (index_models_key p)) (member_of u m)) (conn_store c))\<rparr>"
  by (simp_all add: index_mark_def Let_def)

section \<open>Keys of different families\<close>

lemma key_families [simp]:
  "cooldown_key p u \<noteq> INDEX_PROVIDERS" "cooldown_key p u \<noteq> index_accounts_key q" "cooldown_key p u \<noteq> index_models_key q"
  "INDEX_PROVIDERS \<noteq> cooldown_key p u" "index_accounts_key q \<noteq> cooldown_key p u" "index_models_key q \<noteq> cooldown_key p u"
  by (simp_all add: cooldown_key_def INDEX_PROVIDERS_def index_accounts_key_def index_models_key_def)

lemma model_key_families [simp]:
  "model_cooldown_key p u m \<noteq> INDEX_PROVIDERS" "model_cooldown_key p u m \<noteq> index_accounts_key q"
  "model_cooldown_key p u m \<noteq> index_models_key q" "model_cooldown_key p u m \<noteq> cooldown_key p u"
  "INDEX_PROVIDERS \<noteq> model_cooldown_key p u m" "index_accounts_key q \<noteq> model_cooldown_key p u m" "index_models_key q \<noteq> model_cooldown_key p u m"
  by (simp_all add: model_cooldown_key_def cooldown_key_def INDEX_PROVIDERS_def index_accounts_key_def index_models_key_def)

lemma last_char_keys: "last (index_accounts_key p) = CHR ''s''" "last (index_models_key p) = CHR ''s''"
  by (simp_all add: index_accounts_key_def index_models_key_def)

lemma index_key_families [simp]:
  "index_accounts_key p \<noteq> index_models_key q" "index_models_key q \<noteq> index_accounts_key p"
  "index_accounts_key p \<noteq> INDEX_PROVIDERS" "index_models_key p \<noteq> INDEX_PROVIDERS"
  "INDEX_PROVIDERS \<noteq> index_accounts_key p" "INDEX_PROVIDERS \<noteq> index_models_key p"
proof -
  have "rev (index_accounts_key p) \<noteq> rev (index_models_key q)"
    by (simp add: index_accounts_key_def index_models_key_def)
  then show "index_accounts_key p \<noteq> index_models_key q" "index_models_key q \<noteq> index_accounts_key p" by metis+
  have "rev (index_accounts_key p) \<noteq> rev INDEX_PROVIDERS" "rev (index_models_key p) \<noteq> rev INDEX_PROVIDERS"
    by (simp_all add: index_accounts_key_def index_models_key_def INDEX_PROVIDERS_def)
  then show "index_accounts_key p \<noteq> INDEX_PROVIDERS" "index_models_key p \<noteq> INDEX_PROVIDERS"
    "INDEX_PROVIDERS \<noteq> index_accounts_key p" "INDEX_PROVIDERS \<noteq> index_models_key p" by metis+
qed

lemma index_key_inj [simp]: "index_accounts_key p = index_accounts_key q \<longleftrightarrow> p = q" "index_models_key p = index_models_key q \<longleftrightarrow> p = q"
  by (simp_all add: index_accounts_key_def index_models_key_def)

section \<open>Round trip\<close>

context redis_store
begin

lemma get_SADD [simp]: "r_get R (r_exec R (SADD k x) s) k' = r_get R s k'"
  by (simp add: get_exec str_effect_def)

lemma get_SREM [simp]: "r_get R (r_exec R (SREM k x) s) k' = r_get R s k'"
  by (simp add: get_exec str_effect_def)

lemma ttl_SADD: "r_get R s k' \<noteq> None \<Longrightarrow> r_ttl R (r_exec R (SADD k x) s) k' = r_ttl R s k'"
proof -
  assume g: "r_get R s k' \<noteq> None"
  then have "present R (r_exec R (SADD k x) s) k'" by (simp add: present_def)
  moreover have "r_ttl R s k' \<noteq> -2" using g by (simp add: ttl_absent present_def)
  ultimately show ?thesis by (simp add: ttl_exec ttl_effect_def)
qed

lemma set_key_read:
  assumes "\<And>n. seconds = Some n \<Longrightarrow> 0 < n"
  shows "r_get R (r_exec R (case seconds of None \<Rightarrow> SETP k (HStr v) | Some n \<Rightarrow> SETEX k (HStr v) n) s) k = Some (HStr v)"
    and "r_ttl R (r_exec R (case seconds of None \<Rightarrow> SETP k (HStr v) | Some n \<Rightarrow> SETEX k (HStr v) n) s) k =
      (case seconds of None \<Rightarrow> -1 | Some n \<Rightarrow> n)"
proof -
  show g: "r_get R (r_exec R (case seconds of None \<Rightarrow> SETP k (HStr v) | Some n \<Rightarrow> SETEX k (HStr v) n) s) k = Some (HStr v)"
    using assms by (auto simp: get_exec str_effect_def split: option.splits)
  then have "present R (r_exec R (case seconds of None \<Rightarrow> SETP k (HStr v) | Some n \<Rightarrow> SETEX k (HStr v) n) s) k" by (simp add: present_def)
  then show "r_ttl R (r_exec R (case seconds of None \<Rightarrow> SETP k (HStr v) | Some n \<Rightarrow> SETEX k (HStr v) n) s) k =
      (case seconds of None \<Rightarrow> -1 | Some n \<Rightarrow> n)"
    using assms by (auto simp: ttl_exec ttl_effect_def split: option.splits)
qed

lemma cooldown_read_back:
  assumes "live c" "p \<noteq> []" "u \<noteq> []" "\<And>n. seconds = Some n \<Longrightarrow> 0 < n"
  shows "\<exists>c'. set_account_cooldown R p u seconds reason cat c = c' \<and> live c' \<and> conn_prefix c' = conn_prefix c
     \<and> r_get R (conn_store c') (be_key (conn_prefix c) (cooldown_key p u)) = Some (HStr (cooldown_value reason cat))
     \<and> r_ttl R (conn_store c') (be_key (conn_prefix c) (cooldown_key p u)) = (case seconds of None \<Rightarrow> -1 | Some n \<Rightarrow> n)"
proof -
  have n: "(case seconds of Some n \<Rightarrow> n \<le> 0 | None \<Rightarrow> False) = False" using assms(4) by (cases seconds) force+
  have sk: "set_key R k v seconds c = (c\<lparr>conn_store := r_exec R (case seconds of None \<Rightarrow> SETP k (HStr v) | Some n \<Rightarrow> SETEX k (HStr v) n) (conn_store c)\<rparr>, Some ())" for k v
    using assms(1) by (auto simp: set_key_def split: option.splits)
  show ?thesis
    using assms(1-3) by (simp add: set_account_cooldown_def n sk index_mark_live set_key_read [OF assms(4)] ttl_SADD)
qed

lemma model_cooldown_read_back:
  assumes "live c" "p \<noteq> []" "u \<noteq> []" "m \<noteq> []" "\<And>n. seconds = Some n \<Longrightarrow> 0 < n"
  shows "\<exists>c'. set_account_model_cooldown R p u m seconds reason c = c' \<and> live c' \<and> conn_prefix c' = conn_prefix c
     \<and> r_get R (conn_store c') (be_key (conn_prefix c) (model_cooldown_key p u m)) = Some (HStr reason)
     \<and> r_ttl R (conn_store c') (be_key (conn_prefix c) (model_cooldown_key p u m)) = (case seconds of None \<Rightarrow> -1 | Some n \<Rightarrow> n)"
proof -
  have n: "(case seconds of Some n \<Rightarrow> n \<le> 0 | None \<Rightarrow> False) = False" using assms(5) by (cases seconds) force+
  have sk: "set_key R k v seconds c = (c\<lparr>conn_store := r_exec R (case seconds of None \<Rightarrow> SETP k (HStr v) | Some n \<Rightarrow> SETEX k (HStr v) n) (conn_store c)\<rparr>, Some ())" for k v
    using assms(1) by (auto simp: set_key_def split: option.splits)
  show ?thesis
    using assms(1-4) by (simp add: set_account_model_cooldown_def n sk index_mark_live set_key_read [OF assms(5)] ttl_SADD)
qed

end

lemma looks_json_dumps: "looks_json (json_dumps (PDict (x # xs)))"
proof -
  let ?t = "json_dumps (PDict (x # xs))"
  obtain y where t: "?t = CHR ''{'' # y @ ''}''" by simp
  have "strip ?t = ?t" unfolding t strip_def lstrip_def rstrip_def by (simp add: is_space_def)
  then show ?thesis unfolding looks_json_def startswith_def using t by simp
qed

lemma parse_value:
  assumes "cat \<noteq> [] \<or> \<not> looks_json reason \<and> \<not> py_float_ok reason"
  shows "parse_reason (cooldown_value reason cat) = reason" "parse_category (cooldown_value reason cat) = cat"
proof -
  have j: "json_loads (json_dumps (PDict [(''reason'', PStr reason), (''category'', PStr cat)]))
      = Some (PDict [(''reason'', PStr reason), (''category'', PStr cat)])" by (rule json_loads_two) simp
  have f: "json_field (json_dumps (PDict [(''reason'', PStr reason), (''category'', PStr cat)])) ''reason'' = reason"
    "json_field (json_dumps (PDict [(''reason'', PStr reason), (''category'', PStr cat)])) ''category'' = cat"
    unfolding json_field_def j by (auto simp: dget_def py_or_def py_str_def)
  show "parse_reason (cooldown_value reason cat) = reason" "parse_category (cooldown_value reason cat) = cat"
    using assms looks_json_dumps f
    by (auto simp: parse_reason_def parse_category_def cooldown_value_def simp del: json_dumps.simps)
qed

lemma get_info_live:
  "live c \<Longrightarrow> get_account_cooldown_info R now p u c =
     (c, let k = be_key (conn_prefix c) (cooldown_key p u); v = stored_text (r_get R (conn_store c) k)
         in info_of now (r_ttl R (conn_store c) k) (parse_reason v) (parse_category v))"
  by (simp add: get_account_cooldown_info_def read_value_def Let_def)

lemma cooldown_info_back:
  assumes "redis_store R" "live c" "p \<noteq> []" "u \<noteq> []" "\<forall>n. seconds = Some n \<longrightarrow> 0 < n"
    and "cat \<noteq> [] \<or> \<not> looks_json reason \<and> \<not> py_float_ok reason"
  shows "live (set_account_cooldown R p u seconds reason cat c)"
    "get_account_cooldown_info R now p u (set_account_cooldown R p u seconds reason cat c) =
     (set_account_cooldown R p u seconds reason cat c,
      Some \<lparr>ci_until = map_option (\<lambda>n. now + of_int n) seconds, ci_remaining = seconds, ci_reason = reason,
           ci_category = cat, ci_permanent = (seconds = None)\<rparr>)"
proof -
  note rb = redis_store.cooldown_read_back [OF assms(1-4), of seconds reason cat]
  then obtain c' where c': "set_account_cooldown R p u seconds reason cat c = c'" "live c'" "conn_prefix c' = conn_prefix c"
      "r_get R (conn_store c') (be_key (conn_prefix c) (cooldown_key p u)) = Some (HStr (cooldown_value reason cat))"
      "r_ttl R (conn_store c') (be_key (conn_prefix c) (cooldown_key p u)) = (case seconds of None \<Rightarrow> -1 | Some n \<Rightarrow> n)"
    using assms(5) by blast
  show "live (set_account_cooldown R p u seconds reason cat c)"
    "get_account_cooldown_info R now p u (set_account_cooldown R p u seconds reason cat c) =
     (set_account_cooldown R p u seconds reason cat c,
      Some \<lparr>ci_until = map_option (\<lambda>n. now + of_int n) seconds, ci_remaining = seconds, ci_reason = reason,
           ci_category = cat, ci_permanent = (seconds = None)\<rparr>)"
    using c'(2-5) assms(5) unfolding c'(1) get_info_live [OF c'(2)]
    by (auto simp: stored_text_def parse_value [OF assms(6)] info_of_def split: option.splits)
qed

text \<open>
  C31. A freeze written to Redis is read back as it was meant: its remaining time, or that it is
  permanent, its category, and its reason, provided the reason is not a text that reads as a number or as JSON
  while no category is given.
\<close>

theorem cooldown_roundtrip:
  assumes "redis_store R" "live c" "p \<noteq> []" "u \<noteq> []" "\<forall>n. seconds = Some n \<longrightarrow> 0 < n"
    and "cat \<noteq> [] \<or> \<not> looks_json reason \<and> \<not> py_float_ok reason"
  shows "snd (get_account_cooldown_info R now p u (set_account_cooldown R p u seconds reason cat c)) =
     Some \<lparr>ci_until = map_option (\<lambda>n. now + of_int n) seconds, ci_remaining = seconds, ci_reason = reason,
           ci_category = cat, ci_permanent = (seconds = None)\<rparr>"
  using cooldown_info_back(2) [OF assms, of now] by simp

definition conn_gw :: "mem conn" where
  "conn_gw = \<lparr>conn_client = True, conn_prefix = Some ''gw'', conn_store = mem_empty, conn_faults = []\<rparr>"

lemma live_gw [simp]: "live conn_gw"
  by (simp add: live_def conn_gw_def)

lemma plain_reason: "\<not> looks_json ''rpm'' \<and> \<not> py_float_ok ''rpm''"
  by code_simp

theorem cooldown_roundtrip_witness:
  "snd (get_account_cooldown_info mem_redis 100 ''p'' ''u'' (set_account_cooldown mem_redis ''p'' ''u'' (Some 60) ''rpm'' '''' conn_gw)) =
     Some \<lparr>ci_until = Some 160, ci_remaining = Some 60, ci_reason = ''rpm'', ci_category = '''', ci_permanent = False\<rparr>"
  using cooldown_roundtrip [OF mem.redis_store_axioms live_gw, of "''p''" "''u''" "Some 60" "''''" "''rpm''" 100] plain_reason by simp

text \<open>
  Reading the remaining time of a permanent model freeze raises \<open>TypeError\<close>, while the same
  question about a permanent account freeze is answered with -1.
\<close>

theorem permanent_model_remaining_raises:
  assumes "redis_store R" "live c" "p \<noteq> []" "u \<noteq> []" "m \<noteq> []"
  shows "snd (get_account_model_cooldown_remaining R now p u m (set_account_model_cooldown R p u m None reason c)) = Inl TypeError
       \<and> snd (get_account_cooldown_remaining R now p u (set_account_cooldown R p u None reason cat c)) = Inr (-1)"
proof -
  obtain c1 where c1: "set_account_model_cooldown R p u m None reason c = c1" "live c1" "conn_prefix c1 = conn_prefix c"
      "r_get R (conn_store c1) (be_key (conn_prefix c) (model_cooldown_key p u m)) = Some (HStr reason)"
      "r_ttl R (conn_store c1) (be_key (conn_prefix c) (model_cooldown_key p u m)) = -1"
    using redis_store.model_cooldown_read_back [OF assms, of None reason] by auto
  obtain c2 where c2: "set_account_cooldown R p u None reason cat c = c2" "live c2" "conn_prefix c2 = conn_prefix c"
      "r_get R (conn_store c2) (be_key (conn_prefix c) (cooldown_key p u)) = Some (HStr (cooldown_value reason cat))"
      "r_ttl R (conn_store c2) (be_key (conn_prefix c) (cooldown_key p u)) = -1"
    using redis_store.cooldown_read_back [OF assms(1-4), of None reason cat] by auto
  show ?thesis
    using c1(2-5) c2(2-5) assms(2) unfolding c1(1) c2(1)
    by (simp add: get_account_model_cooldown_remaining_def get_account_model_cooldown_info_def get_account_cooldown_remaining_def
        get_account_cooldown_info_def read_value_def info_of_def)
qed

theorem permanent_model_remaining_raises_witness:
  "snd (get_account_model_cooldown_remaining mem_redis 100 ''p'' ''u'' ''m''
     (set_account_model_cooldown mem_redis ''p'' ''u'' ''m'' None ''banned'' conn_gw)) = Inl TypeError"
  using permanent_model_remaining_raises [OF mem.redis_store_axioms live_gw, of "''p''" "''u''" "''m''" 100 "''banned''"] by simp

section \<open>Clearing\<close>

context redis_store
begin

lemma same_key_DEL: "k \<noteq> k' \<Longrightarrow> same_key R k (r_exec R (DEL k') s) s"
  by (simp add: same_key_def fun_eq_iff hget_exec zscore_exec sismember_exec get_exec hash_effect_def zset_effect_def set_effect_def str_effect_def)

lemma gone_DEL: "\<not> present R (r_exec R (DEL k) s) k"
  by (simp add: present_def hget_exec zscore_exec sismember_exec get_exec hash_effect_def zset_effect_def set_effect_def str_effect_def)

lemma same_key_SREM: "k \<noteq> k' \<Longrightarrow> same_key R k (r_exec R (SREM k' x) s) s"
  by (auto simp: same_key_def fun_eq_iff hget_exec zscore_exec sismember_exec get_exec hash_effect_def zset_effect_def set_effect_def str_effect_def)

lemma same_key_trans: "same_key R k s t \<Longrightarrow> same_key R k t v \<Longrightarrow> same_key R k s v"
  by (simp add: same_key_def)

lemma same_key_present: "same_key R k s t \<Longrightarrow> present R s k = present R t k"
  by (simp add: same_key_def present_def)

lemma sismember_SREM [simp]: "r_sismember R (r_exec R (SREM k x) s) k' y \<longleftrightarrow> \<not> (k' = k \<and> y = x) \<and> r_sismember R s k' y"
  by (simp add: sismember_exec set_effect_def)

lemma fold_DEL:
  "k \<notin> set ks \<Longrightarrow> same_key R k (fold (r_exec R) (map DEL ks) s) s"
  "k \<in> set ks \<Longrightarrow> \<not> present R (fold (r_exec R) (map DEL ks) s) k"
proof (induction ks arbitrary: s)
  case (Cons k' ks)
  {
    case 1
    then have "same_key R k (fold (r_exec R) (map DEL ks) (r_exec R (DEL k') s)) (r_exec R (DEL k') s)" using Cons.IH(1) by simp
    with 1 same_key_DEL [of k k' s] show ?case using same_key_trans by simp
  next
    case 2
    show ?case
    proof (cases "k \<in> set ks")
      case True
      then show ?thesis using Cons.IH(2) by simp
    next
      case False
      with 2 have "k = k'" by simp
      with same_key_present [OF Cons.IH(1) [OF False, of "r_exec R (DEL k') s"]] gone_DEL show ?thesis by simp
    qed
  }
qed (simp_all add: same_key_def)

lemma fold_SREM:
  "r_sismember R (fold (r_exec R) (map (SREM k) xs) s) k' y \<longleftrightarrow> \<not> (k' = k \<and> y \<in> set xs) \<and> r_sismember R s k' y"
  by (induction xs arbitrary: s) auto

lemma same_key_fold_SREM: "k \<noteq> k' \<Longrightarrow> same_key R k (fold (r_exec R) (map (SREM k') xs) s) s"
proof (induction xs arbitrary: s)
  case (Cons x xs)
  then show ?case using same_key_trans [OF _ same_key_SREM [of k k' x s]] by simp
qed (simp add: same_key_def)

lemma delete_matching_live:
  assumes "live c" "glob_plain (be_key (conn_prefix c) q)"
  shows "\<exists>ks. delete_matching R (q @ ''*'') c = (c\<lparr>conn_store := fold (r_exec R) (map DEL ks) (conn_store c)\<rparr>, int (length ks))
     \<and> set ks = {k. present R (conn_store c) k \<and> startswith k (be_key (conn_prefix c) q)}"
proof -
  let ?b = "be_key (conn_prefix c)" and ?s = "conn_store c"
  let ?ks = "r_scan R ?s (?b (q @ ''*''))"
  have app: "?b (q @ ''*'') = ?b q @ ''*''" by (auto simp: be_key_def split: option.splits)
  have set: "set ?ks = {k. present R ?s k \<and> startswith k (?b q)}"
    unfolding scan_keys app using glob_prefix [OF assms(2)] by auto
  have inv: "?b (bare_key (conn_prefix c) k) = k" if "startswith k (?b q)" for k
  proof -
    from that obtain r where "k = ?b q @ r" by (metis startswith_def append_take_drop_id)
    then have "k = ?b (q @ r)" by (auto simp: be_key_def split: option.splits)
    then show ?thesis by simp
  qed
  have m: "map (\<lambda>k. DEL (?b (bare_key (conn_prefix c) k))) ?ks = map DEL ?ks"
    using inv set by auto
  have "delete_matching R (q @ ''*'') c = (c\<lparr>conn_store := fold (r_exec R) (map DEL ?ks) ?s\<rparr>, int (length ?ks))"
    using assms(1) by (simp add: delete_matching_def comp_def Let_def m)
  with set show ?thesis by blast
qed

lemma index_prune_live:
  assumes "live c"
  shows "\<exists>s'. index_prune_provider R p c = c\<lparr>conn_store := s'\<rparr> \<and> (\<forall>k. k \<noteq> be_key (conn_prefix c) INDEX_PROVIDERS \<longrightarrow> same_key R k s' (conn_store c))"
proof -
  have "same_key R k s s" for k s by (simp add: same_key_def)
  then show ?thesis
    using assms same_key_SREM by (auto simp: index_prune_provider_def Let_def intro: exI [of _ "conn_store c"])
qed

end

context redis_store
begin

lemma index_unmark_live:
  assumes "live c" "p \<noteq> []" "u \<noteq> []"
  shows "\<exists>s'. index_unmark_account R p u c = c\<lparr>conn_store := s'\<rparr>
     \<and> (\<forall>x. r_sismember R s' (be_key (conn_prefix c) (index_accounts_key p)) x \<longleftrightarrow>
            x \<noteq> u \<and> r_sismember R (conn_store c) (be_key (conn_prefix c) (index_accounts_key p)) x)
     \<and> (\<forall>x. r_sismember R s' (be_key (conn_prefix c) (index_models_key p)) x \<longleftrightarrow>
            \<not> startswith x (u @ [MODEL_SEP]) \<and> r_sismember R (conn_store c) (be_key (conn_prefix c) (index_models_key p)) x)
     \<and> (\<forall>k. k \<notin> be_key (conn_prefix c) ` {index_accounts_key p, index_models_key p, INDEX_PROVIDERS} \<longrightarrow> same_key R k s' (conn_store c))"
proof -
  let ?b = "be_key (conn_prefix c)"
  let ?acc = "?b (index_accounts_key p)" and ?mdl = "?b (index_models_key p)"
  let ?s1 = "r_exec R (SREM ?acc u) (conn_store c)"
  let ?gone = "filter (\<lambda>m. startswith m (u @ [MODEL_SEP])) (r_smembers R ?s1 ?mdl)"
  let ?s2 = "fold (r_exec R) (map (SREM ?mdl) ?gone) ?s1"
  obtain s' where s': "index_prune_provider R p (c\<lparr>conn_store := ?s2\<rparr>) = c\<lparr>conn_store := s'\<rparr>"
      "\<And>k. k \<noteq> ?b INDEX_PROVIDERS \<Longrightarrow> same_key R k s' ?s2"
    using index_prune_live [of "c\<lparr>conn_store := ?s2\<rparr>" p] assms(1) by auto
  have "index_unmark_account R p u c = index_prune_provider R p (c\<lparr>conn_store := ?s2\<rparr>)"
    using assms by (simp add: index_unmark_account_def Let_def)
  moreover have "r_sismember R s' ?acc x \<longleftrightarrow> x \<noteq> u \<and> r_sismember R (conn_store c) ?acc x" for x
    using s'(2) [of ?acc] by (simp add: same_key_def fold_SREM)
  moreover have "r_sismember R s' ?mdl x \<longleftrightarrow> \<not> startswith x (u @ [MODEL_SEP]) \<and> r_sismember R (conn_store c) ?mdl x" for x
    using s'(2) [of ?mdl] set_smembers [of ?s1 ?mdl] by (auto simp: same_key_def fold_SREM)
  moreover have "same_key R k s' (conn_store c)" if "k \<notin> ?b ` {index_accounts_key p, index_models_key p, INDEX_PROVIDERS}" for k
    using that same_key_trans [OF s'(2) same_key_trans [OF same_key_fold_SREM same_key_SREM]] by auto
  ultimately show ?thesis using s'(1) by (intro exI [of _ s']) simp
qed

lemma clear_account_effect:
  assumes "live c" "p \<noteq> []" "u \<noteq> []" "glob_plain (be_key (conn_prefix c) (cooldown_key p u))"
  defines "b \<equiv> be_key (conn_prefix c)" and "s' \<equiv> conn_store (clear_account_cooldown R p u c)"
  shows "\<not> present R s' (b (cooldown_key p u)) \<and> (\<forall>m. \<not> present R s' (b (model_cooldown_key p u m)))
    \<and> \<not> r_sismember R s' (b (index_accounts_key p)) u \<and> (\<forall>m. \<not> r_sismember R s' (b (index_models_key p)) (member_of u m))
    \<and> (\<forall>k. k \<noteq> b (cooldown_key p u) \<and> \<not> startswith k (b (cooldown_key p u @ '':model:''))
         \<and> k \<notin> b ` {index_accounts_key p, index_models_key p, INDEX_PROVIDERS} \<longrightarrow> same_key R k s' (conn_store c))"
proof -
  let ?q = "cooldown_key p u @ '':model:''"
  let ?c1 = "c\<lparr>conn_store := r_exec R (DEL (b (cooldown_key p u))) (conn_store c)\<rparr>"
  have "b ?q = b (cooldown_key p u) @ '':model:''" by (auto simp: b_def be_key_def split: option.splits)
  then have plain: "glob_plain (be_key (conn_prefix ?c1) ?q)" using assms(4) by (auto simp: glob_plain_def b_def)
  obtain ks where ks: "delete_matching R (?q @ ''*'') ?c1 = (?c1\<lparr>conn_store := fold (r_exec R) (map DEL ks) (conn_store ?c1)\<rparr>, int (length ks))"
      "set ks = {k. present R (conn_store ?c1) k \<and> startswith k (b ?q)}"
    using delete_matching_live [OF _ plain] assms(1) by (auto simp: b_def)
  let ?s2 = "fold (r_exec R) (map DEL ks) (conn_store ?c1)"
  obtain s3 where s3: "index_unmark_account R p u (c\<lparr>conn_store := ?s2\<rparr>) = c\<lparr>conn_store := s3\<rparr>"
      "\<And>x. r_sismember R s3 (b (index_accounts_key p)) x \<longleftrightarrow> x \<noteq> u \<and> r_sismember R ?s2 (b (index_accounts_key p)) x"
      "\<And>x. r_sismember R s3 (b (index_models_key p)) x \<longleftrightarrow> \<not> startswith x (u @ [MODEL_SEP]) \<and> r_sismember R ?s2 (b (index_models_key p)) x"
      "\<And>k. k \<notin> b ` {index_accounts_key p, index_models_key p, INDEX_PROVIDERS} \<Longrightarrow> same_key R k s3 ?s2"
    using index_unmark_live [of "c\<lparr>conn_store := ?s2\<rparr>" p u] assms(1-3) by (auto simp: b_def)
  have s': "s' = s3" using assms(1) ks(1) s3(1) by (simp add: s'_def clear_account_cooldown_def b_def Let_def)
  have del: "\<not> present R ?s2 k" if "startswith k (b ?q) \<or> k = b (cooldown_key p u)" for k
  proof (cases "k \<in> set ks")
    case False
    then have "same_key R k ?s2 (conn_store ?c1)" by (rule fold_DEL(1))
    with that False gone_DEL show ?thesis by (auto simp: same_key_present ks(2))
  qed (rule fold_DEL(2))
  have pre: "startswith (b (model_cooldown_key p u m)) (b ?q)" for m
  proof -
    have "b (model_cooldown_key p u m) = b ?q @ m" by (auto simp: b_def be_key_def model_cooldown_key_def split: option.splits)
    then show ?thesis by (simp only: startswith_append)
  qed
  have fam: "b (model_cooldown_key p u m) \<notin> b ` {index_accounts_key p, index_models_key p, INDEX_PROVIDERS}"
      "b (cooldown_key p u) \<notin> b ` {index_accounts_key p, index_models_key p, INDEX_PROVIDERS}" for m
    by (auto simp: b_def)
  have "same_key R k s3 (conn_store c)" if "k \<noteq> b (cooldown_key p u)" "\<not> startswith k (b ?q)"
      "k \<notin> b ` {index_accounts_key p, index_models_key p, INDEX_PROVIDERS}" for k
    using same_key_trans [OF s3(4) [OF that(3)] fold_DEL(1) [of k ks]] that ks(2) same_key_trans [OF _ same_key_DEL [OF that(1)]] by simp
  then show ?thesis
    unfolding s' using same_key_present [OF s3(4) [OF fam(1)]] same_key_present [OF s3(4) [OF fam(2)]] del pre s3(2,3)
    by (auto simp: member_of_def startswith_def)
qed

end

text \<open>
  Clearing an account removes its freeze, the freezes of all its models and its index entries,
  and no other key: what an account keeps under another name, another provider or another family of
  keys is as it was.
\<close>

theorem clear_account_exact:
  assumes "redis_store R" "live c" "p \<noteq> []" "u \<noteq> []" "glob_plain (be_key (conn_prefix c) (cooldown_key p u))"
  shows "let b = be_key (conn_prefix c); s' = conn_store (clear_account_cooldown R p u c) in
    \<not> present R s' (b (cooldown_key p u)) \<and> (\<forall>m. \<not> present R s' (b (model_cooldown_key p u m)))
    \<and> \<not> r_sismember R s' (b (index_accounts_key p)) u \<and> (\<forall>m. \<not> r_sismember R s' (b (index_models_key p)) (member_of u m))
    \<and> (\<forall>k. k \<noteq> b (cooldown_key p u) \<and> \<not> startswith k (b (cooldown_key p u @ '':model:''))
         \<and> k \<notin> b ` {index_accounts_key p, index_models_key p, INDEX_PROVIDERS} \<longrightarrow> same_key R k s' (conn_store c))"
  unfolding Let_def by (rule redis_store.clear_account_effect [OF assms])

theorem clear_account_exact_witness:
  "\<not> present mem_redis (conn_store (clear_account_cooldown mem_redis ''p'' ''u'' (set_account_cooldown mem_redis ''p'' ''u'' None ''banned'' '''' conn_gw)))
     ''gw:limit:cooldown:p:u''"
proof -
  let ?c = "set_account_cooldown mem_redis ''p'' ''u'' None ''banned'' '''' conn_gw"
  have c: "live ?c" "conn_prefix ?c = Some ''gw''"
    using mem.cooldown_read_back [OF live_gw, of "''p''" "''u''" None "''banned''" "''''"] by (auto simp: conn_gw_def)
  have "glob_plain (be_key (Some ''gw'') (cooldown_key ''p'' ''u''))" by (simp add: glob_plain_def be_key_def cooldown_key_def)
  with clear_account_exact [OF mem.redis_store_axioms c(1), of "''p''" "''u''"] c(2) show ?thesis
    by (simp add: Let_def be_key_def cooldown_key_def)
qed

section \<open>The overview\<close>

lemma inner_append_at [simp]: "inner (append_at d k x) p = (if p = k then inner d p @ [x] else inner d p)"
  by (simp add: inner_def append_at_def)

lemma stale_accounts_inner:
  "set (inner (stale_accounts es) p) = {u. \<exists>ttl. (AccountEntry p u, ttl) \<in> set es \<and> \<not> live_ttl ttl}"
proof -
  have "set (inner (fold (\<lambda>(e, ttl) d. case e of AccountEntry p u \<Rightarrow> if live_ttl ttl then d else append_at d p u | _ \<Rightarrow> d) es d) p) =
      set (inner d p) \<union> {u. \<exists>ttl. (AccountEntry p u, ttl) \<in> set es \<and> \<not> live_ttl ttl}" for d
    by (induction es arbitrary: d) (auto split: entry.splits if_splits)
  then show ?thesis by (simp add: stale_accounts_def inner_def)
qed

lemma stale_accounts_distinct: "distinct (map fst (stale_accounts es))"
proof -
  have "distinct (map fst (fold (\<lambda>(e, ttl) d. case e of AccountEntry p u \<Rightarrow> if live_ttl ttl then d else append_at d p u | _ \<Rightarrow> d) es d))"
    if "distinct (map fst d)" for d :: "(string \<times> string list) list"
    using that by (induction es arbitrary: d) (auto simp: append_at_def distinct_dset split: entry.splits)
  then show ?thesis by (simp add: stale_accounts_def)
qed

lemma overview_fold:
  "(\<exists>i. map_of (inner (ov_accounts (fold (\<lambda>(e, ttl, v) ov. if live_ttl ttl then overview_add now e ttl v ov else ov) rows ov)) p) u = Some i) \<longleftrightarrow>
   (\<exists>i. map_of (inner (ov_accounts ov) p) u = Some i) \<or> (\<exists>ttl v. (AccountEntry p u, ttl, v) \<in> set rows \<and> live_ttl ttl)"
proof (induction rows arbitrary: ov)
  case (Cons r rows)
  obtain e ttl v where r: "r = (e, ttl, v)" by (cases r)
  have "live_ttl ttl \<Longrightarrow> (\<exists>i. map_of (inner (ov_accounts (overview_add now e ttl v ov)) p) u = Some i) \<longleftrightarrow>
      (\<exists>i. map_of (inner (ov_accounts ov) p) u = Some i) \<or> e = AccountEntry p u"
    by (cases e) (auto simp: overview_add_def info_of_def live_ttl_def inner_def)
  with Cons.IH show ?case by (auto simp: r)
qed simp

context redis_store
begin

lemma drop_members_live:
  assumes "live c" "\<And>p q. key p = key q \<longleftrightarrow> p = q"
  shows "\<exists>s'. drop_members R key d c = c\<lparr>conn_store := s'\<rparr>
     \<and> (\<forall>k y. r_sismember R s' k y \<longleftrightarrow> \<not> (\<exists>p ms. (p, ms) \<in> set d \<and> k = be_key (conn_prefix c) (key p) \<and> y \<in> set ms) \<and> r_sismember R (conn_store c) k y)
     \<and> (\<forall>k. k \<notin> range (\<lambda>p. be_key (conn_prefix c) (key p)) \<longrightarrow> same_key R k s' (conn_store c))"
  using assms(1)
proof (induction d arbitrary: c)
  case Nil
  then show ?case by (intro exI [of _ "conn_store c"]) (simp add: drop_members_def same_key_def)
next
  case (Cons pm d)
  obtain p ms where pm: "pm = (p, ms)" by fastforce
  let ?s1 = "fold (r_exec R) (map (SREM (be_key (conn_prefix c) (key p))) ms) (conn_store c)"
  have step: "drop_members R key (pm # d) c = drop_members R key d (c\<lparr>conn_store := ?s1\<rparr>)"
    using Cons.prems by (simp add: drop_members_def pm)
  have "live (c\<lparr>conn_store := ?s1\<rparr>)" using Cons.prems by simp
  from Cons.IH [OF this] obtain s' where s': "drop_members R key d (c\<lparr>conn_store := ?s1\<rparr>) = c\<lparr>conn_store := s'\<rparr>"
      "\<And>k y. r_sismember R s' k y \<longleftrightarrow> \<not> (\<exists>p ms. (p, ms) \<in> set d \<and> k = be_key (conn_prefix c) (key p) \<and> y \<in> set ms) \<and> r_sismember R ?s1 k y"
      "\<And>k. k \<notin> range (\<lambda>p. be_key (conn_prefix c) (key p)) \<Longrightarrow> same_key R k s' ?s1"
    by auto
  have "same_key R k s' (conn_store c)" if "k \<notin> range (\<lambda>p. be_key (conn_prefix c) (key p))" for k
    using same_key_trans [OF s'(3) [OF that] same_key_fold_SREM] that by blast
  then show ?case unfolding step s'(1) by (intro exI [of _ s']) (auto simp: s'(2) fold_SREM pm)
qed

lemma prune_all_live:
  assumes "live c"
  shows "\<exists>s'. fold (index_prune_provider R) ps c = c\<lparr>conn_store := s'\<rparr> \<and> (\<forall>k. k \<noteq> be_key (conn_prefix c) INDEX_PROVIDERS \<longrightarrow> same_key R k s' (conn_store c))"
  using assms
proof (induction ps arbitrary: c)
  case Nil
  then show ?case by (intro exI [of _ "conn_store c"]) (simp add: same_key_def)
next
  case (Cons p ps)
  obtain s1 where s1: "index_prune_provider R p c = c\<lparr>conn_store := s1\<rparr>" "\<And>k. k \<noteq> be_key (conn_prefix c) INDEX_PROVIDERS \<Longrightarrow> same_key R k s1 (conn_store c)"
    using index_prune_live [OF Cons.prems, of p] by auto
  have "live (c\<lparr>conn_store := s1\<rparr>)" using Cons.prems by simp
  from Cons.IH [OF this] obtain s' where s': "fold (index_prune_provider R) ps (c\<lparr>conn_store := s1\<rparr>) = c\<lparr>conn_store := s'\<rparr>"
      "\<And>k. k \<noteq> be_key (conn_prefix c) INDEX_PROVIDERS \<Longrightarrow> same_key R k s' s1" by auto
  have "same_key R k s' (conn_store c)" if "k \<noteq> be_key (conn_prefix c) INDEX_PROVIDERS" for k
    by (rule same_key_trans [OF s'(2) [OF that] s1(2) [OF that]])
  then show ?case using s'(1) by (intro exI [of _ s']) (simp add: s1(1))
qed

end

lemma zip_map_self: "zip xs (map f xs) = map (\<lambda>x. (x, f x)) xs"
  by (induction xs) simp_all

lemma account_entries:
  "AccountEntry p u \<in> set (concat (map (\<lambda>p. index_entries p (acc p) (mdl p)) ps)) \<longleftrightarrow> p \<in> set ps \<and> u \<noteq> [] \<and> u \<in> set (acc p)"
  by (auto simp: index_entries_def List.map_filter_def split: option.splits)

context redis_store
begin

lemma scan_effect:
  assumes "live c" "r_sismember R (conn_store c) (be_key (conn_prefix c) INDEX_PROVIDERS) p" "p \<noteq> []" "u \<noteq> []"
  defines "b \<equiv> be_key (conn_prefix c)" and "s \<equiv> conn_store c"
  shows "\<exists>s' ov. scan_all_cooldowns R now c = (c\<lparr>conn_store := s'\<rparr>, ov)
     \<and> (r_sismember R s' (b (index_accounts_key p)) u \<longleftrightarrow> r_sismember R s (b (index_accounts_key p)) u \<and> 0 < r_ttl R s (b (cooldown_key p u)))
     \<and> ((\<exists>i. map_of (inner (ov_accounts ov) p) u = Some i) \<longleftrightarrow> r_sismember R s (b (index_accounts_key p)) u \<and> 0 < r_ttl R s (b (cooldown_key p u)))
     \<and> same_key R (b (cooldown_key p u)) s' s"
proof -
  let ?ps = "filter (\<lambda>p. p \<noteq> []) (r_smembers R s (b INDEX_PROVIDERS))"
  let ?es = "concat (map (\<lambda>p. index_entries p (r_smembers R s (b (index_accounts_key p))) (r_smembers R s (b (index_models_key p)))) ?ps)"
  let ?g = "\<lambda>e. ttl_and_get R s (b (entry_key e))"
  let ?rows = "map (\<lambda>e. (e, ?g e)) ?es"
  let ?ttls = "map (\<lambda>(e, ttl, v). (e, ttl)) ?rows"
  let ?ov = "fold (\<lambda>(e, ttl, v) ov. if live_ttl ttl then overview_add now e ttl v ov else ov) ?rows empty_overview"
  let ?sa = "stale_accounts ?ttls" and ?sm = "stale_models ?ttls"
  have p: "p \<in> set ?ps" using assms(2,3) set_smembers [of s "b INDEX_PROVIDERS"] by (simp add: b_def s_def)
  then have ne: "?ps \<noteq> []" by (metis empty_iff empty_set)
  have e: "AccountEntry p u \<in> set ?es \<longleftrightarrow> r_sismember R s (b (index_accounts_key p)) u"
    unfolding account_entries using p assms(4) set_smembers [of s "b (index_accounts_key p)"] by auto
  let ?read = "r_sismember R s (b (index_accounts_key p)) u" and ?ttl = "r_ttl R s (b (cooldown_key p u))"
  have row_val: "(AccountEntry p u, ttl, v) \<in> set (map (\<lambda>e. (e, ?g e)) xs) \<longleftrightarrow> AccountEntry p u \<in> set xs \<and> ttl = ?ttl \<and> v = stored_text (r_get R s (b (cooldown_key p u)))"
    for xs ttl v by (auto simp: ttl_and_get_def)
  have row_ttl: "(AccountEntry p u, ttl) \<in> set (map (\<lambda>(e, ttl, v). (e, ttl)) (map (\<lambda>e. (e, ?g e)) xs)) \<longleftrightarrow> AccountEntry p u \<in> set xs \<and> ttl = ?ttl"
    for xs ttl by (auto simp: ttl_and_get_def image_iff)
  obtain s1 where s1: "drop_members R index_accounts_key ?sa c = c\<lparr>conn_store := s1\<rparr>"
      "\<And>k y. r_sismember R s1 k y \<longleftrightarrow> \<not> (\<exists>p ms. (p, ms) \<in> set ?sa \<and> k = b (index_accounts_key p) \<and> y \<in> set ms) \<and> r_sismember R s k y"
      "\<And>k. k \<notin> range (\<lambda>p. b (index_accounts_key p)) \<Longrightarrow> same_key R k s1 s"
    using drop_members_live [OF assms(1) index_key_inj(1), of ?sa] unfolding b_def s_def by blast
  obtain s2 where s2: "drop_members R index_models_key ?sm (c\<lparr>conn_store := s1\<rparr>) = c\<lparr>conn_store := s2\<rparr>"
      "\<And>k. k \<notin> range (\<lambda>p. b (index_models_key p)) \<Longrightarrow> same_key R k s2 s1"
    using drop_members_live [OF _ index_key_inj(2), of "c\<lparr>conn_store := s1\<rparr>" ?sm] assms(1) unfolding b_def by auto
  obtain s3 where s3: "fold (index_prune_provider R) (remdups (map fst ?sa @ map fst ?sm)) (c\<lparr>conn_store := s2\<rparr>) = c\<lparr>conn_store := s3\<rparr>"
      "\<And>k. k \<noteq> b INDEX_PROVIDERS \<Longrightarrow> same_key R k s3 s2"
    using prune_all_live [of "c\<lparr>conn_store := s2\<rparr>" "remdups (map fst ?sa @ map fst ?sm)"] assms(1) unfolding b_def by auto
  have scan: "scan_all_cooldowns R now c = (if ?es = [] then (c, empty_overview) else (c\<lparr>conn_store := s3\<rparr>, ?ov))"
    using assms(1) ne s1(1) s2(1) s3(1)
    by (auto simp: scan_all_cooldowns_def Let_def b_def [symmetric] s_def [symmetric] zip_map_self simp del: remdups_append2)
  have stale: "(\<exists>p' ms. (p', ms) \<in> set ?sa \<and> b (index_accounts_key p) = b (index_accounts_key p') \<and> u \<in> set ms) \<longleftrightarrow> ?read \<and> \<not> 0 < ?ttl"
  proof -
    have "(\<exists>p' ms. (p', ms) \<in> set ?sa \<and> b (index_accounts_key p) = b (index_accounts_key p') \<and> u \<in> set ms) \<longleftrightarrow> u \<in> set (inner ?sa p)"
      using stale_accounts_distinct [of ?ttls] by (auto simp: inner_def b_def map_of_eq_Some_iff split: option.splits dest: map_of_SomeD)
    also have "\<dots> \<longleftrightarrow> ?read \<and> \<not> 0 < ?ttl"
      unfolding stale_accounts_inner e [symmetric] mem_Collect_eq row_ttl by (auto simp only: live_ttl_def)
    finally show ?thesis .
  qed
  have fam: "b (index_accounts_key p) \<notin> range (\<lambda>p. b (index_models_key p))" "b (index_accounts_key p) \<noteq> b INDEX_PROVIDERS"
      "b (cooldown_key p u) \<notin> range (\<lambda>p. b (index_accounts_key p))" "b (cooldown_key p u) \<notin> range (\<lambda>p. b (index_models_key p))"
      "b (cooldown_key p u) \<noteq> b INDEX_PROVIDERS"
    by (auto simp: b_def)
  have "r_sismember R s3 (b (index_accounts_key p)) u \<longleftrightarrow> ?read \<and> 0 < ?ttl"
    using s3(2) [OF fam(2)] s2(2) [OF fam(1)] s1(2) [of "b (index_accounts_key p)" u] stale by (auto simp: same_key_def)
  moreover have "(\<exists>i. map_of (inner (ov_accounts ?ov) p) u = Some i) \<longleftrightarrow> ?read \<and> 0 < ?ttl"
    unfolding overview_fold e [symmetric] row_val by (auto simp only: live_ttl_def) (simp_all add: empty_overview_def inner_def)
  moreover have "same_key R (b (cooldown_key p u)) s3 s"
    by (rule same_key_trans [OF s3(2) [OF fam(5)] same_key_trans [OF s2(2) [OF fam(4)] s1(3) [OF fam(3)]]])
  moreover have "\<not> ?read" if "?es = []" using e that by simp
  ultimately show ?thesis
    unfolding scan by (auto simp: empty_overview_def inner_def s_def same_key_def intro: exI [of _ "conn_store c"])
qed

end

text \<open>
  The overview of freezes keeps and reports exactly the indexed accounts whose key has a running
  expiry, and touches no freeze. So an account under a permanent freeze, whose key has no expiry, is
  not reported and loses its index entry, although it stays frozen.
\<close>

theorem overview_drops_permanent:
  assumes "redis_store R" "live c" "r_sismember R (conn_store c) (be_key (conn_prefix c) INDEX_PROVIDERS) p" "p \<noteq> []" "u \<noteq> []"
  shows "case scan_all_cooldowns R now c of (c', ov) \<Rightarrow>
    let b = be_key (conn_prefix c); shown = r_sismember R (conn_store c) (b (index_accounts_key p)) u \<and> 0 < r_ttl R (conn_store c) (b (cooldown_key p u))
    in (r_sismember R (conn_store c') (b (index_accounts_key p)) u \<longleftrightarrow> shown)
       \<and> ((\<exists>i. map_of (inner (ov_accounts ov) p) u = Some i) \<longleftrightarrow> shown)
       \<and> same_key R (b (cooldown_key p u)) (conn_store c') (conn_store c)"
  using redis_store.scan_effect [OF assms, of now] by (auto simp: Let_def)

theorem overview_drops_permanent_witness:
  "case scan_all_cooldowns mem_redis 100 (set_account_cooldown mem_redis ''p'' ''u'' None ''banned'' '''' conn_gw) of (c', ov) \<Rightarrow>
     r_get mem_redis (conn_store c') ''gw:limit:cooldown:p:u'' = Some (HStr ''banned'')
     \<and> \<not> r_sismember mem_redis (conn_store c') ''gw:limit:cooldown_index:p:accounts'' ''u''"
proof -
  let ?c = "set_account_cooldown mem_redis ''p'' ''u'' None ''banned'' '''' conn_gw"
  have c: "live ?c" "conn_prefix ?c = Some ''gw''" "r_ttl mem_redis (conn_store ?c) (be_key (Some ''gw'') (cooldown_key ''p'' ''u'')) = -1"
      "r_get mem_redis (conn_store ?c) (be_key (Some ''gw'') (cooldown_key ''p'' ''u'')) = Some (HStr ''banned'')"
    using mem.cooldown_read_back [OF live_gw, of "''p''" "''u''" None "''banned''" "''''"] by (auto simp: conn_gw_def cooldown_value_def)
  have "r_sismember mem_redis (conn_store ?c) (be_key (conn_prefix ?c) INDEX_PROVIDERS) ''p''"
    using live_gw by (simp add: set_account_cooldown_def set_key_def index_mark_live mem.sismember_exec set_effect_def)
  from overview_drops_permanent [OF mem.redis_store_axioms c(1) this, of "''u''" 100] c(2-4) show ?thesis
    by (auto simp: Let_def same_key_def be_key_def cooldown_key_def index_accounts_key_def)
qed

end
