(* ===== verification/Lub_ApiKey.thy ===== *)
theory Lub_ApiKey
  imports Lub_Windows
begin

text \<open>
  \<open>RateLimiter\<close> of \<open>server/rate_limiter.py\<close>: the limits of an API key. A request passes the blocks
  kept in memory, the address set and the concurrency gate, and is then counted in fixed windows; a
  window that reaches its limit blocks the key until the window ends. Tokens are counted afterwards,
  in windows of their own.

  The stored configuration of the key is an argument, and so is \<open>sha\<close>, the function from a key to the
  32 hexadecimal digits of its SHA-256 digest. Members of the class are the record \<open>limiter\<close>, which also
  collects the block events published to other instances.
\<close>

section \<open>Limits\<close>

record key_limits =
  kl_requests :: "(string \<times> int) list"
  kl_tokens :: "(string \<times> int) list"
  kl_concurrent :: int
  kl_max_ips :: int
  kl_ip_window :: int

definition REQUEST_WINDOWS :: "(string \<times> string \<times> int) list" where
  "REQUEST_WINDOWS = [(''requests_per_minute'', ''rpm'', 60), (''requests_per_5h'', ''rp5h'', 18000),
     (''requests_per_day'', ''rpd'', 86400), (''requests_per_week'', ''rpw'', 604800)]"

definition TOKEN_WINDOWS :: "(string \<times> string \<times> int) list" where
  "TOKEN_WINDOWS = [(''tokens_per_minute'', ''tpm'', 60), (''tokens_per_day'', ''tpd'', 86400), (''tokens_per_week'', ''tpw'', 604800)]"

definition conf_int :: "pydict \<Rightarrow> string \<Rightarrow> pyval \<Rightarrow> pyerror + int" where
  \<comment> \<open>\<open>int(rate_config.get(name, default) or 0)\<close>\<close>
  "conf_int conf name dflt = py_int (py_or (dget_or conf name dflt) (PInt 0))"

definition conf_alias :: "pydict \<Rightarrow> string \<Rightarrow> string \<Rightarrow> pyerror + int" where
  "conf_alias conf name short = conf_int conf name (dget_or conf short (PInt 0))"

fun conf_all :: "pydict \<Rightarrow> (string \<times> string) list \<Rightarrow> pyerror + (string \<times> int) list" where
  "conf_all conf [] = Inr []"
| "conf_all conf ((name, short) # xs) = (case conf_alias conf name short of
      Inl e \<Rightarrow> Inl e
    | Inr n \<Rightarrow> (case conf_all conf xs of Inl e \<Rightarrow> Inl e | Inr ys \<Rightarrow> Inr ((name, n) # ys)))"

definition limits :: "pydict \<Rightarrow> pyerror + key_limits" where
  "limits conf =
     (case conf_all conf [(''requests_per_minute'', ''rpm''), (''requests_per_5h'', ''requests_per_5_hours''), (''requests_per_day'', ''rpd''),
                          (''requests_per_week'', ''rpw'')] of
        Inl e \<Rightarrow> Inl e
      | Inr rs \<Rightarrow> (case conf_all conf [(''tokens_per_minute'', ''tpm''), (''tokens_per_day'', ''tpd''), (''tokens_per_week'', ''tpw''),
                                      (''concurrent_requests'', ''concurrent'')] of
          Inl e \<Rightarrow> Inl e
        | Inr ts \<Rightarrow> (case conf_int conf ''max_ips'' (PInt 0) of
            Inl e \<Rightarrow> Inl e
          | Inr ips \<Rightarrow> (case conf_int conf ''ip_window_seconds'' (PInt 0) of
              Inl e \<Rightarrow> Inl e
            | Inr w \<Rightarrow> Inr \<lparr>kl_requests = rs, kl_tokens = butlast ts, kl_concurrent = snd (last ts), kl_max_ips = ips, kl_ip_window = w\<rparr>))))"

section \<open>Blocks\<close>

record 's limiter =
  lm_conn :: "'s conn"
  lm_blocked :: "(string \<times> (string \<times> time) list) list"
  lm_published :: "(string \<times> string \<times> time) list"

definition window_ttl :: "calendar \<Rightarrow> int \<Rightarrow> time \<Rightarrow> int" where
  \<comment> \<open>a week or a day ends at local midnight, other windows have a fixed length\<close>
  "window_ttl cal window now =
     (if 7 * 86400 \<le> window then max 1 (trunc (to_midnight cal now + of_int ((6 - weekday cal now) * 86400)))
      else if 86400 \<le> window then max 1 (trunc (to_midnight cal now))
      else window)"

definition blocks_of :: "string \<Rightarrow> 's limiter \<Rightarrow> (string \<times> time) list" where
  "blocks_of subject L = (case map_of (lm_blocked L) subject of None \<Rightarrow> [] | Some bs \<Rightarrow> bs)"

definition is_blocked :: "string \<Rightarrow> time \<Rightarrow> 's limiter \<Rightarrow> 's limiter \<times> bool" where
  \<comment> \<open>expired blocks are dropped on the way\<close>
  "is_blocked subject now L =
     (if blocks_of subject L = [] then (L, False)
      else (let bs = filter (\<lambda>(f, t). now < t) (blocks_of subject L)
            in (L\<lparr>lm_blocked := dset (lm_blocked L) subject bs\<rparr>, bs \<noteq> [])))"

definition apply_block_event :: "string \<Rightarrow> string \<Rightarrow> time \<Rightarrow> 's limiter \<Rightarrow> 's limiter" where
  "apply_block_event subject field until L = L\<lparr>lm_blocked := dset (lm_blocked L) subject (dset (blocks_of subject L) field until)\<rparr>"

definition set_blocked :: "string \<Rightarrow> string \<Rightarrow> int \<Rightarrow> time \<Rightarrow> 's limiter \<Rightarrow> 's limiter" where
  "set_blocked subject field ttl now L =
     (apply_block_event subject field (now + of_int ttl) L)\<lparr>lm_published := lm_published L @ [(subject, field, now + of_int ttl)]\<rparr>"

definition clear_block_event :: "string \<Rightarrow> string \<Rightarrow> 's limiter \<Rightarrow> 's limiter" where
  "clear_block_event subject field L =
     (case map_of (lm_blocked L) subject of
        None \<Rightarrow> L
      | Some bs \<Rightarrow> (let bs' = AList.delete field bs
                   in L\<lparr>lm_blocked := (if bs' = [] then AList.delete subject (lm_blocked L) else dset (lm_blocked L) subject bs')\<rparr>))"

section \<open>acquire, release, record_usage\<close>

datatype denial = RateLimitExceeded | IpLimitExceeded | ConcurrentLimitExceeded | ConfigError pyerror

record key_lease =
  kle_subject :: string
  kle_lease_id :: string
  kle_concurrency_acquired :: bool

definition window_name :: "string \<Rightarrow> string \<Rightarrow> string" where
  "window_name subject field = ''api-key:'' @ subject @ '':'' @ field"

definition count_window ::
  "('s conn \<Rightarrow> 's conn \<times> (int \<times> int) option) \<Rightarrow> string \<Rightarrow> string \<Rightarrow> int \<Rightarrow> time \<Rightarrow> 's limiter \<Rightarrow> 's limiter" where
  \<comment> \<open>one turn of the counting loops; without an answer nothing is blocked\<close>
  "count_window incr subject field cap now L =
     (let (c, r) = incr (lm_conn L); L1 = L\<lparr>lm_conn := c\<rparr>
      in case r of None \<Rightarrow> L1 | Some (count, ttl) \<Rightarrow> if cap \<le> count then set_blocked subject field ttl now L1 else L1)"

definition request_step :: "'s redis \<Rightarrow> calendar \<Rightarrow> time \<Rightarrow> string \<Rightarrow> key_limits \<Rightarrow> string \<times> string \<times> int \<Rightarrow> 's limiter \<Rightarrow> 's limiter" where
  "request_step R cal now subject lims w L =
     (let cap = the (map_of (kl_requests lims) (fst w))
      in if cap \<le> 0 then L
         else count_window (incr_window R (window_name subject (fst w)) (window_ttl cal (snd (snd w)) now) 1) subject (fst w) cap now L)"

definition count_requests :: "'s redis \<Rightarrow> calendar \<Rightarrow> time \<Rightarrow> string \<Rightarrow> key_limits \<Rightarrow> 's limiter \<Rightarrow> 's limiter" where
  "count_requests R cal now subject lims L = fold (request_step R cal now subject lims) REQUEST_WINDOWS L"

definition key_acquire ::
  "'s redis \<Rightarrow> calendar \<Rightarrow> (string \<Rightarrow> string) \<Rightarrow> time \<Rightarrow> string \<Rightarrow> string \<Rightarrow> string option \<Rightarrow> pydict \<Rightarrow> 's limiter
     \<Rightarrow> 's limiter \<times> (denial + key_lease)" where
  \<comment> \<open>\<open>uuid\<close>: the hexadecimal digits of the new lease\<close>
  "key_acquire R cal sha now uuid api_key client_ip conf L =
     (let subject = sha api_key; (L1, blocked) = is_blocked subject now L
      in if blocked then (L1, Inl RateLimitExceeded)
         else (case limits conf of
           Inl e \<Rightarrow> (L1, Inl (ConfigError e))
         | Inr lims \<Rightarrow>
            (let (c2, verdict) =
                   (case opt_str client_ip of
                      Some ip \<Rightarrow> if 0 < kl_max_ips lims
                         then check_and_add_ip R (''api-key:'' @ subject) ip (kl_max_ips lims)
                                (if kl_ip_window lims \<noteq> 0 then kl_ip_window lims else 3600) (lm_conn L1)
                         else (lm_conn L1, None)
                    | None \<Rightarrow> (lm_conn L1, None));
                 L2 = L1\<lparr>lm_conn := c2\<rparr>
             in if (case verdict of Some (ok, _) \<Rightarrow> \<not> ok | None \<Rightarrow> False) then (L2, Inl IpLimitExceeded)
                else (let lid = ''api-key-lease:'' @ uuid;
                          (c3, got) = (if 0 < kl_concurrent lims
                                       then acquire_concurrency R now (''api-key:'' @ subject) (kl_concurrent lims) lid 3600 c2
                                       else (c2, None));
                          L3 = L2\<lparr>lm_conn := c3\<rparr>
                      in if got = Some False then (L3, Inl ConcurrentLimitExceeded)
                         else (count_requests R cal now subject lims L3,
                               Inr \<lparr>kle_subject = subject, kle_lease_id = lid, kle_concurrency_acquired = (got = Some True)\<rparr>)))))"

definition key_release :: "'s redis \<Rightarrow> key_lease option \<Rightarrow> 's limiter \<Rightarrow> 's limiter" where
  "key_release R lease L = (case lease of
      None \<Rightarrow> L
    | Some l \<Rightarrow> if kle_concurrency_acquired l
        then L\<lparr>lm_conn := release_concurrency R (''api-key:'' @ kle_subject l) (kle_lease_id l) (lm_conn L)\<rparr> else L)"

definition record_usage :: "'s redis \<Rightarrow> calendar \<Rightarrow> (string \<Rightarrow> string) \<Rightarrow> time \<Rightarrow> string \<Rightarrow> int \<Rightarrow> pydict \<Rightarrow> 's limiter \<Rightarrow> 's limiter \<times> (pyerror + unit)" where
  "record_usage R cal sha now api_key tokens conf L =
     (if api_key = [] \<or> tokens \<le> 0 then (L, Inr ())
      else (case limits conf of
        Inl e \<Rightarrow> (L, Inl e)
      | Inr lims \<Rightarrow> (let subject = sha api_key in
          (fold (\<lambda>(field, _, window) L.
             let cap = the (map_of (kl_tokens lims) field)
             in if cap \<le> 0 then L
                else count_window (incrby_window R (window_name subject field) tokens (window_ttl cal window now)) subject field cap now L) TOKEN_WINDOWS L,
           Inr ()))))"

definition usage_part :: "'s redis \<Rightarrow> string \<Rightarrow> (string \<times> int) list \<Rightarrow> (string \<times> string \<times> int) list \<Rightarrow> 's conn \<times> pydict \<Rightarrow> 's conn \<times> pydict" where
  "usage_part R subject caps ws st = fold (\<lambda>(field, prefix, _) (c, d).
     let (c1, used, _) = get_window R (window_name subject field) c
     in (c1, dset (dset d (prefix @ ''_limit'') (PInt (the (map_of caps field)))) (prefix @ ''_used'') (PInt used))) ws st"

definition get_usage :: "'s redis \<Rightarrow> (string \<Rightarrow> string) \<Rightarrow> time \<Rightarrow> string \<Rightarrow> pydict \<Rightarrow> 's limiter \<Rightarrow> 's limiter \<times> (pyerror + pydict)" where
  "get_usage R sha now api_key conf L =
     (case limits conf of
        Inl e \<Rightarrow> (L, Inl e)
      | Inr lims \<Rightarrow>
         (let subject = sha api_key;
              (c1, d1) = usage_part R subject (kl_tokens lims) TOKEN_WINDOWS
                           (usage_part R subject (kl_requests lims) REQUEST_WINDOWS (lm_conn L, []));
              (c2, conc) = concurrency_used R now (''api-key:'' @ subject) c1;
              d2 = dset (dset d1 ''concurrent_limit'' (PInt (kl_concurrent lims))) ''concurrent_used''
                     (PInt (case conc of None \<Rightarrow> 0 | Some n \<Rightarrow> n));
              (c3, ips) = (if 0 < kl_max_ips lims then set_cardinality R (''api-key:'' @ subject) c2 else (c2, Some 0));
              d3 = dset (dset d2 ''ip_limit'' (PInt (kl_max_ips lims))) ''ip_used'' (PInt (case ips of None \<Rightarrow> 0 | Some n \<Rightarrow> n))
          in (L\<lparr>lm_conn := c3\<rparr>, Inr d3)))"

section \<open>Blocks decide first\<close>

definition cal1 :: calendar where
  "cal1 = \<lparr>day_label = (\<lambda>t. ''2025-01-01''), to_midnight = (\<lambda>t. 3600), weekday = (\<lambda>t. 2), to_next_month = (\<lambda>t. 90000)\<rparr>"

definition limiter0 :: "mem limiter" where
  "limiter0 = \<lparr>lm_conn = \<lparr>conn_client = True, conn_prefix = None, conn_store = mem_empty, conn_faults = []\<rparr>, lm_blocked = [], lm_published = []\<rparr>"

lemma acquire_blocked:
  "(snd (key_acquire R cal sha now uuid api_key ip conf L) = Inl RateLimitExceeded \<longleftrightarrow>
      (\<exists>f t. (f, t) \<in> set (blocks_of (sha api_key) L) \<and> now < t))
   \<and> ((\<exists>f t. (f, t) \<in> set (blocks_of (sha api_key) L) \<and> now < t) \<longrightarrow>
        lm_conn (fst (key_acquire R cal sha now uuid api_key ip conf L)) = lm_conn L
        \<and> lm_published (fst (key_acquire R cal sha now uuid api_key ip conf L)) = lm_published L)"
proof -
  have "snd (is_blocked (sha api_key) now L) \<longleftrightarrow> (\<exists>f t. (f, t) \<in> set (blocks_of (sha api_key) L) \<and> now < t)"
    by (auto simp: is_blocked_def Let_def filter_empty_conv)
  moreover have "lm_conn (fst (is_blocked (sha api_key) now L)) = lm_conn L" "lm_published (fst (is_blocked (sha api_key) now L)) = lm_published L"
    by (simp_all add: is_blocked_def Let_def)
  moreover have "snd (key_acquire R cal sha now uuid api_key ip conf L) = Inl RateLimitExceeded \<longleftrightarrow> snd (is_blocked (sha api_key) now L)"
    by (simp add: key_acquire_def Let_def split_def split: sum.splits option.splits)
  moreover have "snd (is_blocked (sha api_key) now L) \<Longrightarrow> fst (key_acquire R cal sha now uuid api_key ip conf L) = fst (is_blocked (sha api_key) now L)"
    by (simp add: key_acquire_def Let_def split_def)
  ultimately show ?thesis by metis
qed

text \<open>
  A key is refused for its rate exactly while one of its blocks runs, and then neither Redis nor the
  counters are touched.
\<close>

theorem blocked_iff:
  "(snd (key_acquire R cal sha now uuid api_key ip conf L) = Inl RateLimitExceeded \<longleftrightarrow>
      (\<exists>f t. (f, t) \<in> set (blocks_of (sha api_key) L) \<and> now < t))
   \<and> ((\<exists>f t. (f, t) \<in> set (blocks_of (sha api_key) L) \<and> now < t) \<longrightarrow>
        lm_conn (fst (key_acquire R cal sha now uuid api_key ip conf L)) = lm_conn L
        \<and> lm_published (fst (key_acquire R cal sha now uuid api_key ip conf L)) = lm_published L)"
  by (rule acquire_blocked)

theorem blocked_iff_witness:
  "snd (key_acquire mem_redis cal1 (\<lambda>k. ''ab'') 100 ''00ff'' ''sk-1'' None [] (apply_block_event ''ab'' ''requests_per_minute'' 130 limiter0)) = Inl RateLimitExceeded
   \<and> lm_conn (fst (key_acquire mem_redis cal1 (\<lambda>k. ''ab'') 100 ''00ff'' ''sk-1'' None [] (apply_block_event ''ab'' ''requests_per_minute'' 130 limiter0))) = lm_conn limiter0"
  using blocked_iff [where L = "apply_block_event ''ab'' ''requests_per_minute'' 130 limiter0" and sha = "\<lambda>k. ''ab''" and now = 100
      and R = mem_redis and cal = cal1 and uuid = "''00ff''" and api_key = "''sk-1''" and ip = None and conf = "[]"]
  by (simp add: blocks_of_def apply_block_event_def limiter0_def)

section \<open>A full window blocks\<close>

definition works :: "'s limiter \<Rightarrow> bool" where
  "works L \<longleftrightarrow> conn_client (lm_conn L) \<and> conn_faults (lm_conn L) = []"

definition window_of :: "'s limiter \<Rightarrow> string \<Rightarrow> string \<Rightarrow> key" where
  "window_of L subject field = window_key (conn_prefix (lm_conn L)) (window_name subject field)"

definition block_length :: "'s redis \<Rightarrow> int \<Rightarrow> 's limiter \<Rightarrow> key \<Rightarrow> int" where
  \<comment> \<open>what is left of the window, its full length if it has no expiry\<close>
  "block_length R ttl L k = (let t = r_ttl R (conn_store (lm_conn L)) k in if t < 0 then ttl else t)"

lemma window_key_inj: "window_key pfx (window_name s f) = window_key pfx (window_name s f') \<longleftrightarrow> f = f'"
  by (auto simp: window_key_def window_name_def be_key_def split: option.splits)

lemma blocks_of_apply [simp]: "blocks_of s (apply_block_event s f t L) = dset (blocks_of s L) f t"
  by (simp add: blocks_of_def apply_block_event_def)

lemma apply_block_sel [simp]: "lm_conn (apply_block_event s f t L) = lm_conn L"
  by (simp add: apply_block_event_def)

lemma blocks_of_conn [simp]: "blocks_of s (L\<lparr>lm_conn := c\<rparr>) = blocks_of s L" "blocks_of s (L\<lparr>lm_published := x\<rparr>) = blocks_of s L"
  by (simp_all add: blocks_of_def)

lemma set_blocked_sel [simp]: "lm_conn (set_blocked s f ttl now L) = lm_conn L"
  "blocks_of s (set_blocked s f ttl now L) = dset (blocks_of s L) f (now + of_int ttl)"
  by (simp_all add: set_blocked_def)

context redis_store
begin

lemma incr_script_get:
  assumes "0 < ttl"
  shows "r_get R (fst (incr_script R k amount ttl s)) k' = (if k' = k then Some (HNum (num_of (r_get R s k) + amount)) else r_get R s k')"
  using assms by (simp add: incr_script_def Let_def get_exec str_effect_def)

lemma incr_script_result:
  assumes "0 < ttl"
  shows "snd (incr_script R k amount ttl s) = (num_of (r_get R s k) + amount, r_ttl R (fst (incr_script R k amount ttl s)) k)"
  using assms by (simp add: incr_script_def Let_def get_exec str_effect_def num_of_def split: option.splits hval.splits)

lemma ttl_other: "present R s k \<Longrightarrow> present R (r_exec R (INCRBY k' n) s) k \<Longrightarrow> r_ttl R (r_exec R (INCRBY k' n) s) k = r_ttl R s k"
  using ttl_absent [of s k] by (simp add: ttl_exec ttl_effect_def)

lemma incr_script_ttl_other:
  assumes "0 < ttl" "k' \<noteq> k" "r_get R s k' \<noteq> None"
  shows "r_ttl R (fst (incr_script R k amount ttl s)) k' = r_ttl R s k'"
proof -
  let ?s1 = "r_exec R (INCRBY k amount) s"
  have g1: "r_get R ?s1 k' = r_get R s k'" using assms(2) by (simp add: get_exec str_effect_def)
  have p: "present R s k'" "present R ?s1 k'" using assms(3) g1 by (auto simp: present_def)
  then have t1: "r_ttl R ?s1 k' = r_ttl R s k'" by (rule ttl_other)
  have "r_get R (r_exec R (EXPIRE k ttl) ?s1) k' = r_get R ?s1 k'" using assms(1) by (simp add: get_exec str_effect_def)
  then have "present R (r_exec R (EXPIRE k ttl) ?s1) k'" using assms(3) g1 by (auto simp: present_def)
  then have "r_ttl R (r_exec R (EXPIRE k ttl) ?s1) k' = r_ttl R ?s1 k'" using assms(2) by (simp add: ttl_exec ttl_effect_def)
  with t1 show ?thesis by (simp add: incr_script_def Let_def)
qed

end

lemma works_incr:
  assumes "works L" "L' = count_window (incr_window R (window_name s f) ttl 1) s f cap now L"
  shows "works L'" "conn_prefix (lm_conn L') = conn_prefix (lm_conn L)"
    "conn_store (lm_conn L') = fst (incr_script R (window_of L s f) 1 ttl (conn_store (lm_conn L)))"
  using assms by (auto simp: works_def count_window_def incr_window_def call_def window_of_def Let_def split_def split: option.splits)

lemma blocks_incr:
  assumes "works L" "redis_store R" "0 < ttl" "L' = count_window (incr_window R (window_name s f) ttl 1) s f cap now L"
  shows "blocks_of s L' = (if cap \<le> num_of (r_get R (conn_store (lm_conn L)) (window_of L s f)) + 1
     then dset (blocks_of s L) f (now + of_int (block_length R ttl L' (window_of L s f))) else blocks_of s L)"
  using assms(1,4) redis_store.incr_script_result [OF assms(2,3), of "window_of L s f" 1 "conn_store (lm_conn L)"]
  by (auto simp: works_def count_window_def incr_window_def call_def window_of_def block_length_def Let_def split_def)

lemma window_ttl_pos: "0 < window \<Longrightarrow> 0 < window_ttl cal window now"
  by (simp add: window_ttl_def less_max_iff_disj)

definition held :: "'s redis \<Rightarrow> string \<Rightarrow> string \<Rightarrow> time \<Rightarrow> int \<Rightarrow> 's limiter \<Rightarrow> bool" where
  \<comment> \<open>the key is blocked on the field until its window ends\<close>
  "held R s f now ttl L \<longleftrightarrow> works L \<and> r_get R (conn_store (lm_conn L)) (window_of L s f) \<noteq> None
     \<and> map_of (blocks_of s L) f = Some (now + of_int (block_length R ttl L (window_of L s f)))"

lemma step_other:
  assumes "redis_store R" "works L" "fst w \<noteq> f" "0 < snd (snd w)"
  shows "works (request_step R cal now s lims w L)" "window_of (request_step R cal now s lims w L) s f = window_of L s f"
    "r_get R (conn_store (lm_conn (request_step R cal now s lims w L))) (window_of L s f) = r_get R (conn_store (lm_conn L)) (window_of L s f)"
    "held R s f now ttl L \<Longrightarrow> held R s f now ttl (request_step R cal now s lims w L)"
proof -
  let ?t = "window_ttl cal (snd (snd w)) now" and ?cap = "the (map_of (kl_requests lims) (fst w))"
  let ?L' = "count_window (incr_window R (window_name s (fst w)) ?t 1) s (fst w) ?cap now L"
  have t: "0 < ?t" using assms(4) by (rule window_ttl_pos)
  note w = works_incr [OF assms(2) refl, of R s "fst w" ?t ?cap now]
  have ne: "window_of L s f \<noteq> window_of L s (fst w)" using assms(3) by (auto simp: window_of_def window_key_inj)
  have get: "r_get R (conn_store (lm_conn ?L')) (window_of L s f) = r_get R (conn_store (lm_conn L)) (window_of L s f)"
    using w(3) redis_store.incr_script_get [OF assms(1) t] ne by simp
  have win: "window_of ?L' s f = window_of L s f" using w(2) by (simp add: window_of_def)
  show "works (request_step R cal now s lims w L)" "window_of (request_step R cal now s lims w L) s f = window_of L s f"
    "r_get R (conn_store (lm_conn (request_step R cal now s lims w L))) (window_of L s f) = r_get R (conn_store (lm_conn L)) (window_of L s f)"
    using assms(2) w(1) win get by (simp_all add: request_step_def Let_def)
  show "held R s f now ttl (request_step R cal now s lims w L)" if "held R s f now ttl L"
  proof -
    have "r_ttl R (conn_store (lm_conn ?L')) (window_of L s f) = r_ttl R (conn_store (lm_conn L)) (window_of L s f)"
      using redis_store.incr_script_ttl_other [OF assms(1) t ne] that w(3) by (simp add: held_def)
    then have "held R s f now ttl ?L'"
      using that w(1) win get blocks_incr [OF assms(2,1) t refl, of s "fst w" ?cap now] assms(3)
      by (auto simp: held_def block_length_def)
    with that show ?thesis by (simp add: request_step_def Let_def)
  qed
qed

lemma step_full:
  assumes "redis_store R" "works L" "w = (f, x, window)" "0 < window" "map_of (kl_requests lims) f = Some cap" "0 < cap"
    and "cap \<le> num_of (r_get R (conn_store (lm_conn L)) (window_of L s f)) + 1"
  shows "held R s f now (window_ttl cal window now) (request_step R cal now s lims w L)"
proof -
  let ?t = "window_ttl cal window now"
  let ?L' = "count_window (incr_window R (window_name s f) ?t 1) s f cap now L"
  have t: "0 < ?t" using assms(4) by (rule window_ttl_pos)
  note w = works_incr [OF assms(2) refl, of R s f ?t cap now]
  have "r_get R (conn_store (lm_conn ?L')) (window_of L s f) \<noteq> None"
    using w(3) redis_store.incr_script_get [OF assms(1) t] by simp
  moreover have "window_of ?L' s f = window_of L s f" using w(2) by (simp add: window_of_def)
  ultimately show ?thesis
    using w(1) blocks_incr [OF assms(2,1) t refl, of s f cap now] assms(3,5-7) by (simp add: held_def request_step_def)
qed

lemma steps_held:
  assumes "redis_store R" "held R s f now ttl L" "\<And>w. w \<in> set ws \<Longrightarrow> fst w \<noteq> f \<and> 0 < snd (snd w)"
  shows "held R s f now ttl (fold (request_step R cal now s lims) ws L)"
  using assms(2,3)
proof (induction ws arbitrary: L)
  case (Cons w ws)
  then have "held R s f now ttl (request_step R cal now s lims w L)"
    using step_other(4) [OF assms(1), of L w f] by (auto simp: held_def)
  with Cons show ?case by simp
qed simp

lemma steps_full:
  assumes "redis_store R" "works L" "(f, x, window) \<in> set ws" "distinct (map fst ws)" "\<And>w. w \<in> set ws \<Longrightarrow> 0 < snd (snd w)"
    and "map_of (kl_requests lims) f = Some cap" "0 < cap" "cap \<le> num_of (r_get R (conn_store (lm_conn L)) (window_of L s f)) + 1"
  shows "held R s f now (window_ttl cal window now) (fold (request_step R cal now s lims) ws L)"
  using assms(2-5,8)
proof (induction ws arbitrary: L)
  case (Cons w ws)
  show ?case
  proof (cases "fst w = f")
    case True
    then have w: "w = (f, x, window)" using Cons.prems(2,3) by (cases w) (auto simp: rev_image_eqI)
    have rest: "fst w' \<noteq> f \<and> 0 < snd (snd w')" if "w' \<in> set ws" for w'
      using that Cons.prems(3,4) True by (auto simp: rev_image_eqI)
    have "0 < window" using Cons.prems(4) [of w] w by simp
    from step_full [OF assms(1) Cons.prems(1) w this assms(6,7) Cons.prems(5)]
    show ?thesis using steps_held [OF assms(1) _ rest] by simp
  next
    case False
    then have "(f, x, window) \<in> set ws" using Cons.prems(2) by auto
    with Cons False step_other(1-3) [OF assms(1) Cons.prems(1) False] show ?thesis by simp
  qed
qed simp

definition same_strings :: "'s redis \<Rightarrow> 's conn \<Rightarrow> 's conn \<Rightarrow> bool" where
  "same_strings R c c' \<longleftrightarrow> conn_client c' = conn_client c \<and> conn_prefix c' = conn_prefix c \<and> conn_faults c' = conn_faults c
     \<and> r_get R (conn_store c') = r_get R (conn_store c)"

context redis_store
begin

lemma ip_same_strings: "conn_faults c = [] \<Longrightarrow> same_strings R c (fst (check_and_add_ip R k ip cap ttl c))"
  by (simp add: same_strings_def check_and_add_ip_def call_def ip_script_def Let_def fun_eq_iff get_exec str_effect_def)

lemma acquire_same_strings: "conn_faults c = [] \<Longrightarrow> 0 < ttl \<Longrightarrow> same_strings R c (fst (acquire_concurrency R now k cap lease ttl c))"
  by (simp add: same_strings_def acquire_concurrency_def call_def acquire_script_def Let_def fun_eq_iff get_exec str_effect_def)

end

lemma same_strings_trans: "same_strings R a b \<Longrightarrow> same_strings R b c \<Longrightarrow> same_strings R a c"
  by (simp add: same_strings_def)

lemma acquire_counts:
  assumes "redis_store R" "works L" "limits conf = Inr lims" "key_acquire R cal sha now uuid api_key ip conf L = (L', Inr l)"
  obtains L3 where "L' = count_requests R cal now (sha api_key) lims L3" "same_strings R (lm_conn L) (lm_conn L3)"
proof -
  let ?s = "sha api_key" let ?L1 = "fst (is_blocked ?s now L)"
  let ?ip = "case opt_str ip of Some ip \<Rightarrow> if 0 < kl_max_ips lims
       then check_and_add_ip R (''api-key:'' @ ?s) ip (kl_max_ips lims) (if kl_ip_window lims \<noteq> 0 then kl_ip_window lims else 3600) (lm_conn ?L1)
       else (lm_conn ?L1, None) | None \<Rightarrow> (lm_conn ?L1, None)"
  let ?con = "if 0 < kl_concurrent lims
       then acquire_concurrency R now (''api-key:'' @ ?s) (kl_concurrent lims) (''api-key-lease:'' @ uuid) 3600 (fst ?ip) else (fst ?ip, None)"
  have c1: "lm_conn ?L1 = lm_conn L" by (simp add: is_blocked_def Let_def)
  have f: "conn_faults (lm_conn L) = []" using assms(2) by (simp add: works_def)
  have refl: "same_strings R c c" for c by (simp add: same_strings_def)
  have s2: "same_strings R (lm_conn L) (fst ?ip)"
    using redis_store.ip_same_strings [OF assms(1) f] refl by (auto simp: c1 split: option.splits)
  then have "conn_faults (fst ?ip) = []" using f by (simp add: same_strings_def)
  then have "same_strings R (fst ?ip) (fst ?con)"
    using redis_store.acquire_same_strings [OF assms(1), of "fst ?ip" 3600] refl by simp
  then have "same_strings R (lm_conn L) (fst ?con)" using s2 same_strings_trans by blast
  moreover have "L' = count_requests R cal now ?s lims (?L1\<lparr>lm_conn := fst ?ip, lm_conn := fst ?con\<rparr>)"
    using assms(3,4) by (simp add: key_acquire_def Let_def split_def split: if_splits)
  ultimately show thesis using that [of "?L1\<lparr>lm_conn := fst ?ip, lm_conn := fst ?con\<rparr>"] by simp
qed

text \<open>
  Once a request fills a window of its API key (the count before it, plus one, reaches the limit), the next
  request of that key is refused if it comes before the window has run out, whatever the other windows,
  addresses and leases are.
\<close>

theorem full_window_blocks:
  assumes "redis_store R" "works L" "limits conf = Inr lims" "key_acquire R cal sha now uuid api_key ip conf L = (L', Inr l)"
    and "(f, x, window) \<in> set REQUEST_WINDOWS" "map_of (kl_requests lims) f = Some cap" "0 < cap"
    and "cap \<le> num_of (r_get R (conn_store (lm_conn L)) (window_of L (sha api_key) f)) + 1"
    and "now' < now + of_int (block_length R (window_ttl cal window now) L' (window_of L' (sha api_key) f))"
  shows "snd (key_acquire R cal sha now' uuid' api_key ip' conf' L') = Inl RateLimitExceeded"
proof -
  obtain L3 where L3: "L' = count_requests R cal now (sha api_key) lims L3" "same_strings R (lm_conn L) (lm_conn L3)"
    using acquire_counts [OF assms(1-4)] .
  have "works L3" "window_of L3 (sha api_key) f = window_of L (sha api_key) f"
    using L3(2) assms(2) by (simp_all add: same_strings_def works_def window_of_def)
  moreover have "r_get R (conn_store (lm_conn L3)) = r_get R (conn_store (lm_conn L))" using L3(2) by (simp add: same_strings_def)
  moreover have "distinct (map fst REQUEST_WINDOWS)" "\<And>w. w \<in> set REQUEST_WINDOWS \<Longrightarrow> 0 < snd (snd w)"
    by (auto simp: REQUEST_WINDOWS_def)
  ultimately have "held R (sha api_key) f now (window_ttl cal window now) L'"
    unfolding L3(1) count_requests_def using steps_full [OF assms(1) _ assms(5) _ _ assms(6,7)] assms(8) by simp
  then have "(f, now + of_int (block_length R (window_ttl cal window now) L' (window_of L' (sha api_key) f))) \<in> set (blocks_of (sha api_key) L')"
    by (simp add: held_def map_of_SomeD)
  with assms(9) show ?thesis using acquire_blocked by blast
qed

lemma limits_rpm1:
  "limits [(''rpm'', PInt 1)] = Inr \<lparr>kl_requests = [(''requests_per_minute'', 1), (''requests_per_5h'', 0), (''requests_per_day'', 0), (''requests_per_week'', 0)],
     kl_tokens = [(''tokens_per_minute'', 0), (''tokens_per_day'', 0), (''tokens_per_week'', 0)], kl_concurrent = 0, kl_max_ips = 0, kl_ip_window = 0\<rparr>"
  by (simp add: limits_def conf_alias_def conf_int_def dget_or_def py_or_def)

lemma incr_mem_empty: "snd (incr_script mem_redis k 1 60 mem_empty) = (1, 60)"
  by (simp add: incr_script_def Let_def mem_empty_def mem_ttl_def mem_has_def mem_tidy_def num_of_def)

lemma acquire_limiter0:
  "key_acquire mem_redis cal1 (\<lambda>k. ''ab'') 100 ''00ff'' ''sk-1'' None [(''rpm'', PInt 1)] limiter0 =
     (set_blocked ''ab'' ''requests_per_minute'' 60 100
        (limiter0\<lparr>lm_conn := (lm_conn limiter0)\<lparr>conn_store := fst (incr_script mem_redis ''limit:window:api-key:ab:requests_per_minute'' 1 60 mem_empty)\<rparr>\<rparr>),
      Inr \<lparr>kle_subject = ''ab'', kle_lease_id = ''api-key-lease:00ff'', kle_concurrency_acquired = False\<rparr>)"
  by (simp add: incr_mem_empty key_acquire_def limits_rpm1 is_blocked_def blocks_of_def limiter0_def opt_str_def count_requests_def REQUEST_WINDOWS_def
      request_step_def count_window_def incr_window_def window_ttl_def call_def window_key_def window_name_def be_key_def Let_def split_def)

theorem full_window_blocks_witness:
  "snd (key_acquire mem_redis cal1 (\<lambda>k. ''ab'') 130 ''00fe'' ''sk-1'' None [(''rpm'', PInt 1)]
     (fst (key_acquire mem_redis cal1 (\<lambda>k. ''ab'') 100 ''00ff'' ''sk-1'' None [(''rpm'', PInt 1)] limiter0))) = Inl RateLimitExceeded"
proof -
  let ?k = "''limit:window:api-key:ab:requests_per_minute''"
  have w: "works limiter0" by (simp add: works_def limiter0_def)
  have k: "window_of limiter0 ''ab'' ''requests_per_minute'' = ?k"
    by (simp add: window_of_def limiter0_def window_key_def window_name_def be_key_def)
  have ttl: "mem_ttl (fst (incr_script mem_redis ?k 1 60 mem_empty)) ?k = 60"
    using incr_mem_empty [of ?k] mem.incr_script_result [of 60 ?k 1 mem_empty] by simp
  have f: "(''requests_per_minute'', ''rpm'', 60) \<in> set REQUEST_WINDOWS" by (simp add: REQUEST_WINDOWS_def)
  have "num_of (fmlookup (strs mem_empty) ?k) = 0" by (simp add: mem_empty_def num_of_def)
  then show ?thesis
    unfolding acquire_limiter0 fst_conv
    using full_window_blocks [OF mem.redis_store_axioms w limits_rpm1 acquire_limiter0 f, of 1 130 "''00fe''" None "[(''rpm'', PInt 1)]"] k ttl
    by (simp add: block_length_def window_ttl_def window_of_def limiter0_def window_key_def window_name_def be_key_def)
qed

end
