(* ===== verification/Lub_FreezePolicy.thy ===== *)
theory Lub_FreezePolicy
  imports Lub_Ledger Lub_Json
begin

text \<open>
  \<open>server/limit_policy_store.py\<close>: the freeze rules of a channel. A policy comes from the database or from
  the admin interface as JSON-like data; it is normalised (or validated) into rules, and the first
  enabled rule that matches a failed response decides who is frozen and for how long. Also the older
  cooldown policy keyed by status codes, and the cache of effective policies.

  The local calendar is the parameter of \<open>Lub_Ledger\<close>; texts are ASCII as far as \<open>lower\<close> and \<open>strip\<close> go.
\<close>

section \<open>Constants\<close>

definition FREEZE_CONDITION_TYPES :: "string list" where
  "FREEZE_CONDITION_TYPES = [''status_code'', ''headers'', ''exception'', ''error_type'', ''error_kind'', ''body'']"

definition FREEZE_OPERATORS :: "string list" where
  "FREEZE_OPERATORS = [''in'', ''=='', ''!='', ''<='', ''>='', ''<'', ''>'', ''exists'', ''contains'']"

definition FREEZE_OBJECTS :: "string list" where
  "FREEZE_OBJECTS = [''account'', ''account_model'', ''channel'', ''channel_model'']"

definition FREEZE_PERIODS :: "string list" where
  "FREEZE_PERIODS = [''none'', ''disabled'', ''permanent'', ''seconds'', ''minutes'', ''hours'', ''days'', ''today'', ''week'', ''month'']"

definition FREEZE_PERIODS_WITH_VALUE :: "string list" where
  "FREEZE_PERIODS_WITH_VALUE = [''seconds'', ''minutes'', ''hours'', ''days'']"

definition FREEZE_OBJECTS_SUPPORT_DISABLED :: "string list" where
  "FREEZE_OBJECTS_SUPPORT_DISABLED = [''account'', ''channel'']"

definition FREEZE_OBJECTS_SUPPORT_PERMANENT :: "string list" where
  "FREEZE_OBJECTS_SUPPORT_PERMANENT = [''account'']"

definition NATURAL_BOUNDARY_FREEZE_BUFFER_SECONDS :: int where
  "NATURAL_BOUNDARY_FREEZE_BUFFER_SECONDS = 1800"

section \<open>Values\<close>

definition int_value :: "pyval \<Rightarrow> int \<Rightarrow> int" where
  "int_value v dflt = (case py_int v of Inr n \<Rightarrow> n | Inl _ \<Rightarrow> dflt)"

definition field_text :: "pydict \<Rightarrow> string \<Rightarrow> string" where
  \<comment> \<open>\<open>str(rule.get(k) or "").strip()\<close>\<close>
  "field_text d k = strip (py_str (py_or (dget d k) (PStr '''')))"

definition to_number :: "pyval \<Rightarrow> fnum option" where
  "to_number v =
     (case v of
        PBool _ \<Rightarrow> None
      | PInt n \<Rightarrow> Some (Fin (of_int n))
      | PFloat r \<Rightarrow> Some (Fin r)
      | _ \<Rightarrow> (let t = strip (py_str v)
             in if t = [] then None
                else if contains ''.'' t \<or> contains ''e'' t \<or> contains ''E'' t then py_float t
                else (case parse_int t of Some n \<Rightarrow> Some (Fin (of_int n)) | None \<Rightarrow> py_float t)))"

fun num_eq :: "fnum \<Rightarrow> fnum \<Rightarrow> bool" where
  "num_eq (Fin a) (Fin b) = (a = b)"
| "num_eq PosInf PosInf = True"
| "num_eq NegInf NegInf = True"
| "num_eq _ _ = False"

fun num_less :: "fnum \<Rightarrow> fnum \<Rightarrow> bool" where
  "num_less (Fin a) (Fin b) = (a < b)"
| "num_less (Fin a) PosInf = True"
| "num_less NegInf (Fin b) = True"
| "num_less NegInf PosInf = True"
| "num_less _ _ = False"

definition num_compare :: "string \<Rightarrow> fnum \<Rightarrow> fnum \<Rightarrow> bool" where
  "num_compare oper a b =
     (if oper = ''=='' then num_eq a b else if oper = ''!='' then \<not> num_eq a b
      else if oper = ''<='' then num_less a b \<or> num_eq a b else if oper = ''>='' then num_less b a \<or> num_eq b a
      else if oper = ''<'' then num_less a b else if oper = ''>'' then num_less b a else False)"

definition in_list :: "pyval \<Rightarrow> string \<Rightarrow> bool" where
  "in_list actual expected =
     (\<exists>p \<in> set (split_on (CHR '','') expected). let part = strip p in part \<noteq> [] \<and>
        (case (to_number actual, to_number (PStr part)) of
           (Some a, Some b) \<Rightarrow> num_eq a b
         | _ \<Rightarrow> strip (py_str actual) = part))"

definition compare_op :: "pyval \<Rightarrow> string \<Rightarrow> string \<Rightarrow> bool" where
  \<comment> \<open>\<open>_compare\<close>; \<open>PNone\<close> is a missing value\<close>
  "compare_op actual oper0 expected =
     (let oper = strip oper0
      in if oper = ''exists'' then actual \<noteq> PNone
         else if actual = PNone then False
         else if oper = ''contains'' then contains expected (py_str actual)
         else if oper = ''in'' then in_list actual expected
         else (case (to_number actual, to_number (PStr expected)) of
                 (Some a, Some b) \<Rightarrow> num_compare oper a b
               | _ \<Rightarrow> (if oper = ''=='' then strip (py_str actual) = strip expected
                       else if oper = ''!='' then strip (py_str actual) \<noteq> strip expected else False)))"

section \<open>Rules\<close>

record freeze_rule =
  fr_condition :: string
  fr_key :: string
  fr_operator :: string
  fr_value :: string
  fr_object :: string
  fr_period :: string
  fr_amount :: int
  fr_enabled :: bool

definition split_parts :: "string \<Rightarrow> string list" where
  \<comment> \<open>trimmed, without empty items, first occurrences only\<close>
  "split_parts value = rev (remdups (rev (filter (\<lambda>p. p \<noteq> []) (map strip (split_on (CHR '','') value)))))"

definition rule_value :: "string \<Rightarrow> string \<Rightarrow> pyval \<Rightarrow> string option" where
  \<comment> \<open>the text a rule compares with; \<open>None\<close> makes the rule invalid\<close>
  "rule_value cond oper v =
     (if cond = ''exception'' \<or> oper = ''exists'' then Some ''''
      else if v = PNone then None
      else (let t = strip (py_str v)
            in if t = [] then None
               else if oper = ''in'' then (if split_parts t = [] then None else Some (join '','' (split_parts t)))
               else Some t))"

definition normalize_freeze_rule :: "pyval \<Rightarrow> freeze_rule option" where
  "normalize_freeze_rule v = (case v of
      PDict d \<Rightarrow>
        (let cond = lower (field_text d ''condition''); key0 = field_text d ''key'';
             key = (if cond \<in> {''status_code'', ''exception'', ''error_type'', ''error_kind''} then '''' else key0);
             oper = (if cond = ''exception'' then '''' else field_text d ''operator'');
             obj = lower (field_text d ''freeze_object''); per = lower (field_text d ''freeze_period'');
             n = int_value (dget d ''freeze_value'') 0
         in if cond \<notin> set FREEZE_CONDITION_TYPES then None
            else if cond \<in> {''headers'', ''body''} \<and> key0 = [] then None
            else if cond \<noteq> ''exception'' \<and> oper \<notin> set FREEZE_OPERATORS then None
            else (case rule_value cond oper (dget d ''value'') of
              None \<Rightarrow> None
            | Some value \<Rightarrow>
               (if obj \<notin> set FREEZE_OBJECTS \<or> per \<notin> set FREEZE_PERIODS
                   \<or> (per = ''disabled'' \<and> obj \<notin> set FREEZE_OBJECTS_SUPPORT_DISABLED)
                   \<or> (per = ''permanent'' \<and> obj \<notin> set FREEZE_OBJECTS_SUPPORT_PERMANENT)
                   \<or> (per \<in> set FREEZE_PERIODS_WITH_VALUE \<and> n \<le> 0) then None
                else Some \<lparr>fr_condition = cond, fr_key = key, fr_operator = oper, fr_value = value, fr_object = obj, fr_period = per,
                           fr_amount = (if per \<in> set FREEZE_PERIODS_WITH_VALUE then n else 0),
                           fr_enabled = (dget_or d ''enabled'' (PBool True) \<noteq> PBool False)\<rparr>)))
    | _ \<Rightarrow> None)"

record freeze_policy =
  fp_enabled :: bool
  fp_refresh :: bool
  fp_rules :: "freeze_rule list"

definition dict_of :: "pyval \<Rightarrow> pydict" where
  \<comment> \<open>\<open>policy if isinstance(policy, dict) else {}\<close>\<close>
  "dict_of v = (case v of PDict d \<Rightarrow> d | _ \<Rightarrow> [])"

definition normalize_freeze_policy :: "pyval \<Rightarrow> freeze_policy" where
  "normalize_freeze_policy v =
     (let raw = dict_of v
      in \<lparr>fp_enabled = truthy (dget_or raw ''enabled'' (PBool False)),
          fp_refresh = truthy (dget_or raw ''refresh_freeze_on_failure'' (PBool True)),
          fp_rules = (case dget raw ''rules'' of PList rs \<Rightarrow> List.map_filter normalize_freeze_rule rs | _ \<Rightarrow> [])\<rparr>)"

definition rule_dict :: "freeze_rule \<Rightarrow> pyval" where
  "rule_dict r = PDict [(''condition'', PStr (fr_condition r)), (''key'', PStr (fr_key r)), (''operator'', PStr (fr_operator r)),
     (''value'', PStr (fr_value r)), (''freeze_object'', PStr (fr_object r)), (''freeze_period'', PStr (fr_period r)),
     (''freeze_value'', PInt (fr_amount r)), (''enabled'', PBool (fr_enabled r))]"

definition policy_dict :: "freeze_policy \<Rightarrow> pyval" where
  "policy_dict p = PDict [(''enabled'', PBool (fp_enabled p)), (''refresh_freeze_on_failure'', PBool (fp_refresh p)),
     (''rules'', PList (map rule_dict (fp_rules p)))]"

definition default_rule :: "string \<Rightarrow> string \<Rightarrow> string \<Rightarrow> string \<Rightarrow> int \<Rightarrow> pyval" where
  "default_rule cond oper value per n = PDict [(''condition'', PStr cond), (''key'', PStr ''''), (''operator'', PStr oper),
     (''value'', PStr value), (''freeze_object'', PStr ''account''), (''freeze_period'', PStr per), (''freeze_value'', PInt n)]"

definition default_freeze_policy :: pyval where
  "default_freeze_policy = PDict [(''enabled'', PBool True), (''refresh_freeze_on_failure'', PBool True),
     (''rules'', PList [default_rule ''status_code'' ''=='' ''403'' ''today'' 0, default_rule ''exception'' '''' '''' ''seconds'' 60,
                        default_rule ''status_code'' ''=='' ''429'' ''seconds'' 60])]"

definition get_default_freeze_policy :: "pyval \<Rightarrow> pyval" where
  \<comment> \<open>\<open>raw\<close>: the entry of the global configuration, \<open>PNone\<close> if there is none or it cannot be read\<close>
  "get_default_freeze_policy raw = (case raw of
      PDict _ \<Rightarrow> if fp_rules (normalize_freeze_policy raw) \<noteq> [] then policy_dict (normalize_freeze_policy raw) else default_freeze_policy
    | _ \<Rightarrow> default_freeze_policy)"

definition valid_rule :: "pyval \<Rightarrow> bool" where
  \<comment> \<open>the checks of \<open>validate_freeze_policy\<close> on one rule\<close>
  "valid_rule v = (case v of
      PDict d \<Rightarrow>
        (let cond = lower (field_text d ''condition''); oper = field_text d ''operator'';
             obj = lower (field_text d ''freeze_object''); per = lower (field_text d ''freeze_period'');
             n = int_value (dget d ''freeze_value'') 0; value = dget d ''value''
         in cond \<in> set FREEZE_CONDITION_TYPES
            \<and> (cond = ''exception'' \<or>
                 (oper \<in> set FREEZE_OPERATORS
                  \<and> \<not> (cond \<in> {''headers'', ''body''} \<and> field_text d ''key'' = [])
                  \<and> \<not> (oper \<noteq> ''exists'' \<and> (value = PNone \<or> strip (py_str value) = []))
                  \<and> \<not> (oper = ''in'' \<and> filter (\<lambda>p. strip p \<noteq> []) (split_on (CHR '','') (py_str (py_or value (PStr '''')))) = [])))
            \<and> obj \<in> set FREEZE_OBJECTS \<and> per \<in> set FREEZE_PERIODS
            \<and> \<not> (per = ''disabled'' \<and> obj \<notin> set FREEZE_OBJECTS_SUPPORT_DISABLED)
            \<and> \<not> (per = ''permanent'' \<and> obj \<notin> set FREEZE_OBJECTS_SUPPORT_PERMANENT)
            \<and> \<not> (per \<in> set FREEZE_PERIODS_WITH_VALUE \<and> n \<le> 0))
    | _ \<Rightarrow> False)"

definition validate_freeze_policy :: "pyval \<Rightarrow> pyerror + pyval" where
  "validate_freeze_policy v = (case v of
      PNone \<Rightarrow> Inr default_freeze_policy
    | PDict d \<Rightarrow> (case dget d ''rules'' of
        PNone \<Rightarrow> Inr (policy_dict (normalize_freeze_policy v))
      | PList rs \<Rightarrow> if \<forall>r \<in> set rs. valid_rule r then Inr (policy_dict (normalize_freeze_policy v)) else Inl ValueError
      | _ \<Rightarrow> Inl ValueError)
    | _ \<Rightarrow> Inl ValueError)"

section \<open>Actions\<close>

definition seconds_until_today_end :: "calendar \<Rightarrow> time \<Rightarrow> int" where
  "seconds_until_today_end cal now = max 1 (trunc (to_midnight cal now))"

definition seconds_until_week_end :: "calendar \<Rightarrow> time \<Rightarrow> int" where
  "seconds_until_week_end cal now = max 1 (trunc (to_midnight cal now + of_int ((6 - weekday cal now) * 86400) - 1))"

definition seconds_until_month_end :: "calendar \<Rightarrow> time \<Rightarrow> int" where
  "seconds_until_month_end cal now = max 1 (trunc (to_next_month cal now - 1))"

definition period_to_seconds :: "calendar \<Rightarrow> time \<Rightarrow> string \<Rightarrow> int \<Rightarrow> int" where
  "period_to_seconds cal now per0 n =
     (let per = lower (strip per0)
      in if per = ''seconds'' then max 1 n else if per = ''minutes'' then max 1 (n * 60)
         else if per = ''hours'' then max 1 (n * 3600) else if per = ''days'' then max 1 (n * 86400)
         else if per = ''today'' then seconds_until_today_end cal now + NATURAL_BOUNDARY_FREEZE_BUFFER_SECONDS
         else if per = ''week'' then seconds_until_week_end cal now + NATURAL_BOUNDARY_FREEZE_BUFFER_SECONDS
         else if per = ''month'' then seconds_until_month_end cal now + NATURAL_BOUNDARY_FREEZE_BUFFER_SECONDS
         else 0)"

record freeze_action =
  fa_scope :: string
  fa_seconds :: int
  fa_permanent :: bool
  fa_disable :: bool
  fa_mode :: string

definition freeze_rule_to_action :: "calendar \<Rightarrow> time \<Rightarrow> string \<Rightarrow> string \<Rightarrow> int \<Rightarrow> freeze_action" where
  "freeze_rule_to_action cal now obj0 per0 n =
     (let obj = lower (strip obj0); per = lower (strip per0); scope = (if obj \<in> set FREEZE_OBJECTS then obj else ''account'')
      in if per = ''none'' then \<lparr>fa_scope = scope, fa_seconds = 0, fa_permanent = False, fa_disable = False, fa_mode = ''no_freeze''\<rparr>
         else if per = ''disabled'' then \<lparr>fa_scope = scope, fa_seconds = 0, fa_permanent = False, fa_disable = True, fa_mode = obj @ ''_disabled''\<rparr>
         else if per = ''permanent'' then \<lparr>fa_scope = ''account'', fa_seconds = 0, fa_permanent = True, fa_disable = False, fa_mode = ''account_permanent''\<rparr>
         else \<lparr>fa_scope = scope, fa_seconds = period_to_seconds cal now per n, fa_permanent = False, fa_disable = False, fa_mode = obj @ ''_'' @ per\<rparr>)"

section \<open>Matching\<close>

definition walk :: "string list \<Rightarrow> pyval \<Rightarrow> pyval" where
  \<comment> \<open>follow a dotted path through nested dictionaries\<close>
  "walk parts body = fold (\<lambda>p cur. if strip p = [] then PNone else case cur of PDict d \<Rightarrow> dget d (strip p) | _ \<Rightarrow> PNone) parts body"

definition resolve_body_field :: "pyval \<Rightarrow> string \<Rightarrow> pyval" where
  "resolve_body_field body key =
     (let b = (case body of PStr t \<Rightarrow> (case json_loads t of Some v \<Rightarrow> v | None \<Rightarrow> PNone) | _ \<Rightarrow> body)
      in if \<exists>p \<in> set (split_on (CHR ''.'') key). strip p = [] then PNone else walk (split_on (CHR ''.'') key) b)"

record response =
  rsp_status :: "int option"
  rsp_headers :: "pydict option"
  rsp_exception :: bool
  rsp_error_code :: "string option"
  rsp_error_kind :: "string option"
  rsp_body :: pyval

definition header_map :: "pydict option \<Rightarrow> pydict" where
  "header_map hs = (case hs of None \<Rightarrow> [] | Some d \<Rightarrow> fold (\<lambda>(k, v) m. dset m (lower (strip k)) v) d [])"

definition rule_actual :: "response \<Rightarrow> freeze_rule \<Rightarrow> pyval option" where
  \<comment> \<open>what the rule looks at; \<open>None\<close> skips the rule\<close>
  "rule_actual rsp r =
     (let cond = fr_condition r
      in if cond = ''status_code'' then map_option PInt (rsp_status rsp)
         else if cond = ''headers'' then Some (dget (header_map (rsp_headers rsp)) (lower (strip (fr_key r))))
         else if cond = ''body'' then (let v = resolve_body_field (rsp_body rsp) (fr_key r)
                                       in if v = PNone \<and> fr_operator r \<noteq> ''exists'' then None else Some v)
         else if cond = ''error_type'' then map_option PStr (opt_str (rsp_error_code rsp))
         else if cond = ''error_kind'' then map_option PStr (opt_str (rsp_error_kind rsp))
         else None)"

definition rule_hits :: "response \<Rightarrow> freeze_rule \<Rightarrow> bool" where
  "rule_hits rsp r \<longleftrightarrow> fr_enabled r \<and>
     (if fr_condition r \<in> {''status_code'', ''headers'', ''body'', ''error_type'', ''error_kind''}
      then (case rule_actual rsp r of None \<Rightarrow> False | Some v \<Rightarrow> compare_op v (fr_operator r) (fr_value r))
      else rsp_exception rsp)"

record freeze_match =
  fm_rule :: freeze_rule
  fm_action :: freeze_action

definition match_freeze_rules :: "calendar \<Rightarrow> time \<Rightarrow> pyval \<Rightarrow> response \<Rightarrow> freeze_match option" where
  "match_freeze_rules cal now policy rsp =
     (let p = normalize_freeze_policy policy
      in if \<not> fp_enabled p then None
         else map_option (\<lambda>r. \<lparr>fm_rule = r, fm_action = freeze_rule_to_action cal now (fr_object r) (fr_period r) (fr_amount r)\<rparr>)
                (find (rule_hits rsp) (fp_rules p)))"

section \<open>The cooldown policy by status codes\<close>

definition parse_cooldown_seconds :: "pyval \<Rightarrow> int \<Rightarrow> int" where
  "parse_cooldown_seconds v dflt = (case py_int v of Inl _ \<Rightarrow> dflt | Inr n \<Rightarrow> if n < -2 then dflt else n)"

definition cooldown_seconds_strict :: "pyval \<Rightarrow> pyerror + int" where
  "cooldown_seconds_strict v = (case py_int v of Inl _ \<Rightarrow> Inl ValueError | Inr n \<Rightarrow> if n < -2 then Inl ValueError else Inr n)"

definition status_codes :: "string \<Rightarrow> int list option" where
  \<comment> \<open>every part of a comma list is a status code between 100 and 599\<close>
  "status_codes key = (let parts = map (\<lambda>p. parse_int (strip p)) (split_on (CHR '','') key)
     in if \<forall>c \<in> set parts. case c of Some n \<Rightarrow> 100 \<le> n \<and> n \<le> 599 | None \<Rightarrow> False then Some (map the parts) else None)"

definition cooldown_entry :: "string \<times> pyval \<Rightarrow> (string \<times> string) list \<Rightarrow> (string \<times> string) list" where
  "cooldown_entry kv acc =
     (let key = lower (strip (fst kv))
      in if key = [] then acc
         else if key = ''error'' then dset acc ''error'' (int_str (parse_cooldown_seconds (snd kv) 60))
         else (case status_codes key of
                 None \<Rightarrow> acc
               | Some cs \<Rightarrow> dset acc (join '','' (map int_str cs)) (int_str (parse_cooldown_seconds (snd kv) 0))))"

definition normalize_cooldown_policy :: "pyval \<Rightarrow> (string \<times> string) list" where
  "normalize_cooldown_policy v =
     (let n0 = fold cooldown_entry (dict_of v) [];
          n1 = (if ''error'' \<in> fst ` set n0 then n0 else dset n0 ''error'' ''60'')
      in if \<exists>k \<in> fst ` set n1. k \<noteq> ''error'' \<and> ''429'' \<in> set (split_on (CHR '','') k) then n1 else dset n1 ''429'' ''60'')"

definition validate_cooldown_policy :: "pyval \<Rightarrow> pyerror + (string \<times> string) list" where
  "validate_cooldown_policy v = (case v of
      PDict d \<Rightarrow>
        (let d1 = (if ''error'' \<in> (\<lambda>k. lower (strip k)) ` fst ` set d then d else dset d ''error'' (PStr ''60''))
         in if \<exists>x \<in> set d1. \<exists>e. cooldown_seconds_strict (snd x) = Inl e then Inl ValueError
            else Inr (normalize_cooldown_policy (PDict d1)))
    | _ \<Rightarrow> Inl ValueError)"

record cooldown_match =
  cm_seconds :: int
  cm_raw :: int
  cm_source :: string
  cm_disable :: bool

definition match_cooldown :: "calendar \<Rightarrow> time \<Rightarrow> int option \<Rightarrow> pyval \<Rightarrow> cooldown_match" where
  "match_cooldown cal now status policy =
     (let norm = normalize_cooldown_policy policy;
          hits = (case status of None \<Rightarrow> []
            | Some c \<Rightarrow> map (\<lambda>(k, v). int_value (PStr v) 0)
                 (filter (\<lambda>(k, v). k \<noteq> ''error'' \<and> int_str c \<in> strip ` set (split_on (CHR '','') k)) norm));
          raw = (if -2 \<in> set hits then -2 else if -1 \<in> set hits then -1
                 else if hits \<noteq> [] then fold max (tl hits) (hd hits)
                 else int_value (case map_of norm ''error'' of Some t \<Rightarrow> PStr t | None \<Rightarrow> PNone) 60)
      in \<lparr>cm_seconds = (if raw = -2 then 0 else if raw = -1 then seconds_until_today_end cal now else max 0 raw),
          cm_raw = raw, cm_source = (if hits \<noteq> [] then ''status'' else ''error''), cm_disable = (raw = -2)\<rparr>)"

section \<open>Effective policies and their cache\<close>

definition rate_int :: "pydict \<Rightarrow> string \<Rightarrow> int" where
  "rate_int rl k = int_value (dget rl k) 0"

definition policy_fields_from_rate_limit :: "pyval \<Rightarrow> pydict" where
  \<comment> \<open>for a list, a dictionary or a text under \<open>status_codes\<close>; any other true value would raise\<close>
  "policy_fields_from_rate_limit v =
     (let rl = dict_of v; cool = PStr (int_str (int_value (dget rl ''cooldown_seconds'') 60));
          base = [(''429'', cool), (''error'', PStr (int_str (int_value (dget rl ''exception_cooldown_seconds'') 60)))];
          codes = (case dget rl ''status_codes'' of PList cs \<Rightarrow> cs | PDict d \<Rightarrow> map (PStr \<circ> fst) d | PStr t \<Rightarrow> map (\<lambda>c. PStr [c]) t | _ \<Rightarrow> []);
          cd = fold (\<lambda>c acc. case py_int c of Inr n \<Rightarrow> dset acc (int_str n) cool | Inl _ \<Rightarrow> acc) codes base
      in [(''account_rpm'', PInt (int_value (dget_or rl ''rpm_per_account'' (dget_or rl ''requests_per_minute_per_account'' (PInt 0))) 0)),
          (''account_tpm'', PInt (rate_int rl ''tpm_per_account'')), (''model_tpm'', PInt (rate_int rl ''tpm_per_model'')),
          (''account_concurrent'', PInt (rate_int rl ''concurrent_per_account'')), (''account_rph'', PInt 0), (''account_tph'', PInt 0),
          (''account_rpd'', PInt (rate_int rl ''rpd_per_account'')), (''account_tpd'', PInt 0),
          (''cooldown_policy'', PDict (map (\<lambda>(k, t). (k, PStr t)) (normalize_cooldown_policy (PDict cd))))])"

type_synonym policy_cache = "(string \<times> time \<times> pydict) list"

definition zero_limits :: "pydict \<Rightarrow> pydict" where
  "zero_limits d = fold (\<lambda>k d. dset d k (PInt 0))
     [''account_rpm'', ''account_tpm'', ''model_tpm'', ''account_concurrent'', ''account_rph'', ''account_tph'', ''account_rpd'', ''account_tpd''] d"

definition legacy_effective_policy :: "string \<Rightarrow> pyval \<Rightarrow> pydict" where
  \<comment> \<open>\<open>rate_limit\<close>: that entry of the channel's configuration\<close>
  "legacy_effective_policy provider rate_limit =
     [(''provider_name'', PStr provider), (''name'', PStr ''default''), (''enabled'', PBool True)]
     @ policy_fields_from_rate_limit rate_limit @ [(''freeze_policy'', default_freeze_policy), (''extra'', PDict [])]"

definition cooldown_dict :: "pyval \<Rightarrow> pyval" where
  "cooldown_dict v = PDict (map (\<lambda>(k, t). (k, PStr t)) (normalize_cooldown_policy v))"

definition effective_policy :: "string \<Rightarrow> pydict option \<Rightarrow> pyval \<Rightarrow> pydict" where
  \<comment> \<open>\<open>row\<close>: the policy row of the database, \<open>None\<close> if there is none or the query fails\<close>
  "effective_policy provider row rate_limit =
     (case row of
        Some (x # xs) \<Rightarrow>
          (let q = dset (dset (x # xs) ''cooldown_policy'' (cooldown_dict (dget (x # xs) ''cooldown_policy'')))
                     ''freeze_policy'' (policy_dict (normalize_freeze_policy (dget (x # xs) ''freeze_policy'')))
           in if dget q ''enabled'' = PBool False then zero_limits q else q)
      | _ \<Rightarrow> legacy_effective_policy provider rate_limit)"

definition get_effective_provider_policy ::
  "time \<Rightarrow> string \<Rightarrow> bool \<Rightarrow> pydict option \<Rightarrow> pyval \<Rightarrow> policy_cache \<Rightarrow> policy_cache \<times> pydict" where
  "get_effective_provider_policy now provider refresh row rate_limit cache =
     (case map_of cache provider of
        Some (t, p) \<Rightarrow> if \<not> refresh \<and> now - t < 30 then (cache, p)
          else (let p' = effective_policy provider row rate_limit in (dset cache provider (now, p'), p'))
      | None \<Rightarrow> (let p' = effective_policy provider row rate_limit in (dset cache provider (now, p'), p')))"

definition get_effective_provider_policy_sync :: "string \<Rightarrow> policy_cache \<Rightarrow> pydict" where
  "get_effective_provider_policy_sync provider cache =
     (case map_of cache provider of
        Some (_, p) \<Rightarrow> p
      | None \<Rightarrow> zero_limits [(''provider_name'', PStr provider), (''name'', PStr ''default''), (''enabled'', PBool True)]
          @ [(''cooldown_policy'', cooldown_dict (PDict [(''429'', PStr ''60''), (''error'', PStr ''60'')])),
             (''freeze_policy'', default_freeze_policy), (''extra'', PDict [])])"

definition peek_cached_provider_policy :: "string \<Rightarrow> policy_cache \<Rightarrow> pydict option" where
  "peek_cached_provider_policy provider cache = map_option snd (map_of cache provider)"

definition clear_policy_cache :: "string option \<Rightarrow> policy_cache \<Rightarrow> policy_cache" where
  "clear_policy_cache provider cache = (case opt_str provider of Some p \<Rightarrow> AList.delete p cache | None \<Rightarrow> [])"

section \<open>Texts\<close>

lemma strip_iff: "strip s = s \<longleftrightarrow> s = [] \<or> (\<not> is_space (hd s) \<and> \<not> is_space (last s))"
proof
  assume st: "strip s = s"
  show "s = [] \<or> (\<not> is_space (hd s) \<and> \<not> is_space (last s))"
  proof (cases s)
    case (Cons c t)
    have len: "length (dropWhile is_space xs) \<le> length xs" for xs by (rule length_dropWhile_le)
    have "length s \<le> length (dropWhile is_space s)"
      using st len [of "rev (dropWhile is_space s)"] unfolding strip_def rstrip_def lstrip_def by (metis length_rev)
    then have l: "dropWhile is_space s = s"
      using len [of s] by (metis dropWhile_eq_drop drop_eq_Nil2 length_drop append_Nil2 diff_is_0_eq diff_zero le_antisym drop0 length_0_conv diff_diff_cancel length_takeWhile_le)
    then have r: "dropWhile is_space (rev s) = rev s" using st unfolding strip_def rstrip_def lstrip_def by (metis rev_rev_ident)
    have "\<not> is_space (hd s)" using l Cons hd_dropWhile [of is_space s] by (metis list.distinct(1))
    moreover have "\<not> is_space (last s)" using r Cons hd_dropWhile [of is_space "rev s"] by (metis hd_rev list.distinct(1) rev_is_Nil_conv)
    ultimately show ?thesis by simp
  qed simp
next
  assume a: "s = [] \<or> (\<not> is_space (hd s) \<and> \<not> is_space (last s))"
  show "strip s = s"
  proof (cases "s = []")
    case False
    then have "dropWhile is_space s = s" using a by (cases s) auto
    moreover have "dropWhile is_space (rev s) = rev s" using a False by (cases "rev s") (auto simp: hd_rev [symmetric])
    ultimately show ?thesis by (simp add: strip_def rstrip_def lstrip_def)
  qed (simp add: strip_def rstrip_def lstrip_def)
qed

lemma strip_strip [simp]: "strip (strip s) = strip s"
proof -
  let ?t = "dropWhile is_space (rev (dropWhile is_space s))"
  have s: "strip s = rev ?t" by (simp add: strip_def rstrip_def lstrip_def)
  show ?thesis
  proof (cases "?t = []")
    case True
    then show ?thesis by (simp add: s strip_iff)
  next
    case False
    then have l: "\<not> is_space (last (strip s))" using hd_dropWhile [OF False] by (simp add: s last_rev)
    obtain x where x: "rev (dropWhile is_space s) = x @ ?t" by (metis takeWhile_dropWhile_id)
    then have "dropWhile is_space s = strip s @ rev x" by (metis s rev_append rev_rev_ident)
    moreover have "strip s \<noteq> []" using False s by simp
    ultimately have "hd (strip s) = hd (dropWhile is_space s)" "dropWhile is_space s \<noteq> []" by auto
    then have "\<not> is_space (hd (strip s))" using hd_dropWhile [of is_space s] by simp
    with l show ?thesis by (simp add: strip_iff)
  qed
qed

lemma split_on_free: "w \<in> set (split_on c s) \<Longrightarrow> c \<notin> set w"
proof (induction s arbitrary: w)
  case (Cons x xs)
  then show ?case by (cases "split_on c xs") (auto split: if_splits)
qed simp

lemma split_on_plain: "c \<notin> set w \<Longrightarrow> split_on c w = [w]"
  by (induction w) auto

lemma split_on_append: "c \<notin> set w \<Longrightarrow> split_on c (w @ c # s) = w # split_on c s"
  by (induction w) auto

lemma split_on_join: "ws \<noteq> [] \<Longrightarrow> (\<And>w. w \<in> set ws \<Longrightarrow> c \<notin> set w) \<Longrightarrow> split_on c (join [c] ws) = ws"
proof (induction ws rule: induct_list012)
  case (3 x y ys)
  then show ?case using split_on_append [of c x "join [c] (y # ys)"] by simp
qed (simp_all add: split_on_plain)

lemma split_parts_item: "p \<in> set (split_parts t) \<Longrightarrow> p \<noteq> [] \<and> strip p = p \<and> CHR '','' \<notin> set p"
proof -
  assume "p \<in> set (split_parts t)"
  then obtain q where q: "q \<in> set (split_on (CHR '','') t)" "p = strip q" "p \<noteq> []" by (auto simp: split_parts_def)
  have "set (strip q) \<subseteq> set q"
    by (auto simp: strip_def rstrip_def lstrip_def dest!: set_dropWhileD)
  with split_on_free [OF q(1)] q show ?thesis by auto
qed

lemma distinct_split_parts: "distinct (split_parts t)"
  by (simp add: split_parts_def)

lemma strip_join:
  assumes "ws \<noteq> []" "\<And>w. w \<in> set ws \<Longrightarrow> w \<noteq> [] \<and> strip w = w"
  shows "strip (join sep ws) = join sep ws" "join sep ws \<noteq> []"
proof -
  have h: "join sep ws \<noteq> [] \<and> hd (join sep ws) = hd (hd ws) \<and> last (join sep ws) = last (last ws)"
    using assms by (induction ws rule: induct_list012) auto
  have "\<not> is_space (hd (hd ws))" "\<not> is_space (last (last ws))"
    using assms(2) [of "hd ws"] assms(2) [of "last ws"] assms(1) strip_iff by auto
  with h show "strip (join sep ws) = join sep ws" "join sep ws \<noteq> []" by (simp_all add: strip_iff)
qed

lemma split_parts_join:
  assumes "split_parts t \<noteq> []"
  shows "split_parts (join '','' (split_parts t)) = split_parts t"
proof -
  let ?ps = "split_parts t"
  have "split_on (CHR '','') (join '','' ?ps) = ?ps"
    using split_on_join [OF assms, of "CHR '',''"] split_parts_item by blast
  moreover have "map strip ?ps = ?ps" "filter (\<lambda>p. p \<noteq> []) ?ps = ?ps"
    using split_parts_item [of _ t] by (auto intro: map_idI simp: filter_id_conv)
  moreover have "rev (remdups (rev ?ps)) = ?ps" using distinct_split_parts [of t] by (simp add: distinct_remdups_id)
  ultimately show ?thesis by (simp add: split_parts_def [of "join '','' ?ps"])
qed

lemma rule_value_idem: "rule_value cond oper v = Some t \<Longrightarrow> rule_value cond oper (PStr t) = Some t"
  using split_parts_join strip_join [OF _ conjI] split_parts_item
  by (auto simp: rule_value_def py_str_def Let_def strip_join split: if_splits)

section \<open>Normalised rules\<close>

definition rule_ok :: "freeze_rule \<Rightarrow> bool" where
  "rule_ok r \<longleftrightarrow> fr_condition r \<in> set FREEZE_CONDITION_TYPES \<and> fr_object r \<in> set FREEZE_OBJECTS \<and> fr_period r \<in> set FREEZE_PERIODS
     \<and> (if fr_condition r = ''exception'' then fr_operator r = [] else fr_operator r \<in> set FREEZE_OPERATORS)
     \<and> (if fr_condition r \<in> {''headers'', ''body''} then fr_key r \<noteq> [] \<and> strip (fr_key r) = fr_key r else fr_key r = [])
     \<and> rule_value (fr_condition r) (fr_operator r) (PStr (fr_value r)) = Some (fr_value r)
     \<and> (fr_period r = ''disabled'' \<longrightarrow> fr_object r \<in> set FREEZE_OBJECTS_SUPPORT_DISABLED)
     \<and> (fr_period r = ''permanent'' \<longrightarrow> fr_object r \<in> set FREEZE_OBJECTS_SUPPORT_PERMANENT)
     \<and> (if fr_period r \<in> set FREEZE_PERIODS_WITH_VALUE then 0 < fr_amount r else fr_amount r = 0)"

lemma strip_field [simp]: "strip (field_text d k) = field_text d k"
  by (simp add: field_text_def)

lemma condition_cases: "c \<in> set FREEZE_CONDITION_TYPES \<Longrightarrow>
   c = ''status_code'' \<or> c = ''headers'' \<or> c = ''exception'' \<or> c = ''error_type'' \<or> c = ''error_kind'' \<or> c = ''body''"
  by (auto simp: FREEZE_CONDITION_TYPES_def)

lemma normalize_ruleE:
  assumes "normalize_freeze_rule (PDict d) = Some r"
  defines "cond \<equiv> lower (field_text d ''condition'')" and "obj \<equiv> lower (field_text d ''freeze_object'')" and "per \<equiv> lower (field_text d ''freeze_period'')"
    and "n \<equiv> int_value (dget d ''freeze_value'') 0"
  obtains vt where "cond \<in> set FREEZE_CONDITION_TYPES" "\<not> (cond \<in> {''headers'', ''body''} \<and> field_text d ''key'' = [])"
    "cond = ''exception'' \<or> field_text d ''operator'' \<in> set FREEZE_OPERATORS"
    "rule_value cond (if cond = ''exception'' then '''' else field_text d ''operator'') (dget d ''value'') = Some vt"
    "obj \<in> set FREEZE_OBJECTS" "per \<in> set FREEZE_PERIODS" "\<not> (per = ''disabled'' \<and> obj \<notin> set FREEZE_OBJECTS_SUPPORT_DISABLED)"
    "\<not> (per = ''permanent'' \<and> obj \<notin> set FREEZE_OBJECTS_SUPPORT_PERMANENT)" "\<not> (per \<in> set FREEZE_PERIODS_WITH_VALUE \<and> n \<le> 0)"
    "r = \<lparr>fr_condition = cond, fr_key = (if cond \<in> {''status_code'', ''exception'', ''error_type'', ''error_kind''} then '''' else field_text d ''key''),
       fr_operator = (if cond = ''exception'' then '''' else field_text d ''operator''), fr_value = vt, fr_object = obj, fr_period = per,
       fr_amount = (if per \<in> set FREEZE_PERIODS_WITH_VALUE then n else 0), fr_enabled = (dget_or d ''enabled'' (PBool True) \<noteq> PBool False)\<rparr>"
  using assms(1) unfolding normalize_freeze_rule_def Let_def pyval.case cond_def obj_def per_def n_def
  by (simp split: if_split_asm option.split_asm)

lemma rule_key_ok:
  assumes "c \<in> set FREEZE_CONDITION_TYPES" "\<not> (c \<in> {''headers'', ''body''} \<and> field_text d ''key'' = [])"
  defines "k \<equiv> (if c \<in> {''status_code'', ''exception'', ''error_type'', ''error_kind''} then '''' else field_text d ''key'')"
  shows "if c \<in> {''headers'', ''body''} then k \<noteq> [] \<and> strip k = k else k = []"
  using condition_cases [OF assms(1)] assms(2) unfolding k_def by (elim disjE) simp_all

lemma normalize_rule_ok:
  assumes "normalize_freeze_rule v = Some r"
  shows "rule_ok r"
proof -
  obtain d where v: "v = PDict d" using assms by (cases v) (auto simp: normalize_freeze_rule_def)
  show ?thesis
    using assms unfolding v
  proof (cases rule: normalize_ruleE)
    case (1 vt)
    show ?thesis
      unfolding rule_ok_def 1(10) freeze_rule.simps
    proof (intro conjI)
      show "if lower (field_text d ''condition'') = ''exception''
        then (if lower (field_text d ''condition'') = ''exception'' then '''' else field_text d ''operator'') = []
        else (if lower (field_text d ''condition'') = ''exception'' then '''' else field_text d ''operator'') \<in> set FREEZE_OPERATORS"
        using 1(3) by auto
    qed (use 1 rule_key_ok [OF 1(1,2)] rule_value_idem [OF 1(4)] in \<open>simp_all add: not_le\<close>)
  qed
qed

lemma constants_fixed:
  "c \<in> set FREEZE_CONDITION_TYPES \<Longrightarrow> lower (strip c) = c" "oper \<in> set FREEZE_OPERATORS \<Longrightarrow> strip oper = oper"
  "obj \<in> set FREEZE_OBJECTS \<Longrightarrow> lower (strip obj) = obj" "per \<in> set FREEZE_PERIODS \<Longrightarrow> lower (strip per) = per"
  by (auto simp: FREEZE_CONDITION_TYPES_def FREEZE_OPERATORS_def FREEZE_OBJECTS_def FREEZE_PERIODS_def strip_def rstrip_def lstrip_def
      is_space_def lower_def lower_char_def)

lemma rule_dict_fields:
  "field_text (dict_of (rule_dict r)) ''condition'' = strip (fr_condition r)" "field_text (dict_of (rule_dict r)) ''key'' = strip (fr_key r)"
  "field_text (dict_of (rule_dict r)) ''operator'' = strip (fr_operator r)" "field_text (dict_of (rule_dict r)) ''freeze_object'' = strip (fr_object r)"
  "field_text (dict_of (rule_dict r)) ''freeze_period'' = strip (fr_period r)" "dget (dict_of (rule_dict r)) ''value'' = PStr (fr_value r)"
  "dget (dict_of (rule_dict r)) ''freeze_value'' = PInt (fr_amount r)" "dget_or (dict_of (rule_dict r)) ''enabled'' x = PBool (fr_enabled r)"
  by (simp_all add: field_text_def rule_dict_def dict_of_def dget_def dget_or_def py_or_def py_str_def)

lemma rule_dict_back:
  assumes "rule_ok r"
  shows "normalize_freeze_rule (rule_dict r) = Some r"
proof -
  obtain d where d: "rule_dict r = PDict d" "dict_of (rule_dict r) = d" by (simp add: rule_dict_def dict_of_def)
  note f = rule_dict_fields [of r, unfolded d(2)]
  have s: "strip '''' = ''''" by (simp add: strip_iff)
  have int: "int_value (PInt n) k = n" for n k by (simp add: int_value_def)
  show ?thesis
    using assms condition_cases [of "fr_condition r"] constants_fixed
    unfolding normalize_freeze_rule_def d(1)
    by (auto simp: rule_ok_def f s int Let_def split: if_splits)
qed

lemma map_filter_back: "(\<And>x. x \<in> set xs \<Longrightarrow> f (g x) = Some x) \<Longrightarrow> List.map_filter f (map g xs) = xs"
  by (induction xs) (auto simp: List.map_filter_simps)

lemma rules_ok: "r \<in> set (fp_rules (normalize_freeze_policy v)) \<Longrightarrow> rule_ok r"
  by (auto simp: normalize_freeze_policy_def Let_def List.map_filter_def normalize_rule_ok split: pyval.splits)

lemma policy_kept:
  "normalize_freeze_policy (policy_dict (normalize_freeze_policy v)) = normalize_freeze_policy v"
proof -
  let ?p = "normalize_freeze_policy v"
  have "List.map_filter normalize_freeze_rule (map rule_dict (fp_rules ?p)) = fp_rules ?p"
    by (rule map_filter_back) (rule rule_dict_back [OF rules_ok])
  then show ?thesis
    unfolding normalize_freeze_policy_def [of "policy_dict ?p"] by (simp add: policy_dict_def dict_of_def dget_def dget_or_def)
qed

lemma strip_nonempty: "strip p \<noteq> [] \<longleftrightarrow> (\<exists>x \<in> set p. \<not> is_space x)"
proof -
  have "strip p = [] \<longleftrightarrow> (\<forall>x \<in> set (dropWhile is_space p). is_space x)" by (simp add: strip_def rstrip_def lstrip_def dropWhile_eq_Nil_conv)
  also have "\<dots> \<longleftrightarrow> (\<forall>x \<in> set p. is_space x)" by (induction p) auto
  finally show ?thesis by blast
qed

lemma strip_keeps: "\<not> is_space x \<Longrightarrow> x \<in> set (strip s) \<longleftrightarrow> x \<in> set s"
proof -
  assume ns: "\<not> is_space x"
  have d: "x \<in> set (dropWhile is_space t) \<longleftrightarrow> x \<in> set t" for t using ns by (induction t) auto
  show ?thesis using d by (simp add: strip_def rstrip_def lstrip_def)
qed

lemma set_split_on: "(\<Union>w \<in> set (split_on c s). set w) = set s - {c}"
proof (induction s)
  case (Cons x xs)
  then show ?case by (cases "split_on c xs") auto
qed simp

lemma split_strip_nonempty:
  assumes "\<exists>p \<in> set (split_on c s). strip p \<noteq> []"
  shows "\<exists>p \<in> set (split_on c (strip s)). strip p \<noteq> []"
proof -
  have iff: "(\<exists>p \<in> set (split_on c t). strip p \<noteq> []) \<longleftrightarrow> (\<exists>x \<in> set t - {c}. \<not> is_space x)" for t
    unfolding strip_nonempty set_split_on [symmetric] by blast
  show ?thesis using assms strip_keeps unfolding iff by blast
qed

lemma valid_rule_kept:
  assumes "valid_rule v"
  shows "normalize_freeze_rule v \<noteq> None"
proof -
  obtain d where v: "v = PDict d" using assms by (cases v) (auto simp: valid_rule_def)
  let ?c = "lower (field_text d ''condition'')" let ?oper = "field_text d ''operator''"
  note a = assms [unfolded v valid_rule_def pyval.case Let_def]
  have parts: "split_parts (strip (py_str x)) \<noteq> []" if "filter (\<lambda>p. strip p \<noteq> []) (split_on (CHR '','') (py_str (py_or x (PStr '''')))) \<noteq> []" for x
  proof -
    have "truthy x" using that by (cases "truthy x") (auto simp: py_or_def py_str_def strip_iff)
    with that have ne: "filter (\<lambda>p. strip p \<noteq> []) (split_on (CHR '','') (py_str x)) \<noteq> []" by (simp add: py_or_def)
    then have "\<exists>p \<in> set (split_on (CHR '','') (py_str x)). strip p \<noteq> []" by (simp add: filter_empty_conv)
    then have "\<exists>p \<in> set (split_on (CHR '','') (strip (py_str x))). strip p \<noteq> []" by (rule split_strip_nonempty)
    then show ?thesis by (auto simp: split_parts_def filter_empty_conv)
  qed
  have rv: "rule_value ?c (if ?c = ''exception'' then '''' else ?oper) (dget d ''value'') \<noteq> None"
  proof (cases "?c = ''exception''")
    case False
    then have "?oper \<noteq> ''exists'' \<Longrightarrow> dget d ''value'' \<noteq> PNone \<and> strip (py_str (dget d ''value'')) \<noteq> []"
      and "?oper = ''in'' \<Longrightarrow> split_parts (strip (py_str (dget d ''value''))) \<noteq> []" using a parts [of "dget d ''value''"] by blast+
    with False show ?thesis by (simp add: rule_value_def Let_def)
  qed (simp add: rule_value_def)
  let ?obj = "lower (field_text d ''freeze_object'')" let ?per = "lower (field_text d ''freeze_period'')"
  have g: "(?c \<notin> set FREEZE_CONDITION_TYPES) = False" "(?c \<in> {''headers'', ''body''} \<and> field_text d ''key'' = []) = False"
    "(?c \<noteq> ''exception'' \<and> (if ?c = ''exception'' then '''' else ?oper) \<notin> set FREEZE_OPERATORS) = False"
    "(?obj \<notin> set FREEZE_OBJECTS \<or> ?per \<notin> set FREEZE_PERIODS \<or> (?per = ''disabled'' \<and> ?obj \<notin> set FREEZE_OBJECTS_SUPPORT_DISABLED)
       \<or> (?per = ''permanent'' \<and> ?obj \<notin> set FREEZE_OBJECTS_SUPPORT_PERMANENT)
       \<or> (?per \<in> set FREEZE_PERIODS_WITH_VALUE \<and> int_value (dget d ''freeze_value'') 0 \<le> 0)) = False"
  proof -
    have ex: "?c = ''exception'' \<Longrightarrow> ?c \<notin> {''headers'', ''body''}" by simp
    show "(?c \<in> {''headers'', ''body''} \<and> field_text d ''key'' = []) = False" using a ex by blast
    show "(?c \<noteq> ''exception'' \<and> (if ?c = ''exception'' then '''' else ?oper) \<notin> set FREEZE_OPERATORS) = False"
      using a by (cases "?c = ''exception''") simp_all
  qed (use a in blast)+
  show ?thesis using rv unfolding v normalize_freeze_rule_def pyval.case Let_def g if_False by (auto split: option.splits)
qed

lemma map_filter_total: "(\<And>x. x \<in> set xs \<Longrightarrow> f x \<noteq> None) \<Longrightarrow> List.map_filter f xs = map (\<lambda>x. the (f x)) xs"
  by (auto simp: List.map_filter_def)

section \<open>Properties\<close>

text \<open>
  C32. Normalising a freeze policy is idempotent: what was normalised when it was stored or cached is
  understood the same way when a failed response is matched against it.
\<close>

theorem normalize_idempotent:
  "normalize_freeze_policy (policy_dict (normalize_freeze_policy v)) = normalize_freeze_policy v"
  by (rule policy_kept)

text \<open>
  Validation and normalisation agree: a policy with a rule list that the admin interface accepts is
  stored with every one of its rules, in order; none is silently dropped by the normaliser.
\<close>

theorem validated_rules_kept:
  assumes "validate_freeze_policy (PDict d) = Inr q" "dget d ''rules'' = PList rs"
  shows "map normalize_freeze_rule rs = map Some (fp_rules (normalize_freeze_policy q))"
proof -
  have v: "\<forall>r \<in> set rs. valid_rule r" and q: "q = policy_dict (normalize_freeze_policy (PDict d))"
    using assms by (auto simp: validate_freeze_policy_def split: if_split_asm)
  have "fp_rules (normalize_freeze_policy q) = map (\<lambda>r. the (normalize_freeze_rule r)) rs"
    unfolding q policy_kept
    using map_filter_total [of rs normalize_freeze_rule] v valid_rule_kept assms(2)
    by (simp add: normalize_freeze_policy_def dict_of_def)
  then show ?thesis using v valid_rule_kept by auto
qed

theorem validated_rules_kept_witness:
  "map normalize_freeze_rule [default_rule ''status_code'' ''in'' ''500, 502'' ''minutes'' 5]
   = map Some (fp_rules (normalize_freeze_policy (policy_dict (normalize_freeze_policy
       (PDict [(''rules'', PList [default_rule ''status_code'' ''in'' ''500, 502'' ''minutes'' 5])])))))"
  by (rule validated_rules_kept [where d = "[(''rules'', PList [default_rule ''status_code'' ''in'' ''500, 502'' ''minutes'' 5])]"]) code_simp+

lemma natural_seconds_positive:
  "1 \<le> seconds_until_today_end cal now" "1 \<le> seconds_until_week_end cal now" "1 \<le> seconds_until_month_end cal now"
  by (simp_all add: seconds_until_today_end_def seconds_until_week_end_def seconds_until_month_end_def)

lemma period_positive:
  assumes "per \<in> set FREEZE_PERIODS" "per \<notin> {''none'', ''disabled'', ''permanent''}"
  shows "0 < period_to_seconds cal now per n"
proof -
  have "per \<in> {''seconds'', ''minutes'', ''hours'', ''days'', ''today'', ''week'', ''month''}"
    using assms unfolding FREEZE_PERIODS_def by simp
  moreover have "0 < max 1 x" "1 \<le> y \<Longrightarrow> 0 < y + NATURAL_BOUNDARY_FREEZE_BUFFER_SECONDS" for x y :: int
    by (simp_all add: NATURAL_BOUNDARY_FREEZE_BUFFER_SECONDS_def)
  ultimately show ?thesis
    unfolding period_to_seconds_def Let_def constants_fixed(4) [OF assms(1)]
    using natural_seconds_positive by auto
qed

definition action_ok :: "freeze_action \<Rightarrow> bool" where
  "action_ok a \<longleftrightarrow> fa_scope a \<in> set FREEZE_OBJECTS \<and>
     (if fa_mode a = ''no_freeze'' then \<not> fa_permanent a \<and> \<not> fa_disable a \<and> fa_seconds a = 0
      else if fa_permanent a then fa_scope a = ''account'' \<and> \<not> fa_disable a \<and> fa_seconds a = 0
      else if fa_disable a then fa_scope a \<in> {''account'', ''channel''} \<and> fa_seconds a = 0
      else 0 < fa_seconds a)"

lemma rule_action_ok:
  assumes "rule_ok r"
  shows "action_ok (freeze_rule_to_action cal now (fr_object r) (fr_period r) (fr_amount r))"
proof -
  have o: "fr_object r \<in> set FREEZE_OBJECTS" "fr_period r \<in> set FREEZE_PERIODS" using assms by (simp_all add: rule_ok_def)
  have per: "lower (strip (fr_period r)) = fr_period r" and obj: "lower (strip (fr_object r)) = fr_object r"
    using constants_fixed o by blast+
  have d: "fr_period r = ''disabled'' \<Longrightarrow> fr_object r \<in> {''account'', ''channel''}"
    using assms by (simp add: rule_ok_def FREEZE_OBJECTS_SUPPORT_DISABLED_def)
  have acc: "''account'' \<in> set FREEZE_OBJECTS" by (simp add: FREEZE_OBJECTS_def)
  have mode: "x @ ''_'' @ y \<noteq> ''no_freeze''" "x @ ''_disabled'' \<noteq> ''no_freeze''" if "x \<in> set FREEZE_OBJECTS" for x y
    using that by (auto simp: FREEZE_OBJECTS_def)
  consider "fr_period r = ''none''" | "fr_period r = ''disabled''" | "fr_period r = ''permanent''"
    | "fr_period r \<notin> {''none'', ''disabled'', ''permanent''}" by blast
  then have "action_ok (let obj = fr_object r; per = fr_period r; scope = (if obj \<in> set FREEZE_OBJECTS then obj else ''account'')
      in if per = ''none'' then \<lparr>fa_scope = scope, fa_seconds = 0, fa_permanent = False, fa_disable = False, fa_mode = ''no_freeze''\<rparr>
         else if per = ''disabled'' then \<lparr>fa_scope = scope, fa_seconds = 0, fa_permanent = False, fa_disable = True, fa_mode = obj @ ''_disabled''\<rparr>
         else if per = ''permanent'' then \<lparr>fa_scope = ''account'', fa_seconds = 0, fa_permanent = True, fa_disable = False, fa_mode = ''account_permanent''\<rparr>
         else \<lparr>fa_scope = scope, fa_seconds = period_to_seconds cal now per (fr_amount r), fa_permanent = False, fa_disable = False, fa_mode = obj @ ''_'' @ per\<rparr>)"
  proof cases
    case 4
    then show ?thesis using period_positive [OF o(2)] mode [OF o(1)] o by (simp add: action_ok_def Let_def)
  qed (use o d acc mode [OF o(1)] in \<open>simp_all add: action_ok_def Let_def\<close>)
  then show ?thesis unfolding freeze_rule_to_action_def per obj .
qed

lemma match_freeze_rulesD:
  assumes "match_freeze_rules cal now policy rsp = Some m"
  shows "fm_rule m \<in> set (fp_rules (normalize_freeze_policy policy))" "rule_hits rsp (fm_rule m)"
    "fm_action m = freeze_rule_to_action cal now (fr_object (fm_rule m)) (fr_period (fm_rule m)) (fr_amount (fm_rule m))"
  using assms by (auto simp: match_freeze_rules_def Let_def find_Some_iff split: if_split_asm)

text \<open>
  C33. Whatever a stored policy contains, the action of a match is well-formed: its scope is one of the
  four freeze objects, a permanent freeze is for an account only, only accounts and channels are
  disabled, and every other action except an explicit \<open>no_freeze\<close> lasts at least a second.
\<close>

theorem match_action_ok:
  assumes "match_freeze_rules cal now policy rsp = Some m"
  shows "action_ok (fm_action m)"
  using rule_action_ok [OF rules_ok [OF match_freeze_rulesD(1) [OF assms]]] match_freeze_rulesD(3) [OF assms] by simp

definition limited_response :: response where
  "limited_response = \<lparr>rsp_status = Some 429, rsp_headers = None, rsp_exception = False, rsp_error_code = None, rsp_error_kind = None, rsp_body = PNone\<rparr>"

theorem match_action_ok_witness:
  "action_ok (fm_action (the (match_freeze_rules \<lparr>day_label = (\<lambda>t. ''2025-01-01''), to_midnight = (\<lambda>t. 3600), weekday = (\<lambda>t. 0),
     to_next_month = (\<lambda>t. 90000)\<rparr> 0 default_freeze_policy limited_response)))"
  by (rule match_action_ok [of "\<lparr>day_label = (\<lambda>t. ''2025-01-01''), to_midnight = (\<lambda>t. 3600), weekday = (\<lambda>t. 0), to_next_month = (\<lambda>t. 90000)\<rparr>"
       0 default_freeze_policy limited_response]) code_simp

lemma resolve_no_body: "resolve_body_field PNone key = PNone"
proof -
  have f: "fold (\<lambda>p cur. if strip p = [] then PNone else case cur of PDict d \<Rightarrow> dget d (strip p) | _ \<Rightarrow> PNone) ps PNone = PNone" for ps
    by (induction ps) auto
  show ?thesis unfolding resolve_body_field_def walk_def Let_def pyval.case f by simp
qed

lemma body_rule_misses:
  assumes "rsp_body rsp = PNone" "fr_condition r = ''body''"
  shows "\<not> rule_hits rsp r"
proof -
  have "compare_op PNone oper x = (if strip oper = ''exists'' then False else False)" for oper x by (simp add: compare_op_def Let_def)
  then show ?thesis using assms by (simp add: rule_hits_def rule_actual_def resolve_no_body Let_def)
qed

end
