(* ===== verification/Lub_Reason.thy ===== *)
theory Lub_Reason
  imports Lub_Json
begin

text \<open>
  The texts of \<open>server/rate_limiter.py\<close> that go with a freeze or a refused request:
  \<open>summarize_freeze_reason\<close> cuts an upstream error body down to one short line, and
  \<open>_dominant_reason_code\<close> turns the reasons collected while selecting an account into a business code.

  Texts are UTF-8 byte strings; Python counts code points, which \<open>code_points\<close> recovers. White space is
  ASCII white space.
\<close>

section \<open>Code points and words\<close>

definition is_continuation :: "char \<Rightarrow> bool" where
  "is_continuation c \<longleftrightarrow> (let n = of_char c :: nat in 128 \<le> n \<and> n < 192)"

function code_points :: "string \<Rightarrow> string list" where
  "code_points [] = []"
| "code_points (c # s) = (c # takeWhile is_continuation s) # code_points (dropWhile is_continuation s)"
  by pat_completeness auto
termination
  by (relation "measure length") (auto simp: less_Suc_eq_le length_dropWhile_le)

fun split_ws :: "string \<Rightarrow> string list" where
  "split_ws [] = [[]]"
| "split_ws (c # s) = (if is_space c then [] # split_ws s else (case split_ws s of [] \<Rightarrow> [[c]] | w # ws \<Rightarrow> (c # w) # ws))"

definition py_split :: "string \<Rightarrow> string list" where
  \<comment> \<open>\<open>text.split()\<close>\<close>
  "py_split s = filter (\<lambda>w. w \<noteq> []) (split_ws s)"

section \<open>summarize_freeze_reason\<close>

definition FREEZE_REASON_MAX_LENGTH :: nat where
  "FREEZE_REASON_MAX_LENGTH = 200"

definition REASON_MESSAGE_KEYS :: "string list" where
  "REASON_MESSAGE_KEYS = [''message'', ''msg'', ''detail'', ''error'']"

definition first_text :: "string list \<Rightarrow> string" where
  "first_text ts = (case find (\<lambda>t. t \<noteq> []) ts of Some t \<Rightarrow> t | None \<Rightarrow> '''')"

definition text_or_empty :: "pyval \<Rightarrow> string" where
  "text_or_empty v = (case v of PStr t \<Rightarrow> strip t | _ \<Rightarrow> '''')"

definition display_text :: "pydict \<Rightarrow> string" where
  \<comment> \<open>the multi-language texts under \<open>displayMsg\<close> and \<open>display_message\<close>\<close>
  "display_text d = first_text (concat (map (\<lambda>k. case dget d k of
      PDict m \<Rightarrow> map (\<lambda>lang. text_or_empty (dget m lang)) [''en'', ''zh'', ''zh-hant''] | _ \<Rightarrow> [])
    [''displayMsg'', ''display_message'']))"

lemma size_map_of: "map_of d k = Some v \<Longrightarrow> size v < size (PDict d)"
proof -
  assume "map_of d k = Some v"
  then have "(k, v) \<in> set d" by (rule map_of_SomeD)
  then have "size_prod (\<lambda>x. 0) size (k, v) \<le> size_list (size_prod (\<lambda>x. 0) size) d" by (rule size_list_estimation') simp
  then show ?thesis by simp
qed

function pick_reason_message :: "pyval \<Rightarrow> string" where
  "pick_reason_message v = (case v of
      PDict d \<Rightarrow> first_text (map (\<lambda>k. case map_of d k of
                    Some (PStr t) \<Rightarrow> strip t
                  | Some (PDict e) \<Rightarrow> pick_reason_message (PDict e)
                  | Some (PList l) \<Rightarrow> pick_reason_message (PList l)
                  | _ \<Rightarrow> '''') REASON_MESSAGE_KEYS @ [display_text d])
    | PList l \<Rightarrow> first_text (map pick_reason_message l)
    | _ \<Rightarrow> '''')"
  by pat_completeness auto
termination
  by (relation "measure size") (auto dest: size_map_of simp: less_Suc_eq_le size_list_estimation')

declare pick_reason_message.simps [simp del]

definition ellipsis :: string where
  \<comment> \<open>U+2026\<close>
  "ellipsis = [CHR 0xE2, CHR 0x80, CHR 0xA6]"

definition extract_message :: "string \<Rightarrow> string" where
  \<comment> \<open>the message inside a JSON error body, or the text itself\<close>
  "extract_message t =
     (if t \<noteq> [] \<and> hd t \<in> {CHR ''{'', CHR ''[''}
      then (case json_loads t of
              Some v \<Rightarrow> if v \<noteq> PNone \<and> pick_reason_message v \<noteq> [] then pick_reason_message v else t
            | None \<Rightarrow> t)
      else t)"

definition cut_text :: "string \<Rightarrow> string" where
  "cut_text t = (if FREEZE_REASON_MAX_LENGTH < length (code_points t)
     then rstrip (concat (take FREEZE_REASON_MAX_LENGTH (code_points t))) @ ellipsis else t)"

definition summarize_freeze_reason :: "pyval \<Rightarrow> string" where
  "summarize_freeze_reason reason =
     (if reason = PNone then ''''
      else (let raw = (case reason of PDict _ \<Rightarrow> json_dumps reason | PList _ \<Rightarrow> json_dumps reason | _ \<Rightarrow> py_str reason);
                t = strip raw
            in if t = [] then '''' else cut_text (join '' '' (py_split (extract_message t)))))"

section \<open>Business codes\<close>

definition REASON_TO_BUSINESS_CODE :: "(string \<times> string) list" where
  "REASON_TO_BUSINESS_CODE =
    [(''account_frozen'', ''no_available_account''), (''account_cooldown'', ''no_available_account''),
     (''account_model_cooldown'', ''no_available_account''), (''account_model_frozen'', ''no_available_account''),
     (''account_disabled'', ''no_available_account''), (''model_frozen'', ''no_available_account''),
     (''concurrent_limit'', ''concurrent_limit_exceeded''), (''model_tpm_limited'', ''rate_limit_exceeded''),
     (''provider_quota_exhausted'', ''quota_exhausted''), (''provider_daily_quota_exhausted'', ''quota_exhausted''),
     (''provider_quota_cooldown'', ''quota_exhausted''), (''provider_message_quota_exceeded'', ''quota_exhausted''),
     (''redis_uncertain'', ''service_busy''), (''provider_not_initialized'', ''service_busy''),
     (''selection_deadline'', ''no_available_account''), (''selection_exhausted'', ''no_available_account''),
     (''selection_returned_none'', ''no_available_account''), (''context_window_exceeded'', ''context_too_large'')]"

fun max_item :: "string \<times> int \<Rightarrow> (string \<times> int) list \<Rightarrow> string \<times> int" where
  \<comment> \<open>\<open>max(items, key=...)\<close>: the first item with the largest count\<close>
  "max_item best [] = best"
| "max_item best (x # xs) = max_item (if snd best < snd x then x else best) xs"

definition dominant_reason_code :: "(string \<times> int) list \<Rightarrow> string \<times> (string \<times> int) list" where
  "dominant_reason_code reasons =
     (case filter (\<lambda>kv. snd kv \<noteq> 0) reasons of
        [] \<Rightarrow> (''no_available_account'', reasons)
      | x # xs \<Rightarrow> (case map_of REASON_TO_BUSINESS_CODE (fst (max_item x xs)) of
                     Some c \<Rightarrow> c | None \<Rightarrow> ''no_available_account'', reasons))"

section \<open>Properties\<close>

definition heads :: "string \<Rightarrow> nat" where
  \<comment> \<open>bytes that start a code point\<close>
  "heads s = length (filter (\<lambda>c. \<not> is_continuation c) s)"

lemma heads_append [simp]: "heads (s @ t) = heads s + heads t"
  by (simp add: heads_def)

lemma heads_skip: "heads (dropWhile is_continuation s) = heads s"
  by (induction s) (auto simp: heads_def)

lemma length_code_points: "length (code_points s) = (if s = [] then 0 else 1 + heads (tl s))"
proof (induction s rule: code_points.induct)
  case (2 c s)
  let ?d = "dropWhile is_continuation s"
  have "?d \<noteq> [] \<Longrightarrow> heads ?d = 1 + heads (tl ?d)"
    using hd_dropWhile [of is_continuation s] by (cases ?d) (auto simp: heads_def)
  moreover have "?d = [] \<Longrightarrow> heads s = 0" using heads_skip [of s] by (simp add: heads_def)
  ultimately show ?case using 2 heads_skip [of s] by simp
qed simp

lemma code_point_heads: "p \<in> set (code_points s) \<Longrightarrow> heads p \<le> 1 \<and> heads (tl p) = 0"
proof (induction s rule: code_points.induct)
  case (2 c s)
  have "heads (takeWhile is_continuation s) = 0" by (auto simp: heads_def filter_empty_conv dest: set_takeWhileD)
  with 2 show ?case by (auto simp: heads_def)
qed simp

lemma heads_concat: "(\<And>p. p \<in> set ps \<Longrightarrow> heads p \<le> 1) \<Longrightarrow> heads (concat ps) \<le> length ps"
  by (induction ps) (auto simp: heads_def, force)

lemma length_cut_prefix:
  assumes "prefix t (concat (take n (code_points s)))"
  shows "length (code_points t) \<le> n"
proof (cases "t = [] \<or> n = 0")
  case False
  let ?ps = "take n (code_points s)"
  have h: "p \<in> set ?ps \<Longrightarrow> heads p \<le> 1 \<and> heads (tl p) = 0" for p using code_point_heads [of p s] by (meson in_set_takeD)
  obtain p qs where ps: "?ps = p # qs" using assms False by (cases ?ps) auto
  have "s \<noteq> []" using ps by (cases s) auto
  then have "p \<noteq> []" using ps by (cases s; cases n) auto
  then have "heads (tl (concat ?ps)) \<le> length qs"
    using h [of p] heads_concat [of qs] h unfolding ps by (auto simp: tl_append2)
  moreover have "heads (tl t) \<le> heads (tl (concat ?ps))" using assms False by (cases t) (auto simp: prefix_def)
  moreover have "length qs < n" using arg_cong [OF ps, of length] by simp
  ultimately show ?thesis using False by (simp add: length_code_points)
qed (use assms in auto)

lemma prefix_rstrip: "prefix (rstrip s) s"
proof -
  have "s = rev (dropWhile is_space (rev s)) @ rev (takeWhile is_space (rev s))"
    by (metis rev_append rev_rev_ident takeWhile_dropWhile_id)
  then show ?thesis unfolding rstrip_def prefix_def by metis
qed

lemma length_cut_text: "length (code_points (cut_text t)) \<le> FREEZE_REASON_MAX_LENGTH + 1"
proof (cases "FREEZE_REASON_MAX_LENGTH < length (code_points t)")
  case True
  let ?r = "rstrip (concat (take FREEZE_REASON_MAX_LENGTH (code_points t)))"
  have "length (code_points ?r) \<le> FREEZE_REASON_MAX_LENGTH" by (rule length_cut_prefix [OF prefix_rstrip])
  moreover have "heads ellipsis = 1" "heads (tl ellipsis) = 0" "ellipsis \<noteq> []" by (simp_all add: heads_def ellipsis_def is_continuation_def)
  ultimately have "length (code_points (?r @ ellipsis)) \<le> FREEZE_REASON_MAX_LENGTH + 1"
    by (cases "?r = []") (auto simp: length_code_points tl_append2 split: if_split_asm)
  with True show ?thesis by (simp add: cut_text_def)
qed (simp add: cut_text_def)

lemma split_ws_nonempty: "split_ws s \<noteq> []"
  by (cases s) (auto split: list.splits)

lemma split_ws_words: "w \<in> set (split_ws s) \<Longrightarrow> c \<in> set w \<Longrightarrow> \<not> is_space c"
proof (induction s arbitrary: w)
  case (Cons x s)
  obtain v vs where s: "split_ws s = v # vs" by (cases "split_ws s") (use split_ws_nonempty in auto)
  with Cons.prems consider "w \<in> set (split_ws s)" | "w = []" | "w = x # v" "\<not> is_space x" by (auto split: if_splits)
  then show ?case using Cons s by cases auto
qed simp

lemma set_join: "set (join sep ws) \<subseteq> (\<Union>w \<in> set ws. set w) \<union> set sep"
  by (induction ws rule: induct_list012) auto

lemma set_cut_text: "set (cut_text t) \<subseteq> set t \<union> set ellipsis"
proof -
  have c: "concat (code_points s) = s" for s by (induction s rule: code_points.induct) simp_all
  have "set (concat (take n (code_points t))) \<subseteq> set (concat (code_points t))" for n
    using set_take_subset [of n "code_points t"] by auto
  then have "set (rstrip (concat (take n (code_points t)))) \<subseteq> set t" for n
    using set_mono_prefix [OF prefix_rstrip] unfolding c by blast
  then show ?thesis by (auto simp: cut_text_def)
qed

text \<open>
  However long or structured an upstream error is, the reason kept with a freeze is one line of at
  most 200 code points and the ellipsis, and its only white space is the blank.
\<close>

theorem reason_one_short_line:
  "length (code_points (summarize_freeze_reason r)) \<le> 201 \<and> {c \<in> set (summarize_freeze_reason r). is_space c} \<subseteq> {CHR '' ''}"
proof -
  have sp: "is_space x \<Longrightarrow> x \<in> set ellipsis \<Longrightarrow> False" for x by (auto simp: is_space_def ellipsis_def)
  have w: "x = CHR '' ''" if x: "x \<in> set (cut_text (join '' '' (py_split t)))" "is_space x" for x t
  proof -
    have "x \<in> set (join '' '' (py_split t))" using set_cut_text sp x by blast
    then have "(\<exists>v \<in> set (split_ws t). x \<in> set v) \<or> x = CHR '' ''"
      using set_join [of "'' ''" "py_split t"] by (auto simp: py_split_def)
    then show ?thesis using split_ws_words x(2) by blast
  qed
  show ?thesis
    using length_cut_text w by (auto simp: summarize_freeze_reason_def FREEZE_REASON_MAX_LENGTH_def Let_def)
qed

lemma max_item_bounds: "(\<forall>x \<in> set (b # xs). snd x \<le> snd (max_item b xs)) \<and> max_item b xs \<in> set (b # xs)"
proof (induction xs arbitrary: b)
  case (Cons x xs)
  show ?case using Cons [of "if snd b < snd x then x else b"] by (auto split: if_splits)
qed simp

end
