(* ===== verification/Lub_Pool.thy ===== *)
theory Lub_Pool
  imports Lub_FreezePolicy Lub_Reason Lub_LimitManager
begin

text \<open>
  \<open>ProviderPool\<close> of \<open>server/rate_limiter.py\<close>: the accounts of one channel, who is served next, and
  what a failed or a successful request does to the freeze state. Background work started with
  \<open>asyncio.create_task\<close> is appended to \<open>po_tasks\<close>; running a task is a step of its own, so that the
  order in which tasks and events take effect is explicit. The methods are called from a running
  event loop. Notification titles and log lines are not modelled.
\<close>

section \<open>Errors of a channel\<close>

text \<open>
  The \<open>ChannelError\<close> family of \<open>providers/base.py\<close>. The \<open>freeze\<close> argument is a sum: \<open>None\<close>,
  \<open>False\<close>, or a dictionary with the duration and an optional model.
\<close>

datatype freeze_hint = Unspecified | KeepState | Explicit "int option" "string option"

record channel_error =
  ce_kind :: string
  ce_detail :: string
  ce_status :: int
  ce_freeze :: freeze_hint

definition error_of :: "string \<Rightarrow> int \<Rightarrow> freeze_hint \<Rightarrow> string \<Rightarrow> int option \<Rightarrow> channel_error" where
  "error_of kind dflt hint detail status =
     \<lparr>ce_kind = kind, ce_detail = detail, ce_status = (case status of Some c \<Rightarrow> c | None \<Rightarrow> dflt), ce_freeze = hint\<rparr>"

definition CredentialInvalid :: "string \<Rightarrow> int option \<Rightarrow> channel_error" where
  "CredentialInvalid = error_of ''credential_invalid'' 400 (Explicit None None)"

definition QuotaExhausted :: "string \<Rightarrow> int option \<Rightarrow> channel_error" where
  "QuotaExhausted = error_of ''quota_exhausted'' 403 (Explicit None None)"

definition TemporaryFreeze :: "int option \<Rightarrow> string \<Rightarrow> int option \<Rightarrow> channel_error" where
  "TemporaryFreeze seconds = error_of ''temporary_freeze'' 429 (case seconds of None \<Rightarrow> Unspecified | Some n \<Rightarrow> Explicit (Some n) None)"

definition UpstreamTransient :: "string \<Rightarrow> int option \<Rightarrow> channel_error" where
  "UpstreamTransient = error_of ''upstream_transient'' 502 KeepState"

definition RateLimited :: "string \<Rightarrow> int option \<Rightarrow> channel_error" where
  "RateLimited = error_of ''rate_limited'' 429 KeepState"

definition InvalidRequest :: "string \<Rightarrow> int option \<Rightarrow> channel_error" where
  "InvalidRequest = error_of ''invalid_request'' 400 KeepState"

section \<open>State\<close>

record cooldown_event =
  ev_provider :: string
  ev_username :: string
  ev_model :: "string option"
  ev_until :: "time option"
  ev_reason :: string
  ev_category :: string
  ev_cleared :: bool

record notification =
  nt_event_type :: string
  nt_severity :: string
  nt_account :: "string option"
  nt_model :: "string option"
  nt_scope :: string
  nt_reason :: string
  nt_seconds :: int
  nt_permanent :: bool
  nt_disabled :: bool
  nt_dedupe_key :: string
  nt_dedupe_window :: int

datatype pool_task =
    SetAccountCooldown string "int option" string string
  | FreezeModelAsync string string "int option" string cooldown_event
  | ClearAccountCooldown string
  | ClearModelCooldown string string
  | ClearProviderCooldowns
  | PublishCooldown cooldown_event
  | PersistChannelDisabled
  | PersistAccountDisabled string
  | EmitNotification notification

record pool =
  po_name :: string
  po_clients :: "account_client list"
  po_index :: int
  po_channel :: channel_view
  po_cache :: policy_cache
  po_tasks :: "pool_task list"

abbreviation client_name :: "account_client \<Rightarrow> string" where
  "client_name c \<equiv> pv_username (ac_provider c)"

definition schedule :: "pool_task list \<Rightarrow> pool \<Rightarrow> pool" where
  "schedule ts p = p\<lparr>po_tasks := po_tasks p @ ts\<rparr>"

fun client_index :: "string \<Rightarrow> account_client list \<Rightarrow> nat option" where
  \<comment> \<open>the first client of that name\<close>
  "client_index u [] = None"
| "client_index u (c # cs) = (if client_name c = u then Some 0 else map_option Suc (client_index u cs))"

definition enabled :: "pool \<Rightarrow> bool" where
  "enabled p = ch_enabled (po_channel p)"

definition set_client :: "nat \<Rightarrow> account_client \<Rightarrow> pool \<Rightarrow> pool" where
  "set_client i c p = p\<lparr>po_clients := (po_clients p)[i := c]\<rparr>"

section \<open>Policy\<close>

definition pool_freeze_policy :: "pool \<Rightarrow> pyval" where
  "pool_freeze_policy p = dget (get_effective_provider_policy_sync (po_name p) (po_cache p)) ''freeze_policy''"

definition freeze_refresh_on_failure :: "pool \<Rightarrow> bool" where
  \<comment> \<open>an exception counts as \<open>True\<close>\<close>
  "freeze_refresh_on_failure p = (case py_or (pool_freeze_policy p) (PDict []) of
      PDict d \<Rightarrow> truthy (dget_or d ''refresh_freeze_on_failure'' (PBool True)) | _ \<Rightarrow> True)"

definition channel_match_freeze ::
  "calendar \<Rightarrow> time \<Rightarrow> int option \<Rightarrow> pydict option \<Rightarrow> bool \<Rightarrow> string option \<Rightarrow> pool \<Rightarrow> freeze_match option" where
  \<comment> \<open>\<open>Channel.match_freeze\<close>; it passes neither the error kind nor the body\<close>
  "channel_match_freeze cal now status headers exc error_code p = match_freeze_rules cal now (pool_freeze_policy p)
     \<lparr>rsp_status = status, rsp_headers = headers, rsp_exception = exc, rsp_error_code = error_code, rsp_error_kind = None, rsp_body = PNone\<rparr>"

definition match_error_kind :: "calendar \<Rightarrow> time \<Rightarrow> string \<Rightarrow> pool \<Rightarrow> freeze_match option" where
  "match_error_kind cal now kind p = match_freeze_rules cal now (pool_freeze_policy p)
     \<lparr>rsp_status = None, rsp_headers = None, rsp_exception = False, rsp_error_code = None, rsp_error_kind = Some kind, rsp_body = PNone\<rparr>"

section \<open>Freezing\<close>

definition broadcast_cooldown :: "time \<Rightarrow> string \<Rightarrow> string option \<Rightarrow> int option \<Rightarrow> string \<Rightarrow> string \<Rightarrow> pool \<Rightarrow> cooldown_event" where
  "broadcast_cooldown now u mid seconds reason category p =
     \<lparr>ev_provider = po_name p, ev_username = u, ev_model = mid, ev_until = map_option (\<lambda>n. now + of_int n) seconds,
      ev_reason = reason, ev_category = category, ev_cleared = False\<rparr>"

definition freeze_account ::
  "time \<Rightarrow> nat \<Rightarrow> int option \<Rightarrow> string \<Rightarrow> bool option \<Rightarrow> string \<Rightarrow> pool \<Rightarrow> pool \<times> bool" where
  "freeze_account now i seconds reason refresh category p =
     (let c = po_clients p ! i;
          should_refresh = (case refresh of None \<Rightarrow> freeze_refresh_on_failure p | Some b \<Rightarrow> b);
          (c1, changed) = freeze now ''account'' None seconds reason should_refresh category c
      in if \<not> changed then (p, False)
         else (schedule [SetAccountCooldown (client_name c) seconds reason category,
                         PublishCooldown (broadcast_cooldown now (client_name c) None seconds reason category p)] (set_client i c1 p), True))"

definition freeze_account_model ::
  "time \<Rightarrow> string \<Rightarrow> string \<Rightarrow> int option \<Rightarrow> string \<Rightarrow> bool option \<Rightarrow> string \<Rightarrow> pool \<Rightarrow> pool \<times> bool" where
  "freeze_account_model now u mid seconds reason refresh category p =
     (let should_refresh = (case refresh of None \<Rightarrow> freeze_refresh_on_failure p | Some b \<Rightarrow> b);
          task = FreezeModelAsync u mid seconds reason (broadcast_cooldown now u (Some mid) seconds reason category p)
      in case client_index u (po_clients p) of
           None \<Rightarrow> (schedule [task] p, True)
         | Some i \<Rightarrow>
             (case freeze now ''account_model'' (Some mid) seconds reason should_refresh category (po_clients p ! i) of
                (_, False) \<Rightarrow> (p, False)
              | (c1, True) \<Rightarrow> (schedule [task] (set_client i c1 p), True)))"

definition notify_freeze ::
  "string \<Rightarrow> string \<Rightarrow> string option \<Rightarrow> int \<Rightarrow> string \<Rightarrow> bool \<Rightarrow> bool \<Rightarrow> pool \<Rightarrow> pool" where
  "notify_freeze scope u mid seconds reason permanent disabled p =
     (let chan = startswith scope ''channel''; m = opt_str mid
      in schedule [EmitNotification
           \<lparr>nt_event_type = (if chan then ''channel.frozen'' else ''account.frozen''),
            nt_severity = (if chan then (if disabled then ''critical'' else ''error'') else ''warn''),
            nt_account = (if chan then None else Some u), nt_model = m, nt_scope = scope, nt_reason = reason,
            nt_seconds = seconds, nt_permanent = permanent, nt_disabled = disabled,
            nt_dedupe_key = ''freeze:'' @ po_name p @ '':'' @ scope @ '':'' @ (if chan then '''' else u) @ '':'' @ (case m of Some x \<Rightarrow> x | None \<Rightarrow> ''''),
            nt_dedupe_window = (if permanent \<or> disabled then 3600 else 300)\<rparr>] p)"

definition set_channel_enabled :: "bool \<Rightarrow> pool \<Rightarrow> pool" where
  \<comment> \<open>every account refers to the same channel object\<close>
  "set_channel_enabled b p = p\<lparr>po_channel := (po_channel p)\<lparr>ch_enabled := b\<rparr>,
     po_clients := map (\<lambda>c. c\<lparr>ac_provider := (ac_provider c)\<lparr>pv_channel := map_option (\<lambda>ch. ch\<lparr>ch_enabled := b\<rparr>) (pv_channel (ac_provider c))\<rparr>\<rparr>) (po_clients p)\<rparr>"

definition apply_disable :: "string \<Rightarrow> string \<Rightarrow> pool \<Rightarrow> pool" where
  "apply_disable scope u p =
     (if scope = ''channel'' then schedule [PersistChannelDisabled] (set_channel_enabled False p)
      else if scope \<noteq> ''account'' then p
      else (case client_index u (po_clients p) of
              None \<Rightarrow> p
            | Some i \<Rightarrow> schedule [PersistAccountDisabled u]
                (set_client i ((po_clients p ! i)\<lparr>ac_disabled := True, ac_disable_reason := ''switch_off''\<rparr>) p)))"

definition apply_permanent_freeze :: "time \<Rightarrow> string \<Rightarrow> string \<Rightarrow> string \<Rightarrow> pool \<Rightarrow> pool" where
  "apply_permanent_freeze now scope u reason p =
     (if scope \<noteq> ''account'' then p
      else (case client_index u (po_clients p) of
              None \<Rightarrow> p
            | Some i \<Rightarrow> fst (freeze_account now i None reason (Some True) '''' p)))"

definition mark_account_cooldown :: "time \<Rightarrow> string \<Rightarrow> int \<Rightarrow> pyval \<Rightarrow> pool \<Rightarrow> pool" where
  "mark_account_cooldown now u seconds reason0 p =
     (if seconds \<le> 0 then p
      else (let reason = summarize_freeze_reason reason0
            in case client_index u (po_clients p) of
                 None \<Rightarrow> p
               | Some i \<Rightarrow>
                   (case freeze now ''account'' None (Some seconds) reason (freeze_refresh_on_failure p) '''' (po_clients p ! i) of
                      (_, False) \<Rightarrow> p
                    | (c1, True) \<Rightarrow> schedule [SetAccountCooldown u (Some seconds) reason ''''] (set_client i c1 p))))"

definition apply_fallback_cooldown :: "time \<Rightarrow> string \<Rightarrow> int \<Rightarrow> pyval \<Rightarrow> string option \<Rightarrow> pool \<Rightarrow> pool" where
  "apply_fallback_cooldown now u seconds reason mid p =
     (if seconds \<le> 0 then p
      else (case opt_str mid of
              Some m \<Rightarrow> fst (freeze_account_model now u m (Some seconds) (summarize_freeze_reason reason) None '''' p)
            | None \<Rightarrow> mark_account_cooldown now u seconds reason p))"

section \<open>Failed requests\<close>

definition all_clients :: "(nat \<Rightarrow> pool \<Rightarrow> pool) \<Rightarrow> pool \<Rightarrow> pool" where
  "all_clients f p = fold f [0..<length (po_clients p)] p"

definition freeze_scope :: "time \<Rightarrow> string \<Rightarrow> string \<Rightarrow> string option \<Rightarrow> int \<Rightarrow> string \<Rightarrow> pool \<Rightarrow> pool" where
  \<comment> \<open>the four kinds of temporary freezes\<close>
  "freeze_scope now scope u mid seconds reason p =
     (if scope = ''channel_model'' then
        fold (\<lambda>name. fst \<circ> freeze_account_model now name (the mid) (Some seconds) reason None '''') (map client_name (po_clients p)) p
      else if scope = ''channel'' then
        all_clients (\<lambda>i. fst \<circ> freeze_account now i (Some seconds) reason None '''') p
      else if scope = ''account_model'' then fst (freeze_account_model now u (the mid) (Some seconds) reason None '''' p)
      else (case client_index u (po_clients p) of
              None \<Rightarrow> p | Some i \<Rightarrow> fst (freeze_account now i (Some seconds) reason None '''' p)))"

definition widen_scope :: "string \<Rightarrow> string option \<Rightarrow> string" where
  \<comment> \<open>without a model a model scope becomes the wider one\<close>
  "widen_scope scope mid = (if opt_str mid = None \<and> scope = ''channel_model'' then ''channel''
     else if opt_str mid = None \<and> scope = ''account_model'' then ''account'' else scope)"

definition apply_freeze_policy ::
  "calendar \<Rightarrow> time \<Rightarrow> string \<Rightarrow> int option \<Rightarrow> pydict option \<Rightarrow> string option \<Rightarrow> pyval \<Rightarrow> bool \<Rightarrow> string option \<Rightarrow> pool \<Rightarrow> pool \<times> string" where
  "apply_freeze_policy cal now u status headers mid reason0 exc error_code p =
     (if u = [] then (p, '''')
      else (case channel_match_freeze cal now status headers exc error_code p of
              None \<Rightarrow> (p, '''')
            | Some m \<Rightarrow>
                (let a = fm_action m; summary = summarize_freeze_reason reason0;
                     reason = (if summary \<noteq> [] then summary else ''freeze_policy:'' @ fa_mode a);
                     scope = widen_scope (fa_scope a) mid
                 in if fa_mode a = ''no_freeze'' then (p, ''no_freeze'')
                    else if fa_disable a then
                      (if scope \<notin> {''account'', ''channel''} then (p, '''')
                       else (notify_freeze scope u mid (fa_seconds a) reason False True (apply_disable scope u p), ''freeze''))
                    else if fa_permanent a then
                      (if scope \<noteq> ''account'' then (p, '''')
                       else (notify_freeze scope u mid (fa_seconds a) reason True False (apply_permanent_freeze now scope u reason p), ''freeze''))
                    else (notify_freeze scope u mid (fa_seconds a) reason (fa_permanent a) False
                            (freeze_scope now scope u mid (fa_seconds a) reason p), ''freeze''))))"

definition mark_account_429 :: "calendar \<Rightarrow> time \<Rightarrow> string \<Rightarrow> pyval \<Rightarrow> pool \<Rightarrow> pool \<times> string" where
  "mark_account_429 cal now u reason p = apply_freeze_policy cal now u (Some 429) None None (py_or reason (PStr ''rate_limit'')) False None p"

definition exception_seconds :: "pyval \<Rightarrow> int option \<Rightarrow> int" where
  "exception_seconds raw given = (if raw = PNone then 300 else case py_int raw of
      Inr n \<Rightarrow> n | Inl _ \<Rightarrow> (case given of Some n \<Rightarrow> if 0 < n then n else 60 | None \<Rightarrow> 60))"

definition mark_account_exception ::
  "calendar \<Rightarrow> time \<Rightarrow> pyval \<Rightarrow> string \<Rightarrow> int option \<Rightarrow> pyval \<Rightarrow> string option \<Rightarrow> string option \<Rightarrow> pool \<Rightarrow> pool \<times> string" where
  \<comment> \<open>\<open>raw\<close>: \<open>rate_limit.exception_cooldown_seconds\<close> of the configuration\<close>
  "mark_account_exception cal now raw u given reason0 error_code mid p =
     (let reason = py_or reason0 (PStr ''exception'');
          (p1, result) = apply_freeze_policy cal now u None None mid reason True error_code p;
          seconds = exception_seconds raw given
      in if result \<noteq> [] \<or> seconds \<le> 0 then (p1, result)
         else (apply_fallback_cooldown now u seconds reason mid p1, ''freeze''))"

definition handle_response_error ::
  "calendar \<Rightarrow> time \<Rightarrow> pyval \<Rightarrow> string option \<Rightarrow> pyval \<Rightarrow> pyval \<Rightarrow> string option \<Rightarrow> pool \<Rightarrow> pool \<times> string" where
  \<comment> \<open>\<open>raw\<close>: \<open>rate_limit.cooldown_seconds\<close> of the configuration\<close>
  "handle_response_error cal now raw u status reason mid p =
     (case (opt_str u, py_int status) of
        (Some u, Inr code) \<Rightarrow>
          (let (p1, result) = apply_freeze_policy cal now u (Some code) None mid reason False None p;
               seconds = (if raw = PNone then 60 else int_value raw 60)
           in if result \<noteq> [] \<or> seconds \<le> 0 then (p1, result)
              else (apply_fallback_cooldown now u seconds (py_or reason (PStr (''http_'' @ int_str code))) mid p1, ''freeze''))
      | _ \<Rightarrow> (p, ''''))"

section \<open>Semantic errors\<close>

definition category_for_kind :: "string \<Rightarrow> string" where
  "category_for_kind kind = (if kind = ''credential_invalid'' then ''credential''
     else if kind = ''quota_exhausted'' then ''quota'' else if kind = ''temporary_freeze'' then ''temporary'' else '''')"

definition apply_account_state :: "time \<Rightarrow> string \<Rightarrow> int option \<Rightarrow> string \<Rightarrow> string \<Rightarrow> bool \<Rightarrow> pool \<Rightarrow> pool \<times> string" where
  "apply_account_state now u seconds reason category respect_refresh p =
     (case client_index u (po_clients p) of
        None \<Rightarrow> (p, '''')
      | Some i \<Rightarrow> (fst (freeze_account now i seconds reason (if respect_refresh then None else Some True) category p), ''freeze''))"

definition apply_model_state :: "time \<Rightarrow> string \<Rightarrow> string \<Rightarrow> int option \<Rightarrow> string \<Rightarrow> string \<Rightarrow> bool \<Rightarrow> pool \<Rightarrow> pool \<times> string" where
  \<comment> \<open>the category is not passed on\<close>
  "apply_model_state now u mid seconds reason category respect_refresh p =
     (case freeze_account_model now u mid seconds reason (if respect_refresh then None else Some True) '''' p of
        (p1, changed) \<Rightarrow> (p1, if changed then ''freeze'' else ''no_freeze''))"

definition match_dict :: "freeze_match \<Rightarrow> pydict" where
  \<comment> \<open>the dictionary \<open>match_freeze_rules\<close> returns\<close>
  "match_dict m = (let a = fm_action m in
     [(''rule'', rule_dict (fm_rule m)), (''scope'', PStr (fa_scope a)), (''seconds'', PInt (fa_seconds a)),
      (''permanent'', PBool (fa_permanent a)), (''disable'', PBool (fa_disable a)), (''freeze_mode'', PStr (fa_mode a))])"

definition error_kind_action :: "calendar \<Rightarrow> time \<Rightarrow> pydict \<Rightarrow> freeze_action" where
  "error_kind_action cal now d = freeze_rule_to_action cal now
     (py_str (dget_or d ''freeze_object'' (PStr ''account''))) (py_str (dget_or d ''freeze_period'' (PStr ''seconds'')))
     (int_value (dget_or d ''freeze_value'' (PInt 60)) 0)"

definition apply_channel_error ::
  "calendar \<Rightarrow> time \<Rightarrow> string \<Rightarrow> channel_error option \<Rightarrow> string option \<Rightarrow> pool \<Rightarrow> pool \<times> string" where
  \<comment> \<open>\<open>None\<close>: an exception of another family\<close>
  "apply_channel_error cal now u error mid p =
     (case error of
        None \<Rightarrow> (p, '''')
      | Some e \<Rightarrow>
          (let summary = summarize_freeze_reason (PStr (ce_detail e));
               reason = (if summary \<noteq> [] then summary else ''channel_error:'' @ ce_kind e);
               category = category_for_kind (ce_kind e)
           in if u = [] then (p, '''')
              else (case ce_freeze e of
                KeepState \<Rightarrow> (p, ''no_freeze'')
              | Unspecified \<Rightarrow>
                  (case match_error_kind cal now (ce_kind e) p of
                     Some m \<Rightarrow>
                       (let a = error_kind_action cal now (match_dict m); seconds = (if fa_permanent a then None else Some (fa_seconds a))
                        in if fa_disable a then
                             (if fa_scope a \<notin> {''account'', ''channel''} then (p, '''')
                              else (notify_freeze (fa_scope a) u None 0 reason False True (apply_disable (fa_scope a) u p), ''freeze''))
                           else if fa_scope a = ''account_model'' \<and> opt_str mid \<noteq> None then apply_model_state now u (the mid) seconds reason category True p
                           else apply_account_state now u seconds reason category True p)
                   | None \<Rightarrow> apply_account_state now u (if category \<in> {''credential'', ''quota''} then None else Some 60) reason category True p)
              | Explicit seconds hm \<Rightarrow>
                  (case opt_str hm of
                     Some m \<Rightarrow> apply_model_state now u m seconds reason category False p
                   | None \<Rightarrow> apply_account_state now u seconds reason category False p))))"

end
