(* ===== verification/Lub_PoolOps.thy ===== *)
theory Lub_PoolOps
  imports Lub_Pool
begin

text \<open>
  The rest of \<open>ProviderPool\<close>: choosing a client in turn, lifting freezes, restoring them after a
  restart, and running the scheduled tasks; and the receiving side, \<open>server/runtime_sync.py\<close> with the
  cooldown handler of \<open>server/runtime_handlers.py\<close> and the event methods of \<open>ModelClientPool\<close>.
\<close>

section \<open>Loading accounts\<close>

record account_limits =
  al_tpm :: int
  al_concurrent :: int
  al_rpm :: int
  al_rpd :: int
  al_rph :: int
  al_tph :: int
  al_tpd :: int

definition int_or_zero :: "pyval \<Rightarrow> pyerror + int" where
  \<comment> \<open>\<open>int(v or 0)\<close>\<close>
  "int_or_zero v = py_int (py_or v (PInt 0))"

fun collect :: "(pyerror + int) list \<Rightarrow> pyerror + int list" where
  \<comment> \<open>evaluate in order; the first exception ends it\<close>
  "collect [] = Inr []"
| "collect (Inl e # rs) = Inl e"
| "collect (Inr n # rs) = (case collect rs of Inl e \<Rightarrow> Inl e | Inr ns \<Rightarrow> Inr (n # ns))"

definition channel_limits :: "pydict \<Rightarrow> int \<Rightarrow> pyerror + account_limits" where
  \<comment> \<open>the channel's limits: from the policy, else from the rate limit settings\<close>
  "channel_limits extra rpm = (case py_or (dget extra ''limit_policy'') (PDict []) of
      PDict pol \<Rightarrow>
        (if pol \<noteq> [] \<and> dget pol ''enabled'' = PBool False
         then Inr \<lparr>al_tpm = 0, al_concurrent = 0, al_rpm = 0, al_rpd = 0, al_rph = 0, al_tph = 0, al_tpd = 0\<rparr>
         else (case dget_or extra ''rate_limit'' (PDict []) of
           PDict rl \<Rightarrow>
             (case collect (map int_or_zero
                 [dget_or pol ''account_tpm'' (dget_or rl ''tpm_per_account'' (PInt 0)),
                  dget_or pol ''account_concurrent'' (dget_or rl ''concurrent_per_account'' (PInt 0)),
                  dget_or pol ''account_rpm'' (PInt rpm), dget_or pol ''account_rpd'' (dget_or rl ''rpd_per_account'' (PInt 0)),
                  dget pol ''account_rph'', dget pol ''account_tph'', dget pol ''account_tpd'']) of
                Inr [tpm, conc, rpm', rpd, rph, tph, tpd] \<Rightarrow>
                  Inr \<lparr>al_tpm = tpm, al_concurrent = conc, al_rpm = rpm', al_rpd = rpd, al_rph = rph, al_tph = tph, al_tpd = tpd\<rparr>
              | Inr _ \<Rightarrow> Inl ValueError
              | Inl e \<Rightarrow> Inl e)
         | _ \<Rightarrow> Inl AttributeError))
    | _ \<Rightarrow> Inl AttributeError)"

definition load_account :: "(pydict \<Rightarrow> provider_view \<times> bool) \<Rightarrow> channel_view \<Rightarrow> account_limits \<Rightarrow> pydict \<Rightarrow> pyerror + account_client" where
  \<comment> \<open>\<open>mk\<close>: the provider class applied to an account, and its flag \<open>USES_ACCOUNT_RPM\<close>; balances are left out\<close>
  "load_account mk ch L acc =
     (case mk acc of (pv, uses_rpm) \<Rightarrow>
        case collect (map int_or_zero
          [dget_or acc ''tpm_limit'' (dget_or acc ''tpm_per_account'' (PInt (al_tpm L))),
           dget_or acc ''concurrent_limit'' (dget_or acc ''concurrent_per_account'' (PInt (al_concurrent L))),
           dget_or acc ''rph_limit'' (PInt (al_rph L)), dget_or acc ''tph_limit'' (PInt (al_tph L)), dget_or acc ''tpd_limit'' (PInt (al_tpd L))]) of
          Inr [tpm, conc, rph, tph, tpd] \<Rightarrow>
            (let off = (dget acc ''switch'' = PBool False)
             in Inr \<lparr>ac_provider = pv\<lparr>pv_channel := Some ch\<rparr>, ac_rpm_limit = (if uses_rpm then al_rpm L else 0), ac_rpd_limit = al_rpd L,
                  ac_rph_limit = rph, ac_tph_limit = tph, ac_tpd_limit = tpd, ac_tpm_limit = tpm, ac_concurrent_limit = conc, ac_in_flight = 0,
                  ac_legacy_priority = 0, ac_legacy_weight = 1, ac_disabled = off, ac_disable_reason = (if off then ''switch_off'' else ''''),
                  ac_requests = [], ac_token_usages = [], ac_limit_leases = [], ac_auth_ok = None, ac_daily_remaining = None,
                  ac_daily_limit = None, ac_quota_disabled_until = 0,
                  ac_freeze = \<lparr>fb_account = no_freeze\<lparr>fe_until := (if truthy (dget acc ''is_frozen'') then None else Some 0)\<rparr>, fb_models = []\<rparr>,
                  ac_stats = new_failure_window, ac_is_test = False\<rparr>)
        | Inr _ \<Rightarrow> Inl ValueError
        | Inl e \<Rightarrow> Inl e)"

fun load_accounts :: "(pydict \<Rightarrow> provider_view \<times> bool) \<Rightarrow> account_limits \<Rightarrow> pydict list \<Rightarrow> pool \<Rightarrow> pool \<times> pyerror option" where
  \<comment> \<open>the accounts in front of one that raises stay loaded\<close>
  "load_accounts mk L [] p = (p, None)"
| "load_accounts mk L (acc # accs) p = (case load_account mk (po_channel p) L acc of
      Inl e \<Rightarrow> (p, Some e)
    | Inr c \<Rightarrow> load_accounts mk L accs (p\<lparr>po_clients := po_clients p @ [c]\<rparr>))"

definition add_accounts ::
  "(pydict \<Rightarrow> channel_view) \<Rightarrow> (pydict \<Rightarrow> provider_view \<times> bool) \<Rightarrow> pydict list \<Rightarrow> int \<Rightarrow> pydict \<Rightarrow> pool \<Rightarrow> pool \<times> pyerror option" where
  \<comment> \<open>\<open>snap\<close>: the channel after \<open>Channel.apply\<close>; the accounts already loaded share it\<close>
  "add_accounts snap mk accs rpm extra p =
     (let ch = snap extra;
          p1 = p\<lparr>po_channel := ch, po_clients := map (\<lambda>c. c\<lparr>ac_provider := (ac_provider c)\<lparr>pv_channel := Some ch\<rparr>\<rparr>) (po_clients p)\<rparr>
      in case channel_limits extra rpm of
           Inl e \<Rightarrow> (p1, Some e)
         | Inr L \<Rightarrow> load_accounts mk L accs p1)"

section \<open>Authentication rounds\<close>

datatype auth_answer = Answered bool | TimedOut | Raised "channel_error option"

definition init_client :: "calendar \<Rightarrow> time \<Rightarrow> (account_client \<Rightarrow> auth_answer) \<Rightarrow> nat \<Rightarrow> pool \<Rightarrow> pool" where
  \<comment> \<open>\<open>init_auth\<close>: what the provider's \<open>init_auth(True)\<close> answers within the 30 seconds\<close>
  "init_client cal now init_auth i p =
     (let c = po_clients p ! i; put = (\<lambda>ok. set_client i (c\<lparr>ac_auth_ok := Some ok\<rparr>) p)
      in if ac_disabled c then p
         else (case init_auth c of
                 Answered ok \<Rightarrow> put ok
               | TimedOut \<Rightarrow> put False
               | Raised e \<Rightarrow> fst (apply_channel_error cal now (client_name c) e None (put False))))"

definition init_all :: "calendar \<Rightarrow> time \<Rightarrow> (account_client \<Rightarrow> auth_answer) \<Rightarrow> pool \<Rightarrow> pool" where
  "init_all cal now init_auth p = (if \<not> enabled p then p else all_clients (init_client cal now init_auth) p)"

definition check_client :: "(account_client \<Rightarrow> bool) \<Rightarrow> (account_client \<Rightarrow> auth_answer) \<Rightarrow> (account_client \<Rightarrow> auth_answer) \<Rightarrow> nat \<Rightarrow> pool \<Rightarrow> pool" where
  "check_client auto_refresh init_auth health_check i p =
     (let c = po_clients p ! i;
          answer = (if auto_refresh c then init_auth c
                    else (case pv_is_init (ac_provider c) of Some (Inr True) \<Rightarrow> health_check c | Some (Inr False) \<Rightarrow> Answered False | _ \<Rightarrow> Raised None))
      in if ac_disabled c then p
         else set_client i (c\<lparr>ac_auth_ok := Some (case answer of Answered ok \<Rightarrow> ok | _ \<Rightarrow> False)\<rparr>) p)"

definition check_account ::
  "(account_client \<Rightarrow> bool) \<Rightarrow> (account_client \<Rightarrow> auth_answer) \<Rightarrow> (account_client \<Rightarrow> auth_answer) \<Rightarrow> bool \<Rightarrow> bool \<Rightarrow> pool \<Rightarrow> pool" where
  \<comment> \<open>\<open>health_on\<close>: the channel's health checks are not switched off\<close>
  "check_account auto_refresh init_auth health_check health_on force p =
     (if \<not> force \<and> (\<not> enabled p \<or> \<not> health_on) then p else all_clients (check_client auto_refresh init_auth health_check) p)"

section \<open>Rules on response headers\<close>

definition freeze_detached :: "time \<Rightarrow> int \<Rightarrow> string \<Rightarrow> account_client \<Rightarrow> pool \<Rightarrow> account_client \<times> pool" where
  \<comment> \<open>\<open>_freeze_account\<close> for a client that is not in the pool\<close>
  "freeze_detached now seconds reason c p =
     (case freeze now ''account'' None (Some seconds) reason (freeze_refresh_on_failure p) '''' c of
        (c1, False) \<Rightarrow> (c1, p)
      | (c1, True) \<Rightarrow> (c1, schedule [SetAccountCooldown (client_name c) (Some seconds) reason '''',
                         PublishCooldown (broadcast_cooldown now (client_name c) None (Some seconds) reason '''' p)] p))"

definition header_freeze ::
  "calendar \<Rightarrow> time \<Rightarrow> string \<Rightarrow> pydict \<Rightarrow> string option \<Rightarrow> account_client option \<Rightarrow> pool \<Rightarrow> account_client option \<times> pool" where
  \<comment> \<open>\<open>ProviderLimitState.update_from_headers\<close> after the quota update, for a channel with a pool; only the
     scope and the duration of the action are used\<close>
  "header_freeze cal now u headers mid ac p =
     (if po_name p = [] \<or> u = [] then (ac, p)
      else (case channel_match_freeze cal now None (Some headers) False None p of
              None \<Rightarrow> (ac, p)
            | Some m \<Rightarrow>
                (let a = fm_action m; scope = widen_scope (fa_scope a) mid; reason = ''freeze_policy:'' @ fa_mode a
                 in if fa_mode a = ''no_freeze'' then (ac, p)
                    else if scope \<notin> {''channel_model'', ''channel'', ''account_model''} \<and> client_index u (po_clients p) = None
                    then (case ac of None \<Rightarrow> (ac, p) | Some c \<Rightarrow> apfst Some (freeze_detached now (fa_seconds a) reason c p))
                    else (ac, freeze_scope now scope u mid (fa_seconds a) reason p))))"

lemma freeze_no_time: "freeze now kind mid (Some 0) reason refresh cat c = (c, False)"
  by (simp add: freeze_def until_of_def)

lemma freeze_scope_no_time:
  assumes "scope \<in> {''account'', ''channel''}"
  shows "freeze_scope now scope u mid 0 reason p = p"
proof -
  have a: "fst (freeze_account now i (Some 0) reason None '''' p) = p" for i
    by (simp add: freeze_account_def freeze_no_time)
  then have "fold (\<lambda>i. fst \<circ> freeze_account now i (Some 0) reason None '''') xs p = p" for xs by (induction xs) simp_all
  with assms a show ?thesis unfolding freeze_scope_def all_clients_def by (auto split: option.split)
qed

lemma header_rule_ignored:
  assumes "channel_match_freeze cal now None (Some headers) False None p = Some m" "fa_permanent (fm_action m) \<or> fa_disable (fm_action m)"
  shows "header_freeze cal now u headers mid ac p = (ac, p)"
proof -
  note d = match_freeze_rulesD [OF assms(1) [unfolded channel_match_freeze_def]]
  have "action_ok (fm_action m)" using rule_action_ok [OF rules_ok [OF d(1)]] d(3) by simp
  then consider "fa_mode (fm_action m) = ''no_freeze''" | "fa_seconds (fm_action m) = 0" "fa_scope (fm_action m) \<in> {''account'', ''channel''}"
    using assms(2) by (auto simp: action_ok_def split: if_splits)
  then show ?thesis
  proof cases
    case 2
    then have "widen_scope (fa_scope (fm_action m)) mid = fa_scope (fm_action m)" by (auto simp: widen_scope_def)
    with 2 assms(1) show ?thesis
      by (simp add: header_freeze_def Let_def freeze_scope_no_time freeze_detached_def freeze_no_time split: option.split)
  qed (use assms(1) in \<open>simp add: header_freeze_def Let_def\<close>)
qed

section \<open>Choosing a client\<close>

type_synonym client_test = "account_client \<Rightarrow> account_client \<times> (pyerror + bool)"

fun rotate_clients :: "client_test \<Rightarrow> nat \<Rightarrow> pool \<Rightarrow> pool \<times> (pyerror + nat option)" where
  \<comment> \<open>the loop \<open>for _ in range(len(self.clients))\<close>; the result is the position of the chosen client\<close>
  "rotate_clients test 0 p = (p, Inr None)"
| "rotate_clients test (Suc n) p =
     (let i = nat (po_index p); (c, r) = test (po_clients p ! i);
          p1 = (set_client i c p)\<lparr>po_index := (po_index p + 1) mod int (length (po_clients p))\<rparr>
      in case r of
           Inl e \<Rightarrow> (p1, Inl e)
         | Inr found \<Rightarrow> if found then (p1, Inr (Some i)) else rotate_clients test n p1)"

definition normalize_index :: "pool \<Rightarrow> pool" where
  "normalize_index p = (if int (length (po_clients p)) \<le> po_index p \<or> po_index p < 0 then p\<lparr>po_index := 0\<rparr> else p)"

definition pick_client :: "client_test \<Rightarrow> pool \<Rightarrow> pool \<times> (pyerror + nat option)" where
  "pick_client test p = (if po_clients p = [] then (p, Inr None)
     else rotate_clients test (length (po_clients p)) (normalize_index p))"

definition available_test :: "time \<Rightarrow> string list \<Rightarrow> client_test" where
  \<comment> \<open>\<open>client.check_available()\<close> without a model\<close>
  "available_test now exclude c =
     (if client_name c \<in> set exclude then (c, Inr False)
      else (case account_available_locked now None (True, '''') False c of
              (c1, Inl e) \<Rightarrow> (c1, Inl e)
            | (c1, Inr d) \<Rightarrow> (c1, Inr (ld_allowed d))))"

definition initialized_test :: client_test where
  "initialized_test c = (c, if ac_disabled c then Inr False
     else (case pv_is_init (ac_provider c) of Some r \<Rightarrow> r | None \<Rightarrow> Inl AttributeError))"

definition get_available_client :: "time \<Rightarrow> string list \<Rightarrow> pool \<Rightarrow> pool \<times> (pyerror + nat option)" where
  "get_available_client now exclude = pick_client (available_test now exclude)"

definition get_initialized_provider :: "pool \<Rightarrow> pool \<times> (pyerror + nat option)" where
  "get_initialized_provider = pick_client initialized_test"

section \<open>Lifting freezes\<close>

definition pool_clear_account_cooldown :: "time \<Rightarrow> string \<Rightarrow> pool \<Rightarrow> pool" where
  "pool_clear_account_cooldown now u p = schedule [ClearAccountCooldown u]
     (case client_index u (po_clients p) of
        None \<Rightarrow> p | Some i \<Rightarrow> set_client i (fst (unfreeze now ''account'' None (po_clients p ! i))) p)"

definition clear_all_cooldowns :: "time \<Rightarrow> pool \<Rightarrow> pool \<times> int" where
  "clear_all_cooldowns now p =
     (schedule [ClearProviderCooldowns] (p\<lparr>po_clients := map (fst \<circ> unfreeze now ''account'' None) (po_clients p)\<rparr>),
      int (length (po_clients p)))"

definition broadcast_cleared :: "string \<Rightarrow> string option \<Rightarrow> pool \<Rightarrow> cooldown_event" where
  "broadcast_cleared u mid p = \<lparr>ev_provider = po_name p, ev_username = u, ev_model = opt_str mid, ev_until = None,
     ev_reason = '''', ev_category = '''', ev_cleared = True\<rparr>"

definition clear_runtime_freeze_on_success :: "time \<Rightarrow> string \<Rightarrow> string option \<Rightarrow> pool \<Rightarrow> pool \<times> bool" where
  "clear_runtime_freeze_on_success now u mid p =
     (if u = [] then (p, False)
      else (case client_index u (po_clients p) of
              None \<Rightarrow> (p, False)
            | Some i \<Rightarrow>
                (let c = po_clients p ! i; model_cooling = (case opt_str mid of None \<Rightarrow> False | Some m \<Rightarrow> is_model_frozen now m c)
                 in if is_frozen now c then
                      (schedule [ClearAccountCooldown u, PublishCooldown (broadcast_cleared u None p)]
                         (set_client i (fst (unfreeze now ''account'' None c)) p), True)
                    else if model_cooling then
                      (schedule [ClearModelCooldown u (the mid), PublishCooldown (broadcast_cleared u mid p)]
                         (set_client i (fst (unfreeze now ''account_model'' mid c)) p), True)
                    else (p, False))))"

section \<open>Restoring after a restart\<close>

definition restore_account :: "time \<Rightarrow> cooldown_info \<Rightarrow> account_client \<Rightarrow> account_client" where
  "restore_account now i c =
     (if ci_permanent i then fst (freeze now ''account'' None None (ci_reason i) True (ci_category i) c)
      else (let until = (case ci_until i of Some t \<Rightarrow> t | None \<Rightarrow> 0)
            in if now < until then set_freeze_state_raw (Some until) [] (ci_reason i) (ci_category i) c else c))"

definition restore_model :: "time \<Rightarrow> model_status \<Rightarrow> account_client \<Rightarrow> account_client" where
  "restore_model now ms c =
     (let m = ms_model ms; i = ms_info ms
      in if m = [] then c
         else if ci_permanent i then fst (freeze now ''account_model'' (Some m) None (ci_reason i) True (ci_category i) c)
         else (let until = (case ci_until i of Some t \<Rightarrow> t | None \<Rightarrow> 0)
               in if now < until then set_freeze_state_raw None [(m, Some until)] (ci_reason i) (ci_category i) c else c))"

definition restore_accounts :: "'s redis \<Rightarrow> time \<Rightarrow> string \<Rightarrow> account_client list \<Rightarrow> 's conn \<Rightarrow> 's conn \<times> account_client list" where
  "restore_accounts R now provider cs conn =
     fold (\<lambda>c (conn, acc). case get_account_cooldown_info R now provider (client_name c) conn of
         (conn1, None) \<Rightarrow> (conn1, acc @ [c])
       | (conn1, Some i) \<Rightarrow> (conn1, acc @ [restore_account now i c])) cs (conn, [])"

definition restore_cooldowns :: "'s redis \<Rightarrow> time \<Rightarrow> pool \<times> 's conn \<Rightarrow> pool \<times> 's conn" where
  "restore_cooldowns R now st =
     (case st of (p, conn) \<Rightarrow>
       (let (conn1, cs) = restore_accounts R now (po_name p) (po_clients p) conn;
            (conn2, mm) = batch_get_provider_model_cooldowns R now (po_name p) conn1;
            step = (\<lambda>(u, mss) cs. case client_index u cs of
                None \<Rightarrow> cs | Some i \<Rightarrow> cs[i := fold (restore_model now) mss (cs ! i)])
        in (p\<lparr>po_clients := fold step mm cs\<rparr>, conn2)))"

section \<open>Running tasks\<close>

record message =
  msg_name :: string
  msg_version :: time
  msg_event :: cooldown_event

definition publish :: "time \<Rightarrow> cooldown_event \<Rightarrow> 's conn \<times> message list \<Rightarrow> 's conn \<times> message list" where
  \<comment> \<open>\<open>runtime_sync.publish\<close>; a lost request publishes nothing\<close>
  "publish now ev st =
     (case st of (conn, bus) \<Rightarrow>
       if \<not> conn_client conn then (conn, bus)
       else (let conn1 = fst (call (\<lambda>s. (s, ())) conn)
             in (conn1, if (case conn_faults conn of LostRequest # _ \<Rightarrow> True | _ \<Rightarrow> False) then bus
                        else bus @ [\<lparr>msg_name = ev_provider ev @ '':'' @ ev_username ev, msg_version = now, msg_event = ev\<rparr>])))"

fun run_task :: "'s redis \<Rightarrow> time \<Rightarrow> string \<Rightarrow> pool_task \<Rightarrow> 's conn \<times> message list \<Rightarrow> 's conn \<times> message list" where
  \<comment> \<open>the database and the notification centre are not modelled\<close>
  "run_task R now provider (SetAccountCooldown u seconds reason category) st = apfst (set_account_cooldown R provider u seconds reason category) st"
| "run_task R now provider (FreezeModelAsync u mid seconds reason ev) st =
     publish now ev (apfst (set_account_model_cooldown R provider u mid seconds reason) st)"
| "run_task R now provider (ClearAccountCooldown u) st = apfst (Lub_Cooldown.clear_account_cooldown R provider u) st"
| "run_task R now provider (ClearModelCooldown u mid) st = apfst (clear_account_model_cooldown R provider u mid) st"
| "run_task R now provider ClearProviderCooldowns st = apfst (fst \<circ> clear_all_provider_cooldowns R provider) st"
| "run_task R now provider (PublishCooldown ev) st = publish now ev st"
| "run_task R now provider _ st = st"

section \<open>Receiving events\<close>

definition apply_cooldown_event ::
  "time \<Rightarrow> string \<Rightarrow> string option \<Rightarrow> time option \<Rightarrow> string \<Rightarrow> string \<Rightarrow> pool \<Rightarrow> pool" where
  "apply_cooldown_event now u mid until reason category p =
     (case client_index u (po_clients p) of
        None \<Rightarrow> p
      | Some i \<Rightarrow>
          (let c = po_clients p ! i
           in case until of
                None \<Rightarrow> set_client i (fst (freeze now (if opt_str mid \<noteq> None then ''account_model'' else ''account'') mid None reason True category c)) p
              | Some t \<Rightarrow>
                  (if t \<le> now then p
                   else set_client i (case opt_str mid of
                          Some m \<Rightarrow> set_freeze_state_raw None [(m, Some t)] reason category c
                        | None \<Rightarrow> set_freeze_state_raw (Some t) [] reason category c) p)))"

definition clear_cooldown_event :: "time \<Rightarrow> string \<Rightarrow> string option \<Rightarrow> pool \<Rightarrow> pool" where
  "clear_cooldown_event now u mid p =
     (case client_index u (po_clients p) of
        None \<Rightarrow> p
      | Some i \<Rightarrow> set_client i (fst (unfreeze now (if mid \<noteq> None then ''account_model'' else ''account'') mid (po_clients p ! i))) p)"

definition info_until :: "cooldown_info \<Rightarrow> time option" where
  "info_until i = (if ci_permanent i then None else Some (case ci_until i of Some t \<Rightarrow> t | None \<Rightarrow> 0))"

definition on_cooldown_event :: "'s redis \<Rightarrow> time \<Rightarrow> cooldown_event \<Rightarrow> pool \<times> 's conn \<Rightarrow> pool \<times> 's conn" where
  \<comment> \<open>for the pool of the event's channel; the handler passes no category on\<close>
  "on_cooldown_event R now ev st =
     (case st of (p, conn) \<Rightarrow>
       (let u = ev_username ev
        in if ev_provider ev = [] \<or> u = [] \<or> ev_provider ev \<noteq> po_name p then (p, conn)
           else (case opt_str (ev_model ev) of
             Some m \<Rightarrow>
               (if ev_cleared ev then (clear_cooldown_event now u (Some m) p, conn)
                else (case get_account_model_cooldown_info R now (ev_provider ev) u m conn of
                        (conn1, None) \<Rightarrow> (p, conn1)
                      | (conn1, Some i) \<Rightarrow> (apply_cooldown_event now u (Some m) (info_until i) (ci_reason i) '''' p, conn1)))
           | None \<Rightarrow>
               (case get_account_cooldown_info R now (ev_provider ev) u conn of
                  (conn1, None) \<Rightarrow> (clear_cooldown_event now u None p, conn1)
                | (conn1, Some i) \<Rightarrow> (apply_cooldown_event now u None (info_until i) (ci_reason i) '''' p, conn1)))))"

type_synonym versions = "(string \<times> time) list"

definition dispatch :: "'s redis \<Rightarrow> time \<Rightarrow> message \<Rightarrow> versions \<times> pool \<times> 's conn \<Rightarrow> versions \<times> pool \<times> 's conn" where
  \<comment> \<open>\<open>_dispatch\<close> for cooldown events: a message no newer than the last one of its name is dropped\<close>
  "dispatch R now msg st =
     (case st of (seen, rest) \<Rightarrow>
       if (case map_of seen (msg_name msg) of Some v \<Rightarrow> msg_version msg \<le> v | None \<Rightarrow> False) then (seen, rest)
       else (dset seen (msg_name msg) (msg_version msg), on_cooldown_event R now (msg_event msg) rest))"

end
