(* ===== verification/Lub_PoolProps.thy ===== *)
theory Lub_PoolProps
  imports Lub_PoolOps Lub_CooldownProps
begin

text \<open>
  Properties of the account pool: the rotation serves the first willing account and starves none,
  freezes survive a restart and reach the other instances, and where the handling of semantic errors
  loses what was configured or recorded.
\<close>

section \<open>The rotation\<close>

definition turn_order :: "pool \<Rightarrow> nat list" where
  \<comment> \<open>all positions, beginning at the cursor\<close>
  "turn_order p = (let n = length (po_clients p) in map (\<lambda>k. (nat (po_index (normalize_index p)) + k) mod n) [0..<n])"

definition first_answer :: "client_test \<Rightarrow> account_client list \<Rightarrow> nat list \<Rightarrow> pyerror + nat option" where
  \<comment> \<open>the first position that does not just refuse\<close>
  "first_answer test cs order = (case find (\<lambda>i. snd (test (cs ! i)) \<noteq> Inr False) order of
      None \<Rightarrow> Inr None
    | Some i \<Rightarrow> (case snd (test (cs ! i)) of Inl e \<Rightarrow> Inl e | Inr _ \<Rightarrow> Inr (Some i)))"

lemma first_answer_cong:
  "(\<And>j. j \<in> set order \<Longrightarrow> cs ! j = cs' ! j) \<Longrightarrow> first_answer test cs order = first_answer test cs' order"
  by (induction order) (auto simp: first_answer_def)

lemma first_answer_Cons:
  "first_answer test cs (i # order) = (case snd (test (cs ! i)) of
     Inl e \<Rightarrow> Inl e | Inr found \<Rightarrow> if found then Inr (Some i) else first_answer test cs order)"
  by (auto simp: first_answer_def split: sum.splits)

definition cursor_ok :: "pool \<Rightarrow> bool" where
  "cursor_ok p \<longleftrightarrow> 0 \<le> po_index p \<and> po_index p < int (length (po_clients p))"

lemma cursor_ok_normalize: "po_clients p \<noteq> [] \<Longrightarrow> cursor_ok (normalize_index p)"
  by (auto simp: cursor_ok_def normalize_index_def)

lemma normalize_index_clients [simp]: "po_clients (normalize_index p) = po_clients p"
  by (simp add: normalize_index_def)

definition advance :: "client_test \<Rightarrow> pool \<Rightarrow> pool" where
  "advance test p = (set_client (nat (po_index p)) (fst (test (po_clients p ! nat (po_index p)))) p)
     \<lparr>po_index := (po_index p + 1) mod int (length (po_clients p))\<rparr>"

lemma rotate_unfold:
  "rotate_clients test (Suc n) p = (case snd (test (po_clients p ! nat (po_index p))) of
     Inl e \<Rightarrow> (advance test p, Inl e)
   | Inr found \<Rightarrow> if found then (advance test p, Inr (Some (nat (po_index p)))) else rotate_clients test n (advance test p))"
  by (cases "test (po_clients p ! nat (po_index p))") (simp add: Let_def advance_def split: sum.split)

lemma advance_sel [simp]:
  "length (po_clients (advance test p)) = length (po_clients p)"
  "j \<noteq> nat (po_index p) \<Longrightarrow> po_clients (advance test p) ! j = po_clients p ! j"
  by (simp_all add: advance_def set_client_def)

lemma advance_cursor:
  assumes "cursor_ok p"
  shows "cursor_ok (advance test p)" "nat (po_index (advance test p)) = (nat (po_index p) + 1) mod length (po_clients p)"
proof -
  let ?n = "length (po_clients p)"
  have i: "po_index p = int (nat (po_index p))" using assms by (simp add: cursor_ok_def)
  have "(po_index p + 1) mod int ?n = int ((nat (po_index p) + 1) mod ?n)"
    by (subst i) (simp add: zmod_int ac_simps)
  then show "nat (po_index (advance test p)) = (nat (po_index p) + 1) mod ?n" by (simp add: advance_def)
  have "0 < int ?n" using assms by (auto simp: cursor_ok_def)
  then show "cursor_ok (advance test p)" by (simp add: cursor_ok_def set_client_def advance_def)
qed

lemma turn_distinct:
  assumes "i < (n::nat)" "k < n" "0 < k"
  shows "(i + k) mod n \<noteq> i"
proof -
  have "(i + k) mod n = (if i + k < n then i + k else i + k - n)"
    using assms by (simp add: mod_if [of "i + k"] mod_if [of "i + k - n"] le_mod_geq)
  then show ?thesis using assms by auto
qed

lemma rotate_first_answer:
  assumes "cursor_ok p" "n \<le> length (po_clients p)"
  shows "snd (rotate_clients test n p) =
    first_answer test (po_clients p) (map (\<lambda>k. (nat (po_index p) + k) mod length (po_clients p)) [0..<n])"
  using assms
proof (induction n arbitrary: p)
  case 0
  then show ?case by (simp add: first_answer_def)
next
  case (Suc n)
  let ?len = "length (po_clients p)" let ?i = "nat (po_index p)" let ?q = "advance test p"
  have i: "?i < ?len" using Suc.prems by (auto simp: cursor_ok_def)
  have turn: "(nat (po_index ?q) + k) mod length (po_clients ?q) = (?i + Suc k) mod ?len" for k
    using advance_cursor(2) [OF Suc.prems(1)] by (simp add: mod_simps)
  have same: "first_answer test (po_clients ?q) (map (\<lambda>k. (?i + Suc k) mod ?len) [0..<n]) =
      first_answer test (po_clients p) (map (\<lambda>k. (?i + Suc k) mod ?len) [0..<n])"
  proof (rule first_answer_cong)
    fix j assume "j \<in> set (map (\<lambda>k. (?i + Suc k) mod ?len) [0..<n])"
    then obtain k where k: "j = (?i + Suc k) mod ?len" "k < n" by auto
    then have "j \<noteq> ?i" using turn_distinct [OF i, of "Suc k"] Suc.prems(2) by simp
    then show "po_clients ?q ! j = po_clients p ! j" by simp
  qed
  have "snd (rotate_clients test n ?q) =
      first_answer test (po_clients ?q) (map (\<lambda>k. (nat (po_index ?q) + k) mod length (po_clients ?q)) [0..<n])"
    by (rule Suc.IH) (use Suc.prems(2) advance_cursor(1) [OF Suc.prems(1)] in simp_all)
  then have "snd (rotate_clients test n ?q) = first_answer test (po_clients ?q) (map (\<lambda>k. (?i + Suc k) mod ?len) [0..<n])"
    unfolding turn .
  moreover have "map (\<lambda>k. (?i + k) mod ?len) [0..<Suc n] = ?i # map (\<lambda>k. (?i + Suc k) mod ?len) [0..<n]"
    using i by (simp add: map_upt_Suc del: upt_Suc)
  ultimately show ?case
    unfolding rotate_unfold same by (auto simp: first_answer_Cons split: sum.splits)
qed

text \<open>
  Serving in turn: \<open>get_available_client\<close> answers like the plain search, from the cursor around the
  ring, for the first account that is not excluded and available; an exception of an account in front
  of it propagates, and there is no answer exactly if every account refuses.
\<close>

theorem available_client_search:
  "snd (get_available_client now exclude p) = first_answer (available_test now exclude) (po_clients p) (turn_order p)"
proof (cases "po_clients p = []")
  case False
  then show ?thesis
    using rotate_first_answer [OF cursor_ok_normalize, of p "length (po_clients p)"]
    by (simp add: get_available_client_def pick_client_def turn_order_def Let_def)
qed (simp add: get_available_client_def pick_client_def turn_order_def first_answer_def)

section \<open>No account is starved\<close>

fun serve :: "(time \<times> string list) list \<Rightarrow> pool \<Rightarrow> pool \<times> (pyerror + nat option) list" where
  \<comment> \<open>successive calls, each with its time and its excluded accounts\<close>
  "serve [] p = (p, [])"
| "serve ((now, exclude) # calls) p =
     (let (p1, r) = get_available_client now exclude p; (p2, rs) = serve calls p1 in (p2, r # rs))"

definition distance :: "pool \<Rightarrow> nat \<Rightarrow> nat" where
  \<comment> \<open>how many accounts are looked at before position \<open>i\<close>\<close>
  "distance p i = (let c = nat (po_index p) in if c \<le> i then i - c else i + length (po_clients p) - c)"

lemma distance_less: "cursor_ok p \<Longrightarrow> i < length (po_clients p) \<Longrightarrow> distance p i < length (po_clients p)"
  by (auto simp: distance_def cursor_ok_def Let_def)

lemma distance_advance:
  assumes "cursor_ok p" "i < length (po_clients p)" "nat (po_index p) \<noteq> i"
  shows "distance (advance test p) i < distance p i"
proof -
  let ?c = "nat (po_index p)" let ?n = "length (po_clients p)"
  have c: "?c < ?n" using assms by (auto simp: cursor_ok_def)
  have "(?c + 1) mod ?n = (if ?c + 1 < ?n then ?c + 1 else 0)" using c by (cases "?c + 1 = ?n") auto
  then show ?thesis
    using advance_cursor(2) [OF assms(1), of test] assms(2,3) c by (auto simp: distance_def Let_def)
qed

lemma rotate_progress:
  assumes "cursor_ok p" "i < length (po_clients p)" "distance p i < m" "snd (test (po_clients p ! i)) = Inr True"
  shows "snd (rotate_clients test m p) = Inr (Some i) \<or>
    (let p' = fst (rotate_clients test m p) in
      cursor_ok p' \<and> length (po_clients p') = length (po_clients p) \<and> po_clients p' ! i = po_clients p ! i \<and> distance p' i < distance p i)"
  using assms
proof (induction m arbitrary: p)
  case (Suc m)
  let ?q = "advance test p"
  show ?case
  proof (cases "nat (po_index p) = i")
    case True
    with Suc.prems show ?thesis unfolding rotate_unfold by simp
  next
    case False
    have q: "cursor_ok ?q" "length (po_clients ?q) = length (po_clients p)" "po_clients ?q ! i = po_clients p ! i" "distance ?q i < distance p i"
      using advance_cursor(1) distance_advance Suc.prems False by simp_all
    have "snd (rotate_clients test m ?q) = Inr (Some i) \<or>
      (let p' = fst (rotate_clients test m ?q) in
        cursor_ok p' \<and> length (po_clients p') = length (po_clients ?q) \<and> po_clients p' ! i = po_clients ?q ! i \<and> distance p' i < distance ?q i)"
      by (rule Suc.IH) (use q Suc.prems in simp_all)
    with q show ?thesis
      unfolding rotate_unfold by (auto simp: Let_def split: sum.splits)
  qed
qed simp

lemma pick_progress:
  assumes "i < length (po_clients p)" "snd (test (po_clients p ! i)) = Inr True"
  shows "snd (pick_client test p) = Inr (Some i) \<or>
    (let p' = fst (pick_client test p) in cursor_ok p' \<and> length (po_clients p') = length (po_clients p)
       \<and> po_clients p' ! i = po_clients p ! i \<and> distance p' i < distance (normalize_index p) i)"
proof -
  have "po_clients p \<noteq> []" using assms by auto
  then have "cursor_ok (normalize_index p)" by (rule cursor_ok_normalize)
  with rotate_progress [OF this, of i "length (po_clients p)" test] distance_less [OF this, of i] assms \<open>po_clients p \<noteq> []\<close>
  show ?thesis by (simp add: pick_client_def)
qed

lemma serve_reaches:
  assumes "distance (normalize_index p) i < length calls" "i < length (po_clients p)"
    and "\<And>now exclude. (now, exclude) \<in> set calls \<Longrightarrow> snd (available_test now exclude (po_clients p ! i)) = Inr True"
  shows "Inr (Some i) \<in> set (snd (serve calls p))"
  using assms
proof (induction calls arbitrary: p)
  case (Cons call calls)
  obtain now exclude where call: "call = (now, exclude)" by force
  let ?g = "get_available_client now exclude p"
  have t: "snd (available_test now exclude (po_clients p ! i)) = Inr True" using Cons.prems(3) call by simp
  have s: "set (snd (serve (call # calls) p)) = insert (snd ?g) (set (snd (serve calls (fst ?g))))"
    by (simp add: call split: prod.splits)
  show ?case
  proof (cases "snd ?g = Inr (Some i)")
    case False
    then have p': "cursor_ok (fst ?g)" "length (po_clients (fst ?g)) = length (po_clients p)" "po_clients (fst ?g) ! i = po_clients p ! i"
        "distance (fst ?g) i < distance (normalize_index p) i"
      using pick_progress [of i p "available_test now exclude"] t Cons.prems(2) by (simp_all add: get_available_client_def Let_def)
    have "normalize_index (fst ?g) = fst ?g" using p'(1) by (auto simp: normalize_index_def cursor_ok_def)
    then have "Inr (Some i) \<in> set (snd (serve calls (fst ?g)))"
      using Cons.IH [of "fst ?g"] p' Cons.prems by simp
    with s show ?thesis by simp
  qed (simp add: s)
qed simp

text \<open>
  C34. No account is starved: an account that is available and not excluded at every one of as many
  successive selections as the channel has accounts is chosen at least once, whatever the other accounts
  do in between.
\<close>

theorem every_account_served:
  assumes "length (po_clients p) \<le> length calls" "i < length (po_clients p)"
    and "\<forall>(now, exclude) \<in> set calls. snd (available_test now exclude (po_clients p ! i)) = Inr True"
  shows "Inr (Some i) \<in> set (snd (serve calls p))"
proof (rule serve_reaches)
  have "po_clients p \<noteq> []" using assms(2) by auto
  then show "distance (normalize_index p) i < length calls"
    using distance_less [OF cursor_ok_normalize, of p i] assms(1,2) by simp
qed (use assms in auto)

definition named_account :: "string \<Rightarrow> account_client" where
  "named_account u = account0\<lparr>ac_provider := (ac_provider account0)\<lparr>pv_username := u\<rparr>\<rparr>"

definition pool2 :: pool where
  "pool2 = \<lparr>po_name = ''acme'', po_clients = [(named_account ''a'')\<lparr>ac_disabled := True\<rparr>, named_account ''b'', named_account ''c''],
     po_index = 7, po_channel = \<lparr>ch_enabled = True, ch_priority = 0, ch_weight = 1\<rparr>, po_cache = [], po_tasks = []\<rparr>"

theorem every_account_served_witness:
  "Inr (Some 2) \<in> set (snd (serve [(10, []), (11, [''b'']), (12, [])] pool2))"
  by (rule every_account_served) code_simp+

section \<open>Rules for error kinds\<close>

lemma error_kind_action_fixed:
  "error_kind_action cal now (match_dict m) =
     \<lparr>fa_scope = ''account'', fa_seconds = 60, fa_permanent = False, fa_disable = False, fa_mode = ''account_seconds''\<rparr>"
  by (simp add: error_kind_action_def match_dict_def dget_or_def py_str_def int_value_def freeze_rule_to_action_def period_to_seconds_def
      FREEZE_OBJECTS_def strip_def rstrip_def lstrip_def is_space_def lower_def lower_char_def Let_def)

definition error_reason :: "channel_error \<Rightarrow> string" where
  "error_reason e = (let summary = summarize_freeze_reason (PStr (ce_detail e))
     in if summary \<noteq> [] then summary else ''channel_error:'' @ ce_kind e)"

lemma client_indexD: "client_index u cs = Some i \<Longrightarrow> i < length cs \<and> client_name (cs ! i) = u"
  by (induction cs arbitrary: i) (auto split: if_splits)

text \<open>
  A rule for an error kind is not obeyed: \<open>apply_channel_error\<close> reads the object, period and amount
  under keys that the result of \<open>match_freeze_rules\<close> does not have. So whatever the matching rule says (disable the
  channel, freeze one model, freeze until the month ends, do not freeze), an error that leaves the freeze to the
  rules freezes its account, if it is not frozen yet, for 60 seconds, and changes no other account and not the channel.
\<close>

theorem error_kind_rules_ignored:
  assumes "ce_freeze e = Unspecified" "u \<noteq> []" "match_error_kind cal now (ce_kind e) p = Some m"
    and "client_index u (po_clients p) = Some i" "0 \<le> now" "\<not> is_frozen now (po_clients p ! i)"
  shows "let p1 = fst (apply_channel_error cal now u (Some e) mid p)
    in po_clients p1 = (po_clients p)[i := (po_clients p ! i)\<lparr>ac_freeze := (ac_freeze (po_clients p ! i))\<lparr>fb_account :=
         \<lparr>fe_until = Some (now + 60), fe_reason = error_reason e, fe_category = category_for_kind (ce_kind e)\<rparr>\<rparr>\<rparr>]
     \<and> po_channel p1 = po_channel p \<and> (\<forall>t. is_frozen t (po_clients p1 ! i) \<longleftrightarrow> t < now + 60)"
proof -
  have i: "i < length (po_clients p)" using client_indexD [OF assms(4)] by simp
  have "apply_channel_error cal now u (Some e) mid p = apply_account_state now u (Some 60) (error_reason e) (category_for_kind (ce_kind e)) True p"
    using assms(1-3) by (simp add: apply_channel_error_def error_kind_action_fixed error_reason_def Let_def)
  then show ?thesis using assms(4-6) i
    by (simp add: apply_account_state_def freeze_account_def freeze_def until_of_def set_client_def schedule_def is_frozen_def entry_frozen_def Let_def)
qed

definition cal1 :: calendar where
  "cal1 = \<lparr>day_label = (\<lambda>t. ''2025-01-01''), to_midnight = (\<lambda>t. 3600), weekday = (\<lambda>t. 0), to_next_month = (\<lambda>t. 90000)\<rparr>"

definition disable_rule :: pyval where
  "disable_rule = PDict [(''condition'', PStr ''error_kind''), (''operator'', PStr ''==''), (''value'', PStr ''temporary_freeze''),
     (''freeze_object'', PStr ''channel''), (''freeze_period'', PStr ''disabled'')]"

definition pool_disable :: pool where
  "pool_disable = pool2\<lparr>po_cache := [(''acme'', 0, [(''freeze_policy'', PDict [(''enabled'', PBool True), (''rules'', PList [disable_rule])])])]\<rparr>"

theorem error_kind_rules_ignored_witness:
  "let e = TemporaryFreeze None ''WAF window'' None; p1 = fst (apply_channel_error cal1 50 ''b'' (Some e) None pool_disable)
   in fa_disable (fm_action (the (match_error_kind cal1 50 (ce_kind e) pool_disable)))
      \<and> is_frozen 100 (po_clients p1 ! 1) \<and> \<not> is_frozen 110 (po_clients p1 ! 1) \<and> po_channel p1 = po_channel pool_disable"
proof -
  let ?e = "TemporaryFreeze None ''WAF window'' None"
  have k: "ce_freeze ?e = Unspecified" "ce_kind ?e = ''temporary_freeze''" by (simp_all add: TemporaryFreeze_def error_of_def)
  have "map_option (fa_disable \<circ> fm_action) (match_error_kind cal1 50 ''temporary_freeze'' pool_disable) = Some True" by code_simp
  then obtain m where m: "match_error_kind cal1 50 ''temporary_freeze'' pool_disable = Some m" "fa_disable (fm_action m)" by auto
  have i: "client_index ''b'' (po_clients pool_disable) = Some 1" "\<not> is_frozen 50 (po_clients pool_disable ! 1)" by code_simp+
  let ?p1 = "fst (apply_channel_error cal1 50 ''b'' (Some ?e) None pool_disable)"
  have "po_channel ?p1 = po_channel pool_disable \<and> (\<forall>t. is_frozen t (po_clients ?p1 ! 1) \<longleftrightarrow> t < 50 + 60)"
    using error_kind_rules_ignored [of ?e "''b''" cal1 50 pool_disable m 1 None] k m i unfolding Let_def by fastforce
  then show ?thesis using k m by (simp add: Let_def)
qed

section \<open>Several instances\<close>

lemma freeze_account_entry:
  assumes "i < length (po_clients p)" "\<And>n. seconds = Some n \<Longrightarrow> 0 < n" "0 \<le> now"
  shows "freeze_account now i seconds reason (Some True) category p =
    (schedule [SetAccountCooldown (client_name (po_clients p ! i)) seconds reason category,
       PublishCooldown (broadcast_cooldown now (client_name (po_clients p ! i)) None seconds reason category p)]
     (set_client i ((po_clients p ! i)\<lparr>ac_freeze := (ac_freeze (po_clients p ! i))\<lparr>fb_account :=
        \<lparr>fe_until = until_of now seconds, fe_reason = reason, fe_category = category\<rparr>\<rparr>\<rparr>) p), True)"
  using assms(2,3) by (auto simp: freeze_account_def freeze_def until_of_def Let_def split: option.splits)

lemma client_index_update: "client_name c = client_name (cs ! i) \<Longrightarrow> client_index u (cs[i := c]) = client_index u cs"
proof (induction cs arbitrary: i)
  case (Cons x xs)
  then show ?case by (cases i) auto
qed simp

lemma publish_live:
  assumes "live conn"
  shows "publish now ev (conn, bus) = (conn, bus @ [\<lparr>msg_name = ev_provider ev @ '':'' @ ev_username ev, msg_version = now, msg_event = ev\<rparr>])"
proof -
  have "call (\<lambda>s. (s, ())) conn = (conn, Some ())" using assms by (simp add: live_def call_def)
  with assms show ?thesis by (simp add: publish_def live_def)
qed

lemma credential_error_step:
  fixes detail :: string and status :: "int option"
  assumes "client_index u (po_clients p) = Some i" "u \<noteq> []" "0 \<le> now"
  defines "e \<equiv> CredentialInvalid detail status"
  shows "apply_channel_error cal now u (Some e) mid p =
    (schedule [SetAccountCooldown u None (error_reason e) ''credential'', PublishCooldown (broadcast_cooldown now u None None (error_reason e) ''credential'' p)]
      (set_client i ((po_clients p ! i)\<lparr>ac_freeze := (ac_freeze (po_clients p ! i))\<lparr>fb_account :=
        \<lparr>fe_until = None, fe_reason = error_reason e, fe_category = ''credential''\<rparr>\<rparr>\<rparr>) p), ''freeze'')"
proof -
  have i: "i < length (po_clients p)" "client_name (po_clients p ! i) = u" using client_indexD [OF assms(1)] by auto
  have c: "ce_freeze e = Explicit None None" "category_for_kind (ce_kind e) = ''credential''"
    by (simp_all add: e_def CredentialInvalid_def error_of_def category_for_kind_def)
  note f = freeze_account_entry [OF i(1), of None now "error_reason e" "''credential''"]
  have "apply_channel_error cal now u (Some e) mid p = apply_account_state now u None (error_reason e) ''credential'' False p"
    using assms(2) c unfolding apply_channel_error_def error_reason_def Let_def option.case by (simp add: opt_str_def)
  then show ?thesis using f assms(1,3) i(2) by (simp add: apply_account_state_def until_of_def)
qed

lemma frozen_state:
  assumes "\<not> ac_disabled c" "fe_until (fb_account (ac_freeze c)) = None"
  shows "snd (state now c) = (if fe_category (fb_account (ac_freeze c)) = ''credential'' then CREDENTIAL_INVALID
     else if fe_category (fb_account (ac_freeze c)) = ''quota'' then QUOTA_EXHAUSTED else FROZEN)"
  using assms by (simp add: state_def is_frozen_def entry_frozen_def freeze_category_def cooldown_remaining_def)

lemma error_reason_nonempty: "error_reason e \<noteq> []"
  by (simp add: error_reason_def Let_def)

lemma set_client_nth [simp]: "i < length (po_clients p) \<Longrightarrow> po_clients (set_client i c p) ! i = c"
  "length (po_clients (set_client i c p)) = length (po_clients p)" "po_name (set_client i c p) = po_name p" "po_tasks (set_client i c p) = po_tasks p"
  "client_name c = client_name (po_clients p ! i) \<Longrightarrow> client_index u (po_clients (set_client i c p)) = client_index u (po_clients p)"
  by (simp_all add: set_client_def client_index_update)

lemma schedule_sel [simp]: "po_clients (schedule ts p) = po_clients p" "po_name (schedule ts p) = po_name p" "po_tasks (schedule ts p) = po_tasks p @ ts"
  by (simp_all add: schedule_def)

lemma freeze_permanent: "fst (freeze now ''account'' None None reason True category c) =
   c\<lparr>ac_freeze := (ac_freeze c)\<lparr>fb_account := \<lparr>fe_until = None, fe_reason = reason, fe_category = category\<rparr>\<rparr>\<rparr>"
  by (simp add: freeze_def until_of_def Let_def)

lemma unfreeze_account: "\<not> is_frozen now (fst (unfreeze t ''account'' None c))" if "0 \<le> now"
  using that by (simp add: unfreeze_def is_frozen_def entry_frozen_def no_freeze_def Let_def)

text \<open>
  An invalid credential is forgotten. A \<open>CredentialInvalid\<close> error puts the account into the state
  \<open>CREDENTIAL_INVALID\<close>, but the sender receives its own event (as does every other instance \<open>q\<close> of the channel, where
  the account is not disabled) and rebuilds the entry from Redis without the category: the state becomes \<open>FROZEN\<close>.
  The two background tasks are not ordered: if the event is handled before the cooldown is written, the account is not
  even frozen. (No cooldown was stored before, no other task is pending, no newer event has been seen.)
\<close>

theorem credential_state_lost:
  assumes "redis_store R" "live conn" "po_name p \<noteq> []" "u \<noteq> []" "client_index u (po_clients p) = Some i"
    and "\<not> ac_disabled (po_clients p ! i)" "po_tasks p = []" "0 \<le> now" "snd (get_account_cooldown_info R now (po_name p) u conn) = None"
    and "po_name q = po_name p" "client_index u (po_clients q) = Some j" "\<not> ac_disabled (po_clients q ! j)"
  shows "let p1 = fst (apply_channel_error cal now u (Some (CredentialInvalid detail status)) mid p);
       (conn1, bus1) = fold (run_task R now (po_name p)) (po_tasks p1) (conn, []);
       p2 = fst (snd (fold (dispatch R now) bus1 ([], p1, conn1)));
       (conn3, bus3) = run_task R now (po_name p) (last (po_tasks p1)) (conn, []);
       p3 = fst (snd (fold (dispatch R now) bus3 ([], p1, conn3)))
     in snd (state now (po_clients p1 ! i)) = CREDENTIAL_INVALID \<and> snd (state now (po_clients p2 ! i)) = FROZEN
        \<and> \<not> is_frozen now (po_clients p3 ! i)
        \<and> snd (state now (po_clients (fst (snd (fold (dispatch R now) bus1 ([], q, conn1)))) ! j)) = FROZEN
        \<and> \<not> is_frozen now (po_clients (fst (snd (fold (dispatch R now) bus3 ([], q, conn3)))) ! j)"
proof -
  let ?e = "CredentialInvalid detail status" let ?c = "po_clients p ! i"
  define p1 where "p1 = fst (apply_channel_error cal now u (Some ?e) mid p)"
  have i: "i < length (po_clients p)" "client_name ?c = u" using client_indexD [OF assms(5)] by auto
  define ev where "ev = broadcast_cooldown now u None None (error_reason ?e) ''credential'' p"
  have p1: "po_clients p1 ! i = ?c\<lparr>ac_freeze := (ac_freeze ?c)\<lparr>fb_account := \<lparr>fe_until = None, fe_reason = error_reason ?e, fe_category = ''credential''\<rparr>\<rparr>\<rparr>"
      "po_tasks p1 = [SetAccountCooldown u None (error_reason ?e) ''credential'', PublishCooldown ev]"
      "po_name p1 = po_name p" "client_index u (po_clients p1) = Some i" "length (po_clients p1) = length (po_clients p)"
    using credential_error_step [OF assms(5,4,8), of cal detail status mid] assms(5,7) i unfolding p1_def ev_def by simp_all
  have ev: "ev_provider ev = po_name p" "ev_username ev = u" "ev_model ev = None" by (simp_all add: ev_def broadcast_cooldown_def)
  define c1 where "c1 = set_account_cooldown R (po_name p) u None (error_reason ?e) ''credential'' conn"
  note rb = cooldown_info_back [OF assms(1-4), of None "''credential''" "error_reason ?e", folded c1_def, simplified]
  have info: "get_account_cooldown_info R now (po_name p) u conn = (conn, None)"
    using assms(9) by (simp add: get_info_live [OF assms(2)])
  have handle: "on_cooldown_event R now ev (p1, c1) = (apply_cooldown_event now u None None (error_reason ?e) '''' p1, c1)"
      "on_cooldown_event R now ev (p1, conn) = (clear_cooldown_event now u None p1, conn)"
      "on_cooldown_event R now ev (q, c1) = (apply_cooldown_event now u None None (error_reason ?e) '''' q, c1)"
      "on_cooldown_event R now ev (q, conn) = (clear_cooldown_event now u None q, conn)"
    using assms(3,4,10) p1(3) ev rb(2) info by (simp_all add: on_cooldown_event_def opt_str_def info_until_def)
  have run: "fold (run_task R now (po_name p)) (po_tasks p1) (conn, []) = (c1, [\<lparr>msg_name = po_name p @ '':'' @ u, msg_version = now, msg_event = ev\<rparr>])"
      "run_task R now (po_name p) (last (po_tasks p1)) (conn, []) = (conn, [\<lparr>msg_name = po_name p @ '':'' @ u, msg_version = now, msg_event = ev\<rparr>])"
    using publish_live [OF rb(1)] publish_live [OF assms(2)] ev p1(2) by (simp_all add: c1_def)
  have states: "snd (state now (po_clients p1 ! i)) = CREDENTIAL_INVALID"
      "snd (state now (po_clients (apply_cooldown_event now u None None (error_reason ?e) '''' p1) ! i)) = FROZEN"
      "\<not> is_frozen now (po_clients (clear_cooldown_event now u None p1) ! i)"
      "snd (state now (po_clients (apply_cooldown_event now u None None (error_reason ?e) '''' q) ! j)) = FROZEN"
      "\<not> is_frozen now (po_clients (clear_cooldown_event now u None q) ! j)"
    using frozen_state p1 i assms(6,8,11,12) client_indexD [OF assms(11)] unfreeze_account
    by (simp_all add: apply_cooldown_event_def clear_cooldown_event_def opt_str_def freeze_permanent Let_def)
  show ?thesis unfolding p1_def [symmetric] Let_def run using handle states by (simp add: dispatch_def)
qed

lemma conn_gw_empty: "snd (get_account_cooldown_info mem_redis now p u conn_gw) = None"
  unfolding get_info_live [OF live_gw] by (simp add: Let_def info_of_def conn_gw_def mem_ttl_def mem_has_def mem_empty_def)

theorem credential_state_lost_witness:
  "let p1 = fst (apply_channel_error cal1 50 ''b'' (Some (CredentialInvalid ''token revoked'' None)) None pool2);
       (conn1, bus1) = fold (run_task mem_redis 50 (po_name pool2)) (po_tasks p1) (conn_gw, []);
       p2 = fst (snd (fold (dispatch mem_redis 50) bus1 ([], p1, conn1)));
       (conn3, bus3) = run_task mem_redis 50 (po_name pool2) (last (po_tasks p1)) (conn_gw, []);
       p3 = fst (snd (fold (dispatch mem_redis 50) bus3 ([], p1, conn3)))
     in snd (state 50 (po_clients p1 ! 1)) = CREDENTIAL_INVALID \<and> snd (state 50 (po_clients p2 ! 1)) = FROZEN
        \<and> \<not> is_frozen 50 (po_clients p3 ! 1)
        \<and> snd (state 50 (po_clients (fst (snd (fold (dispatch mem_redis 50) bus1 ([], pool2, conn1)))) ! 1)) = FROZEN
        \<and> \<not> is_frozen 50 (po_clients (fst (snd (fold (dispatch mem_redis 50) bus3 ([], pool2, conn3)))) ! 1)"
  by (rule credential_state_lost [OF mem.redis_store_axioms live_gw _ _ _ _ _ _ conn_gw_empty])
    (simp_all add: pool2_def named_account_def account0_def provider0_def)

section \<open>Restart\<close>

lemma restore_accounts_live:
  assumes "live conn"
  shows "restore_accounts R now provider cs conn = (conn, map (\<lambda>c. case snd (get_account_cooldown_info R now provider (client_name c) conn) of
     None \<Rightarrow> c | Some i \<Rightarrow> restore_account now i c) cs)"
proof -
  have "fold (\<lambda>c (conn, acc). case get_account_cooldown_info R now provider (client_name c) conn of
         (conn1, None) \<Rightarrow> (conn1, acc @ [c]) | (conn1, Some i) \<Rightarrow> (conn1, acc @ [restore_account now i c])) cs (conn, xs)
     = (conn, xs @ map (\<lambda>c. case snd (get_account_cooldown_info R now provider (client_name c) conn) of
         None \<Rightarrow> c | Some i \<Rightarrow> restore_account now i c) cs)" for xs
    by (induction cs arbitrary: xs) (simp_all add: get_info_live [OF assms] split: option.split)
  then show ?thesis by (simp add: restore_accounts_def)
qed

lemma restore_model_account: "fb_account (ac_freeze (restore_model now ms c)) = fb_account (ac_freeze c)"
  by (auto simp: restore_model_def freeze_def set_freeze_state_raw_def until_of_def Let_def split: option.splits)

lemma restore_models_account: "fb_account (ac_freeze (fold (restore_model now) mss c)) = fb_account (ac_freeze c)"
  by (induction mss arbitrary: c) (simp_all add: restore_model_account)

lemma restore_steps_account:
  "i < length cs \<Longrightarrow> fb_account (ac_freeze (fold (\<lambda>(u, mss) cs. case client_index u cs of
     None \<Rightarrow> cs | Some j \<Rightarrow> cs[j := fold (restore_model now) mss (cs ! j)]) mm cs ! i)) = fb_account (ac_freeze (cs ! i))"
proof (induction mm arbitrary: cs)
  case (Cons x mm)
  obtain u mss where x: "x = (u, mss)" by force
  show ?case
  proof (cases "client_index u cs")
    case (Some j)
    then have "j < length cs" using client_indexD by blast
    with Cons.IH [of "cs[j := fold (restore_model now) mss (cs ! j)]"] Cons.prems Some x
    show ?thesis by (cases "j = i") (simp_all add: restore_models_account)
  qed (use Cons x in simp)
qed simp

text \<open>
  A freeze survives a restart: once the cooldown of an account has been written, a freshly loaded
  pool that restores from Redis has the account frozen with the same remaining time, permanence, reason
  and category, whatever else Redis holds.
\<close>

theorem freeze_survives_restart:
  assumes "redis_store R" "live conn" "po_name p \<noteq> []" "u \<noteq> []" "client_index u (po_clients p) = Some i" "0 \<le> now"
    and "\<forall>n. seconds = Some n \<longrightarrow> 0 < n" "cat \<noteq> [] \<or> \<not> looks_json reason \<and> \<not> py_float_ok reason"
  shows "fb_account (ac_freeze (po_clients (fst (restore_cooldowns R now (p, fst (run_task R now (po_name p) (SetAccountCooldown u seconds reason cat) (conn, []))))) ! i)) =
     \<lparr>fe_until = map_option (\<lambda>n. now + of_int n) seconds, fe_reason = reason, fe_category = cat\<rparr>"
proof -
  define c1 where "c1 = set_account_cooldown R (po_name p) u seconds reason cat conn"
  note rb = cooldown_info_back [OF assms(1-4,7,8), folded c1_def]
  have i: "i < length (po_clients p)" "client_name (po_clients p ! i) = u" using client_indexD [OF assms(5)] by auto
  let ?info = "\<lparr>ci_until = map_option (\<lambda>n. now + of_int n) seconds, ci_remaining = seconds, ci_reason = reason, ci_category = cat, ci_permanent = (seconds = None)\<rparr>"
  have acc: "fb_account (ac_freeze (restore_account now ?info c)) = \<lparr>fe_until = map_option (\<lambda>n. now + of_int n) seconds, fe_reason = reason, fe_category = cat\<rparr>" for c
    using assms(6,7) by (cases seconds) (auto simp: restore_account_def freeze_permanent set_freeze_state_raw_def Let_def)
  show ?thesis
    using restore_steps_account [of i "snd (restore_accounts R now (po_name p) (po_clients p) c1)" now] i rb acc
    by (simp add: restore_cooldowns_def restore_accounts_live [OF rb(1)] c1_def [symmetric] split: prod.split)
qed

theorem freeze_survives_restart_witness:
  "fb_account (ac_freeze (po_clients (fst (restore_cooldowns mem_redis 50 (pool2, fst (run_task mem_redis 50 (po_name pool2)
      (SetAccountCooldown ''c'' (Some 90) ''http_429'' ''quota'') (conn_gw, []))))) ! 2)) =
   \<lparr>fe_until = Some 140, fe_reason = ''http_429'', fe_category = ''quota''\<rparr>"
  using freeze_survives_restart [OF mem.redis_store_axioms live_gw, of pool2 "''c''" 2 50 "Some 90" "''quota''" "''http_429''"]
  by (simp add: pool2_def named_account_def account0_def provider0_def)

section \<open>Model freezes reach every instance\<close>

lemma model_info_back:
  assumes "redis_store R" "live c" "p \<noteq> []" "u \<noteq> []" "m \<noteq> []" "\<forall>n. seconds = Some n \<longrightarrow> 0 < n"
  shows "live (set_account_model_cooldown R p u m seconds reason c)"
    "get_account_model_cooldown_info R now p u m (set_account_model_cooldown R p u m seconds reason c) =
     (set_account_model_cooldown R p u m seconds reason c,
      Some \<lparr>ci_until = map_option (\<lambda>n. now + of_int n) seconds, ci_remaining = seconds, ci_reason = reason,
           ci_category = '''', ci_permanent = (seconds = None)\<rparr>)"
proof -
  obtain c' where c': "set_account_model_cooldown R p u m seconds reason c = c'" "live c'" "conn_prefix c' = conn_prefix c"
      "r_get R (conn_store c') (be_key (conn_prefix c) (model_cooldown_key p u m)) = Some (HStr reason)"
      "r_ttl R (conn_store c') (be_key (conn_prefix c) (model_cooldown_key p u m)) = (case seconds of None \<Rightarrow> -1 | Some n \<Rightarrow> n)"
    using redis_store.model_cooldown_read_back [OF assms(1-5), of seconds reason] assms(6) by blast
  show "live (set_account_model_cooldown R p u m seconds reason c)"
    "get_account_model_cooldown_info R now p u m (set_account_model_cooldown R p u m seconds reason c) =
     (set_account_model_cooldown R p u m seconds reason c,
      Some \<lparr>ci_until = map_option (\<lambda>n. now + of_int n) seconds, ci_remaining = seconds, ci_reason = reason,
           ci_category = '''', ci_permanent = (seconds = None)\<rparr>)"
    using c'(2-5) assms(6) keys_agree [OF assms(2)] unfolding c'(1)
    by (auto simp: get_account_model_cooldown_info_def read_value_def stored_text_def info_of_def split: option.splits)
qed

lemma apply_model_event:
  assumes "client_index u (po_clients q) = Some j" "m \<noteq> []" "\<forall>n. seconds = Some n \<longrightarrow> 0 < n"
  shows "is_model_frozen t m (po_clients (apply_cooldown_event now u (Some m) (map_option (\<lambda>n. now + of_int n) seconds) reason category q) ! j)
     = (case seconds of None \<Rightarrow> True | Some n \<Rightarrow> t < now + of_int n)"
  using client_indexD [OF assms(1)] assms
  by (auto simp: apply_cooldown_event_def opt_str_def freeze_def set_freeze_state_raw_def until_of_def is_model_frozen_def entry_frozen_def Let_def
      split: option.splits)

text \<open>
  A model freeze reaches every instance: its task writes Redis before it publishes, so an instance
  that handles the message, its own included, has the model frozen for exactly the requested time,
  whatever it knew before.
\<close>

theorem model_freeze_reaches:
  assumes "redis_store R" "live conn" "po_name p \<noteq> []" "u \<noteq> []" "m \<noteq> []" "\<forall>n. seconds = Some n \<longrightarrow> 0 < n"
    and "freeze_account_model now u m seconds reason refresh cat p = (p1, True)"
    and "(conn1, bus) = run_task R now (po_name p) (last (po_tasks p1)) (conn, [])"
    and "po_name q = po_name p" "client_index u (po_clients q) = Some j"
  shows "is_model_frozen t m (po_clients (fst (snd (fold (dispatch R now) bus ([], q, conn1)))) ! j) =
     (case seconds of None \<Rightarrow> True | Some n \<Rightarrow> t < now + of_int n)"
proof -
  define ev where "ev = broadcast_cooldown now u (Some m) seconds reason cat p"
  have task: "last (po_tasks p1) = FreezeModelAsync u m seconds reason ev"
    using assms(7) unfolding freeze_account_model_def Let_def ev_def
    by (auto simp: schedule_def split: option.splits prod.splits bool.splits)
  have ev: "ev_provider ev = po_name p" "ev_username ev = u" "ev_model ev = Some m" "\<not> ev_cleared ev" by (simp_all add: ev_def broadcast_cooldown_def)
  define c1 where "c1 = set_account_model_cooldown R (po_name p) u m seconds reason conn"
  note rb = model_info_back [OF assms(1-6), where reason = reason, folded c1_def]
  have run: "conn1 = c1" "bus = [\<lparr>msg_name = po_name p @ '':'' @ u, msg_version = now, msg_event = ev\<rparr>]"
    using assms(8) publish_live [OF rb(1)] ev unfolding task by (simp_all add: c1_def)
  have until: "info_until \<lparr>ci_until = map_option (\<lambda>n. now + of_int n) seconds, ci_remaining = seconds, ci_reason = reason, ci_category = '''',
      ci_permanent = (seconds = None)\<rparr> = map_option (\<lambda>n. now + of_int n) seconds"
    by (simp add: info_until_def split: option.split)
  have "on_cooldown_event R now ev (q, c1) = (apply_cooldown_event now u (Some m) (map_option (\<lambda>n. now + of_int n) seconds) reason '''' q, c1)"
    using assms(3-5,9) ev rb(2) by (simp add: on_cooldown_event_def opt_str_def until)
  then show ?thesis using apply_model_event [OF assms(10,5,6)] by (simp add: run dispatch_def)
qed

theorem model_freeze_reaches_witness:
  "let p1 = fst (freeze_account_model 50 ''b'' ''gpt'' (Some 90) ''http_403'' (Some True) '''' pool2);
       (conn1, bus) = run_task mem_redis 50 (po_name pool2) (last (po_tasks p1)) (conn_gw, [])
   in is_model_frozen 100 ''gpt'' (po_clients (fst (snd (fold (dispatch mem_redis 50) bus ([], pool2, conn1)))) ! 1)"
proof -
  define p1 where "p1 = fst (freeze_account_model 50 ''b'' ''gpt'' (Some 90) ''http_403'' (Some True) '''' pool2)"
  have changed: "snd (freeze_account_model 50 ''b'' ''gpt'' (Some 90) ''http_403'' (Some True) '''' pool2)" by code_simp
  then have "freeze_account_model 50 ''b'' ''gpt'' (Some 90) ''http_403'' (Some True) '''' pool2 = (p1, True)"
    by (simp add: p1_def prod_eq_iff)
  moreover have "client_index ''b'' (po_clients pool2) = Some 1" by code_simp
  moreover have "po_name pool2 = ''acme''" by (simp add: pool2_def)
  ultimately show ?thesis
    unfolding p1_def [symmetric] Let_def
    using model_freeze_reaches [OF mem.redis_store_axioms live_gw, of pool2 "''b''" "''gpt''" "Some 90" 50 "''http_403''" "Some True" "''''" p1
        _ _ pool2 1 100]
    by (simp split: prod.split)
qed

end
