(* ===== verification/Lub_Request.thy ===== *)
theory Lub_Request
  imports Lub_ManagerProps Lub_ApiKey
begin

text \<open>
  \<open>server/request_reservations.py\<close>: the handles through which the request pipeline settles, rolls back
  and releases what it has reserved. \<open>ApiKeyReservation\<close> wraps the lease of an API key for the whole
  request, \<open>CandidateReservation\<close> the lease of one account for one attempt. A handle works on the state of
  the limit manager, the account and the lease stack of the task, the \<open>world\<close> below.

  The lease object is shared between the handle and the account's dictionary of leases: settling it
  through the handle updates both.
\<close>

section \<open>ApiKeyReservation\<close>

record key_reservation =
  kr_api_key :: "string option"
  kr_lease :: "key_lease option"
  kr_released :: bool
  kr_committed :: bool

definition key_reservation_acquire ::
  "'s redis \<Rightarrow> calendar \<Rightarrow> (string \<Rightarrow> string) \<Rightarrow> time \<Rightarrow> string \<Rightarrow> string option \<Rightarrow> bool \<Rightarrow> string option \<Rightarrow> pydict \<Rightarrow> 's limiter
     \<Rightarrow> 's limiter \<times> (denial + key_reservation)" where
  "key_reservation_acquire R cal sha now uuid api_key enabled client_ip conf L =
     (case opt_str api_key of
        Some k \<Rightarrow>
          (if \<not> enabled then (L, Inr \<lparr>kr_api_key = None, kr_lease = None, kr_released = False, kr_committed = False\<rparr>)
           else (case key_acquire R cal sha now uuid k client_ip conf L of
                   (L1, Inl d) \<Rightarrow> (L1, Inl d)
                 | (L1, Inr l) \<Rightarrow> (L1, Inr \<lparr>kr_api_key = Some k, kr_lease = Some l, kr_released = False, kr_committed = False\<rparr>)))
      | None \<Rightarrow> (L, Inr \<lparr>kr_api_key = None, kr_lease = None, kr_released = False, kr_committed = False\<rparr>))"

definition key_reservation_commit :: "key_reservation \<Rightarrow> key_reservation" where
  "key_reservation_commit h = h\<lparr>kr_committed := True\<rparr>"

definition key_reservation_release :: "'s redis \<Rightarrow> 's limiter \<times> key_reservation \<Rightarrow> 's limiter \<times> key_reservation" where
  "key_reservation_release R st =
     (case st of (L, h) \<Rightarrow>
       if kr_released h then (L, h)
       else (key_release R (kr_lease h) L, h\<lparr>kr_released := True, kr_lease := None\<rparr>))"

section \<open>CandidateReservation\<close>

type_synonym 's world = "('s mgr \<times> account_client) \<times> string list"

record candidate =
  cd_client :: bool
  cd_committed :: bool
  cd_rolled_back :: bool
  cd_released :: bool
  cd_settled :: bool
  cd_lease :: "limit_lease option"

definition new_candidate :: candidate where
  "new_candidate = \<lparr>cd_client = True, cd_committed = False, cd_rolled_back = False, cd_released = False, cd_settled = False, cd_lease = None\<rparr>"

definition usage_total_tokens :: "pyval \<Rightarrow> int" where
  "usage_total_tokens usage = (case usage of
      PDict d \<Rightarrow> (case List.map_filter (\<lambda>k. if truthy (dget d k) then (case py_int (dget d k) of Inr n \<Rightarrow> Some (max 0 n) | Inl _ \<Rightarrow> None) else None)
                      [''total_tokens'', ''tokens'', ''total''] of [] \<Rightarrow> 0 | n # _ \<Rightarrow> n)
    | _ \<Rightarrow> 0)"

definition capture_lease :: "'s world \<Rightarrow> candidate \<Rightarrow> limit_lease option" where
  "capture_lease w h = (case cd_lease h of
      Some l \<Rightarrow> Some l
    | None \<Rightarrow> if cd_client h then (case w of ((m, a), task) \<Rightarrow> current_limit_lease task a) else None)"

definition captured_candidate :: "'s world \<Rightarrow> candidate" where
  \<comment> \<open>the media and speech loops call \<open>_capture_lease\<close> as soon as the handle is made; the chat loop leaves that to the first use\<close>
  "captured_candidate w = new_candidate\<lparr>cd_lease := capture_lease w new_candidate\<rparr>"

definition share_lease :: "limit_lease \<Rightarrow> account_client \<Rightarrow> account_client" where
  \<comment> \<open>the account's dictionary holds the same object\<close>
  "share_lease l a = (if map_of (ac_limit_leases a) (lease_id l) = None then a
     else a\<lparr>ac_limit_leases := dset (ac_limit_leases a) (lease_id l) l\<rparr>)"

record moment =
  mo_now :: time
  mo_deadline :: "int option"

definition settle :: "'s redis \<Rightarrow> calendar \<Rightarrow> moment \<Rightarrow> pyval \<Rightarrow> 's world \<times> candidate \<Rightarrow> 's world \<times> candidate" where
  "settle R cal t usage st =
     (case st of (w, h) \<Rightarrow>
       if cd_settled h \<or> cd_rolled_back h then (w, h)
       else (case capture_lease w h of
               None \<Rightarrow> (w, h\<lparr>cd_settled := True\<rparr>)
             | Some l \<Rightarrow> (case w of ((m, a), task) \<Rightarrow>
                 (case mgr_reconcile R cal (mo_now t) (mo_deadline t) (usage_total_tokens usage) (m, l) of
                    ((m1, l1), _) \<Rightarrow> (((m1, share_lease l1 a), task), h\<lparr>cd_lease := Some l1, cd_settled := True\<rparr>)))))"

definition candidate_commit :: "'s redis \<Rightarrow> calendar \<Rightarrow> moment \<Rightarrow> pyval \<Rightarrow> 's world \<times> candidate \<Rightarrow> 's world \<times> candidate" where
  "candidate_commit R cal t usage st = settle R cal t usage (apsnd (\<lambda>h. h\<lparr>cd_committed := True\<rparr>) st)"

definition keep_served_usage :: "'s redis \<Rightarrow> calendar \<Rightarrow> moment \<Rightarrow> pyval \<Rightarrow> 's world \<times> candidate \<Rightarrow> 's world \<times> candidate" where
  "keep_served_usage R cal t usage st = settle R cal t usage (apsnd (\<lambda>h. h\<lparr>cd_committed := True\<rparr>) st)"

definition candidate_release :: "'s redis \<Rightarrow> moment \<Rightarrow> 's world \<times> candidate \<Rightarrow> 's world \<times> candidate" where
  \<comment> \<open>\<open>release\<close> and \<open>_release_concurrency\<close>\<close>
  "candidate_release R t st =
     (case st of (w, h) \<Rightarrow>
       if cd_released h then (w, h)
       else (if cd_client h then account_release R (mo_deadline t) w else w, h\<lparr>cd_released := True, cd_client := False\<rparr>))"

definition candidate_rollback :: "'s redis \<Rightarrow> calendar \<Rightarrow> moment \<Rightarrow> 's world \<times> candidate \<Rightarrow> 's world \<times> candidate" where
  "candidate_rollback R cal t st =
     (case st of (w, h) \<Rightarrow>
       if cd_rolled_back h \<or> cd_settled h then candidate_release R t (w, h)
       else (let h1 = h\<lparr>cd_rolled_back := True\<rparr>
             in case capture_lease w h1 of
                  None \<Rightarrow> candidate_release R t (w, h1)
                | Some l \<Rightarrow> (case w of ((m, a), task) \<Rightarrow>
                    (case mgr_rollback R cal (mo_now t) (mo_deadline t) (m, l) of
                       ((m1, l1), _) \<Rightarrow> candidate_release R t (((m1, share_lease l1 a), task), h1\<lparr>cd_lease := Some l1\<rparr>)))))"

datatype handle_op = Commit moment pyval | KeepServed moment pyval | Rollback moment | Release moment

fun handle_step :: "'s redis \<Rightarrow> calendar \<Rightarrow> handle_op \<Rightarrow> 's world \<times> candidate \<Rightarrow> 's world \<times> candidate" where
  "handle_step R cal (Commit t usage) st = candidate_commit R cal t usage st"
| "handle_step R cal (KeepServed t usage) st = keep_served_usage R cal t usage st"
| "handle_step R cal (Rollback t) st = candidate_rollback R cal t st"
| "handle_step R cal (Release t) st = candidate_release R t st"

definition run_handle :: "'s redis \<Rightarrow> calendar \<Rightarrow> handle_op list \<Rightarrow> 's world \<times> candidate \<Rightarrow> 's world \<times> candidate" where
  "run_handle R cal ops st = fold (handle_step R cal) ops st"

section \<open>Properties\<close>

fun release_moment :: "handle_op \<Rightarrow> moment option" where
  \<comment> \<open>the operations that give the concurrency slot back\<close>
  "release_moment (Rollback t) = Some t"
| "release_moment (Release t) = Some t"
| "release_moment _ = None"

abbreviation decided :: "candidate \<Rightarrow> bool" where
  "decided h \<equiv> cd_settled h \<or> cd_rolled_back h"

lemma step_decided:
  assumes "decided h"
  shows "fst (handle_step R cal oper (w, h)) = (case release_moment oper of None \<Rightarrow> w | Some t \<Rightarrow> fst (candidate_release R t (w, h)))"
    "decided (snd (handle_step R cal oper (w, h)))" "cd_client (snd (handle_step R cal oper (w, h))) = (cd_client h \<and> (release_moment oper = None \<or> cd_released h))"
    "cd_released (snd (handle_step R cal oper (w, h))) = (cd_released h \<or> release_moment oper \<noteq> None)"
  using assms
  by (cases oper; auto simp: candidate_commit_def keep_served_usage_def settle_def candidate_rollback_def candidate_release_def split: if_splits)+

definition inert :: "candidate \<Rightarrow> bool" where
  \<comment> \<open>nothing is left that the handle could give back\<close>
  "inert h \<longleftrightarrow> cd_released h \<and> \<not> cd_client h \<and> (decided h \<or> cd_lease h = None)"

lemma step_inert:
  assumes "inert h"
  shows "fst (handle_step R cal oper (w, h)) = w \<and> inert (snd (handle_step R cal oper (w, h)))"
  using assms
  by (cases oper; auto simp: inert_def candidate_commit_def keep_served_usage_def settle_def candidate_rollback_def candidate_release_def
      capture_lease_def split: if_splits option.splits)

lemma run_inert: "inert h \<Longrightarrow> fst (fold (handle_step R cal) ops (w, h)) = w"
proof (induction ops arbitrary: w h)
  case (Cons oper ops)
  show ?case using step_inert [OF Cons.prems, of R cal oper w] Cons.IH
    by (cases "handle_step R cal oper (w, h)") simp
qed simp

lemma release_inert: "\<not> cd_released h \<Longrightarrow> decided h \<or> cd_lease h = None \<Longrightarrow> inert (snd (candidate_release R t (w, h)))"
  by (auto simp: inert_def candidate_release_def)

lemma run_decided:
  assumes "decided h" "cd_client h" "\<not> cd_released h"
  shows "fst (fold (handle_step R cal) ops (w, h)) =
    (case List.map_filter release_moment ops of [] \<Rightarrow> w | t # _ \<Rightarrow> account_release R (mo_deadline t) w)"
  using assms
proof (induction ops arbitrary: w h)
  case (Cons oper ops)
  obtain w1 h1 where s: "handle_step R cal oper (w, h) = (w1, h1)" by (cases "handle_step R cal oper (w, h)")
  note d = step_decided [OF Cons.prems(1), of R cal oper w, unfolded s fst_conv snd_conv]
  show ?case
  proof (cases "release_moment oper")
    case None
    with d Cons.prems have "w1 = w" "decided h1" "cd_client h1" "\<not> cd_released h1" by auto
    then show ?thesis using Cons.IH [of h1 w] None s by (simp add: List.map_filter_simps)
  next
    case (Some t)
    with d Cons.prems have "w1 = account_release R (mo_deadline t) w" "inert h1" by (auto simp: candidate_release_def inert_def)
    then show ?thesis using run_inert [of h1 R cal ops w1] Some s by (simp add: List.map_filter_simps)
  qed
qed (simp add: List.map_filter_simps)

text \<open>
  C18. A handle acts once: whatever sequence of commits, rollbacks and releases the pipeline calls on the
  handle of an attempt, the first call alone decides how the reservation is settled, and the concurrency
  slot is given back exactly once, at the first call that releases. Nothing else changes the ledgers, the
  account or the manager.
\<close>

theorem handle_acts_once:
  "fst (run_handle R cal (oper # ops) (w, new_candidate)) =
     (let w1 = fst (handle_step R cal oper (w, new_candidate))
      in case (release_moment oper, List.map_filter release_moment ops) of
           (None, t # _) \<Rightarrow> account_release R (mo_deadline t) w1
         | _ \<Rightarrow> w1)"
proof -
  obtain w1 h1 where s: "handle_step R cal oper (w, new_candidate) = (w1, h1)" by (cases "handle_step R cal oper (w, new_candidate)")
  have run: "fst (run_handle R cal (oper # ops) (w, new_candidate)) = fst (fold (handle_step R cal) ops (w1, h1))"
    by (simp add: run_handle_def s)
  show ?thesis
  proof (cases "release_moment oper")
    case None
    have "decided h1 \<and> cd_client h1 \<and> \<not> cd_released h1"
      using None s
      by (cases oper; auto simp: new_candidate_def candidate_commit_def keep_served_usage_def settle_def split: option.splits prod.splits)
    then show ?thesis using run_decided [of h1 R cal ops w1] None by (simp add: run s split: list.split)
  next
    case (Some t)
    have "inert h1"
      using Some s
      by (cases oper; auto simp: new_candidate_def candidate_rollback_def candidate_release_def inert_def Let_def split: option.splits prod.splits)
    then show ?thesis using run_inert [of h1 R cal ops w1] Some by (simp add: run s)
  qed
qed

text \<open>
  A handle whose lease was captured at once behaves like one whose lease is captured at its first use, provided
  that use settles or rolls back, which is how the media and speech loops use it.
\<close>

lemma captured_like_new:
  assumes "\<forall>t. oper \<noteq> Release t"
  shows "run_handle R cal (oper # ops) (w, captured_candidate w) = run_handle R cal (oper # ops) (w, new_candidate)"
proof -
  have "handle_step R cal oper (w, captured_candidate w) = handle_step R cal oper (w, new_candidate)"
    using assms
    by (cases oper; cases "capture_lease w new_candidate";
        simp add: captured_candidate_def candidate_commit_def keep_served_usage_def settle_def candidate_rollback_def
          capture_lease_def new_candidate_def Let_def split_def)
  then show ?thesis by (simp add: run_handle_def)
qed

end
