(* ===== verification/Lub_Retry.thy ===== *)
theory Lub_Retry
  imports Lub_Reason
begin

text \<open>
  \<open>server/retry_policy.py\<close>: what a failed attempt means. Error bodies are parsed, over-long inputs are
  recognised in the dialects of the upstreams and brought to one form, and a failure is classified: try
  another candidate, pass the error on, end the stream, stop.

  Texts are UTF-8 byte strings, lower case is that of ASCII; the regular expressions work on code points.
\<close>

section \<open>Error bodies\<close>

record error_fields =
  ef_type :: string
  ef_code :: string
  ef_param :: string
  ef_message :: string

definition lower_field :: "pydict \<Rightarrow> string \<Rightarrow> string" where
  \<comment> \<open>\<open>str(d.get(k) or "").lower()\<close>\<close>
  "lower_field d k = lower (py_str (py_or (dget d k) (PStr '''')))"

definition fields_of :: "pyval \<Rightarrow> pyerror + error_fields" where
  \<comment> \<open>\<open>data.get\<close> of anything but a dictionary raises\<close>
  "fields_of data = (case data of
      PDict d \<Rightarrow> Inr (case dget d ''error'' of
          PDict e \<Rightarrow> \<lparr>ef_type = lower_field e ''type'', ef_code = lower_field e ''code'', ef_param = lower_field e ''param'',
                      ef_message = lower (py_str (py_or (dget e ''message'') data))\<rparr>
        | _ \<Rightarrow> \<lparr>ef_type = lower_field d ''type'', ef_code = lower_field d ''code'', ef_param = lower_field d ''param'',
                ef_message = lower (py_str data)\<rparr>)
    | _ \<Rightarrow> Inl AttributeError)"

definition parse_error_detail :: "pyval \<Rightarrow> pyerror + error_fields" where
  "parse_error_detail detail = (case detail of
      PDict _ \<Rightarrow> fields_of detail
    | PStr t \<Rightarrow> (case json_loads t of
        Some data \<Rightarrow> fields_of data
      | None \<Rightarrow> Inr \<lparr>ef_type = '''', ef_code = '''', ef_param = '''', ef_message = lower t\<rparr>)
    | _ \<Rightarrow> Inr \<lparr>ef_type = '''', ef_code = '''', ef_param = '''', ef_message = lower (py_str detail)\<rparr>)"

definition as_items :: "pyval \<Rightarrow> pyval list" where
  \<comment> \<open>a text or a number counts as a list of one; \<open>bool\<close> is an \<open>int\<close>\<close>
  "as_items v = (case v of PStr _ \<Rightarrow> [v] | PInt _ \<Rightarrow> [v] | PBool _ \<Rightarrow> [v] | PList xs \<Rightarrow> xs | _ \<Rightarrow> [])"

definition as_lower_str_list :: "pyval \<Rightarrow> string list" where
  "as_lower_str_list v = map lower (filter (\<lambda>t. t \<noteq> []) (map (strip \<circ> py_str) (as_items v)))"

definition as_int_set :: "pyval \<Rightarrow> int list" where
  "as_int_set v = List.map_filter (\<lambda>x. case py_int x of Inr n \<Rightarrow> Some n | Inl _ \<Rightarrow> None) (as_items v)"

definition PARAMETER_MARKERS :: "string list" where
  "PARAMETER_MARKERS =
    [''invalid_request_error'', ''invalid_request'', ''invalid parameter'', ''invalid_param'', ''unsupported parameter'',
     ''unsupported_param'', ''unsupported value'', ''invalid value'', ''invalid messages'', ''invalid message'',
     ''invalid tools'', ''invalid tool'', ''invalid schema'', ''json schema'', ''context_too_large'',
     ''context_length_exceeded'', ''context window'', ''context length'', ''maximum context'', ''too many tokens'',
     ''max tokens'', ''token limit'', ''request too large'', ''payload too large'']"

definition haystack :: "error_fields \<Rightarrow> string" where
  "haystack e = ef_type e @ '' '' @ ef_code e @ '' '' @ ef_param e @ '' '' @ ef_message e"

definition is_protocol_parameter_error :: "error_fields \<Rightarrow> bool" where
  "is_protocol_parameter_error e \<longleftrightarrow> ef_param e \<noteq> [] \<or> (\<exists>mk \<in> set PARAMETER_MARKERS. contains mk (haystack e))"

definition rule_list :: "pydict \<Rightarrow> string \<Rightarrow> string list" where
  "rule_list rules k = as_lower_str_list (dget rules k)"

definition is_non_retryable_upstream_error :: "int \<Rightarrow> pyval \<Rightarrow> pydict \<Rightarrow> pyerror + bool" where
  "is_non_retryable_upstream_error status detail rules = (case parse_error_detail detail of
      Inl e \<Rightarrow> Inl e
    | Inr e \<Rightarrow> Inr (is_protocol_parameter_error e \<and>
        (status \<in> set (as_int_set (dget rules ''status_codes''))
         \<or> (ef_type e \<noteq> [] \<and> ef_type e \<in> set (rule_list rules ''types''))
         \<or> (ef_code e \<noteq> [] \<and> ef_code e \<in> set (rule_list rules ''codes''))
         \<or> (ef_param e \<noteq> [] \<and> ef_param e \<in> set (rule_list rules ''params''))
         \<or> (\<exists>mk \<in> set (rule_list rules ''markers''). contains mk (haystack e)))))"

section \<open>Regular expressions\<close>

text \<open>
  The constructs the patterns use, on lists of code points. A match yields all ways to match a prefix in
  the order in which Python's engine tries them: the rest of the text and the text of the group.
\<close>

datatype rx =
    RLit "string list"
  | ROpt rx
  | RAlt rx rx
  | RSeq rx rx
  | RLazy "string \<Rightarrow> bool" nat
  | RGreedy "string \<Rightarrow> bool" nat
  | RGroup rx

definition run_length :: "(string \<Rightarrow> bool) \<Rightarrow> string list \<Rightarrow> nat" where
  "run_length cls s = length (takeWhile cls s)"

primrec rx_match :: "rx \<Rightarrow> string list \<Rightarrow> (string list \<times> string list option) list" where
  "rx_match (RLit w) s = (if map lower (take (length w) s) = w then [(drop (length w) s, None)] else [])"
| "rx_match (ROpt x) s = rx_match x s @ [(s, None)]"
| "rx_match (RAlt x y) s = rx_match x s @ rx_match y s"
| "rx_match (RSeq x y) s = concat (map (\<lambda>(r, g). map (\<lambda>(r', g'). (r', if g' = None then g else g')) (rx_match y r)) (rx_match x s))"
| "rx_match (RLazy cls n) s = map (\<lambda>k. (drop k s, None)) [0..<Suc (min n (run_length cls s))]"
| "rx_match (RGreedy cls n) s = map (\<lambda>k. (drop k s, None)) (rev [n..<Suc (run_length cls s)])"
| "rx_match (RGroup x) s = map (\<lambda>(r, g). (r, Some (take (length s - length r) s))) (rx_match x s)"

fun rx_search :: "rx \<Rightarrow> string list \<Rightarrow> string list option" where
  \<comment> \<open>the group of the leftmost match\<close>
  "rx_search x s = (case rx_match x s of
      (r, g) # _ \<Rightarrow> g
    | [] \<Rightarrow> (case s of [] \<Rightarrow> None | _ # s' \<Rightarrow> rx_search x s'))"

declare rx_search.simps [simp del]

definition lit :: "string \<Rightarrow> rx" where "lit t = RLit (code_points t)"

definition seq :: "rx list \<Rightarrow> rx" where "seq xs = foldr RSeq xs (RLit [])"

definition rx_digit :: "string \<Rightarrow> bool" where
  "rx_digit c \<longleftrightarrow> length c = 1 \<and> digit_val (hd c) \<noteq> None"

definition rx_ws :: "string \<Rightarrow> bool" where
  "rx_ws c \<longleftrightarrow> length c = 1 \<and> is_space (hd c)"

definition utf8_text :: "nat list \<Rightarrow> string" where "utf8_text bs = map char_of bs"

abbreviation no_digits :: "nat \<Rightarrow> rx" where "no_digits n \<equiv> RLazy (\<lambda>c. \<not> rx_digit c) n"

abbreviation number_group :: rx where "number_group \<equiv> RGroup (RGreedy rx_digit 4)"

abbreviation tokens_word :: rx where "tokens_word \<equiv> RSeq (lit ''token'') (ROpt (lit ''s''))"

definition CONTEXT_WINDOW_PATTERNS :: "rx list" where
  "CONTEXT_WINDOW_PATTERNS =
    [seq [ROpt (RAlt (lit ''maximum '') (seq [lit ''max'', ROpt (lit ''.''), lit '' ''])), lit ''context length'', no_digits 40,
          number_group, RGreedy rx_ws 0, tokens_word],
     seq [lit ''max'', ROpt (lit ''imum''), no_digits 12, number_group, no_digits 4, tokens_word],
     seq [number_group, RGreedy rx_ws 0, tokens_word, no_digits 4, lit ''limit''],
     seq [lit ''context'', RGreedy (\<lambda>c. c = ''_'' \<or> c = ''-'' \<or> rx_ws c) 0, lit ''window'',
          RLazy (\<lambda>c. \<not> rx_digit c \<and> c \<notin> {'';'', '','', ''(''}) 40, number_group],
     seq [RAlt (seq [lit ''support'', ROpt (lit ''s'')]) (lit ''supports up to''), RGreedy rx_ws 1, number_group, RGreedy rx_ws 1, tokens_word],
     seq [RAlt (lit (utf8_text [228, 187, 164, 231, 137, 140])) (RAlt (lit (utf8_text [228, 184, 138, 228, 184, 139, 230, 150, 135])) (lit (utf8_text [230, 156, 128, 229, 164, 167]))),
          no_digits 18, number_group]]"

definition CONTEXT_WINDOW_MIN_TOKENS :: int where "CONTEXT_WINDOW_MIN_TOKENS = 1024"

definition stringify_detail :: "pyval \<Rightarrow> string" where
  "stringify_detail v = (case v of PStr t \<Rightarrow> t | PDict _ \<Rightarrow> json_dumps v | PList _ \<Rightarrow> json_dumps v | _ \<Rightarrow> py_str (py_or v (PStr '''')))"

definition large_enough :: "pyval \<Rightarrow> int option" where
  \<comment> \<open>\<open>int(raw or 0)\<close> if it may be a context window\<close>
  "large_enough raw = (case py_int (py_or raw (PInt 0)) of Inr n \<Rightarrow> if CONTEXT_WINDOW_MIN_TOKENS \<le> n then Some n else None | Inl _ \<Rightarrow> None)"

definition first_some :: "'a option list \<Rightarrow> 'a option" where
  "first_some xs = (case find (\<lambda>x. x \<noteq> None) xs of Some x \<Rightarrow> x | None \<Rightarrow> None)"

definition explicit_context_window :: "pyval \<Rightarrow> int option" where
  "explicit_context_window detail = (case detail of
      PDict d \<Rightarrow> first_some (map large_enough ((case dget d ''error'' of PDict e \<Rightarrow> [dget e ''context_window''] | _ \<Rightarrow> []) @ [dget d ''context_window'']))
    | _ \<Rightarrow> None)"

definition extract_context_window :: "pyval \<Rightarrow> int option" where
  "extract_context_window detail = (case explicit_context_window detail of
      Some n \<Rightarrow> Some n
    | None \<Rightarrow> (let t = code_points (stringify_detail detail)
              in first_some (map (\<lambda>x. case rx_search x t of None \<Rightarrow> None | Some g \<Rightarrow> large_enough (PStr (concat g))) CONTEXT_WINDOW_PATTERNS)))"

definition with_context_window :: "string \<Rightarrow> int option \<Rightarrow> string" where
  "with_context_window message window = (case window of
      None \<Rightarrow> message
    | Some n \<Rightarrow> if n \<le> 0 then message
        else (let suffix = '' (context window: '' @ int_str n @ '' tokens)''
              in if contains suffix message then message else message @ suffix))"

section \<open>Canonical errors\<close>

definition OVERFLOW_CATEGORIES :: "string list" where
  "OVERFLOW_CATEGORIES = [''prompt_too_long'', ''input_too_long'', ''model_context_limit'', ''context_length_exceeded'', ''max_tokens_exceeded'']"

record canonical_rule =
  cn_category :: string
  cn_trigger :: "int list"
  cn_codes :: "string list"
  cn_markers :: "string list"
  cn_type :: string
  cn_code :: string
  cn_status :: int
  cn_message :: string

record canonical_error =
  ce_category :: string
  ce_type :: string
  ce_error_code :: string
  ce_status_code :: int
  ce_message :: string
  ce_window :: "int option"

definition display_message :: "canonical_error \<Rightarrow> string" where
  "display_message c = with_context_window (ce_message c) (ce_window c)"

definition is_overflow :: "canonical_error \<Rightarrow> bool" where
  "is_overflow c \<longleftrightarrow> ce_category c \<in> set OVERFLOW_CATEGORIES"

definition canonical_result :: "canonical_rule \<Rightarrow> int option \<Rightarrow> canonical_error" where
  "canonical_result r w = \<lparr>ce_category = cn_category r, ce_type = cn_type r, ce_error_code = cn_code r, ce_status_code = cn_status r,
     ce_message = cn_message r, ce_window = w\<rparr>"

definition thinking_budget_invalid_rule :: canonical_rule where
  "thinking_budget_invalid_rule = \<lparr>cn_category = ''thinking_budget_invalid'', cn_trigger = [],
     cn_codes = [],
     cn_markers = [''budget_tokens must be less than max_tokens'', ''budget_tokens must be smaller than max_tokens''],
     cn_type = ''invalid_request_error'', cn_code = ''invalid_request_error'', cn_status = 400,
     cn_message = ''thinking.budget_tokens must be less than max_tokens''\<rparr>"

definition max_tokens_exceeded_rule :: canonical_rule where
  "max_tokens_exceeded_rule = \<lparr>cn_category = ''max_tokens_exceeded'', cn_trigger = [],
     cn_codes = [''max_tokens_exceeded''],
     cn_markers = [''max_tokens exceeds'', ''max_tokens too large'', ''requested max_tokens exceeds'',
       ''max_tokens exceeds remaining context''],
     cn_type = ''invalid_request_error'', cn_code = ''max_tokens_exceeded'', cn_status = 400,
     cn_message = ''max_tokens exceeds remaining context window. Please lower max_tokens or compact the conversation.''\<rparr>"

definition prompt_too_long_rule :: canonical_rule where
  "prompt_too_long_rule = \<lparr>cn_category = ''prompt_too_long'', cn_trigger = [],
     cn_codes = [''prompt_too_long''],
     cn_markers = [''prompt is too long'', ''prompt too long''],
     cn_type = ''invalid_request_error'', cn_code = ''prompt_too_long'', cn_status = 400,
     cn_message = ''Prompt is too long''\<rparr>"

definition input_too_long_rule :: canonical_rule where
  "input_too_long_rule = \<lparr>cn_category = ''input_too_long'', cn_trigger = [],
     cn_codes = [''input_token_limit_exceeded'', ''input_too_long''],
     cn_markers = [''input is too long'', ''input tokens exceed'', utf8_text [232, 190, 147, 229, 133, 165, 229, 164, 170, 233, 149, 191]],
     cn_type = ''invalid_request_error'', cn_code = ''input_too_long'', cn_status = 400,
     cn_message = (''Input is too long for requested model: it exceeds the model'' @ [CHR 0x27] @ ''s context window'')\<rparr>"

definition model_context_limit_rule :: canonical_rule where
  "model_context_limit_rule = \<lparr>cn_category = ''model_context_limit'', cn_trigger = [],
     cn_codes = [''model_context_limit''],
     cn_markers = [''model context window'', (''model'' @ [CHR 0x27] @ ''s context window''), ''model context limit''],
     cn_type = ''invalid_request_error'', cn_code = ''model_context_limit'', cn_status = 400,
     cn_message = ''Model context window exceeded''\<rparr>"

definition context_length_exceeded_rule :: canonical_rule where
  "context_length_exceeded_rule = \<lparr>cn_category = ''context_length_exceeded'', cn_trigger = [413],
     cn_codes = [''context_too_large'', ''context_length_exceeded'', ''request_too_large'', ''payload_too_large''],
     cn_markers = [''context_too_large'', ''context_length_exceeded'', ''context window'', ''context length'',
       ''maximum context length'', ''too many tokens'', ''token limit'', ''reduce the length'', ''request too large'',
       ''payload too large'', ''conversation exceeds'', ''history is too long'', ''conversation is too long'',
       ''messages is too long'', ''messages too long'', ''conversation too long'', ''input length exceeds'',
       ''exceeds the maximum token'', ''exceeds the token limit'', ''token count exceeds'', ''exceed the context'',
       utf8_text [232, 182, 133, 229, 135, 186, 228, 184, 138, 228, 184, 139, 230, 150, 135],
       utf8_text [228, 184, 138, 228, 184, 139, 230, 150, 135, 232, 182, 133],
       utf8_text [228, 184, 138, 228, 184, 139, 230, 150, 135, 232, 191, 135, 233, 149, 191],
       utf8_text [228, 184, 138, 228, 184, 139, 230, 150, 135, 232, 182, 133, 233, 153, 144],
       utf8_text [228, 184, 138, 228, 184, 139, 230, 150, 135, 233, 149, 191, 229, 186, 166, 232, 182, 133, 232, 191, 135],
       utf8_text [232, 182, 133, 233, 149, 191, 229, 175, 185, 232, 175, 157],
       utf8_text [229, 175, 185, 232, 175, 157, 232, 191, 135, 233, 149, 191],
       utf8_text [229, 175, 185, 232, 175, 157, 229, 164, 170, 233, 149, 191],
       utf8_text [229, 142, 134, 229, 143, 178, 232, 191, 135, 233, 149, 191],
       utf8_text [229, 142, 134, 229, 143, 178, 229, 164, 170, 233, 149, 191],
       utf8_text [232, 190, 147, 229, 133, 165, 232, 191, 135, 233, 149, 191],
       utf8_text [229, 134, 133, 229, 174, 185, 232, 191, 135, 233, 149, 191],
       utf8_text [229, 134, 133, 229, 174, 185, 229, 164, 170, 233, 149, 191]],
     cn_type = ''invalid_request_error'', cn_code = ''context_length_exceeded'', cn_status = 400,
     cn_message = (''Your input exceeds this model'' @ [CHR 0x27] @ ''s maximum context window. Please reduce the length of the conversation.'')\<rparr>"

definition ERROR_CANONICAL_RULES :: "canonical_rule list" where
  "ERROR_CANONICAL_RULES = [thinking_budget_invalid_rule, max_tokens_exceeded_rule, prompt_too_long_rule, input_too_long_rule,
     model_context_limit_rule, context_length_exceeded_rule]"

definition is_structured_error_detail :: "pyval \<Rightarrow> bool" where
  "is_structured_error_detail detail = (case detail of
      PDict _ \<Rightarrow> True
    | PStr t \<Rightarrow> startswith (lstrip t) ''{'' \<and> (case json_loads t of Some (PDict _) \<Rightarrow> True | _ \<Rightarrow> False)
    | _ \<Rightarrow> False)"

definition canonicalize_upstream_error :: "int option \<Rightarrow> pyval \<Rightarrow> pyerror + canonical_error option" where
  "canonicalize_upstream_error status detail = (case parse_error_detail detail of
      Inl e \<Rightarrow> Inl e
    | Inr e \<Rightarrow>
        (let by_code = (if ef_code e = [] then None else find (\<lambda>r. ef_code e \<in> set (cn_codes r)) ERROR_CANONICAL_RULES);
             by_text = find (\<lambda>r. \<exists>mk \<in> set (cn_markers r). contains mk (haystack e)) ERROR_CANONICAL_RULES;
             by_status = (case status of
                 Some c \<Rightarrow> if is_structured_error_detail detail then find (\<lambda>r. c \<in> set (cn_trigger r)) ERROR_CANONICAL_RULES else None
               | None \<Rightarrow> None)
         in Inr (map_option (\<lambda>r. canonical_result r (extract_context_window detail)) (first_some [by_code, by_text, by_status]))))"

definition canonical_overflow_error :: "int option \<Rightarrow> pyval \<Rightarrow> pyerror + canonical_error option" where
  "canonical_overflow_error status detail = (case canonicalize_upstream_error status detail of
      Inl e \<Rightarrow> Inl e
    | Inr (Some c) \<Rightarrow> Inr (if is_overflow c then Some c else None)
    | Inr None \<Rightarrow> Inr None)"

definition OVERFLOW_CODES :: "string list" where
  "OVERFLOW_CODES = [''prompt_too_long'', ''input_too_long'', ''model_context_limit'', ''context_length_exceeded'', ''max_tokens_exceeded'',
     ''context_too_large'']"

definition overflow_code_of :: "string option \<Rightarrow> string option" where
  "overflow_code_of code = (let n = lower (strip (case code of Some c \<Rightarrow> c | None \<Rightarrow> '''')) in if n \<in> set OVERFLOW_CODES then Some n else None)"

section \<open>Decisions\<close>

datatype failure_action = RETRY | RETURN_CLIENT_ERROR | STREAM_ERROR_AND_STOP | CANCEL_AND_STOP | NO_RESOURCE_429

record failure_decision =
  fd_action :: failure_action
  fd_exclusion_scope :: "string option"
  fd_rollback :: bool
  fd_client_status :: "int option"
  fd_client_detail :: pyval
  fd_reason :: string

record failure_input =
  fi_http :: bool
  fi_status :: "int option"
  fi_detail :: pyval
  fi_downstream_started :: bool
  fi_stream :: bool
  fi_cancelled :: bool
  fi_candidates_remaining :: bool
  fi_upstream_started :: bool
  fi_override :: "bool option"
  fi_rules :: pydict
  fi_transient :: bool
  fi_incomplete :: bool
  fi_extra_codes :: "int list"
  fi_overflow_active :: bool

definition CLIENT_ERROR_STATUS_CODES :: "int list" where
  "CLIENT_ERROR_STATUS_CODES = [400, 401, 403, 404, 409, 413, 422, 429]"

definition decide :: "failure_action \<Rightarrow> bool \<Rightarrow> string \<Rightarrow> failure_decision" where
  "decide action rollback reason = \<lparr>fd_action = action, fd_exclusion_scope = None, fd_rollback = rollback, fd_client_status = None,
     fd_client_detail = PNone, fd_reason = reason\<rparr>"

definition non_retryable :: "failure_input \<Rightarrow> pyerror + bool" where
  \<comment> \<open>the request itself cannot go on, as far as the caller or the rules can tell\<close>
  "non_retryable i = (case fi_status i of
      Some c \<Rightarrow> if fi_http i then (case fi_override i of Some b \<Rightarrow> Inr b | None \<Rightarrow> is_non_retryable_upstream_error c (fi_detail i) (fi_rules i)) else Inr False
    | None \<Rightarrow> Inr False)"

definition classify_failure :: "failure_input \<Rightarrow> pyerror + failure_decision" where
  "classify_failure i =
     (if fi_cancelled i then Inr (decide CANCEL_AND_STOP True ''client_cancelled'')
      else if fi_downstream_started i then Inr (decide STREAM_ERROR_AND_STOP False ''downstream_already_started'')
      else (case non_retryable i of
              Inl e \<Rightarrow> Inl e
            | Inr hopeless \<Rightarrow>
                (if hopeless \<and> (the (fi_status i) \<in> set CLIENT_ERROR_STATUS_CODES \<or> fi_overflow_active i)
                 then Inr ((decide RETURN_CLIENT_ERROR True ''non_retryable_client_error'')\<lparr>fd_client_status := fi_status i, fd_client_detail := fi_detail i\<rparr>)
                 else if (fi_http i \<or> fi_transient i \<or> fi_incomplete i) \<and> fi_candidates_remaining i
                 then Inr ((decide RETRY True ''retryable_failure'')\<lparr>fd_exclusion_scope := Some ''candidate''\<rparr>)
                 else Inr (decide NO_RESOURCE_429 True ''candidates_exhausted''))))"

definition classify_inner_retry :: "failure_input \<Rightarrow> pyerror + bool" where
  "classify_inner_retry i =
     (if fi_cancelled i \<or> fi_downstream_started i then Inr False
      else (case non_retryable i of
              Inl e \<Rightarrow> Inl e
            | Inr hopeless \<Rightarrow>
                Inr (\<not> hopeless \<and> \<not> fi_incomplete i \<and>
                  (fi_transient i \<or> (fi_http i \<and> (case fi_status i of
                      Some c \<Rightarrow> c = 429 \<or> 500 \<le> c \<or> c \<in> set (fi_extra_codes i)
                    | None \<Rightarrow> False))))))"

section \<open>Properties of the canonical table\<close>

definition CLIENT_ANCHORS :: "string list" where
  \<comment> \<open>the phrases by which clients recognise that they should compact the conversation\<close>
  "CLIENT_ANCHORS = [''prompt is too long'', ''input is too long for requested model'', ''context window'', ''maximum context length'']"

definition anchored :: "string \<Rightarrow> bool" where
  "anchored t \<longleftrightarrow> (\<exists>a \<in> set CLIENT_ANCHORS. contains a (lower t))"

lemma lower_append [simp]: "lower (s @ t) = lower s @ lower t"
  by (simp add: lower_def)

lemma anchored_append: "anchored s \<Longrightarrow> anchored (s @ t)"
  by (auto simp: anchored_def intro: contains_append_left)

lemma with_context_window_anchored: "anchored t \<Longrightarrow> anchored (with_context_window t w)"
  by (auto simp: with_context_window_def Let_def intro: anchored_append split: option.split)

lemma anchored_window: "anchored (x @ ''context window'' @ y)"
proof -
  have "lower ''context window'' = ''context window''" by code_simp
  then have "contains ''context window'' (lower (x @ ''context window'' @ y))"
    using contains_refl_append [of "''context window''" "lower x" "lower y"] by (simp del: contains.simps append_Cons)
  then show ?thesis by (auto simp: anchored_def CLIENT_ANCHORS_def simp del: contains.simps)
qed

definition rule_checked :: "canonical_rule \<Rightarrow> bool" where
  "rule_checked r \<longleftrightarrow> cn_status r = 400 \<and> cn_type r = ''invalid_request_error'' \<and> (cn_category r \<in> set OVERFLOW_CATEGORIES \<longrightarrow>
     anchored (cn_message r) \<and> overflow_code_of (Some (cn_code r)) = Some (cn_code r))"

lemma codes_checked: "c \<in> set OVERFLOW_CODES \<Longrightarrow> overflow_code_of (Some c) = Some c"
proof -
  have "list_all (\<lambda>c. lower (strip c) = c) OVERFLOW_CODES" by code_simp
  then show "c \<in> set OVERFLOW_CODES \<Longrightarrow> overflow_code_of (Some c) = Some c" by (auto simp: overflow_code_of_def list_all_iff Let_def)
qed

lemma rules_checked: "r \<in> set ERROR_CANONICAL_RULES \<Longrightarrow> rule_checked r"
proof -
  have 1: "rule_checked thinking_budget_invalid_rule" by (simp add: rule_checked_def thinking_budget_invalid_rule_def OVERFLOW_CATEGORIES_def)
  have 2: "rule_checked max_tokens_exceeded_rule"
    using anchored_window [of "''max_tokens exceeds remaining ''" "''. Please lower max_tokens or compact the conversation.''"]
    by (simp add: rule_checked_def max_tokens_exceeded_rule_def codes_checked OVERFLOW_CODES_def)
  have 3: "rule_checked prompt_too_long_rule"
  proof -
    have "lower ''Prompt is too long'' = ''prompt is too long''" by code_simp
    then have "anchored ''Prompt is too long''"
      using contains_refl_append [of "''prompt is too long''" "[]" "[]"] by (simp add: anchored_def CLIENT_ANCHORS_def del: contains.simps)
    then show ?thesis by (simp add: rule_checked_def prompt_too_long_rule_def codes_checked OVERFLOW_CODES_def)
  qed
  have 4: "rule_checked input_too_long_rule"
    using anchored_window [of "''Input is too long for requested model: it exceeds the model'' @ [CHR 0x27] @ ''s ''" "''''"]
    by (simp add: rule_checked_def input_too_long_rule_def codes_checked OVERFLOW_CODES_def)
  have 5: "rule_checked model_context_limit_rule"
    using anchored_window [of "''Model ''" "'' exceeded''"] by (simp add: rule_checked_def model_context_limit_rule_def codes_checked OVERFLOW_CODES_def)
  have 6: "rule_checked context_length_exceeded_rule"
    using anchored_window [of "''Your input exceeds this model'' @ [CHR 0x27] @ ''s maximum ''" "''. Please reduce the length of the conversation.''"]
    by (simp add: rule_checked_def context_length_exceeded_rule_def codes_checked OVERFLOW_CODES_def)
  show "r \<in> set ERROR_CANONICAL_RULES \<Longrightarrow> rule_checked r" using 1 2 3 4 5 6 by (auto simp: ERROR_CANONICAL_RULES_def)
qed

lemma first_some_Cons: "first_some (x # xs) = (case x of Some y \<Rightarrow> Some y | None \<Rightarrow> first_some xs)" "first_some [] = None"
  by (auto simp: first_some_def split: option.split)

lemma find_in: "find P xs = Some x \<Longrightarrow> x \<in> set xs"
  by (auto simp: find_Some_iff)

lemma canonicalizeD:
  assumes "canonicalize_upstream_error status detail = Inr (Some c)"
  obtains r where "r \<in> set ERROR_CANONICAL_RULES" "c = canonical_result r (extract_context_window detail)"
proof -
  have "\<exists>r \<in> set ERROR_CANONICAL_RULES. c = canonical_result r (extract_context_window detail)"
    using assms unfolding canonicalize_upstream_error_def Let_def
    by (auto simp: first_some_Cons split: sum.splits if_splits option.splits dest: find_in)
  with that show thesis by blast
qed

lemma canonical_by_code:
  assumes "parse_error_detail detail = Inr e" "ef_code e \<noteq> []" "find (\<lambda>r. ef_code e \<in> set (cn_codes r)) ERROR_CANONICAL_RULES = Some r"
  shows "canonicalize_upstream_error status detail = Inr (Some (canonical_result r (extract_context_window detail)))"
  using assms by (simp add: canonicalize_upstream_error_def first_some_Cons)

text \<open>
  Whatever an upstream says, an error that is recognised as an overflow leaves as status 400 with one
  of the overflow codes, and its text keeps a phrase by which clients recognise that they should compact
  the conversation and try again, with the context window appended or not.
\<close>

theorem overflow_keeps_anchor:
  assumes "canonical_overflow_error status detail = Inr (Some c)"
  shows "ce_status_code c = 400 \<and> overflow_code_of (Some (ce_error_code c)) = Some (ce_error_code c) \<and> anchored (display_message c)"
proof -
  have o: "is_overflow c" "canonicalize_upstream_error status detail = Inr (Some c)"
    using assms by (auto simp: canonical_overflow_error_def split: sum.splits option.splits if_splits)
  then obtain r where r: "r \<in> set ERROR_CANONICAL_RULES" "c = canonical_result r (extract_context_window detail)" by (elim canonicalizeD)
  with rules_checked [OF r(1)] o(1) show ?thesis
    by (auto simp: rule_checked_def canonical_result_def is_overflow_def display_message_def intro!: with_context_window_anchored)
qed

lemma dict_code_detail:
  "parse_error_detail (PDict [(''error'', PDict [(''code'', PStr ''prompt_too_long''), (''context_window'', PInt 8192)])]) =
     Inr \<lparr>ef_type = '''', ef_code = ''prompt_too_long'', ef_param = '''',
          ef_message = lower (py_str (PDict [(''error'', PDict [(''code'', PStr ''prompt_too_long''), (''context_window'', PInt 8192)])]))\<rparr>"
proof -
  have "lower ''prompt_too_long'' = ''prompt_too_long''" by code_simp
  then show ?thesis by (simp add: parse_error_detail_def fields_of_def lower_field_def dget_def py_or_def py_str_def lower_def)
qed

lemma prompt_canonical:
  "canonicalize_upstream_error status (PDict [(''error'', PDict [(''code'', PStr ''prompt_too_long''), (''context_window'', PInt 8192)])]) =
     Inr (Some (canonical_result prompt_too_long_rule
       (extract_context_window (PDict [(''error'', PDict [(''code'', PStr ''prompt_too_long''), (''context_window'', PInt 8192)])]))))"
proof -
  have "find (\<lambda>r. ''prompt_too_long'' \<in> set (cn_codes r)) ERROR_CANONICAL_RULES = Some prompt_too_long_rule"
    by (simp add: ERROR_CANONICAL_RULES_def thinking_budget_invalid_rule_def max_tokens_exceeded_rule_def prompt_too_long_rule_def)
  then show ?thesis using canonical_by_code [OF dict_code_detail] by simp
qed

theorem overflow_keeps_anchor_witness:
  "let c = the (projr (canonical_overflow_error (Some 502) (PDict [(''error'', PDict [(''code'', PStr ''prompt_too_long''), (''context_window'', PInt 8192)])])))
   in ce_status_code c = 400 \<and> overflow_code_of (Some (ce_error_code c)) = Some (ce_error_code c) \<and> anchored (display_message c)"
proof -
  let ?d = "PDict [(''error'', PDict [(''code'', PStr ''prompt_too_long''), (''context_window'', PInt 8192)])]"
  have "canonical_overflow_error (Some 502) ?d = Inr (Some (canonical_result prompt_too_long_rule (extract_context_window ?d)))"
    using prompt_canonical [of "Some 502"]
    by (simp add: canonical_overflow_error_def is_overflow_def canonical_result_def prompt_too_long_rule_def OVERFLOW_CATEGORIES_def)
  from overflow_keeps_anchor [OF this] this show ?thesis by (simp add: Let_def)
qed

end
