(* ===== verification/Lub_Attempt.thy ===== *)
theory Lub_Attempt
  imports Lub_Retry Lub_PoolOps
begin

text \<open>
  What one attempt of the request pipeline does around the upstream call: \<open>server/attempt_builder.py\<close>
  builds its parameters, and the functions of \<open>main.py\<close> that handle a failure combine the
  classification of \<open>Lub_Retry\<close> with the account pool of \<open>Lub_Pool\<close>. Also the helpers of
  \<open>providers/base.py\<close> that turn an error frame of a stream into an exception. Logging and health
  statistics are not modelled.
\<close>

section \<open>Parameters of an attempt\<close>

record model_identity =
  mi_requested :: string
  mi_routed :: string
  mi_upstream :: string
  mi_response :: string

definition resolve_model_identity :: "string \<Rightarrow> pydict \<Rightarrow> string option \<Rightarrow> string option \<Rightarrow> model_identity" where
  \<comment> \<open>the two entries of \<open>route_info\<close> that are read are texts\<close>
  "resolve_model_identity requested route resolved stable_name =
     (let routed = py_str (py_or (dget route ''routed_model'') (PStr requested));
          upstream = py_str (py_or (dget route ''upstream_model_id'') (PStr (case opt_str resolved of Some r \<Rightarrow> r | None \<Rightarrow> routed)))
      in \<lparr>mi_requested = requested, mi_routed = routed, mi_upstream = upstream, mi_response = (case stable_name of Some s \<Rightarrow> s | None \<Rightarrow> routed)\<rparr>)"

definition EXTRA_CONFIG_RESERVED_KEYS :: "string list" where
  "EXTRA_CONFIG_RESERVED_KEYS = [''client_preset'', ''enable_1m_context'', ''output_modalities'', ''modalities'', ''max_tokens'', ''reasoning_effort'', ''thinking'']"

definition EXTRA_CONFIG_DEFAULT_KEYS :: "string list" where
  "EXTRA_CONFIG_DEFAULT_KEYS = [''max_tokens'', ''reasoning_effort'', ''thinking'']"

definition fill_default :: "string \<Rightarrow> pyval \<Rightarrow> pydict \<Rightarrow> pydict" where
  "fill_default k v kw = (if v \<noteq> PNone \<and> dget kw k = PNone then dset kw k v else kw)"

definition apply_model_defaults :: "pydict \<Rightarrow> pyval \<Rightarrow> pydict" where
  "apply_model_defaults kw defaults = fold (\<lambda>(k, v) kw. if startswith k ''_'' then kw else fill_default k v kw) (dict_of defaults) kw"

definition apply_extra_config_defaults :: "pydict \<Rightarrow> pyval \<Rightarrow> pydict" where
  "apply_extra_config_defaults kw extra =
     fold (\<lambda>k kw. fill_default k (dget (dict_of extra) k) kw) EXTRA_CONFIG_DEFAULT_KEYS kw"

definition apply_extra_config_overrides :: "pydict \<Rightarrow> pyval \<Rightarrow> pydict" where
  "apply_extra_config_overrides kw extra =
     fold (\<lambda>(k, v) kw. if v = PNone \<or> startswith k ''_'' \<or> k \<in> set EXTRA_CONFIG_RESERVED_KEYS then kw else dset kw k v) (dict_of extra) kw"

section \<open>Upstream error texts\<close>

definition UPSTREAM_DEGRADED_FUNCTION_MESSAGE :: string where
  "UPSTREAM_DEGRADED_FUNCTION_MESSAGE = utf8_text [228, 184, 138, 230, 184, 184, 229, 135, 189, 230, 149, 176, 228, 184, 180, 230, 151, 182, 228, 184, 141,
     229, 143, 175, 231, 148, 168, 239, 188, 140, 229, 183, 178, 230, 140, 137, 228, 184, 138, 230, 184, 184, 229, 188, 130, 229, 184, 184, 229, 164, 132, 231, 144, 134]"

definition is_degraded_function_error :: "string \<Rightarrow> bool" where
  "is_degraded_function_error t \<longleftrightarrow> contains ''degraded function cannot be invoked'' (lower t)"

definition normalize_upstream_error_message :: "string \<Rightarrow> string" where
  "normalize_upstream_error_message t = (if is_degraded_function_error (strip t) then UPSTREAM_DEGRADED_FUNCTION_MESSAGE else strip t)"

definition coerce_status_code :: "pyval \<Rightarrow> int \<Rightarrow> int" where
  "coerce_status_code v dflt = (case py_int v of
      Inl _ \<Rightarrow> dflt
    | Inr n \<Rightarrow> if \<not> (400 \<le> n \<and> n \<le> 599) then dflt
        else if 400 \<le> n \<and> n < 500 \<and> n \<notin> set CLIENT_ERROR_STATUS_CODES then dflt else n)"

record http_error =
  he_status :: int
  he_detail :: pyval
  he_code :: "string option"

definition first_true :: "pyval list \<Rightarrow> pyval" where
  \<comment> \<open>\<open>a or b or ...\<close>\<close>
  "first_true vs = (case find truthy vs of Some v \<Rightarrow> v | None \<Rightarrow> (if vs = [] then PNone else last vs))"

definition openai_sse_error_exception :: "pyval \<Rightarrow> http_error option" where
  "openai_sse_error_exception payload = (case payload of
      PDict d \<Rightarrow>
        (let error = dget d ''error''
         in if \<not> truthy error then None
            else (let (src, statuses) = (case error of
                        PDict e \<Rightarrow> (e, [dget e ''status_code'', dget e ''status'', dget d ''status_code'', dget d ''status''])
                      | _ \<Rightarrow> (d, [dget d ''status_code'', dget d ''status'']));
                      raw = (case error of PDict e \<Rightarrow> py_str (py_or (dget e ''message'') error) | _ \<Rightarrow> py_str error);
                      degraded = is_degraded_function_error raw;
                      status = (if degraded then 503 else coerce_status_code (first_true statuses) 502);
                      typ = (if degraded then ''server_error'' else py_str (py_or (dget src ''type'') (PStr ''server_error'')));
                      code = (if degraded then ''upstream_function_degraded'' else py_str (py_or (dget src ''code'') (PStr ''upstream_error'')));
                      text = normalize_upstream_error_message raw;
                      msg = (if text \<noteq> [] then text else ''HTTP '' @ int_str status);
                      param = dget src ''param''
                  in Some \<lparr>he_status = status, he_detail = PDict [(''error'', PDict ([(''message'', PStr msg), (''type'', PStr typ), (''code'', PStr code)]
                            @ (if truthy param then [(''param'', param)] else [])))], he_code = None\<rparr>))
    | _ \<Rightarrow> None)"

section \<open>Errors that leave the gateway\<close>

definition openai_error :: "string \<Rightarrow> string \<Rightarrow> string \<Rightarrow> pydict" where
  \<comment> \<open>the dictionary under \<open>error\<close>\<close>
  "openai_error message typ code = [(''message'', PStr (normalize_upstream_error_message message)), (''type'', PStr typ), (''code'', PStr code)]"

definition canonical_body :: "canonical_error \<Rightarrow> pyval" where
  "canonical_body c = PDict [(''error'', PDict (openai_error (display_message c) (ce_type c) (ce_error_code c)
     @ (case ce_window c of Some n \<Rightarrow> if n \<noteq> 0 then [(''context_window'', PInt n)] else [] | None \<Rightarrow> [])))]"

definition canonical_context_overflow_exception :: "bool \<Rightarrow> int \<Rightarrow> pyval \<Rightarrow> pyerror + http_error option" where
  \<comment> \<open>\<open>flag\<close>: \<open>context_overflow_not_retryable_enabled()\<close>\<close>
  "canonical_context_overflow_exception flag status detail = (case canonicalize_upstream_error (Some status) detail of
      Inl e \<Rightarrow> Inl e
    | Inr (Some c) \<Rightarrow> Inr (if flag then Some \<lparr>he_status = ce_status_code c, he_detail = canonical_body c, he_code = None\<rparr> else None)
    | Inr None \<Rightarrow> Inr None)"

definition is_non_retryable_error :: "bool \<Rightarrow> pydict \<Rightarrow> int \<Rightarrow> pyval \<Rightarrow> pyerror + bool" where
  \<comment> \<open>\<open>_is_non_retryable_upstream_error\<close> of \<open>main.py\<close>\<close>
  "is_non_retryable_error flag rules status detail = (case canonicalize_upstream_error (Some status) detail of
      Inl e \<Rightarrow> Inl e
    | Inr c \<Rightarrow> if c \<noteq> None \<and> flag then Inr True
        else (case parse_error_detail detail of
                Inl e \<Rightarrow> Inl e
              | Inr f \<Rightarrow> if \<not> is_protocol_parameter_error f then Inr False else is_non_retryable_upstream_error status detail rules))"

section \<open>Failures of an attempt\<close>

text \<open>
  \<open>ChannelError\<close> is an \<open>HTTPException\<close>; the two exceptions for incomplete answers are not. An
  incomplete stream may carry the error of the upstream that caused it.
\<close>

datatype cause = CauseHttp http_error | CauseText string

datatype attempt_error =
    HttpError http_error
  | Semantic channel_error
  | IncompleteStream string "string option" "cause option"
  | EmptyResponse string "string option"
  | OtherError string bool "string option"

fun error_status :: "attempt_error \<Rightarrow> int option" where
  "error_status (HttpError e) = Some (he_status e)"
| "error_status (Semantic e) = Some (ce_status e)"
| "error_status _ = None"

fun error_detail :: "attempt_error \<Rightarrow> pyval" where
  "error_detail (HttpError e) = he_detail e"
| "error_detail (Semantic e) = PStr (ce_detail e)"
| "error_detail (IncompleteStream t code up) = PStr t"
| "error_detail (EmptyResponse t code) = PStr t"
| "error_detail (OtherError t transient code) = PStr t"

fun error_code_of :: "attempt_error \<Rightarrow> string option" where
  \<comment> \<open>\<open>getattr(error, "code", None)\<close>\<close>
  "error_code_of (HttpError e) = he_code e"
| "error_code_of (Semantic e) = None"
| "error_code_of (IncompleteStream t code up) = code"
| "error_code_of (EmptyResponse t code) = code"
| "error_code_of (OtherError t transient code) = code"

definition is_http_exception :: "attempt_error \<Rightarrow> bool" where
  "is_http_exception e \<longleftrightarrow> error_status e \<noteq> None"

definition retryable_status :: "attempt_error \<Rightarrow> bool" where
  "retryable_status e = (case error_status e of None \<Rightarrow> True | Some c \<Rightarrow> c = 429 \<or> 500 \<le> c)"

record attempt_state =
  as_stream :: bool
  as_downstream_started :: bool
  as_retry_count :: int
  as_total_attempts :: int
  as_extra_codes :: "int list"
  as_has_client :: bool

definition failure_input_of :: "attempt_state \<Rightarrow> attempt_error \<Rightarrow> bool option \<Rightarrow> bool \<Rightarrow> bool \<Rightarrow> failure_input" where
  "failure_input_of s e override overflow remaining =
     \<lparr>fi_http = is_http_exception e, fi_status = error_status e, fi_detail = error_detail e,
      fi_downstream_started = (as_stream s \<and> as_downstream_started s), fi_stream = as_stream s, fi_cancelled = False,
      fi_candidates_remaining = remaining, fi_upstream_started = as_has_client s, fi_override = override, fi_rules = [],
      fi_transient = (case e of OtherError _ t _ \<Rightarrow> t | _ \<Rightarrow> False),
      fi_incomplete = (case e of IncompleteStream _ _ _ \<Rightarrow> True | EmptyResponse _ _ \<Rightarrow> True | _ \<Rightarrow> False),
      fi_extra_codes = as_extra_codes s, fi_overflow_active = overflow\<rparr>"

definition error_override :: "bool \<Rightarrow> pydict \<Rightarrow> attempt_error \<Rightarrow> pyerror + bool option" where
  "error_override flag rules e = (case error_status e of
      None \<Rightarrow> Inr None
    | Some c \<Rightarrow> (case is_non_retryable_error flag rules c (error_detail e) of Inl x \<Rightarrow> Inl x | Inr b \<Rightarrow> Inr (Some b)))"

definition overflow_active :: "bool \<Rightarrow> attempt_error \<Rightarrow> pyerror + bool" where
  "overflow_active flag e = (case error_status e of
      None \<Rightarrow> Inr False
    | Some c \<Rightarrow> (case canonicalize_upstream_error (Some c) (error_detail e) of Inl x \<Rightarrow> Inl x | Inr r \<Rightarrow> Inr (r \<noteq> None \<and> flag)))"

definition attempt_decision :: "bool \<Rightarrow> pydict \<Rightarrow> attempt_state \<Rightarrow> attempt_error \<Rightarrow> pyerror + failure_decision" where
  \<comment> \<open>the decision of \<open>_handle_attempt_failure\<close>\<close>
  "attempt_decision flag rules s e = (case error_override flag rules e of
      Inl x \<Rightarrow> Inl x
    | Inr ov \<Rightarrow> (case overflow_active flag e of
        Inl x \<Rightarrow> Inl x
      | Inr act \<Rightarrow> classify_failure (failure_input_of s e ov act (as_retry_count s < as_total_attempts s - 1))))"

definition inner_retry_limit :: "string option \<Rightarrow> bool \<Rightarrow> bool \<Rightarrow> int \<Rightarrow> int" where
  \<comment> \<open>\<open>retries\<close>: the configured extra attempts; 0 if they cannot be read\<close>
  "inner_retry_limit provider is_test is_probe retries =
     (if is_test \<or> is_probe \<or> opt_str provider = None then 1 else max 1 (retries + 1))"

definition should_inner_retry :: "bool \<Rightarrow> pydict \<Rightarrow> attempt_state \<Rightarrow> int \<Rightarrow> int \<Rightarrow> attempt_error \<Rightarrow> pyerror + bool" where
  "should_inner_retry flag rules s inner_index inner_limit e =
     (if inner_limit - 1 \<le> inner_index then Inr False
      else (case error_override flag rules e of
              Inl x \<Rightarrow> Inl x
            | Inr ov \<Rightarrow> classify_inner_retry ((failure_input_of s e ov False True)\<lparr>fi_upstream_started := True\<rparr>)))"

definition record_attempt_failure_to_pool ::
  "calendar \<Rightarrow> time \<Rightarrow> pyval \<Rightarrow> pyval \<Rightarrow> string option \<Rightarrow> string \<Rightarrow> bool \<Rightarrow> string option \<Rightarrow> pydict option \<Rightarrow> attempt_error \<Rightarrow> pool \<Rightarrow> pool" where
  \<comment> \<open>the two configured fallback durations, then the arguments of the method\<close>
  "record_attempt_failure_to_pool cal now cool exc u text retryable mid headers e p =
     (let name = (case u of Some x \<Rightarrow> x | None \<Rightarrow> '''');
          (p1, handled) = (case e of Semantic ce \<Rightarrow> apply_channel_error cal now name (Some ce) mid p | _ \<Rightarrow> (p, ''''))
      in if handled \<in> {''freeze'', ''no_freeze''} then p1
         else (case error_status e of
           Some c \<Rightarrow>
             (let (p2, result) = apply_freeze_policy cal now name (Some c) headers mid (PStr text) False (error_code_of e) p1
              in if result = [] \<and> retryable then fst (handle_response_error cal now cool u (PInt c) (PStr text) mid p2) else p2)
         | None \<Rightarrow> (case e of
             EmptyResponse _ _ \<Rightarrow> p1
           | _ \<Rightarrow> fst (mark_account_exception cal now exc name None (PStr text) (error_code_of e) mid p1))))"

definition client_error :: "bool \<Rightarrow> attempt_error \<Rightarrow> pyerror + attempt_error" where
  \<comment> \<open>the exception raised for \<open>RETURN_CLIENT_ERROR\<close>\<close>
  "client_error flag e = (case error_status e of
      None \<Rightarrow> Inr e
    | Some c \<Rightarrow> (case canonical_context_overflow_exception flag c (error_detail e) of
        Inl x \<Rightarrow> Inl x
      | Inr (Some h) \<Rightarrow> Inr (HttpError h)
      | Inr None \<Rightarrow> Inr e))"

end
