(* ===== verification/Lub_AttemptProps.thy ===== *)
theory Lub_AttemptProps
  imports Lub_Attempt
begin

text \<open>
  Properties of what \<open>main.py\<close> and \<open>server/attempt_builder.py\<close> do around an attempt.
\<close>

section \<open>Decisions\<close>

lemma rules_status: "r \<in> set ERROR_CANONICAL_RULES \<Longrightarrow> cn_status r = 400"
  using rules_checked [of r] by (simp add: rule_checked_def)

lemma canonical_status: "canonicalize_upstream_error status detail = Inr (Some c) \<Longrightarrow> ce_status_code c = 400"
  by (erule canonicalizeD) (simp add: canonical_result_def rules_status)

lemma override_active:
  \<comment> \<open>the override and the overflow flag come from the same canonical form\<close>
  assumes "error_override flag rules e = Inr ov"
  shows "\<exists>act. overflow_active flag e = Inr act \<and> (act \<longrightarrow> ov = Some True)"
  using assms by (auto simp: error_override_def overflow_active_def is_non_retryable_error_def split: option.splits sum.splits if_splits)

lemma attempt_decisionD:
  assumes "attempt_decision flag rules s e = Inr d"
  obtains ov act where "error_override flag rules e = Inr ov" "overflow_active flag e = Inr act" "act \<longrightarrow> ov = Some True"
    "classify_failure (failure_input_of s e ov act (as_retry_count s < as_total_attempts s - 1)) = Inr d"
  using assms override_active [of flag rules e] by (auto simp: attempt_decision_def split: sum.splits)

lemma non_retryable_input [simp]:
  assumes "error_override flag rules e = Inr ov"
  shows "non_retryable (failure_input_of s e ov act rem) = Inr (ov = Some True)"
  using assms by (auto simp: non_retryable_def failure_input_of_def is_http_exception_def error_override_def split: option.splits sum.splits)

lemma non_retryable_started [simp]: "non_retryable (i\<lparr>fi_upstream_started := b\<rparr>) = non_retryable i"
  by (cases i) (simp add: non_retryable_def split: option.splits)

lemma override_status: "error_override flag rules e = Inr (Some b) \<Longrightarrow> \<exists>c. error_status e = Some c"
  by (auto simp: error_override_def split: option.splits sum.splits)

fun another_may_serve :: "attempt_error \<Rightarrow> bool" where
  \<comment> \<open>failures that do not come from an unknown local cause\<close>
  "another_may_serve (OtherError t transient code) = transient"
| "another_may_serve _ = True"

lemma classify_attempt:
  assumes "error_override flag rules e = Inr ov"
  shows "classify_failure (failure_input_of s e ov act rem) = Inr
    (if as_stream s \<and> as_downstream_started s then decide STREAM_ERROR_AND_STOP False ''downstream_already_started''
     else if ov = Some True \<and> (the (error_status e) \<in> set CLIENT_ERROR_STATUS_CODES \<or> act)
     then (decide RETURN_CLIENT_ERROR True ''non_retryable_client_error'')\<lparr>fd_client_status := error_status e, fd_client_detail := error_detail e\<rparr>
     else if another_may_serve e \<and> rem
     then (decide RETRY True ''retryable_failure'')\<lparr>fd_exclusion_scope := Some ''candidate''\<rparr>
     else decide NO_RESOURCE_429 True ''candidates_exhausted'')"
proof -
  have "(fi_http i \<or> fi_transient i \<or> fi_incomplete i) = another_may_serve e" if "i = failure_input_of s e ov act rem" for i
    using that by (cases e) (simp_all add: failure_input_of_def is_http_exception_def)
  then show ?thesis unfolding classify_failure_def non_retryable_input [OF assms] by (auto simp: failure_input_of_def)
qed

lemma client_error_codes:
  assumes "attempt_decision flag rules s e = Inr d" "fd_action d = RETURN_CLIENT_ERROR"
  shows "\<exists>x c r. client_error flag e = Inr x \<and> error_status x = Some c \<and> c \<in> set CLIENT_ERROR_STATUS_CODES
    \<and> canonicalize_upstream_error (Some c) (error_detail x) = Inr r"
proof -
  obtain ov act where a: "error_override flag rules e = Inr ov" "overflow_active flag e = Inr act" "act \<longrightarrow> ov = Some True"
      and d: "classify_failure (failure_input_of s e ov act (as_retry_count s < as_total_attempts s - 1)) = Inr d"
    using assms(1) by (rule attempt_decisionD)
  have ov: "ov = Some True" "the (error_status e) \<in> set CLIENT_ERROR_STATUS_CODES \<or> act"
    using d assms(2) unfolding classify_attempt [OF a(1)] by (auto simp: decide_def split: if_splits)
  from a(1) ov(1) obtain c where c: "error_status e = Some c" using override_status by blast
  obtain r where r: "canonicalize_upstream_error (Some c) (error_detail e) = Inr r" "act = (r \<noteq> None \<and> flag)"
    using a(2) c by (auto simp: overflow_active_def split: sum.splits)
  show ?thesis
  proof (cases act)
    case True
    then obtain k where k: "r = Some k" "flag" using r(2) by auto
    have "\<exists>r. canonicalize_upstream_error status (canonical_body k) = Inr r" for status
      by (simp add: canonicalize_upstream_error_def canonical_body_def parse_error_detail_def fields_of_def)
    then show ?thesis using k r(1) c canonical_status [of "Some c" "error_detail e"]
      by (simp add: client_error_def canonical_context_overflow_exception_def CLIENT_ERROR_STATUS_CODES_def)
  next
    case False
    then show ?thesis using r c ov(2) by (auto simp: client_error_def canonical_context_overflow_exception_def split: option.split)
  qed
qed

text \<open>
  No upstream status leaks: if the decision is to return the error to the client, the error that is
  raised has one of the client status codes, with the over-long input brought to status 400 when the
  switch for it is on. A 500 or 502 of an upstream never reaches the client this way.
\<close>

theorem client_error_status:
  assumes "attempt_decision flag rules s e = Inr d" "fd_action d = RETURN_CLIENT_ERROR"
  shows "\<exists>x c. client_error flag e = Inr x \<and> error_status x = Some c \<and> c \<in> set CLIENT_ERROR_STATUS_CODES"
  using client_error_codes [OF assms] by blast

theorem client_error_status_witness:
  "let e = HttpError \<lparr>he_status = 502, he_detail = PDict [(''error'', PDict [(''code'', PStr ''prompt_too_long''), (''context_window'', PInt 8192)])], he_code = None\<rparr>
   in \<exists>x c. client_error True e = Inr x \<and> error_status x = Some c \<and> c \<in> set CLIENT_ERROR_STATUS_CODES"
proof -
  let ?e = "HttpError \<lparr>he_status = 502, he_detail = PDict [(''error'', PDict [(''code'', PStr ''prompt_too_long''), (''context_window'', PInt 8192)])], he_code = None\<rparr>"
  let ?s = "\<lparr>as_stream = False, as_downstream_started = False, as_retry_count = 0, as_total_attempts = 2, as_extra_codes = [], as_has_client = True\<rparr>"
  have o: "error_override True [] ?e = Inr (Some True)" "overflow_active True ?e = Inr True"
    using prompt_canonical by (auto simp: error_override_def overflow_active_def is_non_retryable_error_def)
  have "\<exists>d. attempt_decision True [] ?s ?e = Inr d \<and> fd_action d = RETURN_CLIENT_ERROR"
    using classify_attempt [OF o(1), of ?s True] o by (simp add: attempt_decision_def decide_def)
  then show ?thesis using client_error_status [of True "[]" ?s ?e] by (auto simp: Let_def)
qed

text \<open>
  The two levels of retry agree: if a failure is to be sent again on the same account, the decision
  for the candidate is neither to pass the error on nor to end the stream, so that no terminal branch
  preempts the inner retry; nothing was sent to the client yet, and the failure is a network failure, a
  429, a 5xx or one of the configured status codes.
\<close>

theorem inner_retry_not_terminal:
  assumes "should_inner_retry flag rules s i n e = Inr True"
  shows "(\<exists>d. attempt_decision flag rules s e = Inr d \<and> fd_action d \<in> {RETRY, NO_RESOURCE_429} \<and> fd_rollback d)
    \<and> i < n - 1 \<and> \<not> (as_stream s \<and> as_downstream_started s)
    \<and> (case error_status e of Some c \<Rightarrow> c = 429 \<or> 500 \<le> c \<or> c \<in> set (as_extra_codes s) | None \<Rightarrow> (\<exists>t code. e = OtherError t True code))"
proof -
  obtain ov where ov: "error_override flag rules e = Inr ov" and i: "i < n - 1"
      and c: "classify_inner_retry ((failure_input_of s e ov False True)\<lparr>fi_upstream_started := True\<rparr>) = Inr True"
    using assms by (auto simp: should_inner_retry_def split: sum.splits if_splits)
  obtain act where act: "overflow_active flag e = Inr act" "act \<longrightarrow> ov = Some True" using override_active [OF ov] by blast
  have n: "non_retryable ((failure_input_of s e ov False True)\<lparr>fi_upstream_started := True\<rparr>) = Inr (ov = Some True)"
    using non_retryable_input [OF ov, of s False True] by simp
  have q: "\<not> (as_stream s \<and> as_downstream_started s)" "ov \<noteq> Some True"
    "case error_status e of Some c \<Rightarrow> c = 429 \<or> 500 \<le> c \<or> c \<in> set (as_extra_codes s) | None \<Rightarrow> (\<exists>t code. e = OtherError t True code)"
    using c unfolding classify_inner_retry_def n
    by (cases e; auto simp: failure_input_of_def is_http_exception_def split: if_splits option.splits)+
  have "\<exists>d. attempt_decision flag rules s e = Inr d \<and> fd_action d \<in> {RETRY, NO_RESOURCE_429} \<and> fd_rollback d"
    using ov act q(1,2) classify_attempt [OF ov, of s act] by (simp add: attempt_decision_def decide_def)
  with i q show ?thesis by blast
qed

theorem inner_retry_not_terminal_witness:
  "let s = \<lparr>as_stream = True, as_downstream_started = False, as_retry_count = 0, as_total_attempts = 1, as_extra_codes = [], as_has_client = True\<rparr>;
       e = OtherError ''Connection reset by peer'' True None
   in (\<exists>d. attempt_decision True [] s e = Inr d \<and> fd_action d \<in> {RETRY, NO_RESOURCE_429} \<and> fd_rollback d)"
proof -
  let ?s = "\<lparr>as_stream = True, as_downstream_started = False, as_retry_count = 0, as_total_attempts = 1, as_extra_codes = [], as_has_client = True\<rparr>"
  have "should_inner_retry True [] ?s 0 2 (OtherError ''Connection reset by peer'' True None) = Inr True"
    by (simp add: should_inner_retry_def error_override_def classify_inner_retry_def non_retryable_def failure_input_of_def)
  from inner_retry_not_terminal [OF this] show ?thesis by (simp add: Let_def)
qed

text \<open>
  C40. An upstream error whose text is JSON but no object, such as \<open>404\<close>, \<open>null\<close> or a list, makes the
  failure handling itself raise: the body is read as JSON and \<open>get\<close> is called on the number.
\<close>

theorem scalar_detail_raises:
  assumes "he_detail h = PStr t" "json_loads t = Some v" "as_dict v = None"
  shows "attempt_decision flag rules s (HttpError h) = Inl AttributeError"
proof -
  have "parse_error_detail (PStr t) = Inl AttributeError"
    using assms(2,3) by (cases v) (simp_all add: parse_error_detail_def fields_of_def as_dict_def)
  then show ?thesis using assms(1)
    by (simp add: attempt_decision_def error_override_def is_non_retryable_error_def canonicalize_upstream_error_def)
qed

theorem scalar_detail_raises_witness:
  "attempt_decision True [] \<lparr>as_stream = False, as_downstream_started = False, as_retry_count = 0, as_total_attempts = 1, as_extra_codes = [], as_has_client = True\<rparr>
     (HttpError \<lparr>he_status = 404, he_detail = PStr ''404'', he_code = None\<rparr>) = Inl AttributeError"
proof -
  have "json_loads ''404'' = Some (PInt 404)" by code_simp
  then show ?thesis by (intro scalar_detail_raises [where t = "''404''" and v = "PInt 404"]) (simp_all add: as_dict_def)
qed

section \<open>Canonical errors are stable\<close>

lemma rx_rest: "(r, g) \<in> set (rx_match x s) \<Longrightarrow> \<exists>k. r = drop k s"
proof (induction x arbitrary: r g s)
  case (RSeq x y)
  from RSeq.prems obtain r1 g1 g2 where "(r1, g1) \<in> set (rx_match x s)" "(r, g2) \<in> set (rx_match y r1)" by auto
  with RSeq.IH show ?case by (metis drop_drop)
next
  case (ROpt x)
  then show ?case by (auto intro: exI [of _ 0])
qed (auto split: if_splits)

definition dead :: "rx \<Rightarrow> string list \<Rightarrow> bool" where
  \<comment> \<open>the expression matches nowhere in the text\<close>
  "dead x s \<longleftrightarrow> (\<forall>k. rx_match x (drop k s) = [])"

lemma dead_search: "dead x s \<Longrightarrow> rx_search x s = None"
proof (induction s)
  case Nil
  then show ?case by (simp add: dead_def rx_search.simps [of x "[]"])
next
  case (Cons a s)
  have "rx_match x (drop k s) = []" for k using Cons.prems unfolding dead_def by (metis drop_Suc_Cons)
  moreover have "rx_match x (a # s) = []" using Cons.prems unfolding dead_def by (metis drop0)
  ultimately show ?case using Cons.IH by (simp add: dead_def rx_search.simps [of x "a # s"])
qed

lemma dead_RSeq: "dead x s \<or> dead y s \<Longrightarrow> dead (RSeq x y) s"
proof -
  assume a: "dead x s \<or> dead y s"
  have y: "rx_match y r = []" if "dead y s" "(r, g) \<in> set (rx_match x (drop k s))" for r g k
    using that rx_rest [OF that(2)] by (auto simp: dead_def)
  show ?thesis
  proof (cases "dead x s")
    case False
    with a have "dead y s" by blast
    then have "rx_match (RSeq x y) (drop k s) = []" for k using y [of _ _ k] by auto
    then show ?thesis by (simp add: dead_def)
  qed (simp add: dead_def)
qed

lemma dead_seq: "x \<in> set xs \<Longrightarrow> dead x s \<Longrightarrow> dead (seq xs) s"
  by (induction xs) (auto simp: seq_def intro: dead_RSeq)

lemma dead_number:
  assumes "\<forall>p \<in> set s. \<not> rx_digit p"
  shows "dead number_group s"
proof -
  have "takeWhile rx_digit (drop k s) = []" for k
    using assms in_set_dropD [of _ k s] by (cases "drop k s") fastforce+
  then show ?thesis by (simp add: dead_def run_length_def)
qed

lemma no_window_without_digits:
  assumes "\<forall>p \<in> set s. \<not> rx_digit p" "x \<in> set CONTEXT_WINDOW_PATTERNS"
  shows "rx_search x s = None"
proof (rule dead_search)
  show "dead x s" using assms(2) dead_seq [OF _ dead_number [OF assms(1)]] by (auto simp: CONTEXT_WINDOW_PATTERNS_def)
qed

lemma code_points_digit: "p \<in> set (code_points s) \<Longrightarrow> rx_digit p \<Longrightarrow> \<exists>c \<in> set s. digit_val c \<noteq> None"
proof (induction s rule: code_points.induct)
  case (2 c s)
  then show ?case by (fastforce simp: rx_digit_def dest: set_takeWhileD set_dropWhileD in_set_dropD)
qed simp

lemma first_some_None: "(\<forall>x \<in> set xs. x = None) \<Longrightarrow> first_some xs = None"
  by (induction xs) (simp_all add: first_some_Cons)

lemma extract_no_digits:
  assumes "explicit_context_window detail = None" "list_all (\<lambda>c. digit_val c = None) (stringify_detail detail)"
  shows "extract_context_window detail = None"
proof -
  have "\<forall>p \<in> set (code_points (stringify_detail detail)). \<not> rx_digit p"
    using code_points_digit assms(2) by (fastforce simp: list_all_iff)
  then show ?thesis using assms(1) no_window_without_digits
    by (simp add: extract_context_window_def Let_def first_some_None)
qed

lemma first_some_SomeD: "first_some xs = Some y \<Longrightarrow> Some y \<in> set xs"
  by (induction xs) (auto simp: first_some_Cons split: option.splits)

lemma large_enough_ge: "large_enough v = Some n \<Longrightarrow> 1024 \<le> n"
  by (auto simp: large_enough_def CONTEXT_WINDOW_MIN_TOKENS_def split: sum.splits if_splits)

lemma first_large:
  assumes "first_some (map f xs) = Some n" "\<And>x m. f x = Some m \<Longrightarrow> 1024 \<le> m"
  shows "(1024 :: int) \<le> n"
  using first_some_SomeD [OF assms(1)] assms(2) by auto

lemma window_ge:
  assumes "extract_context_window detail = Some n"
  shows "1024 \<le> n"
proof (cases "explicit_context_window detail")
  case None
  then have "first_some (map (\<lambda>x. case rx_search x (code_points (stringify_detail detail)) of None \<Rightarrow> None | Some g \<Rightarrow> large_enough (PStr (concat g)))
      CONTEXT_WINDOW_PATTERNS) = Some n"
    using assms by (simp add: extract_context_window_def)
  then show ?thesis by (rule first_large) (auto dest: large_enough_ge split: option.splits)
next
  case (Some m)
  then have e: "explicit_context_window detail = Some n" using assms by (simp add: extract_context_window_def)
  then obtain d where "detail = PDict d" by (auto simp: explicit_context_window_def split: pyval.splits)
  with e show ?thesis by (simp only: explicit_context_window_def pyval.case) (erule first_large, rule large_enough_ge)
qed

lemma body_window:
  "extract_context_window (canonical_body (canonical_result r (Some n))) = Some n" if "1024 \<le> n"
  using that by (simp add: extract_context_window_def explicit_context_window_def canonical_body_def canonical_result_def openai_error_def dget_def
      large_enough_def py_or_def CONTEXT_WINDOW_MIN_TOKENS_def first_some_Cons)

definition clean :: "string \<Rightarrow> bool" where
  \<comment> \<open>no digit, nothing that JSON would escape by its number\<close>
  "clean t \<longleftrightarrow> list_all (\<lambda>c. digit_val c = None \<and> 32 \<le> (of_char c :: nat)) t"

lemma clean_append [simp]: "clean (s @ t) \<longleftrightarrow> clean s \<and> clean t"
  by (simp add: clean_def)

lemma clean_subset: "clean t \<Longrightarrow> set s \<subseteq> set t \<Longrightarrow> clean s"
  by (auto simp: clean_def list_all_iff)

lemma clean_normalize: "clean t \<Longrightarrow> clean (normalize_upstream_error_message t)"
proof -
  have "clean UPSTREAM_DEGRADED_FUNCTION_MESSAGE" by code_simp
  moreover have "set (strip t) \<subseteq> set t" for t
    by (auto simp: strip_def lstrip_def rstrip_def dest!: set_dropWhileD)
  ultimately show "clean t \<Longrightarrow> clean (normalize_upstream_error_message t)"
    by (auto simp: normalize_upstream_error_message_def intro: clean_subset)
qed

lemma clean_quote: "clean t \<Longrightarrow> clean (json_quote t)"
proof -
  have q: "clean [CHR 0x22]" "clean [CHR 0x5C]" by code_simp+
  have "clean (json_esc c)" if "clean [c]" for c
    using that q by (auto simp: json_esc_def clean_def Let_def)
  then have "clean (concat (map json_esc t))" if "clean t" using that
    by (induction t) (auto simp: clean_def)
  then show "clean t \<Longrightarrow> clean (json_quote t)" using q by (simp add: json_quote_def clean_def)
qed

lemma rule_messages: "r \<in> set ERROR_CANONICAL_RULES \<Longrightarrow> clean (cn_message r) \<and> clean (cn_type r) \<and> clean (cn_code r)"
proof -
  let ?P = "\<lambda>r. clean (cn_message r) \<and> clean (cn_type r) \<and> clean (cn_code r)"
  have "?P thinking_budget_invalid_rule" by code_simp
  moreover have "?P max_tokens_exceeded_rule" by code_simp
  moreover have "?P prompt_too_long_rule" by code_simp
  moreover have "?P input_too_long_rule" by code_simp
  moreover have "?P model_context_limit_rule" by code_simp
  moreover have "?P context_length_exceeded_rule"
  proof -
    have "clean (''Your input exceeds this model'' @ [CHR 0x27] @ ''s maximum context window. Please reduce the length of the conversation.'')"
      "clean ''invalid_request_error''" "clean ''context_length_exceeded''" by code_simp+
    then show ?thesis unfolding context_length_exceeded_rule_def by (simp only: canonical_rule.simps simp_thms)
  qed
  ultimately show "r \<in> set ERROR_CANONICAL_RULES \<Longrightarrow> ?P r" by (auto simp: ERROR_CANONICAL_RULES_def)
qed

lemma body_no_window:
  assumes "r \<in> set ERROR_CANONICAL_RULES"
  shows "extract_context_window (canonical_body (canonical_result r None)) = None"
proof (rule extract_no_digits)
  show "explicit_context_window (canonical_body (canonical_result r None)) = None"
    by (simp add: explicit_context_window_def canonical_body_def canonical_result_def openai_error_def dget_def
      large_enough_def py_or_def CONTEXT_WINDOW_MIN_TOKENS_def first_some_Cons)
  have k: "clean ''{''" "clean ''}''" "clean '': ''" "clean '', ''" "clean ''error''" "clean ''message''" "clean ''type''" "clean ''code''" by code_simp+
  have "clean (stringify_detail (canonical_body (canonical_result r None)))"
    using rule_messages [OF assms]
    by (simp only: stringify_detail_def canonical_body_def canonical_result_def display_message_def with_context_window_def openai_error_def
        canonical_error.simps pyval.case option.case append_Nil2 json_dumps.simps list.map join.simps fst_conv snd_conv)
      (simp only: clean_append clean_quote clean_normalize k simp_thms)
  then show "list_all (\<lambda>c. digit_val c = None) (stringify_detail (canonical_body (canonical_result r None)))"
    by (auto simp: clean_def list_all_iff)
qed

lemma body_code:
  "\<exists>e. parse_error_detail (canonical_body c) = Inr e \<and> ef_code e = lower (ce_error_code c)
     \<and> ef_message e = lower (py_str (py_or (PStr (normalize_upstream_error_message (display_message c))) (canonical_body c)))"
  by (simp add: canonical_body_def parse_error_detail_def fields_of_def openai_error_def lower_field_def dget_def py_or_def py_str_def)

lemma rule_codes:
  "cn_codes thinking_budget_invalid_rule = []" "cn_codes max_tokens_exceeded_rule = [''max_tokens_exceeded'']"
  "cn_codes prompt_too_long_rule = [''prompt_too_long'']" "cn_codes input_too_long_rule = [''input_token_limit_exceeded'', ''input_too_long'']"
  "cn_codes model_context_limit_rule = [''model_context_limit'']"
  "cn_codes context_length_exceeded_rule = [''context_too_large'', ''context_length_exceeded'', ''request_too_large'', ''payload_too_large'']"
  "cn_code thinking_budget_invalid_rule = ''invalid_request_error''" "cn_code max_tokens_exceeded_rule = ''max_tokens_exceeded''"
  "cn_code prompt_too_long_rule = ''prompt_too_long''" "cn_code input_too_long_rule = ''input_too_long''"
  "cn_code model_context_limit_rule = ''model_context_limit''" "cn_code context_length_exceeded_rule = ''context_length_exceeded''"
  by (simp_all add: thinking_budget_invalid_rule_def max_tokens_exceeded_rule_def prompt_too_long_rule_def
    input_too_long_rule_def model_context_limit_rule_def context_length_exceeded_rule_def)

lemma own_code:
  assumes "r \<in> set ERROR_CANONICAL_RULES" "r \<noteq> thinking_budget_invalid_rule"
  shows "find (\<lambda>r'. lower (cn_code r) \<in> set (cn_codes r')) ERROR_CANONICAL_RULES = Some r \<and> lower (cn_code r) \<noteq> []"
proof -
  let ?P = "\<lambda>r. find (\<lambda>r'. cn_code r \<in> set (cn_codes r')) ERROR_CANONICAL_RULES = Some r \<and> cn_code r \<noteq> [] \<and> cn_code r \<in> set OVERFLOW_CODES"
  have low: "list_all (\<lambda>c. lower c = c) OVERFLOW_CODES" by code_simp
  have "?P max_tokens_exceeded_rule" by (simp add: ERROR_CANONICAL_RULES_def OVERFLOW_CODES_def rule_codes)
  moreover have "?P prompt_too_long_rule" by (simp add: ERROR_CANONICAL_RULES_def OVERFLOW_CODES_def rule_codes)
  moreover have "?P input_too_long_rule" by (simp add: ERROR_CANONICAL_RULES_def OVERFLOW_CODES_def rule_codes)
  moreover have "?P model_context_limit_rule" by (simp add: ERROR_CANONICAL_RULES_def OVERFLOW_CODES_def rule_codes)
  moreover have "?P context_length_exceeded_rule" by (simp add: ERROR_CANONICAL_RULES_def OVERFLOW_CODES_def rule_codes)
  moreover have "r \<in> {max_tokens_exceeded_rule, prompt_too_long_rule, input_too_long_rule, model_context_limit_rule, context_length_exceeded_rule}"
    using assms by (auto simp: ERROR_CANONICAL_RULES_def)
  ultimately have "?P r" by (elim insertE) (simp_all only: empty_iff simp_thms)
  then show ?thesis using low by (auto simp: list_all_iff)
qed

lemma contains_chars: "contains p s \<Longrightarrow> set p \<subseteq> set s"
  by (auto simp: contains_iff_sublist)

abbreviation thinking_text :: string where
  "thinking_text \<equiv> ''thinking.budget_tokens must be less than max_tokens''"

lemma thinking_suffix: "\<exists>t. with_context_window thinking_text w = thinking_text @ t \<and> (t = '''' \<or> (\<exists>n. t = '' (context window: '' @ int_str n @ '' tokens)''))"
  by (auto simp: with_context_window_def Let_def split: option.split)

lemma int_str_no_v: "CHR ''v'' \<notin> lower_char ` set (int_str n)"
proof
  assume "CHR ''v'' \<in> lower_char ` set (int_str n)"
  then obtain c where c: "lower_char c = CHR ''v''" "c \<in> set (int_str n)" by (metis imageE)
  have "set (int_str n) \<subseteq> insert (CHR ''-'') (digit_char ` {0..9})"
    using set_nat_str [of "nat n"] set_nat_str [of "nat (- n)"] unfolding int_str_def by (cases "n < 0") auto
  moreover have "\<forall>c \<in> insert (CHR ''-'') (digit_char ` {0..9}). lower_char c \<noteq> CHR ''v''" by code_simp
  ultimately show False using c by (metis subsetD)
qed

lemma thinking_normalized:
  "normalize_upstream_error_message (with_context_window thinking_text w) = with_context_window thinking_text w"
proof -
  obtain t where t: "with_context_window thinking_text w = thinking_text @ t" "t = '''' \<or> (\<exists>n. t = '' (context window: '' @ int_str n @ '' tokens)'')"
    using thinking_suffix by blast
  have v: "CHR ''v'' \<notin> set (lower thinking_text)" "CHR ''v'' \<notin> set (lower '' (context window: '')" "CHR ''v'' \<notin> set (lower '' tokens)'')"
    by code_simp+
  have "CHR ''v'' \<notin> set (lower (thinking_text @ t))"
  proof (cases "t = ''''")
    case True
    then show ?thesis using v(1) by (simp only: append_Nil2 simp_thms)
  next
    case False
    then obtain n where "t = '' (context window: '' @ int_str n @ '' tokens)''" using t(2) by blast
    moreover have "CHR ''v'' \<notin> set (lower (int_str n))" using int_str_no_v by (simp add: lower_def)
    ultimately show ?thesis using v by (simp only: lower_append set_append Un_iff simp_thms)
  qed
  moreover have "CHR ''v'' \<in> set ''degraded function cannot be invoked''" by code_simp
  ultimately have "\<not> is_degraded_function_error (thinking_text @ t)"
    using contains_chars unfolding is_degraded_function_error_def by blast
  moreover have "strip (thinking_text @ t) = thinking_text @ t"
    using t(2) by (auto simp: strip_iff is_space_def)
  ultimately show ?thesis by (simp only: t(1) normalize_upstream_error_message_def if_False)
qed

lemma lower_thinking: "lower thinking_text = thinking_text"
  by code_simp

lemma thinking_marker:
  assumes "ef_message e = lower (thinking_text @ t)"
  shows "contains ''budget_tokens must be less than max_tokens'' (haystack e)"
proof -
  have "contains ''budget_tokens must be less than max_tokens'' (''thinking.'' @ ''budget_tokens must be less than max_tokens'' @ [])"
    by (rule contains_refl_append)
  then have "contains ''budget_tokens must be less than max_tokens'' thinking_text" by (simp only: append_Nil2) (simp del: contains.simps)
  then show ?thesis unfolding haystack_def assms lower_append lower_thinking
    by (intro contains_append_right contains_append_left)
qed

lemma text_or: "lower (py_str (py_or (PStr (thinking_text @ t)) v)) = lower (thinking_text @ t)"
proof -
  have "py_str (py_or (PStr s) v) = s" if "s \<noteq> []" for s using that by (simp add: py_or_def py_str_def)
  from this [of "thinking_text @ t"] show ?thesis by (simp only: append_is_Nil_conv list.distinct simp_thms)
qed

lemma thinking_stable:
  assumes "c = canonical_result thinking_budget_invalid_rule w" "extract_context_window (canonical_body c) = w"
  shows "canonicalize_upstream_error status (canonical_body c) = Inr (Some c)"
proof -
  obtain e where e: "parse_error_detail (canonical_body c) = Inr e" "ef_code e = lower (ce_error_code c)"
      "ef_message e = lower (py_str (py_or (PStr (normalize_upstream_error_message (display_message c))) (canonical_body c)))"
    using body_code by blast
  obtain t where t: "with_context_window thinking_text w = thinking_text @ t" using thinking_suffix by blast
  have d: "display_message c = with_context_window thinking_text w" "ce_error_code c = ''invalid_request_error''"
    by (simp_all add: assms(1) display_message_def canonical_result_def thinking_budget_invalid_rule_def)
  have "ef_message e = lower (thinking_text @ t)"
    unfolding e(3) d(1) thinking_normalized unfolding t by (rule text_or)
  then have m: "contains ''budget_tokens must be less than max_tokens'' (haystack e)" by (rule thinking_marker)
  have l: "lower ''invalid_request_error'' = ''invalid_request_error''" by code_simp
  have by_code: "find (\<lambda>r. ef_code e \<in> set (cn_codes r)) ERROR_CANONICAL_RULES = None"
    by (simp add: e(2) d(2) l ERROR_CANONICAL_RULES_def rule_codes)
  have by_text: "find (\<lambda>r. \<exists>mk \<in> set (cn_markers r). contains mk (haystack e)) ERROR_CANONICAL_RULES = Some thinking_budget_invalid_rule"
    using m by (simp add: ERROR_CANONICAL_RULES_def thinking_budget_invalid_rule_def del: contains.simps)
  show ?thesis unfolding canonicalize_upstream_error_def e(1) sum.case by_code by_text Let_def
    using assms by (simp add: first_some_Cons)
qed

text \<open>
  The canonical form is stable: the exception that leaves the attempt is read again by the exception
  handler of the application, and is recognised there as exactly the same error with the same context
  window.
\<close>

theorem canonical_stable:
  assumes "canonicalize_upstream_error status detail = Inr (Some c)"
  shows "canonicalize_upstream_error (Some (ce_status_code c)) (canonical_body c) = Inr (Some c)"
proof -
  let ?w = "extract_context_window detail"
  obtain r where r: "r \<in> set ERROR_CANONICAL_RULES" "c = canonical_result r ?w" using assms by (elim canonicalizeD)
  have w: "extract_context_window (canonical_body c) = ?w"
    using body_no_window [OF r(1)] body_window window_ge r(2) by (cases ?w) (metis, metis)
  show ?thesis
  proof (cases "r = thinking_budget_invalid_rule")
    case True
    with r w show ?thesis by (intro thinking_stable) simp_all
  next
    case False
    obtain e where e: "parse_error_detail (canonical_body c) = Inr e" "ef_code e = lower (ce_error_code c)" using body_code by blast
    have "ce_error_code c = cn_code r" by (simp add: r(2) canonical_result_def)
    with own_code [OF r(1) False] e have "ef_code e \<noteq> []" "find (\<lambda>r. ef_code e \<in> set (cn_codes r)) ERROR_CANONICAL_RULES = Some r" by simp_all
    from canonical_by_code [OF e(1) this] show ?thesis using r(2) w by simp
  qed
qed

theorem canonical_stable_witness:
  "let c = the (projr (canonicalize_upstream_error (Some 502) (PDict [(''error'', PDict [(''code'', PStr ''prompt_too_long''), (''context_window'', PInt 8192)])])))
   in canonicalize_upstream_error (Some (ce_status_code c)) (canonical_body c) = Inr (Some c)"
  using canonical_stable [OF prompt_canonical [of "Some 502"]] prompt_canonical [of "Some 502"] by (simp add: Let_def)

end
