(* ===== verification/Lub_Terminal.thy ===== *)
theory Lub_Terminal
  imports Lub_AttemptProps
begin

text \<open>
  How a request that cannot be served ends: the functions of \<open>main.py\<close> that derive the final code and
  status from the last failure, and the exception handler of the application that builds the body of the
  response. Paths are only told apart by their protocol (Anthropic messages or not); headers are reduced
  to \<open>Retry-After\<close>.
\<close>

section \<open>Terminal errors\<close>

definition RETRYABLE_CLIENT_MESSAGE :: string where
  "RETRYABLE_CLIENT_MESSAGE = utf8_text [230, 156, 141, 229, 138, 161, 231, 171, 175, 229, 188, 130, 229, 184, 184, 239, 188, 140,
     232, 175, 183, 233, 135, 141, 232, 175, 149]"

abbreviation compact_message :: string where
  "compact_message \<equiv> ''Your input exceeds the context window of the model. Please compact the conversation or adjust your input.''"

definition TERMINAL_ERROR_MESSAGES :: "(string \<times> string) list" where
  "TERMINAL_ERROR_MESSAGES =
    [(''rate_limit_exceeded'', ''Rate limit exceeded; please retry later.''),
     (''concurrent_limit_exceeded'', ''Concurrency limit exceeded; please retry later.''),
     (''quota_exhausted'', ''Upstream quota exhausted.''),
     (''no_available_account'', ''No available account for the requested model.''),
     (''context_too_large'', compact_message),
     (''context_length_exceeded'', compact_message),
     (''prompt_too_long'', ''prompt is too long: Please compact the conversation or adjust your input.''),
     (''input_too_long'', compact_message),
     (''model_context_limit'', compact_message),
     (''max_tokens_exceeded'', ''max_tokens exceeds the remaining context window. Please compact the conversation or lower max_tokens.''),
     (''service_busy'', ''Service temporarily busy; please retry.''),
     (''retry_exhausted'', ''Request failed after retries.''),
     (''api_key_expired'', ''API key has expired.''),
     (''api_key_disabled'', ''API key has been disabled.''),
     (''api_key_invalid'', ''Invalid API key.''),
     (''api_key_rate_limit_exceeded'', ''API key rate limit exceeded; please retry later.''),
     (''api_key_concurrent_limit_exceeded'', ''API key concurrency limit exceeded; please retry.''),
     (''api_key_ip_limit_exceeded'', ''API key IP limit exceeded.''),
     (''api_key_quota_exhausted'', ''API key quota exhausted.'')]"

definition RETRYABLE_CODES :: "string list" where
  "RETRYABLE_CODES = [''rate_limit_exceeded'', ''concurrent_limit_exceeded'', ''service_busy'', ''retry_exhausted'',
     ''api_key_rate_limit_exceeded'', ''api_key_concurrent_limit_exceeded'']"

definition retry_after_for_code :: "string \<Rightarrow> int option" where
  "retry_after_for_code code = (if code \<in> set RETRYABLE_CODES then Some 1 else None)"

definition opt_int :: "int option \<Rightarrow> pyval" where
  "opt_int x = (case x of None \<Rightarrow> PNone | Some n \<Rightarrow> PInt n)"

definition terminal_message :: "string \<Rightarrow> string \<Rightarrow> string" where
  "terminal_message code dflt = (case map_of TERMINAL_ERROR_MESSAGES code of Some t \<Rightarrow> t | None \<Rightarrow> dflt)"

definition retryable_client_error_detail :: "string \<Rightarrow> int \<Rightarrow> int option \<Rightarrow> int option \<Rightarrow> pyval" where
  "retryable_client_error_detail code retries upstream retry_after = PDict
     [(''upstream_status'', opt_int upstream), (''message'', PStr (terminal_message code RETRYABLE_CLIENT_MESSAGE)), (''retries'', PInt retries),
      (''kind'', PStr code), (''code'', PStr code), (''retry_after'', opt_int retry_after)]"

text \<open>
  Errors that leave the retry loop. \<open>NoAvailableAccountError\<close> is an \<open>HTTPException\<close> with a code of its own.
\<close>

record no_account =
  na_status :: int
  na_detail :: pyval
  na_code :: string

definition upstream_cause :: "attempt_error \<Rightarrow> int option \<times> pyval" where
  \<comment> \<open>where the status and the text of the last failure are looked for\<close>
  "upstream_cause e = (case e of
      IncompleteStream t code (Some (CauseHttp h)) \<Rightarrow> (Some (he_status h), he_detail h)
    | IncompleteStream t code (Some (CauseText u)) \<Rightarrow> (None, PStr (t @ '' '' @ u))
    | _ \<Rightarrow> (error_status e, error_detail e))"

definition is_incomplete :: "attempt_error \<Rightarrow> bool" where
  "is_incomplete e = (case e of IncompleteStream _ _ _ \<Rightarrow> True | EmptyResponse _ _ \<Rightarrow> True | _ \<Rightarrow> False)"

definition business_code :: "attempt_error \<Rightarrow> string option" where
  \<comment> \<open>a code in the detail of an \<open>HTTPException\<close> is passed on\<close>
  "business_code e = (case (error_status e, error_detail e) of
      (Some _, PDict d) \<Rightarrow> if truthy (dget d ''code'') then Some (py_str (dget d ''code'')) else None
    | _ \<Rightarrow> None)"

definition exhausted_code :: "attempt_error \<Rightarrow> string \<times> int option" where
  \<comment> \<open>the code of a failure that is no overflow\<close>
  "exhausted_code e = (if is_incomplete e then (''retry_exhausted'', None)
     else (case error_status e of
        None \<Rightarrow> (''retry_exhausted'', None)
      | Some c \<Rightarrow> (if c = 429 then ''rate_limit_exceeded'' else if c \<in> {401, 403, 404} then ''no_available_account'' else ''retry_exhausted'', Some c)))"

definition terminal_429_from_last_error :: "bool \<Rightarrow> attempt_error option \<Rightarrow> pyerror + string \<times> int option" where
  "terminal_429_from_last_error flag last_error = (case last_error of
      None \<Rightarrow> Inr (''no_available_account'', None)
    | Some e \<Rightarrow> (case business_code e of
        Some code \<Rightarrow> Inr (code, error_status e)
      | None \<Rightarrow> (case upstream_cause e of (status, detail) \<Rightarrow>
          (case canonical_overflow_error status detail of
             Inl x \<Rightarrow> Inl x
           | Inr (Some c) \<Rightarrow> Inr (if flag then (ce_error_code c, status) else exhausted_code e)
           | Inr None \<Rightarrow> Inr (exhausted_code e)))))"

definition overflow_window_from_last_error :: "attempt_error option \<Rightarrow> int option" where
  "overflow_window_from_last_error last_error = (case last_error of
      None \<Rightarrow> None
    | Some e \<Rightarrow> extract_context_window (snd (upstream_cause e)))"

definition overflow_body :: "string \<Rightarrow> int \<Rightarrow> int option \<Rightarrow> int option \<Rightarrow> pydict" where
  "overflow_body code retries upstream window =
     (let message = (case map_of TERMINAL_ERROR_MESSAGES code of Some t \<Rightarrow> t | None \<Rightarrow> compact_message);
          err = openai_error message ''invalid_request_error'' code @
            [(''compact'', PBool True), (''suggested_action'', PStr ''compact''), (''retryable'', PBool False),
             (''upstream_status'', opt_int upstream), (''retries'', PInt retries)]
      in case window of
           None \<Rightarrow> err
         | Some n \<Rightarrow> if n = 0 then err
             else dset (dset err ''message'' (PStr (with_context_window (py_str (dget err ''message'')) (Some n)))) ''context_window'' (PInt n))"

definition terminal_client_error :: "string \<Rightarrow> int \<Rightarrow> int option \<Rightarrow> int option \<Rightarrow> http_error" where
  "terminal_client_error code retries upstream window =
     (if overflow_code_of (Some code) \<noteq> None
      then \<lparr>he_status = 400, he_detail = PDict [(''error'', PDict (overflow_body code retries upstream window))], he_code = None\<rparr>
      else \<lparr>he_status = 429, he_detail = retryable_client_error_detail code retries upstream (retry_after_for_code code), he_code = None\<rparr>)"

definition terminal_error :: "bool \<Rightarrow> int \<Rightarrow> attempt_error option \<Rightarrow> pyerror + http_error" where
  \<comment> \<open>the end of the retry loops\<close>
  "terminal_error flag retries last_error = (case terminal_429_from_last_error flag last_error of
      Inl x \<Rightarrow> Inl x
    | Inr (code, upstream) \<Rightarrow> Inr (terminal_client_error code retries upstream (overflow_window_from_last_error last_error)))"

section \<open>The exception handler\<close>

definition error_message_from_detail :: "pyval \<Rightarrow> string" where
  "error_message_from_detail detail = normalize_upstream_error_message (case detail of
      PDict d \<Rightarrow> (case dget d ''error'' of
          PDict e \<Rightarrow> if truthy (dget e ''message'') then py_str (dget e ''message'')
                     else if truthy (dget d ''message'') then py_str (dget d ''message'') else py_str detail
        | _ \<Rightarrow> if truthy (dget d ''message'') then py_str (dget d ''message'') else py_str detail)
    | _ \<Rightarrow> py_str detail)"

definition openai_error_type_for_status :: "int \<Rightarrow> string" where
  "openai_error_type_for_status c =
     (if c = 401 then ''authentication_error'' else if c = 403 then ''permission_error'' else if c = 404 then ''not_found_error''
      else if c = 429 then ''rate_limit_error'' else if 500 \<le> c then ''server_error'' else ''invalid_request_error'')"

definition anthropic_error_type_for_status :: "int \<Rightarrow> string" where
  "anthropic_error_type_for_status c =
     (if c = 401 then ''authentication_error'' else if c = 403 then ''permission_error'' else if c = 404 then ''not_found_error''
      else if c = 429 then ''rate_limit_error'' else if 500 \<le> c then ''api_error'' else ''invalid_request_error'')"

datatype raised = RaisedHttp http_error | RaisedNoAccount no_account

fun raised_status :: "raised \<Rightarrow> int" where
  "raised_status (RaisedHttp h) = he_status h"
| "raised_status (RaisedNoAccount n) = na_status n"

fun raised_detail :: "raised \<Rightarrow> pyval" where
  "raised_detail (RaisedHttp h) = he_detail h"
| "raised_detail (RaisedNoAccount n) = na_detail n"

record response =
  rs_status :: int
  rs_retry_after :: "int option"
  rs_body :: pydict

definition dupdate :: "pydict \<Rightarrow> pydict \<Rightarrow> pydict" where
  "dupdate d e = fold (\<lambda>(k, v) d. dset d k v) e d"

definition compact_response :: "bool \<Rightarrow> canonical_error \<Rightarrow> response" where
  "compact_response anthropic c =
     (let window = (case ce_window c of Some n \<Rightarrow> if n \<noteq> 0 then [(''context_window'', PInt n)] else [] | None \<Rightarrow> []);
          signals = [(''compact'', PBool True), (''suggested_action'', PStr ''compact'')]
      in \<lparr>rs_status = ce_status_code c, rs_retry_after = None,
          rs_body = (if anthropic
            then [(''type'', PStr ''error''), (''error'', PDict ([(''type'', PStr (ce_type c)), (''message'', PStr (display_message c)), (''code'', PStr (ce_error_code c))] @ signals @ window))]
            else [(''error'', PDict (openai_error (display_message c) (ce_type c) (ce_error_code c) @ signals @ window))])\<rparr>)"

definition enveloped_response :: "raised \<Rightarrow> pydict \<Rightarrow> pydict \<Rightarrow> response" where
  \<comment> \<open>a detail that already is an error envelope\<close>
  "enveloped_response exc d e =
     (let e1 = (if dget e ''message'' \<noteq> PNone then dset e ''message'' (PStr (normalize_upstream_error_message (py_str (dget e ''message'')))) else e)
      in \<lparr>rs_status = raised_status exc, rs_retry_after = None, rs_body = dset d ''error'' (PDict e1)\<rparr>)"

definition no_account_extra :: "string \<Rightarrow> pydict" where
  "no_account_extra code = [(''kind'', PStr code), (''code'', PStr code)]
     @ (if code = ''context_too_large'' then [(''retries'', PInt 0), (''compact'', PBool True), (''suggested_action'', PStr ''compact'')] else [])
     @ (case retry_after_for_code code of Some n \<Rightarrow> [(''retry_after'', PInt n)] | None \<Rightarrow> [])"

definition detail_extra :: "pyval \<Rightarrow> pydict \<Rightarrow> pydict" where
  \<comment> \<open>the fields of a flat detail\<close>
  "detail_extra detail extra = (case detail of
      PDict d \<Rightarrow>
        (if truthy (dget d ''kind'') \<or> truthy (dget d ''code'')
         then fold (\<lambda>k ex. if dget d k \<noteq> PNone then dset ex k (dget d k) else ex) [''kind'', ''code'', ''retries'', ''upstream_status'', ''retry_after'']
                (if dget d ''kind'' = PNone \<and> dget d ''code'' \<noteq> PNone then dset extra ''kind'' (dget d ''code'') else extra)
         else extra)
    | _ \<Rightarrow> extra)"

definition plain_response :: "bool \<Rightarrow> raised \<Rightarrow> response" where
  "plain_response anthropic exc =
     (let code0 = (case exc of RaisedNoAccount n \<Rightarrow> (if na_code n \<noteq> [] then na_code n else ''no_available_account'') | _ \<Rightarrow> '''');
          (message, extra0, status) = (case exc of
              RaisedNoAccount n \<Rightarrow> (terminal_message code0 (terminal_message ''no_available_account'' ''''), no_account_extra code0,
                                     if code0 = ''context_too_large'' then 400 else na_status n)
            | RaisedHttp h \<Rightarrow> (error_message_from_detail (he_detail h), [], he_status h));
          extra = detail_extra (raised_detail exc) extra0;
          after = (if raised_status exc = 429 \<and> truthy (dget extra ''retry_after'') then (case py_int (dget extra ''retry_after'') of Inr n \<Rightarrow> Some n | Inl _ \<Rightarrow> None) else None)
      in \<lparr>rs_status = status, rs_retry_after = after,
          rs_body = (if anthropic
            then [(''type'', PStr ''error''), (''error'', PDict (dupdate [(''type'', PStr (anthropic_error_type_for_status status)), (''message'', PStr message)] extra))]
            else [(''error'', PDict (dupdate [(''message'', PStr (normalize_upstream_error_message message)), (''type'', PStr (openai_error_type_for_status status)),
                    (''code'', py_or (dget extra ''code'') (dget extra ''kind''))] extra))])\<rparr>)"

definition openai_http_exception_handler :: "bool \<Rightarrow> bool \<Rightarrow> raised \<Rightarrow> pyerror + response" where
  "openai_http_exception_handler flag anthropic exc =
     (let envelope = (case raised_detail exc of
            PDict d \<Rightarrow> (case dget d ''error'' of PDict e \<Rightarrow> enveloped_response exc d e | _ \<Rightarrow> plain_response anthropic exc)
          | _ \<Rightarrow> plain_response anthropic exc)
      in case exc of
           RaisedNoAccount n \<Rightarrow> Inr envelope
         | RaisedHttp h \<Rightarrow> (case canonicalize_upstream_error (Some (he_status h)) (he_detail h) of
             Inl x \<Rightarrow> Inl x
           | Inr (Some c) \<Rightarrow> Inr (if flag then compact_response anthropic c else envelope)
           | Inr None \<Rightarrow> Inr envelope))"

section \<open>Properties\<close>

lemma parse_dict: "\<exists>e. parse_error_detail (PDict d) = Inr e"
  by (simp add: parse_error_detail_def fields_of_def)

lemma canonicalize_dict: "\<exists>r. canonicalize_upstream_error status (PDict d) = Inr r"
  using parse_dict [of d] by (auto simp: canonicalize_upstream_error_def)

lemma handler_status:
  assumes "canonicalize_upstream_error (Some (he_status h)) (he_detail h) = Inr r"
  shows "\<exists>r. openai_http_exception_handler flag anthropic (RaisedHttp h) = Inr r \<and> (rs_status r = he_status h \<or> rs_status r = 400)"
  using assms
  by (auto simp: openai_http_exception_handler_def Let_def plain_response_def enveloped_response_def compact_response_def canonical_status
      split: option.split pyval.split)

lemma handler_dict:
  assumes "he_detail h = PDict d"
  shows "\<exists>r. openai_http_exception_handler flag anthropic (RaisedHttp h) = Inr r \<and> (rs_status r = he_status h \<or> rs_status r = 400)"
  using handler_status canonicalize_dict [of "Some (he_status h)" d] assms by metis

lemma handler_no_account:
  "\<exists>r. openai_http_exception_handler flag anthropic (RaisedNoAccount n) = Inr r \<and> (rs_status r = na_status n \<or> rs_status r = 400)"
  by (auto simp: openai_http_exception_handler_def Let_def plain_response_def enveloped_response_def split: pyval.split)

lemma plain_retry_after: "rs_retry_after (plain_response anthropic (RaisedHttp h)) \<noteq> None \<Longrightarrow> rs_status (plain_response anthropic (RaisedHttp h)) = 429"
  by (simp add: plain_response_def Let_def split: if_splits)

lemma handler_retry_after:
  assumes "openai_http_exception_handler flag anthropic (RaisedHttp h) = Inr r"
  shows "rs_retry_after r \<noteq> None \<longrightarrow> rs_status r = 429"
proof -
  have "(\<exists>c. r = compact_response anthropic c) \<or> (\<exists>d e. r = enveloped_response (RaisedHttp h) d e) \<or> r = plain_response anthropic (RaisedHttp h)"
    using assms unfolding openai_http_exception_handler_def Let_def
    by (cases "he_detail h") (auto split: sum.splits option.splits if_splits pyval.splits)
  then show ?thesis using plain_retry_after by (auto simp: enveloped_response_def compact_response_def Let_def)
qed

lemma terminal_detail_dict: "\<exists>d. he_detail (terminal_client_error code n up w) = PDict d"
  by (simp add: terminal_client_error_def retryable_client_error_detail_def)

lemma terminal_status: "he_status (terminal_client_error code n up w) = (if overflow_code_of (Some code) \<noteq> None then 400 else 429)"
  by (simp add: terminal_client_error_def)

lemma terminal_error_total:
  assumes "parse_error_detail (snd (upstream_cause e)) = Inr f"
  shows "\<exists>h. terminal_error flag n (Some e) = Inr h"
proof -
  have "\<exists>r. canonical_overflow_error status (snd (upstream_cause e)) = Inr r" for status
    using assms by (auto simp: canonical_overflow_error_def canonicalize_upstream_error_def split: option.split)
  then obtain r where "canonical_overflow_error (fst (upstream_cause e)) (snd (upstream_cause e)) = Inr r" by blast
  then have "\<exists>x. terminal_429_from_last_error flag (Some e) = Inr x"
    by (cases r) (auto simp: terminal_429_from_last_error_def split: option.split prod.split)
  then show ?thesis by (auto simp: terminal_error_def)
qed

lemma terminal_message_keys: "dget (openai_error m t c @ x) ''code'' = PStr c"
  by (simp add: dget_def openai_error_def)

lemma overflow_body_code: "dget (overflow_body code n up w) ''code'' = PStr code"
  by (simp add: overflow_body_def Let_def dget_dset terminal_message_keys split: option.split)

lemma code_recognised:
  \<comment> \<open>an envelope with the code of a rule is read as that rule\<close>
  assumes "r \<in> set ERROR_CANONICAL_RULES" "r \<noteq> thinking_budget_invalid_rule" "dget err ''code'' = PStr (cn_code r)"
  shows "\<exists>w. canonicalize_upstream_error status (PDict [(''error'', PDict err)]) = Inr (Some (canonical_result r w))"
proof -
  have e: "\<exists>e. parse_error_detail (PDict [(''error'', PDict err)]) = Inr e \<and> ef_code e = lower (cn_code r)"
    using assms(3) rule_messages [OF assms(1)] by (auto simp: parse_error_detail_def fields_of_def lower_field_def dget_def py_or_def py_str_def)
  then obtain e where "parse_error_detail (PDict [(''error'', PDict err)]) = Inr e" "ef_code e = lower (cn_code r)" by blast
  with own_code [OF assms(1,2)] canonical_by_code show ?thesis by metis
qed

lemma overflow_rule:
  assumes "canonical_overflow_error status detail = Inr (Some c)"
  obtains r where "r \<in> set ERROR_CANONICAL_RULES" "r \<noteq> thinking_budget_invalid_rule" "ce_error_code c = cn_code r"
    "overflow_code_of (Some (cn_code r)) = Some (cn_code r)"
proof -
  have o: "is_overflow c" "canonicalize_upstream_error status detail = Inr (Some c)"
    using assms by (auto simp: canonical_overflow_error_def split: sum.splits option.splits if_splits)
  then obtain r where r: "r \<in> set ERROR_CANONICAL_RULES" "c = canonical_result r (extract_context_window detail)" by (elim canonicalizeD)
  have "cn_category r \<in> set OVERFLOW_CATEGORIES" using o(1) r(2) by (simp add: is_overflow_def canonical_result_def)
  moreover have "cn_category thinking_budget_invalid_rule \<notin> set OVERFLOW_CATEGORIES"
    by (simp add: thinking_budget_invalid_rule_def OVERFLOW_CATEGORIES_def)
  ultimately have "r \<noteq> thinking_budget_invalid_rule" "overflow_code_of (Some (cn_code r)) = Some (cn_code r)"
    using rules_checked [OF r(1)] by (auto simp: rule_checked_def)
  with r that show thesis by (simp add: canonical_result_def)
qed

text \<open>
  C36. An overflow never ends as a 429: if the last failure carries no code of its own and its text says in
  any recognised dialect that the input was too long, then, with the switch on, the retry loop ends and the
  handler answers with status 400, no \<open>Retry-After\<close>, and a body that asks the client to compact.
\<close>

theorem overflow_ends_as_400:
  assumes "business_code e = None" "canonical_overflow_error (fst (upstream_cause e)) (snd (upstream_cause e)) = Inr (Some c)"
  shows "\<exists>h r err. terminal_error True n (Some e) = Inr h \<and> openai_http_exception_handler True anthropic (RaisedHttp h) = Inr r
    \<and> rs_status r = 400 \<and> rs_retry_after r = None \<and> dget (rs_body r) ''error'' = PDict err
    \<and> dget err ''compact'' = PBool True \<and> dget err ''code'' = PStr (ce_error_code c)"
proof -
  obtain r where r: "r \<in> set ERROR_CANONICAL_RULES" "r \<noteq> thinking_budget_invalid_rule" "ce_error_code c = cn_code r"
      "overflow_code_of (Some (cn_code r)) = Some (cn_code r)"
    using assms(2) by (rule overflow_rule)
  let ?b = "overflow_body (cn_code r) n (fst (upstream_cause e)) (overflow_window_from_last_error (Some e))"
  have t: "terminal_error True n (Some e) = Inr \<lparr>he_status = 400, he_detail = PDict [(''error'', PDict ?b)], he_code = None\<rparr>"
    using assms r by (cases "upstream_cause e") (simp add: terminal_error_def terminal_429_from_last_error_def terminal_client_error_def)
  obtain w where w: "canonicalize_upstream_error (Some 400) (PDict [(''error'', PDict ?b)]) = Inr (Some (canonical_result r w))"
    using code_recognised [OF r(1,2) overflow_body_code] by blast
  have "openai_http_exception_handler True anthropic (RaisedHttp \<lparr>he_status = 400, he_detail = PDict [(''error'', PDict ?b)], he_code = None\<rparr>)
      = Inr (compact_response anthropic (canonical_result r w))"
    by (simp add: openai_http_exception_handler_def w)
  with t r(3) rules_status [OF r(1)] show ?thesis
    by (auto simp: compact_response_def Let_def canonical_result_def openai_error_def dget_def)
qed

theorem overflow_ends_as_400_witness:
  "let e = HttpError \<lparr>he_status = 502, he_detail = PDict [(''error'', PDict [(''code'', PStr ''prompt_too_long''), (''context_window'', PInt 8192)])], he_code = None\<rparr>
   in \<exists>h r err. terminal_error True 3 (Some e) = Inr h \<and> openai_http_exception_handler True True (RaisedHttp h) = Inr r
    \<and> rs_status r = 400 \<and> rs_retry_after r = None \<and> dget (rs_body r) ''error'' = PDict err
    \<and> dget err ''compact'' = PBool True \<and> dget err ''code'' = PStr ''prompt_too_long''"
proof -
  let ?d = "PDict [(''error'', PDict [(''code'', PStr ''prompt_too_long''), (''context_window'', PInt 8192)])]"
  let ?e = "HttpError \<lparr>he_status = 502, he_detail = ?d, he_code = None\<rparr>"
  have b: "business_code ?e = None" by (simp add: business_code_def dget_def)
  have c: "canonical_overflow_error (fst (upstream_cause ?e)) (snd (upstream_cause ?e)) = Inr (Some (canonical_result prompt_too_long_rule (extract_context_window ?d)))"
    using prompt_canonical [of "Some 502"]
    by (simp add: upstream_cause_def canonical_overflow_error_def is_overflow_def canonical_result_def prompt_too_long_rule_def OVERFLOW_CATEGORIES_def)
  have "ce_error_code (canonical_result prompt_too_long_rule w) = ''prompt_too_long''" for w by (simp add: canonical_result_def rule_codes)
  with overflow_ends_as_400 [OF b c, of 3 True] show ?thesis by (simp only: Let_def)
qed

lemma terminal_handled:
  assumes "terminal_error flag n last_error = Inr h"
  shows "\<exists>r. openai_http_exception_handler flag anthropic (RaisedHttp h) = Inr r \<and> rs_status r \<in> {400, 429}
    \<and> (rs_retry_after r \<noteq> None \<longrightarrow> rs_status r = 429)"
proof -
  obtain code up where h: "h = terminal_client_error code n up (overflow_window_from_last_error last_error)"
    using assms by (auto simp: terminal_error_def split: sum.splits)
  obtain d where d: "he_detail h = PDict d" using terminal_detail_dict h by blast
  have s: "he_status h \<in> {400, 429}" unfolding h terminal_status by simp
  obtain r where r: "openai_http_exception_handler flag anthropic (RaisedHttp h) = Inr r" "rs_status r = he_status h \<or> rs_status r = 400"
    using handler_dict [OF d] by blast
  have "rs_retry_after r \<noteq> None \<longrightarrow> rs_status r = 429" using r(1) by (rule handler_retry_after)
  with r s show ?thesis by auto
qed

text \<open>
  Two kinds of end: however the retries of a request are used up, the error is answered by the handler
  without raising, with status 400 or 429, and \<open>Retry-After\<close> is only sent with 429.
\<close>

theorem terminal_response:
  assumes "terminal_error flag n last_error = Inr h"
  shows "\<exists>r. openai_http_exception_handler flag anthropic (RaisedHttp h) = Inr r \<and> rs_status r \<in> {400, 429}
    \<and> (rs_retry_after r \<noteq> None \<longrightarrow> rs_status r = 429)"
  using assms by (rule terminal_handled)

theorem terminal_response_witness:
  "let h = projr (terminal_error True 2 (Some (OtherError ''Connection reset by peer'' True None)))
   in \<exists>r. openai_http_exception_handler True False (RaisedHttp h) = Inr r \<and> rs_status r \<in> {400, 429}"
proof -
  have "json_loads ''Connection reset by peer'' = None" by code_simp
  then have "\<exists>f. parse_error_detail (snd (upstream_cause (OtherError ''Connection reset by peer'' True None))) = Inr f"
    by (simp add: upstream_cause_def parse_error_detail_def)
  then obtain h where "terminal_error True 2 (Some (OtherError ''Connection reset by peer'' True None)) = Inr h"
    using terminal_error_total by blast
  then show ?thesis using terminal_response by (simp add: Let_def) blast
qed

end
