(* ===== verification/Lub_RetryLoop.thy ===== *)
theory Lub_RetryLoop
  imports Lub_Terminal
begin

text \<open>
  The retry loops of \<open>main.py\<close>: \<open>_chat_with_retry_for_model\<close> tries candidates (the outer level) and sends a
  request again to the same account (the inner level), \<open>_media_generation_with_retry\<close> is the same loop
  without streams. \<open>_run_group_fallback_pipeline\<close> walks along backup groups.

  A round of a loop is one pass through its body. What the loop reads from elsewhere is the input of the
  round: the state of the API key, the answer of the account selection, the answer of the upstream. What it
  does to other components (the reservation handle of \<open>Lub_Request\<close>, the pool of \<open>Lub_Attempt\<close>) is kept as
  a list of calls. Logging, route information and health statistics are left out.
\<close>

section \<open>Loops with a rank\<close>

primrec run_rounds :: "('i \<Rightarrow> 's \<Rightarrow> 's \<times> 'r option) \<Rightarrow> 'i list \<Rightarrow> 's \<Rightarrow> 's \<times> 'r option" where
  \<comment> \<open>rounds until one of them ends the loop\<close>
  "run_rounds f [] s = (s, None)"
| "run_rounds f (i # is) s = (case f i s of (s', None) \<Rightarrow> run_rounds f is s' | (s', Some r) \<Rightarrow> (s', Some r))"

locale ranked_loop =
  fixes step :: "'i \<Rightarrow> 's \<Rightarrow> 's \<times> 'r option" and allowed :: "'i \<Rightarrow> bool" and inv :: "'s \<Rightarrow> bool" and rank :: "'s \<Rightarrow> nat" and cost :: "'s \<Rightarrow> nat"
  assumes step_inv: "allowed i \<Longrightarrow> inv s \<Longrightarrow> step i s = (s', None) \<Longrightarrow> inv s'"
    and step_rank: "allowed i \<Longrightarrow> inv s \<Longrightarrow> step i s = (s', None) \<Longrightarrow> rank s' < rank s"
    and step_cost: "allowed i \<Longrightarrow> inv s \<Longrightarrow> step i s = (s', r) \<Longrightarrow> cost s' \<le> Suc (cost s)"
    and last_cost: "allowed i \<Longrightarrow> inv s \<Longrightarrow> rank s = 0 \<Longrightarrow> step i s = (s', r) \<Longrightarrow> cost s' = cost s"
begin

lemma run_ends: "list_all allowed is \<Longrightarrow> inv s \<Longrightarrow> rank s < length is \<Longrightarrow> \<exists>s' r. run_rounds step is s = (s', Some r)"
proof (induction "is" arbitrary: s)
  case (Cons i "is")
  then have i: "allowed i" "list_all allowed is" by simp_all
  obtain s' r where st: "step i s = (s', r)" by (cases "step i s")
  show ?case
  proof (cases r)
    case None
    with st step_inv [OF i(1) Cons.prems(2)] step_rank [OF i(1) Cons.prems(2)] have "inv s'" "rank s' < rank s" by simp_all
    with Cons.prems(3) have "rank s' < length is" by simp
    with Cons.IH [OF i(2) \<open>inv s'\<close>] st None show ?thesis by simp
  qed (simp add: st)
qed simp

lemma run_cost: "list_all allowed is \<Longrightarrow> inv s \<Longrightarrow> run_rounds step is s = (s', r) \<Longrightarrow> cost s' \<le> cost s + rank s"
proof (induction "is" arbitrary: s)
  case (Cons i "is")
  then have a: "allowed i" "list_all allowed is" by simp_all
  obtain s1 r1 where st: "step i s = (s1, r1)" by (cases "step i s")
  have c: "cost s1 \<le> cost s + (if rank s = 0 then 0 else 1)"
    using step_cost [OF a(1) Cons.prems(2) st] last_cost [OF a(1) Cons.prems(2) _ st] by auto
  show ?case
  proof (cases r1)
    case None
    with st step_inv [OF a(1) Cons.prems(2)] step_rank [OF a(1) Cons.prems(2)] have i: "inv s1" "rank s1 < rank s" by simp_all
    with Cons.IH [OF a(2) i(1)] Cons.prems(3) st None c show ?thesis by fastforce
  next
    case Some
    with Cons.prems(3) st c show ?thesis by (auto split: if_splits)
  qed
qed simp

end

section \<open>State of a loop\<close>

datatype call =
    AcquireCall string "string option"
  | UpstreamCall
  | FailureCall string "string option" attempt_error
  | CommitCall pyval
  | KeepCall pyval
  | RollbackCall
  | ReleaseCall

record key_row =
  kw_disabled :: bool
  kw_expires_at :: "time option"

record key_state =
  ks_blocked :: bool
  ks_row :: "key_row option"
  ks_now :: time

datatype selection = Selected string "string option" | NoAccount no_account | SelectFails attempt_error | SelectCancelled

datatype answer = Served pyval | Failed attempt_error bool pyval | Cancelled bool pyval

record round =
  rd_key :: key_state
  rd_select :: selection
  rd_answer :: answer

record loop_env =
  le_overflow :: bool
  le_rules :: pydict
  le_max_retries :: int
  le_is_test :: bool
  le_is_probe :: bool
  le_stream :: bool
  le_api_key :: "string option"
  le_keys_enabled :: bool
  le_retries :: "string \<Rightarrow> int"
  le_extra_codes :: "string \<Rightarrow> int list"
  le_has_pool :: "string \<Rightarrow> bool"

record loop_state =
  lo_outer :: int
  lo_inner :: int
  lo_limit :: int
  lo_reuse :: bool
  lo_candidate :: "(string \<times> string option) option"
  lo_tried :: "(string \<times> string option) list"
  lo_last :: "attempt_error option"
  lo_calls :: "call list"

datatype finish =
    Answered
  | KeyRejected http_error
  | NoAvailable no_account
  | StreamEnds attempt_error
  | ClientError attempt_error
  | Crashed pyerror
  | Interrupted
  | Exhausted

definition loop_start :: loop_state where
  "loop_start = \<lparr>lo_outer = 0, lo_inner = 0, lo_limit = 1, lo_reuse = False, lo_candidate = None, lo_tried = [], lo_last = None, lo_calls = []\<rparr>"

definition total_attempts :: "loop_env \<Rightarrow> int" where
  "total_attempts env = (if le_is_test env \<or> le_is_probe env then 1 else max 0 (le_max_retries env) + 1)"

definition calling :: "call list \<Rightarrow> loop_state \<Rightarrow> loop_state" where
  "calling cs s = s\<lparr>lo_calls := lo_calls s @ cs\<rparr>"

section \<open>One round\<close>

definition key_error :: "string \<Rightarrow> int \<Rightarrow> (string \<times> pyval) list \<Rightarrow> http_error" where
  "key_error code status xs = \<lparr>he_status = status,
     he_detail = PDict ([(''message'', PStr (terminal_message code '''')), (''code'', PStr code), (''kind'', PStr code)] @ xs), he_code = None\<rparr>"

definition recheck_api_key_state :: "string option \<Rightarrow> bool \<Rightarrow> bool \<Rightarrow> key_state \<Rightarrow> http_error option" where
  \<comment> \<open>\<open>keys_on\<close>: \<open>api_keys_enabled()\<close>\<close>
  "recheck_api_key_state api_key is_test keys_on k =
     (if is_test \<or> opt_str api_key = None \<or> \<not> keys_on then None
      else if ks_blocked k
      then Some (key_error ''api_key_rate_limit_exceeded'' 429 [(''retry_after'', opt_int (retry_after_for_code ''api_key_rate_limit_exceeded''))])
      else (case ks_row k of
          None \<Rightarrow> Some (key_error ''api_key_invalid'' 401 [])
        | Some row \<Rightarrow>
            if kw_disabled row then Some (key_error ''api_key_disabled'' 403 [])
            else (case kw_expires_at row of
                Some t \<Rightarrow> if t \<noteq> 0 \<and> t \<le> ks_now k then Some (key_error ''api_key_expired'' 403 []) else None
              | None \<Rightarrow> None)))"

definition attempt_state_of :: "loop_env \<Rightarrow> loop_state \<Rightarrow> bool \<Rightarrow> attempt_state" where
  "attempt_state_of env s started =
     \<lparr>as_stream = le_stream env, as_downstream_started = started, as_retry_count = lo_outer s, as_total_attempts = total_attempts env,
      as_extra_codes = (case lo_candidate s of Some (p, u) \<Rightarrow> le_extra_codes env p | None \<Rightarrow> []), as_has_client = (lo_candidate s \<noteq> None)\<rparr>"

definition handle_attempt_failure :: "loop_env \<Rightarrow> attempt_error \<Rightarrow> bool \<Rightarrow> bool \<Rightarrow> loop_state \<Rightarrow> loop_state \<times> (pyerror + failure_decision)" where
  \<comment> \<open>\<open>pending\<close>: the request will be sent again on the same account\<close>
  "handle_attempt_failure env e started pending s =
     (case lo_candidate s of
        Some (p, u) \<Rightarrow> if \<not> le_is_test env \<and> \<not> pending
          then calling (if le_has_pool env p then [FailureCall p u e] else []) (s\<lparr>lo_tried := lo_tried s @ [(p, u)]\<rparr>) else s
      | None \<Rightarrow> s,
      attempt_decision (le_overflow env) (le_rules env) (attempt_state_of env s started) e)"

definition close_candidate :: "bool \<Rightarrow> loop_state \<Rightarrow> loop_state" where
  \<comment> \<open>the \<open>finally\<close> of the body; \<open>paid\<close>: the reservation is settled\<close>
  "close_candidate paid s =
     (if lo_candidate s \<noteq> None \<and> \<not> lo_reuse s then (calling [if paid then ReleaseCall else RollbackCall] s)\<lparr>lo_candidate := None\<rparr> else s)"

definition forget_tried :: "attempt_error \<Rightarrow> loop_state \<Rightarrow> loop_state" where
  \<comment> \<open>an empty answer does not exclude the account\<close>
  "forget_tried e s = (case (e, lo_candidate s) of
      (EmptyResponse _ _, Some (p, u)) \<Rightarrow> if p \<noteq> [] \<and> opt_str u \<noteq> None then s\<lparr>lo_tried := remove1 (p, u) (lo_tried s)\<rparr> else s
    | _ \<Rightarrow> s)"

definition after_decision :: "loop_env \<Rightarrow> attempt_error \<Rightarrow> pyval \<Rightarrow> bool \<Rightarrow> failure_action \<Rightarrow> loop_state \<Rightarrow> loop_state \<times> finish option" where
  "after_decision env e usage pending action s =
     (case action of
        STREAM_ERROR_AND_STOP \<Rightarrow> (close_candidate True (calling (if lo_candidate s \<noteq> None then [KeepCall usage] else []) s), Some (StreamEnds e))
      | RETURN_CLIENT_ERROR \<Rightarrow> (close_candidate False s, Some (case client_error (le_overflow env) e of Inl x \<Rightarrow> Crashed x | Inr y \<Rightarrow> ClientError y))
      | _ \<Rightarrow>
          if pending then (s\<lparr>lo_inner := lo_inner s + 1, lo_reuse := True\<rparr>, None)
          else if action = RETRY then (close_candidate False ((forget_tried e s)\<lparr>lo_outer := lo_outer s + 1, lo_reuse := False\<rparr>), None)
          else (close_candidate False s, Some Exhausted))"

definition on_failure :: "loop_env \<Rightarrow> attempt_error \<Rightarrow> bool \<Rightarrow> pyval \<Rightarrow> loop_state \<Rightarrow> loop_state \<times> finish option" where
  "on_failure env e started usage s0 =
     (let s = s0\<lparr>lo_last := Some e\<rparr>
      in case should_inner_retry (le_overflow env) (le_rules env) (attempt_state_of env s started) (lo_inner s) (lo_limit s) e of
           Inl x \<Rightarrow> (close_candidate False s, Some (Crashed x))
         | Inr pending \<Rightarrow> (case handle_attempt_failure env e started pending s of
             (s1, Inl x) \<Rightarrow> (close_candidate False s1, Some (Crashed x))
           | (s1, Inr d) \<Rightarrow> after_decision env e usage pending (fd_action d) s1))"

definition no_client_error :: "string \<Rightarrow> attempt_error" where
  \<comment> \<open>\<open>getattr(None, method)\<close>\<close>
  "no_client_error meth = OtherError ([CHR 0x27] @ ''NoneType'' @ [CHR 0x27] @ '' object has no attribute '' @ [CHR 0x27] @ meth @ [CHR 0x27]) False None"

definition serve :: "loop_env \<Rightarrow> answer \<Rightarrow> loop_state \<Rightarrow> loop_state \<times> finish option" where
  "serve env a s =
     (if lo_candidate s = None then on_failure env (no_client_error ''chat'') False PNone s
      else (let s1 = calling [UpstreamCall] s
            in case a of
                 Served usage \<Rightarrow> (close_candidate True (calling [CommitCall usage] s1), Some Answered)
               | Failed e started usage \<Rightarrow> on_failure env e started usage s1
               | Cancelled started usage \<Rightarrow>
                   (if le_stream env \<and> started then close_candidate True (calling [KeepCall usage] s1) else close_candidate False s1, Some Interrupted)))"

definition select_candidate :: "loop_env \<Rightarrow> string \<Rightarrow> string option \<Rightarrow> loop_state \<Rightarrow> loop_state" where
  "select_candidate env p u s = (calling [AcquireCall p u] s)
     \<lparr>lo_candidate := Some (p, u), lo_inner := 0, lo_limit := inner_retry_limit (Some p) (le_is_test env) (le_is_probe env) (le_retries env p)\<rparr>"

definition chat_round :: "loop_env \<Rightarrow> round \<Rightarrow> loop_state \<Rightarrow> loop_state \<times> finish option" where
  "chat_round env r s =
     (if total_attempts env \<le> lo_outer s then (s, Some Exhausted)
      else (case recheck_api_key_state (le_api_key env) (le_is_test env \<or> le_is_probe env) (le_keys_enabled env) (rd_key r) of
              Some h \<Rightarrow> (s, Some (KeyRejected h))
            | None \<Rightarrow>
                if lo_reuse s then serve env (rd_answer r) (s\<lparr>lo_reuse := False\<rparr>)
                else (case rd_select r of
                        Selected p u \<Rightarrow> serve env (rd_answer r) (select_candidate env p u s)
                      | NoAccount n \<Rightarrow> (s, Some (NoAvailable n))
                      | SelectFails e \<Rightarrow> on_failure env e False PNone s
                      | SelectCancelled \<Rightarrow> (s, Some Interrupted))))"

definition chat_loop :: "loop_env \<Rightarrow> round list \<Rightarrow> loop_state \<times> finish option" where
  "chat_loop env rs = run_rounds (chat_round env) rs loop_start"

definition as_raised :: "attempt_error \<Rightarrow> raised" where
  \<comment> \<open>an \<open>HTTPException\<close> as it is, anything else as 502 with its text, which is not empty\<close>
  "as_raised e = RaisedHttp \<lparr>he_status = (case error_status e of Some c \<Rightarrow> c | None \<Rightarrow> 502), he_detail = error_detail e, he_code = None\<rparr>"

definition chat_raises :: "loop_env \<Rightarrow> loop_state \<Rightarrow> finish \<Rightarrow> (pyerror + raised) option" where
  \<comment> \<open>the exception with which the loop ends; a stream that has begun ends with an error frame instead\<close>
  "chat_raises env s f = (case f of
      KeyRejected h \<Rightarrow> Some (Inr (RaisedHttp h))
    | NoAvailable n \<Rightarrow> Some (Inr (RaisedNoAccount n))
    | ClientError e \<Rightarrow> Some (Inr (as_raised e))
    | Crashed x \<Rightarrow> Some (Inl x)
    | Exhausted \<Rightarrow> Some (case (le_is_test env \<or> le_is_probe env, lo_last s) of
          (True, Some e) \<Rightarrow> Inr (as_raised e)
        | _ \<Rightarrow> (case terminal_error (le_overflow env) (max 0 (le_max_retries env)) (lo_last s) of Inl x \<Rightarrow> Inl x | Inr h \<Rightarrow> Inr (RaisedHttp h)))
    | _ \<Rightarrow> None)"

section \<open>Media generation\<close>

definition media_failure :: "loop_env \<Rightarrow> attempt_error \<Rightarrow> loop_state \<Rightarrow> loop_state \<times> finish option" where
  "media_failure env0 e s0 =
     (let env = env0\<lparr>le_stream := False\<rparr>; s = s0\<lparr>lo_last := Some e\<rparr>
      in case should_inner_retry (le_overflow env) (le_rules env) (attempt_state_of env s False) (lo_inner s) (lo_limit s) e of
           Inl x \<Rightarrow> (close_candidate False s, Some (Crashed x))
         | Inr pending \<Rightarrow> (case handle_attempt_failure env e False pending s of
             (s1, Inl x) \<Rightarrow> (close_candidate False s1, Some (Crashed x))
           | (s1, Inr d) \<Rightarrow>
               (if fd_action d = RETURN_CLIENT_ERROR
                then (close_candidate False s1, Some (case client_error (le_overflow env) e of Inl x \<Rightarrow> Crashed x | Inr y \<Rightarrow> ClientError y))
                else if pending then (s1\<lparr>lo_inner := lo_inner s1 + 1, lo_reuse := True\<rparr>, None)
                else if fd_action d = RETRY then (close_candidate False (s1\<lparr>lo_outer := lo_outer s1 + 1, lo_reuse := False\<rparr>), None)
                else (close_candidate False s1, Some Exhausted))))"

definition media_serve :: "loop_env \<Rightarrow> string \<Rightarrow> answer \<Rightarrow> loop_state \<Rightarrow> loop_state \<times> finish option" where
  \<comment> \<open>\<open>meth\<close>: the client's method, \<open>generate_image\<close>, \<open>generate_video\<close> or the one for speech\<close>
  "media_serve env meth a s =
     (if lo_candidate s = None then media_failure env (no_client_error meth) s
      else (let s1 = calling [UpstreamCall] s
            in case a of
                 Served usage \<Rightarrow> (close_candidate True (calling [CommitCall usage] s1), Some Answered)
               | Failed e started usage \<Rightarrow> media_failure env e s1
               | Cancelled started usage \<Rightarrow> (close_candidate False s1, Some Interrupted)))"

definition media_round :: "loop_env \<Rightarrow> string \<Rightarrow> round \<Rightarrow> loop_state \<Rightarrow> loop_state \<times> finish option" where
  "media_round env meth r s =
     (if total_attempts env \<le> lo_outer s then (s, Some Exhausted)
      else (case recheck_api_key_state (le_api_key env) (le_is_test env \<or> le_is_probe env) (le_keys_enabled env) (rd_key r) of
              Some h \<Rightarrow> (s, Some (KeyRejected h))
            | None \<Rightarrow>
                if lo_reuse s then media_serve env meth (rd_answer r) (s\<lparr>lo_reuse := False\<rparr>)
                else (case rd_select r of
                        Selected p u \<Rightarrow> media_serve env meth (rd_answer r) (select_candidate env p u s)
                      | NoAccount n \<Rightarrow> (s, Some (NoAvailable n))
                      | SelectFails e \<Rightarrow> media_failure env e s
                      | SelectCancelled \<Rightarrow> (s, Some Interrupted))))"

definition media_loop :: "loop_env \<Rightarrow> string \<Rightarrow> round list \<Rightarrow> loop_state \<times> finish option" where
  "media_loop env meth rs = run_rounds (media_round env meth) rs loop_start"

definition media_raises :: "loop_env \<Rightarrow> loop_state \<Rightarrow> finish \<Rightarrow> (pyerror + raised) option" where
  \<comment> \<open>the exception with which the loop ends; unlike the chat loop it shows the real error to nobody\<close>
  "media_raises env s f = (case f of
      KeyRejected h \<Rightarrow> Some (Inr (RaisedHttp h))
    | NoAvailable n \<Rightarrow> Some (Inr (RaisedNoAccount n))
    | ClientError e \<Rightarrow> Some (Inr (as_raised e))
    | Crashed x \<Rightarrow> Some (Inl x)
    | Exhausted \<Rightarrow> Some (case terminal_error (le_overflow env) (max 0 (le_max_retries env)) (lo_last s) of Inl x \<Rightarrow> Inl x | Inr h \<Rightarrow> Inr (RaisedHttp h))
    | _ \<Rightarrow> None)"

section \<open>Options of a chat request\<close>

definition dpop :: "string \<Rightarrow> pyval \<Rightarrow> pydict \<Rightarrow> pyval \<times> pydict" where
  \<comment> \<open>\<open>kwargs.pop(k, default)\<close>\<close>
  "dpop k dflt d = (dget_or d k dflt, filter (\<lambda>p. fst p \<noteq> k) d)"

record chat_options =
  co_provider_whitelist :: pyval
  co_provider_blacklist :: pyval
  co_account_whitelist :: pyval
  co_is_test :: bool
  co_is_probe :: bool
  co_is_save_log :: bool

definition chat_options :: "pydict \<Rightarrow> chat_options" where
  \<comment> \<open>the first options \<open>_chat_with_retry_for_model\<close> takes out of its keyword arguments, in its order; an absent set is an empty list\<close>
  "chat_options kw0 =
     (let (pw, kw1) = dpop ''provider_whitelist'' PNone kw0;
          (pb, kw2) = dpop ''provider_blacklist'' PNone kw1;
          (aw, kw3) = dpop ''account_whitelist'' PNone kw2;
          (aw2, kw4) = dpop ''account_whitelist'' PNone kw3;
          (t, kw5) = dpop ''is_test'' (PBool False) kw4;
          (pr, kw6) = dpop ''is_probe'' (PBool False) kw5;
          (sl, kw7) = dpop ''is_save_log'' (PBool True) kw6
      in \<lparr>co_provider_whitelist = py_or pw (PList []), co_provider_blacklist = py_or pb (PList []), co_account_whitelist = aw2,
          co_is_test = truthy t, co_is_probe = truthy pr, co_is_save_log = truthy sl\<rparr>)"

section \<open>Backup groups\<close>

datatype group_result = GroupServed | GroupNoAccount no_account | GroupRaises

record hop =
  hp_group :: "string \<Rightarrow> pydict option"
  hp_result :: group_result
  hp_fresh :: "string \<Rightarrow> pydict option"

record group_state =
  gs_model :: string
  gs_visited :: "string list"
  gs_last :: "no_account option"

datatype group_finish = GroupAnswered | GroupEscalates | GroupExhausted raised

definition canonical_name :: "pydict option \<Rightarrow> string \<Rightarrow> string" where
  "canonical_name g m = py_str (py_or (case g of Some d \<Rightarrow> dget d ''name'' | None \<Rightarrow> PNone) (PStr m))"

definition backup_name :: "pydict option \<Rightarrow> string" where
  "backup_name g = strip (py_str (py_or (case g of Some d \<Rightarrow> dget d ''backup_group'' | None \<Rightarrow> PNone) (PStr '''')))"

definition fallback_exhausted :: "group_state \<Rightarrow> group_finish" where
  "fallback_exhausted s = GroupExhausted (case gs_last s of
      Some n \<Rightarrow> RaisedNoAccount n
    | None \<Rightarrow> RaisedHttp \<lparr>he_status = 429,
        he_detail = retryable_client_error_detail ''no_available_account'' 0 None (retry_after_for_code ''no_available_account''), he_code = None\<rparr>)"

definition next_group :: "(string \<Rightarrow> pydict option) \<Rightarrow> string \<Rightarrow> group_state \<Rightarrow> group_state \<times> group_finish option" where
  \<comment> \<open>one next hop after a group is exhausted\<close>
  "next_group fresh canonical s =
     (let backup = backup_name (fresh canonical)
      in if backup = [] then (s, Some (fallback_exhausted s))
         else (case fresh backup of
                 None \<Rightarrow> (s, Some (fallback_exhausted s))
               | Some d \<Rightarrow> if d = [] \<or> canonical_name (Some d) backup \<in> set (gs_visited s) then (s, Some (fallback_exhausted s))
                   else (s\<lparr>gs_model := backup\<rparr>, None)))"

definition group_hop :: "hop \<Rightarrow> group_state \<Rightarrow> group_state \<times> group_finish option" where
  "group_hop h s =
     (if gs_model s = [] then (s, Some (fallback_exhausted s))
      else (let canonical = canonical_name (hp_group h (gs_model s)) (gs_model s)
            in if canonical \<in> set (gs_visited s) then (s, Some (fallback_exhausted s))
               else (let s1 = s\<lparr>gs_visited := gs_visited s @ [canonical]\<rparr>
                     in case hp_result h of
                          GroupServed \<Rightarrow> (s1, Some GroupAnswered)
                        | GroupRaises \<Rightarrow> (s1, Some GroupEscalates)
                        | GroupNoAccount n \<Rightarrow> next_group (hp_fresh h) canonical (s1\<lparr>gs_last := Some n\<rparr>))))"

definition group_fallback :: "string \<Rightarrow> hop list \<Rightarrow> group_state \<times> group_finish option" where
  "group_fallback model hops = run_rounds group_hop hops \<lparr>gs_model = model, gs_visited = [], gs_last = None\<rparr>"

end
