(* ===== verification/Lub_RetryLoopProps.thy ===== *)
theory Lub_RetryLoopProps
  imports Lub_RetryLoop
begin

text \<open>
  Properties of the retry loop of \<open>main.py\<close>: it ends, it sends a bounded number of upstream requests, each
  candidate is given back once and its failure recorded at most once, and what reaches the client has a
  client status.
\<close>

section \<open>The loop ends\<close>

definition upstream_calls :: "loop_state \<Rightarrow> nat" where
  "upstream_calls s = length (filter (\<lambda>c. c = UpstreamCall) (lo_calls s))"

definition chat_inv :: "loop_env \<Rightarrow> int \<Rightarrow> loop_state \<Rightarrow> bool" where
  \<comment> \<open>no channel is configured for more than \<open>K\<close> requests per candidate\<close>
  "chat_inv env K s \<longleftrightarrow> 1 \<le> K \<and> (\<forall>p. le_retries env p < K) \<and> 0 \<le> lo_inner s \<and> lo_limit s \<le> K \<and> (lo_reuse s \<longrightarrow> lo_inner s < lo_limit s)"

definition chat_rank :: "loop_env \<Rightarrow> int \<Rightarrow> loop_state \<Rightarrow> nat" where
  "chat_rank env K s = nat ((total_attempts env - lo_outer s) * K - (if lo_reuse s then lo_inner s else 0))"

named_theorems loop_simps

lemma calling_simps [loop_simps]:
  "lo_outer (calling cs s) = lo_outer s" "lo_inner (calling cs s) = lo_inner s" "lo_limit (calling cs s) = lo_limit s"
  "lo_reuse (calling cs s) = lo_reuse s" "lo_candidate (calling cs s) = lo_candidate s" "lo_last (calling cs s) = lo_last s"
  "lo_tried (calling cs s) = lo_tried s" "lo_calls (calling cs s) = lo_calls s @ cs"
  by (simp_all add: calling_def)

lemma close_simps [loop_simps]:
  "lo_outer (close_candidate b s) = lo_outer s" "lo_inner (close_candidate b s) = lo_inner s" "lo_limit (close_candidate b s) = lo_limit s"
  "lo_reuse (close_candidate b s) = lo_reuse s" "lo_last (close_candidate b s) = lo_last s"
  "lo_candidate (close_candidate b s) = (if lo_reuse s then lo_candidate s else None)"
  "lo_calls (close_candidate b s) = lo_calls s @ (if lo_candidate s \<noteq> None \<and> \<not> lo_reuse s then [if b then ReleaseCall else RollbackCall] else [])"
  by (cases "lo_candidate s"; simp add: close_candidate_def loop_simps)+

lemma forget_simps [loop_simps]:
  "lo_outer (forget_tried e s) = lo_outer s" "lo_inner (forget_tried e s) = lo_inner s" "lo_limit (forget_tried e s) = lo_limit s"
  "lo_reuse (forget_tried e s) = lo_reuse s" "lo_candidate (forget_tried e s) = lo_candidate s" "lo_last (forget_tried e s) = lo_last s"
  "lo_calls (forget_tried e s) = lo_calls s"
  by (auto simp: forget_tried_def split: attempt_error.split option.split)

definition records_of :: "loop_env \<Rightarrow> attempt_error \<Rightarrow> bool \<Rightarrow> loop_state \<Rightarrow> call list" where
  \<comment> \<open>what a failure records in the pool\<close>
  "records_of env e pending s = (case lo_candidate s of
      Some (p, u) \<Rightarrow> if \<not> le_is_test env \<and> \<not> pending \<and> le_has_pool env p then [FailureCall p u e] else [] | None \<Rightarrow> [])"

lemma handle_parts:
  assumes "handle_attempt_failure env e st pend s = (s', d)"
  shows "lo_outer s' = lo_outer s" "lo_inner s' = lo_inner s" "lo_limit s' = lo_limit s" "lo_reuse s' = lo_reuse s" "lo_candidate s' = lo_candidate s"
    "lo_calls s' = lo_calls s @ records_of env e pend s" "lo_last s' = lo_last s"
    "d = attempt_decision (le_overflow env) (le_rules env) (attempt_state_of env s st) e"
  using assms by (auto simp: handle_attempt_failure_def records_of_def loop_simps split: option.splits if_splits)

definition closing :: "pyval \<Rightarrow> finish \<Rightarrow> loop_state \<Rightarrow> call list" where
  "closing usage f s = (if lo_candidate s = None then [] else if \<exists>x. f = StreamEnds x then [KeepCall usage, ReleaseCall] else [RollbackCall])"

text \<open>A failure has one of three results: the same account again, another candidate, or the end.\<close>

lemma after_decision_cases:
  assumes "after_decision env e usage pend act s = (s', r)" "\<not> lo_reuse s"
  obtains
    (again) "pend" "r = None" "s' = s\<lparr>lo_inner := lo_inner s + 1, lo_reuse := True\<rparr>"
  | (another) "\<not> pend" "r = None" "\<not> lo_reuse s'" "lo_outer s' = lo_outer s + 1" "lo_inner s' = lo_inner s" "lo_limit s' = lo_limit s" "lo_candidate s' = None"
      "lo_calls s' = lo_calls s @ closing usage Exhausted s"
  | (ends) f where "r = Some f" "\<not> lo_reuse s'" "lo_candidate s' = None" "\<forall>h. f \<noteq> KeyRejected h" "lo_calls s' = lo_calls s @ closing usage f s"
proof (cases act)
  case RETRY
  show thesis
  proof (cases pend)
    case True
    then show thesis using again assms RETRY by (auto simp: after_decision_def)
  next
    case False
    then show thesis using another assms RETRY by (auto simp: after_decision_def loop_simps closing_def)
  qed
next
  case RETURN_CLIENT_ERROR
  then show thesis using ends assms by (auto simp: after_decision_def loop_simps closing_def split: sum.splits)
next
  case STREAM_ERROR_AND_STOP
  then show thesis using ends assms by (auto simp: after_decision_def loop_simps closing_def)
next
  case CANCEL_AND_STOP
  then show thesis using ends again assms by (auto simp: after_decision_def loop_simps closing_def split: if_splits)
next
  case NO_RESOURCE_429
  then show thesis using ends again assms by (auto simp: after_decision_def loop_simps closing_def split: if_splits)
qed

lemma on_failure_cases:
  assumes "on_failure env e st usage s = (s', r)" "\<not> lo_reuse s"
  obtains
    (resend) "r = None" "lo_reuse s'" "lo_inner s' = lo_inner s + 1" "lo_inner s' < lo_limit s" "lo_limit s' = lo_limit s" "lo_outer s' = lo_outer s"
      "lo_candidate s' = lo_candidate s" "lo_calls s' = lo_calls s"
  | (change) "r = None" "\<not> lo_reuse s'" "lo_outer s' = lo_outer s + 1" "lo_inner s' = lo_inner s" "lo_limit s' = lo_limit s" "lo_candidate s' = None"
      "lo_calls s' = lo_calls s @ records_of env e False s @ closing usage Exhausted s"
  | (stop) f b where "r = Some f" "\<not> lo_reuse s'" "lo_candidate s' = None" "\<forall>h. f \<noteq> KeyRejected h"
      "lo_calls s' = lo_calls s @ records_of env e b s @ closing usage f s"
proof -
  define s0 where "s0 = s\<lparr>lo_last := Some e\<rparr>"
  have s0: "lo_candidate s0 = lo_candidate s" "lo_calls s0 = lo_calls s" "lo_reuse s0 = lo_reuse s" "lo_inner s0 = lo_inner s" "lo_limit s0 = lo_limit s"
    "lo_outer s0 = lo_outer s" "records_of env e b s0 = records_of env e b s" for b
    by (simp_all add: s0_def records_of_def)
  have T: "records_of env e True s = []" by (simp add: records_of_def split: option.split)
  show thesis
  proof (cases "should_inner_retry (le_overflow env) (le_rules env) (attempt_state_of env s0 st) (lo_inner s0) (lo_limit s0) e")
    case (Inl x)
    then have "s' = close_candidate False s0" "r = Some (Crashed x)" using assms(1) by (auto simp: on_failure_def s0_def Let_def)
    then show thesis using assms(2) T by (intro stop [of "Crashed x" True]) (simp_all add: loop_simps s0 closing_def)
  next
    case (Inr pend)
    obtain s1 d where h: "handle_attempt_failure env e st pend s0 = (s1, d)" by (cases "handle_attempt_failure env e st pend s0")
    note s1 = handle_parts(1-6) [OF h, unfolded s0]
    have c: "closing usage f s1 = closing usage f s" for f by (simp add: closing_def s1)
    show thesis
    proof (cases d)
      case (Inl x)
      then have "s' = close_candidate False s1" "r = Some (Crashed x)" using assms(1) Inr h by (auto simp: on_failure_def s0_def Let_def)
      then show thesis using assms(2) by (intro stop [of "Crashed x" pend]) (simp_all add: loop_simps s1 closing_def)
    next
      case d: (Inr x)
      then have "after_decision env e usage pend (fd_action x) s1 = (s', r)" using assms(1) Inr h by (simp add: on_failure_def s0_def Let_def)
      moreover have "\<not> lo_reuse s1" using assms(2) s1 by simp
      ultimately show thesis
      proof (cases rule: after_decision_cases)
        case again
        have "lo_inner s0 < lo_limit s0 - 1" using Inr again(1) by (simp add: should_inner_retry_def split: if_splits)
        then show thesis using resend again s1 s0 T by simp
      next
        case another
        then show thesis using change s1 c by simp
      next
        case (ends f)
        then show thesis using stop [of f pend] ends s1 c by simp
      qed
    qed
  qed
qed

lemma records_no_upstream: "filter (\<lambda>c. c = UpstreamCall) (records_of env e b s) = []" "filter (\<lambda>c. c = UpstreamCall) (closing usage f s) = []"
  by (auto simp: records_of_def closing_def split: option.split)

lemma limit_le: "(\<forall>p. le_retries env p < K) \<Longrightarrow> 1 \<le> K \<Longrightarrow> inner_retry_limit (Some p) b c (le_retries env p) \<le> K"
  by (auto simp: inner_retry_limit_def intro: order.trans dest: spec [of _ p])

lemma rank_room:
  assumes "chat_inv env K s" "lo_outer s < total_attempts env"
  obtains P where "P = (total_attempts env - lo_outer s) * K" "K \<le> P" "(total_attempts env - (lo_outer s + 1)) * K = P - K"
    "chat_rank env K s = nat (P - (if lo_reuse s then lo_inner s else 0))"
  using assms mult_right_mono [of 1 "total_attempts env - lo_outer s" K]
  by (intro that [of "(total_attempts env - lo_outer s) * K"]) (simp_all add: chat_inv_def chat_rank_def algebra_simps)

lemma rank_resend:
  assumes "chat_inv env K s" "lo_outer s < total_attempts env" "0 \<le> i" "i < K" "\<not> lo_reuse s \<or> lo_inner s \<le> i" "lo_outer s' = lo_outer s" "lo_reuse s'" "lo_inner s' = i + 1"
  shows "chat_rank env K s' < chat_rank env K s"
proof -
  obtain P where P: "P = (total_attempts env - lo_outer s) * K" "K \<le> P" "chat_rank env K s = nat (P - (if lo_reuse s then lo_inner s else 0))"
    using rank_room assms(1,2) by metis
  have "chat_rank env K s' = nat (P - (i + 1))" using assms by (simp add: chat_rank_def P(1))
  then show ?thesis using assms(3-5) P(2,3) by (auto split: if_splits)
qed

lemma rank_change:
  assumes "chat_inv env K s" "lo_outer s < total_attempts env" "lo_outer s' = lo_outer s + 1" "\<not> lo_reuse s'"
  shows "chat_rank env K s' < chat_rank env K s"
proof -
  obtain P where P: "K \<le> P" "(total_attempts env - (lo_outer s + 1)) * K = P - K" "chat_rank env K s = nat (P - (if lo_reuse s then lo_inner s else 0))"
    using rank_room assms(1,2) by metis
  have "chat_rank env K s' = nat (P - K)" using assms P(2) by (simp add: chat_rank_def)
  moreover have "lo_reuse s \<longrightarrow> lo_inner s < K" "1 \<le> K" using assms(1) by (auto simp: chat_inv_def)
  ultimately show ?thesis using P by auto
qed

text \<open>
  The state in which an attempt starts: the candidate is there, and the rank of the round is known.
\<close>

lemma failure_inv:
  assumes "on_failure env e st usage s1 = (s', None)" "\<not> lo_reuse s1" "chat_inv env K s" "0 \<le> lo_inner s1" "lo_limit s1 \<le> K"
  shows "chat_inv env K s'"
  using assms(1,2)
proof (cases rule: on_failure_cases)
  case resend
  then show ?thesis using assms by (simp add: chat_inv_def)
next
  case change
  then show ?thesis using assms by (simp add: chat_inv_def)
next
  case (stop f b)
  then show ?thesis by simp
qed

lemma failure_rank:
  assumes "on_failure env e st usage s1 = (s', None)" "\<not> lo_reuse s1" "chat_inv env K s" "lo_outer s < total_attempts env"
    "0 \<le> lo_inner s1" "lo_limit s1 \<le> K" "lo_outer s1 = lo_outer s" "\<not> lo_reuse s \<or> lo_inner s \<le> lo_inner s1"
  shows "chat_rank env K s' < chat_rank env K s"
  using assms(1,2)
proof (cases rule: on_failure_cases)
  case resend
  then show ?thesis using assms by (intro rank_resend [of env K s "lo_inner s1"]) simp_all
next
  case change
  then show ?thesis using assms by (intro rank_change) simp_all
next
  case (stop f b)
  then show ?thesis by simp
qed

lemma serve_cases:
  assumes "serve env a s = (s', r)" "\<not> lo_reuse s"
  obtains
    (none) "lo_candidate s = None" "on_failure env (no_client_error ''chat'') False PNone s = (s', r)"
  | (failed) e st usage where "lo_candidate s \<noteq> None" "on_failure env e st usage (calling [UpstreamCall] s) = (s', r)"
  | (closed) f cs where "lo_candidate s \<noteq> None" "r = Some f" "lo_candidate s' = None" "\<not> lo_reuse s'" "\<forall>h. f \<noteq> KeyRejected h"
      "lo_calls s' = lo_calls s @ UpstreamCall # cs" "cs = [RollbackCall] \<or> (\<exists>u. cs = [CommitCall u, ReleaseCall] \<or> cs = [KeepCall u, ReleaseCall])"
proof (cases "lo_candidate s")
  case None
  then show thesis using none assms(1) by (simp add: serve_def)
next
  case (Some c)
  show thesis
  proof (cases a)
    case (Served u)
    then show thesis using closed [of Answered "[CommitCall u, ReleaseCall]"] assms Some by (auto simp: serve_def loop_simps)
  next
    case (Failed e st u)
    then show thesis using failed assms(1) Some by (simp add: serve_def)
  next
    case (Cancelled st u)
    then show thesis using closed [of Interrupted "[KeepCall u, ReleaseCall]"] closed [of Interrupted "[RollbackCall]"] assms Some
      by (cases "le_stream env \<and> st") (auto simp: serve_def loop_simps)
  qed
qed

lemma round_cases:
  assumes "chat_round env r s = (s', x)"
  obtains
    (idle) f where "s' = s" "x = Some f" "(\<exists>h. f = KeyRejected h) \<or> \<not> lo_reuse s \<or> total_attempts env \<le> lo_outer s"
  | (unselected) e where "\<not> lo_reuse s" "lo_outer s < total_attempts env" "on_failure env e False PNone s = (s', x)"
  | (reused) "lo_reuse s" "lo_outer s < total_attempts env" "serve env (rd_answer r) (s\<lparr>lo_reuse := False\<rparr>) = (s', x)"
  | (selected) p u where "\<not> lo_reuse s" "lo_outer s < total_attempts env" "serve env (rd_answer r) (select_candidate env p u s) = (s', x)"
proof (cases "total_attempts env \<le> lo_outer s \<or> recheck_api_key_state (le_api_key env) (le_is_test env \<or> le_is_probe env) (le_keys_enabled env) (rd_key r) \<noteq> None")
  case True
  then show thesis using idle assms by (auto simp: chat_round_def split: if_splits)
next
  case False
  then have o: "lo_outer s < total_attempts env" by simp
  show thesis
  proof (cases "lo_reuse s")
    case True
    then show thesis using reused o False assms by (simp add: chat_round_def)
  next
    case fresh: False
    then show thesis using idle unselected selected o False assms by (cases "rd_select r") (auto simp: chat_round_def)
  qed
qed

definition ready :: "loop_env \<Rightarrow> int \<Rightarrow> loop_state \<Rightarrow> loop_state \<Rightarrow> bool" where
  \<comment> \<open>\<open>t\<close>: the state in which the body of the round has its candidate\<close>
  "ready env K s t \<longleftrightarrow> \<not> lo_reuse t \<and> 0 \<le> lo_inner t \<and> lo_limit t \<le> K \<and> lo_outer t = lo_outer s \<and> (lo_reuse s \<longrightarrow> lo_inner s \<le> lo_inner t)"

lemma ready_entries:
  assumes "chat_inv env K s"
  shows "ready env K s (s\<lparr>lo_reuse := False\<rparr>)" "\<not> lo_reuse s \<Longrightarrow> ready env K s s" "\<not> lo_reuse s \<Longrightarrow> ready env K s (select_candidate env p u s)"
    "ready env K s t \<Longrightarrow> ready env K s (calling cs t)"
  using assms limit_le [of env K p] by (auto simp: chat_inv_def ready_def select_candidate_def loop_simps)

lemma failure_progress:
  assumes "on_failure env e st usage t = (s', None)" "ready env K s t" "chat_inv env K s" "lo_outer s < total_attempts env"
  shows "chat_inv env K s' \<and> chat_rank env K s' < chat_rank env K s"
  using assms failure_inv [OF assms(1)] failure_rank [OF assms(1)] by (simp add: ready_def)

lemma serve_progress:
  assumes "serve env a t = (s', None)" "ready env K s t" "chat_inv env K s" "lo_outer s < total_attempts env"
  shows "chat_inv env K s' \<and> chat_rank env K s' < chat_rank env K s"
proof -
  have "\<not> lo_reuse t" using assms(2) by (simp add: ready_def)
  with assms(1) show ?thesis
  proof (cases rule: serve_cases)
    case none
    then show ?thesis using failure_progress assms by blast
  next
    case (failed e st usage)
    then show ?thesis using failure_progress ready_entries(4) assms by blast
  qed simp
qed

lemma round_progress:
  assumes "chat_round env r s = (s', None)" "chat_inv env K s"
  shows "chat_inv env K s' \<and> chat_rank env K s' < chat_rank env K s"
  using assms(1)
proof (cases rule: round_cases)
  case (unselected e)
  then show ?thesis using failure_progress ready_entries(2) assms(2) by blast
next
  case reused
  then show ?thesis using serve_progress ready_entries(1) assms(2) by blast
next
  case (selected p u)
  then show ?thesis using serve_progress ready_entries(3) assms(2) by blast
qed simp

lemma failure_upstream:
  assumes "on_failure env e st usage t = (s', r)" "\<not> lo_reuse t"
  shows "upstream_calls s' = upstream_calls t"
  using assms by (cases rule: on_failure_cases) (simp_all add: upstream_calls_def records_no_upstream)

lemma serve_upstream:
  assumes "serve env a t = (s', r)" "\<not> lo_reuse t"
  shows "upstream_calls s' \<le> Suc (upstream_calls t)"
  using assms
proof (cases rule: serve_cases)
  case none
  then show ?thesis using failure_upstream assms(2) by fastforce
next
  case (failed e st usage)
  then show ?thesis using failure_upstream [of env e st usage "calling [UpstreamCall] t"] assms(2) by (simp add: loop_simps upstream_calls_def)
next
  case (closed f cs)
  then show ?thesis by (auto simp: upstream_calls_def)
qed

lemma round_upstream:
  assumes "chat_round env r s = (s', x)"
  shows "upstream_calls s' \<le> Suc (upstream_calls s)"
  using assms
proof (cases rule: round_cases)
  case (unselected e)
  then show ?thesis using failure_upstream by fastforce
next
  case reused
  then show ?thesis using serve_upstream by (fastforce simp: upstream_calls_def)
next
  case (selected p u)
  then show ?thesis using serve_upstream [OF selected(3)] by (simp add: select_candidate_def loop_simps upstream_calls_def)
qed simp

lemma round_at_zero:
  assumes "chat_inv env K s" "chat_rank env K s = 0" "chat_round env r s = (s', x)"
  shows "s' = s"
proof -
  have "\<not> lo_outer s < total_attempts env"
  proof
    assume "lo_outer s < total_attempts env"
    then obtain P where "K \<le> P" "chat_rank env K s = nat (P - (if lo_reuse s then lo_inner s else 0))" using rank_room assms(1) by metis
    then show False using assms(1,2) by (auto simp: chat_inv_def split: if_splits)
  qed
  then show ?thesis using assms(3) by (simp add: chat_round_def)
qed

interpretation chat: ranked_loop "chat_round env" "\<lambda>_. True" "chat_inv env K" "chat_rank env K" upstream_calls for env K
proof
  fix s i s'
  assume "chat_inv env K s" "chat_round env i s = (s', None)"
  then show "chat_inv env K s'" "chat_rank env K s' < chat_rank env K s" using round_progress by blast+
next
  fix s i s' r
  assume "chat_round env i s = (s', r)"
  then show "upstream_calls s' \<le> Suc (upstream_calls s)" by (rule round_upstream)
next
  fix s i s' r
  assume "chat_inv env K s" "chat_rank env K s = 0" "chat_round env i s = (s', r)"
  then show "upstream_calls s' = upstream_calls s" using round_at_zero by blast
qed

lemma start_inv: "chat_inv env K loop_start \<longleftrightarrow> 1 \<le> K \<and> (\<forall>p. le_retries env p < K)"
  by (auto simp: chat_inv_def loop_start_def)

lemma start_rank: "chat_rank env K loop_start = nat (total_attempts env * K)"
  by (simp add: chat_rank_def loop_start_def)

text \<open>
  C16. The retry loop ends: whatever the key checks, the account selection and the upstreams answer, a chat
  request is over after at most \<open>total_attempts * K\<close> rounds, where no channel allows more than \<open>K - 1\<close> extra
  requests per candidate, and by then it has sent at most that many upstream requests.
\<close>

theorem chat_loop_ends:
  assumes "\<forall>p. le_retries env p < K" "1 \<le> K" "nat (total_attempts env * K) < length rs"
  shows "\<exists>s f. chat_loop env rs = (s, Some f) \<and> upstream_calls s \<le> nat (total_attempts env * K)"
proof -
  have i: "chat_inv env K loop_start" using assms by (simp add: start_inv)
  obtain s f where s: "chat_loop env rs = (s, Some f)" using chat.run_ends [OF _ i, of rs] assms(3) by (auto simp: chat_loop_def start_rank list_all_iff)
  have "upstream_calls loop_start = 0" by (simp add: upstream_calls_def loop_start_def)
  then have "upstream_calls s \<le> nat (total_attempts env * K)"
    using chat.run_cost [OF _ i, of rs s "Some f"] s by (simp add: chat_loop_def start_rank list_all_iff)
  with s show ?thesis by blast
qed

text \<open>Inputs for the witnesses: one channel that may be asked twice, no other candidates.\<close>

definition env1 :: loop_env where
  "env1 = \<lparr>le_overflow = True, le_rules = [], le_max_retries = 0, le_is_test = False, le_is_probe = False, le_stream = False,
     le_api_key = Some ''k'', le_keys_enabled = True, le_retries = (\<lambda>_. 1), le_extra_codes = (\<lambda>_. []), le_has_pool = (\<lambda>_. True)\<rparr>"

definition good_key :: key_state where
  "good_key = \<lparr>ks_blocked = False, ks_row = Some \<lparr>kw_disabled = False, kw_expires_at = None\<rparr>, ks_now = 0\<rparr>"

definition round1 :: "answer \<Rightarrow> round" where
  "round1 a = \<lparr>rd_key = good_key, rd_select = Selected ''openai'' (Some ''a1''), rd_answer = a\<rparr>"

lemma good_key_passes: "recheck_api_key_state (le_api_key env1) False (le_keys_enabled env1) good_key = None"
  by (simp add: recheck_api_key_state_def good_key_def env1_def)

theorem chat_loop_ends_witness:
  "\<exists>s f. chat_loop env1 (replicate 3 (round1 (Failed (OtherError ''reset'' True None) False PNone))) = (s, Some f) \<and> upstream_calls s \<le> 2"
proof -
  have "total_attempts env1 = 1" by (simp add: total_attempts_def env1_def)
  then show ?thesis using chat_loop_ends [of env1 2 "replicate 3 (round1 (Failed (OtherError ''reset'' True None) False PNone))"]
    by (simp add: env1_def)
qed

section \<open>Candidates are given back\<close>

text \<open>
  The protocol of a reservation handle: acquired, then requests, then the failure is recorded at most once
  and no request follows, then either settled and released, or rolled back.
\<close>

datatype phase = Idle | Open | Recorded | Paid

fun phase_step :: "call \<Rightarrow> phase \<Rightarrow> phase option" where
  "phase_step (AcquireCall p u) Idle = Some Open"
| "phase_step UpstreamCall Open = Some Open"
| "phase_step (FailureCall p u e) Open = Some Recorded"
| "phase_step (CommitCall x) Open = Some Paid"
| "phase_step (KeepCall x) Open = Some Paid"
| "phase_step (KeepCall x) Recorded = Some Paid"
| "phase_step RollbackCall Open = Some Idle"
| "phase_step RollbackCall Recorded = Some Idle"
| "phase_step ReleaseCall Paid = Some Idle"
| "phase_step _ _ = None"

definition phases :: "call list \<Rightarrow> phase option \<Rightarrow> phase option" where
  "phases cs p = fold (\<lambda>c p. Option.bind p (phase_step c)) cs p"

definition protocol :: "call list \<Rightarrow> phase option" where
  "protocol cs = phases cs (Some Idle)"

lemma phases_simps [simp]: "phases [] p = p" "phases (c # cs) p = phases cs (Option.bind p (phase_step c))" "phases (cs @ ds) p = phases ds (phases cs p)"
  by (simp_all add: phases_def)

definition rests :: "loop_env \<Rightarrow> loop_state \<Rightarrow> bool" where
  \<comment> \<open>between two rounds\<close>
  "rests env s \<longleftrightarrow> protocol (lo_calls s) = Some (if lo_candidate s = None then Idle else Open) \<and> (lo_candidate s \<noteq> None \<longrightarrow> lo_reuse s \<and> lo_outer s < total_attempts env)"

definition holds_open :: "loop_state \<Rightarrow> bool" where
  "holds_open s \<longleftrightarrow> protocol (lo_calls s) = Some (if lo_candidate s = None then Idle else Open)"

lemma close_phases:
  assumes "lo_candidate s \<noteq> None"
  shows "phases (closing usage f s) (phases (records_of env e b s) (Some Open)) = Some Idle"
  using assms by (auto simp: closing_def records_of_def)

lemma failure_rests:
  assumes "on_failure env e st usage s = (s', r)" "\<not> lo_reuse s" "holds_open s" "lo_outer s < total_attempts env"
  shows "rests env s' \<and> (r \<noteq> None \<longrightarrow> lo_candidate s' = None \<and> (\<forall>h. r \<noteq> Some (KeyRejected h)))"
proof -
  have n: "closing usage f s = [] \<and> records_of env e b s = []" if "lo_candidate s = None" for f b
    using that by (simp add: closing_def records_of_def)
  from assms(1,2) show ?thesis
  proof (cases rule: on_failure_cases)
    case resend
    then show ?thesis using assms(3,4) by (simp add: rests_def holds_open_def)
  next
    case change
    then show ?thesis using assms(3) n close_phases [of s usage Exhausted env e False]
      by (cases "lo_candidate s = None") (simp_all add: rests_def holds_open_def protocol_def)
  next
    case (stop f b)
    then show ?thesis using assms(3) n close_phases [of s usage f env e b]
      by (cases "lo_candidate s = None") (simp_all add: rests_def holds_open_def protocol_def)
  qed
qed

lemma serve_rests:
  assumes "serve env a s = (s', r)" "\<not> lo_reuse s" "holds_open s" "lo_outer s < total_attempts env"
  shows "rests env s' \<and> (r \<noteq> None \<longrightarrow> lo_candidate s' = None \<and> (\<forall>h. r \<noteq> Some (KeyRejected h)))"
  using assms(1,2)
proof (cases rule: serve_cases)
  case none
  then show ?thesis using failure_rests assms by blast
next
  case (failed e st usage)
  moreover have "holds_open (calling [UpstreamCall] s)" using assms(3) failed(1) by (simp add: holds_open_def loop_simps protocol_def)
  ultimately show ?thesis using failure_rests [of env e st usage "calling [UpstreamCall] s"] assms(2,4) by (simp add: loop_simps)
next
  case (closed f cs)
  then show ?thesis using assms(3) by (auto simp: rests_def holds_open_def protocol_def)
qed

lemma round_rests:
  assumes "chat_round env r s = (s', x)" "rests env s"
  shows "rests env s' \<and> (x \<noteq> None \<longrightarrow> (\<exists>h. x = Some (KeyRejected h)) \<or> lo_candidate s' = None)"
  using assms(1)
proof (cases rule: round_cases)
  case (idle f)
  then show ?thesis using assms(2) by (auto simp: rests_def)
next
  case (unselected e)
  then show ?thesis using failure_rests [OF unselected(3)] assms(2) by (auto simp: rests_def holds_open_def)
next
  case reused
  then show ?thesis using serve_rests [OF reused(3)] assms(2) by (auto simp: rests_def holds_open_def)
next
  case (selected p u)
  then show ?thesis using serve_rests [OF selected(3)] assms(2)
    by (auto simp: rests_def holds_open_def select_candidate_def loop_simps protocol_def)
qed

lemma loop_rests:
  assumes "run_rounds (chat_round env) rs s = (s', x)" "rests env s"
  shows "rests env s' \<and> (x \<noteq> None \<longrightarrow> (\<exists>h. x = Some (KeyRejected h)) \<or> lo_candidate s' = None)"
  using assms
proof (induction rs arbitrary: s)
  case (Cons r rs)
  obtain s1 x1 where st: "chat_round env r s = (s1, x1)" by (cases "chat_round env r s")
  then show ?case using Cons round_rests [OF st Cons.prems(2)] by (cases x1) auto
qed simp

lemma start_rests: "rests env loop_start"
  by (simp add: rests_def loop_start_def protocol_def)

text \<open>
  C17. Every candidate is given back once: along each run of the loop the calls follow the protocol of the
  reservation handle (requests only while it is held, the failure recorded at most once and after the last
  request, then settled and released or rolled back), and when the loop ends nothing is held, except when
  it ends because the API key was rejected.
\<close>

theorem candidate_given_back:
  assumes "chat_loop env rs = (s, Some f)"
  shows "protocol (lo_calls s) = Some (if \<exists>h. f = KeyRejected h then if lo_candidate s = None then Idle else Open else Idle)"
  using loop_rests [OF assms [unfolded chat_loop_def] start_rests] by (auto simp: rests_def)

theorem candidate_given_back_witness:
  "protocol (lo_calls (fst (chat_loop env1 [round1 (Served PNone)]))) = Some Idle"
proof -
  have "\<exists>s. chat_loop env1 [round1 (Served PNone)] = (s, Some Answered)"
    using good_key_passes by (simp add: chat_loop_def chat_round_def loop_start_def total_attempts_def env1_def round1_def serve_def select_candidate_def)
  then obtain s where "chat_loop env1 [round1 (Served PNone)] = (s, Some Answered)" by blast
  from candidate_given_back [OF this] this show ?thesis by simp
qed

lemma transient_resend:
  assumes "should_inner_retry (le_overflow env) (le_rules env) (attempt_state_of env s False) (lo_inner s) (lo_limit s) e = Inr True"
    "e = OtherError t True c"
  shows "on_failure env e False usage s = (s\<lparr>lo_last := Some e, lo_inner := lo_inner s + 1, lo_reuse := True\<rparr>, None)"
proof -
  let ?s = "s\<lparr>lo_last := Some e\<rparr>"
  have a: "attempt_state_of env ?s False = attempt_state_of env s False" by (simp add: attempt_state_of_def)
  have o: "error_override (le_overflow env) (le_rules env) e = Inr None" "overflow_active (le_overflow env) e = Inr False"
    using assms(2) by (simp_all add: error_override_def overflow_active_def)
  have "\<exists>d. attempt_decision (le_overflow env) (le_rules env) (attempt_state_of env s False) e = Inr d \<and> fd_action d \<in> {RETRY, NO_RESOURCE_429}"
    using o classify_attempt [OF o(1)] assms(2) by (auto simp: attempt_decision_def attempt_state_of_def decide_def)
  then obtain d where d: "attempt_decision (le_overflow env) (le_rules env) (attempt_state_of env s False) e = Inr d" "fd_action d \<in> {RETRY, NO_RESOURCE_429}" by blast
  have h: "handle_attempt_failure env e False True ?s = (?s, Inr d)"
    using d(1) by (simp add: handle_attempt_failure_def a split: option.split)
  show ?thesis using assms(1) h d(2) by (auto simp: on_failure_def Let_def a after_decision_def)
qed

text \<open>
  C37. A key that is revoked during an inner retry leaks the candidate: the check of the API key stands
  before the \<open>try\<close> whose \<open>finally\<close> gives the candidate back. If the first request to an account fails with a
  network error, the channel allows another one, and the key is rejected before it is sent, the loop ends
  with the reservation neither settled nor rolled back nor released.
\<close>

theorem revoked_key_leaks:
  assumes "\<not> le_is_test env" "\<not> le_is_probe env" "p \<noteq> []" "1 \<le> le_retries env p"
    "recheck_api_key_state (le_api_key env) False (le_keys_enabled env) (rd_key r1) = None" "rd_select r1 = Selected p u"
    "rd_answer r1 = Failed (OtherError t True c) False usage"
    "recheck_api_key_state (le_api_key env) False (le_keys_enabled env) (rd_key r2) = Some h"
  shows "\<exists>s. chat_loop env (r1 # r2 # rs) = (s, Some (KeyRejected h)) \<and> protocol (lo_calls s) = Some Open"
proof -
  let ?s = "calling [UpstreamCall] (select_candidate env p u loop_start)"
  have tot: "1 \<le> total_attempts env" using assms(1,2) by (simp add: total_attempts_def)
  have "inner_retry_limit (Some p) False False (le_retries env p) \<ge> 2" using assms(3,4) by (simp add: inner_retry_limit_def opt_str_def)
  then have i: "should_inner_retry (le_overflow env) (le_rules env) (attempt_state_of env ?s False) (lo_inner ?s) (lo_limit ?s) (OtherError t True c) = Inr True"
    using assms(1,2) by (simp add: should_inner_retry_def error_override_def classify_inner_retry_def non_retryable_def failure_input_of_def
        attempt_state_of_def select_candidate_def loop_simps)
  define s1 where "s1 = ?s\<lparr>lo_last := Some (OtherError t True c), lo_inner := lo_inner ?s + 1, lo_reuse := True\<rparr>"
  have "chat_round env r1 loop_start = on_failure env (OtherError t True c) False usage ?s"
    using assms tot by (simp add: chat_round_def serve_def loop_start_def select_candidate_def)
  also have "\<dots> = (s1, None)" using transient_resend [OF i] by (simp add: s1_def)
  finally have r1: "chat_round env r1 loop_start = (s1, None)" .
  have "lo_outer s1 < total_attempts env" using tot by (simp add: s1_def loop_simps select_candidate_def loop_start_def)
  then have r2: "chat_round env r2 s1 = (s1, Some (KeyRejected h))" using assms by (simp add: chat_round_def)
  have "protocol (lo_calls s1) = Some Open" by (simp add: s1_def loop_simps select_candidate_def loop_start_def protocol_def)
  with r1 r2 show ?thesis by (simp add: chat_loop_def)
qed

theorem revoked_key_leaks_witness:
  "\<exists>s h. chat_loop env1 [round1 (Failed (OtherError ''reset'' True None) False PNone),
       (round1 (Served PNone))\<lparr>rd_key := good_key\<lparr>ks_blocked := True\<rparr>\<rparr>] = (s, Some (KeyRejected h)) \<and> protocol (lo_calls s) = Some Open"
proof -
  obtain h where "recheck_api_key_state (le_api_key env1) False (le_keys_enabled env1) (good_key\<lparr>ks_blocked := True\<rparr>) = Some h"
    by (simp add: recheck_api_key_state_def good_key_def env1_def opt_str_def)
  then show ?thesis
    using revoked_key_leaks [of env1 "''openai''" "round1 (Failed (OtherError ''reset'' True None) False PNone)" "Some ''a1''" "''reset''" None PNone
        "(round1 (Served PNone))\<lparr>rd_key := good_key\<lparr>ks_blocked := True\<rparr>\<rparr>" h "[]"] good_key_passes
    by (auto simp: round1_def env1_def)
qed

section \<open>What reaches the client\<close>

lemma run_last:
  "run_rounds f rs s = (s', Some x) \<Longrightarrow> \<exists>r \<in> set rs. \<exists>s0. f r s0 = (s', Some x)"
proof (induction rs arbitrary: s)
  case (Cons r rs)
  obtain s1 x1 where st: "f r s = (s1, x1)" by (cases "f r s")
  show ?case
  proof (cases x1)
    case None
    then show ?thesis using Cons st by auto
  next
    case (Some y)
    then show ?thesis using Cons.prems st by auto
  qed
qed simp

definition presentable :: "finish \<Rightarrow> bool" where
  \<comment> \<open>an error that is passed on has a client status and can be read by the handler\<close>
  "presentable f \<longleftrightarrow> (case f of
      ClientError y \<Rightarrow> (\<exists>c r. error_status y = Some c \<and> c \<in> set CLIENT_ERROR_STATUS_CODES \<and> canonicalize_upstream_error (Some c) (error_detail y) = Inr r)
    | KeyRejected h \<Rightarrow> he_status h \<in> set CLIENT_ERROR_STATUS_CODES \<and> (\<exists>d. he_detail h = PDict d)
    | _ \<Rightarrow> True)"

lemma failure_presentable:
  assumes "on_failure env e st usage s = (s', Some f)"
  shows "presentable f \<and> (\<forall>n. f \<noteq> NoAvailable n)"
proof -
  let ?s = "s\<lparr>lo_last := Some e\<rparr>"
  have "presentable f \<and> (\<forall>n. f \<noteq> NoAvailable n)"
    if "after_decision env e usage pend (fd_action d) s1 = (s', Some f)" "attempt_decision (le_overflow env) (le_rules env) a e = Inr d" for pend d s1 a
    using that client_error_codes [OF that(2)]
    by (cases "fd_action d") (auto simp: after_decision_def presentable_def split: if_splits sum.splits)
  then show ?thesis using assms
    by (auto simp: on_failure_def Let_def presentable_def handle_attempt_failure_def split: sum.splits)
qed

lemma recheck_presentable: "recheck_api_key_state k t b ks = Some h \<Longrightarrow> presentable (KeyRejected h)"
  by (auto simp: recheck_api_key_state_def presentable_def key_error_def CLIENT_ERROR_STATUS_CODES_def split: if_splits option.splits)

lemma serve_presentable: "serve env a s = (s', Some f) \<Longrightarrow> presentable f \<and> (\<forall>n. f \<noteq> NoAvailable n)"
  using failure_presentable
  by (fastforce simp: serve_def Let_def presentable_def split: if_splits answer.splits)

lemma round_presentable:
  assumes "chat_round env r s = (s', Some f)"
  shows "presentable f \<and> (\<forall>n. f = NoAvailable n \<longrightarrow> rd_select r = NoAccount n)"
proof (cases "recheck_api_key_state (le_api_key env) (le_is_test env \<or> le_is_probe env) (le_keys_enabled env) (rd_key r)")
  case (Some h)
  then show ?thesis using assms recheck_presentable by (auto simp: chat_round_def presentable_def split: if_splits)
next
  case None
  then show ?thesis using assms serve_presentable failure_presentable
    by (cases "rd_select r") (auto simp: chat_round_def presentable_def split: if_splits)
qed

text \<open>
  What reaches the client: an HTTP exception with which a chat request ends, tests and probes aside, is answered by
  the handler with one of the client status codes, never with the 5xx of an upstream, as long as the account
  selection reports its failures as 429. An exception of the failure handling itself (there is one, see
  \<open>scalar_detail_raises\<close>) is no HTTP exception and not covered.
\<close>

theorem chat_client_status:
  assumes "chat_loop env rs = (s, Some f)" "\<not> le_is_test env" "\<not> le_is_probe env" "chat_raises env s f = Some (Inr exc)"
    "\<forall>r \<in> set rs. \<forall>n. rd_select r = NoAccount n \<longrightarrow> na_status n = 429"
  shows "\<exists>a. openai_http_exception_handler (le_overflow env) anthropic exc = Inr a \<and> rs_status a \<in> set CLIENT_ERROR_STATUS_CODES"
proof -
  obtain r s0 where r: "r \<in> set rs" "chat_round env r s0 = (s, Some f)" using run_last assms(1) unfolding chat_loop_def by metis
  note p = round_presentable [OF r(2)]
  have codes: "400 \<in> set CLIENT_ERROR_STATUS_CODES" "429 \<in> set CLIENT_ERROR_STATUS_CODES" by (simp_all add: CLIENT_ERROR_STATUS_CODES_def)
  show ?thesis
  proof (cases f)
    case (KeyRejected h)
    then show ?thesis using p assms(4) handler_dict [of h] codes by (auto simp: chat_raises_def presentable_def) metis
  next
    case (NoAvailable n)
    then have "na_status n = 429" using p r(1) assms(5) by blast
    then show ?thesis using NoAvailable assms(4) handler_no_account [of "le_overflow env" anthropic n] codes by (auto simp: chat_raises_def)
  next
    case (ClientError y)
    then obtain c x where c: "error_status y = Some c" "c \<in> set CLIENT_ERROR_STATUS_CODES" "canonicalize_upstream_error (Some c) (error_detail y) = Inr x"
      using p by (auto simp: presentable_def)
    then show ?thesis using ClientError assms(4) codes
        handler_status [of "\<lparr>he_status = c, he_detail = error_detail y, he_code = None\<rparr>" x "le_overflow env" anthropic]
      by (auto simp: chat_raises_def as_raised_def)
  next
    case Exhausted
    then obtain h where "terminal_error (le_overflow env) (max 0 (le_max_retries env)) (lo_last s) = Inr h" "exc = RaisedHttp h"
      using assms(2-4) by (auto simp: chat_raises_def split: sum.splits option.splits)
    then show ?thesis using terminal_handled [of "le_overflow env" _ "lo_last s" h anthropic] codes by (metis insertE singletonD)
  qed (use assms(4) in \<open>auto simp: chat_raises_def\<close>)
qed

theorem chat_client_status_witness:
  "let n = \<lparr>na_status = 429, na_detail = PStr ''busy'', na_code = ''service_busy''\<rparr>
   in \<exists>a. openai_http_exception_handler True False (RaisedNoAccount n) = Inr a \<and> rs_status a \<in> set CLIENT_ERROR_STATUS_CODES"
proof -
  let ?n = "\<lparr>na_status = 429, na_detail = PStr ''busy'', na_code = ''service_busy''\<rparr>"
  let ?r = "(round1 (Served PNone))\<lparr>rd_select := NoAccount ?n\<rparr>"
  have l: "chat_loop env1 [?r] = (loop_start, Some (NoAvailable ?n))"
    using good_key_passes by (simp add: chat_loop_def chat_round_def loop_start_def total_attempts_def env1_def round1_def)
  have "chat_raises env1 loop_start (NoAvailable ?n) = Some (Inr (RaisedNoAccount ?n))" by (simp add: chat_raises_def)
  from chat_client_status [OF l _ _ this, of False] show ?thesis by (simp add: Let_def env1_def)
qed

end
