(* ===== verification/Lub_LoopVariants.thy ===== *)
theory Lub_LoopVariants
  imports Lub_RetryLoopProps
begin

text \<open>
  The loops beside the chat loop: media generation runs the same loop without streams, and the walk along
  backup groups ends. Also the options that a chat request takes out of its keyword arguments.
\<close>

section \<open>Media generation\<close>

definition blank :: "loop_state \<Rightarrow> loop_state" where
  \<comment> \<open>everything but the list of excluded accounts, which the loop only writes\<close>
  "blank s = s\<lparr>lo_tried := []\<rparr>"

lemma blank_parts:
  "lo_outer (blank s) = lo_outer s" "lo_inner (blank s) = lo_inner s" "lo_limit (blank s) = lo_limit s" "lo_reuse (blank s) = lo_reuse s"
  "lo_candidate (blank s) = lo_candidate s" "lo_last (blank s) = lo_last s" "lo_calls (blank s) = lo_calls s"
  by (simp_all add: blank_def)

lemma blank_eq_iff:
  "blank s = blank t \<longleftrightarrow> lo_outer s = lo_outer t \<and> lo_inner s = lo_inner t \<and> lo_limit s = lo_limit t \<and> lo_reuse s = lo_reuse t
     \<and> lo_candidate s = lo_candidate t \<and> lo_last s = lo_last t \<and> lo_calls s = lo_calls t"
  by (cases s; cases t) (auto simp: blank_def)

lemma attempt_state_eq:
  "blank s = blank t \<Longrightarrow> attempt_state_of env s st = attempt_state_of env t st"
  by (simp add: attempt_state_of_def blank_eq_iff)

lemma not_streaming:
  assumes "\<not> le_stream env"
  shows "should_inner_retry flag rules (attempt_state_of env s st) i n e = should_inner_retry flag rules (attempt_state_of env s False) i n e"
    "attempt_decision flag rules (attempt_state_of env s st) e = attempt_decision flag rules (attempt_state_of env s False) e"
  using assms by (simp_all add: should_inner_retry_def attempt_decision_def failure_input_of_def attempt_state_of_def cong: if_cong sum.case_cong)

lemma no_stream_end:
  assumes "\<not> le_stream env" "attempt_decision flag rules (attempt_state_of env s st) e = Inr d"
  shows "fd_action d \<noteq> STREAM_ERROR_AND_STOP \<and> fd_action d \<noteq> CANCEL_AND_STOP"
  using assms(2)
proof (rule attempt_decisionD)
  fix ov act
  assume o: "error_override flag rules e = Inr ov"
  assume "classify_failure (failure_input_of (attempt_state_of env s st) e ov act
      (as_retry_count (attempt_state_of env s st) < as_total_attempts (attempt_state_of env s st) - 1)) = Inr d"
  then show ?thesis unfolding classify_attempt [OF o] using assms(1)
    by (auto simp: attempt_state_of_def decide_def split: if_splits)
qed

definition agree :: "loop_state \<times> finish option \<Rightarrow> loop_state \<times> finish option \<Rightarrow> bool" where
  "agree x y \<longleftrightarrow> blank (fst x) = blank (fst y) \<and> snd x = snd y"

lemma close_agree: "blank s = blank t \<Longrightarrow> blank (close_candidate b s) = blank (close_candidate b t)"
  by (simp add: blank_eq_iff loop_simps)

lemma handle_agree:
  assumes "blank s = blank t" "handle_attempt_failure env e st p s = (s1, d)" "handle_attempt_failure env e st p t = (t1, d')"
  shows "blank s1 = blank t1 \<and> d = d'"
proof -
  have "records_of env e p s = records_of env e p t" using assms(1) by (simp add: records_of_def blank_eq_iff)
  then show ?thesis using handle_parts [OF assms(2)] handle_parts [OF assms(3)] assms(1) attempt_state_eq [OF assms(1)] by (simp add: blank_eq_iff)
qed

lemma failure_agree:
  assumes "blank s = blank t"
  shows "agree (media_failure env e s) (on_failure (env\<lparr>le_stream := False\<rparr>) e st usage t)"
proof -
  let ?env = "env\<lparr>le_stream := False\<rparr>" and ?s = "s\<lparr>lo_last := Some e\<rparr>" and ?t = "t\<lparr>lo_last := Some e\<rparr>"
  have n: "\<not> le_stream ?env" by simp
  have st: "blank ?s = blank ?t" using assms by (simp add: blank_eq_iff)
  let ?i = "should_inner_retry (le_overflow ?env) (le_rules ?env) (attempt_state_of ?env ?s False) (lo_inner ?s) (lo_limit ?s) e"
  have i: "should_inner_retry (le_overflow ?env) (le_rules ?env) (attempt_state_of ?env ?t st) (lo_inner ?t) (lo_limit ?t) e = ?i"
    using not_streaming(1) [OF n] attempt_state_eq [OF st, of ?env False] st by (simp add: blank_eq_iff)
  have h: "handle_attempt_failure ?env e st p ?t = handle_attempt_failure ?env e False p ?t" for p
    using not_streaming(2) [OF n, of "le_overflow ?env" "le_rules ?env" ?t st e] by (simp add: handle_attempt_failure_def)
  show ?thesis
  proof (cases ?i)
    case (Inl x)
    then show ?thesis using i close_agree [OF st] by (simp add: agree_def media_failure_def on_failure_def Let_def)
  next
    case (Inr p)
    obtain s1 d where s1: "handle_attempt_failure ?env e False p ?s = (s1, d)" by (cases "handle_attempt_failure ?env e False p ?s")
    obtain t1 where t1: "handle_attempt_failure ?env e False p ?t = (t1, d)" and b: "blank s1 = blank t1"
      using handle_agree [OF st s1] by (cases "handle_attempt_failure ?env e False p ?t") auto
    show ?thesis
    proof (cases d)
      case (Inl x)
      then show ?thesis using i h Inr s1 t1 close_agree [OF b] by (simp add: agree_def media_failure_def on_failure_def Let_def)
    next
      case d: (Inr x)
      then have "attempt_decision (le_overflow ?env) (le_rules ?env) (attempt_state_of ?env ?s False) e = Inr x" using handle_parts(8) [OF s1] by simp
      note na = no_stream_end [OF n this]
      have "on_failure ?env e st usage t = after_decision ?env e usage p (fd_action x) t1"
        using i h Inr t1 d by (simp add: on_failure_def Let_def)
      moreover have "media_failure env e s =
          (if fd_action x = RETURN_CLIENT_ERROR
           then (close_candidate False s1, Some (case client_error (le_overflow env) e of Inl x \<Rightarrow> Crashed x | Inr y \<Rightarrow> ClientError y))
           else if p then (s1\<lparr>lo_inner := lo_inner s1 + 1, lo_reuse := True\<rparr>, None)
           else if fd_action x = RETRY then (close_candidate False (s1\<lparr>lo_outer := lo_outer s1 + 1, lo_reuse := False\<rparr>), None)
           else (close_candidate False s1, Some Exhausted))"
        using Inr s1 d by (simp add: media_failure_def Let_def)
      ultimately show ?thesis using b na
        by (cases "fd_action x") (simp_all add: agree_def after_decision_def blank_eq_iff loop_simps)
    qed
  qed
qed

lemma serve_agree:
  assumes "blank s = blank t" "lo_candidate s \<noteq> None"
  shows "agree (media_serve env meth a s) (serve (env\<lparr>le_stream := False\<rparr>) a t)"
proof (cases "lo_candidate s")
  case (Some c)
  have b: "blank (calling cs s) = blank (calling cs t)" for cs using assms by (simp add: blank_eq_iff loop_simps)
  have t: "lo_candidate t = Some c" using Some assms by (simp add: blank_eq_iff)
  show ?thesis
  proof (cases a)
    case (Failed e st usage)
    then show ?thesis using failure_agree [OF b] Some t by (simp add: media_serve_def serve_def)
  qed (use Some t assms in \<open>simp_all add: media_serve_def serve_def agree_def blank_eq_iff loop_simps\<close>)
qed (use assms(2) in simp)

definition held_on :: "loop_state \<Rightarrow> bool" where
  \<comment> \<open>a request that is sent again has a candidate\<close>
  "held_on s \<longleftrightarrow> (lo_reuse s \<longrightarrow> lo_candidate s \<noteq> None)"

definition selection_returns :: "round \<Rightarrow> bool" where
  "selection_returns r \<longleftrightarrow> (\<forall>e. rd_select r \<noteq> SelectFails e)"

lemma round_agree:
  assumes "blank s = blank t" "held_on s" "selection_returns r"
  shows "agree (media_round env meth r s) (chat_round (env\<lparr>le_stream := False\<rparr>) r t)"
proof -
  have u: "blank (s\<lparr>lo_reuse := False\<rparr>) = blank (t\<lparr>lo_reuse := False\<rparr>)" using assms(1) by (simp add: blank_eq_iff)
  have v: "blank (select_candidate env p x s) = blank (select_candidate (env\<lparr>le_stream := False\<rparr>) p x t)" for p x
    using assms(1) by (simp add: blank_eq_iff select_candidate_def loop_simps)
  have c: "lo_candidate (select_candidate env p x s) \<noteq> None" for p x by (simp add: select_candidate_def)
  have w: "total_attempts (env\<lparr>le_stream := False\<rparr>) = total_attempts env" by (simp add: total_attempts_def)
  show ?thesis using assms serve_agree [OF u] serve_agree [OF v c]
    by (auto simp: media_round_def chat_round_def w blank_eq_iff agree_def held_on_def selection_returns_def split: option.split selection.split)
qed

lemma failure_held: "media_failure env e s = (s', r) \<Longrightarrow> lo_candidate s \<noteq> None \<Longrightarrow> held_on s'"
  by (auto simp: media_failure_def handle_attempt_failure_def held_on_def Let_def loop_simps split: sum.splits if_splits option.splits prod.splits)

lemma serve_held: "media_serve env meth a s = (s', None) \<Longrightarrow> lo_candidate s \<noteq> None \<Longrightarrow> held_on s'"
  using failure_held [of env _ "calling [UpstreamCall] s" s' None]
  by (cases a) (auto simp: media_serve_def Let_def loop_simps split: if_splits)

lemma round_held:
  assumes "media_round env meth r s = (s', None)" "held_on s" "selection_returns r"
  shows "held_on s'"
proof -
  have "media_serve env meth (rd_answer r) (s\<lparr>lo_reuse := False\<rparr>) = (s', None) \<and> lo_reuse s
      \<or> (\<exists>p u. media_serve env meth (rd_answer r) (select_candidate env p u s) = (s', None))"
    using assms(1,3) by (auto simp: media_round_def selection_returns_def split: if_splits option.splits selection.splits)
  then show ?thesis
  proof (elim disjE conjE exE)
    assume "media_serve env meth (rd_answer r) (s\<lparr>lo_reuse := False\<rparr>) = (s', None)" "lo_reuse s"
    then show ?thesis using serve_held [of env meth "rd_answer r" "s\<lparr>lo_reuse := False\<rparr>" s'] assms(2) by (simp add: held_on_def)
  next
    fix p u assume "media_serve env meth (rd_answer r) (select_candidate env p u s) = (s', None)"
    then show ?thesis using serve_held [of env meth "rd_answer r" "select_candidate env p u s" s'] by (simp add: select_candidate_def)
  qed
qed

text \<open>
  Media generation runs the chat loop: as long as no selection raises, the loop for images, videos and speech
  makes the same calls as the chat loop without a stream, ends the same way with the same last error, and, for
  requests that are neither tests nor probes, raises the same exception. (A test or probe sees the real last error
  after an exhausted chat loop, but the unified error after an exhausted media loop.)
\<close>

theorem media_is_chat:
  assumes "list_all selection_returns rs"
  shows "lo_calls (fst (media_loop env meth rs)) = lo_calls (fst (chat_loop (env\<lparr>le_stream := False\<rparr>) rs))
   \<and> snd (media_loop env meth rs) = snd (chat_loop (env\<lparr>le_stream := False\<rparr>) rs)
   \<and> (\<not> le_is_test env \<and> \<not> le_is_probe env \<longrightarrow>
        media_raises env (fst (media_loop env meth rs)) f = chat_raises env (fst (chat_loop (env\<lparr>le_stream := False\<rparr>) rs)) f)"
proof -
  have "agree (run_rounds (media_round env meth) rs s) (run_rounds (chat_round (env\<lparr>le_stream := False\<rparr>)) rs t)"
    if "blank s = blank t" "held_on s" for s t
    using assms that
  proof (induction rs arbitrary: s t)
    case (Cons r rs)
    have a: "agree (media_round env meth r s) (chat_round (env\<lparr>le_stream := False\<rparr>) r t)" using round_agree Cons.prems by simp
    obtain s1 x where s1: "media_round env meth r s = (s1, x)" by (cases "media_round env meth r s")
    with a obtain t1 where t1: "chat_round (env\<lparr>le_stream := False\<rparr>) r t = (t1, x)" "blank s1 = blank t1"
      by (cases "chat_round (env\<lparr>le_stream := False\<rparr>) r t") (auto simp: agree_def)
    then show ?case using Cons.IH [OF _ t1(2)] round_held [of env meth r s s1] s1 Cons.prems by (cases x) (simp_all add: agree_def)
  qed (simp add: agree_def)
  from this [of loop_start loop_start] have "agree (media_loop env meth rs) (chat_loop (env\<lparr>le_stream := False\<rparr>) rs)"
    by (simp add: media_loop_def chat_loop_def held_on_def loop_start_def)
  then show ?thesis by (auto simp: agree_def blank_eq_iff media_raises_def chat_raises_def split: finish.split)
qed

section \<open>Backup groups\<close>

definition catalogue_ok :: "string set \<Rightarrow> hop \<Rightarrow> bool" where
  \<comment> \<open>the names in use, whatever snapshot of the catalogue is current\<close>
  "catalogue_ok G h \<longleftrightarrow> (\<forall>m \<in> G. canonical_name (hp_group h m) m \<in> G \<and> backup_name (hp_fresh h m) \<in> insert [] G)"

definition group_inv :: "string set \<Rightarrow> group_state \<Rightarrow> bool" where
  "group_inv G s \<longleftrightarrow> finite G \<and> gs_model s \<in> G"

definition group_rank :: "string set \<Rightarrow> group_state \<Rightarrow> nat" where
  "group_rank G s = card (G - set (gs_visited s))"

lemma next_group_cases:
  assumes "next_group fresh c s = (s', r)"
  shows "gs_visited s' = gs_visited s" "r = None \<Longrightarrow> gs_model s' = backup_name (fresh c) \<and> backup_name (fresh c) \<noteq> []"
  using assms by (auto simp: next_group_def Let_def split: if_splits option.splits)

lemma group_hop_cases:
  assumes "group_hop h s = (s', r)"
  obtains (same) f where "s' = s" "r = Some f" "gs_model s = [] \<or> canonical_name (hp_group h (gs_model s)) (gs_model s) \<in> set (gs_visited s)"
  | (hop) c where "c = canonical_name (hp_group h (gs_model s)) (gs_model s)" "c \<notin> set (gs_visited s)" "gs_visited s' = gs_visited s @ [c]"
      "r = None \<longrightarrow> gs_model s' = backup_name (hp_fresh h c) \<and> backup_name (hp_fresh h c) \<noteq> []"
proof (cases "gs_model s = [] \<or> canonical_name (hp_group h (gs_model s)) (gs_model s) \<in> set (gs_visited s)")
  case True
  then show thesis using same assms by (auto simp: group_hop_def Let_def split: if_splits)
next
  case False
  let ?c = "canonical_name (hp_group h (gs_model s)) (gs_model s)"
  show thesis
  proof (cases "hp_result h")
    case (GroupNoAccount n)
    then have "next_group (hp_fresh h) ?c (s\<lparr>gs_visited := gs_visited s @ [?c], gs_last := Some n\<rparr>) = (s', r)"
      using False assms by (simp add: group_hop_def Let_def)
    from next_group_cases [OF this] show thesis using False by (intro hop [of ?c]) simp_all
  qed (use False assms hop [of ?c] in \<open>auto simp: group_hop_def Let_def\<close>)
qed

interpretation groups: ranked_loop group_hop "catalogue_ok G" "group_inv G" "group_rank G" "\<lambda>s. length (gs_visited s)" for G
proof
  fix i s s'
  assume a: "catalogue_ok G i" "group_inv G s" "group_hop i s = (s', None)"
  from a(3) show "group_inv G s'"
    by (cases rule: group_hop_cases) (use a(1,2) in \<open>auto simp: catalogue_ok_def group_inv_def\<close>)
  from a(3) show "group_rank G s' < group_rank G s"
  proof (cases rule: group_hop_cases)
    case (hop c)
    then have "c \<in> G - set (gs_visited s)" "finite G" using a(1,2) by (auto simp: catalogue_ok_def group_inv_def)
    moreover have "G - set (gs_visited s') = (G - set (gs_visited s)) - {c}" using hop(3) by auto
    ultimately show ?thesis unfolding group_rank_def by (metis card_Diff1_less finite_Diff)
  qed simp
next
  fix i s s' and r :: "group_finish option"
  assume "group_hop i s = (s', r)"
  then show "length (gs_visited s') \<le> Suc (length (gs_visited s))" by (cases rule: group_hop_cases) auto
next
  fix i s s' and r :: "group_finish option"
  assume a: "catalogue_ok G i" "group_inv G s" "group_rank G s = 0" "group_hop i s = (s', r)"
  then have "G \<subseteq> set (gs_visited s)" by (auto simp: group_rank_def group_inv_def)
  from a(4) show "length (gs_visited s') = length (gs_visited s)"
    by (cases rule: group_hop_cases) (use a(1,2) \<open>G \<subseteq> set (gs_visited s)\<close> in \<open>auto simp: catalogue_ok_def group_inv_def\<close>)
qed

lemma fallback_distinct: "distinct (gs_visited s) \<Longrightarrow> distinct (gs_visited (fst (run_rounds group_hop hops s)))"
proof (induction hops arbitrary: s)
  case (Cons h hops)
  obtain s1 r where st: "group_hop h s = (s1, r)" by (cases "group_hop h s")
  then have "distinct (gs_visited s1)" using Cons.prems by (cases rule: group_hop_cases) auto
  then show ?case using Cons.IH st by (cases r) simp_all
qed simp

text \<open>
  C35. The walk along backup groups ends, even when the catalogue changes under it and its backup links form
  cycles: if all snapshots use the names of a finite set, the walk is over after as many hops as there are
  names, and no group is tried twice.
\<close>

theorem group_fallback_ends:
  assumes "finite G" "model \<in> G" "list_all (catalogue_ok G) hops" "card G < length hops"
  shows "\<exists>s f. group_fallback model hops = (s, Some f) \<and> distinct (gs_visited s) \<and> length (gs_visited s) \<le> card G"
proof -
  let ?s = "\<lparr>gs_model = model, gs_visited = [], gs_last = None\<rparr>"
  have i: "group_inv G ?s" "group_rank G ?s = card G" using assms(1,2) by (simp_all add: group_inv_def group_rank_def)
  then obtain s f where s: "group_fallback model hops = (s, Some f)"
    using groups.run_ends [OF assms(3) i(1)] assms(4) by (auto simp: group_fallback_def)
  moreover have "length (gs_visited s) \<le> card G" using groups.run_cost [OF assms(3) i(1)] s i(2) by (auto simp: group_fallback_def)
  moreover have "distinct (gs_visited s)" using fallback_distinct [of ?s hops] s by (simp add: group_fallback_def)
  ultimately show ?thesis by blast
qed

definition ring :: "string \<Rightarrow> pydict option" where
  \<comment> \<open>two groups that are each other's backup\<close>
  "ring m = (if m = ''fast'' then Some [(''name'', PStr ''fast''), (''backup_group'', PStr ''slow'')]
     else if m = ''slow'' then Some [(''name'', PStr ''slow''), (''backup_group'', PStr ''fast'')] else None)"

theorem group_fallback_ends_witness:
  "\<exists>s f. group_fallback ''fast'' (replicate 3 \<lparr>hp_group = ring, hp_result = GroupNoAccount \<lparr>na_status = 429, na_detail = PNone, na_code = ''quota_exhausted''\<rparr>, hp_fresh = ring\<rparr>)
     = (s, Some f) \<and> distinct (gs_visited s) \<and> length (gs_visited s) \<le> card {''fast'', ''slow''}"
proof (rule group_fallback_ends)
  have "canonical_name (ring m) m = m \<and> backup_name (ring m) \<in> {''fast'', ''slow''}" if "m \<in> {''fast'', ''slow''}" for m
  proof -
    have "canonical_name (ring ''fast'') ''fast'' = ''fast'' \<and> backup_name (ring ''fast'') = ''slow''" by code_simp
    moreover have "canonical_name (ring ''slow'') ''slow'' = ''slow'' \<and> backup_name (ring ''slow'') = ''fast''" by code_simp
    ultimately show ?thesis using that by auto
  qed
  then show "list_all (catalogue_ok {''fast'', ''slow''})
      (replicate 3 \<lparr>hp_group = ring, hp_result = GroupNoAccount \<lparr>na_status = 429, na_detail = PNone, na_code = ''quota_exhausted''\<rparr>, hp_fresh = ring\<rparr>)"
    by (simp add: catalogue_ok_def list_all_iff)
qed (auto simp: card_insert_if)

section \<open>Options\<close>

text \<open>
  The accounts to which a test is restricted are taken out of the keyword arguments twice; the second time
  the key is gone, so that the restriction is always lost.
\<close>

lemma account_whitelist_lost: "co_account_whitelist (chat_options kw) = PNone"
proof -
  have "map_of (filter (\<lambda>p. fst p \<noteq> k) d) k = None" for k and d :: pydict by (induction d) auto
  then show ?thesis by (simp add: chat_options_def dpop_def Let_def dget_or_def)
qed

end
