(* ===== verification/Lub_Routing.thy ===== *)
theory Lub_Routing
  imports Lub_Terminal Lub_Pool
begin

text \<open>
  \<open>ModelClientPool\<close> of \<open>server/rate_limiter.py\<close>, the part that chooses an account for a request.

  Which accounts are candidates. Account objects are shared, so a pool holds their addresses and the router
  the store. Parameters: the rows and tags of channels, what provider classes support, the metadata of
  models. The read-only use of \<open>state()\<close> and of the model cooldowns drops their clean-up of expired entries;
  \<open>_model_provider_quota_available\<close> is disabled in the source (it always answers yes) and left out.
\<close>

section \<open>What routing reads\<close>

record channel_info =
  ci_enabled :: bool
  ci_tags :: "string list"
  ci_models :: "pydict list"
  ci_protocols :: "string \<Rightarrow> string option \<Rightarrow> pydict list"

record routed_pool =
  rp_channel :: "channel_info option"
  rp_clients :: "nat list"

record provider_traits =
  pt_method :: "string \<Rightarrow> bool"
  pt_system_model :: "(string \<Rightarrow> bool) option"
  pt_protocol :: "string option"

record channel_stats =
  cs_score :: rat
  cs_ttft :: "rat option"
  cs_error_rate :: rat
  cs_requests :: int
  cs_failures :: int

record outcome =
  oc_at :: time
  oc_success :: bool
  oc_duration :: int

record route_candidate =
  rc_provider :: string
  rc_account :: nat
  rc_model :: string
  rc_upstream :: string
  rc_protocol :: string
  rc_same_protocol :: bool
  rc_bound :: bool
  rc_endpoint :: "pydict option"
  rc_row :: pydict
  rc_score :: rat
  rc_scored :: bool

record router =
  ro_pools :: "(string \<times> routed_pool) list"
  ro_accounts :: "nat \<Rightarrow> account_client"
  ro_balance :: "nat \<Rightarrow> rat option \<times> rat"
  ro_billing :: "string \<Rightarrow> string"
  ro_traits :: "nat \<Rightarrow> provider_traits"
  ro_metadata :: "string \<Rightarrow> pydict \<times> bool"
  ro_pick_history :: "(time \<times> string) list"
  ro_recent_picks :: "(string \<times> time list) list"
  ro_last_route :: "(nat \<times> route_candidate) list"
  ro_affinity :: "(string \<times> string \<times> time) list"
  ro_session_affinity :: "(string \<times> string \<times> time) list"
  ro_failures :: "(int \<times> time) option"
  ro_outcomes :: "(string \<times> outcome list) list"
  ro_channel_stats :: "(string \<times> channel_stats) list"
  ro_channel_scores :: "(string \<times> rat option \<times> rat) list"
  ro_pending :: "(string \<times> int) list"
  ro_dropped :: int

definition account_of :: "router \<Rightarrow> nat \<Rightarrow> account_client" where
  "account_of R x = ro_accounts R x"

definition user_of :: "router \<Rightarrow> nat \<Rightarrow> string" where
  "user_of R x = client_name (ro_accounts R x)"

definition iter_model_candidates :: "router \<Rightarrow> string \<Rightarrow> bool \<Rightarrow> (string \<times> routed_pool \<times> channel_info \<times> pydict) list" where
  "iter_model_candidates R model include_disabled =
     concat (map (\<lambda>(name, p). case rp_channel p of
         None \<Rightarrow> []
       | Some ch \<Rightarrow> map (\<lambda>row. (name, p, ch, row))
           (filter (\<lambda>row. dget row ''model_id'' = PStr model \<and> (dget row ''enabled'' \<noteq> PBool False \<or> include_disabled)) (ci_models ch)))
       (ro_pools R))"

definition model_tpm_available :: "time \<Rightarrow> (string \<times> time) list \<Rightarrow> string \<Rightarrow> bool" where
  "model_tpm_available now cds model = (case map_of cds model of Some u \<Rightarrow> u = 0 \<or> u \<le> now | None \<Rightarrow> True)"

definition MEDIA_OPERATION_CONFIG :: "(string \<times> string \<times> string) list" where
  "MEDIA_OPERATION_CONFIG =
    [(''image_generation'', ''generate_image'', ''image''), (''video_generation'', ''generate_video'', ''video''),
     (''tts_generation'', ''generate_speech'', ''audio''), (''embedding'', ''create_embedding'', ''embedding'')]"

definition operation_spec :: "string option \<Rightarrow> (string \<times> string) option" where
  "operation_spec operation = (case opt_str operation of
      None \<Rightarrow> None
    | Some x \<Rightarrow> if x = ''chat'' then None else map_of MEDIA_OPERATION_CONFIG x)"

definition provider_supports_operation :: "provider_traits \<Rightarrow> string option \<Rightarrow> bool" where
  "provider_supports_operation t operation = (case operation_spec operation of None \<Rightarrow> True | Some (m, _) \<Rightarrow> pt_method t m)"

definition allows_modality :: "pyval \<Rightarrow> string \<Rightarrow> bool" where
  "allows_modality v modality = (case v of PList xs \<Rightarrow> xs = [] \<or> PStr modality \<in> set xs | _ \<Rightarrow> True)"

definition route_supports_operation :: "router \<Rightarrow> pydict \<Rightarrow> string \<Rightarrow> string option \<Rightarrow> bool" where
  "route_supports_operation R row model operation = (case operation_spec operation of
      None \<Rightarrow> True
    | Some (_, modality) \<Rightarrow>
        (let extra = dict_of (dget row ''extra_config'');
             (metadata, default_only) = ro_metadata R model
         in allows_modality (py_or (dget extra ''output_modalities'') (dget extra ''modalities'')) modality
            \<and> (default_only \<or> allows_modality (dget metadata ''output_modalities'') modality)))"

section \<open>Dedicated routes\<close>

definition entry_text :: "pyval \<Rightarrow> string" where
  \<comment> \<open>\<open>(v or "").strip()\<close>\<close>
  "entry_text v = strip (py_str (py_or v (PStr '''')))"

definition account_names :: "pyval \<Rightarrow> string list" where
  "account_names v = filter (\<lambda>t. t \<noteq> []) (map (strip \<circ> py_str) (case v of PStr _ \<Rightarrow> [v] | PList xs \<Rightarrow> xs | _ \<Rightarrow> []))"

definition single_account :: "pydict \<Rightarrow> string list" where
  "single_account entry = filter (\<lambda>t. t \<noteq> []) [entry_text (py_or (dget entry ''account'') (dget entry ''username''))]"

definition entry_accounts :: "pydict \<Rightarrow> string list" where
  \<comment> \<open>without repetitions, in order\<close>
  "entry_accounts entry = rev (remdups (rev (account_names (dget entry ''accounts'') @ single_account entry)))"

record route_entry =
  re_provider :: string
  re_accounts :: "string list"

definition route_entries :: "pydict option \<Rightarrow> route_entry list" where
  "route_entries route = (case route of
      None \<Rightarrow> []
    | Some r \<Rightarrow> if r = [] then []
        else (case dget r ''entries'' of
            PList (x # xs) \<Rightarrow> List.map_filter (\<lambda>e. case e of
                PDict d \<Rightarrow> if entry_text (dget d ''provider'') \<noteq> [] then Some \<lparr>re_provider = entry_text (dget d ''provider''), re_accounts = entry_accounts d\<rparr> else None
              | _ \<Rightarrow> None) (x # xs)
          | _ \<Rightarrow> if entry_text (dget r ''provider'') = [] then []
                 else [\<lparr>re_provider = entry_text (dget r ''provider''), re_accounts = entry_accounts r\<rparr>]))"

section \<open>Candidates\<close>

record request_spec =
  rq_model :: string
  rq_exclude :: "(string \<times> string) list"
  rq_operation :: "string option"
  rq_group_whitelist :: "string list"
  rq_group_blacklist :: "string list"
  rq_key_whitelist :: "string list"
  rq_key_blacklist :: "string list"
  rq_entries :: "route_entry list"
  rq_protocol :: "string option"
  rq_accounts :: "string list"
  rq_is_test :: bool
  rq_is_probe :: bool
  rq_input_tokens :: int

type_synonym reasons = "(string \<times> int) list"

definition bump :: "string \<Rightarrow> int \<Rightarrow> reasons \<Rightarrow> reasons" where
  "bump k n rs = dset rs k ((case map_of rs k of Some m \<Rightarrow> m | None \<Rightarrow> 0) + n)"

definition window_of_row :: "pyval \<Rightarrow> int" where
  \<comment> \<open>\<open>int(v or 0)\<close>, 0 if that raises\<close>
  "window_of_row v = (case py_int (py_or v (PInt 0)) of Inr n \<Rightarrow> n | Inl _ \<Rightarrow> 0)"

definition context_limit :: "router \<Rightarrow> pydict \<Rightarrow> string \<Rightarrow> int" where
  "context_limit R row model =
     (let own = window_of_row (dget (dict_of (dget row ''extra_config'')) ''max_context_tokens'')
      in if own \<le> 0 then window_of_row (dget (fst (ro_metadata R model)) ''max_context_tokens'') else own)"

definition meets :: "string list \<Rightarrow> string list \<Rightarrow> bool" where
  "meets xs ys \<longleftrightarrow> (\<exists>x \<in> set xs. x \<in> set ys)"

definition row_skip :: "router \<Rightarrow> request_spec \<Rightarrow> string \<Rightarrow> string \<Rightarrow> channel_info \<Rightarrow> pydict \<Rightarrow> string option" where
  \<comment> \<open>why a row of a channel is passed over, in the order of the checks\<close>
  "row_skip R q model name ch row =
     (let probing = rq_is_test q \<or> rq_is_probe q; limit_of = context_limit R row model
      in if \<not> route_supports_operation R row model (rq_operation q) then Some ''operation_mismatch''
         else if 0 < rq_input_tokens q \<and> 0 < limit_of \<and> limit_of < rq_input_tokens q then Some ''context_window_exceeded''
         else if rq_entries q \<noteq> [] \<and> name \<notin> set (map re_provider (rq_entries q)) then Some ''entry_provider_missing''
         else if \<not> probing \<and> rq_group_whitelist q \<noteq> [] \<and> \<not> meets (ci_tags ch) (rq_group_whitelist q) then Some ''group_provider_filtered''
         else if \<not> probing \<and> meets (ci_tags ch) (rq_group_blacklist q) then Some ''group_provider_filtered''
         else if rq_key_whitelist q \<noteq> [] \<and> (if probing then name \<notin> set (rq_key_whitelist q) else \<not> meets (ci_tags ch) (rq_key_whitelist q))
         then Some ''api_key_provider_filtered''
         else if (if probing then name \<in> set (rq_key_blacklist q) else meets (ci_tags ch) (rq_key_blacklist q)) then Some ''api_key_provider_filtered''
         else if \<not> rq_is_test q \<and> \<not> ci_enabled ch then Some ''provider_disabled''
         else None)"

definition allowed_accounts :: "request_spec \<Rightarrow> string \<Rightarrow> string list option" where
  \<comment> \<open>\<open>route_account_map.get(provider_name)\<close>: the accounts of all entries for the provider\<close>
  "allowed_accounts q name = (if rq_entries q = [] then None
     else if name \<in> set (map re_provider (rq_entries q))
     then Some (concat (map re_accounts (filter (\<lambda>e. re_provider e = name) (rq_entries q)))) else None)"

definition state_reason :: "account_state \<Rightarrow> string option" where
  "state_reason st = (case st of
      DISABLED \<Rightarrow> Some ''account_disabled'' | CREDENTIAL_INVALID \<Rightarrow> Some ''account_frozen'' | QUOTA_EXHAUSTED \<Rightarrow> Some ''account_frozen''
    | FROZEN \<Rightarrow> Some ''account_frozen'' | COOLING \<Rightarrow> Some ''account_cooldown'' | UNINITIALIZED \<Rightarrow> Some ''account_disabled'' | _ \<Rightarrow> None)"

definition account_skip :: "time \<Rightarrow> router \<Rightarrow> request_spec \<Rightarrow> string \<Rightarrow> string \<Rightarrow> nat \<Rightarrow> string option" where
  \<comment> \<open>why an account is passed over; every state that is not routable has a reason\<close>
  "account_skip now R q model name a =
     (if \<not> provider_supports_operation (ro_traits R a) (rq_operation q) then Some ''provider_method_missing''
      else if (case pt_system_model (ro_traits R a) of Some f \<Rightarrow> \<not> f model | None \<Rightarrow> False) then Some ''system_model_unsupported''
      else if (case allowed_accounts q name of Some as \<Rightarrow> user_of R a \<notin> set as | None \<Rightarrow> False) then Some ''entry_account_missing''
      else if rq_accounts q \<noteq> [] \<and> user_of R a \<notin> set (rq_accounts q) then Some ''account_whitelist_missing''
      else if (name, user_of R a) \<in> set (rq_exclude q) then Some ''excluded_account''
      else if \<not> rq_is_test q \<and> \<not> rq_is_probe q then
        (if snd (state now (account_of R a)) \<notin> ROUTABLE_STATES then state_reason (snd (state now (account_of R a)))
         else if is_model_frozen now model (account_of R a) then Some ''account_model_cooldown'' else None)
      else if \<not> rq_is_test q \<and> ac_disabled (account_of R a) then Some ''account_disabled''
      else None)"

definition endpoint_candidate :: "router \<Rightarrow> request_spec \<Rightarrow> string \<Rightarrow> string \<Rightarrow> pydict \<Rightarrow> nat \<Rightarrow> pydict option \<Rightarrow> route_candidate" where
  "endpoint_candidate R q model name row a ep =
     (let proto = lower (case ep of
            Some d \<Rightarrow> (if truthy (dget d ''protocol'') then py_str (dget d ''protocol'') else (case pt_protocol (ro_traits R a) of Some p \<Rightarrow> p | None \<Rightarrow> ''openai''))
          | None \<Rightarrow> (case pt_protocol (ro_traits R a) of Some p \<Rightarrow> p | None \<Rightarrow> ''openai''))
      in \<lparr>rc_provider = name, rc_account = a, rc_model = model, rc_upstream = py_str (py_or (dget row ''upstream_model_id'') (PStr model)),
          rc_protocol = proto, rc_same_protocol = (case opt_str (rq_protocol q) of Some p \<Rightarrow> proto = lower p | None \<Rightarrow> False),
          rc_bound = (case ep of Some d \<Rightarrow> (case dget d ''models'' of PList ms \<Rightarrow> PStr model \<in> set ms | _ \<Rightarrow> False) | None \<Rightarrow> False),
          rc_endpoint = ep, rc_row = row, rc_score = 1, rc_scored = False\<rparr>)"

definition row_endpoints :: "request_spec \<Rightarrow> string \<Rightarrow> channel_info \<Rightarrow> pydict option list" where
  "row_endpoints q model ch =
     (let eps = (if (case opt_str (rq_operation q) of Some x \<Rightarrow> map_of MEDIA_OPERATION_CONFIG x = None | None \<Rightarrow> True)
                 then map Some (ci_protocols ch model (rq_protocol q)) else [])
      in if eps = [] then [None] else eps)"

definition scan_account ::
  "time \<Rightarrow> router \<Rightarrow> request_spec \<Rightarrow> string \<Rightarrow> string \<times> routed_pool \<times> channel_info \<times> pydict \<Rightarrow> nat
     \<Rightarrow> route_candidate list \<times> reasons \<Rightarrow> route_candidate list \<times> reasons" where
  "scan_account now R q model src a acc =
     (case (src, acc) of ((name, p, ch, row), (cs, rs)) \<Rightarrow>
       (case account_skip now R q model name a of
          Some why \<Rightarrow> (cs, bump why 1 rs)
        | None \<Rightarrow> (cs @ map (endpoint_candidate R q model name row a) (row_endpoints q model ch), rs)))"

definition scan_row ::
  "time \<Rightarrow> router \<Rightarrow> request_spec \<Rightarrow> string \<Rightarrow> string \<times> routed_pool \<times> channel_info \<times> pydict
     \<Rightarrow> route_candidate list \<times> reasons \<Rightarrow> route_candidate list \<times> reasons" where
  "scan_row now R q model src acc =
     (case (src, acc) of ((name, p, ch, row), (cs, rs)) \<Rightarrow>
       (case row_skip R q model name ch row of
          Some why \<Rightarrow> (cs, bump why 1 rs)
        | None \<Rightarrow> fold (scan_account now R q model src) (rp_clients p) (cs, rs)))"

record scan_result =
  sc_candidates :: "route_candidate list"
  sc_limited :: "string list"
  sc_reasons :: reasons

definition scan_model :: "time \<Rightarrow> (string \<times> time) list \<Rightarrow> router \<Rightarrow> request_spec \<Rightarrow> string \<Rightarrow> scan_result \<Rightarrow> scan_result" where
  "scan_model now cds R q model s =
     (let rows = iter_model_candidates R model (rq_is_test q \<or> rq_is_probe q)
      in if rows = [] then s\<lparr>sc_reasons := bump ''no_model_route'' 1 (sc_reasons s)\<rparr>
         else if \<not> model_tpm_available now cds model
         then s\<lparr>sc_limited := sc_limited s @ [model], sc_reasons := bump ''model_tpm_limited'' 1 (sc_reasons s)\<rparr>
         else (case fold (scan_row now R q model) rows (sc_candidates s, sc_reasons s) of (cs, rs) \<Rightarrow> s\<lparr>sc_candidates := cs, sc_reasons := rs\<rparr>))"

definition collect_candidates :: "time \<Rightarrow> (string \<times> time) list \<Rightarrow> router \<Rightarrow> request_spec \<Rightarrow> string list \<Rightarrow> scan_result" where
  "collect_candidates now cds R q models = fold (scan_model now cds R q) models \<lparr>sc_candidates = [], sc_limited = [], sc_reasons = []\<rparr>"

end
