(* ===== verification/Lub_Scoring.thy ===== *)
theory Lub_Scoring
  imports Lub_Routing
begin

text \<open>
  Scores of candidates in \<open>ModelClientPool\<close>: the statistics that outcomes leave behind (per channel, per
  account, per session, per upstream model) and the factors the two intelligent strategies multiply.

  Floats are rationals. The factors read windows without their clean-up of expired entries, which the
  next reader repeats. The diagnostic fields beside \<open>score\<close> are left out.
\<close>

section \<open>Channel statistics\<close>

definition channel_stats0 :: channel_stats where
  "channel_stats0 = \<lparr>cs_score = 1, cs_ttft = None, cs_error_rate = 0, cs_requests = 0, cs_failures = 0\<rparr>"

definition stats_of :: "router \<Rightarrow> string \<Rightarrow> channel_stats" where
  "stats_of R provider = (case map_of (ro_channel_stats R) provider of Some s \<Rightarrow> s | None \<Rightarrow> channel_stats0)"

definition score_enabled :: "router \<Rightarrow> string \<Rightarrow> bool" where
  "score_enabled R provider \<longleftrightarrow> map_of (ro_pools R) provider \<noteq> None"

definition count_outcome :: "bool \<Rightarrow> channel_stats \<Rightarrow> channel_stats" where
  \<comment> \<open>the request counters; past 100 requests both are halved\<close>
  "count_outcome failed s =
     (let n = cs_requests s + 1; f = cs_failures s + (if failed then 1 else 0);
          (n1, f1) = (if 100 < n then (50, f div 2) else (n, f))
      in s\<lparr>cs_requests := n1, cs_failures := f1, cs_error_rate := (if 0 < n1 then of_int f1 / of_int n1 else 0)\<rparr>)"

definition channel_of :: "router \<Rightarrow> string \<Rightarrow> rat option \<times> rat" where
  \<comment> \<open>the average and the score the channel object keeps for itself\<close>
  "channel_of R provider = (case map_of (ro_channel_scores R) provider of Some x \<Rightarrow> x | None \<Rightarrow> (None, 1))"

definition channel_record_ttft :: "rat \<Rightarrow> rat option \<times> rat \<Rightarrow> rat option \<times> rat" where
  "channel_record_ttft v x =
     (if v \<le> 0 then x
      else (let ewma = (case fst x of None \<Rightarrow> v | Some old \<Rightarrow> (8/10) * old + (2/10) * v)
            in (Some ewma, max (1/10) (min 10 (1000 / max ewma 50)))))"

definition channel_record_failure :: "rat option \<times> rat \<Rightarrow> rat option \<times> rat" where
  "channel_record_failure x = (fst x, max (1/10) (snd x * (8/10)))"

definition on_channel :: "string \<Rightarrow> (rat option \<times> rat \<Rightarrow> rat option \<times> rat) \<Rightarrow> router \<Rightarrow> router" where
  \<comment> \<open>\<open>pool.channel\<close>, if the pool has one\<close>
  "on_channel provider f R = (case map_of (ro_pools R) provider of
      Some p \<Rightarrow> (if rp_channel p \<noteq> None then R\<lparr>ro_channel_scores := dset (ro_channel_scores R) provider (f (channel_of R provider))\<rparr> else R)
    | None \<Rightarrow> R)"

definition record_channel_ttft :: "string \<Rightarrow> int \<Rightarrow> router \<Rightarrow> router" where
  "record_channel_ttft provider ttft_ms R =
     (if ttft_ms \<le> 0 \<or> \<not> score_enabled R provider then R
      else (let s = stats_of R provider;
                ewma = (case cs_ttft s of None \<Rightarrow> of_int ttft_ms | Some old \<Rightarrow> old * (8/10) + of_int ttft_ms * (2/10));
                score = min 10 (max (1/10) (1000 / max ewma 50))
            in on_channel provider (channel_record_ttft ewma)
                 (R\<lparr>ro_channel_stats := dset (ro_channel_stats R) provider ((count_outcome False s)\<lparr>cs_ttft := Some ewma, cs_score := score\<rparr>)\<rparr>)))"

definition SESSION_FAILURE_TTL :: rat where "SESSION_FAILURE_TTL = 300"

definition record_session_failure :: "time \<Rightarrow> router \<Rightarrow> router" where
  "record_session_failure now R =
     (let n = (case ro_failures R of Some (n, t) \<Rightarrow> if SESSION_FAILURE_TTL \<le> now - t then 0 else n | None \<Rightarrow> 0)
      in R\<lparr>ro_failures := Some (n + 1, now)\<rparr>)"

definition record_channel_failure :: "time \<Rightarrow> string \<Rightarrow> router \<Rightarrow> router" where
  "record_channel_failure now provider R =
     (if provider = [] \<or> \<not> score_enabled R provider then R
      else (let s = stats_of R provider
            in on_channel provider channel_record_failure (record_session_failure now
                 (R\<lparr>ro_channel_stats := dset (ro_channel_stats R) provider ((count_outcome True s)\<lparr>cs_score := max (1/10) (cs_score s * (9/10))\<rparr>)\<rparr>))))"

section \<open>Account outcomes\<close>

definition route_key :: "string \<Rightarrow> string \<Rightarrow> string" where
  \<comment> \<open>\<open>_account_key\<close>\<close>
  "route_key provider user = provider @ '':'' @ user"

definition find_account_client :: "router \<Rightarrow> string \<Rightarrow> string \<Rightarrow> nat option" where
  "find_account_client R provider user =
     (if provider = [] \<or> user = [] then None
      else (case map_of (ro_pools R) provider of None \<Rightarrow> None | Some p \<Rightarrow> find (\<lambda>x. user_of R x = user) (rp_clients p)))"

definition NON_ACCOUNT_MARKERS :: "string list" where
  "NON_ACCOUNT_MARKERS = [''invalid_request'', ''bad_request'', ''parameter'', ''param'', ''context_length'', ''too long'', ''model_not_found'',
     ''not found'', ''unsupported'', ''invalid_api'', ''invalid model'']"

definition is_account_level_failure :: "string \<Rightarrow> bool" where
  "is_account_level_failure reason \<longleftrightarrow>
     reason = [] \<or> \<not> list_ex (\<lambda>mk. contains mk (lower (summarize_freeze_reason (PStr reason)))) NON_ACCOUNT_MARKERS"

definition on_stats :: "(failure_window \<Rightarrow> failure_window) \<Rightarrow> nat \<Rightarrow> router \<Rightarrow> router" where
  "on_stats f x R = R\<lparr>ro_accounts := (ro_accounts R)(x := (ro_accounts R x)\<lparr>ac_stats := f (ac_stats (ro_accounts R x))\<rparr>)\<rparr>"

definition SHORT_WINDOW_SECONDS :: rat where "SHORT_WINDOW_SECONDS = 240"
definition SHORT_WINDOW_MAX_SAMPLES :: nat where "SHORT_WINDOW_MAX_SAMPLES = 10"

definition last_n :: "nat \<Rightarrow> 'a list \<Rightarrow> 'a list" where
  \<comment> \<open>\<open>xs[-n:]\<close>\<close>
  "last_n n xs = drop (length xs - n) xs"

definition short_term_samples :: "time \<Rightarrow> router \<Rightarrow> string \<Rightarrow> outcome list" where
  "short_term_samples now R key =
     filter (\<lambda>r. now - oc_at r < SHORT_WINDOW_SECONDS) (case map_of (ro_outcomes R) key of Some rs \<Rightarrow> rs | None \<Rightarrow> [])"

definition record_short_term_outcome :: "time \<Rightarrow> string \<Rightarrow> string \<Rightarrow> bool \<Rightarrow> int \<Rightarrow> router \<Rightarrow> router" where
  "record_short_term_outcome now provider user success duration_ms R =
     (if provider = [] \<or> user = [] then R
      else (let key = route_key provider user;
                rs = short_term_samples now R key @ [\<lparr>oc_at = now, oc_success = success, oc_duration = duration_ms\<rparr>]
            in R\<lparr>ro_outcomes := dset (ro_outcomes R) key (last_n SHORT_WINDOW_MAX_SAMPLES rs)\<rparr>))"

definition record_session_success :: "time \<Rightarrow> string option \<Rightarrow> string \<Rightarrow> string \<Rightarrow> router \<Rightarrow> router" where
  "record_session_success now session provider user R =
     (let R1 = R\<lparr>ro_failures := None\<rparr>
      in case opt_str session of None \<Rightarrow> R1
         | Some s \<Rightarrow> R1\<lparr>ro_session_affinity := dset (ro_session_affinity R1) s (route_key provider user, now)\<rparr>)"

definition record_upstream_model_affinity :: "time \<Rightarrow> string option \<Rightarrow> string \<Rightarrow> string \<Rightarrow> router \<Rightarrow> router" where
  "record_upstream_model_affinity now upstream provider user R = (case opt_str upstream of None \<Rightarrow> R
     | Some u \<Rightarrow> R\<lparr>ro_affinity := dset (ro_affinity R) u (route_key provider user, now)\<rparr>)"

definition RELIABILITY_QUEUE_MAX :: nat where "RELIABILITY_QUEUE_MAX = 4096"

definition daily_key :: "string \<Rightarrow> string \<Rightarrow> bool \<Rightarrow> string" where
  "daily_key provider user success = ''routing:daily:'' @ provider @ '':'' @ user @ '':'' @ (if success then ''success'' else ''failure'')"

definition incr_daily_outcome :: "string \<Rightarrow> string \<Rightarrow> bool \<Rightarrow> router \<Rightarrow> router" where
  \<comment> \<open>the bounded buffer of daily counters; a new key is dropped when it is full\<close>
  "incr_daily_outcome provider user success R =
     (if provider = [] \<or> user = [] then R
      else (let key = daily_key provider user success
            in if map_of (ro_pending R) key = None \<and> RELIABILITY_QUEUE_MAX \<le> length (ro_pending R)
               then R\<lparr>ro_dropped := ro_dropped R + 1\<rparr>
               else R\<lparr>ro_pending := dset (ro_pending R) key ((case map_of (ro_pending R) key of Some n \<Rightarrow> n | None \<Rightarrow> 0) + 1)\<rparr>))"

definition flush_reliability_counts :: "router \<Rightarrow> router \<times> (string \<times> int) list" where
  \<comment> \<open>the batch is handed to one Redis pipeline; if that fails it is lost\<close>
  "flush_reliability_counts R = (if ro_pending R = [] then (R, []) else (R\<lparr>ro_pending := [], ro_dropped := 0\<rparr>, ro_pending R))"

definition record_account_failure :: "time \<Rightarrow> string \<Rightarrow> string \<Rightarrow> string \<Rightarrow> router \<Rightarrow> router" where
  "record_account_failure now provider user reason R =
     record_short_term_outcome now provider user False 0
       (incr_daily_outcome provider user False
         (if score_enabled R provider
          then (case find_account_client R provider user of
                  Some x \<Rightarrow> on_stats (record_failure now (is_account_level_failure reason)) x R | None \<Rightarrow> R)
          else R))"

definition SESSION_AFFINITY_TTL :: rat where "SESSION_AFFINITY_TTL = 600"
definition UPSTREAM_MODEL_AFFINITY_TTL :: rat where "UPSTREAM_MODEL_AFFINITY_TTL = 600"

definition cleanup_session_state :: "time \<Rightarrow> router \<Rightarrow> router" where
  "cleanup_session_state now R =
     R\<lparr>ro_session_affinity := filter (\<lambda>(s, k, ts). now - ts \<le> SESSION_AFFINITY_TTL) (ro_session_affinity R),
       ro_failures := (case ro_failures R of Some (n, t) \<Rightarrow> if SESSION_FAILURE_TTL < now - t then None else Some (n, t) | None \<Rightarrow> None),
       ro_affinity := filter (\<lambda>(u, k, ts). now - ts \<le> UPSTREAM_MODEL_AFFINITY_TTL) (ro_affinity R),
       ro_outcomes := filter (\<lambda>(k, rs). rs \<noteq> []) (map (\<lambda>(k, rs). (k, filter (\<lambda>r. now - oc_at r < SHORT_WINDOW_SECONDS) rs)) (ro_outcomes R))\<rparr>"

section \<open>Factors\<close>

definition channel_error_rate :: "router \<Rightarrow> string \<Rightarrow> rat" where
  "channel_error_rate R provider = (if provider = [] then 0 else cs_error_rate (stats_of R provider))"

definition GLOBAL_FAILURE_TRIGGER :: int where "GLOBAL_FAILURE_TRIGGER = 2"

definition session_anti_affinity_factor :: "time \<Rightarrow> router \<Rightarrow> string \<Rightarrow> rat" where
  "session_anti_affinity_factor now R provider = (case ro_failures R of
      None \<Rightarrow> 1
    | Some (n, t) \<Rightarrow>
        if SESSION_FAILURE_TTL \<le> now - t then 1
        else if n < GLOBAL_FAILURE_TRIGGER then 1
        else (let ok = (if cs_requests (stats_of R provider) = 0 then 7/10 else max 0 (1 - channel_error_rate R provider))
              in max (5/100) (ok ^ nat (1 + (n - GLOBAL_FAILURE_TRIGGER + 1)))))"

definition affinity_factor :: "time \<Rightarrow> rat \<Rightarrow> (string \<times> string \<times> time) list \<Rightarrow> string option \<Rightarrow> string \<Rightarrow> rat" where
  "affinity_factor now ttl m k key = (case opt_str k of
      None \<Rightarrow> 1
    | Some s \<Rightarrow> (case map_of m s of None \<Rightarrow> 1 | Some (owner, ts) \<Rightarrow> if now - ts < ttl \<and> owner = key then 13/10 else 1))"

definition reuse_affinity_factor :: "time \<Rightarrow> router \<Rightarrow> string option \<Rightarrow> string \<Rightarrow> string option \<Rightarrow> rat" where
  "reuse_affinity_factor now R session key upstream =
     max (affinity_factor now SESSION_AFFINITY_TTL (ro_session_affinity R) session key)
         (affinity_factor now UPSTREAM_MODEL_AFFINITY_TTL (ro_affinity R) upstream key)"

definition success_rotation_factor :: "account_client \<Rightarrow> rat" where
  "success_rotation_factor a = (let n = fw_consecutive_successes (ac_stats a)
     in if n \<le> 3 then 1 else max (3/10) ((8/10) ^ nat (n - 3)))"

definition short_term_success_factor :: "time \<Rightarrow> router \<Rightarrow> string \<Rightarrow> rat" where
  "short_term_success_factor now R key =
     (let recent = last_n SHORT_WINDOW_MAX_SAMPLES (short_term_samples now R key);
          failures = length (filter (\<lambda>r. \<not> oc_success r) recent)
      in if recent = [] \<or> failures = 0 then 1
         else 6/10 + (12/10 - 6/10) * (of_nat (length recent - failures) / of_nat (length recent)))"

definition ABSOLUTE_SLOW_THRESHOLD_MS :: int where "ABSOLUTE_SLOW_THRESHOLD_MS = 30000"

definition success_durations :: "outcome list \<Rightarrow> int list" where
  "success_durations rs = map oc_duration (filter (\<lambda>r. oc_success r \<and> oc_duration r \<noteq> 0) rs)"

definition short_term_latency_factor :: "time \<Rightarrow> router \<Rightarrow> string \<Rightarrow> rat" where
  "short_term_latency_factor now R key =
     (let ds = success_durations (last_n SHORT_WINDOW_MAX_SAMPLES (short_term_samples now R key))
      in if length ds < 2 then 1
         else (let before = sort (butlast ds); median = before ! (length before div 2)
               in if median \<le> 0 then 1
                  else if ABSOLUTE_SLOW_THRESHOLD_MS < last ds then 6/10
                  else if of_int median * (18/10) < (of_int (last ds) :: rat) then 6/10 else 1))"

definition absolute_slow_factor :: "time \<Rightarrow> router \<Rightarrow> string \<Rightarrow> string \<Rightarrow> rat" where
  "absolute_slow_factor now R provider key =
     (if (case cs_ttft (stats_of R provider) of Some t \<Rightarrow> of_int ABSOLUTE_SLOW_THRESHOLD_MS < t | None \<Rightarrow> False) then 1/2
      else (let ds = sort (success_durations (short_term_samples now R key))
            in if 2 \<le> length ds \<and> ABSOLUTE_SLOW_THRESHOLD_MS < ds ! (length ds div 2) then 1/2 else 1))"

definition mean :: "rat list \<Rightarrow> rat" where
  \<comment> \<open>\<open>sum(factors) / len(factors) if factors else 1.0\<close>\<close>
  "mean fs = (if fs = [] then 1 else sum_list fs / of_nat (length fs))"

definition daily_quota_factor :: "int option \<Rightarrow> int option \<Rightarrow> rat list" where
  "daily_quota_factor remaining cap = (case remaining of
      None \<Rightarrow> []
    | Some r \<Rightarrow> (case cap of
          Some n \<Rightarrow> if 0 < n then [1/2 + min 1 (of_int r / of_int n)] else [1 + min 1 (of_int r / 1000)]
        | None \<Rightarrow> [1 + min 1 (of_int r / 1000)]))"

definition quota_factor :: "router \<Rightarrow> string \<Rightarrow> string \<Rightarrow> account_client \<Rightarrow> rat" where
  "quota_factor R provider model a =
     (let remaining = daily_requests_remaining a; cap = daily_requests_limit a;
          of_model = map_of (model_daily_remaining a) model
      in if (case remaining of Some r \<Rightarrow> r \<le> 0 | None \<Rightarrow> False) \<or> (case of_model of Some r \<Rightarrow> r \<le> 0 | None \<Rightarrow> False) then 0
         else (let result = mean (daily_quota_factor remaining cap @ (case of_model of Some r \<Rightarrow> [1 + min 1 (of_int r / 1000)] | None \<Rightarrow> []))
               in case (remaining, cap) of
                    (Some r, Some n) \<Rightarrow> if provider \<noteq> [] \<and> 0 < n \<and> ro_billing R provider = ''request'' \<and> (of_int r :: rat) / of_int n < 2/10
                                        then result * (3/10) else result
                  | _ \<Rightarrow> result))"

definition headroom_entry :: "int \<Rightarrow> int \<Rightarrow> rat list" where
  "headroom_entry cap used = (if 0 < cap then [1/2 + min 1 (of_int (cap - used) / of_int cap)] else [])"

definition headroom_factor :: "time \<Rightarrow> account_client \<Rightarrow> rat" where
  "headroom_factor now a =
     (let requests = int (length (filter (\<lambda>t. now - t < 60) (ac_requests a)));
          tokens = sum_list (map snd (filter (\<lambda>(t, n). now - t < 60) (ac_token_usages a)))
      in if (0 < ac_rpm_limit a \<and> ac_rpm_limit a \<le> requests) \<or> (0 < ac_tpm_limit a \<and> ac_tpm_limit a \<le> tokens)
            \<or> (0 < ac_concurrent_limit a \<and> ac_concurrent_limit a \<le> ac_in_flight a) then 0
         else mean (headroom_entry (ac_rpm_limit a) requests @ headroom_entry (ac_tpm_limit a) tokens
                    @ headroom_entry (ac_concurrent_limit a) (ac_in_flight a)))"

definition PICK_WINDOW_SECONDS :: rat where "PICK_WINDOW_SECONDS = 180"
definition PICK_SOFT_CAP :: int where "PICK_SOFT_CAP = 5"

definition provider_pick_window_factor :: "time \<Rightarrow> time list \<Rightarrow> rat" where
  "provider_pick_window_factor now picks =
     (let n = length (filter (\<lambda>t. now - PICK_WINDOW_SECONDS < t \<and> t \<le> now) picks)
      in if n < 5 then 1 else max (1/10) ((55/100) ^ (n - 5 + 1)))"

definition frequency_factor :: "time \<Rightarrow> router \<Rightarrow> string \<Rightarrow> account_client \<Rightarrow> rat" where
  "frequency_factor now R provider a =
     (let own = snd (pick_factor now PICK_SOFT_CAP PICK_WINDOW_SECONDS (ac_stats a))
      in if provider = [] then own
         else min own (provider_pick_window_factor now (case map_of (ro_recent_picks R) provider of Some ts \<Rightarrow> ts | None \<Rightarrow> [])))"

definition global_recent_failure_count :: "router \<Rightarrow> int" where
  "global_recent_failure_count R = sum_list (map (\<lambda>(p, s). cs_failures s) (ro_channel_stats R))"

definition effective_error_window :: "router \<Rightarrow> rat" where
  "effective_error_window R = (let n = global_recent_failure_count R
     in if 240 \<le> n then 15 else if 120 \<le> n then 25 else if 60 \<le> n then 40 else 60)"

definition account_error_rate :: "time \<Rightarrow> router \<Rightarrow> account_client \<Rightarrow> rat" where
  "account_error_rate now R a = snd (error_rate now (effective_error_window R) (ac_stats a))"

definition volume_factor_of_rpm :: "int \<Rightarrow> rat" where
  \<comment> \<open>\<open>_api_key_volume_factor\<close>: the tiers, then the cap past the last of them\<close>
  "volume_factor_of_rpm rpm = (if 300 < rpm then 8/10 else if 300 \<le> rpm then 6/10 else if 120 \<le> rpm then 3/10 else 0)"

definition volume_error_factor :: "rat \<Rightarrow> rat \<Rightarrow> rat \<Rightarrow> rat" where
  "volume_error_factor volume account_err channel_err =
     (if volume \<le> 0 \<or> max account_err channel_err \<le> 0 then 1
      else max (2/10) (1 - volume * max account_err channel_err))"

definition speed_score :: "router \<Rightarrow> string \<Rightarrow> rat option \<Rightarrow> rat" where
  "speed_score R provider ttft_min = (case cs_ttft (stats_of R provider) of
      None \<Rightarrow> 7/10
    | Some t \<Rightarrow> if t \<le> 0 then 7/10
        else (case ttft_min of
                Some b \<Rightarrow> if 0 < b then min 1 (max (1/10) (b / t)) else min 1 (max 0 (1000 / t / 10))
              | None \<Rightarrow> min 1 (max 0 (1000 / t / 10))))"

definition candidate_ttft_min :: "router \<Rightarrow> route_candidate list \<Rightarrow> rat option" where
  "candidate_ttft_min R cs =
     (let ts = List.map_filter (\<lambda>c. case cs_ttft (stats_of R (rc_provider c)) of Some t \<Rightarrow> if 0 < t then Some t else None | None \<Rightarrow> None) cs
      in if ts = [] then None else Some (Min (set ts)))"

definition reliability_of_counts :: "int \<Rightarrow> int \<Rightarrow> rat" where
  "reliability_of_counts succ fail = (if succ + fail < 5 then 1 else max (2/10) (min 1 (of_int succ / of_int (succ + fail))))"

definition candidate_reliability :: "(string \<times> int) list option \<Rightarrow> router \<Rightarrow> route_candidate \<Rightarrow> rat" where
  \<comment> \<open>\<open>counts\<close>: the answer of the Redis pipeline, \<open>None\<close> when it is degraded\<close>
  "candidate_reliability counts R c = (case counts of
      None \<Rightarrow> 1
    | Some m \<Rightarrow> if m = [] then 1
        else (let n = (\<lambda>ok. case map_of m (daily_key (rc_provider c) (user_of R (rc_account c)) ok) of Some k \<Rightarrow> k | None \<Rightarrow> 0)
              in reliability_of_counts (n True) (n False)))"

section \<open>Scores\<close>

record score_in =
  si_session :: "string option"
  si_volume :: rat
  si_counts :: "(string \<times> int) list option"
  si_messages :: bool
  si_tokens :: int

definition blocked_by_balance :: "rat option \<times> rat \<Rightarrow> bool" where
  "blocked_by_balance b = (case fst b of Some x \<Rightarrow> 0 < snd b \<and> x < snd b | None \<Rightarrow> False)"

definition balance_score :: "rat option \<times> rat \<Rightarrow> rat" where
  "balance_score b = (case fst b of Some x \<Rightarrow> if 0 < snd b then min 1 (max 0 (x / max (snd b) 1)) else 1 | None \<Rightarrow> 1)"

definition error_score :: "rat \<Rightarrow> time \<Rightarrow> router \<Rightarrow> account_client \<Rightarrow> rat" where
  "error_score decay now R a = max 0 (1 - account_error_rate now R a) * decay ^ nat (fw_consecutive_failures (ac_stats a))"

definition priority_score :: "account_client \<Rightarrow> rat" where
  "priority_score a = 1 / (1 + of_int (max 0 (priority a)))"

definition weight_score :: "account_client \<Rightarrow> rat" where
  "weight_score a = min 1 (of_int (weight a) / 100)"

definition penalties :: "rat \<Rightarrow> score_in \<Rightarrow> rat \<Rightarrow> time \<Rightarrow> router \<Rightarrow> route_candidate \<Rightarrow> rat" where
  \<comment> \<open>the factors both scores multiply; \<open>cap\<close> bounds the reward for reuse\<close>
  "penalties cap i reliability now R c =
     (let a = account_of R (rc_account c); p = rc_provider c; key = route_key p (user_of R (rc_account c))
      in quota_factor R p (rc_model c) a * headroom_factor now a * frequency_factor now R p a * session_anti_affinity_factor now R p
         * min (reuse_affinity_factor now R (si_session i) key (Some (rc_upstream c))) cap * reliability
         * short_term_success_factor now R key * short_term_latency_factor now R key * success_rotation_factor a
         * volume_error_factor (si_volume i) (account_error_rate now R a) (channel_error_rate R p) * absolute_slow_factor now R p key)"

definition intelligent_score :: "score_in \<Rightarrow> rat \<Rightarrow> rat option \<Rightarrow> time \<Rightarrow> router \<Rightarrow> route_candidate \<Rightarrow> rat" where
  "intelligent_score i reliability ttft_min now R c =
     (let a = account_of R (rc_account c); b = ro_balance R (rc_account c)
      in if is_frozen now a \<or> blocked_by_balance b then 0
         else (speed_score R (rc_provider c) ttft_min * (20/100) + error_score (8/10) now R a * (25/100) + balance_score b * (15/100)
               + priority_score a * (25/100) + weight_score a * (15/100)) * penalties (12/10) i reliability now R c)"

definition fast_intelligent_score :: "score_in \<Rightarrow> rat \<Rightarrow> rat option \<Rightarrow> time \<Rightarrow> router \<Rightarrow> route_candidate \<Rightarrow> rat" where
  "fast_intelligent_score i reliability ttft_min now R c =
     (let a = account_of R (rc_account c); b = ro_balance R (rc_account c)
      in if is_frozen now a \<or> blocked_by_balance b then 0
         else (speed_score R (rc_provider c) ttft_min * (67/100) + (error_score (7/10) now R a * (10/100) + balance_score b * (10/100)
               + priority_score a * (8/100) + weight_score a * (5/100))) * penalties (11/10) i reliability now R c)"

definition billing_preference :: "score_in \<Rightarrow> router \<Rightarrow> string \<Rightarrow> rat" where
  "billing_preference i R provider =
     (if ro_billing R provider = ''token'' \<or> \<not> si_messages i then 1
      else 8/10 + 4/10 * max 0 (min 3 (of_int (si_tokens i) / 2000)))"

end
