(* ===== verification/Lub_Select.thy ===== *)
theory Lub_Select
  imports Lub_Scoring Lub_ManagerProps "HOL-Library.Multiset"
begin

text \<open>
  \<open>ModelClientPool\<close>, from candidates to a reservation: preferences, the selection strategies, and the loop
  that selects and reserves until a candidate is admitted.

  The record \<open>dice\<close> is Python's \<open>random\<close>; \<open>dice_ok\<close> is what its documentation promises. A strategy gets the
  remaining candidates and gives them back (the two intelligent ones write scores into them) with its choice.
  The record \<open>select_round\<close> holds what one round meets from outside: clocks, dice, the scores of candidates
  that have none, and the inputs of the reservation. Floats are rationals.
\<close>

section \<open>Random numbers\<close>

record dice =
  di_shuffle :: "string list \<Rightarrow> string list"
  di_choice :: "nat \<Rightarrow> nat"
  di_uniform :: "rat \<Rightarrow> rat"
  di_random :: rat

definition dice_ok :: "dice \<Rightarrow> bool" where
  "dice_ok d \<longleftrightarrow> (\<forall>xs. mset (di_shuffle d xs) = mset xs) \<and> (\<forall>n. 0 < n \<longrightarrow> di_choice d n < n)
     \<and> (\<forall>t. 0 \<le> t \<longrightarrow> 0 \<le> di_uniform d t \<and> di_uniform d t \<le> t)"

section \<open>Preferences\<close>

definition protocol_rank :: "route_candidate \<Rightarrow> nat" where
  "protocol_rank c = (if rc_bound c then (if rc_same_protocol c then 0 else 1) else if rc_same_protocol c then 2 else 3)"

definition prefer_same_protocol :: "string option \<Rightarrow> route_candidate list \<Rightarrow> route_candidate list" where
  "prefer_same_protocol request_protocol cs =
     (if opt_str request_protocol = None \<and> \<not> (\<exists>c \<in> set cs. rc_bound c) then cs
      else (let best = (if cs = [] then 3 else Min (set (map protocol_rank cs)));
                preferred = filter (\<lambda>c. protocol_rank c = best) cs
            in if preferred = [] then cs else preferred))"

definition affine_since :: "time \<Rightarrow> router \<Rightarrow> route_candidate \<Rightarrow> time option" where
  \<comment> \<open>when the candidate's upstream model last succeeded on the candidate's account, if recently\<close>
  "affine_since now R c = (case map_of (ro_affinity R) (rc_upstream c) of
      None \<Rightarrow> None
    | Some (key, ts) \<Rightarrow> if UPSTREAM_MODEL_AFFINITY_TTL \<le> now - ts then None
        else if key = route_key (rc_provider c) (user_of R (rc_account c)) then Some ts else None)"

definition affinity_step :: "time \<Rightarrow> router \<Rightarrow> route_candidate \<Rightarrow> time \<times> route_candidate list \<Rightarrow> time \<times> route_candidate list" where
  "affinity_step now R c acc = (case affine_since now R c of
      None \<Rightarrow> acc
    | Some ts \<Rightarrow> if fst acc < ts then (ts, [c]) else if ts = fst acc then (fst acc, snd acc @ [c]) else acc)"

definition prefer_same_upstream_model :: "time \<Rightarrow> router \<Rightarrow> string \<Rightarrow> route_candidate list \<Rightarrow> route_candidate list" where
  "prefer_same_upstream_model now R strategy cs =
     (if strategy = ''intelligent'' \<or> strategy = ''fast_intelligent'' then cs
      else (let preferred = snd (fold (affinity_step now R) cs (0, [])) in if preferred = [] then cs else preferred))"

section \<open>Recent picks\<close>

definition PROVIDER_USAGE_HISTORY_WINDOW_SECONDS :: rat where "PROVIDER_USAGE_HISTORY_WINDOW_SECONDS = 600"
definition PROVIDER_USAGE_HISTORY_MAX_ROUNDS :: nat where "PROVIDER_USAGE_HISTORY_MAX_ROUNDS = 20"

definition clean_provider_pick_history :: "time \<Rightarrow> (time \<times> string) list \<Rightarrow> (time \<times> string) list" where
  "clean_provider_pick_history now h =
     last_n PROVIDER_USAGE_HISTORY_MAX_ROUNDS (filter (\<lambda>(t, p). now - PROVIDER_USAGE_HISTORY_WINDOW_SECONDS \<le> t) h)"

definition last_used_provider :: "time \<Rightarrow> router \<Rightarrow> string option" where
  "last_used_provider now R = (case clean_provider_pick_history now (ro_pick_history R) of [] \<Rightarrow> None | h \<Rightarrow> Some (snd (last h)))"

definition avoid_last_provider :: "time \<Rightarrow> router \<Rightarrow> route_candidate list \<Rightarrow> route_candidate list" where
  "avoid_last_provider now R cs = (case opt_str (last_used_provider now R) of
      None \<Rightarrow> cs
    | Some p \<Rightarrow> (let others = filter (\<lambda>c. rc_provider c \<noteq> p) cs in if others = [] then cs else others))"

definition usage_count :: "nat \<Rightarrow> string \<Rightarrow> (time \<times> string) list \<Rightarrow> nat" where
  "usage_count n provider h = length (filter (\<lambda>(t, p). p = provider) (last_n n h))"

definition provider_recent_usage_score :: "time \<Rightarrow> router \<Rightarrow> string \<Rightarrow> rat \<Rightarrow> rat \<Rightarrow> rat" where
  "provider_recent_usage_score now R provider base median =
     (if base \<le> 0 \<or> provider = [] then max 0 base
      else (let h = clean_provider_pick_history now (ro_pick_history R); cap = (if 0 < median then median else base)
            in if 8 \<le> usage_count 20 provider h then min (base * (1/4)) (cap * (12/100))
               else if 5 \<le> usage_count 10 provider h then min (base * (45/100)) (cap * (35/100))
               else if 3 \<le> usage_count 5 provider h then base * (65/100) else base))"

section \<open>Weighted picks\<close>

fun pick_cursor :: "('a \<Rightarrow> rat) \<Rightarrow> rat \<Rightarrow> rat \<Rightarrow> 'a list \<Rightarrow> 'a option" where
  \<comment> \<open>the first whose cumulative weight reaches the target\<close>
  "pick_cursor w target cursor [] = None"
| "pick_cursor w target cursor (x # xs) = (if target \<le> cursor + w x then Some x else pick_cursor w target (cursor + w x) xs)"

definition draw :: "dice \<Rightarrow> ('a \<Rightarrow> rat) \<Rightarrow> 'a list \<Rightarrow> 'a" where
  "draw d w xs =
     (let total = sum_list (map w xs)
      in if total \<le> 0 then xs ! di_choice d (length xs)
         else (case pick_cursor w (di_uniform d total) 0 xs of Some x \<Rightarrow> x | None \<Rightarrow> last xs))"

definition weighted_pick :: "dice \<Rightarrow> route_candidate list \<Rightarrow> route_candidate" where
  "weighted_pick d cs = draw d (\<lambda>c. max 0 (rc_score c)) cs"

definition group_by :: "(route_candidate \<Rightarrow> string) \<Rightarrow> route_candidate list \<Rightarrow> (string \<times> route_candidate list) list" where
  \<comment> \<open>\<open>groups.setdefault(f(c), []).append(c)\<close> for each, a dict in insertion order\<close>
  "group_by f cs = map (\<lambda>k. (k, filter (\<lambda>c. f c = k) cs)) (rev (remdups (rev (map f cs))))"

definition median_of :: "rat list \<Rightarrow> rat" where
  "median_of xs = (let ys = sort xs; mid = length ys div 2
     in if odd (length ys) then ys ! mid else (ys ! (mid - 1) + ys ! mid) / 2)"

definition top_score :: "route_candidate list \<Rightarrow> rat" where
  "top_score cs = Max (set (map (\<lambda>c. max 0 (rc_score c)) cs))"

definition EXPLORE_EPSILON :: rat where "EXPLORE_EPSILON = 5/100"

definition provider_weights :: "time \<Rightarrow> router \<Rightarrow> (string \<times> route_candidate list) list \<Rightarrow> (rat \<times> route_candidate list) list" where
  "provider_weights now R groups =
     (let median = median_of (map (\<lambda>(p, ms). top_score ms) groups);
          summaries = map (\<lambda>(p, ms). (provider_recent_usage_score now R p (top_score ms) median, ms)) groups;
          top = Max (set (map fst summaries))
      in if 0 < top then map (\<lambda>(w, ms). (max w (top * EXPLORE_EPSILON), ms)) summaries else summaries)"

definition provider_first_weighted_pick :: "dice \<Rightarrow> time \<Rightarrow> router \<Rightarrow> bool \<Rightarrow> route_candidate list \<Rightarrow> route_candidate option" where
  "provider_first_weighted_pick d now R explore cs =
     (case cs of
        [] \<Rightarrow> None
      | [c] \<Rightarrow> Some c
      | _ \<Rightarrow> (let groups = group_by rc_provider cs
             in Some (weighted_pick d (if explore then snd (groups ! di_choice d (length groups))
                                       else snd (draw d fst (provider_weights now R groups))))))"

section \<open>Strategies\<close>

definition pick_order :: "router \<Rightarrow> route_candidate \<Rightarrow> int \<times> int" where
  "pick_order R c = (priority (account_of R (rc_account c)), - weight (account_of R (rc_account c)))"

definition lex_le :: "int \<times> int \<Rightarrow> int \<times> int \<Rightarrow> bool" where
  "lex_le x y \<longleftrightarrow> fst x < fst y \<or> (fst x = fst y \<and> snd x \<le> snd y)"

fun first_least :: "('a \<Rightarrow> 'a \<Rightarrow> bool) \<Rightarrow> 'a list \<Rightarrow> 'a option" where
  \<comment> \<open>\<open>sorted(xs, key=k)[0]\<close>: the sort is stable, so the first of the least ones\<close>
  "first_least le [] = None"
| "first_least le (x # xs) = (case first_least le xs of None \<Rightarrow> Some x | Some y \<Rightarrow> Some (if le x y then x else y))"

definition order_le :: "router \<Rightarrow> route_candidate \<Rightarrow> route_candidate \<Rightarrow> bool" where
  "order_le R c e = lex_le (pick_order R c) (pick_order R e)"

definition select_sequential :: "dice \<Rightarrow> time \<Rightarrow> router \<Rightarrow> route_candidate list \<Rightarrow> route_candidate option" where
  "select_sequential d now R cs = first_least (order_le R) (avoid_last_provider now R cs)"

definition select_channel_random :: "dice \<Rightarrow> time \<Rightarrow> router \<Rightarrow> route_candidate list \<Rightarrow> route_candidate option" where
  "select_channel_random d now R cs =
     (let by_provider = group_by rc_provider (avoid_last_provider now R cs)
      in case di_shuffle d (map fst by_provider) of
           [] \<Rightarrow> None
         | p # _ \<Rightarrow> first_least (order_le R) (case map_of by_provider p of Some g \<Rightarrow> g | None \<Rightarrow> []))"

definition select_model_random :: "dice \<Rightarrow> time \<Rightarrow> router \<Rightarrow> route_candidate list \<Rightarrow> route_candidate option" where
  "select_model_random d now R cs =
     (let by_model = group_by rc_model cs
      in first_some (map (\<lambda>m. select_channel_random d now R (case map_of by_model m of Some g \<Rightarrow> g | None \<Rightarrow> [])) (di_shuffle d (map fst by_model))))"

definition select_all_random :: "dice \<Rightarrow> time \<Rightarrow> router \<Rightarrow> route_candidate list \<Rightarrow> route_candidate option" where
  "select_all_random d now R cs =
     (if cs = [] then None else (let xs = avoid_last_provider now R cs in Some (xs ! di_choice d (length xs))))"

definition window_of :: "router \<Rightarrow> route_candidate \<Rightarrow> int" where
  "window_of R c = (let own = window_of_row (dget (dict_of (dget (rc_row c) ''extra_config'')) ''max_context_tokens'')
     in if 0 < own then own else window_of_row (dget (fst (ro_metadata R (rc_model c))) ''max_context_tokens''))"

definition context_le :: "router \<Rightarrow> route_candidate \<Rightarrow> route_candidate \<Rightarrow> bool" where
  "context_le R c e \<longleftrightarrow> window_of R e < window_of R c \<or> (window_of R c = window_of R e \<and> order_le R c e)"

definition select_largest_context :: "dice \<Rightarrow> time \<Rightarrow> router \<Rightarrow> route_candidate list \<Rightarrow> route_candidate option" where
  "select_largest_context d now R cs = first_least (context_le R) cs"

end
