(* ===== verification/Lub_Acquire.thy ===== *)
theory Lub_Acquire
  imports Lub_Select Lub_RetryLoop
begin

text \<open>
  \<open>ModelClientPool._get_available_client_with_provider\<close>: candidates are collected, narrowed by the
  preferences, chosen by a strategy and reserved on the account, for a dedicated route, a model group or a
  plain model; what is raised when no account is left.

  The state \<open>routing\<close> is the router, the limit manager, the lease stack of the request's task and the pauses
  it made. Parameters: what the configuration and the catalogue answer (the record \<open>acquire_request\<close>), and per
  phase and round the clocks, dice and reservation inputs (the records \<open>select_round\<close> and \<open>acquire_env\<close>).
  \<open>_try_reserve\<close> has a branch for account objects without \<open>reserve_with_decision\<close>, which are test doubles, and
  passes on no token estimate: its parameter of that name is never read.
\<close>

section \<open>Rounds of a selection\<close>

record select_round =
  sr_clock :: time
  sr_now :: time
  sr_dice :: dice
  sr_score :: score_in
  sr_in :: acquire_in
  sr_record_ok :: bool
  sr_deadline :: "int option"

type_synonym strategy = "select_round \<Rightarrow> router \<Rightarrow> route_candidate list \<Rightarrow> route_candidate list \<times> route_candidate option"

definition unscored :: "(dice \<Rightarrow> time \<Rightarrow> router \<Rightarrow> route_candidate list \<Rightarrow> route_candidate option) \<Rightarrow> strategy" where
  "unscored f rd R cs = (cs, f (sr_dice rd) (sr_now rd) R cs)"

definition score_candidates ::
  "(score_in \<Rightarrow> rat \<Rightarrow> rat option \<Rightarrow> time \<Rightarrow> router \<Rightarrow> route_candidate \<Rightarrow> rat) \<Rightarrow> select_round \<Rightarrow> router \<Rightarrow> route_candidate list \<Rightarrow> route_candidate list" where
  \<comment> \<open>a score is computed once and stays with the candidate\<close>
  "score_candidates score rd R cs =
     (let best = candidate_ttft_min R cs; i = sr_score rd
      in map (\<lambda>c. if rc_scored c then c
              else c\<lparr>rc_score := score i (candidate_reliability (si_counts i) R c) best (sr_now rd) R c * billing_preference i R (rc_provider c),
                     rc_scored := True\<rparr>) cs)"

definition select_intelligent :: strategy where
  "select_intelligent rd R cs =
     (let cs1 = score_candidates intelligent_score rd R cs; valid = filter (\<lambda>c. 0 < rc_score c) cs1
      in (cs1, provider_first_weighted_pick (sr_dice rd) (sr_now rd) R False valid))"

definition select_fast_intelligent :: strategy where
  "select_fast_intelligent rd R cs =
     (let cs1 = score_candidates fast_intelligent_score rd R cs; valid = filter (\<lambda>c. 0 < rc_score c) cs1; d = sr_dice rd
      in (cs1, if di_random d < 20/100 then provider_first_weighted_pick d (sr_now rd) R True valid
               else provider_first_weighted_pick d (sr_now rd) R False (avoid_last_provider (sr_now rd) R valid)))"

definition strategy_method :: "string \<Rightarrow> strategy" where
  "strategy_method name =
     (if name = ''random_member'' then unscored select_channel_random
      else if name = ''model_random'' then unscored select_model_random
      else if name = ''random_all'' then unscored select_all_random
      else if name = ''intelligent'' then select_intelligent
      else if name = ''fast_intelligent'' then select_fast_intelligent
      else unscored select_sequential)"

definition api_key_strategy :: "pydict option \<Rightarrow> string" where
  \<comment> \<open>\<open>Config.get_api_key_strategy\<close> on the row of the key\<close>
  "api_key_strategy row =
     (let raw = strip (py_str (py_or (dget (case row of Some r \<Rightarrow> r | None \<Rightarrow> []) ''selection_strategy'') (PStr ''intelligent'')))
      in if raw \<in> set [''sequential'', ''random_member'', ''model_random'', ''random_all'', ''intelligent'', ''fast_intelligent''] then raw
         else ''intelligent'')"

section \<open>Selecting and reserving\<close>

record 's routing =
  rt_router :: router
  rt_mgr :: "'s mgr"
  rt_task :: "string list"
  rt_slept :: "int list"

definition store_account :: "nat \<Rightarrow> account_client \<Rightarrow> router \<Rightarrow> router" where
  "store_account x a R = R\<lparr>ro_accounts := (ro_accounts R)(x := a)\<rparr>"

definition note_pick :: "time \<Rightarrow> route_candidate \<Rightarrow> router \<Rightarrow> router" where
  "note_pick now c R =
     (let x = rc_account c; p = rc_provider c; R1 = on_stats (record_pick now) x R
      in R1\<lparr>ro_recent_picks := dset (ro_recent_picks R) p ((case map_of (ro_recent_picks R) p of Some ts \<Rightarrow> ts | None \<Rightarrow> []) @ [now]),
            ro_pick_history := clean_provider_pick_history now (ro_pick_history R @ [(now, p)])\<rparr>)"

definition try_reserve ::
  "'s redis \<Rightarrow> calendar \<Rightarrow> bool \<Rightarrow> select_round \<Rightarrow> route_candidate \<Rightarrow> 's routing \<Rightarrow> 's routing \<times> (pyerror + limit_reservation)" where
  "try_reserve R cal probe rd c w =
     (let x = rc_account c; r = rt_router w;
          (((m, a), task), res) = account_reserve R cal ((sr_in rd)\<lparr>ai_model := rc_model c\<rparr>) (sr_record_ok rd) (sr_deadline rd)
             ((rt_mgr w, (ro_accounts r x)\<lparr>ac_is_test := probe\<rparr>), rt_task w);
          r1 = store_account x (a\<lparr>ac_is_test := False\<rparr>) r;
          r2 = (case res of
                  Inl e \<Rightarrow> r1
                | Inr v \<Rightarrow> if reservation_allowed v
                    then (let r3 = r1\<lparr>ro_last_route := AList.update x c (ro_last_route r1)\<rparr> in if probe then r3 else note_pick (sr_now rd) c r3)
                    else r1)
      in (w\<lparr>rt_router := r2, rt_mgr := m, rt_task := task\<rparr>, res))"

definition refusal_reason :: "limit_reservation \<Rightarrow> string" where
  "refusal_reason v = (if ld_reason (lres_decision v) = [] then ''reservation_denied'' else ld_reason (lres_decision v))"

definition still_open :: "router \<Rightarrow> string \<Rightarrow> route_candidate \<Rightarrow> route_candidate \<Rightarrow> bool" where
  \<comment> \<open>which candidates stay after \<open>c\<close> was refused\<close>
  "still_open R reason c e \<longleftrightarrow>
     \<not> (rc_provider e = rc_provider c \<and> user_of R (rc_account e) = user_of R (rc_account c)
        \<and> (reason = ''account_model_cooldown'' \<or> reason = ''account_model_frozen'' \<longrightarrow> rc_model e = rc_model c))"

definition selection_backoff_ms :: "nat \<Rightarrow> int" where
  "selection_backoff_ms failures = min (5 * 2 ^ failures) 50"

record 's selecting =
  sl_world :: "'s routing"
  sl_reasons :: reasons

record select_env =
  se_probe :: bool
  se_deadline :: "time option"
  se_rounds :: "nat \<Rightarrow> select_round"

primrec select_loop ::
  "'s redis \<Rightarrow> calendar \<Rightarrow> select_env \<Rightarrow> strategy \<Rightarrow> nat \<Rightarrow> nat \<Rightarrow> route_candidate list \<Rightarrow> 's selecting \<Rightarrow> 's selecting \<times> (pyerror + route_candidate option)" where
  \<comment> \<open>the first number is how many rounds are left, the second how many are done\<close>
  "select_loop R cal E sel 0 k remaining s =
     ((if remaining = [] then s else s\<lparr>sl_reasons := bump ''selection_exhausted'' (int (length remaining)) (sl_reasons s)\<rparr>), Inr None)"
| "select_loop R cal E sel (Suc n) k remaining s =
     (if remaining = [] then (s, Inr None)
      else (let rd = se_rounds E k
            in if (case se_deadline E of Some t \<Rightarrow> t \<le> sr_clock rd | None \<Rightarrow> False)
               then (s\<lparr>sl_reasons := bump ''selection_deadline'' (int (length remaining)) (sl_reasons s)\<rparr>, Inr None)
               else (case sel rd (rt_router (sl_world s)) remaining of (cs, pick) \<Rightarrow>
                 (case (if pick = None \<and> se_probe E then Some (hd cs) else pick) of
                    None \<Rightarrow> (s\<lparr>sl_reasons := bump ''selection_returned_none'' 1 (sl_reasons s)\<rparr>, Inr None)
                  | Some c \<Rightarrow> (case try_reserve R cal (se_probe E) rd c (sl_world s) of
                        (w, Inl e) \<Rightarrow> (s\<lparr>sl_world := w\<rparr>, Inl e)
                      | (w, Inr v) \<Rightarrow>
                          if reservation_allowed v then (s\<lparr>sl_world := w\<rparr>, Inr (Some c))
                          else (let why = refusal_reason v;
                                    w1 = (if se_probe E then w else w\<lparr>rt_slept := rt_slept w @ [selection_backoff_ms k]\<rparr>)
                                in select_loop R cal E sel n (Suc k) (filter (still_open (rt_router w1) why c) cs)
                                     \<lparr>sl_world = w1, sl_reasons = bump why 1 (sl_reasons s)\<rparr>))))))"

definition SELECTION_DEADLINE_MS :: rat where "SELECTION_DEADLINE_MS = 3000"

definition select_and_reserve_candidates ::
  "'s redis \<Rightarrow> calendar \<Rightarrow> bool \<Rightarrow> time \<Rightarrow> (nat \<Rightarrow> select_round) \<Rightarrow> strategy \<Rightarrow> route_candidate list \<Rightarrow> 's selecting
     \<Rightarrow> 's selecting \<times> (pyerror + route_candidate option)" where
  "select_and_reserve_candidates R cal probe start rounds sel cs s =
     select_loop R cal \<lparr>se_probe = probe, se_deadline = (if probe then None else Some (start + SELECTION_DEADLINE_MS / 1000)), se_rounds = rounds\<rparr>
       sel (length cs) 0 cs s"

section \<open>The request\<close>

record phase_env =
  ph_now :: time
  ph_start :: time
  ph_rounds :: "nat \<Rightarrow> select_round"

record 's acquire_env =
  ae_redis :: "'s redis"
  ae_calendar :: calendar
  ae_dice :: dice
  ae_phases :: "nat \<Rightarrow> phase_env"

record acquire_request =
  aq_spec :: request_spec
  aq_route :: "pydict option"
  aq_is_group :: bool
  aq_members :: "string list"
  aq_filter :: "string list \<times> string list"
  aq_row :: "pydict option"
  aq_strategy :: string
  aq_compression :: "string list"
  aq_volume :: rat

definition set_volume :: "rat \<Rightarrow> select_round \<Rightarrow> select_round" where
  "set_volume v rd = rd\<lparr>sr_score := (sr_score rd)\<lparr>si_volume := v\<rparr>\<rparr>"

definition prepare_and_reserve ::
  "'s acquire_env \<Rightarrow> phase_env \<Rightarrow> acquire_request \<Rightarrow> string \<Rightarrow> strategy \<Rightarrow> route_candidate list \<Rightarrow> 's selecting \<Rightarrow> 's selecting \<times> (pyerror + route_candidate option)" where
  "prepare_and_reserve E ph aq strategy sel cs s =
     (if cs = [] then (s, Inr None)
      else (let cs1 = prefer_same_upstream_model (ph_now ph) (rt_router (sl_world s)) strategy (prefer_same_protocol (rq_protocol (aq_spec aq)) cs);
                v = (if strategy = ''intelligent'' \<or> strategy = ''fast_intelligent'' then aq_volume aq else 0);
                q = aq_spec aq
            in select_and_reserve_candidates (ae_redis E) (ae_calendar E) (rq_is_test q \<or> rq_is_probe q) (ph_start ph) (set_volume v \<circ> ph_rounds ph) sel cs1 s))"

definition has_model_route :: "router \<Rightarrow> string \<Rightarrow> bool" where
  "has_model_route R model \<longleftrightarrow> (\<exists>(name, p) \<in> set (ro_pools R). case rp_channel p of None \<Rightarrow> False
     | Some ch \<Rightarrow> \<exists>row \<in> set (ci_models ch). dget row ''model_id'' = PStr model \<and> dget row ''enabled'' \<noteq> PBool False)"

definition candidate_models :: "router \<Rightarrow> acquire_request \<Rightarrow> string list" where
  "candidate_models R aq = (if aq_is_group aq then filter (has_model_route R) (aq_members aq) else [rq_model (aq_spec aq)])"

definition string_items :: "pyval \<Rightarrow> string list" where
  \<comment> \<open>the set of the non-empty strings of a list\<close>
  "string_items v = (case v of PList xs \<Rightarrow> List.map_filter (\<lambda>x. case x of PStr t \<Rightarrow> if t = [] then None else Some t | _ \<Rightarrow> None) xs | _ \<Rightarrow> [])"

definition scheme_filters :: "pydict \<Rightarrow> string list \<times> string list" where
  "scheme_filters s = (string_items (dget s ''provider_whitelist''), string_items (dget s ''provider_blacklist''))"

definition scheme_dicts :: "pyval list \<Rightarrow> pydict list" where
  "scheme_dicts xs = List.map_filter (\<lambda>x. case x of PDict d \<Rightarrow> Some d | _ \<Rightarrow> None) xs"

definition active_index :: "string \<Rightarrow> pydict list \<Rightarrow> nat option" where
  "active_index aid ds = (case find (\<lambda>i. entry_text (dget (ds ! i) ''id'') = aid) [0..<length ds] of
      Some i \<Rightarrow> Some i | None \<Rightarrow> if ds = [] then None else Some 0)"

definition real_model_filter_nodes :: "acquire_request \<Rightarrow> (string list \<times> string list) list option" where
  "real_model_filter_nodes aq =
     (if aq_is_group aq \<or> rq_is_test (aq_spec aq) \<or> rq_is_probe (aq_spec aq) then None
      else (case aq_row aq of
          None \<Rightarrow> None
        | Some row \<Rightarrow> if py_str (py_or (dget row ''kind'') (PStr ''custom'')) \<noteq> ''real'' then None
            else (case dget row ''schemes'' of
                PList xs \<Rightarrow> if length xs \<le> 1 then None
                  else (let ds = scheme_dicts xs
                        in case active_index (entry_text (dget row ''active_scheme'')) ds of
                             None \<Rightarrow> None
                           | Some i \<Rightarrow> (let nodes = scheme_filters (ds ! i) #
                                 map scheme_filters (filter (\<lambda>d. truthy (dget d ''is_backup'')) (take i ds @ drop (Suc i) ds))
                               in if 1 < length nodes then Some nodes else None))
              | _ \<Rightarrow> None)))"

section \<open>No account\<close>

definition quoted :: "string \<Rightarrow> string" where
  "quoted x = CHR 0x27 # x @ [CHR 0x27]"

definition SKIP_LABELS :: "(string \<times> string) list" where
  "SKIP_LABELS =
    [(''no_model_route'', utf8_text [230, 168, 161, 229, 158, 139, 230, 156, 170, 233, 133, 141, 231, 189, 174] @ '' provider_models '' @ utf8_text [232, 183, 175, 231, 148, 177]),
     (''entry_provider_missing'', utf8_text [228, 184, 147, 231, 148, 168, 231, 186, 191, 232, 183, 175] @ '' provider '' @ utf8_text [228, 184, 141, 229, 156, 168, 230, 168, 161, 229, 158, 139, 232, 183, 175, 231, 148, 177, 228, 184, 173]),
     (''model_tpm_limited'', utf8_text [230, 168, 161, 229, 158, 139, 232, 190, 190, 229, 136, 176] @ '' TPM '' @ utf8_text [233, 153, 144, 229, 136, 182]),
     (''context_window_exceeded'', utf8_text [233, 162, 132, 228, 188, 176, 232, 190, 147, 229, 133, 165, 232, 182, 133, 232, 191, 135, 230, 168, 161, 229, 158, 139, 228, 184, 138, 228, 184, 139, 230, 150, 135, 231, 170, 151, 229, 143, 163]),
     (''operation_mismatch'', ''output_modalities '' @ utf8_text [228, 184, 141, 229, 140, 185, 233, 133, 141, 229, 189, 147, 229, 137, 141, 229, 170, 146, 228, 189, 147, 230, 147, 141, 228, 189, 156]),
     (''group_provider_filtered'', utf8_text [230, 168, 161, 229, 158, 139, 231, 187, 132] @ '' provider '' @ utf8_text [231, 153, 189] @ ''/'' @ utf8_text [233, 187, 145, 229, 144, 141, 229, 141, 149, 232, 191, 135, 230, 187, 164]),
     (''api_key_provider_filtered'', ''API Key provider '' @ utf8_text [231, 153, 189] @ ''/'' @ utf8_text [233, 187, 145, 229, 144, 141, 229, 141, 149, 232, 191, 135, 230, 187, 164]),
     (''provider_quota_limited'', ''provider '' @ utf8_text [230, 168, 161, 229, 158, 139, 233, 133, 141, 233, 162, 157, 228, 184, 141, 232, 182, 179]),
     (''provider_disabled'', ''provider '' @ utf8_text [229, 183, 178, 231, 166, 129, 231, 148, 168, 239, 188, 136, 228, 187, 133, 232, 183, 179, 232, 191, 135, 229, 143, 145, 233, 128, 129, 230, 182, 136, 230, 129, 175, 239, 188, 137]),
     (''provider_method_missing'', ''provider '' @ utf8_text [230, 156, 170, 229, 174, 158, 231, 142, 176, 229, 170, 146, 228, 189, 147, 231, 148, 159, 230, 136, 144, 230, 150, 185, 230, 179, 149]),
     (''system_model_unsupported'', ''provider '' @ utf8_text [228, 184, 141, 230, 148, 175, 230, 140, 129, 232, 175, 165, 230, 168, 161, 229, 158, 139]),
     (''entry_account_missing'', utf8_text [228, 184, 147, 231, 148, 168, 231, 186, 191, 232, 183, 175, 232, 180, 166, 229, 143, 183, 228, 184, 141, 229, 140, 185, 233, 133, 141]),
     (''account_whitelist_missing'', utf8_text [232, 180, 166, 229, 143, 183, 228, 184, 141, 229, 156, 168, 231, 153, 189, 229, 144, 141, 229, 141, 149]),
     (''excluded_account'', utf8_text [232, 180, 166, 229, 143, 183, 229, 183, 178, 229, 156, 168, 233, 135, 141, 232, 175, 149, 228, 184, 173, 230, 142, 146, 233, 153, 164]),
     (''account_disabled'', utf8_text [232, 180, 166, 229, 143, 183, 229, 183, 178, 231, 166, 129, 231, 148, 168, 239, 188, 136, 228, 187, 133, 232, 183, 179, 232, 191, 135, 229, 143, 145, 233, 128, 129, 230, 182, 136, 230, 129, 175, 239, 188, 137]),
     (''account_frozen'', utf8_text [232, 180, 166, 229, 143, 183, 232, 162, 171, 230, 140, 129, 228, 185, 133, 229, 134, 187, 231, 187, 147]),
     (''account_cooldown'', utf8_text [232, 180, 166, 229, 143, 183, 229, 164, 132, 228, 186, 142, 229, 134, 183, 229, 141, 180, 230, 156, 159]),
     (''account_model_cooldown'', utf8_text [232, 180, 166, 229, 143, 183, 231, 154, 132, 229, 189, 147, 229, 137, 141, 230, 168, 161, 229, 158, 139, 229, 164, 132, 228, 186, 142, 229, 134, 183, 229, 141, 180, 230, 156, 159]),
     (''channel_disabled'', utf8_text [230, 184, 160, 233, 129, 147, 229, 183, 178, 231, 166, 129, 231, 148, 168]),
     (''provider_not_initialized'', utf8_text [232, 180, 166, 229, 143, 183, 229, 176, 154, 230, 156, 170, 229, 174, 140, 230, 136, 144, 229, 136, 157, 229, 167, 139, 229, 140, 150]),
     (''provider_quota_cooldown'', utf8_text [228, 184, 138, 230, 184, 184, 233, 133, 141, 233, 162, 157, 229, 164, 132, 228, 186, 142, 229, 134, 183, 229, 141, 180, 230, 156, 159]),
     (''provider_daily_quota_exhausted'', utf8_text [228, 184, 138, 230, 184, 184, 230, 175, 143, 230, 151, 165, 233, 133, 141, 233, 162, 157, 232, 128, 151, 229, 176, 189]),
     (''provider_quota_exhausted'', utf8_text [228, 184, 138, 230, 184, 184, 233, 133, 141, 233, 162, 157, 232, 128, 151, 229, 176, 189]),
     (''provider_message_quota_exceeded'', utf8_text [230, 182, 136, 230, 129, 175, 231, 186, 167, 228, 184, 138, 230, 184, 184, 233, 133, 141, 233, 162, 157, 228, 184, 141, 232, 182, 179]),
     (''concurrent_limit'', utf8_text [232, 180, 166, 229, 143, 183, 229, 185, 182, 229, 143, 145, 229, 183, 178, 230, 187, 161]),
     (''model_frozen'', utf8_text [230, 168, 161, 229, 158, 139, 232, 190, 190, 229, 136, 176] @ '' TPM '' @ utf8_text [229, 134, 187, 231, 187, 147]),
     (''account_model_frozen'', utf8_text [232, 180, 166, 229, 143, 183, 231, 154, 132, 229, 189, 147, 229, 137, 141, 230, 168, 161, 229, 158, 139, 232, 162, 171, 229, 134, 187, 231, 187, 147]),
     (''redis_uncertain'', ''Redis '' @ utf8_text [233, 162, 132, 229, 141, 160, 231, 187, 147, 230, 158, 156, 228, 184, 141, 231, 161, 174, 229, 174, 154]),
     (''reservation_denied'', utf8_text [232, 180, 166, 229, 143, 183, 233, 162, 132, 229, 141, 160, 229, 164, 177, 232, 180, 165]),
     (''selection_returned_none'', utf8_text [233, 128, 137, 230, 139, 169, 231, 173, 150, 231, 149, 165, 230, 156, 170, 232, 191, 148, 229, 155, 158, 229, 128, 153, 233, 128, 137]),
     (''selection_deadline'', utf8_text [233, 128, 137, 230, 139, 169, 232, 182, 133, 230, 151, 182]),
     (''selection_exhausted'', utf8_text [233, 128, 137, 230, 139, 169, 232, 128, 151, 229, 176, 189]),
     (''model_missing'', utf8_text [230, 168, 161, 229, 158, 139, 231, 188, 186, 229, 164, 177])]"

definition format_skip_reasons :: "reasons \<Rightarrow> string" where
  "format_skip_reasons rs =
     join (utf8_text [239, 188, 155]) (map (\<lambda>(k, n). (case map_of SKIP_LABELS k of Some t \<Rightarrow> t | None \<Rightarrow> k) @ '' x'' @ int_str n)
       (take 6 (sort_key (\<lambda>kn. - snd kn) (filter (\<lambda>kn. 0 < snd kn) rs))))"

definition plain_unavailable :: "string option \<Rightarrow> string \<Rightarrow> string \<Rightarrow> string" where
  "plain_unavailable lead model_text text =
     (let base = (case opt_str lead of Some p \<Rightarrow> p
        | None \<Rightarrow> model_text @ '' '' @ utf8_text [230, 137, 128, 230, 156, 137, 232, 180, 166, 229, 143, 183, 228, 184, 141, 229, 143, 175, 231, 148, 168])
      in if text = [] then base else base @ utf8_text [239, 188, 154] @ text)"

definition media_unavailable_detail :: "string \<Rightarrow> string option \<Rightarrow> reasons \<Rightarrow> string option \<Rightarrow> string" where
  "media_unavailable_detail model operation rs lead =
     (let model_text = utf8_text [230, 168, 161, 229, 158, 139] @ '' '' @ quoted model; text = format_skip_reasons rs
      in case opt_str operation of
           Some op \<Rightarrow>
             (if op = ''chat'' then plain_unavailable lead model_text text
              else (let base = (case opt_str lead of Some p \<Rightarrow> p | None \<Rightarrow> model_text @ '' '' @ utf8_text [230, 178, 161, 230, 156, 137, 229, 143, 175, 231, 148, 168, 228, 186, 142]
                                  @ '' '' @ op @ '' '' @ utf8_text [231, 154, 132, 232, 180, 166, 229, 143, 183]);
                        modality = (case operation_spec operation of Some (_, md) \<Rightarrow> md | None \<Rightarrow> op)
                    in base @ utf8_text [239, 188, 154] @ utf8_text [229, 183, 178, 230, 140, 137] @ '' output_modalities='' @ modality
                       @ '' '' @ utf8_text [231, 173, 155, 233, 128, 137] @ (if text = [] then [] else utf8_text [239, 188, 155] @ text)))
         | None \<Rightarrow> plain_unavailable lead model_text text)"

definition raise_no_available :: "request_spec \<Rightarrow> reasons \<Rightarrow> string option \<Rightarrow> string option \<Rightarrow> string option \<Rightarrow> no_account \<times> reasons" where
  "raise_no_available q rs lead code_override detail_override =
     (let (code, snapshot) = dominant_reason_code rs
      in (\<lparr>na_status = 429,
           na_detail = PStr (case detail_override of Some t \<Rightarrow> t | None \<Rightarrow> media_unavailable_detail (rq_model q) (rq_operation q) snapshot lead),
           na_code = (case opt_str code_override of Some c \<Rightarrow> c | None \<Rightarrow> code)\<rparr>, snapshot))"

section \<open>_get_available_client_with_provider\<close>

datatype acquired =
    Acquired route_candidate
  | NoneAvailable no_account reasons
  | ModelMissing
  | AcquireRaises pyerror

record 's search =
  sh_sel :: "'s selecting"
  sh_limited :: "string list"
  sh_saw :: bool

record plan =
  pl_spec :: request_spec
  pl_models :: "string list"
  pl_group :: bool
  pl_filter :: "string list \<times> string list"
  pl_nodes :: "(string list \<times> string list) list"
  pl_strategy :: string
  pl_select :: strategy

definition make_plan :: "router \<Rightarrow> acquire_request \<Rightarrow> plan" where
  \<comment> \<open>with the change for context compression: a list of models of its own, no window filter, the largest window first\<close>
  "make_plan R aq =
     (let base = \<lparr>pl_spec = aq_spec aq, pl_models = candidate_models R aq, pl_group = aq_is_group aq, pl_filter = aq_filter aq,
                  pl_nodes = (case real_model_filter_nodes aq of Some ns \<Rightarrow> ns | None \<Rightarrow> [aq_filter aq]),
                  pl_strategy = aq_strategy aq, pl_select = strategy_method (aq_strategy aq)\<rparr>
      in if aq_compression aq = [] then base
         else (let ms = filter (\<lambda>m. m \<noteq> [] \<and> has_model_route R m) (aq_compression aq)
               in if ms = [] then base\<lparr>pl_models := []\<rparr>
                  else base\<lparr>pl_spec := (aq_spec aq)\<lparr>rq_input_tokens := 0\<rparr>, pl_models := ms, pl_group := False, pl_filter := ([], []), pl_nodes := [([], [])],
                            pl_strategy := ''compression'', pl_select := unscored select_largest_context\<rparr>))"

definition filtered_spec :: "request_spec \<Rightarrow> string list \<times> string list \<Rightarrow> route_entry list \<Rightarrow> request_spec" where
  "filtered_spec q f entries = q\<lparr>rq_group_whitelist := fst f, rq_group_blacklist := snd f, rq_entries := entries\<rparr>"

definition scan :: "phase_env \<Rightarrow> request_spec \<Rightarrow> string list \<Rightarrow> 's selecting \<Rightarrow> scan_result" where
  "scan ph q models s = collect_candidates (ph_now ph) (mg_model_cooldowns (rt_mgr (sl_world s))) (rt_router (sl_world s)) q models"

definition merge_reasons :: "reasons \<Rightarrow> reasons \<Rightarrow> reasons" where
  "merge_reasons new old = fold (\<lambda>(k, n). bump k n) new old"

definition phase_attempt :: "'s acquire_env \<Rightarrow> acquire_request \<Rightarrow> plan \<Rightarrow> nat \<times> request_spec \<times> string list \<times> strategy \<Rightarrow> 's search \<Rightarrow> 's search \<times> (pyerror + route_candidate) option" where
  \<comment> \<open>collect, and if there is a candidate select and reserve\<close>
  "phase_attempt E aq pl i sh =
     (case i of (k, q, models, sel) \<Rightarrow>
       (let ph = ae_phases E k; found = scan ph q models (sh_sel sh);
            s1 = (sh_sel sh)\<lparr>sl_reasons := merge_reasons (sc_reasons found) (sl_reasons (sh_sel sh))\<rparr>;
            sh1 = sh\<lparr>sh_sel := s1, sh_limited := sc_limited found\<rparr>
        in if sc_candidates found = [] then (sh1, None)
           else (case prepare_and_reserve E ph aq (pl_strategy pl) sel (sc_candidates found) s1 of
                   (s2, Inl e) \<Rightarrow> (sh1\<lparr>sh_sel := s2, sh_saw := True\<rparr>, Some (Inl e))
                 | (s2, Inr None) \<Rightarrow> (sh1\<lparr>sh_sel := s2, sh_saw := True\<rparr>, None)
                 | (s2, Inr (Some c)) \<Rightarrow> (sh1\<lparr>sh_sel := s2, sh_saw := True\<rparr>, Some (Inr c)))))"

definition scan_members :: "phase_env \<Rightarrow> request_spec \<Rightarrow> string list \<Rightarrow> 's selecting \<Rightarrow> scan_result" where
  \<comment> \<open>a group's members one by one, the results merged\<close>
  "scan_members ph q models s = fold (\<lambda>m acc. let r = scan ph q [m] s in
       \<lparr>sc_candidates = sc_candidates acc @ sc_candidates r, sc_limited = sc_limited acc @ sc_limited r,
        sc_reasons = merge_reasons (sc_reasons r) (sc_reasons acc)\<rparr>) models \<lparr>sc_candidates = [], sc_limited = [], sc_reasons = []\<rparr>"

definition tpm_detail :: "string \<Rightarrow> string" where
  "tpm_detail model = utf8_text [230, 168, 161, 229, 158, 139] @ '' '' @ quoted model @ '' '' @ utf8_text [232, 190, 190, 229, 136, 176] @ '' TPM ''
     @ utf8_text [233, 153, 144, 229, 136, 182]"

definition entry_label :: "route_entry \<Rightarrow> string" where
  "entry_label e = re_provider e @ ''/'' @ (if re_accounts e = [] then ''*'' else join '','' (re_accounts e))"

definition route_lead :: "string \<Rightarrow> route_entry list \<Rightarrow> string" where
  "route_lead model es = utf8_text [230, 168, 161, 229, 158, 139] @ '' '' @ quoted model @ '' ''
     @ utf8_text [228, 184, 147, 231, 148, 168, 231, 186, 191, 232, 183, 175, 228, 184, 141, 229, 143, 175, 231, 148, 168] @ '': ''
     @ (if es = [] then ''*'' else join '', '' (map entry_label es))"

definition fails :: "request_spec \<Rightarrow> reasons \<Rightarrow> string option \<Rightarrow> string option \<Rightarrow> string option \<Rightarrow> acquired" where
  "fails q rs lead code detail = (case raise_no_available q rs lead code detail of (n, snapshot) \<Rightarrow> NoneAvailable n snapshot)"

definition no_candidate :: "plan \<Rightarrow> reasons \<Rightarrow> string list \<Rightarrow> acquired" where
  "no_candidate pl rs limited =
     (if limited \<noteq> [] \<and> length limited = length (pl_models pl)
      then fails (pl_spec pl) rs None (Some ''rate_limit_exceeded'') (Some (tpm_detail (rq_model (pl_spec pl))))
      else fails (pl_spec pl) rs None None None)"

definition finish_with :: "'s search \<times> (pyerror + route_candidate) option \<Rightarrow> ('s search \<Rightarrow> acquired) \<Rightarrow> 's selecting \<times> acquired" where
  "finish_with r otherwise = (case r of
      (sh, Some (Inl e)) \<Rightarrow> (sh_sel sh, AcquireRaises e)
    | (sh, Some (Inr c)) \<Rightarrow> (sh_sel sh, Acquired c)
    | (sh, None) \<Rightarrow> (sh_sel sh, otherwise sh))"

definition acquire_routed :: "'s acquire_env \<Rightarrow> acquire_request \<Rightarrow> plan \<Rightarrow> route_entry list \<Rightarrow> 's search \<Rightarrow> 's selecting \<times> acquired" where
  "acquire_routed E aq pl es sh =
     finish_with (run_rounds (phase_attempt E aq pl)
         (map (\<lambda>(k, e). (k, filtered_spec (pl_spec pl) (pl_filter pl) [e], pl_models pl, pl_select pl)) (enumerate 0 es)) sh)
       (\<lambda>sh. fails (pl_spec pl) (sl_reasons (sh_sel sh)) (Some (route_lead (rq_model (pl_spec pl)) es)) None None)"

definition acquire_model_random :: "'s acquire_env \<Rightarrow> acquire_request \<Rightarrow> plan \<Rightarrow> 's search \<Rightarrow> 's selecting \<times> acquired" where
  "acquire_model_random E aq pl sh =
     finish_with (run_rounds (phase_attempt E aq pl)
         (map (\<lambda>(k, m). (k, filtered_spec (pl_spec pl) (pl_filter pl) [], [m], unscored select_channel_random))
            (enumerate 0 (di_shuffle (ae_dice E) (pl_models pl)))) sh)
       (\<lambda>sh. fails (pl_spec pl) (sl_reasons (sh_sel sh)) None None None)"

definition acquire_group :: "'s acquire_env \<Rightarrow> acquire_request \<Rightarrow> plan \<Rightarrow> 's search \<Rightarrow> 's selecting \<times> acquired" where
  "acquire_group E aq pl sh =
     (let ph = ae_phases E 0; s = sh_sel sh;
          found = scan_members ph (filtered_spec (pl_spec pl) (pl_filter pl) []) (pl_models pl) s;
          s1 = s\<lparr>sl_reasons := merge_reasons (sc_reasons found) (sl_reasons s)\<rparr>
      in if sc_candidates found = [] then (s1, no_candidate pl (sl_reasons s1) (sc_limited found))
         else (case prepare_and_reserve E ph aq (pl_strategy pl) (pl_select pl) (sc_candidates found) s1 of
                 (s2, Inl e) \<Rightarrow> (s2, AcquireRaises e)
               | (s2, Inr (Some c)) \<Rightarrow> (s2, Acquired c)
               | (s2, Inr None) \<Rightarrow> (s2, fails (pl_spec pl) (sl_reasons s2) None None None)))"

definition reason_set :: "string \<Rightarrow> reasons \<Rightarrow> bool" where
  "reason_set k rs \<longleftrightarrow> (case map_of rs k of Some n \<Rightarrow> n \<noteq> 0 | None \<Rightarrow> False)"

definition acquire_plain :: "'s acquire_env \<Rightarrow> acquire_request \<Rightarrow> plan \<Rightarrow> 's search \<Rightarrow> 's selecting \<times> acquired" where
  "acquire_plain E aq pl sh =
     finish_with (run_rounds (phase_attempt E aq pl)
         (map (\<lambda>(k, f). (k, filtered_spec (pl_spec pl) f [], pl_models pl, pl_select pl)) (enumerate 0 (pl_nodes pl))) sh)
       (\<lambda>sh. let rs = sl_reasons (sh_sel sh)
             in if \<not> sh_saw sh then no_candidate pl rs (sh_limited sh)
                else fails (pl_spec pl) rs None
                       (Some (if reason_set ''context_window_exceeded'' rs then ''context_too_large''
                              else if reason_set ''redis_uncertain'' rs \<or> reason_set ''provider_not_initialized'' rs then ''service_busy''
                              else ''no_available_account'')) None)"

definition get_available_client_with_provider :: "'s acquire_env \<Rightarrow> acquire_request \<Rightarrow> 's routing \<Rightarrow> 's selecting \<times> acquired" where
  "get_available_client_with_provider E aq w =
     (let s = \<lparr>sl_world = w, sl_reasons = []\<rparr>; sh = \<lparr>sh_sel = s, sh_limited = [], sh_saw = False\<rparr>; R = rt_router w; pl = make_plan R aq
      in if candidate_models R aq = [] then (s, ModelMissing)
         else if (case aq_route aq of Some r \<Rightarrow> r \<noteq> [] | None \<Rightarrow> False) then acquire_routed E aq pl (route_entries (aq_route aq)) sh
         else if pl_group pl \<and> pl_strategy pl = ''model_random'' then acquire_model_random E aq pl sh
         else if pl_group pl then acquire_group E aq pl sh
         else acquire_plain E aq pl sh)"

end
