(* ===== verification/Lub_RoutingProps.thy ===== *)
theory Lub_RoutingProps
  imports Lub_Routing
begin

text \<open>
  Candidates: which accounts end up in the list, exactly, and what a dedicated route without accounts does.
\<close>

section \<open>The scan as a comprehension\<close>

definition account_candidates :: "time \<Rightarrow> router \<Rightarrow> request_spec \<Rightarrow> string \<Rightarrow> string \<times> routed_pool \<times> channel_info \<times> pydict \<Rightarrow> nat \<Rightarrow> route_candidate list" where
  "account_candidates now R q model src x = (case src of (name, p, ch, row) \<Rightarrow>
     if account_skip now R q model name x = None then map (endpoint_candidate R q model name row x) (row_endpoints q model ch) else [])"

definition row_candidates :: "time \<Rightarrow> router \<Rightarrow> request_spec \<Rightarrow> string \<Rightarrow> string \<times> routed_pool \<times> channel_info \<times> pydict \<Rightarrow> route_candidate list" where
  "row_candidates now R q model src = (case src of (name, p, ch, row) \<Rightarrow>
     if row_skip R q model name ch row = None then concat (map (account_candidates now R q model src) (rp_clients p)) else [])"

definition model_candidates :: "time \<Rightarrow> (string \<times> time) list \<Rightarrow> router \<Rightarrow> request_spec \<Rightarrow> string \<Rightarrow> route_candidate list" where
  "model_candidates now cds R q model =
     (if model_tpm_available now cds model then concat (map (row_candidates now R q model) (iter_model_candidates R model (rq_is_test q \<or> rq_is_probe q))) else [])"

lemma scan_accounts: "fst (fold (scan_account now R q model src) xs acc) = fst acc @ concat (map (account_candidates now R q model src) xs)"
  by (induction xs arbitrary: acc) (auto simp: scan_account_def account_candidates_def split: prod.split option.split)

lemma scan_rows: "fst (fold (scan_row now R q model) srcs acc) = fst acc @ concat (map (row_candidates now R q model) srcs)"
proof (induction srcs arbitrary: acc)
  case (Cons src srcs)
  have "fst (scan_row now R q model src acc) = fst acc @ row_candidates now R q model src"
    by (auto simp: scan_row_def row_candidates_def scan_accounts split: prod.split option.split)
  with Cons show ?case by simp
qed simp

lemma scan_model_candidates: "sc_candidates (scan_model now cds R q model s) = sc_candidates s @ model_candidates now cds R q model"
  using scan_rows [of now R q model "iter_model_candidates R model (rq_is_test q \<or> rq_is_probe q)" "(sc_candidates s, sc_reasons s)"]
  by (auto simp: scan_model_def model_candidates_def Let_def split: prod.split)

lemma collect_comprehension: "sc_candidates (collect_candidates now cds R q models) = concat (map (model_candidates now cds R q) models)"
proof -
  have "sc_candidates (fold (scan_model now cds R q) models s) = sc_candidates s @ concat (map (model_candidates now cds R q) models)" for s
    by (induction models arbitrary: s) (simp_all add: scan_model_candidates)
  then show ?thesis by (simp add: collect_candidates_def)
qed

lemma row_endpoints_ne: "row_endpoints q model ch \<noteq> []"
  by (simp add: row_endpoints_def Let_def)

lemma endpoint_candidate_sel [simp]:
  "rc_provider (endpoint_candidate R q model name row x ep) = name"
  "rc_account (endpoint_candidate R q model name row x ep) = x"
  "rc_model (endpoint_candidate R q model name row x ep) = model"
  "rc_row (endpoint_candidate R q model name row x ep) = row"
  "\<not> rc_scored (endpoint_candidate R q model name row x ep)"
  by (simp_all add: endpoint_candidate_def Let_def)

lemma mem_row_candidates:
  "c \<in> set (row_candidates now R q model (name, p, ch, row)) \<longleftrightarrow>
     row_skip R q model name ch row = None \<and> (\<exists>x \<in> set (rp_clients p). account_skip now R q model name x = None
       \<and> (\<exists>ep \<in> set (row_endpoints q model ch). c = endpoint_candidate R q model name row x ep))"
  by (auto simp: row_candidates_def account_candidates_def)

lemma mem_collect:
  "c \<in> set (sc_candidates (collect_candidates now cds R q models)) \<longleftrightarrow>
     (\<exists>model \<in> set models. model_tpm_available now cds model
       \<and> (\<exists>name p ch row. (name, p, ch, row) \<in> set (iter_model_candidates R model (rq_is_test q \<or> rq_is_probe q))
            \<and> c \<in> set (row_candidates now R q model (name, p, ch, row))))"
  by (force simp: collect_comprehension model_candidates_def)

lemma collected_iff:
  "(\<exists>c \<in> set (sc_candidates (collect_candidates now cds R q models)). rc_model c = model \<and> rc_provider c = name \<and> rc_account c = x)
    \<longleftrightarrow> model \<in> set models \<and> model_tpm_available now cds model
        \<and> (\<exists>p ch row. (name, p, ch, row) \<in> set (iter_model_candidates R model (rq_is_test q \<or> rq_is_probe q)) \<and> row_skip R q model name ch row = None
            \<and> x \<in> set (rp_clients p) \<and> account_skip now R q model name x = None)" (is "?l = ?r")
proof
  assume ?r
  then obtain p ch row where src: "(name, p, ch, row) \<in> set (iter_model_candidates R model (rq_is_test q \<or> rq_is_probe q))"
      "row_skip R q model name ch row = None" "x \<in> set (rp_clients p)" "account_skip now R q model name x = None" and m: "model \<in> set models" "model_tpm_available now cds model"
    by blast
  obtain ep where "ep \<in> set (row_endpoints q model ch)" using row_endpoints_ne by (metis list.set_intros(1) neq_Nil_conv)
  with src have "endpoint_candidate R q model name row x ep \<in> set (row_candidates now R q model (name, p, ch, row))"
    unfolding mem_row_candidates by blast
  with src(1) m have "endpoint_candidate R q model name row x ep \<in> set (sc_candidates (collect_candidates now cds R q models))"
    unfolding mem_collect by blast
  then show ?l by (rule bexI [rotated]) simp
next
  assume ?l
  then obtain c where "c \<in> set (sc_candidates (collect_candidates now cds R q models))" "rc_model c = model" "rc_provider c = name" "rc_account c = x"
    by blast
  then obtain md nm p ch row y ep where src: "md \<in> set models" "model_tpm_available now cds md"
      "(nm, p, ch, row) \<in> set (iter_model_candidates R md (rq_is_test q \<or> rq_is_probe q))" "row_skip R q md nm ch row = None"
      "y \<in> set (rp_clients p)" "account_skip now R q md nm y = None"
    and c: "rc_model (endpoint_candidate R q md nm row y ep) = model" "rc_provider (endpoint_candidate R q md nm row y ep) = name"
      "rc_account (endpoint_candidate R q md nm row y ep) = x"
    unfolding mem_collect mem_row_candidates by blast
  from c have "md = model" "nm = name" "y = x" by simp_all
  from src [unfolded this] show ?r by blast
qed

lemma mem_iter:
  "(name, p, ch, row) \<in> set (iter_model_candidates R model all) \<longleftrightarrow>
     (name, p) \<in> set (ro_pools R) \<and> rp_channel p = Some ch \<and> row \<in> set (ci_models ch) \<and> dget row ''model_id'' = PStr model
     \<and> (dget row ''enabled'' \<noteq> PBool False \<or> all)"
  unfolding iter_model_candidates_def set_concat set_map
  by (auto split: option.splits intro!: bexI [of _ "(name, p)"])

section \<open>Eligible accounts\<close>

definition tags_allowed :: "string list \<Rightarrow> string list \<Rightarrow> string list \<Rightarrow> bool" where
  \<comment> \<open>a whitelist that is not empty has to meet the tags, a blacklist must not\<close>
  "tags_allowed white black tags \<longleftrightarrow> (white = [] \<or> meets tags white) \<and> \<not> meets tags black"

definition entry_allows :: "request_spec \<Rightarrow> string \<Rightarrow> string \<Rightarrow> bool" where
  "entry_allows q name user \<longleftrightarrow> rq_entries q = [] \<or> (\<exists>e \<in> set (rq_entries q). re_provider e = name \<and> user \<in> set (re_accounts e))"

definition fits_window :: "router \<Rightarrow> request_spec \<Rightarrow> pydict \<Rightarrow> string \<Rightarrow> bool" where
  "fits_window R q row model \<longleftrightarrow> rq_input_tokens q \<le> 0 \<or> context_limit R row model \<le> 0 \<or> rq_input_tokens q \<le> context_limit R row model"

definition channel_fits :: "router \<Rightarrow> request_spec \<Rightarrow> string \<Rightarrow> channel_info \<Rightarrow> pydict \<Rightarrow> bool" where
  "channel_fits R q model ch row \<longleftrightarrow> ci_enabled ch \<and> route_supports_operation R row model (rq_operation q) \<and> fits_window R q row model
     \<and> tags_allowed (rq_group_whitelist q) (rq_group_blacklist q) (ci_tags ch) \<and> tags_allowed (rq_key_whitelist q) (rq_key_blacklist q) (ci_tags ch)"

definition account_fits :: "time \<Rightarrow> router \<Rightarrow> request_spec \<Rightarrow> string \<Rightarrow> string \<Rightarrow> nat \<Rightarrow> bool" where
  "account_fits now R q model name x \<longleftrightarrow>
     provider_supports_operation (ro_traits R x) (rq_operation q)
     \<and> (case pt_system_model (ro_traits R x) of Some f \<Rightarrow> f model | None \<Rightarrow> True)
     \<and> entry_allows q name (user_of R x) \<and> (rq_accounts q = [] \<or> user_of R x \<in> set (rq_accounts q))
     \<and> (name, user_of R x) \<notin> set (rq_exclude q)
     \<and> snd (state now (account_of R x)) \<in> ROUTABLE_STATES \<and> \<not> is_model_frozen now model (account_of R x)"

definition eligible :: "time \<Rightarrow> (string \<times> time) list \<Rightarrow> router \<Rightarrow> request_spec \<Rightarrow> string \<Rightarrow> string \<Rightarrow> nat \<Rightarrow> bool" where
  \<comment> \<open>what a request of a client asks of a model, a channel and an account\<close>
  "eligible now cds R q model name x \<longleftrightarrow>
     model_tpm_available now cds model \<and> account_fits now R q model name x
     \<and> (\<exists>p ch row. (name, p) \<in> set (ro_pools R) \<and> rp_channel p = Some ch \<and> x \<in> set (rp_clients p) \<and> row \<in> set (ci_models ch)
          \<and> dget row ''model_id'' = PStr model \<and> dget row ''enabled'' \<noteq> PBool False \<and> channel_fits R q model ch row)"

lemma state_reason_total: "st \<notin> ROUTABLE_STATES \<Longrightarrow> state_reason st \<noteq> None"
  by (cases st) (auto simp: ROUTABLE_STATES_def state_reason_def)

lemma row_skip_none:
  assumes "\<not> rq_is_test q" "\<not> rq_is_probe q"
  shows "row_skip R q model name ch row = None \<longleftrightarrow>
     channel_fits R q model ch row \<and> (rq_entries q = [] \<or> name \<in> re_provider ` set (rq_entries q))"
  using assms by (auto simp: row_skip_def Let_def fits_window_def tags_allowed_def channel_fits_def)

lemma account_skip_none:
  assumes "\<not> rq_is_test q" "\<not> rq_is_probe q" "rq_entries q = [] \<or> name \<in> re_provider ` set (rq_entries q)"
  shows "account_skip now R q model name x = None \<longleftrightarrow> account_fits now R q model name x"
proof -
  have "(case allowed_accounts q name of Some as \<Rightarrow> user_of R x \<notin> set as | None \<Rightarrow> False) \<longleftrightarrow> \<not> entry_allows q name (user_of R x)"
    using assms(3) by (auto simp: allowed_accounts_def entry_allows_def)
  with assms(1,2) state_reason_total [of "snd (state now (account_of R x))"] show ?thesis
    by (auto simp: account_skip_def account_fits_def split: option.splits)
qed

lemma collected_eligible:
  assumes "\<not> rq_is_test q" "\<not> rq_is_probe q"
  shows "(\<exists>c \<in> set (sc_candidates (collect_candidates now cds R q models)). rc_model c = model \<and> rc_provider c = name \<and> rc_account c = x)
    \<longleftrightarrow> model \<in> set models \<and> eligible now cds R q model name x"
proof -
  have "account_fits now R q model name x \<Longrightarrow> rq_entries q = [] \<or> name \<in> re_provider ` set (rq_entries q)"
    by (auto simp: account_fits_def entry_allows_def)
  then have "row_skip R q model name ch row = None \<and> account_skip now R q model name x = None \<longleftrightarrow>
     channel_fits R q model ch row \<and> account_fits now R q model name x" for ch row
    using row_skip_none [OF assms, of R model name ch row] account_skip_none [OF assms, of name now R model x] by metis
  then show ?thesis
    unfolding collected_iff mem_iter eligible_def using assms by blast
qed

text \<open>
  C12. The candidates of a client's request are exactly the eligible accounts: an account of a provider is
  offered for a model if and only if the model is requested and not cooling, the channel is enabled,
  allowed by the tags of the group and of the API key and has an enabled row for the model whose window and
  modalities fit, and the account is allowed by the route, not excluded, routable and not frozen for the model.
\<close>

theorem candidates_are_the_eligible:
  assumes "\<not> rq_is_test q" "\<not> rq_is_probe q"
  shows "(\<exists>c \<in> set (sc_candidates (collect_candidates now cds R q models)). rc_model c = model \<and> rc_provider c = name \<and> rc_account c = x)
    \<longleftrightarrow> model \<in> set models \<and> eligible now cds R q model name x"
  using assms by (rule collected_eligible)

lemma entries_without_accounts:
  assumes "rq_entries q \<noteq> []" "\<forall>e \<in> set (rq_entries q). re_accounts e = []"
  shows "sc_candidates (collect_candidates now cds R q models) = []"
proof -
  have "account_skip now R q model name x \<noteq> None" if "row_skip R q model name ch row = None" for model name ch row x
  proof -
    from that assms(1) have "name \<in> set (map re_provider (rq_entries q))" by (auto simp: row_skip_def Let_def split: if_splits)
    with assms have "allowed_accounts q name = Some []" by (auto simp: allowed_accounts_def)
    then show ?thesis by (simp add: account_skip_def)
  qed
  then have "c \<notin> set (sc_candidates (collect_candidates now cds R q models))" for c
    unfolding mem_collect mem_row_candidates by metis
  then show ?thesis by (metis last_in_set)
qed

section \<open>Concrete data for the witnesses\<close>

definition channel0 :: channel_info where
  "channel0 = \<lparr>ci_enabled = True, ci_tags = [], ci_models = [[(''model_id'', PStr ''m'')]], ci_protocols = \<lambda>_ _. []\<rparr>"

definition router0 :: router where
  "router0 = \<lparr>ro_pools = [(''p'', \<lparr>rp_channel = Some channel0, rp_clients = [0]\<rparr>)], ro_accounts = \<lambda>_. account0, ro_balance = \<lambda>_. (None, 0),
     ro_billing = \<lambda>_. ''token'', ro_traits = \<lambda>_. \<lparr>pt_method = \<lambda>_. True, pt_system_model = None, pt_protocol = None\<rparr>, ro_metadata = \<lambda>_. ([], True),
     ro_pick_history = [], ro_recent_picks = [], ro_last_route = [], ro_affinity = [], ro_session_affinity = [], ro_failures = None, ro_outcomes = [],
     ro_channel_stats = [], ro_channel_scores = [], ro_pending = [], ro_dropped = 0\<rparr>"

definition spec0 :: request_spec where
  "spec0 = \<lparr>rq_model = ''m'', rq_exclude = [], rq_operation = None, rq_group_whitelist = [], rq_group_blacklist = [], rq_key_whitelist = [],
     rq_key_blacklist = [], rq_entries = [], rq_protocol = None, rq_accounts = [], rq_is_test = False, rq_is_probe = False, rq_input_tokens = 0\<rparr>"

lemma router0_sel [simp]:
  "ro_pools router0 = [(''p'', \<lparr>rp_channel = Some channel0, rp_clients = [0]\<rparr>)]" "ro_accounts router0 x = account0" "account_of router0 x = account0"
  "user_of router0 x = ''u''" "ro_channel_stats router0 = []" "ro_balance router0 x = (None, 0)" "ro_pick_history router0 = []" "ro_affinity router0 = []"
  "ro_traits router0 x = \<lparr>pt_method = \<lambda>_. True, pt_system_model = None, pt_protocol = None\<rparr>" "ro_metadata router0 mid = ([], True)"
  by (simp_all add: router0_def account_of_def user_of_def account0_def provider0_def)

lemma spec0_sel [simp]:
  "rq_model spec0 = ''m''" "rq_exclude spec0 = []" "rq_operation spec0 = None" "rq_group_whitelist spec0 = []" "rq_group_blacklist spec0 = []"
  "rq_key_whitelist spec0 = []" "rq_key_blacklist spec0 = []" "rq_entries spec0 = []" "rq_protocol spec0 = None" "rq_accounts spec0 = []"
  "\<not> rq_is_test spec0" "\<not> rq_is_probe spec0" "rq_input_tokens spec0 = 0"
  by (simp_all add: spec0_def)

lemma account0_routable: "snd (state 100 account0) \<in> ROUTABLE_STATES" "\<not> is_model_frozen 100 ''m'' account0"
  by (simp_all add: state_def frozen_model_ids_def ROUTABLE_STATES_def Let_def is_frozen_def is_model_frozen_def entry_frozen_def initialized_def account0_def provider0_def no_freeze_def)

lemma operation_spec_None [simp]: "operation_spec None = None"
  by (simp add: operation_spec_def opt_str_def)

lemma eligible0: "eligible 100 [] router0 spec0 ''m'' ''p'' 0"
  by (simp add: eligible_def account_fits_def channel_fits_def model_tpm_available_def provider_supports_operation_def route_supports_operation_def
      entry_allows_def fits_window_def tags_allowed_def meets_def account0_routable channel0_def dget_def)

theorem candidates_are_the_eligible_witness:
  "\<exists>c \<in> set (sc_candidates (collect_candidates 100 [] router0 spec0 [''m''])). rc_model c = ''m'' \<and> rc_provider c = ''p'' \<and> rc_account c = 0"
  using candidates_are_the_eligible [of spec0 100 "[]" router0 "[''m'']" "''m''" "''p''" 0] eligible0 by simp

end
