(* ===== verification/Lub_ScoringProps.thy ===== *)
theory Lub_ScoringProps
  imports Lub_Scoring Lub_RoutingProps
begin

text \<open>
  Statistics and scores: the counters stay consistent, and a usable candidate always has a positive score
  of bounded size, so no penalty starves it.
\<close>

section \<open>Counters\<close>

definition channel_ok :: "channel_stats \<Rightarrow> bool" where
  "channel_ok s \<longleftrightarrow> 0 \<le> cs_failures s \<and> cs_failures s \<le> cs_requests s \<and> cs_requests s \<le> 100
     \<and> 0 \<le> cs_error_rate s \<and> cs_error_rate s \<le> 1 \<and> 1/10 \<le> cs_score s \<and> cs_score s \<le> 10
     \<and> (case cs_ttft s of Some t \<Rightarrow> 0 < t | None \<Rightarrow> True)"

definition stats_ok :: "router \<Rightarrow> bool" where
  "stats_ok R \<longleftrightarrow> list_all (channel_ok \<circ> snd) (ro_channel_stats R)"

lemma channel_ok0 [simp]: "channel_ok channel_stats0"
  by (simp add: channel_ok_def channel_stats0_def)

lemma stats_of_ok: "stats_ok R \<Longrightarrow> channel_ok (stats_of R p)"
  by (force simp: stats_of_def stats_ok_def list_all_iff dest: map_of_SomeD split: option.split)

lemma dset_all: "list_all P xs \<Longrightarrow> P (k, v) \<Longrightarrow> list_all P (dset xs k v)"
  by (induction xs k v rule: dset.induct) auto

lemma rate_bounds: "0 \<le> f \<Longrightarrow> f \<le> n \<Longrightarrow> 0 \<le> (of_int f :: rat) / of_int n \<and> (of_int f :: rat) / of_int n \<le> 1"
  by (cases "n = 0") (auto simp: divide_le_eq)

lemma count_outcome_ok: "channel_ok s \<Longrightarrow> channel_ok (count_outcome b s)"
  using rate_bounds [of "cs_failures s + (if b then 1 else 0)" "cs_requests s + 1"]
    rate_bounds [of "(cs_failures s + (if b then 1 else 0)) div 2" 50]
  by (auto simp: channel_ok_def count_outcome_def Let_def split: option.splits)

lemma stats_ok_put: "stats_ok R \<Longrightarrow> channel_ok v \<Longrightarrow> stats_ok (R\<lparr>ro_channel_stats := dset (ro_channel_stats R) p v\<rparr>)"
  by (simp add: stats_ok_def dset_all)

lemma on_channel_stats [simp]: "ro_channel_stats (on_channel p f R) = ro_channel_stats R"
  by (simp add: on_channel_def split: option.split)

lemma stats_frames [simp]:
  "ro_channel_stats (record_session_failure now R) = ro_channel_stats R"
  "ro_channel_stats (on_stats f x R) = ro_channel_stats R"
  "ro_channel_stats (record_short_term_outcome now p u ok d R) = ro_channel_stats R"
  "ro_channel_stats (incr_daily_outcome p u ok R) = ro_channel_stats R"
  "ro_channel_stats (record_session_success now s p u R) = ro_channel_stats R"
  "ro_channel_stats (record_upstream_model_affinity now m p u R) = ro_channel_stats R"
  "ro_channel_stats (cleanup_session_state now R) = ro_channel_stats R"
  "ro_channel_stats (fst (flush_reliability_counts R)) = ro_channel_stats R"
  by (simp_all add: record_session_failure_def on_stats_def record_short_term_outcome_def incr_daily_outcome_def record_session_success_def
      record_upstream_model_affinity_def cleanup_session_state_def flush_reliability_counts_def Let_def split: option.split)

lemma stats_ok_frames [simp]:
  "stats_ok (on_channel p f R) = stats_ok R"
  "stats_ok (record_session_failure now R) = stats_ok R"
  "stats_ok (on_stats g x R) = stats_ok R"
  "stats_ok (record_short_term_outcome now p u ok d R) = stats_ok R"
  "stats_ok (incr_daily_outcome p u ok R) = stats_ok R"
  by (simp_all add: stats_ok_def)

datatype stat_event =
    Ttft string int
  | ChannelFailure time string
  | AccountFailure time string string string
  | SessionSuccess time "string option" string string
  | Affinity time "string option" string string
  | Cleanup time
  | Flush

fun stat_step :: "stat_event \<Rightarrow> router \<Rightarrow> router" where
  "stat_step (Ttft p ms) R = record_channel_ttft p ms R"
| "stat_step (ChannelFailure now p) R = record_channel_failure now p R"
| "stat_step (AccountFailure now p u why) R = record_account_failure now p u why R"
| "stat_step (SessionSuccess now s p u) R = record_session_success now s p u R"
| "stat_step (Affinity now m p u) R = record_upstream_model_affinity now m p u R"
| "stat_step (Cleanup now) R = cleanup_session_state now R"
| "stat_step Flush R = fst (flush_reliability_counts R)"

lemma ttft_positive: "channel_ok s \<Longrightarrow> 0 < ms \<Longrightarrow> 0 < (case cs_ttft s of None \<Rightarrow> of_int ms | Some old \<Rightarrow> old * (8/10) + of_int ms * (2/10 :: rat))"
  by (auto simp: channel_ok_def add_pos_pos split: option.splits)

lemma stat_step_ok: assumes "stats_ok R" shows "stats_ok (stat_step e R)"
proof (cases e)
  case (Ttft p ms)
  have "channel_ok ((count_outcome False (stats_of R p))\<lparr>cs_ttft := Some t, cs_score := min 10 (max (1/10) v)\<rparr>)" if "0 < t" for t v
    using count_outcome_ok [OF stats_of_ok [OF assms, of p], of False] that by (auto simp: channel_ok_def)
  with Ttft assms ttft_positive [OF stats_of_ok [OF assms, of p], of ms] show ?thesis
    by (auto simp: record_channel_ttft_def Let_def intro!: stats_ok_put)
next
  case (ChannelFailure now p)
  have c: "channel_ok (stats_of R p)" using assms by (rule stats_of_ok)
  have "channel_ok ((count_outcome True (stats_of R p))\<lparr>cs_score := max (1/10) (cs_score (stats_of R p) * (9/10))\<rparr>)"
    using count_outcome_ok [OF c, of True] c by (auto simp: channel_ok_def)
  with ChannelFailure assms show ?thesis
    by (auto simp: record_channel_failure_def Let_def intro!: stats_ok_put)
next
  case (AccountFailure now p u why)
  with assms show ?thesis by (simp add: record_account_failure_def split: option.split)
qed (use assms in \<open>simp_all add: stats_ok_def\<close>)

text \<open>
  C29. Whatever sequence of outcomes is recorded, in any order and however many, the counters of every
  channel stay consistent: failures never exceed requests (the halving at 100 included), the error rate
  lies in [0, 1], the channel's score in [0.1, 10] and the averaged first-token time is positive.
\<close>

theorem channel_statistics_consistent:
  assumes "stats_ok R"
  shows "stats_ok (fold stat_step es R)"
  using assms by (induction es arbitrary: R) (simp_all add: stat_step_ok)

theorem channel_statistics_consistent_witness:
  "stats_ok (fold stat_step [Ttft ''p'' 250, ChannelFailure 5 ''p'', AccountFailure 5 ''p'' ''u'' ''HTTP 503''] router0)"
  by (rule channel_statistics_consistent) (simp add: stats_ok_def)

section \<open>Factors\<close>

named_theorems factor_bounds

definition capped :: "rat \<Rightarrow> rat \<Rightarrow> bool" where
  \<comment> \<open>positive and at most the bound\<close>
  "capped u x \<longleftrightarrow> 0 < x \<and> x \<le> u"

lemma capped_mult: "capped a x \<Longrightarrow> capped b y \<Longrightarrow> capped (a * b) (x * y)"
  unfolding capped_def by (meson less_imp_le mult_mono mult_pos_pos order_trans order_less_le_trans)

lemma capped_min: "capped a x \<Longrightarrow> capped b y \<Longrightarrow> capped (min a b) (min x y)"
  by (auto simp: capped_def min_def)

lemma error_rate_bounds: "0 \<le> snd (error_rate now win w) \<and> snd (error_rate now win w) \<le> 1"
  by (auto simp: error_rate_def Let_def divide_le_eq add_pos_nonneg add_nonneg_pos)

lemma pick_factor_capped: "capped 1 (snd (pick_factor now cap win w))"
  by (auto simp: pick_factor_def Let_def capped_def simp del: max_def)

lemma channel_error_rate_bounds: "stats_ok R \<Longrightarrow> 0 \<le> channel_error_rate R p \<and> channel_error_rate R p \<le> 1"
  using stats_of_ok [of R p] by (simp add: channel_error_rate_def channel_ok_def)

lemma session_factor_capped [factor_bounds]: "stats_ok R \<Longrightarrow> capped 1 (session_anti_affinity_factor now R p)"
proof -
  assume "stats_ok R"
  from channel_error_rate_bounds [OF this, of p]
  have "max 0 (1 - channel_error_rate R p) ^ n \<le> (1 :: rat)" for n by (intro power_le_one) auto
  moreover have "(7/10) ^ n \<le> (1 :: rat)" for n by (intro power_le_one) auto
  ultimately show ?thesis
    by (simp add: session_anti_affinity_factor_def capped_def Let_def less_max_iff_disj split: option.split)
qed

lemma affinity_factor_cases: "affinity_factor now ttl m k key = 1 \<or> affinity_factor now ttl m k key = 13/10"
  by (simp add: affinity_factor_def split: option.split)

lemma reuse_capped [factor_bounds]: "1 \<le> cap \<Longrightarrow> capped cap (min (reuse_affinity_factor now R s key u) cap)"
  using affinity_factor_cases [of now SESSION_AFFINITY_TTL "ro_session_affinity R" s key]
    affinity_factor_cases [of now UPSTREAM_MODEL_AFFINITY_TTL "ro_affinity R" u key]
  by (auto simp: reuse_affinity_factor_def capped_def)

lemma rotation_capped [factor_bounds]: "capped 1 (success_rotation_factor a)"
  by (simp add: success_rotation_factor_def capped_def Let_def power_le_one less_max_iff_disj)

lemma short_success_capped [factor_bounds]: "capped (12/10) (short_term_success_factor now R key)"
proof -
  define recent where "recent = last_n SHORT_WINDOW_MAX_SAMPLES (short_term_samples now R key)"
  define failures where "failures = length (filter (\<lambda>r. \<not> oc_success r) recent)"
  have "of_nat (length recent - failures) / of_nat (length recent) \<le> (1 :: rat)"
    by (cases "recent = []") (auto simp: divide_le_eq)
  then show ?thesis
    by (auto simp: short_term_success_factor_def capped_def Let_def recent_def [symmetric] failures_def [symmetric] add_pos_nonneg)
qed

lemma latency_capped [factor_bounds]: "capped 1 (short_term_latency_factor now R key)"
  by (simp add: short_term_latency_factor_def capped_def Let_def)

lemma slow_capped [factor_bounds]: "capped 1 (absolute_slow_factor now R p key)"
  by (simp add: absolute_slow_factor_def capped_def Let_def)

lemma mean_capped: assumes "\<forall>x \<in> set fs. capped u x" and "1 \<le> u" shows "capped u (mean fs)"
proof (cases "fs = []")
  case False
  have "0 < sum_list fs \<and> sum_list fs \<le> of_nat (length fs) * u" if "fs \<noteq> []" "\<And>x. x \<in> set fs \<Longrightarrow> capped u x" for fs
    using that
  proof (induction fs)
    case (Cons x xs)
    then show ?case by (cases "xs = []") (auto simp: capped_def algebra_simps add_pos_pos add_mono)
  qed simp
  from this [of fs] False assms show ?thesis
    by (simp add: mean_def capped_def divide_le_eq mult.commute)
qed (use assms in \<open>simp add: mean_def capped_def\<close>)

definition quota_open :: "string \<Rightarrow> account_client \<Rightarrow> bool" where
  \<comment> \<open>neither the daily quota nor the model's is used up\<close>
  "quota_open model a \<longleftrightarrow> (\<forall>r. daily_requests_remaining a = Some r \<longrightarrow> 0 < r) \<and> (\<forall>r. map_of (model_daily_remaining a) model = Some r \<longrightarrow> 0 < r)"

definition headroom_open :: "time \<Rightarrow> account_client \<Rightarrow> bool" where
  \<comment> \<open>every limit the account has leaves room\<close>
  "headroom_open now a \<longleftrightarrow>
     (0 < ac_rpm_limit a \<longrightarrow> int (length (filter (\<lambda>t. now - t < 60) (ac_requests a))) < ac_rpm_limit a)
     \<and> (0 < ac_tpm_limit a \<longrightarrow> sum_list (map snd (filter (\<lambda>(t, n). now - t < 60) (ac_token_usages a))) < ac_tpm_limit a)
     \<and> (0 < ac_concurrent_limit a \<longrightarrow> ac_in_flight a < ac_concurrent_limit a)"

lemma share_capped: "0 < r \<Longrightarrow> 0 < n \<Longrightarrow> capped (3/2) (1/2 + min 1 (of_int r / of_int n))"
  by (auto simp: capped_def min_def add_pos_pos)

lemma share_thousand: "0 < r \<Longrightarrow> capped 2 (1 + min 1 (of_int r / 1000))"
  by (auto simp: capped_def min_def add_pos_pos)

lemma capped_weaken: "capped a x \<Longrightarrow> a \<le> b \<Longrightarrow> capped b x"
  by (simp add: capped_def)

lemma daily_quota_capped:
  assumes "\<And>r. remaining = Some r \<Longrightarrow> 0 < r" "x \<in> set (daily_quota_factor remaining cap)"
  shows "capped 2 x"
proof (cases remaining)
  case (Some r)
  with assms share_thousand [of r] share_capped [THEN capped_weaken [of _ _ 2], of r] show ?thesis
    by (cases cap) (auto simp: daily_quota_factor_def split: if_splits)
qed (use assms in \<open>simp add: daily_quota_factor_def\<close>)

lemma quota_factor_open: assumes "quota_open model a" shows "capped 2 (quota_factor R p model a)"
proof -
  have "capped 2 x" if "x \<in> set (daily_quota_factor (daily_requests_remaining a) (daily_requests_limit a)
      @ (case map_of (model_daily_remaining a) model of Some r \<Rightarrow> [1 + min 1 (of_int r / 1000)] | None \<Rightarrow> []))" for x
    using that assms share_thousand daily_quota_capped unfolding quota_open_def by (auto split: option.splits)
  then have m: "capped 2 (mean (daily_quota_factor (daily_requests_remaining a) (daily_requests_limit a)
      @ (case map_of (model_daily_remaining a) model of Some r \<Rightarrow> [1 + min 1 (of_int r / 1000)] | None \<Rightarrow> [])))"
    by (intro mean_capped) simp_all
  have "capped 2 (x * (3/10))" if "capped 2 x" for x using that by (simp add: capped_def)
  with m assms show ?thesis
    by (auto simp: quota_factor_def quota_open_def Let_def split: option.split)
qed

lemma quota_factor_closed: "\<not> quota_open model a \<Longrightarrow> quota_factor R p model a = 0"
  by (auto simp: quota_factor_def quota_open_def not_less split: option.split)

lemma headroom_factor_open: assumes "headroom_open now a" shows "capped (3/2) (headroom_factor now a)"
proof -
  have e: "capped (3/2) x" if "x \<in> set (headroom_entry cap used)" "0 < cap \<Longrightarrow> used < cap" for x cap used
    using that share_capped [of "cap - used" cap] by (auto simp: headroom_entry_def split: if_splits)
  let ?r = "int (length (filter (\<lambda>t. now - t < 60) (ac_requests a)))"
    and ?t = "sum_list (map snd (filter (\<lambda>(t, n). now - t < 60) (ac_token_usages a)))"
  have "capped (3/2) x" if "x \<in> set (headroom_entry (ac_rpm_limit a) ?r @ headroom_entry (ac_tpm_limit a) ?t
      @ headroom_entry (ac_concurrent_limit a) (ac_in_flight a))" for x
    using that assms unfolding headroom_open_def by (auto dest: e)
  then have "capped (3/2) (mean (headroom_entry (ac_rpm_limit a) ?r @ headroom_entry (ac_tpm_limit a) ?t
      @ headroom_entry (ac_concurrent_limit a) (ac_in_flight a)))" by (intro mean_capped) simp_all
  with assms show ?thesis unfolding headroom_factor_def headroom_open_def Let_def by (auto simp: not_le)
qed

lemma headroom_factor_closed: "\<not> headroom_open now a \<Longrightarrow> headroom_factor now a = 0"
  by (auto simp: headroom_factor_def headroom_open_def Let_def not_less)

lemma frequency_capped [factor_bounds]: "capped 1 (frequency_factor now R p a)"
proof -
  have "capped 1 (provider_pick_window_factor now ts)" for ts
    using power_le_one [of "55/100 :: rat"] by (simp add: provider_pick_window_factor_def capped_def Let_def less_max_iff_disj del: power_Suc)
  from capped_min [OF pick_factor_capped this] show ?thesis
    by (simp add: frequency_factor_def Let_def pick_factor_capped)
qed

lemma volume_capped [factor_bounds]: "capped 1 (volume_error_factor v x y)"
  by (auto simp: volume_error_factor_def capped_def not_le)

lemma reliability_capped [factor_bounds]: "capped 1 (candidate_reliability counts R c)"
  by (auto simp: candidate_reliability_def reliability_of_counts_def capped_def Let_def split: option.split)

lemma penalties_closed: "\<not> quota_open (rc_model c) (account_of R (rc_account c)) \<or> \<not> headroom_open now (account_of R (rc_account c)) \<Longrightarrow> penalties cap i rel now R c = 0"
  by (auto simp: penalties_def Let_def quota_factor_closed headroom_factor_closed)

lemma penalties_capped:
  assumes "stats_ok R" "1 \<le> cap" "capped 1 rel"
    and "quota_open (rc_model c) (account_of R (rc_account c))" "headroom_open now (account_of R (rc_account c))"
  shows "capped (2 * (3/2) * 1 * 1 * cap * 1 * (12/10) * 1 * 1 * 1 * 1) (penalties cap i rel now R c)"
  unfolding penalties_def Let_def
  by (intro capped_mult factor_bounds quota_factor_open headroom_factor_open assms)

section \<open>Scores\<close>

lemma speed_capped: "stats_ok R \<Longrightarrow> capped 1 (speed_score R p best)"
  by (auto simp: speed_score_def capped_def less_max_iff_disj split: option.split)

lemma unit_scores:
  "0 \<le> error_score d now R a \<and> error_score d now R a \<le> 1" if "0 \<le> d" "d \<le> 1"
proof -
  have r: "0 \<le> account_error_rate now R a" "account_error_rate now R a \<le> 1"
    using error_rate_bounds by (simp_all add: account_error_rate_def)
  have "max 0 (1 - account_error_rate now R a) * d ^ nat (fw_consecutive_failures (ac_stats a)) \<le> 1 * 1"
    using r that by (intro mult_mono power_le_one) auto
  then show ?thesis using r that by (simp add: error_score_def)
qed

lemma balance_unit: "0 \<le> balance_score b \<and> balance_score b \<le> 1"
  by (simp add: balance_score_def split: option.split)

lemma priority_unit: "0 \<le> priority_score a \<and> priority_score a \<le> 1"
  by (simp add: priority_score_def divide_le_eq)

lemma weight_unit: "0 \<le> weight a \<Longrightarrow> 0 \<le> weight_score a \<and> weight_score a \<le> 1"
  by (simp add: weight_score_def)

definition usable :: "time \<Rightarrow> router \<Rightarrow> route_candidate \<Rightarrow> bool" where
  \<comment> \<open>not frozen, enough balance, quota and room under every limit\<close>
  "usable now R c \<longleftrightarrow> (let a = account_of R (rc_account c)
     in \<not> is_frozen now a \<and> \<not> blocked_by_balance (ro_balance R (rc_account c)) \<and> quota_open (rc_model c) a \<and> headroom_open now a)"

lemma base_capped:
  assumes "capped 1 s" "0 \<le> e \<and> e \<le> 1" "0 \<le> b \<and> b \<le> 1" "0 \<le> p \<and> p \<le> 1" "0 \<le> w \<and> w \<le> (1 :: rat)"
  shows "capped 1 (s * (20/100) + e * (25/100) + b * (15/100) + p * (25/100) + w * (15/100))"
    and "capped 1 (s * (67/100) + (e * (10/100) + b * (10/100) + p * (8/100) + w * (5/100)))"
  using assms unfolding capped_def by (simp_all add: add_pos_nonneg)

text \<open>
  C28. No starvation: both intelligent scores are positive exactly for the accounts that are usable (not
  frozen, balance above its threshold, quota left, room under every limit), whatever penalties for
  failures, frequency, slowness or stress apply, and never exceed 4.32 and 3.96.
\<close>

theorem score_positive_iff_usable:
  assumes "stats_ok R" "0 \<le> weight (account_of R (rc_account c))"
    and rel: "rel = candidate_reliability counts R c"
  shows "(0 < intelligent_score i rel best now R c \<longleftrightarrow> usable now R c)
    \<and> 0 \<le> intelligent_score i rel best now R c \<and> intelligent_score i rel best now R c \<le> 432/100
    \<and> (0 < fast_intelligent_score i rel best now R c \<longleftrightarrow> usable now R c)
    \<and> 0 \<le> fast_intelligent_score i rel best now R c \<and> fast_intelligent_score i rel best now R c \<le> 396/100"
proof (cases "usable now R c")
  case True
  note units = speed_capped [OF assms(1)] unit_scores balance_unit priority_unit weight_unit [OF assms(2)]
  have "capped 1 rel" unfolding rel by (rule reliability_capped)
  note pen = penalties_capped [OF assms(1) _ this]
  have "capped (432/100) (intelligent_score i rel best now R c)"
    using capped_mult [OF base_capped(1) [OF units(1) unit_scores balance_unit priority_unit weight_unit [OF assms(2)]] pen [of "12/10" c now i]] True
    by (simp add: intelligent_score_def usable_def Let_def)
  moreover have "capped (396/100) (fast_intelligent_score i rel best now R c)"
    using capped_mult [OF base_capped(2) [OF units(1) unit_scores balance_unit priority_unit weight_unit [OF assms(2)]] pen [of "11/10" c now i]] True
    by (simp add: fast_intelligent_score_def usable_def Let_def)
  ultimately show ?thesis using True by (simp add: capped_def less_imp_le)
next
  case False
  then have "intelligent_score i rel best now R c = 0" "fast_intelligent_score i rel best now R c = 0"
    by (auto simp: intelligent_score_def fast_intelligent_score_def usable_def Let_def penalties_closed)
  with False show ?thesis by simp
qed

definition candidate0 :: route_candidate where
  "candidate0 = \<lparr>rc_provider = ''p'', rc_account = 0, rc_model = ''m'', rc_upstream = ''m'', rc_protocol = ''openai'', rc_same_protocol = False,
     rc_bound = False, rc_endpoint = None, rc_row = [(''model_id'', PStr ''m'')], rc_score = 1, rc_scored = False\<rparr>"

definition score_in0 :: score_in where
  "score_in0 = \<lparr>si_session = None, si_volume = 0, si_counts = None, si_messages = False, si_tokens = 0\<rparr>"

lemma usable0: "usable 100 router0 candidate0"
  by (simp add: usable_def candidate0_def quota_open_def headroom_open_def blocked_by_balance_def daily_requests_remaining_def model_daily_remaining_def
      is_frozen_def entry_frozen_def account0_def provider0_def no_freeze_def)

theorem score_positive_iff_usable_witness:
  "0 < intelligent_score score_in0 1 None 100 router0 candidate0 \<and> fast_intelligent_score score_in0 1 None 100 router0 candidate0 \<le> 396/100"
  using score_positive_iff_usable [of router0 candidate0 1 None score_in0 None 100] usable0
  by (simp add: stats_ok_def weight_def candidate_reliability_def account0_def provider0_def)

end
