(* ===== verification/Lub_SelectProps.thy ===== *)
theory Lub_SelectProps
  imports Lub_Acquire Lub_ScoringProps
begin

text \<open>
  Strategies and the selection loop. The locale \<open>chooser\<close> is what the loop relies on: a strategy keeps the
  candidates it is given and chooses one of them. Every strategy of the source is an instance. The loop's
  properties are proved once for any chooser: its bound is never what ends it, and it gives up on no
  candidate that was not refused.
\<close>

section \<open>Picking\<close>

lemma first_least_member: "first_least le xs = Some x \<Longrightarrow> x \<in> set xs"
  by (induction xs arbitrary: x) (auto split: option.splits if_splits)

lemma first_least_total: "first_least le xs = None \<longleftrightarrow> xs = []"
  by (cases xs) (auto split: option.split)

lemma first_least_least:
  assumes "\<And>x y. le x y \<or> le y x" "\<And>x y z. le x y \<Longrightarrow> le y z \<Longrightarrow> le x z"
  shows "first_least le xs = Some x \<Longrightarrow> y \<in> set xs \<Longrightarrow> le x y"
proof (induction xs arbitrary: x y)
  case (Cons a xs)
  show ?case
  proof (cases "first_least le xs")
    case None
    with Cons.prems assms(1) [of a a] show ?thesis by (auto simp: first_least_total)
  next
    case (Some b)
    with Cons have b: "le b z" if "z \<in> set xs" for z using that by blast
    from Some Cons.prems(1) have x: "x = (if le a b then a else b)" by simp
    show ?thesis
    proof (cases "y = a")
      case True
      with x assms(1) show ?thesis by (metis (full_types))
    next
      case False
      with Cons.prems(2) b have "le b y" by simp
      with x assms(2) [of a b y] show ?thesis by simp
    qed
  qed
qed simp

lemma avoid_last_subset: "set (avoid_last_provider now R cs) \<subseteq> set cs"
  by (auto simp: avoid_last_provider_def Let_def split: option.splits if_splits)

lemma avoid_last_ne: "avoid_last_provider now R cs = [] \<longleftrightarrow> cs = []"
  by (auto simp: avoid_last_provider_def Let_def split: option.splits)

lemma group_by_mem: "(k, g) \<in> set (group_by f cs) \<longleftrightarrow> k \<in> f ` set cs \<and> g = filter (\<lambda>c. f c = k) cs"
  by (auto simp: group_by_def)

lemma group_by_ne: "group_by f cs = [] \<longleftrightarrow> cs = []"
  by (simp add: group_by_def)

lemma group_by_member: "(k, g) \<in> set (group_by f cs) \<Longrightarrow> g \<noteq> [] \<and> set g \<subseteq> set cs"
  by (auto simp: group_by_mem filter_empty_conv)

lemma map_of_group_by: "map_of (group_by f cs) k = (if k \<in> f ` set cs then Some (filter (\<lambda>c. f c = k) cs) else None)"
  by (simp add: group_by_def map_of_map_restrict restrict_map_def)

lemma choice_member: "dice_ok d \<Longrightarrow> xs \<noteq> [] \<Longrightarrow> xs ! di_choice d (length xs) \<in> set xs"
  by (simp add: dice_ok_def)

lemma pick_cursor_member: "pick_cursor w t c xs = Some x \<Longrightarrow> x \<in> set xs"
  by (induction w t c xs rule: pick_cursor.induct) (auto split: if_splits)

lemma draw_member: "dice_ok d \<Longrightarrow> xs \<noteq> [] \<Longrightarrow> draw d w xs \<in> set xs"
  by (auto simp: draw_def Let_def choice_member dest: pick_cursor_member split: option.split)

lemma weighted_pick_member: "dice_ok d \<Longrightarrow> cs \<noteq> [] \<Longrightarrow> weighted_pick d cs \<in> set cs"
  by (simp add: weighted_pick_def draw_member)

lemma provider_weights_groups: "snd ` set (provider_weights now R groups) = snd ` set groups"
proof -
  have "map snd (provider_weights now R groups) = map snd groups"
    by (simp add: provider_weights_def Let_def split_def comp_def)
  then show ?thesis by (metis set_map)
qed

lemma provider_first_member:
  assumes "dice_ok d" "provider_first_weighted_pick d now R explore cs = Some c" shows "c \<in> set cs"
proof -
  let ?groups = "group_by rc_provider cs"
  consider "cs = [c]" | "c = weighted_pick d (snd (?groups ! di_choice d (length ?groups)))" "cs \<noteq> []"
    | "c = weighted_pick d (snd (draw d fst (provider_weights now R ?groups)))" "cs \<noteq> []"
    using assms(2) by (auto simp: provider_first_weighted_pick_def Let_def split: list.splits if_splits)
  then show ?thesis
  proof cases
    case 2
    then have "?groups ! di_choice d (length ?groups) \<in> set ?groups" using assms(1) by (simp add: choice_member group_by_ne)
    then have "snd (?groups ! di_choice d (length ?groups)) \<noteq> [] \<and> set (snd (?groups ! di_choice d (length ?groups))) \<subseteq> set cs"
      by (metis group_by_member prod.collapse)
    with weighted_pick_member [OF assms(1)] 2 show ?thesis by blast
  next
    case 3
    have "provider_weights now R ?groups \<noteq> []" using 3 provider_weights_groups [of now R ?groups] group_by_ne [of rc_provider cs] by fastforce
    then have "snd (draw d fst (provider_weights now R ?groups)) \<in> snd ` set ?groups"
      using draw_member [OF assms(1)] provider_weights_groups by blast
    then have "snd (draw d fst (provider_weights now R ?groups)) \<noteq> [] \<and> set (snd (draw d fst (provider_weights now R ?groups))) \<subseteq> set cs"
      using group_by_member by force
    with weighted_pick_member [OF assms(1)] 3 show ?thesis by blast
  qed simp
qed

lemma shuffle_mem: "dice_ok d \<Longrightarrow> set (di_shuffle d xs) = set xs"
  by (metis dice_ok_def set_mset_mset)

lemma channel_random_laws:
  assumes "dice_ok d"
  shows "select_channel_random d now R cs = Some c \<Longrightarrow> c \<in> set cs" and "cs \<noteq> [] \<Longrightarrow> select_channel_random d now R cs \<noteq> None"
proof -
  let ?xs = "avoid_last_provider now R cs" and ?g = "group_by rc_provider (avoid_last_provider now R cs)"
  have keys: "set (di_shuffle d (map fst ?g)) = rc_provider ` set ?xs"
    using shuffle_mem [OF assms] by (auto simp: group_by_def)
  show "c \<in> set cs" if "select_channel_random d now R cs = Some c"
    using that avoid_last_subset [of now R cs]
    by (auto simp: select_channel_random_def Let_def map_of_group_by dest!: first_least_member split: list.splits option.splits if_splits)
  show "select_channel_random d now R cs \<noteq> None" if ne: "cs \<noteq> []"
  proof -
    obtain p ps where s: "di_shuffle d (map fst ?g) = p # ps"
      using ne keys avoid_last_ne [of now R cs] by (metis empty_set image_is_empty list.exhaust set_empty)
    with keys have "p \<in> rc_provider ` set ?xs" by auto
    then have "filter (\<lambda>c. rc_provider c = p) ?xs \<noteq> []" by (auto simp: filter_empty_conv)
    then show ?thesis using s \<open>p \<in> _\<close> first_least_total [of "order_le R"]
      by (simp add: select_channel_random_def Let_def map_of_group_by)
  qed
qed

lemma first_some_laws: "first_some (map f ms) = Some c \<Longrightarrow> \<exists>m \<in> set ms. f m = Some c" "first_some (map f ms) = None \<longleftrightarrow> (\<forall>m \<in> set ms. f m = None)"
  by (induction ms) (auto simp: first_some_Cons split: option.splits)

lemma model_random_laws:
  assumes "dice_ok d"
  shows "select_model_random d now R cs = Some c \<Longrightarrow> c \<in> set cs" and "cs \<noteq> [] \<Longrightarrow> select_model_random d now R cs \<noteq> None"
proof -
  have keys: "set (di_shuffle d (map fst (group_by rc_model cs))) = rc_model ` set cs"
    using shuffle_mem [OF assms] by (auto simp: group_by_def)
  show "c \<in> set cs" if "select_model_random d now R cs = Some c"
    using that by (auto simp: select_model_random_def Let_def map_of_group_by keys dest!: first_some_laws(1) channel_random_laws(1) [OF assms])
  show "select_model_random d now R cs \<noteq> None" if "cs \<noteq> []"
  proof -
    from that obtain c where c: "c \<in> set cs" by (cases cs) auto
    then have "filter (\<lambda>e. rc_model e = rc_model c) cs \<noteq> []" by (auto simp: filter_empty_conv)
    from channel_random_laws(2) [OF assms this] c show ?thesis
      by (auto simp: select_model_random_def Let_def map_of_group_by first_some_laws(2) keys intro!: bexI [of _ c])
  qed
qed

lemma all_random_laws:
  assumes "dice_ok d"
  shows "select_all_random d now R cs = Some c \<Longrightarrow> c \<in> set cs" and "cs \<noteq> [] \<Longrightarrow> select_all_random d now R cs \<noteq> None"
  using choice_member [OF assms, of "avoid_last_provider now R cs"] avoid_last_subset [of now R cs] avoid_last_ne [of now R cs]
  by (auto simp: select_all_random_def Let_def split: if_splits)

section \<open>Choosers\<close>

definition rc_ident :: "route_candidate \<Rightarrow> string \<times> nat \<times> string" where
  "rc_ident c = (rc_provider c, rc_account c, rc_model c)"

definition rounds_ok :: "select_env \<Rightarrow> bool" where
  "rounds_ok E \<longleftrightarrow> (\<forall>k. dice_ok (sr_dice (se_rounds E k)))"

definition covers :: "route_candidate \<times> string \<times> router \<Rightarrow> string \<times> nat \<times> string \<Rightarrow> bool" where
  \<comment> \<open>the refusal of a candidate speaks for everything of the account, or of the account and the model\<close>
  "covers l i = (case l of (c, why, R) \<Rightarrow> fst i = rc_provider c \<and> user_of R (fst (snd i)) = user_of R (rc_account c)
     \<and> (why = ''account_model_cooldown'' \<or> why = ''account_model_frozen'' \<longrightarrow> snd (snd i) = rc_model c))"

lemma covers_still_open: "covers (c, why, R) (rc_ident e) \<longleftrightarrow> \<not> still_open R why c e"
  by (auto simp: covers_def still_open_def rc_ident_def)

definition late :: "select_env \<Rightarrow> nat \<Rightarrow> bool" where
  "late E k \<longleftrightarrow> (case se_deadline E of Some t \<Rightarrow> t \<le> sr_clock (se_rounds E k) | None \<Rightarrow> False)"

definition chosen :: "select_env \<Rightarrow> route_candidate list \<times> route_candidate option \<Rightarrow> route_candidate option" where
  "chosen E r = (if snd r = None \<and> se_probe E then Some (hd (fst r)) else snd r)"

inductive refused_round ::
  "'s redis \<Rightarrow> calendar \<Rightarrow> select_env \<Rightarrow> strategy \<Rightarrow> nat \<times> route_candidate list \<times> 's selecting
     \<Rightarrow> route_candidate \<times> string \<times> router \<Rightarrow> nat \<times> route_candidate list \<times> 's selecting \<Rightarrow> bool"
  for R cal E sel where
  refused: "\<lbrakk>remaining \<noteq> []; \<not> late E k; chosen E (sel (se_rounds E k) (rt_router (sl_world s)) remaining) = Some c;
     try_reserve R cal (se_probe E) (se_rounds E k) c (sl_world s) = (w, Inr v); \<not> reservation_allowed v;
     w1 = (if se_probe E then w else w\<lparr>rt_slept := rt_slept w @ [selection_backoff_ms k]\<rparr>)\<rbrakk>
   \<Longrightarrow> refused_round R cal E sel (k, remaining, s) (c, refusal_reason v, rt_router w1)
        (Suc k, filter (still_open (rt_router w1) (refusal_reason v) c) (fst (sel (se_rounds E k) (rt_router (sl_world s)) remaining)),
         \<lparr>sl_world = w1, sl_reasons = bump (refusal_reason v) 1 (sl_reasons s)\<rparr>)"

inductive refusals ::
  "'s redis \<Rightarrow> calendar \<Rightarrow> select_env \<Rightarrow> strategy \<Rightarrow> nat \<times> route_candidate list \<times> 's selecting
     \<Rightarrow> (route_candidate \<times> string \<times> router) list \<Rightarrow> nat \<times> route_candidate list \<times> 's selecting \<Rightarrow> bool"
  for R cal E sel where
  none: "refusals R cal E sel x [] x"
| more: "refused_round R cal E sel x l y \<Longrightarrow> refusals R cal E sel y ls z \<Longrightarrow> refusals R cal E sel x (l # ls) z"

inductive_cases refused_roundE: "refused_round R cal E sel x l y"

locale chooser =
  fixes sel :: strategy
  assumes sel_keeps: "dice_ok (sr_dice rd) \<Longrightarrow> map rc_ident (fst (sel rd R cs)) = map rc_ident cs"
    and sel_member: "dice_ok (sr_dice rd) \<Longrightarrow> snd (sel rd R cs) = Some c \<Longrightarrow> c \<in> set (fst (sel rd R cs))"
begin

lemma sel_length: "dice_ok (sr_dice rd) \<Longrightarrow> length (fst (sel rd R cs)) = length cs"
  by (metis length_map sel_keeps)

lemma chosen_member:
  assumes "rounds_ok E" "cs \<noteq> []" "chosen E (sel (se_rounds E k) r cs) = Some c"
  shows "c \<in> set (fst (sel (se_rounds E k) r cs))"
proof -
  have "dice_ok (sr_dice (se_rounds E k))" using assms(1) by (simp add: rounds_ok_def)
  with sel_length [OF this, of r cs] sel_member [OF this, of r cs c] assms(2,3) show ?thesis
    by (cases "fst (sel (se_rounds E k) r cs)") (auto simp: chosen_def split: if_splits)
qed

lemma shrinks:
  assumes "rounds_ok E" "cs \<noteq> []" "chosen E (sel (se_rounds E k) r cs) = Some c"
  shows "length (filter (still_open r' why c) (fst (sel (se_rounds E k) r cs))) < length cs"
proof -
  have "c \<in> set (fst (sel (se_rounds E k) r cs))" using assms by (rule chosen_member)
  moreover have "\<not> still_open r' why c c" by (simp add: still_open_def)
  ultimately have "length (filter (still_open r' why c) (fst (sel (se_rounds E k) r cs))) < length (fst (sel (se_rounds E k) r cs))"
    by (rule length_filter_less)
  then show ?thesis using assms(1) sel_length by (simp add: rounds_ok_def)
qed

lemma loop_outcome:
  assumes "rounds_ok E" "length cs \<le> n" "select_loop R cal E sel n k cs s = (s', r)"
  shows "\<exists>ls k1 cs1 s1. refusals R cal E sel (k, cs, s) ls (k1, cs1, s1) \<and>
    (case r of
       Inr (Some c) \<Rightarrow> \<exists>w v. cs1 \<noteq> [] \<and> chosen E (sel (se_rounds E k1) (rt_router (sl_world s1)) cs1) = Some c
          \<and> try_reserve R cal (se_probe E) (se_rounds E k1) c (sl_world s1) = (w, Inr v) \<and> reservation_allowed v \<and> s' = s1\<lparr>sl_world := w\<rparr>
     | Inr None \<Rightarrow> (cs1 = [] \<and> s' = s1)
          \<or> (cs1 \<noteq> [] \<and> late E k1 \<and> s' = s1\<lparr>sl_reasons := bump ''selection_deadline'' (int (length cs1)) (sl_reasons s1)\<rparr>)
          \<or> (cs1 \<noteq> [] \<and> chosen E (sel (se_rounds E k1) (rt_router (sl_world s1)) cs1) = None
              \<and> s' = s1\<lparr>sl_reasons := bump ''selection_returned_none'' 1 (sl_reasons s1)\<rparr>)
     | Inl e \<Rightarrow> True)"
  using assms(2,3)
proof (induction n arbitrary: k cs s)
  case 0
  then have "refusals R cal E sel (k, cs, s) [] (k, cs, s)" "cs = []" "s' = s" "r = Inr None" by (auto intro: none)
  then show ?case by (auto intro!: exI)
next
  case (Suc n)
  let ?sel = "sel (se_rounds E k) (rt_router (sl_world s)) cs"
  have stop: ?case if "case r of
       Inr (Some c) \<Rightarrow> \<exists>w v. cs \<noteq> [] \<and> chosen E ?sel = Some c
          \<and> try_reserve R cal (se_probe E) (se_rounds E k) c (sl_world s) = (w, Inr v) \<and> reservation_allowed v \<and> s' = s\<lparr>sl_world := w\<rparr>
     | Inr None \<Rightarrow> (cs = [] \<and> s' = s)
          \<or> (cs \<noteq> [] \<and> late E k \<and> s' = s\<lparr>sl_reasons := bump ''selection_deadline'' (int (length cs)) (sl_reasons s)\<rparr>)
          \<or> (cs \<noteq> [] \<and> chosen E ?sel = None \<and> s' = s\<lparr>sl_reasons := bump ''selection_returned_none'' 1 (sl_reasons s)\<rparr>)
     | Inl e \<Rightarrow> True"
    using that none by blast
  show ?case
  proof (cases "cs = [] \<or> late E k \<or> chosen E ?sel = None")
    case True
    with Suc.prems(2) show ?thesis
      by (intro stop) (auto simp: Let_def late_def chosen_def split: prod.splits if_splits option.splits)
  next
    case False
    then obtain c where c: "chosen E ?sel = Some c" by blast
    obtain w res where t: "try_reserve R cal (se_probe E) (se_rounds E k) c (sl_world s) = (w, res)" by (metis surj_pair)
    note eq = Suc.prems(2) [unfolded select_loop.simps Let_def late_def [symmetric]]
    show ?thesis
    proof (cases "\<exists>v. res = Inr v \<and> \<not> reservation_allowed v")
      case True
      then obtain v where v: "res = Inr v" "\<not> reservation_allowed v" by blast
      define w1 where "w1 = (if se_probe E then w else w\<lparr>rt_slept := rt_slept w @ [selection_backoff_ms k]\<rparr>)"
      let ?cs = "filter (still_open (rt_router w1) (refusal_reason v) c) (fst ?sel)"
        and ?s = "\<lparr>sl_world = w1, sl_reasons = bump (refusal_reason v) 1 (sl_reasons s)\<rparr>"
      have step: "refused_round R cal E sel (k, cs, s) (c, refusal_reason v, rt_router w1) (Suc k, ?cs, ?s)"
        using False c t v w1_def by (intro refused) auto
      have "length ?cs \<le> n" using shrinks [OF assms(1) _ c] False Suc.prems(1) by (metis le_trans less_Suc_eq_le not_less order.strict_trans2)
      moreover have "select_loop R cal E sel n (Suc k) ?cs ?s = (s', r)"
        using eq False c t v by (auto simp: w1_def chosen_def split: prod.splits if_splits)
      ultimately show ?thesis using Suc.IH [of ?cs "Suc k" ?s] more [OF step] by blast
    next
      case no: False
      show ?thesis
        using eq False c t no by (intro stop) (auto simp: chosen_def split: prod.splits if_splits sum.splits)
    qed
  qed
qed

lemma bound_not_reached:
  assumes "rounds_ok E"
  shows "length cs \<le> n \<Longrightarrow> select_loop R cal E sel n k cs s = select_loop R cal E sel (n + m) k cs s"
proof (induction n arbitrary: k cs s)
  case 0
  then show ?case by (cases m) simp_all
next
  case (Suc n)
  have "length (filter (still_open r' why c) (fst (sel (se_rounds E k) (rt_router (sl_world s)) cs))) \<le> n"
    if "cs \<noteq> []" "chosen E (sel (se_rounds E k) (rt_router (sl_world s)) cs) = Some c" for r' why c
    using shrinks [OF assms that] Suc.prems by (metis less_Suc_eq_le order_less_le_trans)
  then show ?case using Suc.IH by (auto simp: Let_def chosen_def split: prod.splits option.splits sum.splits)
qed

lemma refusals_cover:
  assumes "rounds_ok E" "refusals R cal E sel x ls y"
  shows "case (x, y) of ((k, cs, s), (k1, cs1, s1)) \<Rightarrow> set (map rc_ident cs) \<subseteq> set (map rc_ident cs1) \<union> {i. \<exists>l \<in> set ls. covers l i}"
  using assms(2)
proof (induction rule: refusals.induct)
  case (more x l y ls z)
  from more(1) show ?case
  proof (cases rule: refused_round.cases)
    case (refused remaining k s c w v w1)
    have "set (map rc_ident remaining) = set (map rc_ident (fst (sel (se_rounds E k) (rt_router (sl_world s)) remaining)))"
      using assms(1) sel_keeps by (simp add: rounds_ok_def)
    also have "\<dots> \<subseteq> set (map rc_ident (fst (snd y))) \<union> {i. covers l i}"
      using refused(2,3) by (auto simp: covers_still_open)
    finally show ?thesis using more.IH refused(1) by (auto split: prod.splits)
  qed
qed auto

end

locale total_chooser = chooser +
  assumes sel_total: "dice_ok (sr_dice rd) \<Longrightarrow> cs \<noteq> [] \<Longrightarrow> snd (sel rd R cs) \<noteq> None"

lemma unscored_chooser:
  assumes "\<And>d now R cs c. dice_ok d \<Longrightarrow> f d now R cs = Some c \<Longrightarrow> c \<in> set cs"
  shows "chooser (unscored f)"
  by unfold_locales (auto simp: unscored_def assms)

interpretation sequential: total_chooser "unscored select_sequential"
  using avoid_last_subset avoid_last_ne
  by unfold_locales (force simp: unscored_def select_sequential_def first_least_total dest: first_least_member)+

interpretation channel_random: total_chooser "unscored select_channel_random"
  by unfold_locales (auto simp: unscored_def channel_random_laws)

interpretation model_random: total_chooser "unscored select_model_random"
  by unfold_locales (auto simp: unscored_def model_random_laws)

interpretation all_random: total_chooser "unscored select_all_random"
  by unfold_locales (auto simp: unscored_def all_random_laws)

interpretation largest_context: total_chooser "unscored select_largest_context"
  by unfold_locales (auto simp: unscored_def select_largest_context_def first_least_total dest: first_least_member)

lemma score_candidates_ident: "map rc_ident (score_candidates score rd R cs) = map rc_ident cs"
  by (simp add: score_candidates_def Let_def rc_ident_def)

interpretation intelligent: chooser select_intelligent
  by unfold_locales (auto simp: select_intelligent_def Let_def score_candidates_ident dest!: provider_first_member)

lemma provider_first_avoiding:
  "dice_ok d \<Longrightarrow> provider_first_weighted_pick d now R e (avoid_last_provider now R cs) = Some c \<Longrightarrow> c \<in> set cs"
  using provider_first_member avoid_last_subset by blast

lemma fast_intelligent_member:
  assumes "dice_ok (sr_dice rd)" "snd (select_fast_intelligent rd R cs) = Some c"
  shows "c \<in> set (fst (select_fast_intelligent rd R cs))"
proof -
  have "c \<in> set (filter (\<lambda>c. 0 < rc_score c) (score_candidates fast_intelligent_score rd R cs))"
  proof (cases "di_random (sr_dice rd) < 20/100")
    case True
    with assms show ?thesis by (intro provider_first_member [of "sr_dice rd" "sr_now rd" R True]) (simp_all add: select_fast_intelligent_def Let_def)
  next
    case False
    with assms show ?thesis by (intro provider_first_avoiding [of "sr_dice rd" "sr_now rd" R False]) (simp_all add: select_fast_intelligent_def Let_def)
  qed
  then show ?thesis by (simp add: select_fast_intelligent_def Let_def)
qed

interpretation fast_intelligent: chooser select_fast_intelligent
  by unfold_locales (simp_all add: fast_intelligent_member, simp add: select_fast_intelligent_def Let_def score_candidates_ident)

lemma strategies_choose: "chooser (strategy_method name)"
  by (simp add: strategy_method_def sequential.chooser_axioms channel_random.chooser_axioms model_random.chooser_axioms all_random.chooser_axioms
      intelligent.chooser_axioms fast_intelligent.chooser_axioms)

section \<open>Leases\<close>

definition leases_of :: "'s routing \<Rightarrow> nat \<Rightarrow> (string \<times> limit_lease) list" where
  "leases_of w x = ac_limit_leases (ro_accounts (rt_router w) x)"

lemma acquire_lease_allowed:
  fixes m :: "'s mgr"
  assumes "acquire_account R cal i (m, a) = (st, Inr v)" "lres_lease v \<noteq> None"
  shows "ld_allowed (lres_decision v)"
proof -
  have [simp]: "ld_allowed (lres_decision (snd (on_admitted i P l r x)))" for P l r and x :: "'s mgr \<times> account_client"
    by (simp add: on_admitted_def Let_def split_def decision_def)
  have [simp]: "lres_lease (snd (on_denied i r x)) = None" for r and x :: "'s mgr \<times> account_client"
    by (simp add: on_denied_def Let_def split_def)
  have unc: "lres_lease (snd (on_uncertain i P l x)) \<noteq> None \<Longrightarrow> ld_allowed (lres_decision (snd (on_uncertain i P l x)))" for P l and x :: "'s mgr"
    by (simp add: on_uncertain_def uncertain_def Let_def decision_def split: if_splits)
  obtain b av where av: "(if ai_is_test i \<or> ac_is_test a then (a, Inr (decision True '''' None []))
      else account_available_locked (ai_now i) (Some (ai_model i)) (ai_check i) False a) = (b, av)"
    by (metis surj_pair)
  show ?thesis
    using assms unc unfolding acquire_account_def prod.case Let_def av
    by (auto simp: split_def uncertain_def decision_def split: sum.splits if_splits option.splits)
qed

lemma account_reserve_leases:
  assumes "account_reserve R cal i ok dl ((m, a), task) = (((m1, a1), task1), Inr v)"
  shows "\<not> reservation_allowed v \<Longrightarrow> task1 = task \<and> ac_limit_leases a1 = ac_limit_leases a"
    and "reservation_allowed v \<Longrightarrow> task1 = task @ [lease_id_of i] \<and> (\<exists>l. ac_limit_leases a1 = dset (ac_limit_leases a) (lease_id_of i) l)"
proof -
  obtain m2 a2 res where acq: "acquire_account R cal i (m, a) = ((m2, a2), res)" by (metis surj_pair)
  have same: "ac_limit_leases a2 = ac_limit_leases a" using acquire_leases(1) [OF acq] by (simp add: same_leases_def)
  have lease: "lease_id l = lease_id_of i" "ld_allowed (lres_decision r)" if "res = Inr r" "lres_lease r = Some l" for r l
    using acquire_leases(2) [OF acq that] acquire_lease_allowed [of R cal i m a "(m2, a2)" r] acq that by auto
  note eq = assms [unfolded account_reserve_def acq prod.case Let_def]
  show "task1 = task \<and> ac_limit_leases a1 = ac_limit_leases a" if "\<not> reservation_allowed v"
    using eq that same lease(2) by (auto simp: reservation_allowed_def split_def split: sum.splits option.splits if_splits)
  show "task1 = task @ [lease_id_of i] \<and> (\<exists>l. ac_limit_leases a1 = dset (ac_limit_leases a) (lease_id_of i) l)" if "reservation_allowed v"
    using eq that same lease(1) by (auto simp: reservation_allowed_def split_def deny_def decision_def split: sum.splits option.splits if_splits)
qed

end
