(* ===== verification/Lub_AcquireProps.thy ===== *)
theory Lub_AcquireProps
  imports Lub_SelectProps
begin

text \<open>
  What the selection loop promises, and how a request for an account ends.
\<close>

section \<open>Leases along a selection\<close>

lemma lease_id_of_model [simp]: "lease_id_of (i\<lparr>ai_model := m\<rparr>) = lease_id_of i"
  by (simp add: lease_id_of_def)

lemma leases_of_slept [simp]: "leases_of (w\<lparr>rt_slept := z\<rparr>) = leases_of w"
  by (simp add: leases_of_def fun_eq_iff)

lemma note_pick_leases: "ac_limit_leases (ro_accounts (note_pick now c R) x) = ac_limit_leases (ro_accounts R x)"
  by (simp add: note_pick_def on_stats_def Let_def)

lemma try_reserve_leases:
  assumes "try_reserve R cal probe rd c w = (w1, Inr v)"
  shows "\<not> reservation_allowed v \<Longrightarrow> rt_task w1 = rt_task w \<and> leases_of w1 = leases_of w"
    and "reservation_allowed v \<Longrightarrow> rt_task w1 = rt_task w @ [lease_id_of (sr_in rd)]
      \<and> (\<exists>l. leases_of w1 = (leases_of w)(rc_account c := dset (leases_of w (rc_account c)) (lease_id_of (sr_in rd)) l))"
proof -
  let ?x = "rc_account c" and ?i = "(sr_in rd)\<lparr>ai_model := rc_model c\<rparr>" and ?a = "(ro_accounts (rt_router w) (rc_account c))\<lparr>ac_is_test := probe\<rparr>"
  obtain m a task res where acc: "account_reserve R cal ?i (sr_record_ok rd) (sr_deadline rd) ((rt_mgr w, ?a), rt_task w) = (((m, a), task), res)"
    by (metis surj_pair)
  from assms acc have res: "res = Inr v" "rt_task w1 = task" by (auto simp: try_reserve_def Let_def)
  note leases = account_reserve_leases [OF acc [unfolded res(1)]]
  have w1: "leases_of w1 = (leases_of w)(?x := ac_limit_leases a)"
    using assms acc res by (auto simp: try_reserve_def Let_def leases_of_def store_account_def note_pick_leases)
  show "rt_task w1 = rt_task w \<and> leases_of w1 = leases_of w" if "\<not> reservation_allowed v"
    using leases(1) [OF that] res(2) w1 by (auto simp: leases_of_def)
  show "rt_task w1 = rt_task w @ [lease_id_of (sr_in rd)]
      \<and> (\<exists>l. leases_of w1 = (leases_of w)(?x := dset (leases_of w ?x) (lease_id_of (sr_in rd)) l))" if "reservation_allowed v"
    using leases(2) [OF that] res(2) w1 by (auto simp: leases_of_def)
qed

definition same_holdings :: "'s routing \<Rightarrow> 's routing \<Rightarrow> bool" where
  "same_holdings w w1 \<longleftrightarrow> rt_task w1 = rt_task w \<and> leases_of w1 = leases_of w"

lemma same_holdings_trans: "same_holdings u v \<Longrightarrow> same_holdings v w \<Longrightarrow> same_holdings u w"
  by (simp add: same_holdings_def)

definition fresh_lease :: "'s routing \<Rightarrow> string \<Rightarrow> bool" where
  \<comment> \<open>an identifier no lease of the task or of an account has\<close>
  "fresh_lease w lid \<longleftrightarrow> lid \<notin> set (rt_task w) \<and> (\<forall>x. map_of (leases_of w x) lid = None)"

lemma fresh_same: "same_holdings w w1 \<Longrightarrow> fresh_lease w1 lid = fresh_lease w lid"
  by (simp add: same_holdings_def fresh_lease_def)

lemma delete_dset_fresh: "map_of xs k = None \<Longrightarrow> AList.delete k (dset xs k v) = xs"
  by (induction xs k v rule: dset.induct) (auto simp: delete_id image_iff split: if_splits)

lemma account_reserve_raises:
  assumes "account_reserve R cal i ok dl ((m, a), task) = (((m1, a1), task1), Inl e)"
    and "lease_id_of i \<notin> set task" "map_of (ac_limit_leases a) (lease_id_of i) = None"
  shows "task1 = task \<and> ac_limit_leases a1 = ac_limit_leases a"
proof -
  obtain m2 a2 res where acq: "acquire_account R cal i (m, a) = ((m2, a2), res)" by (metis surj_pair)
  have same: "ac_limit_leases a2 = ac_limit_leases a" using acquire_leases(1) [OF acq] by (simp add: same_leases_def)
  note eq = assms(1) [unfolded account_reserve_def acq prod.case Let_def]
  show ?thesis
  proof (cases res)
    case (Inr r)
    with eq obtain l where l: "lres_lease r = Some l" by (auto split: option.splits)
    have id: "lease_id l = lease_id_of i" "lease_id_of i \<noteq> []" using acquire_leases(2) [OF acq Inr l] by (simp_all add: lease_id_of_def)
    have "filter (\<lambda>x. x \<noteq> lease_id_of i) task = task" using assms(2) by (induction task) auto
    then show ?thesis
      using eq same assms(3) id
      by (auto simp: Inr l split_def detach_account_lease_locked_def opt_str_def delete_dset_fresh split: if_splits option.splits)
  qed (use eq same in auto)
qed

lemma try_reserve_raises:
  assumes "try_reserve R cal probe rd c w = (w1, Inl e)" "fresh_lease w (lease_id_of (sr_in rd))"
  shows "same_holdings w w1"
proof -
  let ?x = "rc_account c" and ?i = "(sr_in rd)\<lparr>ai_model := rc_model c\<rparr>" and ?a = "(ro_accounts (rt_router w) (rc_account c))\<lparr>ac_is_test := probe\<rparr>"
  obtain m a task res where acc: "account_reserve R cal ?i (sr_record_ok rd) (sr_deadline rd) ((rt_mgr w, ?a), rt_task w) = (((m, a), task), res)"
    by (metis surj_pair)
  from assms(1) acc have res: "res = Inl e" "rt_task w1 = task" "leases_of w1 = (leases_of w)(?x := ac_limit_leases a)"
    by (auto simp: try_reserve_def Let_def leases_of_def store_account_def)
  from account_reserve_raises [OF acc [unfolded res(1)]] assms(2) have "task = rt_task w" "ac_limit_leases a = leases_of w ?x"
    by (simp_all add: fresh_lease_def leases_of_def)
  with res show ?thesis by (simp add: same_holdings_def fun_upd_triv)
qed

lemma loop_raises:
  assumes "select_loop R cal E sel n k cs s = (s', Inl e)" "\<forall>j. fresh_lease (sl_world s) (lease_id_of (sr_in (se_rounds E j)))"
  shows "same_holdings (sl_world s) (sl_world s')"
  using assms
proof (induction n arbitrary: k cs s)
  case (Suc n)
  let ?rd = "se_rounds E k"
  obtain cs1 pick where sel: "sel ?rd (rt_router (sl_world s)) cs = (cs1, pick)" by fastforce
  from Suc.prems(1) sel obtain c w r where c: "try_reserve R cal (se_probe E) ?rd c (sl_world s) = (w, r)"
      and out: "(case r of Inl e \<Rightarrow> (s\<lparr>sl_world := w\<rparr>, Inl e)
        | Inr v \<Rightarrow> if reservation_allowed v then (s\<lparr>sl_world := w\<rparr>, Inr (Some c))
            else (let why = refusal_reason v; w1 = (if se_probe E then w else w\<lparr>rt_slept := rt_slept w @ [selection_backoff_ms k]\<rparr>)
                  in select_loop R cal E sel n (Suc k) (filter (still_open (rt_router w1) why c) cs1)
                       \<lparr>sl_world = w1, sl_reasons = bump why 1 (sl_reasons s)\<rparr>)) = (s', Inl e)"
    by (auto simp: Let_def split: if_splits option.splits prod.splits)
  show ?case
  proof (cases r)
    case (Inl x)
    then show ?thesis using out try_reserve_raises [OF c [unfolded Inl]] Suc.prems(2) by auto
  next
    case (Inr v)
    let ?w1 = "if se_probe E then w else w\<lparr>rt_slept := rt_slept w @ [selection_backoff_ms k]\<rparr>"
    have na: "\<not> reservation_allowed v" using out Inr by (auto split: if_splits)
    have same: "same_holdings (sl_world s) ?w1" using try_reserve_leases(1) [OF c [unfolded Inr] na] by (simp add: same_holdings_def)
    have "same_holdings ?w1 (sl_world s')"
      using Suc.IH [of "Suc k" _ "\<lparr>sl_world = ?w1, sl_reasons = bump (refusal_reason v) 1 (sl_reasons s)\<rparr>"] out Inr na Suc.prems(2) fresh_same [OF same]
      by (auto simp: Let_def)
    with same show ?thesis by (rule same_holdings_trans)
  qed
qed simp

lemma refusals_leases:
  assumes "refusals R cal E sel x ls y"
  shows "rt_task (sl_world (snd (snd y))) = rt_task (sl_world (snd (snd x))) \<and> leases_of (sl_world (snd (snd y))) = leases_of (sl_world (snd (snd x)))"
  using assms
proof (induction rule: refusals.induct)
  case (more x l y ls z)
  from more(1) have "rt_task (sl_world (snd (snd y))) = rt_task (sl_world (snd (snd x))) \<and> leases_of (sl_world (snd (snd y))) = leases_of (sl_world (snd (snd x)))"
  proof (cases rule: refused_round.cases)
    case (refused remaining k s c w v w1)
    from try_reserve_leases(1) [OF refused(7,8)] show ?thesis
      using refused(1,3,9) by auto
  qed
  with more.IH show ?case by simp
qed simp

context chooser
begin

lemma refusals_keep:
  assumes "rounds_ok E" "refusals R cal E sel x ls y"
  shows "set (map rc_ident (fst (snd y))) \<subseteq> set (map rc_ident (fst (snd x)))"
  using assms(2)
proof (induction rule: refusals.induct)
  case (more x l y ls z)
  from more(1) have "set (map rc_ident (fst (snd y))) \<subseteq> set (map rc_ident (fst (snd x)))"
  proof (cases rule: refused_round.cases)
    case (refused remaining k s c w v w1)
    have "set (map rc_ident remaining) = set (map rc_ident (fst (sel (se_rounds E k) (rt_router (sl_world s)) remaining)))"
      using assms(1) sel_keeps by (simp add: rounds_ok_def)
    then show ?thesis using refused(1,3) by auto
  qed
  with more.IH show ?case by blast
qed simp

lemma leases_after:
  assumes "rounds_ok E" "length cs \<le> n" "select_loop R cal E sel n k cs s = (s', Inr r)"
  shows "case r of
      None \<Rightarrow> rt_task (sl_world s') = rt_task (sl_world s) \<and> leases_of (sl_world s') = leases_of (sl_world s)
    | Some c \<Rightarrow> rc_ident c \<in> rc_ident ` set cs
        \<and> (\<exists>j l. rt_task (sl_world s') = rt_task (sl_world s) @ [lease_id_of (sr_in (se_rounds E j))]
             \<and> leases_of (sl_world s') = (leases_of (sl_world s))(rc_account c := dset (leases_of (sl_world s) (rc_account c)) (lease_id_of (sr_in (se_rounds E j))) l))"
proof -
  from loop_outcome [OF assms] obtain ls k1 cs1 s1 where run: "refusals R cal E sel (k, cs, s) ls (k1, cs1, s1)"
    and out: "case r of
       Some c \<Rightarrow> \<exists>w v. cs1 \<noteq> [] \<and> chosen E (sel (se_rounds E k1) (rt_router (sl_world s1)) cs1) = Some c
          \<and> try_reserve R cal (se_probe E) (se_rounds E k1) c (sl_world s1) = (w, Inr v) \<and> reservation_allowed v \<and> s' = s1\<lparr>sl_world := w\<rparr>
     | None \<Rightarrow> sl_world s' = sl_world s1"
    by (cases r) fastforce+
  note same = refusals_leases [OF run, simplified]
  show ?thesis
  proof (cases r)
    case None
    with out same show ?thesis by simp
  next
    case (Some c)
    with out obtain w v where c: "cs1 \<noteq> []" "chosen E (sel (se_rounds E k1) (rt_router (sl_world s1)) cs1) = Some c"
      "try_reserve R cal (se_probe E) (se_rounds E k1) c (sl_world s1) = (w, Inr v)" "reservation_allowed v" "s' = s1\<lparr>sl_world := w\<rparr>" by auto
    have "c \<in> set (fst (sel (se_rounds E k1) (rt_router (sl_world s1)) cs1))" using chosen_member [OF assms(1) c(1,2)] .
    then have "rc_ident c \<in> set (map rc_ident cs1)" using assms(1) sel_keeps by (metis image_eqI rounds_ok_def set_map)
    then have "rc_ident c \<in> rc_ident ` set cs" using refusals_keep [OF assms(1) run] by auto
    moreover note try_reserve_leases(2) [OF c(3,4)]
    ultimately show ?thesis using Some c(5) same by auto
  qed
qed

end

section \<open>The selection loop\<close>

definition selection_env :: "bool \<Rightarrow> time \<Rightarrow> (nat \<Rightarrow> select_round) \<Rightarrow> select_env" where
  \<comment> \<open>the environment \<open>select_and_reserve_candidates\<close> sets up\<close>
  "selection_env probe start rounds = \<lparr>se_probe = probe, se_deadline = (if probe then None else Some (start + SELECTION_DEADLINE_MS / 1000)), se_rounds = rounds\<rparr>"

lemma selection_env_sel [simp]: "se_rounds (selection_env probe start rounds) = rounds" "se_probe (selection_env probe start rounds) = probe"
  by (simp_all add: selection_env_def)

lemma rounds_ok_env: "\<forall>k. dice_ok (sr_dice (rounds k)) \<Longrightarrow> rounds_ok (selection_env probe start rounds)"
  by (simp add: rounds_ok_def)

lemma select_and_reserve_loop:
  "select_and_reserve_candidates R cal probe start rounds sel cs s = select_loop R cal (selection_env probe start rounds) sel (length cs) 0 cs s"
  by (simp add: select_and_reserve_candidates_def selection_env_def)

lemma refusals_covered:
  assumes "rounds_ok E" "refusals R cal E (strategy_method name) (k, cs, s) ls (k1, [], s1)" "c \<in> set cs"
  shows "\<exists>l \<in> set ls. covers l (rc_ident c)"
  using chooser.refusals_cover [OF strategies_choose assms(1,2)] assms(3) by auto

text \<open>
  C13. The search gives up only with a reason. If a selection ends without a reservation, then after
  some rounds of genuine refusals either the deadline of three seconds had passed, or the strategy declined
  every remaining candidate, or every candidate is covered by a refusal of its own account (and, for a
  freeze of one model, of its own model).
\<close>

theorem gives_up_only_with_reason:
  assumes "\<forall>k. dice_ok (sr_dice (rounds k))"
    and "select_and_reserve_candidates R cal probe start rounds (strategy_method name) cs s = (s', Inr None)"
  shows "\<exists>ls k1 cs1 s1. refusals R cal (selection_env probe start rounds) (strategy_method name) (0, cs, s) ls (k1, cs1, s1)
    \<and> (cs1 \<noteq> [] \<and> late (selection_env probe start rounds) k1
       \<or> cs1 \<noteq> [] \<and> chosen (selection_env probe start rounds) (strategy_method name (rounds k1) (rt_router (sl_world s1)) cs1) = None
       \<or> (\<forall>c \<in> set cs. \<exists>l \<in> set ls. covers l (rc_ident c)))"
proof -
  note ok = rounds_ok_env [OF assms(1)]
  from chooser.loop_outcome [OF strategies_choose ok order_refl assms(2) [unfolded select_and_reserve_loop]]
  obtain ls k1 cs1 s1 where run: "refusals R cal (selection_env probe start rounds) (strategy_method name) (0, cs, s) ls (k1, cs1, s1)"
    and out: "cs1 = [] \<or> cs1 \<noteq> [] \<and> late (selection_env probe start rounds) k1
       \<or> cs1 \<noteq> [] \<and> chosen (selection_env probe start rounds) (strategy_method name (rounds k1) (rt_router (sl_world s1)) cs1) = None"
    by auto
  then show ?thesis using refusals_covered [OF ok] by blast
qed

text \<open>
  C15. The number of rounds a selection allows itself, one per candidate, is never what ends it: with any
  larger bound it runs the same way. So the defensive branch that reports an exhausted selection is
  unreachable with the strategies of the source.
\<close>

theorem attempt_bound_redundant:
  assumes "\<forall>k. dice_ok (sr_dice (rounds k))"
  shows "select_loop R cal (selection_env probe start rounds) (strategy_method name) (length cs + extra) 0 cs s
    = select_and_reserve_candidates R cal probe start rounds (strategy_method name) cs s"
  unfolding select_and_reserve_loop by (rule chooser.bound_not_reached [OF strategies_choose rounds_ok_env [OF assms] order_refl, symmetric])

text \<open>
  C14. A selection holds exactly what it returns. Without a reservation, the task's lease stack and the
  leases of every account are as before, however many candidates were tried; with one, the stack has one
  more lease and it is held by the account of the candidate that is returned, which is one of the candidates.
\<close>

theorem selection_holds_one_lease:
  assumes "\<forall>k. dice_ok (sr_dice (rounds k))"
    and "select_and_reserve_candidates R cal probe start rounds (strategy_method name) cs s = (s', Inr r)"
  shows "case r of
      None \<Rightarrow> rt_task (sl_world s') = rt_task (sl_world s) \<and> leases_of (sl_world s') = leases_of (sl_world s)
    | Some c \<Rightarrow> rc_ident c \<in> rc_ident ` set cs
        \<and> (\<exists>j l. rt_task (sl_world s') = rt_task (sl_world s) @ [lease_id_of (sr_in (rounds j))]
             \<and> leases_of (sl_world s') = (leases_of (sl_world s))(rc_account c := dset (leases_of (sl_world s) (rc_account c)) (lease_id_of (sr_in (rounds j))) l))"
  using chooser.leases_after [OF strategies_choose rounds_ok_env [OF assms(1)] order_refl assms(2) [unfolded select_and_reserve_loop]] by (cases r) simp_all

lemma order_le_laws: "order_le R x y \<or> order_le R y x" "order_le R x y \<Longrightarrow> order_le R y z \<Longrightarrow> order_le R x z"
  by (auto simp: order_le_def lex_le_def)

text \<open>
  The sequential strategy avoids the provider used last: it returns a candidate of that provider only if
  there is no other; among the candidates that are left it returns one with the smallest priority number, and among
  those the largest weight.
\<close>

theorem sequential_picks_least:
  assumes "select_sequential d now R cs = Some c"
  shows "let last_used = (\<lambda>e. rc_provider e \<noteq> [] \<and> Some (rc_provider e) = last_used_provider now R)
    in c \<in> set cs \<and> (last_used c \<longrightarrow> (\<forall>e \<in> set cs. last_used e))
     \<and> (\<forall>e \<in> set cs. last_used e = last_used c \<longrightarrow>
         priority (account_of R (rc_account c)) < priority (account_of R (rc_account e))
         \<or> priority (account_of R (rc_account c)) = priority (account_of R (rc_account e))
           \<and> weight (account_of R (rc_account e)) \<le> weight (account_of R (rc_account c)))"
proof -
  let ?last = "\<lambda>e. rc_provider e \<noteq> [] \<and> Some (rc_provider e) = last_used_provider now R" and ?xs = "avoid_last_provider now R cs"
  have c: "first_least (order_le R) ?xs = Some c" using assms by (simp add: select_sequential_def)
  have mem: "c \<in> set ?xs" using first_least_member [OF c] .
  have least: "order_le R c e" if "e \<in> set ?xs" for e using first_least_least [OF order_le_laws c that] .
  have xs: "set ?xs = (if \<forall>e \<in> set cs. ?last e then set cs else {e \<in> set cs. \<not> ?last e})"
    by (auto simp: avoid_last_provider_def Let_def opt_str_def filter_empty_conv split: option.splits if_splits)
  then have "c \<in> set cs" "?last c \<longrightarrow> (\<forall>e \<in> set cs. ?last e)" using mem by (auto split: if_splits)
  moreover have "order_le R c e" if "e \<in> set cs" "?last e = ?last c" for e
    using least [of e] that xs mem by (auto split: if_splits)
  moreover have "order_le R c e \<Longrightarrow> priority (account_of R (rc_account c)) < priority (account_of R (rc_account e))
       \<or> priority (account_of R (rc_account c)) = priority (account_of R (rc_account e))
         \<and> weight (account_of R (rc_account e)) \<le> weight (account_of R (rc_account c))" for e
    by (force simp: order_le_def lex_le_def pick_order_def)
  ultimately show ?thesis unfolding Let_def by blast
qed

section \<open>How a request ends\<close>

definition one_lease_more :: "'s routing \<Rightarrow> nat \<Rightarrow> 's routing \<Rightarrow> bool" where
  "one_lease_more w x w1 \<longleftrightarrow> (\<exists>lid l. rt_task w1 = rt_task w @ [lid] \<and> leases_of w1 = (leases_of w)(x := dset (leases_of w x) lid l))"

lemma same_then_more: "same_holdings u v \<Longrightarrow> one_lease_more v x w \<Longrightarrow> one_lease_more u x w"
  by (auto simp: same_holdings_def one_lease_more_def)

lemma prefer_protocol_laws: "set (prefer_same_protocol p cs) \<subseteq> set cs" "prefer_same_protocol p cs = [] \<longleftrightarrow> cs = []"
  by (auto simp: prefer_same_protocol_def Let_def)

lemma affinity_fold_subset: "set (snd (fold (affinity_step now R) cs acc)) \<subseteq> set (snd acc) \<union> set cs"
proof (induction cs arbitrary: acc)
  case (Cons c cs)
  have "set (snd (affinity_step now R c acc)) \<subseteq> insert c (set (snd acc))"
    by (auto simp: affinity_step_def split: option.splits)
  with Cons [of "affinity_step now R c acc"] show ?case by auto
qed simp

lemma prefer_upstream_laws: "set (prefer_same_upstream_model now R st cs) \<subseteq> set cs" "prefer_same_upstream_model now R st cs = [] \<longleftrightarrow> cs = []"
  using affinity_fold_subset [of now R cs "(0, [])"] by (auto simp: prefer_same_upstream_model_def Let_def)

definition env_ok :: "'s acquire_env \<Rightarrow> bool" where
  "env_ok E \<longleftrightarrow> dice_ok (ae_dice E) \<and> (\<forall>k j. dice_ok (sr_dice (ph_rounds (ae_phases E k) j)))"

lemma set_volume_dice [simp]: "sr_dice (set_volume v rd) = sr_dice rd" "sr_in (set_volume v rd) = sr_in rd"
  by (simp_all add: set_volume_def)

definition fresh_ids :: "'s acquire_env \<Rightarrow> 's routing \<Rightarrow> bool" where
  \<comment> \<open>the identifiers the request draws are new\<close>
  "fresh_ids E w \<longleftrightarrow> (\<forall>k j. fresh_lease w (lease_id_of (sr_in (ph_rounds (ae_phases E k) j))))"

lemma fresh_ids_same: "same_holdings w w1 \<Longrightarrow> fresh_ids E w1 = fresh_ids E w"
  by (simp add: fresh_ids_def fresh_same)

lemma prepare_raises:
  assumes "fresh_ids E (sl_world s)" "prepare_and_reserve E (ae_phases E k) aq st sel cs s = (s', Inl e)"
  shows "same_holdings (sl_world s) (sl_world s')"
  using assms loop_raises
  by (fastforce simp: prepare_and_reserve_def select_and_reserve_candidates_def Let_def fresh_ids_def split: if_splits)

context chooser
begin

lemma prepare_outcome:
  assumes "\<forall>j. dice_ok (sr_dice (ph_rounds ph j))" "prepare_and_reserve E ph aq st sel cs s = (s', Inr r)"
  shows "case r of None \<Rightarrow> same_holdings (sl_world s) (sl_world s')
    | Some c \<Rightarrow> one_lease_more (sl_world s) (rc_account c) (sl_world s') \<and> rc_ident c \<in> rc_ident ` set cs"
proof (cases "cs = []")
  case True
  with assms(2) show ?thesis by (auto simp: prepare_and_reserve_def same_holdings_def)
next
  case False
  let ?cs = "prefer_same_upstream_model (ph_now ph) (rt_router (sl_world s)) st (prefer_same_protocol (rq_protocol (aq_spec aq)) cs)"
  let ?rounds = "set_volume (if st = ''intelligent'' \<or> st = ''fast_intelligent'' then aq_volume aq else 0) \<circ> ph_rounds ph"
    and ?probe = "rq_is_test (aq_spec aq) \<or> rq_is_probe (aq_spec aq)"
  have rounds: "\<forall>j. dice_ok (sr_dice (?rounds j))" using assms(1) by simp
  have run: "select_loop (ae_redis E) (ae_calendar E) (selection_env ?probe (ph_start ph) ?rounds) sel (length ?cs) 0 ?cs s = (s', Inr r)"
    using assms(2) False by (simp add: prepare_and_reserve_def select_and_reserve_loop Let_def)
  have "set ?cs \<subseteq> set cs" using prefer_upstream_laws(1) prefer_protocol_laws(1) by blast
  with leases_after [OF rounds_ok_env [OF rounds] order_refl run] show ?thesis
    by (auto simp: same_holdings_def one_lease_more_def split: option.splits)
qed

end

definition outcome_ok :: "'s routing \<Rightarrow> 's search \<times> (pyerror + route_candidate) option \<Rightarrow> bool" where
  "outcome_ok w r = (case r of
      (sh, None) \<Rightarrow> same_holdings w (sl_world (sh_sel sh))
    | (sh, Some (Inr c)) \<Rightarrow> one_lease_more w (rc_account c) (sl_world (sh_sel sh))
    | (sh, Some (Inl e)) \<Rightarrow> same_holdings w (sl_world (sh_sel sh)))"

lemma reserve_outcome:
  assumes "env_ok E" "fresh_ids E w" "chooser sel" "same_holdings w (sl_world s)"
    and "prepare_and_reserve E (ae_phases E k) aq st sel cs s = (s2, res)"
  shows "case res of Inl e \<Rightarrow> same_holdings w (sl_world s2) | Inr None \<Rightarrow> same_holdings w (sl_world s2)
    | Inr (Some c) \<Rightarrow> one_lease_more w (rc_account c) (sl_world s2)"
proof (cases res)
  case (Inl e)
  have "fresh_ids E (sl_world s)" using fresh_ids_same [OF assms(4), of E] assms(2) by simp
  from same_holdings_trans [OF assms(4) prepare_raises [OF this assms(5) [unfolded Inl]]] show ?thesis using Inl by simp
next
  case (Inr r)
  then show ?thesis using chooser.prepare_outcome [OF assms(3) _ assms(5) [unfolded Inr]] assms(1,4) same_holdings_trans same_then_more
    by (auto simp: env_ok_def split: option.splits)
qed

lemma phase_outcome:
  assumes "env_ok E" "fresh_ids E w" "chooser sel" "same_holdings w (sl_world (sh_sel sh))"
  shows "outcome_ok w (phase_attempt E aq pl (k, q, models, sel) sh)"
proof -
  let ?found = "scan (ae_phases E k) q models (sh_sel sh)"
  let ?s = "(sh_sel sh)\<lparr>sl_reasons := merge_reasons (sc_reasons ?found) (sl_reasons (sh_sel sh))\<rparr>"
  obtain s2 res where pr: "prepare_and_reserve E (ae_phases E k) aq (pl_strategy pl) sel (sc_candidates ?found) ?s = (s2, res)" by (metis surj_pair)
  show ?thesis
    using assms(4) reserve_outcome [OF assms(1-3) _ pr] by (auto simp: phase_attempt_def Let_def pr outcome_ok_def split: sum.splits option.splits)
qed

lemma phases_outcome:
  assumes "env_ok E" "fresh_ids E w" "\<forall>i \<in> set items. chooser (snd (snd (snd i)))" "same_holdings w (sl_world (sh_sel sh))"
  shows "outcome_ok w (run_rounds (phase_attempt E aq pl) items sh)"
  using assms(3,4)
proof (induction items arbitrary: sh)
  case (Cons i items)
  obtain k q models sel where i: "i = (k, q, models, sel)" by (metis surj_pair)
  with Cons.prems have step: "outcome_ok w (phase_attempt E aq pl i sh)" using phase_outcome [OF assms(1,2)] by simp
  obtain sh1 r where st: "phase_attempt E aq pl i sh = (sh1, r)" by (metis surj_pair)
  with step Cons show ?case by (cases r) (auto simp: outcome_ok_def)
qed (simp add: outcome_ok_def)

definition ends_well :: "'s routing \<Rightarrow> 's selecting \<times> acquired \<Rightarrow> bool" where
  "ends_well w r = (case r of
      (s, Acquired c) \<Rightarrow> one_lease_more w (rc_account c) (sl_world s)
    | (s, _) \<Rightarrow> same_holdings w (sl_world s))"

lemma finish_ends_well:
  assumes "outcome_ok w r" "\<And>sh. \<exists>n rs. otherwise sh = NoneAvailable n rs"
  shows "ends_well w (finish_with r otherwise)"
proof -
  obtain sh x where r: "r = (sh, x)" by (metis surj_pair)
  from assms(2) [of sh] obtain n rs where "otherwise sh = NoneAvailable n rs" by blast
  with assms(1) r show ?thesis by (auto simp: outcome_ok_def ends_well_def finish_with_def split: option.splits sum.splits)
qed

lemma fails_shape: "\<exists>n rs. fails q r lead code detail = NoneAvailable n rs"
  by (simp add: fails_def split: prod.split)

lemma no_candidate_shape: "\<exists>n rs. no_candidate pl r limited = NoneAvailable n rs"
  by (simp add: no_candidate_def fails_shape)

lemma make_plan_chooser: "chooser (pl_select (make_plan R aq))"
  by (simp add: make_plan_def Let_def strategies_choose largest_context.chooser_axioms)

lemma group_ends_well:
  assumes "env_ok E" "fresh_ids E w" "chooser (pl_select pl)" "same_holdings w (sl_world (sh_sel sh))"
  shows "ends_well w (acquire_group E aq pl sh)"
proof -
  let ?found = "scan_members (ae_phases E 0) (filtered_spec (pl_spec pl) (pl_filter pl) []) (pl_models pl) (sh_sel sh)"
  let ?s = "(sh_sel sh)\<lparr>sl_reasons := merge_reasons (sc_reasons ?found) (sl_reasons (sh_sel sh))\<rparr>"
  obtain s2 res where pr: "prepare_and_reserve E (ae_phases E 0) aq (pl_strategy pl) (pl_select pl) (sc_candidates ?found) ?s = (s2, res)" by (metis surj_pair)
  obtain n1 r1 where n1: "no_candidate pl (sl_reasons ?s) (sc_limited ?found) = NoneAvailable n1 r1" using no_candidate_shape by blast
  obtain n2 r2 where n2: "fails (pl_spec pl) (sl_reasons s2) None None None = NoneAvailable n2 r2" using fails_shape by blast
  show ?thesis
    using assms(4) reserve_outcome [OF assms(1-3) _ pr] n1 n2
    by (auto simp: acquire_group_def Let_def pr ends_well_def split: sum.splits option.splits)
qed

text \<open>
  C10. Asking for an account never leaks a reservation. Over all phases (the entries of a dedicated route,
  the members of a group, the backup schemes of a model) a request that gets an account holds exactly one more
  lease, on that account; one that gets none, whether it is told so or an exception ends it, holds exactly what it
  held before. (The identifiers of its reservations are new.)
\<close>

theorem acquire_never_leaks:
  assumes "env_ok E" "fresh_ids E w"
  shows "case get_available_client_with_provider E aq w of
      (s, Acquired c) \<Rightarrow> one_lease_more w (rc_account c) (sl_world s)
    | (s, _) \<Rightarrow> same_holdings w (sl_world s)"
proof -
  let ?sh = "\<lparr>sh_sel = \<lparr>sl_world = w, sl_reasons = []\<rparr>, sh_limited = [], sh_saw = False\<rparr>" and ?pl = "make_plan (rt_router w) aq"
  have w: "same_holdings w (sl_world (sh_sel ?sh))" by (simp add: same_holdings_def)
  note phases = phases_outcome [OF assms(1,2) _ w]
  have "ends_well w (acquire_routed E aq ?pl es ?sh)" for es
    unfolding acquire_routed_def by (intro finish_ends_well phases fails_shape) (auto simp: make_plan_chooser)
  moreover have "ends_well w (acquire_model_random E aq ?pl ?sh)"
    unfolding acquire_model_random_def by (intro finish_ends_well phases fails_shape) (auto simp: channel_random.chooser_axioms)
  moreover have "ends_well w (acquire_plain E aq ?pl ?sh)"
    unfolding acquire_plain_def Let_def
    by (intro finish_ends_well phases) (auto simp: make_plan_chooser fails_shape no_candidate_shape)
  moreover note group_ends_well [OF assms(1,2) make_plan_chooser w]
  ultimately have "ends_well w (get_available_client_with_provider E aq w)"
    using w by (simp add: get_available_client_with_provider_def Let_def ends_well_def)
  then show ?thesis
    by (cases "get_available_client_with_provider E aq w") (auto simp: ends_well_def split: acquired.splits)
qed

section \<open>Requests that get no account\<close>

definition item_scan :: "'s acquire_env \<Rightarrow> nat \<times> request_spec \<times> string list \<times> strategy \<Rightarrow> 's selecting \<Rightarrow> scan_result" where
  "item_scan E i s = (case i of (k, q, models, sel) \<Rightarrow> scan (ae_phases E k) q models s)"

lemma run_without_candidates:
  assumes "\<forall>i \<in> set items. \<forall>s. sc_candidates (item_scan E i s) = []"
  shows "\<exists>sh'. run_rounds (phase_attempt E aq pl) items sh = (sh', None) \<and> sl_world (sh_sel sh') = sl_world (sh_sel sh) \<and> sh_saw sh' = sh_saw sh"
  using assms
proof (induction items arbitrary: sh)
  case (Cons i items)
  then have "sc_candidates (item_scan E i (sh_sel sh)) = []" by simp
  then obtain sh1 where st: "phase_attempt E aq pl i sh = (sh1, None)" "sl_world (sh_sel sh1) = sl_world (sh_sel sh)" "sh_saw sh1 = sh_saw sh"
    by (auto simp: phase_attempt_def item_scan_def Let_def split: prod.splits)
  from Cons.prems have "\<forall>i \<in> set items. \<forall>s. sc_candidates (item_scan E i s) = []" by simp
  from Cons.IH [OF this, of sh1] st show ?case by simp
qed simp

lemma route_without_accounts:
  assumes "aq_route aq = Some r" "r \<noteq> []" "candidate_models (rt_router w) aq \<noteq> []"
    and "\<forall>e \<in> set (route_entries (Some r)). re_accounts e = []"
  shows "\<exists>s n rs. get_available_client_with_provider E aq w = (s, NoneAvailable n rs) \<and> sl_world s = w"
proof -
  let ?sh = "\<lparr>sh_sel = \<lparr>sl_world = w, sl_reasons = []\<rparr>, sh_limited = [], sh_saw = False\<rparr>" and ?pl = "make_plan (rt_router w) aq"
  let ?items = "map (\<lambda>(k, e). (k, filtered_spec (pl_spec ?pl) (pl_filter ?pl) [e], pl_models ?pl, pl_select ?pl)) (enumerate 0 (route_entries (Some r)))"
  have "sc_candidates (item_scan E i s) = []" if item: "i \<in> set ?items" for i and s
  proof -
    from item obtain k e where e: "(k, e) \<in> set (enumerate 0 (route_entries (Some r)))"
      and i: "i = (k, filtered_spec (pl_spec ?pl) (pl_filter ?pl) [e], pl_models ?pl, pl_select ?pl)" by auto
    from e have "e \<in> set (route_entries (Some r))" by (auto simp: in_set_enumerate_eq)
    with assms(4) show ?thesis unfolding i item_scan_def scan_def prod.case by (intro entries_without_accounts) (auto simp: filtered_spec_def)
  qed
  then have "\<forall>i \<in> set ?items. \<forall>s. sc_candidates (item_scan E i s) = []" by blast
  from run_without_candidates [OF this, of aq ?pl ?sh] obtain sh where
    "run_rounds (phase_attempt E aq ?pl) ?items ?sh = (sh, None)" "sl_world (sh_sel sh) = w" by auto
  then show ?thesis
    using assms(1-3) fails_shape
    by (auto simp: get_available_client_with_provider_def Let_def acquire_routed_def finish_with_def)
qed

text \<open>
  C38. A dedicated route whose entries name no accounts, which is documented to allow all accounts of the
  provider, serves nothing: every request over it is told that no account is available, whatever accounts
  exist and whatever their state, and nothing is reserved.
\<close>

theorem open_route_serves_nothing:
  assumes "aq_route aq = Some r" "r \<noteq> []" "candidate_models (rt_router w) aq \<noteq> []"
    and "\<forall>e \<in> set (route_entries (Some r)). re_accounts e = []"
  shows "\<exists>s n rs. get_available_client_with_provider E aq w = (s, NoneAvailable n rs) \<and> sl_world s = w"
  using assms by (rule route_without_accounts)

lemma finish_none:
  assumes "\<exists>sh. r = (sh, None) \<and> sl_world (sh_sel sh) = w \<and> \<not> sh_saw sh" "\<And>sh. \<not> sh_saw sh \<Longrightarrow> \<exists>n rs. otherwise sh = NoneAvailable n rs"
  shows "\<exists>s n rs. finish_with r otherwise = (s, NoneAvailable n rs) \<and> sl_world s = w"
  using assms by (auto simp: finish_with_def)

lemma scan_nothing: "sc_candidates (scan ph q [] s) = []"
  by (simp add: scan_def collect_candidates_def)

text \<open>
  C39. If a model has compression models configured but none of them has a route any more, a compaction
  request for it always fails with no account available, even though the model itself can be served: the
  list of models is emptied before it is known that no compression model is left.
\<close>

theorem compression_without_routes_fails:
  assumes "env_ok E" "aq_compression aq \<noteq> []" "\<forall>m \<in> set (aq_compression aq). \<not> has_model_route (rt_router w) m"
    and "candidate_models (rt_router w) aq \<noteq> []"
  shows "\<exists>s n rs. get_available_client_with_provider E aq w = (s, NoneAvailable n rs) \<and> sl_world s = w"
proof -
  let ?sh = "\<lparr>sh_sel = \<lparr>sl_world = w, sl_reasons = []\<rparr>, sh_limited = [], sh_saw = False\<rparr>" and ?pl = "make_plan (rt_router w) aq"
  have empty: "pl_models ?pl = []" using assms(2,3) by (auto simp: make_plan_def Let_def filter_empty_conv)
  have shuffled: "di_shuffle (ae_dice E) [] = []" using assms(1) by (simp add: env_ok_def dice_ok_def) (metis mset_zero_iff)
  have none: "\<exists>sh. run_rounds (phase_attempt E aq ?pl) items ?sh = (sh, None) \<and> sl_world (sh_sel sh) = w \<and> \<not> sh_saw sh"
    if "\<forall>i \<in> set items. fst (snd (snd i)) = []" for items
    using run_without_candidates [of items E aq ?pl ?sh] that by (auto simp: item_scan_def scan_nothing split_def)
  have "\<exists>s n rs. acquire_routed E aq ?pl es ?sh = (s, NoneAvailable n rs) \<and> sl_world s = w" for es
    unfolding acquire_routed_def by (intro finish_none none fails_shape) (auto simp: empty)
  moreover have "\<exists>s n rs. acquire_model_random E aq ?pl ?sh = (s, NoneAvailable n rs) \<and> sl_world s = w"
    unfolding acquire_model_random_def by (intro finish_none none fails_shape) (auto simp: empty shuffled)
  moreover have "\<exists>s n rs. acquire_group E aq ?pl ?sh = (s, NoneAvailable n rs) \<and> sl_world s = w"
    using no_candidate_shape by (auto simp: acquire_group_def Let_def scan_members_def empty)
  moreover have "\<exists>s n rs. acquire_plain E aq ?pl ?sh = (s, NoneAvailable n rs) \<and> sl_world s = w"
    unfolding acquire_plain_def Let_def by (intro finish_none none) (auto simp: empty no_candidate_shape)
  ultimately show ?thesis
    using assms(4) by (simp add: get_available_client_with_provider_def Let_def)
qed

section \<open>Who is chosen\<close>

lemma scan_members_mem:
  assumes "c \<in> set (sc_candidates (scan_members ph q models s))"
  shows "\<exists>m \<in> set models. c \<in> set (sc_candidates (scan ph q [m] s))"
proof -
  have "set (sc_candidates (fold (\<lambda>m acc. let r = scan ph q [m] s in
       \<lparr>sc_candidates = sc_candidates acc @ sc_candidates r, sc_limited = sc_limited acc @ sc_limited r,
        sc_reasons = merge_reasons (sc_reasons r) (sc_reasons acc)\<rparr>) ms acc))
     \<subseteq> set (sc_candidates acc) \<union> (\<Union>m \<in> set ms. set (sc_candidates (scan ph q [m] s)))" for ms acc
    by (induction ms arbitrary: acc) (force simp: Let_def)+
  with assms show ?thesis unfolding scan_members_def by fastforce
qed

text \<open>
  The phases of a request, as the branches of \<open>get_available_client_with_provider\<close> go through them: one for each entry
  of a dedicated route, one for each member of a group under \<open>model_random\<close>, one for a whole group otherwise, and
  one for each filter node (the active scheme and the backup schemes) of a plain model.
\<close>

definition search_phases :: "'s acquire_env \<Rightarrow> acquire_request \<Rightarrow> 's routing \<Rightarrow> (nat \<times> request_spec \<times> string list \<times> strategy) list" where
  "search_phases E aq w =
     (let pl = make_plan (rt_router w) aq
      in if (case aq_route aq of Some r \<Rightarrow> r \<noteq> [] | None \<Rightarrow> False)
         then map (\<lambda>(k, e). (k, filtered_spec (pl_spec pl) (pl_filter pl) [e], pl_models pl, pl_select pl)) (enumerate 0 (route_entries (aq_route aq)))
         else if pl_group pl \<and> pl_strategy pl = ''model_random''
         then map (\<lambda>(k, m). (k, filtered_spec (pl_spec pl) (pl_filter pl) [], [m], unscored select_channel_random)) (enumerate 0 (di_shuffle (ae_dice E) (pl_models pl)))
         else if pl_group pl then [(0, filtered_spec (pl_spec pl) (pl_filter pl) [], pl_models pl, pl_select pl)]
         else map (\<lambda>(k, f). (k, filtered_spec (pl_spec pl) f [], pl_models pl, pl_select pl)) (enumerate 0 (pl_nodes pl)))"

definition search_start :: "'s routing \<Rightarrow> 's search" where
  "search_start w = \<lparr>sh_sel = \<lparr>sl_world = w, sl_reasons = []\<rparr>, sh_limited = [], sh_saw = False\<rparr>"

definition eligible_at :: "phase_env \<Rightarrow> request_spec \<Rightarrow> string list \<Rightarrow> 's routing \<Rightarrow> route_candidate \<Rightarrow> bool" where
  \<comment> \<open>eligible when the phase collects its candidates\<close>
  "eligible_at ph q models w c \<longleftrightarrow> rc_model c \<in> set models
     \<and> eligible (ph_now ph) (mg_model_cooldowns (rt_mgr w)) (rt_router w) q (rc_model c) (rc_provider c) (rc_account c)"

lemma scanned_eligible:
  assumes "\<not> rq_is_test q" "\<not> rq_is_probe q" "rc_ident c \<in> rc_ident ` set (sc_candidates (scan ph q models s))"
  shows "eligible_at ph q models (sl_world s) c"
proof -
  from assms(3) obtain e where "e \<in> set (sc_candidates (scan ph q models s))" "rc_ident c = rc_ident e" by auto
  then have "\<exists>e \<in> set (sc_candidates (scan ph q models s)). rc_model e = rc_model c \<and> rc_provider e = rc_provider c \<and> rc_account e = rc_account c"
    by (auto simp: rc_ident_def)
  then show ?thesis unfolding scan_def collected_eligible [OF assms(1,2)] by (auto simp: eligible_at_def)
qed

lemma run_found:
  "run_rounds f items s = (s', Some x) \<Longrightarrow> \<exists>pre i post s1. items = pre @ i # post \<and> run_rounds f pre s = (s1, None) \<and> f i s1 = (s', Some x)"
proof (induction items arbitrary: s)
  case (Cons i items)
  obtain s1 r where st: "f i s = (s1, r)" by (metis surj_pair)
  show ?case
  proof (cases r)
    case None
    with Cons st obtain pre j post s2 where "items = pre @ j # post" "run_rounds f pre s1 = (s2, None)" "f j s2 = (s', Some x)" by fastforce
    then have "i # items = (i # pre) @ j # post \<and> run_rounds f (i # pre) s = (s2, None) \<and> f j s2 = (s', Some x)" using st None by simp
    then show ?thesis by blast
  next
    case (Some y)
    then have "i # items = [] @ i # items \<and> run_rounds f [] s = (s, None) \<and> f i s = (s', Some x)" using Cons.prems st by simp
    then show ?thesis by blast
  qed
qed simp

lemma prepare_picks:
  assumes "env_ok E" "chooser sel" "prepare_and_reserve E (ae_phases E k) aq st sel cs s = (s', Inr (Some c))"
  shows "rc_ident c \<in> rc_ident ` set cs"
  using chooser.prepare_outcome [OF assms(2) _ assms(3)] assms(1) by (simp add: env_ok_def)

lemma phase_eligible:
  assumes "env_ok E" "chooser sel" "\<not> rq_is_test q" "\<not> rq_is_probe q" "phase_attempt E aq pl (k, q, models, sel) sh = (sh', Some (Inr c))"
  shows "eligible_at (ae_phases E k) q models (sl_world (sh_sel sh)) c"
proof (rule scanned_eligible [OF assms(3,4)])
  show "rc_ident c \<in> rc_ident ` set (sc_candidates (scan (ae_phases E k) q models (sh_sel sh)))"
    using prepare_picks [OF assms(1,2)] assms(5)
    by (auto simp: phase_attempt_def Let_def split: if_splits prod.splits sum.splits option.splits)
qed

lemma search_phases_ok:
  assumes "(k, q, models, sel) \<in> set (search_phases E aq w)" "\<not> rq_is_test (aq_spec aq)" "\<not> rq_is_probe (aq_spec aq)"
  shows "chooser sel \<and> \<not> rq_is_test q \<and> \<not> rq_is_probe q"
proof -
  have "\<not> rq_is_test (pl_spec (make_plan (rt_router w) aq)) \<and> \<not> rq_is_probe (pl_spec (make_plan (rt_router w) aq))"
    using assms(2,3) by (simp add: make_plan_def Let_def)
  with assms(1) show ?thesis
    by (auto simp: search_phases_def Let_def filtered_spec_def make_plan_chooser channel_random.chooser_axioms split: if_splits)
qed

definition picked_eligible :: "'s acquire_env \<Rightarrow> acquire_request \<Rightarrow> 's routing \<Rightarrow> route_candidate \<Rightarrow> bool" where
  \<comment> \<open>eligible for one phase of the request, in the state in which the phases before it have left things\<close>
  "picked_eligible E aq w c \<longleftrightarrow> (\<exists>pre k q models sel post sh.
     search_phases E aq w = pre @ (k, q, models, sel) # post
     \<and> run_rounds (phase_attempt E aq (make_plan (rt_router w) aq)) pre (search_start w) = (sh, None)
     \<and> eligible_at (ae_phases E k) q models (sl_world (sh_sel sh)) c)"

lemma run_picks:
  assumes "env_ok E" "\<not> rq_is_test (aq_spec aq)" "\<not> rq_is_probe (aq_spec aq)"
    and "run_rounds (phase_attempt E aq (make_plan (rt_router w) aq)) (search_phases E aq w) (search_start w) = (sh, Some (Inr c))"
  shows "picked_eligible E aq w c"
proof -
  from run_found [OF assms(4)] obtain pre k q models sel post sh1 where
    "search_phases E aq w = pre @ (k, q, models, sel) # post"
    "run_rounds (phase_attempt E aq (make_plan (rt_router w) aq)) pre (search_start w) = (sh1, None)"
    "phase_attempt E aq (make_plan (rt_router w) aq) (k, q, models, sel) sh1 = (sh, Some (Inr c))" by (metis surj_pair)
  moreover from this(1) have "chooser sel \<and> \<not> rq_is_test q \<and> \<not> rq_is_probe q" using search_phases_ok [OF _ assms(2,3), of k q models sel E w] by simp
  ultimately show ?thesis using phase_eligible [OF assms(1)] unfolding picked_eligible_def by blast
qed

lemma group_picks:
  assumes "env_ok E" "\<not> rq_is_test (aq_spec aq)" "\<not> rq_is_probe (aq_spec aq)"
    and "search_phases E aq w = [(0, filtered_spec (pl_spec pl) (pl_filter pl) [], pl_models pl, pl_select pl)]" "chooser (pl_select pl)"
    and "acquire_group E aq pl (search_start w) = (s, Acquired c)"
  shows "picked_eligible E aq w c"
proof -
  let ?q = "filtered_spec (pl_spec pl) (pl_filter pl) []" and ?ph = "ae_phases E 0" and ?s0 = "\<lparr>sl_world = w, sl_reasons = []\<rparr>"
  have "rc_ident c \<in> rc_ident ` set (sc_candidates (scan_members ?ph ?q (pl_models pl) ?s0))"
    using assms(6) prepare_picks [OF assms(1,5)] fails_shape no_candidate_shape
    by (auto simp: acquire_group_def search_start_def Let_def fails_def no_candidate_def split: prod.splits sum.splits option.splits if_splits)
  then obtain m where m: "m \<in> set (pl_models pl)" "rc_ident c \<in> rc_ident ` set (sc_candidates (scan ?ph ?q [m] ?s0))"
    using scan_members_mem by blast
  have "\<not> rq_is_test ?q \<and> \<not> rq_is_probe ?q" using search_phases_ok [OF _ assms(2,3), of 0 ?q "pl_models pl" "pl_select pl" E w] assms(4) by simp
  with scanned_eligible m have "eligible_at ?ph ?q [m] w c" by fastforce
  then have "eligible_at ?ph ?q (pl_models pl) w c" using m(1) by (auto simp: eligible_at_def)
  then have "search_phases E aq w = [] @ (0, ?q, pl_models pl, pl_select pl) # []
     \<and> run_rounds (phase_attempt E aq (make_plan (rt_router w) aq)) [] (search_start w) = (search_start w, None)
     \<and> eligible_at (ae_phases E 0) ?q (pl_models pl) (sl_world (sh_sel (search_start w))) c"
    using assms(4) by (simp add: search_start_def)
  then show ?thesis unfolding picked_eligible_def by blast
qed

text \<open>
  C11. End to end: when a client's request (neither a test nor a probe) gets an account, over a dedicated route, as a
  group, for a compaction or along backup schemes, that account was eligible for the phase that found it, in the state
  the phases before it had left: enabled channel, tags of group and key, entry of the route, window, modalities,
  routable state, model not frozen, not excluded by earlier attempts.
\<close>

theorem acquired_is_eligible:
  assumes "env_ok E" "\<not> rq_is_test (aq_spec aq)" "\<not> rq_is_probe (aq_spec aq)"
    and "get_available_client_with_provider E aq w = (s, Acquired c)"
  shows "picked_eligible E aq w c"
proof -
  let ?pl = "make_plan (rt_router w) aq" and ?run = "\<lambda>items. run_rounds (phase_attempt E aq (make_plan (rt_router w) aq)) items (search_start w)"
  have found: "\<exists>sh. ?run items = (sh, Some (Inr c))" if "finish_with (?run items) otherwise = (s, Acquired c)"
      "\<And>sh. \<exists>n rs. otherwise sh = NoneAvailable n rs" for items otherwise
    using that(1) that(2) [of "fst (?run items)"] by (auto simp: finish_with_def split: prod.splits option.splits sum.splits)
  note picks = run_picks [OF assms(1-3), of w _ c]
  note eq = assms(4) [unfolded get_available_client_with_provider_def Let_def search_start_def [symmetric]]
  consider (routed) "case aq_route aq of Some r \<Rightarrow> r \<noteq> [] | None \<Rightarrow> False"
    | (random) "\<not> (case aq_route aq of Some r \<Rightarrow> r \<noteq> [] | None \<Rightarrow> False)" "pl_group ?pl" "pl_strategy ?pl = ''model_random''"
    | (group) "\<not> (case aq_route aq of Some r \<Rightarrow> r \<noteq> [] | None \<Rightarrow> False)" "pl_group ?pl" "pl_strategy ?pl \<noteq> ''model_random''"
    | (plain) "\<not> (case aq_route aq of Some r \<Rightarrow> r \<noteq> [] | None \<Rightarrow> False)" "\<not> pl_group ?pl" by blast
  then show ?thesis
  proof cases
    case routed
    then have "acquire_routed E aq ?pl (route_entries (aq_route aq)) (search_start w) = (s, Acquired c)" using eq by (simp split: if_splits)
    note found [OF this [unfolded acquire_routed_def] fails_shape]
    then show ?thesis using picks routed by (auto simp: search_phases_def Let_def)
  next
    case random
    then have "acquire_model_random E aq ?pl (search_start w) = (s, Acquired c)" using eq by (simp split: if_splits)
    note found [OF this [unfolded acquire_model_random_def] fails_shape]
    then show ?thesis using picks random by (auto simp: search_phases_def Let_def)
  next
    case group
    then have "acquire_group E aq ?pl (search_start w) = (s, Acquired c)" using eq by (simp split: if_splits)
    then show ?thesis using group_picks [OF assms(1-3) _ make_plan_chooser] group by (simp add: search_phases_def Let_def)
  next
    case plain
    then have "acquire_plain E aq ?pl (search_start w) = (s, Acquired c)" using eq by (simp split: if_splits)
    note found [OF this [unfolded acquire_plain_def Let_def]]
    then have "\<exists>sh. ?run (search_phases E aq w) = (sh, Some (Inr c))"
      using plain by (auto simp: search_phases_def Let_def fails_shape no_candidate_shape)
    then show ?thesis using picks by blast
  qed
qed

section \<open>Concrete runs\<close>

definition dice0 :: dice where
  "dice0 = \<lparr>di_shuffle = \<lambda>xs. xs, di_choice = \<lambda>n. 0, di_uniform = \<lambda>t. 0, di_random = 1/2\<rparr>"

definition round0 :: select_round where
  "round0 = \<lparr>sr_clock = 0, sr_now = 600, sr_dice = dice0, sr_score = score_in0, sr_in = acquire0, sr_record_ok = True, sr_deadline = None\<rparr>"

definition world_of :: "account_client \<Rightarrow> mem routing" where
  "world_of a = \<lparr>rt_router = router0\<lparr>ro_accounts := \<lambda>_. a\<rparr>, rt_mgr = mgr0, rt_task = [], rt_slept = []\<rparr>"

definition free_account :: account_client where
  "free_account = account0\<lparr>ac_rpm_limit := 0, ac_concurrent_limit := 0\<rparr>"

definition env0 :: "mem acquire_env" where
  "env0 = \<lparr>ae_redis = mem_redis, ae_calendar = cal0, ae_dice = dice0, ae_phases = \<lambda>_. \<lparr>ph_now = 600, ph_start = 0, ph_rounds = \<lambda>_. round0\<rparr>\<rparr>"

definition request0 :: acquire_request where
  "request0 = \<lparr>aq_spec = spec0, aq_route = None, aq_is_group = False, aq_members = [], aq_filter = ([], []), aq_row = None,
     aq_strategy = ''sequential'', aq_compression = [], aq_volume = 0\<rparr>"

definition plan0 :: plan where
  "plan0 = \<lparr>pl_spec = spec0, pl_models = [''m''], pl_group = False, pl_filter = ([], []), pl_nodes = [([], [])],
     pl_strategy = ''sequential'', pl_select = strategy_method ''sequential''\<rparr>"

definition search0 :: "mem search" where
  "search0 = \<lparr>sh_sel = \<lparr>sl_world = world_of free_account, sl_reasons = []\<rparr>, sh_limited = [], sh_saw = False\<rparr>"

definition open_route :: pydict where "open_route = [(''provider'', PStr ''p'')]"

lemma dice0_ok: "dice_ok dice0"
  by (simp add: dice_ok_def dice0_def)

lemma round0_ok: "\<forall>k. dice_ok (sr_dice ((\<lambda>_. round0) k))"
  by (simp add: round0_def dice0_ok)

lemma env0_ok: "env_ok env0"
  by (simp add: env_ok_def env0_def round0_def dice0_ok)

definition run0 :: "account_client \<Rightarrow> mem selecting \<times> (pyerror + route_candidate option)" where
  "run0 a = select_and_reserve_candidates mem_redis cal0 False 0 (\<lambda>_. round0) (strategy_method ''sequential'') [candidate0] \<lparr>sl_world = world_of a, sl_reasons = []\<rparr>"

lemma run0_disabled: "\<exists>s. run0 (account0\<lparr>ac_disabled := True\<rparr>) = (s, Inr None)"
proof -
  have "case run0 (account0\<lparr>ac_disabled := True\<rparr>) of (s, Inr None) \<Rightarrow> True | _ \<Rightarrow> False" by code_simp
  then show ?thesis by (auto split: prod.splits sum.splits option.splits)
qed

lemma run0_free: "\<exists>s c. run0 free_account = (s, Inr (Some c))"
proof -
  have "case run0 free_account of (s, Inr (Some c)) \<Rightarrow> True | _ \<Rightarrow> False" by code_simp
  then show ?thesis by (auto split: prod.splits sum.splits option.splits)
qed

lemma acquired0: "\<exists>s c. get_available_client_with_provider env0 request0 (world_of free_account) = (s, Acquired c)"
proof -
  let ?item = "(0 :: nat, filtered_spec spec0 ([], []) [], [''m''], strategy_method ''sequential'')"
  have "case phase_attempt env0 request0 plan0 ?item search0 of (sh, Some (Inr c)) \<Rightarrow> True | _ \<Rightarrow> False" by code_simp
  then obtain sh c where step: "phase_attempt env0 request0 plan0 ?item search0 = (sh, Some (Inr c))"
    by (auto split: prod.splits sum.splits option.splits) (metis sumE)
  have plan: "make_plan (rt_router (world_of free_account)) request0 = plan0"
    by (simp add: make_plan_def request0_def plan0_def candidate_models_def real_model_filter_nodes_def Let_def)
  have "get_available_client_with_provider env0 request0 (world_of free_account) = (sh_sel sh, Acquired c)"
    unfolding get_available_client_with_provider_def Let_def plan
    using step by (simp add: acquire_plain_def finish_with_def plan0_def search0_def request0_def candidate_models_def)
  then show ?thesis by blast
qed

lemma open_route_entries: "\<forall>e \<in> set (route_entries (Some open_route)). re_accounts e = []"
  by code_simp

lemma single_model: "\<not> aq_is_group aq \<Longrightarrow> candidate_models R aq \<noteq> []"
  by (simp add: candidate_models_def)

theorem gives_up_only_with_reason_witness:
  "\<exists>s ls k1 cs1 s1. run0 (account0\<lparr>ac_disabled := True\<rparr>) = (s, Inr None)
     \<and> refusals mem_redis cal0 (selection_env False 0 (\<lambda>_. round0)) (strategy_method ''sequential'')
          (0, [candidate0], \<lparr>sl_world = world_of (account0\<lparr>ac_disabled := True\<rparr>), sl_reasons = []\<rparr>) ls (k1, cs1, s1)"
  using run0_disabled gives_up_only_with_reason [OF round0_ok] unfolding run0_def by blast

theorem attempt_bound_redundant_witness:
  "select_loop mem_redis cal0 (selection_env False 0 (\<lambda>_. round0)) (strategy_method ''sequential'') 8 0 [candidate0]
       \<lparr>sl_world = world_of free_account, sl_reasons = []\<rparr> = run0 free_account"
  using attempt_bound_redundant [OF round0_ok, of mem_redis cal0 False 0 "''sequential''" "[candidate0]" 7] by (simp add: run0_def del: select_loop.simps)

theorem selection_holds_one_lease_witness:
  "\<exists>s c j. run0 free_account = (s, Inr (Some c)) \<and> rt_task (sl_world s) = [lease_id_of (sr_in ((\<lambda>_. round0) j))]"
proof -
  obtain s c where run: "run0 free_account = (s, Inr (Some c))" using run0_free by blast
  from selection_holds_one_lease [OF round0_ok run [unfolded run0_def]] run show ?thesis by (auto simp: world_of_def)
qed

definition two_providers :: "route_candidate list" where
  "two_providers = [candidate0, candidate0\<lparr>rc_provider := ''q''\<rparr>]"

theorem sequential_picks_least_witness:
  "\<exists>c. select_sequential dice0 600 (router0\<lparr>ro_pick_history := [(600, rc_provider candidate0)]\<rparr>) two_providers = Some c \<and> rc_provider c = ''q''"
proof -
  let ?R = "router0\<lparr>ro_pick_history := [(600, rc_provider candidate0)]\<rparr>"
  have "select_sequential dice0 600 ?R two_providers \<noteq> None" "last_used_provider 600 ?R = Some (rc_provider candidate0)" by code_simp+
  then obtain c where c: "select_sequential dice0 600 ?R two_providers = Some c" "last_used_provider 600 ?R = Some (rc_provider candidate0)" by auto
  have "rc_provider candidate0 \<noteq> ''q'' \<and> rc_provider candidate0 \<noteq> []" by code_simp
  with sequential_picks_least [OF c(1)] c show ?thesis by (auto simp: two_providers_def)
qed

lemma fresh0: "fresh_ids E (world_of free_account)"
  by (simp add: fresh_ids_def fresh_lease_def world_of_def leases_of_def free_account_def account0_def)

definition env1 :: "mem acquire_env" where
  \<comment> \<open>the provider's bookkeeping fails after the reservation\<close>
  "env1 = env0\<lparr>ae_phases := \<lambda>_. \<lparr>ph_now = 600, ph_start = 0, ph_rounds = \<lambda>_. round0\<lparr>sr_record_ok := False\<rparr>\<rparr>\<rparr>"

lemma env1_ok: "env_ok env1"
  by (simp add: env_ok_def env1_def env0_def round0_def dice0_ok)

lemma raised0: "\<exists>s e. get_available_client_with_provider env1 request0 (world_of free_account) = (s, AcquireRaises e)"
proof -
  let ?item = "(0 :: nat, filtered_spec spec0 ([], []) [], [''m''], strategy_method ''sequential'')"
  have "case phase_attempt env1 request0 plan0 ?item search0 of (sh, Some (Inl e)) \<Rightarrow> True | _ \<Rightarrow> False" by code_simp
  then obtain sh e where step: "phase_attempt env1 request0 plan0 ?item search0 = (sh, Some (Inl e))"
    by (auto split: prod.splits sum.splits option.splits) (metis sumE)
  have plan: "make_plan (rt_router (world_of free_account)) request0 = plan0"
    by (simp add: make_plan_def request0_def plan0_def candidate_models_def real_model_filter_nodes_def Let_def)
  have "get_available_client_with_provider env1 request0 (world_of free_account) = (sh_sel sh, AcquireRaises e)"
    unfolding get_available_client_with_provider_def Let_def plan
    using step by (simp add: acquire_plain_def finish_with_def plan0_def search0_def request0_def candidate_models_def)
  then show ?thesis by blast
qed

theorem acquire_never_leaks_witness:
  "(\<exists>s c. get_available_client_with_provider env0 request0 (world_of free_account) = (s, Acquired c)
      \<and> one_lease_more (world_of free_account) (rc_account c) (sl_world s))
   \<and> (\<exists>s e. get_available_client_with_provider env1 request0 (world_of free_account) = (s, AcquireRaises e)
      \<and> same_holdings (world_of free_account) (sl_world s))"
  using acquired0 raised0 acquire_never_leaks [OF env0_ok fresh0, of request0] acquire_never_leaks [OF env1_ok fresh0, of request0] by fastforce

theorem open_route_serves_nothing_witness:
  "\<exists>s n rs. get_available_client_with_provider env0 (request0\<lparr>aq_route := Some open_route\<rparr>) (world_of free_account) = (s, NoneAvailable n rs)"
  using open_route_serves_nothing [of "request0\<lparr>aq_route := Some open_route\<rparr>" open_route "world_of free_account" env0] open_route_entries single_model
  by (auto simp: open_route_def request0_def)

theorem compression_without_routes_fails_witness:
  "\<exists>s n rs. get_available_client_with_provider env0 (request0\<lparr>aq_compression := [''gone'']\<rparr>) (world_of free_account) = (s, NoneAvailable n rs)"
proof -
  have "\<not> has_model_route (rt_router (world_of free_account)) ''gone''"
    by (simp add: has_model_route_def world_of_def channel0_def dget_def)
  then show ?thesis
    using compression_without_routes_fails [OF env0_ok, of "request0\<lparr>aq_compression := [''gone'']\<rparr>" "world_of free_account"] single_model
    by (auto simp: request0_def)
qed

theorem acquired_is_eligible_witness:
  "\<exists>s c. get_available_client_with_provider env0 request0 (world_of free_account) = (s, Acquired c) \<and> picked_eligible env0 request0 (world_of free_account) c"
proof -
  obtain s c where *: "get_available_client_with_provider env0 request0 (world_of free_account) = (s, Acquired c)" using acquired0 by blast
  from acquired_is_eligible [OF env0_ok _ _ *] * show ?thesis by (auto simp: request0_def)
qed

end
