(* ===== verification/Lub_FreezeGate.thy ===== *)
theory Lub_FreezeGate
  imports Lub_CooldownProps Lub_LedgerProps
begin

text \<open>
  The freeze store meets the reserve script: which of the freezes that \<open>set_account_cooldown\<close> writes the script of
  \<open>reserve_account_limits\<close> respects.
\<close>

text \<open>
  A freeze without end does not stop a reservation. After \<open>set_account_cooldown\<close> has frozen an account for
  some seconds, the reserve script refuses the account with the reason \<open>frozen\<close>, passes the remaining time back and
  writes no ledger; after the same call has frozen it permanently, the script admits it whenever slots and windows
  allow, although \<open>set_account_cooldown\<close> means the account to be frozen: the script asks for a positive remaining
  time, and a key without expiry has none. (Neither other freeze key is set, and the caller is no test or probe.)
\<close>

theorem permanent_freeze_not_enforced:
  assumes "redis_store R" "live c" "p \<noteq> []" "u \<noteq> []" "\<forall>n. seconds = Some n \<longrightarrow> 0 < n"
    and "c1 = set_account_cooldown R p u seconds reason cat c"
    and "reserve_params_ok cap P" "ledgers_rel R (ledger_keys (conn_prefix c)) (conn_store c1) L"
    and "rp_freeze_key P = cooldown_key p u" "\<not> rp_skip_freeze_checks P"
    and "A = reserve_args_of (conn_prefix c) cal now P" "slot_free R A (conn_store c1)" "tokens_fit A L"
    and "r_ttl R (conn_store c1) (ra_model_freeze_key A) \<le> 0" "r_ttl R (conn_store c1) (ra_account_model_freeze_key A) \<le> 0"
  shows "\<exists>c2 r. reserve_account_limits R cal now P c1 = (c2, Some r)
     \<and> (case seconds of
          None \<Rightarrow> res_allowed r
        | Some n \<Rightarrow> \<not> res_allowed r \<and> res_reason r = ''frozen'' \<and> res_ttl r = n \<and> conn_store c2 = conn_store c1)"
proof -
  obtain c1' where c1': "set_account_cooldown R p u seconds reason cat c = c1'" "live c1'" "conn_prefix c1' = conn_prefix c"
      "r_ttl R (conn_store c1') (be_key (conn_prefix c) (cooldown_key p u)) = (case seconds of None \<Rightarrow> -1 | Some n \<Rightarrow> n)"
    using redis_store.cooldown_read_back [OF assms(1-4), of seconds reason cat] assms(5) by blast
  have c1: "live c1" "conn_prefix c1 = conn_prefix c" using c1' assms(6) by simp_all
  have sel: "ra_freeze_key A = be_key (conn_prefix c) (cooldown_key p u)" "\<not> ra_skip_freeze A"
    using assms(9,10) by (simp_all add: assms(11) reserve_args_of_def Let_def)
  have ttl: "r_ttl R (conn_store c1) (ra_freeze_key A) = (case seconds of None \<Rightarrow> -1 | Some n \<Rightarrow> n)"
    using c1'(1,4) assms(6) sel(1) by simp
  obtain c2 r where r: "reserve_account_limits R cal now P c1 = (c2, Some r)" "c2 = c1\<lparr>conn_store := fst (reserve_script R A (conn_store c1))\<rparr>"
      "r = reserve_result_of (ra_window_ids A) (snd (reserve_script R A (conn_store c1)))"
    using c1 by (simp add: reserve_account_limits_def live_def call_ok Let_def assms(11))
  show ?thesis
  proof (cases seconds)
    case None
    then have "no_timed_freeze R A (conn_store c1)" using ttl assms(14,15) by (simp add: no_timed_freeze_def)
    then have "res_allowed r"
      using reserve_admission [OF assms(1,7) _ r(1), of L] assms(8,11-13) c1(2) by (simp add: Let_def)
    then show ?thesis using r(1) None by auto
  next
    case (Some n)
    then have "0 < n" "r_ttl R (conn_store c1) (ra_freeze_key A) = n" using assms(5) ttl by simp_all
    then have "freeze_gate R A (conn_store c1) = Some (denied ''frozen'' n 0)" using sel(2) by (simp add: freeze_gate_def)
    then have "reserve_script R A (conn_store c1) = (conn_store c1, denied ''frozen'' n 0)" by (simp add: reserve_script_def)
    then show ?thesis using r Some \<open>0 < n\<close> by (auto simp: reserve_result_of_def denied_def Let_def)
  qed
qed

theorem permanent_freeze_not_enforced_witness:
  "\<exists>c2 r. reserve_account_limits mem_redis cal0 600 params0 (set_account_cooldown mem_redis ''p'' ''u'' None ''banned'' ''credential'' conn0) = (c2, Some r)
     \<and> res_allowed r"
proof -
  let ?c1 = "set_account_cooldown mem_redis ''p'' ''u'' None ''banned'' ''credential'' conn0"
  let ?A = "reserve_args_of None cal0 600 params0"
  have "hashes (conn_store ?c1) = fmempty" "zsets (conn_store ?c1) = fmempty"
     "mem_ttl (conn_store ?c1) (ra_model_freeze_key ?A) \<le> 0" "mem_ttl (conn_store ?c1) (ra_account_model_freeze_key ?A) \<le> 0" by code_simp+
  then have "ledgers_rel mem_redis (ledger_keys None) (conn_store ?c1) (\<lambda>k. fmempty)" "slot_free mem_redis ?A (conn_store ?c1)"
     "r_ttl mem_redis (conn_store ?c1) (ra_model_freeze_key ?A) \<le> 0" "r_ttl mem_redis (conn_store ?c1) (ra_account_model_freeze_key ?A) \<le> 0"
    by (simp_all add: ledgers_rel_def ledger_rel_empty slot_free_def live_leases_def reserve_args_of_def params0_def Let_def)
  moreover have "tokens_fit ?A (\<lambda>k. fmempty)" "rp_freeze_key params0 = cooldown_key ''p'' ''u''" "\<not> rp_skip_freeze_checks params0" "live conn0"
    by (simp_all add: tokens_fit_def reserve_args_of_def params0_def cooldown_key_def live_def Let_def)
  ultimately show ?thesis
    using permanent_freeze_not_enforced [OF mem.redis_store_axioms, of conn0 "''p''" "''u''" None ?c1 "''banned''" "''credential''" "\<lambda>ak. 1" params0
        "\<lambda>k. fmempty" ?A cal0 600] params0_ok
    by simp
qed

end
