(* ===== verification/Lub_PyOps.thy ===== *)
theory Lub_PyOps
  imports Lub_PyVal
begin

text \<open>
  Further Python built-ins for the configuration of channels, usage records and messages: sequencing of
  computations that may raise, methods of \<open>str\<close> called on a value of unknown type (\<open>AttributeError\<close> unless
  it is a text), merging of dictionaries, iteration, and facts on \<open>strip\<close> and \<open>lower\<close>.
\<close>

section \<open>Computations that may raise\<close>

definition py_then :: "'e + 'a \<Rightarrow> ('a \<Rightarrow> 'e + 'b) \<Rightarrow> 'e + 'b" where
  "py_then m f = (case m of Inl e \<Rightarrow> Inl e | Inr x \<Rightarrow> f x)"

named_theorems returns_iff \<open>when a computation that may raise returns\<close>

lemma py_then_simps [simp]: "py_then (Inl e) f = Inl e" "py_then (Inr x) f = f x"
  by (simp_all add: py_then_def)

lemma py_then_returns [returns_iff]: "py_then m f = Inr y \<longleftrightarrow> (\<exists>x. m = Inr x \<and> f x = Inr y)"
  by (cases m) auto

lemma py_then_raises: "py_then m f = Inl e \<longleftrightarrow> m = Inl e \<or> (\<exists>x. m = Inr x \<and> f x = Inl e)"
  by (cases m) auto

section \<open>Texts\<close>

definition as_str :: "pyval \<Rightarrow> pyerror + string" where
  \<comment> \<open>a method of \<open>str\<close> called on the value\<close>
  "as_str v = (case v of PStr s \<Rightarrow> Inr s | _ \<Rightarrow> Inl AttributeError)"

definition text_or :: "pyval \<Rightarrow> string \<Rightarrow> string" where
  \<comment> \<open>\<open>str(v or default)\<close>\<close>
  "text_or v s = py_str (py_or v (PStr s))"

definition lstrip_char :: "char \<Rightarrow> string \<Rightarrow> string" where
  "lstrip_char c s = dropWhile (\<lambda>x. x = c) s"

definition rstrip_char :: "char \<Rightarrow> string \<Rightarrow> string" where
  "rstrip_char c s = rev (dropWhile (\<lambda>x. x = c) (rev s))"

definition is_pstr :: "pyval \<Rightarrow> bool" where
  "is_pstr v = (case v of PStr _ \<Rightarrow> True | _ \<Rightarrow> False)"

definition is_pdict :: "pyval \<Rightarrow> bool" where
  "is_pdict v = (case v of PDict _ \<Rightarrow> True | _ \<Rightarrow> False)"

definition nonblank_texts :: "pyval list \<Rightarrow> string list" where
  \<comment> \<open>\<open>[str(x) for x in xs if isinstance(x, str) and str(x).strip()]\<close>\<close>
  "nonblank_texts xs = concat (map (\<lambda>x. case x of PStr s \<Rightarrow> if strip s \<noteq> [] then [s] else [] | _ \<Rightarrow> []) xs)"

definition dicts_of :: "pyval list \<Rightarrow> pydict list" where
  \<comment> \<open>\<open>[dict(x) for x in xs if isinstance(x, dict)]\<close>\<close>
  "dicts_of xs = concat (map (\<lambda>x. case x of PDict d \<Rightarrow> [d] | _ \<Rightarrow> []) xs)"

section \<open>Dictionaries and iteration\<close>

definition dmerge :: "pydict \<Rightarrow> pydict \<Rightarrow> pydict" where
  \<comment> \<open>\<open>{**a, **b}\<close>\<close>
  "dmerge a b = fold (\<lambda>p d. dset d (fst p) (snd p)) b a"

definition dsetdefault :: "pydict \<Rightarrow> string \<Rightarrow> pyval \<Rightarrow> pydict" where
  "dsetdefault d k v = (if map_of d k = None then dset d k v else d)"

definition dremove :: "pydict \<Rightarrow> string \<Rightarrow> pydict" where
  "dremove d k = filter (\<lambda>p. fst p \<noteq> k) d"

definition py_iter :: "pyval \<Rightarrow> pyerror + pyval list" where
  \<comment> \<open>\<open>for x in v\<close>: the items of a list, the keys of a dictionary, the characters of a text\<close>
  "py_iter v = (case v of PList xs \<Rightarrow> Inr xs | PDict d \<Rightarrow> Inr (map (PStr \<circ> fst) d)
     | PStr s \<Rightarrow> Inr (map (\<lambda>c. PStr [c]) s) | _ \<Rightarrow> Inl TypeError)"

section \<open>Facts\<close>

lemma dget_simps [simp]:
  "dget [] k = PNone" "dget ((k', v) # d) k = (if k = k' then v else dget d k)"
  "dget_or [] k w = w" "dget_or ((k', v) # d) k w = (if k = k' then v else dget_or d k w)"
  by (simp_all add: dget_def dget_or_def)

lemma set_dset: "set (dset d k v) \<subseteq> insert (k, v) (set d)"
  by (induction d k v rule: dset.induct) auto

lemma map_of_dpop [simp]: "map_of (dremove d k) k' = (if k' = k then None else map_of d k')"
  by (induction d) (auto simp: dremove_def)

lemma map_of_dmerge:
  "map_of (dmerge a b) k = (case map_of (rev b) k of None \<Rightarrow> map_of a k | Some v \<Rightarrow> Some v)"
proof (induction b arbitrary: a)
  case (Cons p b)
  have "map_of (rev (p # b)) k = (case map_of (rev b) k of None \<Rightarrow> map_of [p] k | Some v \<Rightarrow> Some v)"
    by (cases p) (auto simp: map_of_append map_add_def split: option.splits)
  with Cons.IH [of "dset a (fst p) (snd p)"] show ?case
    by (cases p) (auto simp: dmerge_def split: option.splits)
qed (simp add: dmerge_def)

lemma text_or_str [simp]: "text_or (PStr s) t = (if s = [] then t else s)"
  by (simp add: text_or_def py_or_def py_str_def)

lemma text_or_none [simp]: "text_or PNone t = t"
  by (simp add: text_or_def py_or_def py_str_def)

lemma lower_char_idem [simp]: "lower_char (lower_char c) = lower_char c"
  by (simp add: lower_char_def Let_def)

lemma lower_idem [simp]: "lower (lower s) = lower s"
  by (simp add: lower_def)

lemma rstrip_idem [simp]: "rstrip (rstrip s) = rstrip s"
  by (simp add: rstrip_def dropWhile_idem)

lemma lstrip_rstrip: "lstrip s = s \<Longrightarrow> lstrip (rstrip s) = rstrip s"
proof -
  assume s: "lstrip s = s"
  obtain t where t: "s = rstrip s @ t"
    unfolding rstrip_def by (metis rev_append rev_rev_ident takeWhile_dropWhile_id)
  show "lstrip (rstrip s) = rstrip s"
  proof (cases "rstrip s")
    case (Cons c u)
    with s t have "\<not> is_space c" unfolding lstrip_def
      by (metis append_Cons dropWhile_eq_Cons_conv)
    with Cons show ?thesis by (simp add: lstrip_def)
  qed (simp add: lstrip_def)
qed

lemma lstrip_strip: "lstrip (strip s) = strip s"
proof -
  have "lstrip (lstrip s) = lstrip s" by (simp add: lstrip_def dropWhile_idem)
  then show ?thesis by (simp add: strip_def lstrip_rstrip)
qed

lemma rstrip_strip: "rstrip (strip s) = strip s"
  by (simp add: strip_def)

lemma strip_idem [simp]: "strip (strip s) = strip s"
  by (simp add: strip_def [of "strip s"] lstrip_strip rstrip_strip)

lemma strip_Nil [simp]: "strip [] = []"
  by (simp add: strip_def lstrip_def rstrip_def)

lemma nonblank_texts_Nil [simp]: "nonblank_texts [] = []"
  by (simp add: nonblank_texts_def)

lemma nonblank_texts_idem [simp]: "nonblank_texts (map PStr (nonblank_texts xs)) = nonblank_texts xs"
  by (induction xs) (auto simp: nonblank_texts_def split: pyval.splits)

lemma dicts_of_dicts [simp]: "dicts_of (map PDict ds) = ds"
  by (induction ds) (auto simp: dicts_of_def)

lemma set_map_filter_iff: "y \<in> set (List.map_filter f xs) \<longleftrightarrow> (\<exists>x \<in> set xs. f x = Some y)"
  by (induction xs) (auto simp: List.map_filter_simps split: option.splits)

definition tidy :: "string \<Rightarrow> bool" where
  "tidy s \<longleftrightarrow> s \<noteq> [] \<and> \<not> is_space (hd s) \<and> \<not> is_space (last s)"

lemma dropWhile_hd: "s \<noteq> [] \<Longrightarrow> \<not> P (hd s) \<Longrightarrow> dropWhile P s = s"
  by (cases s) auto

lemma strip_tidy: "tidy s \<Longrightarrow> strip s = s"
  by (simp add: tidy_def strip_def lstrip_def rstrip_def dropWhile_hd hd_rev)

end
