(* ===== verification/Lub_Channel.thy ===== *)
theory Lub_Channel
  imports Lub_PyOps Lub_Scoring
begin

text \<open>
  \<open>server/channel.py\<close>: the configuration of a channel. The rules that rewrite and filter upstream model
  ids, with their shared templates; the rows of chat protocols and their derivation from older
  configurations; the snapshot a channel derives from its stored configuration; URLs; and the choice of a
  protocol row for a request. The freeze decision of a channel is with the account pool and its response
  times with the scores.

  Rules carry regular expressions that administrators write. What Python's \<open>re\<close> makes of them is the
  record \<open>regex\<close>: whether a pattern compiles, whether it is found, and what a substitution gives, which
  can raise \<open>re.error\<close> or, for an unknown group name in the replacement, \<open>IndexError\<close>. Messages for the
  administrator are values of \<open>rule_error\<close>; log lines are left out.
\<close>

section \<open>Streaming towards the upstream\<close>

definition UPSTREAM_STREAM_AUTO :: string where
  "UPSTREAM_STREAM_AUTO = ''auto''"

definition is_upstream_stream_auto :: "pyval \<Rightarrow> bool" where
  "is_upstream_stream_auto v = (case v of PStr s \<Rightarrow> lower (strip s) = UPSTREAM_STREAM_AUTO | _ \<Rightarrow> False)"

definition normalize_upstream_stream :: "pyval \<Rightarrow> pyval" where
  "normalize_upstream_stream v =
     (if is_upstream_stream_auto v then PStr UPSTREAM_STREAM_AUTO
      else if v = PNone then PBool True
      else PBool (v \<noteq> PBool False))"

definition resolve_upstream_stream :: "pyval \<Rightarrow> bool \<Rightarrow> bool" where
  "resolve_upstream_stream v client_stream =
     (if is_upstream_stream_auto v then client_stream
      else if v = PNone then True
      else v \<noteq> PBool False)"

section \<open>Rules for model ids\<close>

datatype rx_result = Rx_Text string | Rx_Error | Rx_Raise pyerror

record regex =
  rx_compiles :: "string \<Rightarrow> bool"
  rx_search :: "string \<Rightarrow> string \<Rightarrow> bool option"
  rx_sub :: "string \<Rightarrow> string \<Rightarrow> string \<Rightarrow> rx_result"

type_synonym templates = "(string \<times> pydict list) list"

definition MULTIPLIER_OPS :: "string list" where
  "MULTIPLIER_OPS = [''>'', ''>='', ''<'', ''<='', ''=='']"

definition entry_enabled :: "pydict \<Rightarrow> bool" where
  \<comment> \<open>\<open>item.get("enabled", True) is not False\<close>\<close>
  "entry_enabled item \<longleftrightarrow> dget_or item ''enabled'' (PBool True) \<noteq> PBool False"

definition entry_field :: "pydict \<Rightarrow> string \<Rightarrow> string" where
  \<comment> \<open>\<open>str(item.get(k) or "").strip()\<close>\<close>
  "entry_field item k = strip (text_or (dget item k) [])"

definition float_of_num :: "pyval \<Rightarrow> rat option" where
  \<comment> \<open>\<open>float(v)\<close> of a number that is not a bool\<close>
  "float_of_num v = (case v of PInt n \<Rightarrow> Some (of_int n) | PFloat r \<Rightarrow> Some r | _ \<Rightarrow> None)"

definition template_entry :: "pydict \<Rightarrow> pydict option" where
  "template_entry item =
     (let tid = entry_field item ''template_id'' in
      if tid = [] then None
      else Some [(''kind'', PStr ''template''), (''template_id'', PStr tid), (''enabled'', PBool (entry_enabled item))])"

definition multiplier_entry :: "pydict \<Rightarrow> pydict option" where
  "multiplier_entry item =
     (let op = entry_field item ''op'' in
      if op \<notin> set MULTIPLIER_OPS then None
      else (case float_of_num (dget item ''value'') of
              None \<Rightarrow> None
            | Some r \<Rightarrow> Some [(''kind'', PStr ''multiplier''), (''name'', PStr (entry_field item ''name'')),
                (''enabled'', PBool (entry_enabled item)), (''op'', PStr op), (''value'', PFloat r)]))"

definition rule_entry :: "pydict \<Rightarrow> pydict option" where
  "rule_entry item =
     (case dget item ''pattern'' of
        PStr pattern \<Rightarrow>
          (if strip pattern = [] then None
           else Some [(''name'', PStr (entry_field item ''name'')), (''enabled'', PBool (entry_enabled item)),
             (''pattern'', PStr pattern),
             (''replacement'', (case dget item ''replacement'' of PStr r \<Rightarrow> PStr r | _ \<Rightarrow> PStr [])),
             (''search_only'', PBool (truthy (dget_or item ''search_only'' (PBool False))))])
      | _ \<Rightarrow> None)"

definition normalize_entry :: "pydict \<Rightarrow> pydict option" where
  "normalize_entry item =
     (let kind = text_or (dget item ''kind'') ''rule'' in
      if kind = ''template'' then template_entry item
      else if kind = ''multiplier'' then multiplier_entry item
      else rule_entry item)"

definition normalize_model_id_rewrite_rules :: "pyval \<Rightarrow> pydict list" where
  "normalize_model_id_rewrite_rules raw =
     (case raw of PList xs \<Rightarrow> List.map_filter normalize_entry (dicts_of xs) | _ \<Rightarrow> [])"

definition is_model_id_template_entry :: "pydict \<Rightarrow> bool" where
  "is_model_id_template_entry e \<longleftrightarrow> dget e ''kind'' = PStr ''template''"

definition is_model_id_multiplier_entry :: "pydict \<Rightarrow> bool" where
  "is_model_id_multiplier_entry e \<longleftrightarrow> dget e ''kind'' = PStr ''multiplier''"

definition cached_template :: "pydict \<Rightarrow> templates \<Rightarrow> templates" where
  "cached_template item cache =
     (let tid = entry_field item ''id'' in
      if tid = [] then cache
      else dset cache tid (filter (\<lambda>e. \<not> is_model_id_template_entry e)
             (normalize_model_id_rewrite_rules (dget item ''rules''))))"

definition set_model_rule_template_cache :: "pyval list \<Rightarrow> templates" where
  \<comment> \<open>the new cache; the old one is dropped\<close>
  "set_model_rule_template_cache ts = fold cached_template (dicts_of ts) []"

definition get_model_rule_template :: "templates \<Rightarrow> string \<Rightarrow> pydict list option" where
  "get_model_rule_template T tid = map_of T (strip tid)"

definition flag_of :: "pydict \<Rightarrow> string \<Rightarrow> bool" where
  "flag_of e k = truthy (dget e k)"

definition text_of :: "pydict \<Rightarrow> string \<Rightarrow> string" where
  "text_of e k = (case dget e k of PStr s \<Rightarrow> s | _ \<Rightarrow> [])"

definition expand_entry :: "templates \<Rightarrow> pydict \<Rightarrow> pydict list" where
  "expand_entry T e =
     (if \<not> is_model_id_template_entry e then [e]
      else if \<not> flag_of e ''enabled'' then []
      else (case get_model_rule_template T (text_of e ''template_id'') of None \<Rightarrow> [] | Some rules \<Rightarrow> rules))"

definition expand_model_id_rewrite_rules :: "templates \<Rightarrow> pyval \<Rightarrow> pydict list" where
  "expand_model_id_rewrite_rules T raw = concat (map (expand_entry T) (normalize_model_id_rewrite_rules raw))"

datatype rule_label = Named string | Numbered nat

datatype rule_error = Bad_Operator rule_label | Bad_Threshold rule_label | Bad_Pattern rule_label

definition label_of :: "string \<Rightarrow> nat \<Rightarrow> rule_label" where
  "label_of name i = (if name \<noteq> [] then Named name else Numbered i)"

definition multiplier_errors :: "nat \<Rightarrow> pyval \<Rightarrow> rule_error list" where
  "multiplier_errors i v =
     (case v of
        PDict item \<Rightarrow>
          (if text_or (dget item ''kind'') [] \<noteq> ''multiplier'' then []
           else (let label = label_of (entry_field item ''name'') i in
             (if entry_field item ''op'' \<notin> set MULTIPLIER_OPS then [Bad_Operator label] else []) @
             (if float_of_num (dget item ''value'') = None then [Bad_Threshold label] else [])))
      | _ \<Rightarrow> [])"

definition pattern_errors :: "regex \<Rightarrow> nat \<Rightarrow> pydict \<Rightarrow> rule_error list" where
  "pattern_errors rx i e =
     (if is_model_id_template_entry e \<or> is_model_id_multiplier_entry e then []
      else if rx_compiles rx (text_of e ''pattern'') then []
      else [Bad_Pattern (label_of (text_of e ''name'') i)])"

definition compile_model_id_rewrite_rules :: "regex \<Rightarrow> pyval \<Rightarrow> pydict list \<times> rule_error list" where
  "compile_model_id_rewrite_rules rx raw =
     (let entries = normalize_model_id_rewrite_rules raw;
          items = (case raw of PList xs \<Rightarrow> xs | _ \<Rightarrow> [])
      in (entries,
          concat (map (\<lambda>(i, v). multiplier_errors i v) (enumerate 1 items)) @
          concat (map (\<lambda>(i, e). pattern_errors rx i e) (enumerate 1 entries))))"

definition after_slash :: "string \<Rightarrow> string" where
  \<comment> \<open>\<open>s.split("/", 1)[1]\<close>\<close>
  "after_slash s = tl (dropWhile (\<lambda>c. c \<noteq> CHR ''/'') s)"

definition strip_model_owner_prefix :: "string \<Rightarrow> string" where
  "strip_model_owner_prefix model_id =
     (if model_id = [] \<or> CHR ''/'' \<notin> set model_id then model_id
      else (let tail = strip (after_slash model_id) in if tail = [] then model_id else tail))"

definition renames :: "pydict \<Rightarrow> bool" where
  "renames rule \<longleftrightarrow> flag_of rule ''enabled'' \<and> \<not> flag_of rule ''search_only'' \<and> \<not> is_model_id_multiplier_entry rule"

fun run_rewrite_rules :: "regex \<Rightarrow> pydict list \<Rightarrow> string \<Rightarrow> pyerror + string" where
  "run_rewrite_rules rx [] s = Inr s"
| "run_rewrite_rules rx (rule # rules) s =
     (if \<not> renames rule then run_rewrite_rules rx rules s
      else (case rx_sub rx (text_of rule ''pattern'') (text_of rule ''replacement'') s of
              Rx_Raise e \<Rightarrow> Inl e
            | Rx_Error \<Rightarrow> run_rewrite_rules rx rules s
            | Rx_Text t \<Rightarrow> run_rewrite_rules rx rules (if strip t \<noteq> [] then strip t else s)))"

definition apply_model_id_rewrite_rules ::
    "regex \<Rightarrow> templates \<Rightarrow> string \<Rightarrow> pyval \<Rightarrow> bool \<Rightarrow> pyerror + string" where
  "apply_model_id_rewrite_rules rx T model_id rules strip_prefix =
     (let s = (if strip_prefix then strip_model_owner_prefix model_id else model_id) in
      if s = [] then Inr s
      else py_then (run_rewrite_rules rx (expand_model_id_rewrite_rules T rules) s)
             (\<lambda>r. Inr (if r = [] then strip_model_owner_prefix model_id else r)))"

definition model_id_matches_search_rules :: "regex \<Rightarrow> templates \<Rightarrow> string \<Rightarrow> pyval \<Rightarrow> bool" where
  "model_id_matches_search_rules rx T model_id rules \<longleftrightarrow>
     model_id \<noteq> [] \<and>
     (\<exists>rule \<in> set (expand_model_id_rewrite_rules T rules).
        flag_of rule ''enabled'' \<and> flag_of rule ''search_only'' \<and>
        rx_search rx (text_of rule ''pattern'') model_id = Some True)"

definition compares :: "string \<Rightarrow> rat \<Rightarrow> rat \<Rightarrow> bool" where
  "compares op m v \<longleftrightarrow> (op = ''>='' \<and> m \<ge> v) \<or> (op = ''>'' \<and> m > v) \<or> (op = ''<='' \<and> m \<le> v) \<or>
     (op = ''<'' \<and> m < v) \<or> (op = ''=='' \<and> m = v)"

definition model_matches_multiplier_rules :: "templates \<Rightarrow> rat option \<Rightarrow> pyval \<Rightarrow> bool" where
  "model_matches_multiplier_rules T multiplier rules =
     (case multiplier of
        None \<Rightarrow> False
      | Some m \<Rightarrow> (\<exists>rule \<in> set (expand_model_id_rewrite_rules T rules).
          flag_of rule ''enabled'' \<and> is_model_id_multiplier_entry rule \<and>
          (case float_of_num (dget rule ''value'') of
             Some v \<Rightarrow> entry_field rule ''op'' \<in> set MULTIPLIER_OPS \<and> compares (entry_field rule ''op'') m v
           | None \<Rightarrow> False)))"

section \<open>Rows of chat protocols\<close>

function fresh_id :: "string list \<Rightarrow> nat \<Rightarrow> string \<Rightarrow> string" where
  \<comment> \<open>\<open>while cp_id in seen_ids: cp_id = f"{cp_id}-{idx}"\<close>\<close>
  "fresh_id seen idx s = (if s \<in> set seen then fresh_id seen idx (s @ ''-'' @ nat_str idx) else s)"
  by pat_completeness auto
termination
proof (relation "measure (\<lambda>(seen, idx, s). card {t \<in> set seen. length s \<le> length t})")
  fix seen :: "string list" and idx and s :: string
  let ?longer = "\<lambda>s. {t \<in> set seen. length s \<le> length t}"
  assume "s \<in> set seen"
  then have "s \<in> ?longer s" "s \<notin> ?longer (s @ ''-'' @ nat_str idx)"
    and "?longer (s @ ''-'' @ nat_str idx) \<subseteq> ?longer s" by auto
  then have "?longer (s @ ''-'' @ nat_str idx) \<subset> ?longer s" by blast
  then show "((seen, idx, s @ ''-'' @ nat_str idx), (seen, idx, s)) \<in> measure (\<lambda>(seen, idx, s). card {t \<in> set seen. length s \<le> length t})"
    by (simp add: psubset_card_mono)
qed simp

declare fresh_id.simps [simp del]

definition sends_reasoning :: "pyval \<Rightarrow> bool" where
  "sends_reasoning v = (case v of PStr s \<Rightarrow> lower (strip s) \<notin> {''false'', ''0'', ''no'', ''off''} | _ \<Rightarrow> v \<noteq> PBool False)"

definition strs :: "string list \<Rightarrow> pyval" where
  "strs xs = PList (map PStr xs)"

definition chat_protocol_row :: "string \<Rightarrow> pydict \<Rightarrow> pydict" where
  "chat_protocol_row cp_id item =
     [(''id'', PStr cp_id),
      (''enabled'', PBool (truthy (dget_or item ''enabled'' (PBool True)))),
      (''protocol'', PStr (lower (text_or (dget item ''protocol'') ''openai''))),
      (''path'', PStr (entry_field item ''path'')),
      (''upstream_stream'', normalize_upstream_stream (dget item ''upstream_stream'')),
      (''client_preset'', PStr (lower (text_or (dget item ''client_preset'') ''none''))),
      (''header_template'', PStr (entry_field item ''header_template'')),
      (''system_type'', PStr (lower (text_or (dget item ''system_type'') ''auto''))),
      (''send_reasoning_content'', PBool (sends_reasoning (dget item ''send_reasoning_content''))),
      (''models'', strs (case dget item ''models'' of PList xs \<Rightarrow> nonblank_texts xs | _ \<Rightarrow> []))]"

definition first_id :: "nat \<Rightarrow> pydict \<Rightarrow> string" where
  "first_id idx item =
     (let cp_id = entry_field item ''id'' in
      if cp_id = [] then lower (text_or (dget item ''protocol'') ''openai'') @ ''-chat-'' @ nat_str idx else cp_id)"

fun protocol_rows :: "nat \<Rightarrow> string list \<Rightarrow> pyval list \<Rightarrow> pydict list" where
  "protocol_rows idx seen [] = []"
| "protocol_rows idx seen (v # vs) =
     (case v of
        PDict item \<Rightarrow> (let cp_id = fresh_id seen idx (first_id idx item)
          in chat_protocol_row cp_id item # protocol_rows (Suc idx) (cp_id # seen) vs)
      | _ \<Rightarrow> protocol_rows (Suc idx) seen vs)"

definition normalize_chat_protocols :: "pyval \<Rightarrow> pydict list" where
  "normalize_chat_protocols raw = (case raw of PList xs \<Rightarrow> protocol_rows 0 [] xs | _ \<Rightarrow> [])"

definition synth_chat_protocol_row :: "pyval \<Rightarrow> pyval \<Rightarrow> pyval \<Rightarrow> pyval \<Rightarrow> pydict" where
  \<comment> \<open>with the arguments its callers pass; the others have their defaults\<close>
  "synth_chat_protocol_row protocol path upstream_stream client_preset =
     (let p = lower (text_or protocol ''openai'') in
      [(''id'', PStr (p @ ''-chat-0'')), (''enabled'', PBool True), (''protocol'', PStr p),
       (''path'', PStr (text_or path [])),
       (''upstream_stream'', normalize_upstream_stream upstream_stream),
       (''client_preset'', PStr (lower (text_or client_preset ''none''))),
       (''header_template'', PStr []), (''system_type'', PStr ''auto''),
       (''send_reasoning_content'', PBool True), (''models'', PList [])])"

definition has_protocol_rows :: "pyval \<Rightarrow> bool" where
  "has_protocol_rows v = (case v of PList xs \<Rightarrow> list_ex is_pdict xs | _ \<Rightarrow> False)"

definition chat_protocols_from_legacy :: "pydict \<Rightarrow> pydict list" where
  "chat_protocols_from_legacy cfg =
     (let existing = dget cfg ''chat_protocols''; protocol = dget cfg ''protocol''; chat_path = dget cfg ''chat_path'' in
      if has_protocol_rows existing then normalize_chat_protocols existing
      else if (protocol = PNone \<or> protocol = PStr []) \<and> \<not> truthy chat_path then []
      else [synth_chat_protocol_row protocol chat_path
              (if dget cfg ''upstream_stream'' = PNone then dget_or cfg ''supports_stream'' (PBool True)
               else dget cfg ''upstream_stream'')
              (dget cfg ''client_preset'')])"

definition LEGACY_CHAT_KEYS :: "string list" where
  "LEGACY_CHAT_KEYS = [''protocol'', ''chat_path'', ''upstream_stream'', ''client_preset'', ''supports_stream'']"

definition rows_val :: "pydict list \<Rightarrow> pyval" where
  "rows_val rows = PList (map PDict rows)"

definition default_config_with_chat_protocols :: "pydict \<Rightarrow> pydict" where
  "default_config_with_chat_protocols cfg =
     (let rows = chat_protocols_from_legacy cfg
      in fold (\<lambda>k d. dremove d k) LEGACY_CHAT_KEYS (if rows \<noteq> [] then dset cfg ''chat_protocols'' (rows_val rows) else cfg))"

section \<open>The snapshot of a configuration\<close>

definition PROVIDER_DEFAULTS :: "string \<Rightarrow> pydict" where
  "PROVIDER_DEFAULTS key =
     (if key = ''copilot'' then [(''base_url'', PStr ''https://api.githubcopilot.com''), (''models_path'', PStr ''/models'')]
      else if key = ''edgeone-ai'' then [(''models_path'', PStr []), (''auto_update_models'', PBool False)]
      else if key = ''codebuddy'' then [(''models_path'', PStr ''/plugin/v1/models''), (''auto_update_models'', PBool True), (''timeout'', PInt 120)]
      else if key = ''atomcode'' then [(''models_path'', PStr ''/models''), (''auto_update_models'', PBool True), (''timeout'', PInt 120)]
      else if key = ''cloudflare'' then [(''auto_update_models'', PBool True)]
      else [])"

definition codebuddy_base_url :: "pydict \<Rightarrow> string" where
  "codebuddy_base_url cfg =
     (if lower (text_or (dget cfg ''region'') ''cn'') = ''intl'' then ''https://www.codebuddy.ai'' else ''https://www.codebuddy.cn'')"

definition CODEBUDDY_CHAT :: "string list" where
  "CODEBUDDY_CHAT = [[], ''/plugin/chat/completions'', ''plugin/chat/completions'']"

definition CODEBUDDY_MODELS :: "string list" where
  "CODEBUDDY_MODELS = [[], ''/v2/models'', ''v2/models'']"

definition ATOMCODE_CHAT :: "string list" where
  "ATOMCODE_CHAT = [[], ''/v1/messages'', ''v1/messages'']"

definition ATOMCODE_MODELS :: "string list" where
  "ATOMCODE_MODELS = [[], ''/v1/models'', ''v1/models'']"

definition atomcode_moves :: "pydict \<Rightarrow> bool" where
  \<comment> \<open>the base URL is missing or the old one\<close>
  "atomcode_moves cfg \<longleftrightarrow>
     (let b = rstrip_char (CHR ''/'') (text_or (dget cfg ''base_url'') []) in b = [] \<or> b = ''https://coding.atomgit.com'')"

definition config_key :: "string \<Rightarrow> pydict \<Rightarrow> pyerror + string" where
  "config_key provider_name cfg =
     py_then (as_str (py_or (PStr provider_name) (py_or (dget cfg ''provider_name'') (py_or (dget cfg ''channel_name'')
       (py_or (dget cfg ''builtin_type'') (py_or (dget cfg ''type'') (PStr [])))))))
       (\<lambda>s. Inr (strip s))"

definition dset_if :: "bool \<Rightarrow> string \<Rightarrow> string \<Rightarrow> pydict \<Rightarrow> pydict" where
  "dset_if b k v d = (if b then dset d k (PStr v) else d)"

definition provider_defaults :: "string \<Rightarrow> pydict \<Rightarrow> pyerror + pydict" where
  "provider_defaults provider_name cfg =
     py_then (config_key provider_name cfg) (\<lambda>key.
       let d0 = PROVIDER_DEFAULTS key;
           chat = text_or (dget cfg ''chat_path'') [];
           models = text_or (dget cfg ''models_path'') [] in
       Inr (if key = ''codebuddy''
            then dset_if (models \<in> set CODEBUDDY_MODELS) ''models_path'' ''/plugin/v1/models''
                   (dset_if (chat \<in> set CODEBUDDY_CHAT) ''chat_path'' ''/v2/chat/completions''
                     (dset d0 ''base_url'' (PStr (codebuddy_base_url cfg))))
            else if key = ''atomcode''
            then dset_if (models \<in> set ATOMCODE_MODELS) ''models_path'' ''/coding-plan/models-v2''
                   (dset_if (chat \<in> set ATOMCODE_CHAT) ''chat_path'' ''/chat/completions''
                     (dset_if (atomcode_moves cfg) ''base_url'' ''https://llm-api.atomgit.com/v1''
                       (dset_if (dget cfg ''protocol'' = PNone \<or> dget cfg ''protocol'' = PStr ''anthropic'') ''protocol'' ''openai'' d0)))
            else d0))"

definition openai_row :: "string \<Rightarrow> pydict" where
  "openai_row path =
     [(''id'', PStr ''openai-chat-0''), (''enabled'', PBool True), (''protocol'', PStr ''openai''), (''path'', PStr path),
      (''upstream_stream'', PBool True), (''client_preset'', PStr ''none''), (''header_template'', PStr []),
      (''send_reasoning_content'', PBool True), (''models'', PList [])]"

definition with_openai_row :: "string \<Rightarrow> pydict \<Rightarrow> pydict" where
  \<comment> \<open>unless there is a non-empty list of rows\<close>
  "with_openai_row path merged =
     (case dget merged ''chat_protocols'' of
        PList (x # xs) \<Rightarrow> merged
      | _ \<Rightarrow> dset merged ''chat_protocols'' (rows_val [openai_row path]))"

definition replaced_if :: "string list \<Rightarrow> string \<Rightarrow> string \<Rightarrow> string" where
  "replaced_if olds new s = (if s \<in> set olds then new else s)"

definition merge_codebuddy :: "pydict \<Rightarrow> pydict" where
  "merge_codebuddy merged =
     (let chat = replaced_if CODEBUDDY_CHAT ''/v2/chat/completions'' (text_or (dget merged ''chat_path'') []);
          models = replaced_if CODEBUDDY_MODELS ''/plugin/v1/models'' (text_or (dget merged ''models_path'') [])
      in dsetdefault (with_openai_row chat (dset merged ''base_url'' (PStr (codebuddy_base_url merged))))
           ''models_path'' (PStr models))"

definition merge_atomcode :: "pydict \<Rightarrow> pydict" where
  "merge_atomcode merged =
     (let m1 = dset_if (atomcode_moves merged) ''base_url'' ''https://llm-api.atomgit.com/v1'' merged;
          chat = replaced_if ATOMCODE_CHAT ''/chat/completions'' (text_or (dget m1 ''chat_path'') []);
          models = replaced_if ATOMCODE_MODELS ''/coding-plan/models-v2'' (text_or (dget m1 ''models_path'') [])
      in dsetdefault (with_openai_row chat m1) ''models_path'' (PStr models))"

definition with_legacy_rows :: "pydict \<Rightarrow> pydict" where
  "with_legacy_rows merged =
     (if has_protocol_rows (dget merged ''chat_protocols'') then merged
      else (let rows = chat_protocols_from_legacy merged
            in if rows \<noteq> [] then dset merged ''chat_protocols'' (rows_val rows) else merged))"

definition merged_config :: "string \<Rightarrow> pydict \<Rightarrow> pyerror + pydict" where
  "merged_config provider_name cfg =
     py_then (provider_defaults provider_name cfg) (\<lambda>defaults.
     let merged = dsetdefault (dmerge defaults cfg) ''provider_name'' (PStr provider_name) in
     py_then (config_key provider_name merged) (\<lambda>key.
       Inr (with_legacy_rows
         (if key = ''codebuddy'' then merge_codebuddy merged
          else if key = ''atomcode'' then merge_atomcode merged else merged))))"

record channel_state =
  st_raw :: pydict
  st_enabled :: bool
  st_provider_name :: string
  st_protocol :: string
  st_base_url :: string
  st_chat_path :: string
  st_models_path :: pyval
  st_gemini_api_version :: pyval
  st_auth_header_style :: string
  st_image_path :: pyval
  st_video_path :: pyval
  st_speech_path :: pyval
  st_embeddings_path :: pyval
  st_supports_tts :: bool
  st_supports_image_generation :: bool
  st_supports_video_generation :: bool
  st_supports_embeddings :: bool
  st_upstream_stream :: pyval
  st_auto_update_models :: pyval
  st_model_id_rewrite_rules :: "pydict list"
  st_channel_remark :: pyval
  st_tags :: "string list"
  st_price_remark :: pyval
  st_test_model :: pyval
  st_client_preset :: string
  st_has_chat_protocols :: bool
  st_balance_config :: pyval
  st_timeout_seconds :: int
  st_extra_retry_status_codes :: "int list"
  st_response_compat_mode :: bool
  st_chat_protocols :: "pydict list"
  st_supported_protocols :: "string list"
  st_priority :: int
  st_weight :: int
  st_billing_mode :: pyval
  st_health_check :: pyval
  st_region :: pyval

definition row_enabled :: "pydict \<Rightarrow> bool" where
  "row_enabled cp = truthy (dget_or cp ''enabled'' (PBool True))"

definition primary_chat :: "pydict list \<Rightarrow> pydict" where
  \<comment> \<open>the first enabled row, else the first row, else \<open>{}\<close>\<close>
  "primary_chat rows = (case List.find row_enabled rows of
      Some cp \<Rightarrow> cp | None \<Rightarrow> (case rows of [] \<Rightarrow> [] | cp # _ \<Rightarrow> cp))"

definition supported_of :: "pydict \<Rightarrow> pydict list \<Rightarrow> string \<Rightarrow> pyerror + string list" where
  "supported_of merged rows protocol =
     py_then (py_iter (py_or (dget merged ''supported_protocols'')
        (py_or (PList (filter truthy (map (\<lambda>c. dget c ''protocol'') rows))) (PList [PStr protocol]))))
       (\<lambda>xs. let ps = map lower (nonblank_texts xs) in
         Inr (if ps \<noteq> [] then ps else if protocol \<noteq> [] then [protocol] else [''openai'']))"

definition timeout_of :: "pyval \<Rightarrow> int" where
  "timeout_of v = (case py_int (py_or v (PInt 120)) of Inl _ \<Rightarrow> 120 | Inr n \<Rightarrow> if n \<le> 0 then 120 else n)"

definition tags_of :: "pyval \<Rightarrow> string list" where
  "tags_of v = (case v of PList xs \<Rightarrow> remdups (map strip (nonblank_texts xs)) | _ \<Rightarrow> [])"

definition status_code_of :: "pyval \<Rightarrow> int option" where
  "status_code_of v =
     (case v of PBool _ \<Rightarrow> None
      | _ \<Rightarrow> (case py_int v of Inl _ \<Rightarrow> None | Inr n \<Rightarrow> if 100 \<le> n \<and> n \<le> 599 then Some n else None))"

definition extra_codes_of :: "pyval \<Rightarrow> int list" where
  \<comment> \<open>a single number or text counts as a list of one; \<open>isinstance(True, int)\<close> holds\<close>
  "extra_codes_of v =
     (let xs = (case v of PInt n \<Rightarrow> [v] | PBool b \<Rightarrow> [v] | PStr s \<Rightarrow> [v] | PList xs \<Rightarrow> xs | _ \<Rightarrow> [])
      in remdups (List.map_filter status_code_of xs))"

definition test_model_of :: "pydict \<Rightarrow> pyval \<Rightarrow> pyerror + pyval" where
  \<comment> \<open>\<open>merged.get("test_model") or health_check.get("test_model")\<close>\<close>
  "test_model_of merged health_check =
     (if truthy (dget merged ''test_model'') then Inr (dget merged ''test_model'')
      else (case health_check of PDict h \<Rightarrow> Inr (dget h ''test_model'') | _ \<Rightarrow> Inl AttributeError))"

definition int_or :: "pyval \<Rightarrow> int \<Rightarrow> pyerror + int" where
  \<comment> \<open>\<open>int(v or default)\<close>\<close>
  "int_or v n = py_int (py_or v (PInt n))"

definition snapshot :: "string \<Rightarrow> pydict \<Rightarrow> pyerror + channel_state" where
  "snapshot provider_name merged =
     (let rows = normalize_chat_protocols (dget merged ''chat_protocols'');
         primary = primary_chat rows;
         protocol = lower (text_or (dget primary ''protocol'') ''openai'');
         stream = dget_or primary ''upstream_stream'' (PBool True);
         health_check = py_or (dget merged ''health_check'') (PDict []) in
     py_then (as_str (py_or (dget merged ''base_url'') (PStr []))) (\<lambda>base_url.
     py_then (supported_of merged rows protocol) (\<lambda>supported.
     py_then (as_str (py_or (dget merged ''auth_header_style'') (py_or (dget merged ''gemini_auth_style'') (PStr ''api_key_header'')))) (\<lambda>auth.
     py_then (test_model_of merged health_check) (\<lambda>test_model.
     py_then (int_or (dget_or merged ''account_priority'' (dget_or merged ''priority'' (PInt 0))) 0) (\<lambda>priority.
     py_then (int_or (dget_or merged ''account_weight'' (dget_or merged ''weight'' (PInt 1))) 1) (\<lambda>weight.
     Inr \<lparr>st_raw = merged,
       st_enabled = (dget_or merged ''enabled'' (PBool True) \<noteq> PBool False),
       st_provider_name = provider_name,
       st_protocol = protocol,
       st_base_url = rstrip_char (CHR ''/'') base_url,
       st_chat_path = text_of primary ''path'',
       st_models_path = py_or (dget merged ''models_path'') (PStr (if protocol = ''gemini'' then ''/v1beta/models'' else ''/v1/models'')),
       st_gemini_api_version = py_or (dget merged ''gemini_api_version'') (PStr ''v1beta''),
       st_auth_header_style = lower auth,
       st_image_path = py_or (dget merged ''image_path'') (PStr ''/v1/images/generations''),
       st_video_path = py_or (dget merged ''video_path'') (PStr ''/v1/videos/generations''),
       st_speech_path = py_or (dget merged ''speech_path'') (PStr ''/v1/audio/speech''),
       st_embeddings_path = py_or (dget merged ''embeddings_path'') (PStr ''/v1/embeddings''),
       st_supports_tts = truthy (dget_or merged ''supports_tts'' (PBool False)),
       st_supports_image_generation = truthy (dget_or merged ''supports_image_generation'' (PBool False)),
       st_supports_video_generation = truthy (dget_or merged ''supports_video_generation'' (PBool False)),
       st_supports_embeddings = truthy (dget_or merged ''supports_embeddings'' (PBool False)),
       st_upstream_stream = (if stream = PNone then PBool True else stream),
       st_auto_update_models = dget_or merged ''auto_update_models'' (PBool True),
       st_model_id_rewrite_rules = normalize_model_id_rewrite_rules (dget merged ''model_id_rewrite_rules''),
       st_channel_remark = dget_or merged ''remark'' (PStr []),
       st_tags = tags_of (dget merged ''tags''),
       st_price_remark = dget_or merged ''price_remark'' (PStr []),
       st_test_model = test_model,
       st_client_preset = lower (text_or (dget primary ''client_preset'') ''none''),
       st_has_chat_protocols = (rows \<noteq> []),
       st_balance_config = py_or (dget merged ''balance'') (PDict []),
       st_timeout_seconds = timeout_of (dget merged ''timeout''),
       st_extra_retry_status_codes = extra_codes_of (dget merged ''extra_retry_status_codes''),
       st_response_compat_mode = truthy (dget_or merged ''response_compat_mode'' (PBool False)),
       st_chat_protocols = rows,
       st_supported_protocols = supported,
       st_priority = priority,
       st_weight = max 1 weight,
       st_billing_mode = dget_or merged ''billing_mode'' (PStr ''token''),
       st_health_check = health_check,
       st_region = dget merged ''region''\<rparr>)))))))"

definition build_state :: "string \<Rightarrow> pydict \<Rightarrow> pyerror + channel_state" where
  "build_state provider_name cfg = py_then (merged_config provider_name cfg) (snapshot provider_name)"

section \<open>The channel\<close>

record channel =
  ch_name :: string
  ch_models :: "pydict list"
  ch_scores :: "rat option \<times> rat"
  ch_on :: bool
  ch_state :: channel_state

definition new_channel :: "string \<Rightarrow> pydict \<Rightarrow> pyerror + channel" where
  "new_channel provider_name cfg =
     py_then (build_state provider_name cfg) (\<lambda>st.
       Inr \<lparr>ch_name = provider_name, ch_models = [], ch_scores = (None, 1),
            ch_on = (dget_or cfg ''enabled'' (PBool True) \<noteq> PBool False), ch_state = st\<rparr>)"

definition set_enabled :: "pyval \<Rightarrow> channel \<Rightarrow> channel" where
  \<comment> \<open>the setter of the property \<open>enabled\<close>\<close>
  "set_enabled v ch = ch\<lparr>ch_on := truthy v\<rparr>"

definition channel_disable :: "channel \<Rightarrow> channel" where
  "channel_disable ch = ch\<lparr>ch_on := False\<rparr>"

definition channel_enable :: "channel \<Rightarrow> channel" where
  "channel_enable ch = ch\<lparr>ch_on := True\<rparr>"

definition channel_apply :: "pydict \<Rightarrow> channel \<Rightarrow> channel \<times> pyerror option" where
  \<comment> \<open>the switch is set before the snapshot is built, which may raise\<close>
  "channel_apply cfg ch =
     (let ch1 = (case map_of cfg ''enabled'' of None \<Rightarrow> ch | Some v \<Rightarrow> ch\<lparr>ch_on := (v \<noteq> PBool False)\<rparr>) in
      case build_state (ch_name ch) cfg of
        Inl e \<Rightarrow> (ch1, Some e)
      | Inr st \<Rightarrow> (ch1\<lparr>ch_state := st\<rparr>, None))"

definition apply_models :: "pyval list \<Rightarrow> channel \<Rightarrow> channel" where
  "apply_models rows ch = ch\<lparr>ch_models := dicts_of rows\<rparr>"

definition first_protocol :: "pydict list \<Rightarrow> string" where
  "first_protocol cps = lower (text_or (dget (primary_chat cps) ''protocol'') ''openai'')"

definition channel_update :: "pydict \<Rightarrow> channel \<Rightarrow> channel \<times> (pyerror + string)" where
  "channel_update cfg ch =
     (case channel_apply cfg ch of
        (ch1, Some e) \<Rightarrow> (ch1, Inl e)
      | (ch1, None) \<Rightarrow> (ch1, Inr (first_protocol (st_chat_protocols (ch_state ch1)))))"

definition channel_get :: "channel \<Rightarrow> string \<Rightarrow> pyval \<Rightarrow> pyval" where
  "channel_get ch k v0 = dget_or (st_raw (ch_state ch)) k v0"

section \<open>URLs\<close>

definition cloudflare_base_url :: "channel \<Rightarrow> string \<Rightarrow> string" where
  \<comment> \<open>no account is the empty text\<close>
  "cloudflare_base_url ch account_id =
     (if ch_name ch = ''cloudflare'' \<and> account_id \<noteq> []
      then ''https://api.cloudflare.com/client/v4/accounts/'' @ account_id @ ''/ai/v1''
      else st_base_url (ch_state ch))"

definition cloudflare_models_url :: "channel \<Rightarrow> string \<Rightarrow> pyval" where
  "cloudflare_models_url ch account_id =
     (if ch_name ch = ''cloudflare'' \<and> account_id \<noteq> []
      then PStr (''https://api.cloudflare.com/client/v4/accounts/'' @ account_id @ ''/ai/models/search'')
      else st_models_path (ch_state ch))"

definition channel_url :: "channel \<Rightarrow> string \<Rightarrow> string \<Rightarrow> string" where
  "channel_url ch path account_id =
     (if startswith path ''http://'' \<or> startswith path ''https://'' then path
      else cloudflare_base_url ch account_id @ ''/'' @ lstrip_char (CHR ''/'') path)"

definition active_chat_protocol :: "pydict \<Rightarrow> pydict option" where
  "active_chat_protocol kwargs =
     (case dget kwargs ''_endpoint_config'' of PDict d \<Rightarrow> Some d
      | _ \<Rightarrow> (case dget kwargs ''_chat_protocol'' of PDict d \<Rightarrow> Some d | _ \<Rightarrow> None))"

definition default_path :: "string \<Rightarrow> string" where
  "default_path protocol = (if protocol = ''anthropic'' then ''/v1/messages''
     else if protocol = ''responses'' then ''/v1/responses'' else ''/v1/chat/completions'')"

definition chat_url :: "channel \<Rightarrow> pydict \<Rightarrow> string \<Rightarrow> pyerror + string" where
  "chat_url ch kwargs account_id =
     (let path = (case active_chat_protocol kwargs of None \<Rightarrow> PNone | Some cp \<Rightarrow> dget cp ''path'');
          st = ch_state ch in
      if truthy path then py_then (as_str path) (\<lambda>s. Inr (channel_url ch s account_id))
      else Inr (channel_url ch (if st_chat_path st \<noteq> [] then st_chat_path st else default_path (st_protocol st)) account_id))"

definition media_url :: "(channel_state \<Rightarrow> pyval) \<Rightarrow> channel \<Rightarrow> string \<Rightarrow> pyerror + string" where
  \<comment> \<open>the three media paths: the snapshot already holds the default\<close>
  "media_url field ch account_id = py_then (as_str (field (ch_state ch))) (\<lambda>s. Inr (channel_url ch s account_id))"

section \<open>The protocol row of a request\<close>

definition row_models :: "pydict \<Rightarrow> pyval list" where
  "row_models cp = (case dget cp ''models'' of PList xs \<Rightarrow> xs | _ \<Rightarrow> [])"

definition chat_protocol_rank :: "pydict \<Rightarrow> string option \<Rightarrow> string option \<Rightarrow> nat" where
  "chat_protocol_rank cp model_id request_protocol =
     (let bound = (opt_str model_id \<noteq> None \<and> row_models cp \<noteq> []);
          same = (case opt_str request_protocol of None \<Rightarrow> False | Some p \<Rightarrow> dget cp ''protocol'' = PStr p)
      in if bound then (if same then 0 else 1) else if same then 2 else 3)"

definition serves :: "string option \<Rightarrow> string option \<Rightarrow> pydict \<Rightarrow> bool" where
  "serves model_id protocol cp \<longleftrightarrow>
     row_enabled cp \<and>
     (case opt_str protocol of None \<Rightarrow> True | Some p \<Rightarrow> dget cp ''protocol'' = PStr p) \<and>
     (case opt_str model_id of None \<Rightarrow> True | Some m \<Rightarrow> row_models cp = [] \<or> PStr m \<in> set (row_models cp))"

definition chat_protocols_for :: "channel \<Rightarrow> string option \<Rightarrow> string option \<Rightarrow> pydict list" where
  "chat_protocols_for ch model_id protocol = filter (serves model_id protocol) (st_chat_protocols (ch_state ch))"

definition get_chat_protocol_candidates :: "channel \<Rightarrow> string option \<Rightarrow> string option \<Rightarrow> pydict list" where
  "get_chat_protocol_candidates ch model_id request_protocol =
     sort_key (\<lambda>cp. chat_protocol_rank cp model_id request_protocol) (chat_protocols_for ch model_id None)"

definition select_chat_protocol :: "channel \<Rightarrow> string option \<Rightarrow> string option \<Rightarrow> pydict option" where
  "select_chat_protocol ch model_id request_protocol =
     (case get_chat_protocol_candidates ch model_id request_protocol of [] \<Rightarrow> None | cp # _ \<Rightarrow> Some cp)"

section \<open>Models of a channel\<close>

definition resolve_upstream_id :: "channel \<Rightarrow> string \<Rightarrow> pyval" where
  "resolve_upstream_id ch model_id =
     (case List.find (\<lambda>row. dget row ''model_id'' = PStr model_id) (ch_models ch) of
        Some row \<Rightarrow> py_or (dget row ''upstream_model_id'') (PStr model_id)
      | None \<Rightarrow> PStr model_id)"

definition channel_rules :: "channel \<Rightarrow> pyval" where
  "channel_rules ch = rows_val (st_model_id_rewrite_rules (ch_state ch))"

definition public_model_id :: "regex \<Rightarrow> templates \<Rightarrow> channel \<Rightarrow> string \<Rightarrow> pyerror + string" where
  "public_model_id rx T ch model_id = apply_model_id_rewrite_rules rx T model_id (channel_rules ch) True"

definition has_model_id_rewrite_rules :: "templates \<Rightarrow> channel \<Rightarrow> bool" where
  "has_model_id_rewrite_rules T ch =
     list_ex (\<lambda>rule. flag_of rule ''enabled'') (expand_model_id_rewrite_rules T (channel_rules ch))"

definition matches_search_rules :: "regex \<Rightarrow> templates \<Rightarrow> channel \<Rightarrow> string \<Rightarrow> bool" where
  "matches_search_rules rx T ch model_id = model_id_matches_search_rules rx T model_id (channel_rules ch)"

definition matches_multiplier_rules :: "templates \<Rightarrow> channel \<Rightarrow> rat option \<Rightarrow> bool" where
  "matches_multiplier_rules T ch multiplier = model_matches_multiplier_rules T multiplier (channel_rules ch)"

definition has_name_filter_rules :: "templates \<Rightarrow> channel \<Rightarrow> bool" where
  "has_name_filter_rules T ch =
     list_ex (\<lambda>rule. flag_of rule ''enabled'' \<and> \<not> is_model_id_multiplier_entry rule) (expand_model_id_rewrite_rules T (channel_rules ch))"

definition has_multiplier_rules :: "templates \<Rightarrow> channel \<Rightarrow> bool" where
  "has_multiplier_rules T ch =
     list_ex (\<lambda>rule. flag_of rule ''enabled'' \<and> is_model_id_multiplier_entry rule) (expand_model_id_rewrite_rules T (channel_rules ch))"

definition channel_info_of :: "channel \<Rightarrow> channel_info" where
  \<comment> \<open>what the collection of candidates reads of the channel\<close>
  "channel_info_of ch =
     \<lparr>ci_enabled = ch_on ch, ci_tags = st_tags (ch_state ch), ci_models = ch_models ch,
      ci_protocols = (\<lambda>model p. get_chat_protocol_candidates ch (Some model) p)\<rparr>"

end
