(* ===== verification/Lub_ChannelProps.thy ===== *)
theory Lub_ChannelProps
  imports Lub_Channel
begin

text \<open>
  Properties of the channel configuration: normalising twice is normalising once, for rules and for
  protocol rows; the ids of protocol rows are unique; the choice of a protocol row; migration of an older
  configuration; the invariant of a channel along every sequence of operations; and two ways in which a bad
  configuration has effects it should not have.
\<close>

section \<open>Normalising rules\<close>

lemma text_or_strip [simp]: "strip (text_or (PStr s) []) = strip s"
  by simp

lemma template_idem: "template_entry item = Some e \<Longrightarrow> normalize_entry e = Some e"
  by (auto simp: template_entry_def normalize_entry_def entry_field_def entry_enabled_def Let_def split: if_splits)

lemma multiplier_idem: "multiplier_entry item = Some e \<Longrightarrow> normalize_entry e = Some e"
  by (auto simp: multiplier_entry_def normalize_entry_def entry_field_def entry_enabled_def Let_def float_of_num_def
      split: if_splits option.splits)

lemma rule_idem: "rule_entry item = Some e \<Longrightarrow> normalize_entry e = Some e"
  by (cases "dget item ''pattern''"; cases "dget item ''replacement''")
    (auto simp: rule_entry_def normalize_entry_def entry_field_def entry_enabled_def Let_def split: if_splits)

lemma normalize_entry_idem: "normalize_entry item = Some e \<Longrightarrow> normalize_entry e = Some e"
  unfolding normalize_entry_def [of item] by (auto simp: Let_def template_idem multiplier_idem rule_idem split: if_splits)

lemma map_filter_fixed: "(\<And>x y. f x = Some y \<Longrightarrow> f y = Some y) \<Longrightarrow> List.map_filter f (List.map_filter f xs) = List.map_filter f xs"
  by (induction xs) (auto simp: List.map_filter_simps split: option.splits)

lemma normalize_rules_idem [simp]:
  "normalize_model_id_rewrite_rules (rows_val (normalize_model_id_rewrite_rules raw)) = normalize_model_id_rewrite_rules raw"
  by (auto simp: normalize_model_id_rewrite_rules_def rows_val_def map_filter_fixed normalize_entry_idem
      List.map_filter_simps split: pyval.splits)

lemma expand_normalized [simp]:
  "expand_model_id_rewrite_rules T (rows_val (normalize_model_id_rewrite_rules raw)) = expand_model_id_rewrite_rules T raw"
  by (simp add: expand_model_id_rewrite_rules_def)

section \<open>Templates are flat\<close>

definition flat :: "templates \<Rightarrow> bool" where
  "flat T \<longleftrightarrow> (\<forall>(tid, rules) \<in> set T. \<forall>e \<in> set rules. \<not> is_model_id_template_entry e)"

lemma flat_cached: "flat T \<Longrightarrow> flat (cached_template item T)"
  using set_dset [of T] by (fastforce simp: flat_def cached_template_def Let_def)

lemma flat_cache: "flat (set_model_rule_template_cache ts)"
proof -
  have "flat T \<Longrightarrow> flat (fold cached_template ds T)" for ds T
    by (induction ds arbitrary: T) (auto simp: flat_cached)
  moreover have "flat []" by (simp add: flat_def)
  ultimately show ?thesis by (simp add: set_model_rule_template_cache_def)
qed

lemma expanded_flat:
  assumes "flat T" and "e \<in> set (expand_model_id_rewrite_rules T raw)"
  shows "\<not> is_model_id_template_entry e"
proof -
  from assms(2) obtain x where e: "e \<in> set (expand_entry T x)"
    by (auto simp: expand_model_id_rewrite_rules_def)
  show ?thesis
  proof (cases "is_model_id_template_entry x")
    case True
    with e obtain tid rules where "map_of T tid = Some rules" "e \<in> set rules"
      by (cases "map_of T (strip (text_of x ''template_id''))")
        (auto simp: expand_entry_def get_model_rule_template_def split: if_splits)
    with assms(1) show ?thesis by (auto simp: flat_def dest!: map_of_SomeD)
  qed (use e in \<open>simp add: expand_entry_def\<close>)
qed

section \<open>Rewriting\<close>

definition never_raises :: "regex \<Rightarrow> pydict list \<Rightarrow> bool" where
  "never_raises rx rules \<longleftrightarrow>
     (\<forall>rule \<in> set rules. \<forall>s e. renames rule \<longrightarrow> rx_sub rx (text_of rule ''pattern'') (text_of rule ''replacement'') s \<noteq> Rx_Raise e)"

lemma run_rules_nonempty: "run_rewrite_rules rx rules s = Inr r \<Longrightarrow> s \<noteq> [] \<Longrightarrow> r \<noteq> []"
  by (induction rx rules s rule: run_rewrite_rules.induct) (auto split: if_splits rx_result.splits)

lemma run_rules_returns: "never_raises rx rules \<Longrightarrow> \<exists>r. run_rewrite_rules rx rules s = Inr r"
proof (induction rx rules s rule: run_rewrite_rules.induct)
  case (2 rx rule rules s)
  then have rest: "never_raises rx rules" by (simp add: never_raises_def)
  show ?case
  proof (cases "renames rule")
    case True
    with 2 rest show ?thesis by (auto simp: never_raises_def split: rx_result.splits)
  qed (use 2 rest in auto)
qed simp

lemma prefix_nonempty: "m \<noteq> [] \<Longrightarrow> strip_model_owner_prefix m \<noteq> []"
  by (simp add: strip_model_owner_prefix_def Let_def)

lemma run_rules_skip: "\<forall>rule \<in> set rules. \<not> renames rule \<Longrightarrow> run_rewrite_rules rx rules s = Inr s"
  by (induction rules) auto

section \<open>Protocol rows\<close>

lemma fresh_id_fresh: "fresh_id seen idx s \<notin> set seen"
proof (induction seen idx s rule: fresh_id.induct)
  case (1 seen idx s)
  then show ?case by (subst fresh_id.simps) auto
qed

lemma fresh_id_unseen [simp]: "s \<notin> set seen \<Longrightarrow> fresh_id seen idx s = s"
  by (subst fresh_id.simps) simp

definition row_id :: "pydict \<Rightarrow> pyval" where
  "row_id row = dget row ''id''"

lemma row_id_row [simp]: "row_id (chat_protocol_row cp_id item) = PStr cp_id"
  by (simp add: row_id_def chat_protocol_row_def)

lemma protocol_rows_ids:
  "distinct (map row_id (protocol_rows idx seen vs)) \<and> (\<forall>row \<in> set (protocol_rows idx seen vs). row_id row \<notin> PStr ` set seen)"
proof (induction vs arbitrary: idx seen)
  case (Cons v vs)
  show ?case
  proof (cases v)
    case (PDict item)
    let ?id = "fresh_id seen idx (first_id idx item)"
    from Cons [of "Suc idx" "?id # seen"] fresh_id_fresh [of seen idx "first_id idx item"]
    show ?thesis by (auto simp: PDict Let_def)
  qed (use Cons in simp_all)
qed simp

lemma normalize_stream_idem [simp]:
  "normalize_upstream_stream (normalize_upstream_stream v) = normalize_upstream_stream v"
  by (simp add: normalize_upstream_stream_def is_upstream_stream_auto_def UPSTREAM_STREAM_AUTO_def lower_def lower_char_def
      strip_def lstrip_def rstrip_def is_space_def)

lemma py_repr_nonempty [simp]: "py_repr v \<noteq> []"
  by (cases v) (auto simp: int_str_def float_str_def repr_str_def Let_def)

lemma text_or_nonempty [simp]: "d \<noteq> [] \<Longrightarrow> text_or v d \<noteq> []"
  by (cases v) (auto simp: text_or_def py_or_def py_str_def int_str_def float_str_def Let_def)

lemma lower_eq_Nil [simp]: "lower s = [] \<longleftrightarrow> s = []"
  by (simp add: lower_def)

lemma lower_text_idem: "d \<noteq> [] \<Longrightarrow> lower (text_or (PStr (lower (text_or v d))) d) = lower (text_or v d)"
  by simp

lemma row_idem: "chat_protocol_row cp_id (chat_protocol_row cp_id item) = chat_protocol_row cp_id item"
  by (simp add: chat_protocol_row_def entry_field_def strs_def sends_reasoning_def split: pyval.splits)

lemma first_id_row: "cp_id \<noteq> [] \<Longrightarrow> strip cp_id = cp_id \<Longrightarrow> first_id idx (chat_protocol_row cp_id item) = cp_id"
  by (simp add: first_id_def entry_field_def chat_protocol_row_def Let_def)

lemma tidy_strip: "strip s \<noteq> [] \<Longrightarrow> tidy (strip s)"
proof -
  assume ne: "strip s \<noteq> []"
  have "lstrip (strip s) = strip s" "rstrip (strip s) = strip s"
    by (fact lstrip_strip, fact rstrip_strip)
  with ne have "\<not> is_space (hd (strip s))" "\<not> is_space (hd (rev (strip s)))"
    unfolding lstrip_def rstrip_def by (metis hd_dropWhile dropWhile_eq_Nil_conv rev_is_Nil_conv rev_rev_ident)+
  with ne show "tidy (strip s)" by (simp add: tidy_def hd_rev)
qed

lemma space_code: "is_space c \<Longrightarrow> (of_char c :: nat) \<le> 32"
  by (auto simp: is_space_def)

lemma nat_str_last: "\<not> is_space (last (nat_str n))"
proof -
  have "last (nat_str n) \<in> set (nat_str n)" by simp
  with set_nat_str obtain d where "d \<le> 9" "last (nat_str n) = digit_char d" by fastforce
  moreover have "d \<le> 9 \<Longrightarrow> \<not> is_space (digit_char d)" for d :: nat
    using space_code [of "digit_char d"] by (auto simp: digit_char_def)
  ultimately show ?thesis by simp
qed

lemma tidy_numbered: "tidy s \<Longrightarrow> tidy (s @ t @ nat_str n)"
  by (simp add: tidy_def nat_str_last)

lemma fresh_id_tidy: "tidy s \<Longrightarrow> tidy (fresh_id seen idx s)"
proof (induction seen idx s rule: fresh_id.induct)
  case (1 seen idx s)
  then show ?case using tidy_numbered [of s "''-''" idx] by (subst fresh_id.simps) auto
qed

lemma tidy_prefixed: "s \<noteq> [] \<Longrightarrow> \<not> is_space (hd s) \<Longrightarrow> tidy (s @ t @ nat_str n)"
  by (simp add: tidy_def nat_str_last)

definition clear_protocol :: "pydict \<Rightarrow> bool" where
  "clear_protocol item \<longleftrightarrow> \<not> is_space (hd (lower (text_or (dget item ''protocol'') ''openai'')))"

definition clear_protocols :: "pyval \<Rightarrow> bool" where
  "clear_protocols raw \<longleftrightarrow> (case raw of PList xs \<Rightarrow> list_all clear_protocol (dicts_of xs) | _ \<Rightarrow> True)"

lemma first_id_tidy: "clear_protocol item \<Longrightarrow> tidy (first_id idx item)"
  using tidy_strip [of "text_or (dget item ''id'') []"]
    tidy_prefixed [of "lower (text_or (dget item ''protocol'') ''openai'')" "''-chat-''" idx]
  by (auto simp: first_id_def entry_field_def clear_protocol_def Let_def)

definition normal_row :: "pydict \<Rightarrow> bool" where
  "normal_row row \<longleftrightarrow> (\<exists>cp_id item. row = chat_protocol_row cp_id item \<and> tidy cp_id)"

lemma dicts_of_Cons: "dicts_of (v # vs) = (case v of PDict d \<Rightarrow> d # dicts_of vs | _ \<Rightarrow> dicts_of vs)"
  by (cases v) (auto simp: dicts_of_def)

lemma rows_normal: "list_all clear_protocol (dicts_of vs) \<Longrightarrow> \<forall>row \<in> set (protocol_rows idx seen vs). normal_row row"
proof (induction vs arbitrary: idx seen)
  case (Cons v vs)
  then show ?case
    by (cases v) (auto simp: dicts_of_Cons Let_def normal_row_def intro: fresh_id_tidy first_id_tidy)
qed simp

lemma rows_fixed:
  assumes "\<forall>row \<in> set rows. normal_row row" and "distinct (map row_id rows)" and "\<forall>row \<in> set rows. row_id row \<notin> PStr ` set seen"
  shows "protocol_rows idx seen (map PDict rows) = rows"
  using assms
proof (induction rows arbitrary: idx seen)
  case (Cons row rows)
  then obtain cp_id item where row: "row = chat_protocol_row cp_id item" "tidy cp_id" by (auto simp: normal_row_def)
  with Cons.prems have "cp_id \<notin> set seen" by auto
  have other: "row_id r \<noteq> PStr cp_id" if "r \<in> set rows" for r
    using Cons.prems(2) row(1) that by (metis distinct.simps(2) image_eqI list.set_map list.simps(9) row_id_row)
  have "protocol_rows (Suc idx) (cp_id # seen) (map PDict rows) = rows"
    using Cons.prems other by (intro Cons.IH) auto
  with \<open>cp_id \<notin> set seen\<close> show ?case using row strip_tidy [OF row(2)]
    by (simp add: first_id_row row_idem Let_def tidy_def)
qed simp

lemma normalize_protocols_idem:
  "clear_protocols raw \<Longrightarrow> normalize_chat_protocols (rows_val (normalize_chat_protocols raw)) = normalize_chat_protocols raw"
  using protocol_rows_ids [of 0 "[]"]
  by (cases raw) (auto simp: normalize_chat_protocols_def rows_val_def clear_protocols_def intro!: rows_fixed rows_normal
      dest: bspec [OF rows_normal])

section \<open>Migration\<close>

lemma map_sum_then: "map_sum id f (py_then m g) = py_then m (\<lambda>x. map_sum id f (g x))"
  by (cases m) simp_all

lemma snapshot_cong:
  assumes "\<And>k. k \<notin> set (''chat_protocols'' # LEGACY_CHAT_KEYS) \<Longrightarrow> map_of m' k = map_of m k"
    and "normalize_chat_protocols (dget m' ''chat_protocols'') = normalize_chat_protocols (dget m ''chat_protocols'')"
  shows "snapshot name m' = map_sum id (\<lambda>st. st\<lparr>st_raw := m'\<rparr>) (snapshot name m)"
proof -
  have get: "dget m' k = dget m k" "dget_or m' k v = dget_or m k v"
    if "k \<notin> set (''chat_protocols'' # LEGACY_CHAT_KEYS)" for k v
    using assms(1) [OF that] by (simp_all add: dget_def dget_or_def)
  have parts: "supported_of m' rows p = supported_of m rows p" "test_model_of m' h = test_model_of m h" for rows p h
    by (simp_all add: supported_of_def test_model_of_def get LEGACY_CHAT_KEYS_def)
  show ?thesis
    by (simp add: snapshot_def Let_def parts get LEGACY_CHAT_KEYS_def assms(2) map_sum_then)
qed

definition plain_provider :: "string \<Rightarrow> bool" where
  "plain_provider name \<longleftrightarrow> name \<noteq> [] \<and> strip name \<noteq> ''codebuddy'' \<and> strip name \<noteq> ''atomcode''"

lemma config_key_name [simp]: "name \<noteq> [] \<Longrightarrow> config_key name cfg = Inr (strip name)"
  by (simp add: config_key_def as_str_def py_or_def)

definition plain_merge :: "string \<Rightarrow> pydict \<Rightarrow> pydict" where
  "plain_merge name cfg = dsetdefault (dmerge (PROVIDER_DEFAULTS (strip name)) cfg) ''provider_name'' (PStr name)"

lemma merged_plain: "plain_provider name \<Longrightarrow> merged_config name cfg = Inr (with_legacy_rows (plain_merge name cfg))"
  by (simp add: plain_provider_def merged_config_def provider_defaults_def plain_merge_def Let_def)

lemma map_of_rev_distinct: "distinct (map fst d) \<Longrightarrow> map_of (rev d) k = map_of d k"
  by (metis distinct_rev map_of_eqI map_of_inject_set rev_map set_rev)

lemma defaults_keys: "k \<in> set (''chat_protocols'' # LEGACY_CHAT_KEYS) \<Longrightarrow> map_of (PROVIDER_DEFAULTS key) k = None"
  by (auto simp: LEGACY_CHAT_KEYS_def PROVIDER_DEFAULTS_def)

lemma map_of_plain_merge:
  assumes "distinct (map fst cfg)"
  shows "map_of (plain_merge name cfg) k =
     (case map_of cfg k of Some v \<Rightarrow> Some v
      | None \<Rightarrow> (case map_of (PROVIDER_DEFAULTS (strip name)) k of Some v \<Rightarrow> Some v
          | None \<Rightarrow> if k = ''provider_name'' then Some (PStr name) else None))"
  using assms
  by (auto simp: plain_merge_def dsetdefault_def map_of_dmerge map_of_rev_distinct split: option.splits)

lemma map_of_fold_dpop: "map_of (fold (\<lambda>k d. dremove d k) ks d) k = (if k \<in> set ks then None else map_of d k)"
  by (induction ks arbitrary: d) auto

lemma distinct_dpop: "distinct (map fst d) \<Longrightarrow> distinct (map fst (fold (\<lambda>k d. dremove d k) ks d))"
  by (induction ks arbitrary: d) (auto simp: dremove_def distinct_map_filter)

lemma legacy_cong:
  assumes "\<And>k. k \<in> set (''chat_protocols'' # LEGACY_CHAT_KEYS) \<Longrightarrow> map_of m' k = map_of m k"
  shows "chat_protocols_from_legacy m' = chat_protocols_from_legacy m"
proof -
  have "dget m' k = dget m k" "dget_or m' k v = dget_or m k v" if "k \<in> set (''chat_protocols'' # LEGACY_CHAT_KEYS)" for k v
    using assms [OF that] by (simp_all add: dget_def dget_or_def)
  then show ?thesis by (simp add: chat_protocols_from_legacy_def LEGACY_CHAT_KEYS_def Let_def)
qed

lemma legacy_plain_merge:
  assumes "distinct (map fst cfg)"
  shows "chat_protocols_from_legacy (plain_merge name cfg) = chat_protocols_from_legacy cfg"
proof (rule legacy_cong)
  fix k assume k: "k \<in> set (''chat_protocols'' # LEGACY_CHAT_KEYS)"
  then have "k \<noteq> ''provider_name''" by (auto simp: LEGACY_CHAT_KEYS_def)
  with k assms show "map_of (plain_merge name cfg) k = map_of cfg k"
    by (simp add: map_of_plain_merge defaults_keys split: option.splits)
qed

lemma map_of_migrated:
  "map_of (default_config_with_chat_protocols cfg) k =
     (if k \<in> set LEGACY_CHAT_KEYS then None
      else if k = ''chat_protocols'' \<and> chat_protocols_from_legacy cfg \<noteq> [] then Some (rows_val (chat_protocols_from_legacy cfg))
      else map_of cfg k)"
  by (auto simp: default_config_with_chat_protocols_def Let_def map_of_fold_dpop)

lemma distinct_migrated: "distinct (map fst cfg) \<Longrightarrow> distinct (map fst (default_config_with_chat_protocols cfg))"
  by (simp add: default_config_with_chat_protocols_def Let_def distinct_dpop distinct_dset)

lemma legacy_rows_val [simp]: "has_protocol_rows (rows_val rows) \<longleftrightarrow> rows \<noteq> []"
  by (cases rows) (auto simp: has_protocol_rows_def rows_val_def is_pdict_def)

lemma dget_plain_rows:
  "distinct (map fst cfg) \<Longrightarrow> dget (plain_merge name cfg) ''chat_protocols'' = dget cfg ''chat_protocols''"
  using defaults_keys [of "''chat_protocols''" "strip name"]
  by (simp add: dget_def map_of_plain_merge split: option.splits)

definition rows_in_force :: "pydict \<Rightarrow> pydict list" where
  "rows_in_force cfg = (if has_protocol_rows (dget cfg ''chat_protocols'') \<or> chat_protocols_from_legacy cfg = []
     then normalize_chat_protocols (dget cfg ''chat_protocols'')
     else normalize_chat_protocols (rows_val (chat_protocols_from_legacy cfg)))"

lemma normalize_with_legacy:
  "distinct (map fst cfg) \<Longrightarrow>
     normalize_chat_protocols (dget (with_legacy_rows (plain_merge name cfg)) ''chat_protocols'') = rows_in_force cfg"
  by (simp add: with_legacy_rows_def rows_in_force_def legacy_plain_merge dget_plain_rows Let_def dget_dset)

lemma rows_of_dicts: "list_ex is_pdict xs \<Longrightarrow> protocol_rows idx seen xs \<noteq> []"
  by (induction xs arbitrary: idx seen) (auto simp: is_pdict_def Let_def split: pyval.splits)

lemma migrated_rows:
  assumes "clear_protocols (dget cfg ''chat_protocols'')"
  shows "rows_in_force (default_config_with_chat_protocols cfg) = rows_in_force cfg"
proof -
  let ?rows = "chat_protocols_from_legacy cfg" and ?cfg = "default_config_with_chat_protocols cfg"
  have key: "''chat_protocols'' \<notin> set LEGACY_CHAT_KEYS" by (simp add: LEGACY_CHAT_KEYS_def)
  then have new: "dget ?cfg ''chat_protocols'' = (if ?rows = [] then dget cfg ''chat_protocols'' else rows_val ?rows)"
    by (simp add: dget_def map_of_migrated)
  show ?thesis
  proof (cases "has_protocol_rows (dget cfg ''chat_protocols'')")
    case True
    then have "?rows = normalize_chat_protocols (dget cfg ''chat_protocols'')" "?rows \<noteq> []"
      by (auto simp: chat_protocols_from_legacy_def has_protocol_rows_def normalize_chat_protocols_def Let_def rows_of_dicts split: pyval.splits)
    with assms True show ?thesis by (simp add: rows_in_force_def new normalize_protocols_idem)
  next
    case False
    have "?rows = [] \<Longrightarrow> chat_protocols_from_legacy ?cfg = []"
      using False new by (simp add: chat_protocols_from_legacy_def [of ?cfg] dget_def map_of_migrated LEGACY_CHAT_KEYS_def Let_def)
    with False show ?thesis by (simp add: rows_in_force_def new)
  qed
qed

text \<open>
  Migrating an older configuration, in which the protocol is described by top-level fields, to rows of
  chat protocols changes nothing of the snapshot the channel works with, except the stored configuration
  itself. This holds for every channel without rules of its own (\<open>codebuddy\<close>, \<open>atomcode\<close>) whose rows name
  their protocol without a leading blank.
\<close>
theorem migration_keeps_snapshot:
  assumes "plain_provider name" and "distinct (map fst cfg)" and "clear_protocols (dget cfg ''chat_protocols'')"
  shows "build_state name (default_config_with_chat_protocols cfg) =
           map_sum id (\<lambda>st. st\<lparr>st_raw := with_legacy_rows (plain_merge name (default_config_with_chat_protocols cfg))\<rparr>)
             (build_state name cfg)"
proof -
  let ?m = "\<lambda>cfg. with_legacy_rows (plain_merge name cfg)"
  have "snapshot name (?m (default_config_with_chat_protocols cfg)) =
      map_sum id (\<lambda>st. st\<lparr>st_raw := ?m (default_config_with_chat_protocols cfg)\<rparr>) (snapshot name (?m cfg))"
  proof (rule snapshot_cong)
    fix k assume "k \<notin> set (''chat_protocols'' # LEGACY_CHAT_KEYS)"
    then show "map_of (?m (default_config_with_chat_protocols cfg)) k = map_of (?m cfg) k"
      using assms(2) by (simp add: with_legacy_rows_def Let_def map_of_plain_merge distinct_migrated map_of_migrated)
  qed (use assms in \<open>simp add: normalize_with_legacy distinct_migrated migrated_rows\<close>)
  then show ?thesis using assms(1) by (simp add: build_state_def merged_plain)
qed

definition old_cfg :: pydict where
  "old_cfg = [(''base_url'', PStr ''https://up/''), (''protocol'', PStr ''Anthropic''), (''chat_path'', PStr ''/v1/messages''),
     (''supports_stream'', PBool False), (''weight'', PInt 3)]"

theorem migration_keeps_snapshot_witness:
  "plain_provider ''acme'' \<and> distinct (map fst old_cfg) \<and> clear_protocols (dget old_cfg ''chat_protocols'') \<and>
   build_state ''acme'' (default_config_with_chat_protocols old_cfg) =
     map_sum id (\<lambda>st. st\<lparr>st_raw := with_legacy_rows (plain_merge ''acme'' (default_config_with_chat_protocols old_cfg))\<rparr>)
       (build_state ''acme'' old_cfg)"
proof -
  have "plain_provider ''acme''"
    by (simp add: plain_provider_def strip_def lstrip_def rstrip_def is_space_def)
  moreover have "distinct (map fst old_cfg)" "clear_protocols (dget old_cfg ''chat_protocols'')"
    by (simp_all add: old_cfg_def clear_protocols_def)
  ultimately show ?thesis using migration_keeps_snapshot [of "''acme''" old_cfg] by blast
qed

section \<open>The rules in force\<close>

lemma state_rules:
  assumes "plain_provider name" and "distinct (map fst cfg)" and "build_state name cfg = Inr st"
  shows "st_model_id_rewrite_rules st = normalize_model_id_rewrite_rules (dget cfg ''model_id_rewrite_rules'')"
proof -
  have "dget (with_legacy_rows (plain_merge name cfg)) ''model_id_rewrite_rules'' = dget cfg ''model_id_rewrite_rules''"
    using assms(2) by (auto simp: with_legacy_rows_def Let_def dget_dset dget_def map_of_plain_merge PROVIDER_DEFAULTS_def split: option.splits)
  with assms show ?thesis
    by (auto simp: build_state_def merged_plain snapshot_def Let_def returns_iff)
qed

text \<open>
  A channel that is built from a configuration gives a model the public name that the configured rules
  give it, with templates expanded where they stand, although it stores the rules in normalised form and
  normalises them again at every use. If no pattern raises anything but \<open>re.error\<close>, there is a result, and a
  model with a name never ends with an empty one.
\<close>
theorem public_name_by_configured_rules:
  assumes "plain_provider name" and "distinct (map fst cfg)" and "new_channel name cfg = Inr ch"
    and "never_raises rx (expand_model_id_rewrite_rules T (dget cfg ''model_id_rewrite_rules''))" and "m \<noteq> []"
  shows "\<exists>r. public_model_id rx T ch m = Inr r \<and> r \<noteq> [] \<and>
           run_rewrite_rules rx (expand_model_id_rewrite_rules T (dget cfg ''model_id_rewrite_rules'')) (strip_model_owner_prefix m) = Inr r"
proof -
  let ?rules = "expand_model_id_rewrite_rules T (dget cfg ''model_id_rewrite_rules'')"
  from assms(3) have "expand_model_id_rewrite_rules T (channel_rules ch) = ?rules"
    using state_rules [OF assms(1,2)] by (auto simp: new_channel_def returns_iff channel_rules_def)
  moreover obtain r where "run_rewrite_rules rx ?rules (strip_model_owner_prefix m) = Inr r"
    using run_rules_returns [OF assms(4)] by blast
  ultimately show ?thesis using prefix_nonempty [OF assms(5)] run_rules_nonempty
    by (fastforce simp: public_model_id_def apply_model_id_rewrite_rules_def Let_def)
qed

text \<open>A substitution engine for plain texts: a pattern matches itself at the beginning of the name.\<close>

definition literal_rx :: regex where
  "literal_rx = \<lparr>rx_compiles = (\<lambda>p. True), rx_search = (\<lambda>p s. Some (contains p s)),
     rx_sub = (\<lambda>p r s. if r = ''no-such-group'' then Rx_Raise IndexError
        else Rx_Text (if startswith s p then r @ drop (length p) s else s))\<rparr>"

definition renaming_cfg :: "string \<Rightarrow> pydict" where
  "renaming_cfg replacement =
     [(''model_id_rewrite_rules'', PList [PDict [(''pattern'', PStr ''glm''), (''replacement'', PStr replacement)]])]"

definition channel_with :: "string \<Rightarrow> pydict \<Rightarrow> channel" where
  "channel_with name cfg = (case new_channel name cfg of Inr ch \<Rightarrow> ch | Inl _ \<Rightarrow> undefined)"

lemmas build_defs = new_channel_def build_state_def merged_plain plain_provider_def snapshot_def supported_of_def
  test_model_of_def int_or_def as_str_def with_legacy_rows_def plain_merge_def PROVIDER_DEFAULTS_def dmerge_def dsetdefault_def
  py_or_def chat_protocols_from_legacy_def has_protocol_rows_def normalize_chat_protocols_def primary_chat_def
  py_iter_def nonblank_texts_def timeout_of_def tags_of_def extra_codes_of_def

lemmas strip_defs = strip_def lstrip_def rstrip_def is_space_def

lemma acme_plain: "plain_provider ''acme''"
  by (simp add: plain_provider_def strip_defs)

lemma renaming_channel: "\<exists>ch. new_channel ''acme'' (renaming_cfg r) = Inr ch"
  by (simp add: build_defs renaming_cfg_def strip_defs Let_def lower_def lower_char_def map_filter_simps)

section \<open>The chosen protocol row\<close>

lemma sort_key_first:
  fixes f :: "'a \<Rightarrow> nat"
  shows "sort_key f xs = x # ys \<Longrightarrow>
    \<exists>pre post. xs = pre @ x # post \<and> (\<forall>y \<in> set pre. f x < f y) \<and> (\<forall>y \<in> set post. f x \<le> f y)"
proof (induction xs arbitrary: x ys)
  case (Cons a xs)
  show ?case
  proof (cases "sort_key f xs")
    case Nil
    then have "xs = []" by (metis length_sort length_0_conv)
    with Cons.prems show ?thesis by (intro exI [of _ "[]"]) simp
  next
    case (Cons b zs)
    then obtain pre post where b: "xs = pre @ b # post" "\<forall>y \<in> set pre. f b < f y" "\<forall>y \<in> set post. f b \<le> f y"
      using Cons.IH by blast
    show ?thesis
    proof (cases "f a \<le> f b")
      case True
      with Cons Cons.prems have "x = a" by simp
      with b True show ?thesis by (intro exI [of _ "[]"] exI [of _ xs]) fastforce
    next
      case False
      with Cons Cons.prems have "x = b" by simp
      with b False show ?thesis by (intro exI [of _ "a # pre"] exI [of _ post]) auto
    qed
  qed
qed simp

text \<open>
  The row of chat protocols for a request is an enabled row that serves the model, and of these the first
  of the best rank: rows that name the model come before general rows, and within each kind those of the
  protocol of the request come first. No row is chosen exactly if none serves the model.
\<close>
theorem chosen_row_is_first_best:
  assumes "select_chat_protocol ch m p = r"
  shows "case r of
      None \<Rightarrow> chat_protocols_for ch m None = []
    | Some cp \<Rightarrow> serves m None cp \<and> (\<exists>pre post. chat_protocols_for ch m None = pre @ cp # post \<and>
        (\<forall>x \<in> set pre. chat_protocol_rank cp m p < chat_protocol_rank x m p) \<and>
        (\<forall>x \<in> set post. chat_protocol_rank cp m p \<le> chat_protocol_rank x m p))"
proof (cases "get_chat_protocol_candidates ch m p")
  case Nil
  then have "chat_protocols_for ch m None = []"
    unfolding get_chat_protocol_candidates_def by (metis length_sort length_0_conv)
  with assms Nil show ?thesis by (auto simp: select_chat_protocol_def)
next
  case (Cons cp cps)
  then have "cp \<in> set (chat_protocols_for ch m None)"
    unfolding get_chat_protocol_candidates_def by (metis list.set_intros(1) set_sort)
  then have "serves m None cp" by (simp add: chat_protocols_for_def)
  moreover have "r = Some cp" using assms Cons by (simp add: select_chat_protocol_def)
  ultimately show ?thesis using sort_key_first [OF Cons [unfolded get_chat_protocol_candidates_def]] by simp
qed

section \<open>The invariant of a channel\<close>

definition state_ok :: "channel_state \<Rightarrow> bool" where
  "state_ok st \<longleftrightarrow> 1 \<le> st_weight st \<and> 0 < st_timeout_seconds st \<and> st_supported_protocols st \<noteq> [] \<and>
     (\<forall>c \<in> set (st_extra_retry_status_codes st). 100 \<le> c \<and> c \<le> 599) \<and>
     distinct (map row_id (st_chat_protocols st)) \<and>
     (st_base_url st \<noteq> [] \<longrightarrow> last (st_base_url st) \<noteq> CHR ''/'') \<and>
     normalize_model_id_rewrite_rules (rows_val (st_model_id_rewrite_rules st)) = st_model_id_rewrite_rules st"

definition scores_ok :: "rat option \<times> rat \<Rightarrow> bool" where
  "scores_ok x \<longleftrightarrow> 1/10 \<le> snd x \<and> snd x \<le> 10 \<and> (\<forall>e. fst x = Some e \<longrightarrow> 0 < e)"

definition channel_sound :: "channel \<Rightarrow> bool" where
  "channel_sound ch \<longleftrightarrow> state_ok (ch_state ch) \<and> scores_ok (ch_scores ch)"

inductive channel_step :: "channel \<Rightarrow> channel \<Rightarrow> bool" where
  step_apply: "channel_apply cfg ch = (ch', e) \<Longrightarrow> channel_step ch ch'"
| step_models: "channel_step ch (apply_models rows ch)"
| step_switch: "channel_step ch (set_enabled v ch)"
| step_disable: "channel_step ch (channel_disable ch)"
| step_enable: "channel_step ch (channel_enable ch)"
| step_ttft: "channel_step ch (ch\<lparr>ch_scores := channel_record_ttft v (ch_scores ch)\<rparr>)"
| step_failure: "channel_step ch (ch\<lparr>ch_scores := channel_record_failure (ch_scores ch)\<rparr>)"

lemma rstrip_char_last: "rstrip_char c s \<noteq> [] \<Longrightarrow> last (rstrip_char c s) \<noteq> c"
  using hd_dropWhile [of "\<lambda>x. x = c" "rev s"] by (simp add: rstrip_char_def last_rev del: dropWhile_eq_Nil_conv)

lemma status_in_range: "status_code_of v = Some c \<Longrightarrow> 100 \<le> c \<and> c \<le> 599"
  by (auto simp: status_code_of_def split: if_splits pyval.splits sum.splits)

lemma codes_in_range: "c \<in> set (extra_codes_of v) \<Longrightarrow> 100 \<le> c \<and> c \<le> 599"
  using status_in_range [of _ c] by (auto simp: extra_codes_of_def Let_def set_map_filter_iff)

lemma supported_nonempty: "supported_of m rows p = Inr ps \<Longrightarrow> ps \<noteq> []"
  by (auto simp: supported_of_def returns_iff Let_def split: if_splits)

lemma snapshot_ok: "snapshot name m = Inr st \<Longrightarrow> state_ok st"
proof -
  have rows: "distinct (map row_id (normalize_chat_protocols v))" for v
    using protocol_rows_ids [of 0 "[]"] by (cases v) (simp_all add: normalize_chat_protocols_def)
  have timeout: "0 < timeout_of v" for v by (simp add: timeout_of_def split: sum.splits)
  assume "snapshot name m = Inr st"
  then show ?thesis
    using rows timeout supported_nonempty codes_in_range rstrip_char_last
    by (auto simp: snapshot_def state_ok_def Let_def returns_iff)
qed

lemma build_state_ok: "build_state name cfg = Inr st \<Longrightarrow> state_ok st"
  by (auto simp: build_state_def returns_iff snapshot_ok)

lemma new_channel_ok: "new_channel name cfg = Inr ch \<Longrightarrow> channel_sound ch"
  by (auto simp: new_channel_def returns_iff channel_sound_def scores_ok_def build_state_ok)

lemma ttft_ok: "scores_ok x \<Longrightarrow> scores_ok (channel_record_ttft v x)"
  by (auto simp: scores_ok_def channel_record_ttft_def Let_def add_pos_pos split: option.splits)

lemma failure_ok: "scores_ok x \<Longrightarrow> scores_ok (channel_record_failure x)"
  by (auto simp: scores_ok_def channel_record_failure_def max_def)

lemma channel_step_ok: "channel_step ch ch' \<Longrightarrow> channel_sound ch \<Longrightarrow> channel_sound ch'"
proof (induction rule: channel_step.induct)
  case (step_apply cfg ch ch' e)
  then show ?case
    by (cases "build_state (ch_name ch) cfg"; cases "map_of cfg ''enabled''")
      (auto simp: channel_apply_def channel_sound_def Let_def build_state_ok)
qed (auto simp: channel_sound_def apply_models_def set_enabled_def channel_disable_def channel_enable_def ttft_ok failure_ok)

text \<open>
  C27. Whatever a channel is configured with, and in whatever order configurations, model tables, switches and
  response times reach it: its weight and its timeout stay positive, some protocol is supported, the extra
  status codes are HTTP status codes, the ids of its protocol rows are distinct, the base URL has no trailing
  slash, the stored rules are in normal form, and its score stays between 0.1 and 10.
\<close>
theorem channel_invariant:
  assumes "new_channel name cfg = Inr ch" and "channel_step\<^sup>*\<^sup>* ch ch'"
  shows "channel_sound ch'"
  using assms(2) by (induction rule: rtranclp_induct) (simp_all add: new_channel_ok [OF assms(1)] channel_step_ok)

section \<open>Bad configurations\<close>

text \<open>
  A configuration that cannot be turned into a snapshot, for example because its priority is not a
  number, is rejected with an exception, and the channel keeps its snapshot; but the switch has been set
  before, so that a rejected configuration can still disable or enable the channel.
\<close>
theorem rejected_configuration_switches:
  assumes "build_state (ch_name ch) cfg = Inl e" and "map_of cfg ''enabled'' = Some v"
  shows "channel_apply cfg ch = (ch\<lparr>ch_on := (v \<noteq> PBool False)\<rparr>, Some e)"
  using assms by (simp add: channel_apply_def Let_def)

lemma single_rule:
  assumes "strip pattern \<noteq> []"
  shows "normalize_model_id_rewrite_rules (PList [PDict [(''pattern'', PStr pattern), (''replacement'', PStr replacement)]]) =
    [[(''name'', PStr []), (''enabled'', PBool True), (''pattern'', PStr pattern), (''replacement'', PStr replacement), (''search_only'', PBool False)]]"
  using assms
  by (simp add: normalize_model_id_rewrite_rules_def dicts_of_def List.map_filter_simps normalize_entry_def rule_entry_def
      entry_field_def entry_enabled_def)

text \<open>
  The check before saving compiles the pattern of a rule and does not look at its replacement. Python's
  substitution raises \<open>IndexError\<close>, not \<open>re.error\<close>, for an unknown group name in a replacement; a rule with
  such a replacement passes the check, and every rewriting with it raises instead of skipping the rule, as the
  documentation of the rewriting promises.
\<close>
theorem unknown_group_raises:
  assumes "strip pattern \<noteq> []" and "rx_compiles rx pattern" and "m \<noteq> []"
    and "rx_sub rx pattern replacement (strip_model_owner_prefix m) = Rx_Raise IndexError"
    and "rules = PList [PDict [(''pattern'', PStr pattern), (''replacement'', PStr replacement)]]"
  shows "snd (compile_model_id_rewrite_rules rx rules) = [] \<and>
         apply_model_id_rewrite_rules rx T m rules True = Inl IndexError"
  using assms prefix_nonempty [OF assms(3)]
  by (simp add: compile_model_id_rewrite_rules_def apply_model_id_rewrite_rules_def expand_model_id_rewrite_rules_def single_rule
      expand_entry_def is_model_id_template_entry_def is_model_id_multiplier_entry_def renames_def flag_of_def text_of_def
      multiplier_errors_def pattern_errors_def Let_def)

section \<open>Witnesses\<close>

theorem public_name_by_configured_rules_witness:
  "\<exists>ch r. new_channel ''acme'' (renaming_cfg ''GLM'') = Inr ch \<and> public_model_id literal_rx [] ch ''z/glm-5'' = Inr r \<and> r \<noteq> [] \<and>
     run_rewrite_rules literal_rx (expand_model_id_rewrite_rules [] (dget (renaming_cfg ''GLM'') ''model_id_rewrite_rules''))
       (strip_model_owner_prefix ''z/glm-5'') = Inr r"
proof -
  obtain ch where ch: "new_channel ''acme'' (renaming_cfg ''GLM'') = Inr ch" using renaming_channel by blast
  have "never_raises literal_rx (expand_model_id_rewrite_rules [] (dget (renaming_cfg ''GLM'') ''model_id_rewrite_rules''))"
    by (simp add: renaming_cfg_def expand_model_id_rewrite_rules_def single_rule strip_defs expand_entry_def
        is_model_id_template_entry_def never_raises_def text_of_def literal_rx_def)
  moreover have "distinct (map fst (renaming_cfg ''GLM''))" by (simp add: renaming_cfg_def)
  ultimately show ?thesis using public_name_by_configured_rules [OF acme_plain _ ch, of literal_rx "[]" "''z/glm-5''"] ch by blast
qed

definition two_rows :: pydict where
  "two_rows = [(''chat_protocols'', PList [PDict [(''protocol'', PStr ''openai'')], PDict [(''protocol'', PStr ''anthropic'')]])]"

lemma two_rows_channel: "\<exists>ch. new_channel ''acme'' two_rows = Inr ch"
  by (simp add: build_defs two_rows_def strip_defs Let_def lower_def lower_char_def List.map_filter_simps is_pdict_def)

theorem chosen_row_is_first_best_witness:
  "\<exists>ch r. new_channel ''acme'' two_rows = Inr ch \<and> select_chat_protocol ch (Some ''m'') (Some ''anthropic'') = r \<and>
    (case r of
      None \<Rightarrow> chat_protocols_for ch (Some ''m'') None = []
    | Some cp \<Rightarrow> serves (Some ''m'') None cp \<and> (\<exists>pre post. chat_protocols_for ch (Some ''m'') None = pre @ cp # post \<and>
        (\<forall>x \<in> set pre. chat_protocol_rank cp (Some ''m'') (Some ''anthropic'') < chat_protocol_rank x (Some ''m'') (Some ''anthropic'')) \<and>
        (\<forall>x \<in> set post. chat_protocol_rank cp (Some ''m'') (Some ''anthropic'') \<le> chat_protocol_rank x (Some ''m'') (Some ''anthropic''))))"
proof -
  obtain ch where ch: "new_channel ''acme'' two_rows = Inr ch" using two_rows_channel by blast
  with chosen_row_is_first_best [OF refl, of ch "Some ''m''" "Some ''anthropic''"] show ?thesis by blast
qed

theorem channel_invariant_witness:
  "\<exists>ch. new_channel ''acme'' two_rows = Inr ch \<and> channel_step\<^sup>*\<^sup>* ch (channel_disable ch) \<and> channel_sound (channel_disable ch)"
proof -
  obtain ch where ch: "new_channel ''acme'' two_rows = Inr ch" using two_rows_channel by blast
  have "channel_step\<^sup>*\<^sup>* ch (channel_disable ch)" by (rule r_into_rtranclp) (rule step_disable)
  with ch channel_invariant [OF ch] show ?thesis by blast
qed

definition bad_cfg :: pydict where
  "bad_cfg = [(''enabled'', PBool False), (''priority'', PStr ''high'')]"

lemma bad_cfg_raises: "build_state ''acme'' bad_cfg = Inl ValueError"
  by (simp add: build_defs bad_cfg_def strip_defs Let_def lower_def lower_char_def parse_int_def digit_val_def)

theorem rejected_configuration_switches_witness:
  "\<exists>ch. new_channel ''acme'' two_rows = Inr ch \<and> channel_apply bad_cfg ch = (ch\<lparr>ch_on := False\<rparr>, Some ValueError)"
proof -
  obtain ch where ch: "new_channel ''acme'' two_rows = Inr ch" using two_rows_channel by blast
  then have "ch_name ch = ''acme''" by (auto simp: new_channel_def returns_iff)
  with rejected_configuration_switches [of ch bad_cfg ValueError "PBool False"] bad_cfg_raises ch show ?thesis
    by (auto simp: bad_cfg_def)
qed

theorem unknown_group_raises_witness:
  "snd (compile_model_id_rewrite_rules literal_rx (PList [PDict [(''pattern'', PStr ''glm''), (''replacement'', PStr ''no-such-group'')]])) = [] \<and>
   apply_model_id_rewrite_rules literal_rx [] ''z/glm-5'' (PList [PDict [(''pattern'', PStr ''glm''), (''replacement'', PStr ''no-such-group'')]]) True
     = Inl IndexError"
  by (rule unknown_group_raises [of "''glm''" literal_rx "''z/glm-5''" "''no-such-group''"]) (simp_all add: strip_defs literal_rx_def)

end
