(* ===== verification/Lub_Usage.thy ===== *)
theory Lub_Usage
  imports Lub_Channel Lub_Request Lub_Reason
begin

text \<open>
  \<open>server/usage_utils.py\<close>: counting tokens. What upstreams report is brought to one form
  (\<open>normalize_usage\<close>), frames of a stream are merged, and missing parts are filled from estimates; estimates
  follow rules that map a model to a tokenizer.

  The tokenizer libraries are the record \<open>tokenizers\<close> (\<open>None\<close>: not installed, unknown encoding, or the
  vocabulary does not parse); the regular expressions of rules go through \<open>regex\<close>. A factor of a rule may be
  infinite, since \<open>float("inf")\<close> is; \<open>int()\<close> of an infinite or undefined number raises, which is \<open>None\<close>
  as the result of an estimate. The database calls that load vocabularies give rows as arguments.
\<close>

section \<open>Numbers in a usage record\<close>

fun path_get :: "pyval \<Rightarrow> string list \<Rightarrow> pyval" where
  "path_get v [] = v"
| "path_get v (p # ps) = (case v of PDict d \<Rightarrow> path_get (dget d p) ps | _ \<Rightarrow> PNone)"

definition usage_at :: "pydict \<Rightarrow> string \<Rightarrow> pyval" where
  "usage_at usage key = path_get (PDict usage) (split_on (CHR ''.'') key)"

definition count_or_zero :: "pyval \<Rightarrow> int" where
  \<comment> \<open>\<open>int(value)\<close>, 0 if it raises\<close>
  "count_or_zero v = (case py_int v of Inr n \<Rightarrow> n | Inl _ \<Rightarrow> 0)"

fun usage_value_with_key :: "pydict \<Rightarrow> string list \<Rightarrow> int \<times> string option" where
  "usage_value_with_key usage [] = (0, None)"
| "usage_value_with_key usage (key # keys) =
     (let v = usage_at usage key in if v \<noteq> PNone then (count_or_zero v, Some key) else usage_value_with_key usage keys)"

definition usage_value :: "pydict \<Rightarrow> string list \<Rightarrow> int" where
  "usage_value usage keys = fst (usage_value_with_key usage keys)"

lemma dict_values_smaller: "sum_list (map (\<lambda>p. Suc (size (snd p))) d) < Suc (size (PDict d))"
proof -
  have "sum_list (map (\<lambda>p. Suc (size (snd p))) d) \<le> size_list (size_prod (\<lambda>_. 0) size) d"
    by (induction d) auto
  then show ?thesis by simp
qed

lemma dict_values_less [simp]:
  fixes d :: pydict
  shows "sum_list (map (\<lambda>p. Suc (size (snd p))) d) < Suc (Suc (size_list (size_prod (\<lambda>x. 0) size) d + n))"
  using dict_values_smaller [of d] by simp

function stack_sum :: "int \<Rightarrow> pyval list \<Rightarrow> int" where
  \<comment> \<open>the loop over the leaves of a nested dictionary; the top of the stack, its last element in the source, is in front\<close>
  "stack_sum acc [] = acc"
| "stack_sum acc (item # stack) =
     (case item of
        PDict d \<Rightarrow> stack_sum acc (rev (map snd d) @ stack)
      | _ \<Rightarrow> stack_sum (acc + count_or_zero item) stack)"
  by pat_completeness auto
termination
proof (relation "measure (\<lambda>(acc, stack). sum_list (map (Suc \<circ> size) stack))")
  fix acc item stack d assume item: "item = PDict d"
  have "sum_list (map (Suc \<circ> size) (rev (map snd d))) = sum_list (map (\<lambda>p. Suc (size (snd p))) d)"
    by (simp add: rev_map [symmetric] comp_def sum_list_rev)
  with item dict_values_smaller [of d]
  show "((acc, rev (map snd d) @ stack), (acc, item # stack)) \<in> measure (\<lambda>(acc, stack). sum_list (map (Suc \<circ> size) stack))"
    by simp
qed auto

fun usage_sum_value_with_key :: "pydict \<Rightarrow> string list \<Rightarrow> int \<times> string option" where
  "usage_sum_value_with_key usage [] = (0, None)"
| "usage_sum_value_with_key usage (key # keys) =
     (let v = usage_at usage key;
          n = (case v of PNone \<Rightarrow> 0 | PDict d \<Rightarrow> stack_sum 0 (rev (map snd d)) | _ \<Rightarrow> count_or_zero v)
      in if n \<noteq> 0 then (n, Some key) else usage_sum_value_with_key usage keys)"

definition usage_sum_value :: "pydict \<Rightarrow> string list \<Rightarrow> int" where
  \<comment> \<open>the source repeats the loop\<close>
  "usage_sum_value usage keys = fst (usage_sum_value_with_key usage keys)"

section \<open>One form of usage\<close>

record usage =
  us_prompt :: int
  us_completion :: int
  us_total :: int
  us_cached :: int
  us_cache_creation :: int
  us_reasoning :: int

definition usage_dict :: "usage \<Rightarrow> pydict" where
  "usage_dict u =
     [(''prompt_tokens'', PInt (us_prompt u)), (''completion_tokens'', PInt (us_completion u)), (''total_tokens'', PInt (us_total u)),
      (''cached_tokens'', PInt (us_cached u)), (''cache_creation_tokens'', PInt (us_cache_creation u)), (''reasoning_tokens'', PInt (us_reasoning u))]"

definition input_field_is_total_input :: "string option \<Rightarrow> string option \<Rightarrow> string option \<Rightarrow> bool" where
  "input_field_is_total_input input_key cached_key cache_creation_key \<longleftrightarrow>
     input_key = Some ''prompt_tokens'' \<or> input_key = Some ''promptTokens'' \<or>
     ((input_key = Some ''input_tokens'' \<or> input_key = Some ''inputTokens'') \<and>
      (\<exists>key \<in> {cached_key, cache_creation_key}. case key of Some k \<Rightarrow> startswith k ''input_tokens_details.'' | None \<Rightarrow> False))"

definition usage_source :: "pydict \<Rightarrow> pydict" where
  "usage_source usage = dmerge (case dget usage ''nativeUsage'' of PDict d \<Rightarrow> d | _ \<Rightarrow> []) usage"

definition INPUT_KEYS :: "string list" where
  "INPUT_KEYS = [''prompt_tokens'', ''input_tokens'', ''promptTokens'', ''inputTokens'']"

definition COMPLETION_KEYS :: "string list" where
  "COMPLETION_KEYS = [''completion_tokens'', ''output_tokens'', ''completionTokens'', ''outputTokens'']"

definition CACHED_KEYS :: "string list" where
  "CACHED_KEYS = [''cached_tokens'', ''cache_read_input_tokens'', ''prompt_tokens_details.cached_tokens'', ''input_tokens_details.cached_tokens'']"

definition CREATION_KEYS :: "string list" where
  "CREATION_KEYS =
     [''cache_creation_tokens'', ''cache_creation_input_tokens'', ''cache_write_tokens'', ''prompt_cache_miss_tokens'', ''cache_creation'',
      ''prompt_tokens_details.cache_creation_input_tokens'', ''prompt_tokens_details.cache_creation_tokens'',
      ''prompt_tokens_details.cache_write_tokens'', ''prompt_tokens_details.prompt_cache_miss_tokens'', ''prompt_tokens_details.cache_creation'',
      ''input_tokens_details.cache_creation_tokens'', ''input_tokens_details.cache_creation_input_tokens'',
      ''input_tokens_details.cache_write_tokens'', ''input_tokens_details.prompt_cache_miss_tokens'', ''input_tokens_details.cache_creation'']"

definition REASONING_KEYS :: "string list" where
  "REASONING_KEYS = [''reasoning_tokens'', ''completion_tokens_details.reasoning_tokens'', ''output_tokens_details.reasoning_tokens'']"

definition has_cache_split :: "pydict \<Rightarrow> bool" where
  "has_cache_split src \<longleftrightarrow> snd (usage_value_with_key src [''prompt_cache_hit_tokens'']) \<noteq> None \<and>
     snd (usage_value_with_key src [''prompt_cache_miss_tokens'']) \<noteq> None"

definition total_input :: "bool \<Rightarrow> bool \<Rightarrow> int \<Rightarrow> int \<Rightarrow> int" where
  \<comment> \<open>the input with the cache, from the reported input and the cached tokens\<close>
  "total_input is_total split input cache =
     (if is_total then (if split then input else if cache > 0 \<and> input < cache then input + cache else input)
      else input + cache)"

definition normalize_usage :: "pydict \<Rightarrow> usage" where
  "normalize_usage usage =
     (let src = usage_source usage;
          (input, input_key) = usage_value_with_key src INPUT_KEYS;
          completion = usage_value src COMPLETION_KEYS;
          (cached, cached_key) = usage_value_with_key src CACHED_KEYS;
          (creation, creation_key) = usage_sum_value_with_key src CREATION_KEYS;
          prompt = total_input (input_field_is_total_input input_key cached_key creation_key) (has_cache_split src) input (cached + creation)
      in \<lparr>us_prompt = prompt, us_completion = completion, us_total = prompt + completion, us_cached = cached,
          us_cache_creation = creation, us_reasoning = usage_value src REASONING_KEYS\<rparr>)"

definition is_zero :: "pyval \<Rightarrow> bool" where
  \<comment> \<open>\<open>value == 0\<close>\<close>
  "is_zero v = (case v of PInt n \<Rightarrow> n = 0 | PFloat r \<Rightarrow> r = 0 | PBool b \<Rightarrow> \<not> b | _ \<Rightarrow> False)"

function merge_items :: "pydict \<Rightarrow> pydict \<Rightarrow> pydict" where
  "merge_items merged [] = merged"
| "merge_items merged ((key, value) # items) =
     merge_items
       (case (value, dget merged key) of
          (PDict d, PDict c) \<Rightarrow> dset merged key (PDict (merge_items c d))
        | _ \<Rightarrow> if value \<noteq> PNone \<and> \<not> is_zero value then dset merged key value else merged)
       items"
  by pat_completeness auto
termination
  by (relation "measure (\<lambda>(merged, items). sum_list (map (\<lambda>p. Suc (size (snd p))) items))") auto

definition merge_usage :: "pydict \<Rightarrow> pyval \<Rightarrow> pydict" where
  "merge_usage current incoming = (case incoming of PDict d \<Rightarrow> merge_items current d | _ \<Rightarrow> current)"

definition int_or_other :: "int \<Rightarrow> int \<Rightarrow> int" where
  "int_or_other a b = (if a \<noteq> 0 then a else b)"

definition fill_usage_with_estimate :: "pydict \<Rightarrow> pydict \<Rightarrow> usage" where
  "fill_usage_with_estimate real_usage estimated_usage =
     (let r = normalize_usage real_usage; e = normalize_usage estimated_usage
      in normalize_usage
        [(''prompt_tokens'', PInt (int_or_other (us_prompt r) (us_prompt e))),
         (''completion_tokens'', PInt (int_or_other (us_completion r) (us_completion e))),
         (''prompt_tokens_details'', PDict [(''cached_tokens'', PInt (int_or_other (us_cached r) (us_cached e))),
            (''cache_creation_tokens'', PInt (int_or_other (us_cache_creation r) (us_cache_creation e)))]),
         (''completion_tokens_details'', PDict [(''reasoning_tokens'', PInt (int_or_other (us_reasoning r) (us_reasoning e)))])])"

section \<open>Tokenizer rules\<close>

record tokenizers =
  tk_tiktoken :: "string \<Rightarrow> (string \<Rightarrow> nat) option"
  tk_parse :: "string \<Rightarrow> (string \<Rightarrow> nat option) option"

definition tk_rule :: "string \<Rightarrow> string \<Rightarrow> string \<Rightarrow> pydict \<Rightarrow> pydict" where
  "tk_rule name pattern kind extra = [(''name'', PStr name), (''enabled'', PBool True), (''pattern'', PStr pattern), (''type'', PStr kind)] @ extra"

definition tk_o200k :: pydict where
  "tk_o200k = [(''encoding'', PStr ''o200k_base'')]"

definition BUILTIN_TOKENIZER_RULES :: "pydict list" where
  "BUILTIN_TOKENIZER_RULES =
     [tk_rule ''OpenAI legacy'' (''(?i)gpt-(?:3'' @ [CHR 0x5C] @ ''.5|4(?![o.]))'') ''tiktoken'' [(''encoding'', PStr ''cl100k_base'')],
      tk_rule ''OpenAI'' (''(?i)(?:gpt-|chatgpt|'' @ [CHR 0x5C] @ ''bo[134]-)'') ''tiktoken'' (tk_o200k @ [(''calibration'', PFloat (87/100))]),
      tk_rule ''Claude'' ''(?i)(?:claude|anthropic|opus|sonnet|haiku)'' ''tiktoken'' (tk_o200k @ [(''calibration'', PFloat 1)]),
      tk_rule ''Gemini'' ''(?i)gemini'' ''tiktoken'' (tk_o200k @ [(''calibration'', PFloat 1)]),
      tk_rule ''GLM'' ''(?i)(?:glm|chatglm|z-ai)'' ''huggingface'' ((''repo'', PStr ''zai-org/GLM-5.2'') # tk_o200k),
      tk_rule ''Qwen'' ''(?i)(?:qwen|tongyi)'' ''huggingface'' ((''repo'', PStr ''Qwen/Qwen3.8-27B'') # tk_o200k),
      tk_rule ''DeepSeek'' ''(?i)deepseek'' ''huggingface'' ((''repo'', PStr ''deepseek-ai/DeepSeek-V4-Pro'') # tk_o200k),
      tk_rule ''MiniMax'' ''(?i)minimax'' ''huggingface'' ((''repo'', PStr ''MiniMaxAI/MiniMax-M3'') # tk_o200k),
      tk_rule ''OpenAI-compatible'' (''(?i)(?:kimi|moonshot|hunyuan|hy'' @ [CHR 0x5C] @ ''d|longcat|doubao|yi-|ernie|baichuan|spark|step-)'') ''tiktoken'' tk_o200k]"

definition DEFAULT_TOKENIZER_RULE :: pydict where
  "DEFAULT_TOKENIZER_RULE = [(''type'', PStr ''chars''), (''chars_per_token'', PFloat (35/10)), (''cjk_chars_per_token'', PFloat (15/10))]"

definition tokenizer_rules :: "pyval option \<Rightarrow> pyval list" where
  \<comment> \<open>the argument is what the getter of the configuration returns, \<open>None\<close> if there is none or it raises\<close>
  "tokenizer_rules custom = (case custom of Some (PList xs) \<Rightarrow> xs | _ \<Rightarrow> []) @ map PDict BUILTIN_TOKENIZER_RULES"

definition rule_applies :: "regex \<Rightarrow> string \<Rightarrow> pyval \<Rightarrow> bool" where
  "rule_applies rx model v =
     (case v of
        PDict rule \<Rightarrow> dget rule ''enabled'' \<noteq> PBool False \<and> text_or (dget rule ''pattern'') [] \<noteq> [] \<and>
          rx_search rx (text_or (dget rule ''pattern'') []) model = Some True
      | _ \<Rightarrow> False)"

definition resolve_tokenizer_rule :: "regex \<Rightarrow> string \<Rightarrow> pyval list \<Rightarrow> pydict" where
  "resolve_tokenizer_rule rx model rules =
     (case List.find (rule_applies rx model) rules of Some (PDict rule) \<Rightarrow> rule | _ \<Rightarrow> DEFAULT_TOKENIZER_RULE)"

type_synonym factor = "rat option"   \<comment> \<open>\<open>None\<close> is infinite\<close>

definition float_of :: "pyval \<Rightarrow> fnum option" where
  "float_of v = (case v of PInt n \<Rightarrow> Some (Fin (of_int n)) | PBool b \<Rightarrow> Some (Fin (if b then 1 else 0)) | PFloat r \<Rightarrow> Some (Fin r)
     | PStr s \<Rightarrow> py_float s | _ \<Rightarrow> None)"

definition rule_float :: "pydict \<Rightarrow> string \<Rightarrow> factor \<Rightarrow> factor" where
  "rule_float rule key dflt =
     (if \<not> truthy (dget rule key) then dflt
      else (case float_of (dget rule key) of Some (Fin r) \<Rightarrow> if r > 0 then Some r else dflt | Some PosInf \<Rightarrow> None | _ \<Rightarrow> dflt))"

definition per_token :: "nat \<Rightarrow> factor \<Rightarrow> rat" where
  "per_token n f = (case f of Some r \<Rightarrow> of_nat n / r | None \<Rightarrow> 0)"

definition code_of :: "string \<Rightarrow> nat" where
  \<comment> \<open>the number of a character given by its UTF-8 bytes\<close>
  "code_of s = (case map (\<lambda>c. of_char c :: nat) s of
      [a] \<Rightarrow> a
    | [a, b] \<Rightarrow> (a mod 32) * 64 + b mod 64
    | [a, b, c] \<Rightarrow> (a mod 16) * 4096 + (b mod 64) * 64 + c mod 64
    | [a, b, c, d] \<Rightarrow> (a mod 8) * 262144 + (b mod 64) * 4096 + (c mod 64) * 64 + d mod 64
    | _ \<Rightarrow> 0)"

definition is_cjk :: "string \<Rightarrow> bool" where
  "is_cjk s \<longleftrightarrow> (let n = code_of s in (0x3000 \<le> n \<and> n \<le> 0x303F) \<or> (0x3040 \<le> n \<and> n \<le> 0x30FF) \<or> (0x3400 \<le> n \<and> n \<le> 0x4DBF) \<or>
     (0x4E00 \<le> n \<and> n \<le> 0x9FFF) \<or> (0xF900 \<le> n \<and> n \<le> 0xFAFF) \<or> (0xFF00 \<le> n \<and> n \<le> 0xFFEF) \<or> (0x20000 \<le> n \<and> n \<le> 0x2EBEF))"

definition estimate_chars_tokens :: "string \<Rightarrow> pydict \<Rightarrow> int option" where
  \<comment> \<open>an infinite ratio makes the floor division undefined, and \<open>int()\<close> of that raises\<close>
  "estimate_chars_tokens text rule =
     (let chars = code_points text; n = length chars; cpt = rule_float rule ''chars_per_token'' (Some 2) in
      if dget rule ''cjk_chars_per_token'' = PNone
      then map_option (\<lambda>r. max 1 \<lfloor>(of_nat n + r - 1) / r\<rfloor>) cpt
      else (let cjk = length (filter is_cjk chars); cjk_cpt = rule_float rule ''cjk_chars_per_token'' cpt
            in Some (max 1 (trunc (per_token cjk cjk_cpt + per_token (n - cjk) cpt + 999/1000)))))"

definition estimate_tiktoken_tokens :: "tokenizers \<Rightarrow> string \<Rightarrow> pydict \<Rightarrow> nat option" where
  "estimate_tiktoken_tokens tk text rule = map_option (\<lambda>encode. encode text) (tk_tiktoken tk (text_or (dget rule ''encoding'') ''cl100k_base''))"

subsection \<open>Vocabularies in memory\<close>

record vocab_state =
  vs_cache :: "(string \<times> (string \<Rightarrow> nat option)) list"
  vs_text :: "(string \<times> string) list"
  vs_warned :: "string list"

definition HF_TOKENIZER_CACHE_MAX :: nat where
  "HF_TOKENIZER_CACHE_MAX = 8"

definition load_hf_tokenizer ::
    "tokenizers \<Rightarrow> (string \<Rightarrow> string option) \<Rightarrow> string \<Rightarrow> vocab_state \<Rightarrow> vocab_state \<times> (string \<Rightarrow> nat option) option" where
  \<comment> \<open>\<open>files\<close>: the vocabularies on disk that can be read\<close>
  "load_hf_tokenizer tk files repo vs =
     (case map_of (vs_cache vs) repo of
        Some t \<Rightarrow> (vs, Some t)
      | None \<Rightarrow>
         (case (case map_of (vs_text vs) repo of Some x \<Rightarrow> Some x | None \<Rightarrow> files repo) of
            None \<Rightarrow> (vs, None)
          | Some text \<Rightarrow>
             (case tk_parse tk text of
                None \<Rightarrow> (vs, None)
              | Some t \<Rightarrow>
                 (let cache = (if HF_TOKENIZER_CACHE_MAX \<le> length (vs_cache vs) then tl (vs_cache vs) else vs_cache vs)
                  in (vs\<lparr>vs_cache := dset cache repo t\<rparr>, Some t)))))"

definition invalidate_hf_tokenizer_cache :: "string option \<Rightarrow> vocab_state \<Rightarrow> vocab_state" where
  "invalidate_hf_tokenizer_cache repo vs =
     (case opt_str repo of
        Some r \<Rightarrow> vs\<lparr>vs_cache := filter (\<lambda>p. fst p \<noteq> r) (vs_cache vs), vs_warned := filter (\<lambda>x. x \<noteq> r) (vs_warned vs)\<rparr>
      | None \<Rightarrow> vs\<lparr>vs_cache := [], vs_warned := []\<rparr>)"

definition load_hf_tokenizers_from_pg :: "(string \<times> string) list option \<Rightarrow> vocab_state \<Rightarrow> vocab_state \<times> nat" where
  \<comment> \<open>the rows of the database, \<open>None\<close> if there is no database or it fails\<close>
  "load_hf_tokenizers_from_pg rows vs =
     (case rows of
        None \<Rightarrow> (vs, length (vs_text vs))
      | Some rs \<Rightarrow> (let t = fold (\<lambda>(repo, content) d. if repo = [] \<or> content = [] then d else dset d repo content) rs []
                   in (vs\<lparr>vs_text := t\<rparr>, length t)))"

definition load_hf_tokenizer_from_pg :: "string \<Rightarrow> string option option \<Rightarrow> vocab_state \<Rightarrow> vocab_state \<times> bool" where
  "load_hf_tokenizer_from_pg repo row vs =
     (case row of
        None \<Rightarrow> (vs, False)
      | Some None \<Rightarrow> (vs\<lparr>vs_text := filter (\<lambda>p. fst p \<noteq> repo) (vs_text vs)\<rparr>, False)
      | Some (Some content) \<Rightarrow> (vs\<lparr>vs_text := dset (vs_text vs) repo content\<rparr>, True))"

definition estimate_hf_tokens ::
    "tokenizers \<Rightarrow> (string \<Rightarrow> string option) \<Rightarrow> string \<Rightarrow> pydict \<Rightarrow> vocab_state \<Rightarrow> vocab_state \<times> nat option" where
  "estimate_hf_tokens tk files text rule vs =
     (let repo = entry_field rule ''repo'' in
      if repo = [] then (vs, None)
      else (case load_hf_tokenizer tk files repo vs of
              (vs1, None) \<Rightarrow> (vs1\<lparr>vs_warned := List.insert repo (vs_warned vs1)\<rparr>, None)
            | (vs1, Some encode) \<Rightarrow> (vs1, encode text)))"

subsection \<open>Estimates\<close>

definition apply_calibration :: "nat \<Rightarrow> pydict \<Rightarrow> int option" where
  "apply_calibration tokens rule =
     (case rule_float rule ''calibration'' (Some 1) of
        None \<Rightarrow> None
      | Some f \<Rightarrow> Some (if f = 1 then max 1 (int tokens) else max 1 (trunc (of_nat tokens * f + 1/2))))"

definition chars_estimate :: "string \<Rightarrow> pydict \<Rightarrow> int option" where
  "chars_estimate text rule = Option.bind (estimate_chars_tokens text rule) (\<lambda>n. apply_calibration (nat n) rule)"

definition tiktoken_estimate :: "tokenizers \<Rightarrow> string \<Rightarrow> pydict \<Rightarrow> int option" where
  "tiktoken_estimate tk text rule =
     (case estimate_tiktoken_tokens tk text rule of Some n \<Rightarrow> apply_calibration n rule | None \<Rightarrow> chars_estimate text rule)"

definition estimate_text_tokens_by_rule ::
    "tokenizers \<Rightarrow> (string \<Rightarrow> string option) \<Rightarrow> string \<Rightarrow> pydict \<Rightarrow> vocab_state \<Rightarrow> vocab_state \<times> int option" where
  "estimate_text_tokens_by_rule tk files text rule vs =
     (let kind = lower (strip (text_or (dget rule ''type'') ''chars'')) in
      if text = [] then (vs, Some 0)
      else if kind = ''huggingface''
      then (case estimate_hf_tokens tk files text rule vs of
              (vs1, Some n) \<Rightarrow> (vs1, apply_calibration n rule)
            | (vs1, None) \<Rightarrow> (vs1, if truthy (dget rule ''encoding'') then tiktoken_estimate tk text rule else chars_estimate text rule))
      else if kind = ''tiktoken'' then (vs, tiktoken_estimate tk text rule)
      else (vs, chars_estimate text rule))"

fun json_compact :: "pyval \<Rightarrow> string" where
  \<comment> \<open>\<open>json.dumps(value, ensure_ascii=False, separators=(",", ":"))\<close>\<close>
  "json_compact (PList xs) = ''['' @ join '','' (map json_compact xs) @ '']''"
| "json_compact (PDict d) = ''{'' @ join '','' (map (\<lambda>p. json_quote (fst p) @ '':'' @ json_compact (snd p)) d) @ ''}''"
| "json_compact v = json_dumps v"

definition request_part_to_text :: "pyval \<Rightarrow> string" where
  "request_part_to_text v = (case v of PNone \<Rightarrow> [] | PStr s \<Rightarrow> s | _ \<Rightarrow> json_compact v)"

record estimator =
  es_rx :: regex
  es_tk :: tokenizers
  es_files :: "string \<Rightarrow> string option"
  es_rules :: "pyval list"

definition estimate_request_part_tokens :: "estimator \<Rightarrow> string \<Rightarrow> pyval \<Rightarrow> vocab_state \<Rightarrow> vocab_state \<times> int option" where
  "estimate_request_part_tokens E model v vs =
     (let text = request_part_to_text v in
      if text = [] then (vs, Some 0)
      else (let rule = resolve_tokenizer_rule (es_rx E) model (es_rules E) in
        case estimate_text_tokens_by_rule (es_tk E) (es_files E) text rule vs of
          (vs1, None) \<Rightarrow> (vs1, None)
        | (vs1, Some n) \<Rightarrow>
            (vs1, Some (max 1 (if truthy (dget rule ''structural'') \<and> (case v of PList xs \<Rightarrow> True | _ \<Rightarrow> False)
                               then n + 3 * (case v of PList xs \<Rightarrow> int (length xs) | _ \<Rightarrow> 0) + 3 else n)))))"

definition INPUT_PARTS :: "string \<Rightarrow> string list" where
  "INPUT_PARTS endpoint =
     (if endpoint = ''responses'' then [''instructions'', ''input'', ''tools'', ''tool_choice'', ''text'', ''response_format'']
      else if endpoint = ''anthropic'' then [''system'', ''messages'', ''tools'', ''tool_choice'', ''thinking'', ''metadata'', ''stop_sequences'']
      else if endpoint = ''upstream'' then [''system'', ''messages'', ''input'', ''instructions'', ''tools'', ''functions'', ''tool_choice'',
             ''function_call'', ''thinking'', ''text'', ''response_format'', ''prediction'']
      else [''system'', ''messages'', ''tools'', ''functions'', ''tool_choice'', ''function_call'', ''response_format'', ''prediction''])"

definition request_input_parts :: "pyval \<Rightarrow> string \<Rightarrow> (string \<times> pyval) list" where
  "request_input_parts body endpoint = (case body of PDict d \<Rightarrow> map (\<lambda>k. (k, dget d k)) (INPUT_PARTS endpoint) | _ \<Rightarrow> [])"

fun estimate_parts :: "estimator \<Rightarrow> string \<Rightarrow> (string \<times> pyval) list \<Rightarrow> vocab_state \<Rightarrow> vocab_state \<times> (string \<times> int) list option" where
  "estimate_parts E model [] vs = (vs, Some [])"
| "estimate_parts E model ((name, v) # parts) vs =
     (if v = PNone then estimate_parts E model parts vs
      else (case estimate_request_part_tokens E model v vs of
              (vs1, None) \<Rightarrow> (vs1, None)
            | (vs1, Some n) \<Rightarrow> (case estimate_parts E model parts vs1 of (vs2, r) \<Rightarrow> (vs2, map_option (\<lambda>ps. (name, n) # ps) r))))"

definition estimate_input_token_parts :: "estimator \<Rightarrow> string \<Rightarrow> pyval \<Rightarrow> string \<Rightarrow> vocab_state \<Rightarrow> vocab_state \<times> (string \<times> int) list option" where
  "estimate_input_token_parts E model body endpoint vs = estimate_parts E model (request_input_parts body endpoint) vs"

definition requested_output_tokens :: "pyval \<Rightarrow> int" where
  "requested_output_tokens body =
     (case body of
        PDict d \<Rightarrow> (case filter (\<lambda>v. v \<noteq> PNone) [dget d ''max_tokens'', dget d ''max_completion_tokens''] of
                      [] \<Rightarrow> 0 | v # _ \<Rightarrow> max 0 (count_or_zero v))
      | _ \<Rightarrow> 0)"

record request_tokens =
  rt_parts :: "(string \<times> int) list"
  rt_input :: int
  rt_output :: int
  rt_total :: int

definition estimate_request_tokens :: "estimator \<Rightarrow> string \<Rightarrow> pyval \<Rightarrow> string \<Rightarrow> vocab_state \<Rightarrow> vocab_state \<times> request_tokens option" where
  "estimate_request_tokens E model body endpoint vs =
     (case estimate_input_token_parts E model body endpoint vs of
        (vs1, parts) \<Rightarrow> (vs1, map_option (\<lambda>ps. let i = sum_list (map snd ps); out = requested_output_tokens body
          in \<lparr>rt_parts = ps, rt_input = i, rt_output = out, rt_total = i + out\<rparr>) parts))"

end
