(* ===== verification/Lub_UsageProps.thy ===== *)
theory Lub_UsageProps
  imports Lub_Usage
begin

text \<open>
  Properties of token counting: the loop over nested counters is the sum of their leaves; normalising a
  normalised record changes nothing; estimates fill gaps and never replace a reported number; merged frames
  keep what was reported; what is settled on the ledgers is the normalised total; estimates are positive; the
  cache of vocabularies is bounded.
\<close>

section \<open>The loop over leaves\<close>

fun leaf_sum :: "pyval \<Rightarrow> int" where
  "leaf_sum (PDict d) = sum_list (map (\<lambda>p. leaf_sum (snd p)) d)"
| "leaf_sum v = count_or_zero v"

lemma stack_sum_leaves: "stack_sum acc st = acc + sum_list (map leaf_sum st)"
proof (induction acc st rule: stack_sum.induct)
  case (2 acc item stack)
  then show ?case
    by (cases item) (simp_all add: rev_map [symmetric] comp_def sum_list_rev)
qed simp

text \<open>
  A cache counter that an upstream reports as a nested object counts as the sum of the numbers at its
  leaves: the loop with an explicit stack ends for every object and computes the recursive sum.
\<close>
theorem nested_counter_is_leaf_sum: "stack_sum 0 (rev (map snd d)) = leaf_sum (PDict d)"
  by (simp add: stack_sum_leaves rev_map [symmetric] comp_def sum_list_rev)

section \<open>Normalising twice\<close>

lemma int_or_zero_int [simp]: "count_or_zero (PInt n) = n"
  by (simp add: count_or_zero_def)

lemma usage_at_plain: "CHR ''.'' \<notin> set key \<Longrightarrow> usage_at usage key = dget usage key"
proof -
  have "CHR ''.'' \<notin> set s \<Longrightarrow> split_on (CHR ''.'') s = [s]" for s
    by (induction s) auto
  then show "CHR ''.'' \<notin> set key \<Longrightarrow> ?thesis" by (simp add: usage_at_def)
qed

lemmas key_lists = INPUT_KEYS_def COMPLETION_KEYS_def CACHED_KEYS_def CREATION_KEYS_def REASONING_KEYS_def

lemma source_no_native: "dget usage ''nativeUsage'' = PNone \<Longrightarrow> usage_source usage = dmerge [] usage"
  by (simp add: usage_source_def)

lemma dmerge_Nil_distinct: "distinct (map fst d) \<Longrightarrow> dmerge [] d = d"
proof -
  have "distinct (map fst (a @ d)) \<Longrightarrow> dmerge a d = a @ d" for a
  proof (induction d arbitrary: a)
    case (Cons p d)
    have "k \<notin> fst ` set a \<Longrightarrow> dset a k v = a @ [(k, v)]" for k and v :: pyval
      by (induction a) auto
    then have "dset a (fst p) (snd p) = a @ [p]" using Cons.prems by (cases p) auto
    with Cons show ?case by (simp add: dmerge_def)
  qed (simp add: dmerge_def)
  from this [of "[]"] show "distinct (map fst d) \<Longrightarrow> ?thesis" by simp
qed

lemma source_usage_dict: "usage_source (usage_dict u) = usage_dict u"
  by (simp add: source_no_native usage_dict_def dmerge_Nil_distinct)

lemma normalize_usage_dict:
  "normalize_usage (usage_dict u) =
     u\<lparr>us_prompt := total_input True False (us_prompt u) (us_cached u + us_cache_creation u),
       us_total := total_input True False (us_prompt u) (us_cached u + us_cache_creation u) + us_completion u\<rparr>"
  unfolding normalize_usage_def source_usage_dict
  by (simp add: usage_value_def usage_at_def usage_dict_def key_lists has_cache_split_def input_field_is_total_input_def Let_def)

definition reported_input :: "pydict \<Rightarrow> int" where
  "reported_input usage = fst (usage_value_with_key (usage_source usage) INPUT_KEYS)"

definition covers_cache :: "usage \<Rightarrow> bool" where
  "covers_cache u \<longleftrightarrow> us_cached u + us_cache_creation u \<le> us_prompt u"

lemma total_input_covers: "0 \<le> input \<Longrightarrow> \<not> split \<Longrightarrow> cache \<le> total_input is_total split input cache"
  by (auto simp: total_input_def)

lemma normalized_covers:
  assumes "0 \<le> reported_input usage" and "\<not> has_cache_split (usage_source usage)"
  shows "covers_cache (normalize_usage usage)"
  using assms by (auto simp: covers_cache_def normalize_usage_def reported_input_def Let_def total_input_covers split: prod.splits)

lemma normalized_total: "us_total (normalize_usage usage) = us_prompt (normalize_usage usage) + us_completion (normalize_usage usage)"
  by (simp add: normalize_usage_def Let_def split: prod.splits)

lemma covered_fixed: "covers_cache u \<Longrightarrow> us_total u = us_prompt u + us_completion u \<Longrightarrow> normalize_usage (usage_dict u) = u"
  by (simp add: normalize_usage_dict total_input_def covers_cache_def)

text \<open>
  A usage record is normalised by the provider, again when the stream is converted, and again when the
  request is settled. The repetitions change nothing, whatever names and nesting the upstream used, if the
  reported input is not negative; if the upstream splits its input into cache hits and misses, the split must
  not exceed the input.
\<close>
theorem normalizing_again_changes_nothing:
  assumes "0 \<le> reported_input usage"
    and "has_cache_split (usage_source usage) \<longrightarrow> covers_cache (normalize_usage usage)"
  shows "normalize_usage (usage_dict (normalize_usage usage)) = normalize_usage usage"
  using assms normalized_covers normalized_total covered_fixed by blast

definition anthropic_usage :: pydict where
  "anthropic_usage = [(''input_tokens'', PInt 7), (''output_tokens'', PInt 5), (''cache_read_input_tokens'', PInt 100),
     (''cache_creation'', PDict [(''ephemeral_5m_input_tokens'', PInt 20), (''ephemeral_1h_input_tokens'', PStr ''3'')])]"

lemma source_anthropic: "usage_source anthropic_usage = anthropic_usage"
  by (simp add: source_no_native anthropic_usage_def dmerge_Nil_distinct)

theorem normalizing_again_changes_nothing_witness:
  "reported_input anthropic_usage = 7 \<and> \<not> has_cache_split (usage_source anthropic_usage) \<and>
   normalize_usage (usage_dict (normalize_usage anthropic_usage)) = normalize_usage anthropic_usage"
proof -
  have "reported_input anthropic_usage = 7" "\<not> has_cache_split (usage_source anthropic_usage)"
    unfolding reported_input_def source_anthropic
    by (simp_all add: anthropic_usage_def INPUT_KEYS_def has_cache_split_def usage_at_plain)
  with normalizing_again_changes_nothing [of anthropic_usage] show ?thesis by simp
qed

section \<open>Estimates fill gaps\<close>

definition filled_dict :: "int \<Rightarrow> int \<Rightarrow> int \<Rightarrow> int \<Rightarrow> int \<Rightarrow> pydict" where
  "filled_dict p c ca cr r =
     [(''prompt_tokens'', PInt p), (''completion_tokens'', PInt c),
      (''prompt_tokens_details'', PDict [(''cached_tokens'', PInt ca), (''cache_creation_tokens'', PInt cr)]),
      (''completion_tokens_details'', PDict [(''reasoning_tokens'', PInt r)])]"

lemma normalize_filled:
  "ca + cr \<le> p \<Longrightarrow> normalize_usage (filled_dict p c ca cr r) =
     \<lparr>us_prompt = p, us_completion = c, us_total = p + c, us_cached = ca, us_cache_creation = cr, us_reasoning = r\<rparr>"
proof -
  have "usage_source (filled_dict p c ca cr r) = filled_dict p c ca cr r"
    by (simp add: source_no_native filled_dict_def dmerge_Nil_distinct)
  then show "ca + cr \<le> p \<Longrightarrow> ?thesis" unfolding normalize_usage_def
    by (simp add: usage_value_def usage_at_def filled_dict_def key_lists has_cache_split_def input_field_is_total_input_def Let_def total_input_def)
qed

text \<open>
  Where the upstream reported a number, the filled record has that number; the estimate is used exactly
  for the parts reported as zero or not at all. The total is the sum of input and output, and the cached
  tokens are not added to the input a second time.
\<close>
theorem estimate_fills_only_gaps:
  assumes "0 \<le> reported_input usage" and "has_cache_split (usage_source usage) \<longrightarrow> covers_cache (normalize_usage usage)"
    and "us_cached (normalize_usage est) = 0" and "us_cache_creation (normalize_usage est) = 0"
    and "0 \<le> us_prompt (normalize_usage est)"
  shows "fill_usage_with_estimate usage est =
    (let r = normalize_usage usage; e = normalize_usage est;
         p = int_or_other (us_prompt r) (us_prompt e); c = int_or_other (us_completion r) (us_completion e)
     in \<lparr>us_prompt = p, us_completion = c, us_total = p + c, us_cached = us_cached r, us_cache_creation = us_cache_creation r,
         us_reasoning = int_or_other (us_reasoning r) (us_reasoning e)\<rparr>)"
proof -
  have "covers_cache (normalize_usage usage)" using assms(1,2) normalized_covers by blast
  then have "us_cached (normalize_usage usage) + us_cache_creation (normalize_usage usage)
      \<le> int_or_other (us_prompt (normalize_usage usage)) (us_prompt (normalize_usage est))"
    using assms(5) by (auto simp: covers_cache_def int_or_other_def)
  moreover have zero: "int_or_other a 0 = a" for a by (simp add: int_or_other_def)
  ultimately show ?thesis
    using normalize_filled by (simp add: fill_usage_with_estimate_def filled_dict_def Let_def assms(3,4))
qed

theorem estimate_fills_only_gaps_witness:
  "us_completion (fill_usage_with_estimate [(''prompt_tokens'', PInt 12345), (''completion_tokens'', PInt 0)]
     [(''prompt_tokens'', PInt 1), (''completion_tokens'', PInt 40)]) = 40 \<and>
   us_total (fill_usage_with_estimate [(''prompt_tokens'', PInt 12345), (''completion_tokens'', PInt 0)]
     [(''prompt_tokens'', PInt 1), (''completion_tokens'', PInt 40)]) = 12385"
proof -
  let ?d = "\<lambda>p c. [(''prompt_tokens'', PInt p), (''completion_tokens'', PInt c)]"
  have src: "usage_source (?d p c) = ?d p c" for p c
    by (simp add: source_no_native dmerge_Nil_distinct)
  have n: "normalize_usage (?d p c) = \<lparr>us_prompt = p, us_completion = c, us_total = p + c, us_cached = 0, us_cache_creation = 0, us_reasoning = 0\<rparr>" for p c
    unfolding normalize_usage_def src
    by (simp add: usage_value_def usage_at_def key_lists has_cache_split_def input_field_is_total_input_def Let_def total_input_def)
  have "reported_input (?d 12345 0) = 12345" "\<not> has_cache_split (usage_source (?d 12345 0))"
    unfolding reported_input_def src by (simp_all add: INPUT_KEYS_def has_cache_split_def usage_at_plain)
  with estimate_fills_only_gaps [of "?d 12345 0" "?d 1 40"] show ?thesis by (simp add: n int_or_other_def)
qed

section \<open>What is settled\<close>

text \<open>
  The tokens with which a reservation is reconciled, when it is settled with a normalised record, are the
  input with the cache plus the output, whatever total the upstream reported; a negative sum counts as zero.
\<close>
theorem settled_tokens_are_normalized_total:
  "usage_total_tokens (PDict (usage_dict (normalize_usage usage))) =
     max 0 (us_prompt (normalize_usage usage) + us_completion (normalize_usage usage))"
  by (simp add: usage_total_tokens_def usage_dict_def normalized_total List.map_filter_simps)

section \<open>Merging frames\<close>

definition counts :: "pyval \<Rightarrow> bool" where
  \<comment> \<open>a value that replaces the one before\<close>
  "counts v \<longleftrightarrow> v \<noteq> PNone \<and> \<not> is_zero v"

definition merged_value :: "pyval \<Rightarrow> pyval \<Rightarrow> pyval" where
  "merged_value v old = (case (v, old) of (PDict d, PDict c) \<Rightarrow> PDict (merge_items c d) | _ \<Rightarrow> if counts v then v else old)"

definition merge_one :: "pydict \<Rightarrow> string \<Rightarrow> pyval \<Rightarrow> pydict" where
  "merge_one merged key v = (case (v, dget merged key) of (PDict d, PDict c) \<Rightarrow> dset merged key (PDict (merge_items c d))
     | _ \<Rightarrow> if v \<noteq> PNone \<and> \<not> is_zero v then dset merged key v else merged)"

lemma merge_items_Cons: "merge_items merged ((key, v) # items) = merge_items (merge_one merged key v) items"
  by (simp add: merge_one_def)

lemma dget_merge_one: "dget (merge_one merged key v) k = (if k = key then merged_value v (dget merged key) else dget merged k)"
  by (simp add: merge_one_def merged_value_def counts_def dget_dset split: pyval.splits)

lemma merge_other: "k \<notin> fst ` set items \<Longrightarrow> dget (merge_items merged items) k = dget merged k"
proof (induction items arbitrary: merged)
  case (Cons p items)
  then show ?case by (cases p) (auto simp: merge_items_Cons dget_merge_one simp del: merge_items.simps)
qed simp

lemma merge_lookup:
  "distinct (map fst items) \<Longrightarrow> dget (merge_items merged items) k =
     (case map_of items k of None \<Rightarrow> dget merged k | Some v \<Rightarrow> merged_value v (dget merged k))"
proof (induction items arbitrary: merged)
  case (Cons p items)
  obtain key v where p: "p = (key, v)" by force
  show ?case
  proof (cases "k = key")
    case True
    with Cons.prems p have "dget (merge_items (merge_one merged key v) items) k = dget (merge_one merged key v) k"
      by (intro merge_other) simp
    with True show ?thesis by (simp add: p merge_items_Cons dget_merge_one del: merge_items.simps)
  next
    case False
    with Cons.IH [of "merge_one merged key v"] Cons.prems show ?thesis
      by (simp add: p merge_items_Cons dget_merge_one del: merge_items.simps split: option.splits)
  qed
qed simp

lemma merged_value_flat: "\<not> is_pdict v \<Longrightarrow> merged_value v old = (if counts v then v else old)"
  by (cases v) (simp_all add: merged_value_def is_pdict_def)

text \<open>
  Merging the usage frames of a stream: a number that is not zero replaces the number before it, zeros and
  missing values replace nothing. So after any sequence of flat frames the merged record holds, for each
  counter, the last value that counts, and a counter that was reported never disappears again.
\<close>
theorem merged_frames_keep_last_value:
  assumes "\<forall>frame \<in> set frames. distinct (map fst frame) \<and> (\<forall>(k, v) \<in> set frame. \<not> is_pdict v)"
  shows "dget (fold (\<lambda>frame cur. merge_usage cur (PDict frame)) frames cur) k =
    (case filter counts (List.map_filter (\<lambda>frame. map_of frame k) frames) of [] \<Rightarrow> dget cur k | vs \<Rightarrow> last vs)"
  using assms
proof (induction frames arbitrary: cur)
  case (Cons frame frames)
  have "dget (merge_items cur frame) k = (case map_of frame k of Some v \<Rightarrow> if counts v then v else dget cur k | None \<Rightarrow> dget cur k)"
    using Cons.prems by (auto simp: merge_lookup merged_value_flat dest!: map_of_SomeD split: option.splits)
  with Cons.IH [of "merge_items cur frame"] Cons.prems show ?case
    by (auto simp: merge_usage_def List.map_filter_simps split: option.splits list.splits)
qed (simp add: List.map_filter_simps)

theorem merged_frames_keep_last_value_witness:
  "dget (fold (\<lambda>frame cur. merge_usage cur (PDict frame))
      [[(''prompt_tokens'', PInt 9)], [(''prompt_tokens'', PInt 0), (''completion_tokens'', PInt 4)]] []) ''prompt_tokens'' = PInt 9"
  using merged_frames_keep_last_value
    [of "[[(''prompt_tokens'', PInt 9)], [(''prompt_tokens'', PInt 0), (''completion_tokens'', PInt 4)]]" "[]" "''prompt_tokens''"]
  by (simp add: is_pdict_def List.map_filter_simps counts_def is_zero_def)

section \<open>Estimates\<close>

definition finite_rule :: "pydict \<Rightarrow> bool" where
  "finite_rule rule \<longleftrightarrow> rule_float rule ''calibration'' (Some 1) \<noteq> None \<and> rule_float rule ''chars_per_token'' (Some 2) \<noteq> None"

lemma calibrated_positive: "apply_calibration n rule = Some t \<Longrightarrow> 1 \<le> t"
  by (auto simp: apply_calibration_def split: option.splits if_splits)

lemma calibrated_finite: "finite_rule rule \<Longrightarrow> \<exists>t. apply_calibration n rule = Some t"
  by (auto simp: apply_calibration_def finite_rule_def split: option.splits)

lemma chars_finite: "finite_rule rule \<Longrightarrow> \<exists>t. estimate_chars_tokens text rule = Some t"
  by (auto simp: estimate_chars_tokens_def finite_rule_def Let_def)

lemma chars_estimate_ok: "finite_rule rule \<Longrightarrow> \<exists>t. chars_estimate text rule = Some t \<and> 1 \<le> t"
  using chars_finite [of rule "text"] calibrated_finite [of rule] calibrated_positive
  by (fastforce simp: chars_estimate_def)

lemma tiktoken_estimate_ok: "finite_rule rule \<Longrightarrow> \<exists>t. tiktoken_estimate tk text rule = Some t \<and> 1 \<le> t"
  using chars_estimate_ok [of rule "text"] calibrated_finite [of rule] calibrated_positive
  by (fastforce simp: tiktoken_estimate_def split: option.splits)

text \<open>
  An estimate never fails and is at least one token for a text that is not empty, whatever tokenizers are
  installed, whatever vocabularies are missing or broken, if the factors of the rule are finite.
\<close>
theorem estimate_total_and_positive:
  assumes "finite_rule rule" and "text \<noteq> []"
  shows "\<exists>t. snd (estimate_text_tokens_by_rule tk files text rule vs) = Some t \<and> 1 \<le> t"
  using assms calibrated_finite [OF assms(1)] calibrated_positive chars_estimate_ok [OF assms(1)] tiktoken_estimate_ok [OF assms(1)]
  by (fastforce simp: estimate_text_tokens_by_rule_def Let_def split: prod.splits option.splits)

definition no_tokenizers :: tokenizers where
  "no_tokenizers = \<lparr>tk_tiktoken = (\<lambda>_. None), tk_parse = (\<lambda>_. None)\<rparr>"

definition no_vocabs :: vocab_state where
  "no_vocabs = \<lparr>vs_cache = [], vs_text = [], vs_warned = []\<rparr>"

theorem estimate_total_and_positive_witness:
  "finite_rule DEFAULT_TOKENIZER_RULE \<and>
   (\<exists>t. snd (estimate_text_tokens_by_rule no_tokenizers (\<lambda>_. None) ''hello'' DEFAULT_TOKENIZER_RULE no_vocabs) = Some t \<and> 1 \<le> t)"
proof -
  have "finite_rule DEFAULT_TOKENIZER_RULE"
    by (simp add: finite_rule_def DEFAULT_TOKENIZER_RULE_def rule_float_def float_of_def)
  with estimate_total_and_positive show ?thesis by blast
qed

text \<open>
  C7. A calibration given as the text \<open>inf\<close>, which \<open>float()\<close> accepts, makes every estimate with the rule
  raise, although the documentation says that no step of an estimate does.
\<close>
theorem infinite_calibration_raises:
  assumes "dget rule ''calibration'' = PStr ''inf''" and "text \<noteq> []"
  shows "snd (estimate_text_tokens_by_rule tk files text rule vs) = None"
proof -
  have "rule_float rule ''calibration'' (Some 1) = None"
    using assms(1) by (simp add: rule_float_def float_of_def py_float_def py_float_ok_def strip_def lstrip_def rstrip_def is_space_def
        lower_def lower_char_def is_digit_def Let_def)
  then have "apply_calibration n rule = None" for n by (simp add: apply_calibration_def)
  then show ?thesis using assms(2)
    by (auto simp: estimate_text_tokens_by_rule_def chars_estimate_def tiktoken_estimate_def Let_def split: prod.splits option.splits)
qed

theorem infinite_calibration_raises_witness:
  "snd (estimate_text_tokens_by_rule no_tokenizers (\<lambda>_. None) ''hello'' [(''calibration'', PStr ''inf'')] no_vocabs) = None"
  by (rule infinite_calibration_raises) simp_all

section \<open>The cache of vocabularies\<close>

inductive vocab_step :: "vocab_state \<Rightarrow> vocab_state \<Rightarrow> bool" where
  vocab_load: "load_hf_tokenizer tk files repo vs = (vs', r) \<Longrightarrow> vocab_step vs vs'"
| vocab_invalidate: "vocab_step vs (invalidate_hf_tokenizer_cache repo vs)"
| vocab_preload: "load_hf_tokenizers_from_pg rows vs = (vs', n) \<Longrightarrow> vocab_step vs vs'"
| vocab_reload: "load_hf_tokenizer_from_pg repo row vs = (vs', ok) \<Longrightarrow> vocab_step vs vs'"

lemma length_dset_le: "length (dset d k v) \<le> Suc (length d)"
  by (induction d k v rule: dset.induct) auto

lemma vocab_step_bound: "vocab_step vs vs' \<Longrightarrow> length (vs_cache vs) \<le> 8 \<Longrightarrow> length (vs_cache vs') \<le> 8"
proof (induction rule: vocab_step.induct)
  case (vocab_load tk files repo vs vs' r)
  let ?c = "if HF_TOKENIZER_CACHE_MAX \<le> length (vs_cache vs) then tl (vs_cache vs) else vs_cache vs"
  have "length (dset ?c repo t) \<le> 8" for t
    using vocab_load.prems length_dset_le [of ?c repo t] by (auto simp: HF_TOKENIZER_CACHE_MAX_def split: if_splits)
  with vocab_load show ?case by (auto simp: load_hf_tokenizer_def Let_def split: option.splits)
next
  case (vocab_invalidate vs repo)
  then show ?case
    by (cases "opt_str repo") (auto simp: invalidate_hf_tokenizer_cache_def intro: order_trans [OF length_filter_le])
qed (auto simp: load_hf_tokenizers_from_pg_def load_hf_tokenizer_from_pg_def Let_def split: option.splits)

text \<open>
  Whatever models are asked for and whatever vocabularies are loaded, reloaded or dropped, no more than
  eight parsed vocabularies are held in memory.
\<close>
theorem vocabulary_cache_bounded: "vocab_step\<^sup>*\<^sup>* no_vocabs vs \<Longrightarrow> length (vs_cache vs) \<le> 8"
  by (induction rule: rtranclp_induct) (auto simp: no_vocabs_def vocab_step_bound)

end
