(* ===== verification/Lub_Messages.thy ===== *)
theory Lub_Messages
  imports Lub_Usage
begin

text \<open>
  \<open>server/message_utils.py\<close>, the preparation of messages for an upstream: ids and names of tool calls, the
  pairing of calls and results, and the splitting of long messages.

  Messages are values as JSON gives them. Ids of calls are compared as values; a list or an object in the
  place of an id, which Python cannot put into a set, and a number in the place of the list of calls are left
  out. A text is cut by characters, so the cutting works on the list of its characters, each given by its
  UTF-8 bytes. Random ids are arguments (the hexadecimal digits of the UUID), the estimate of the tokens of a
  text is the argument \<open>est\<close>.
\<close>

section \<open>Ids and names of tool calls\<close>

definition id_char :: "string \<Rightarrow> bool" where
  \<comment> \<open>\<open>[a-zA-Z0-9_-]\<close>, of a character given by its bytes\<close>
  "id_char s = (case s of [c] \<Rightarrow> (let n = of_char c :: nat in (97 \<le> n \<and> n \<le> 122) \<or> (65 \<le> n \<and> n \<le> 90) \<or> (48 \<le> n \<and> n \<le> 57) \<or> n = 95 \<or> n = 45)
     | _ \<Rightarrow> False)"

definition allowed_id :: "string \<Rightarrow> bool" where
  "allowed_id s \<longleftrightarrow> s \<noteq> [] \<and> list_all id_char (code_points s)"

definition replace_illegal :: "string \<Rightarrow> string" where
  \<comment> \<open>\<open>_ANTHROPIC_TOOL_ID_ILLEGAL.sub("_", text)\<close>\<close>
  "replace_illegal s = concat (map (\<lambda>c. if id_char c then c else ''_'') (code_points s))"

definition sanitize_anthropic_tool_id :: "string \<Rightarrow> pyval \<Rightarrow> string" where
  "sanitize_anthropic_tool_id uuid tool_id =
     (let t = strip (text_or tool_id []) in
      if t = [] then ''toolu_'' @ take 24 uuid
      else if allowed_id t then t
      else (let s = replace_illegal t in if s = [] then ''toolu_'' @ take 24 uuid else s))"

definition ANTHROPIC_TOOL_NAME_MAX :: nat where
  "ANTHROPIC_TOOL_NAME_MAX = 64"

definition sanitize_anthropic_tool_name :: "pyval \<Rightarrow> string" where
  "sanitize_anthropic_tool_name name =
     (let t = strip (text_or name []) in
      if t = [] then ''tool''
      else if allowed_id t \<and> length t \<le> ANTHROPIC_TOOL_NAME_MAX then t
      else (let s = take ANTHROPIC_TOOL_NAME_MAX (replace_illegal t) in if s = [] then ''tool'' else s))"

section \<open>Pairing of calls and results\<close>

definition msg_get :: "pyval \<Rightarrow> string \<Rightarrow> pyval" where
  "msg_get m k = (case m of PDict d \<Rightarrow> dget d k | _ \<Rightarrow> PNone)"

definition has_role :: "string \<Rightarrow> pyval \<Rightarrow> bool" where
  "has_role r m \<longleftrightarrow> msg_get m ''role'' = PStr r"

definition is_notice :: "pyval \<Rightarrow> bool" where
  "is_notice m \<longleftrightarrow> has_role ''system'' m \<or> has_role ''developer'' m"

definition calls_of :: "pyval \<Rightarrow> pyval list" where
  \<comment> \<open>the list of calls of an assistant message\<close>
  "calls_of m = (if has_role ''assistant'' m then (case msg_get m ''tool_calls'' of PList xs \<Rightarrow> xs | _ \<Rightarrow> []) else [])"

definition ids_of :: "pyval list \<Rightarrow> pyval list" where
  \<comment> \<open>\<open>{tc.get("id") for tc in tool_calls if isinstance(tc, dict) and tc.get("id")}\<close>\<close>
  "ids_of calls = filter truthy (map (\<lambda>tc. msg_get tc ''id'') (filter is_pdict calls))"

definition result_id :: "pyval \<Rightarrow> pyval" where
  "result_id m = msg_get m ''tool_call_id''"

fun take_block :: "pyval list \<Rightarrow> pyval list \<times> pyval list \<times> bool \<Rightarrow> pyval list \<Rightarrow> (pyval list \<times> pyval list \<times> bool) \<times> pyval list" where
  \<comment> \<open>the results and notices after a message with calls, whether a notice stood before a result, and the rest\<close>
  "take_block want (rs, ns, moved) [] = ((rs, ns, moved), [])"
| "take_block want (rs, ns, moved) (m # ms) =
     (if has_role ''tool'' m
      then (if result_id m \<in> set want then take_block want (rs @ [m], ns, moved \<or> ns \<noteq> []) ms else ((rs, ns, moved), m # ms))
      else if is_notice m then take_block want (rs, ns @ [m], moved) ms
      else ((rs, ns, moved), m # ms))"

lemma take_block_length: "take_block want st ms = (st', rest) \<Longrightarrow> length rest \<le> length ms"
proof (induction ms arbitrary: st)
  case Nil
  then show ?case by (cases st) simp
next
  case (Cons m ms)
  then show ?case by (cases st) (fastforce split: if_splits)
qed

function repack_from :: "pyval list \<Rightarrow> pyval list \<times> bool" where
  "repack_from [] = ([], False)"
| "repack_from (m # ms) =
     (if calls_of m = [] then (case repack_from ms of (out, changed) \<Rightarrow> (m # out, changed))
      else (case take_block (ids_of (calls_of m)) ([], [], False) ms of
              ((rs, ns, moved), rest) \<Rightarrow>
                (case repack_from rest of (out, changed) \<Rightarrow> (m # rs @ ns @ out, (rs \<noteq> [] \<and> moved) \<or> changed))))"
  by pat_completeness auto
termination
  by (relation "measure length") (auto simp: less_Suc_eq_le dest!: take_block_length [OF sym] take_block_length)

definition repack_tool_result_blocks :: "pyval list \<Rightarrow> pyval list" where
  "repack_tool_result_blocks messages =
     (if length messages < 3 then messages
      else (case repack_from messages of (out, changed) \<Rightarrow> if changed then out else messages))"

definition call_ids :: "pyval list \<Rightarrow> pyval list" where
  "call_ids messages = concat (map (\<lambda>m. ids_of (calls_of m)) messages)"

definition result_ids :: "pyval list \<Rightarrow> pyval list" where
  "result_ids messages = filter truthy (map result_id (filter (has_role ''tool'') messages))"

definition kept_calls :: "pyval set \<Rightarrow> pyval list \<Rightarrow> pyval list" where
  "kept_calls keep calls = filter (\<lambda>tc. is_pdict tc \<and> msg_get tc ''id'' \<in> keep) calls"

definition with_calls :: "pyval list \<Rightarrow> pyval \<Rightarrow> pyval" where
  "with_calls kept m = (case m of PDict d \<Rightarrow> PDict (if kept \<noteq> [] then dset d ''tool_calls'' (PList kept) else dremove d ''tool_calls'') | _ \<Rightarrow> m)"

definition cleaned :: "pyval set \<Rightarrow> pyval \<Rightarrow> pyval option" where
  "cleaned keep m =
     (if has_role ''tool'' m then (if result_id m \<in> keep then Some m else None)
      else if calls_of m \<noteq> []
      then (let kept = kept_calls keep (calls_of m) in Some (if length kept = length (calls_of m) then m else with_calls kept m))
      else Some m)"

definition cleanup_orphan_tool_calls :: "pyval list \<Rightarrow> pyval list" where
  "cleanup_orphan_tool_calls messages =
     (if call_ids messages = [] \<and> result_ids messages = [] then messages
      else List.map_filter (cleaned (set (call_ids messages) \<inter> set (result_ids messages))) messages)"

section \<open>Long messages\<close>

definition SPLIT_DELIMITERS :: "string list list" where
  \<comment> \<open>each as a list of characters; the Chinese marks by their bytes\<close>
  "SPLIT_DELIMITERS =
     (let nl = [CHR 0x0A]; mark = (\<lambda>bs :: nat list. map char_of bs) in
      [[nl, nl], [nl], [mark [227, 128, 130]], [mark [239, 188, 129]], [mark [239, 188, 159]], [mark [239, 188, 155]],
       [''.'', '' ''], [''!'', '' ''], [''?'', '' ''], ['';'', '' ''], [mark [239, 188, 140]], ['','', '' ''],
       [mark [227, 128, 129]], ['' '']])"

definition rfind :: "'a list \<Rightarrow> 'a list \<Rightarrow> nat option" where
  "rfind p w = (case filter (\<lambda>i. take (length p) (drop i w) = p) [0..<length w] of [] \<Rightarrow> None | is \<Rightarrow> Some (last is))"

fun first_cut :: "string list list \<Rightarrow> string list \<Rightarrow> nat \<Rightarrow> nat" where
  "first_cut [] w budget = budget"
| "first_cut (d # ds) w budget =
     (case rfind d w of
        Some i \<Rightarrow> if budget div 2 \<le> i then i + length d else first_cut ds w budget
      | None \<Rightarrow> first_cut ds w budget)"

definition split_at_delimiter :: "string list \<Rightarrow> nat \<Rightarrow> nat" where
  "split_at_delimiter chars budget = first_cut SPLIT_DELIMITERS (take budget chars) budget"

lemma first_cut_pos: "0 < budget \<Longrightarrow> \<forall>d \<in> set ds. d \<noteq> [] \<Longrightarrow> 0 < first_cut ds w budget"
  by (induction ds) (auto split: option.splits)

lemma split_at_delimiter_pos: "0 < budget \<Longrightarrow> 0 < split_at_delimiter chars budget"
  unfolding split_at_delimiter_def by (rule first_cut_pos) (auto simp: SPLIT_DELIMITERS_def Let_def)

definition split_budget :: "nat \<Rightarrow> int \<Rightarrow> int \<Rightarrow> nat" where
  "split_budget n max_tokens tokens = max 1 (nat (trunc (of_nat n * of_int max_tokens / of_int tokens)))"

function split_pieces :: "(string \<Rightarrow> int) \<Rightarrow> int \<Rightarrow> string list \<Rightarrow> string list list" where
  "split_pieces est max_tokens chars =
     (if chars = [] then []
      else if est (concat chars) \<le> max_tokens then [chars]
      else (let cut = split_at_delimiter chars (split_budget (length chars) max_tokens (est (concat chars)))
            in take cut chars # split_pieces est max_tokens (drop cut chars)))"
  by pat_completeness auto
termination
proof (relation "measure (\<lambda>(est, max_tokens, chars). length chars)")
  fix est max_tokens chars cut
  assume "chars \<noteq> []" and "cut = split_at_delimiter chars (split_budget (length chars) max_tokens (est (concat chars)))"
  then show "((est, max_tokens, drop cut chars), (est, max_tokens, chars)) \<in> measure (\<lambda>(est, max_tokens, chars). length chars)"
    using split_at_delimiter_pos [of "split_budget (length chars) max_tokens (est (concat chars))" chars]
    by (simp add: split_budget_def)
qed simp

declare split_pieces.simps [simp del]

definition piece_message :: "pydict \<Rightarrow> bool \<Rightarrow> string \<Rightarrow> pyval" where
  \<comment> \<open>the mark of a cached prefix stays with the last piece\<close>
  "piece_message d is_last piece =
     (let d1 = dset d ''content'' (PStr piece) in PDict (if is_last then d1 else dremove d1 ''cache_control''))"

definition splittable :: "(string \<Rightarrow> int) \<Rightarrow> int \<Rightarrow> pydict \<Rightarrow> string option" where
  "splittable est max_tokens d =
     (case dget d ''content'' of
        PStr s \<Rightarrow> (if dget d ''role'' \<in> {PStr ''system'', PStr ''user'', PStr ''assistant''} \<and> \<not> truthy (dget d ''tool_calls'') \<and>
                      max_tokens < est s then Some s else None)
      | _ \<Rightarrow> None)"

definition split_message :: "(string \<Rightarrow> int) \<Rightarrow> int \<Rightarrow> pyval \<Rightarrow> pyval list" where
  "split_message est max_tokens m =
     (case m of
        PDict d \<Rightarrow>
          (case splittable est max_tokens d of
             None \<Rightarrow> [m]
           | Some s \<Rightarrow>
              (let pieces = map concat (split_pieces est max_tokens (code_points s)) in
               if length pieces \<le> 1 then [m]
               else map (piece_message d False) (butlast pieces) @ [piece_message d True (last pieces)]))
      | _ \<Rightarrow> [m])"

definition split_oversized_messages :: "(string \<Rightarrow> int) \<Rightarrow> int \<Rightarrow> pyval list \<Rightarrow> pyval list" where
  "split_oversized_messages est max_tokens messages =
     (if max_tokens \<le> 0 then messages else concat (map (split_message est max_tokens) messages))"

definition prepare_messages :: "pyval list \<Rightarrow> pyval list" where
  \<comment> \<open>what the provider does before sending: notices are moved first, orphans removed afterwards\<close>
  "prepare_messages messages = cleanup_orphan_tool_calls (repack_tool_result_blocks messages)"

end
