(* ===== verification/Lub_MessagesProps.thy ===== *)
theory Lub_MessagesProps
  imports Lub_Messages "HOL-Library.Multiset"
begin

text \<open>
  Properties of the preparation of messages: sanitised ids are legal and stable; the cleanup leaves exactly
  matching calls and results; moving notices keeps every message and all turns in order and brings results
  next to their calls; cutting a long message keeps its text; and the order in which the provider composes
  the two repairs can leave a broken pair.
\<close>

section \<open>Ids and names\<close>

lemma id_char_ascii: "id_char [c] \<Longrightarrow> \<not> is_continuation c"
  by (auto simp: id_char_def is_continuation_def Let_def)

lemma id_char_single: "id_char s \<Longrightarrow> \<exists>c. s = [c]"
  by (auto simp: id_char_def split: list.splits)

lemma code_points_ascii: "\<forall>c \<in> set s. \<not> is_continuation c \<Longrightarrow> code_points s = map (\<lambda>c. [c]) s"
proof (induction s)
  case (Cons c s)
  then have "takeWhile is_continuation s = []" "dropWhile is_continuation s = s" by (cases s; simp)+
  with Cons show ?case by simp
qed simp

definition legal :: "string \<Rightarrow> bool" where
  "legal s \<longleftrightarrow> s \<noteq> [] \<and> (\<forall>c \<in> set s. id_char [c])"

lemma legal_allowed: "legal s \<Longrightarrow> allowed_id s"
  by (auto simp: legal_def allowed_id_def code_points_ascii id_char_ascii list_all_iff)

lemma concat_code_points: "concat (code_points s) = s"
  by (induction s rule: code_points.induct) auto

lemma allowed_legal: "allowed_id s \<Longrightarrow> legal s"
proof -
  assume a: "allowed_id s"
  have "\<forall>c \<in> set (concat (code_points s)). id_char [c]"
    using a id_char_single by (fastforce simp: allowed_id_def list_all_iff)
  with a show "legal s" by (simp add: legal_def concat_code_points allowed_id_def)
qed

lemma replaced_legal: "s \<noteq> [] \<Longrightarrow> legal (replace_illegal s)"
proof -
  assume "s \<noteq> []"
  then obtain c cs where cs: "code_points s = c # cs" by (cases s) auto
  have "\<forall>x \<in> set (replace_illegal s). id_char [x]"
    using id_char_single by (fastforce simp: replace_illegal_def id_char_def split: if_splits)
  moreover have "replace_illegal s \<noteq> []" using id_char_single [of c] by (auto simp: replace_illegal_def cs)
  ultimately show ?thesis by (simp add: legal_def)
qed

lemma legal_strip: "legal s \<Longrightarrow> strip s = s"
proof -
  assume l: "legal s"
  have nospace: "id_char [c] \<Longrightarrow> \<not> is_space c" for c
    by (auto simp: id_char_def is_space_def Let_def)
  from l have "s \<noteq> []" "\<not> is_space (hd s)" "\<not> is_space (last s)" by (simp_all add: legal_def nospace)
  then show ?thesis by (simp add: strip_tidy tidy_def)
qed

lemma tool_id_legal: "legal uuid \<Longrightarrow> legal (sanitize_anthropic_tool_id uuid v)"
proof -
  assume "legal uuid"
  then have "legal (''toolu_'' @ take 24 uuid)"
    by (auto simp: legal_def id_char_def dest: in_set_takeD)
  then show ?thesis using replaced_legal allowed_legal by (auto simp: sanitize_anthropic_tool_id_def Let_def)
qed

lemma tool_id_fixed: "legal s \<Longrightarrow> sanitize_anthropic_tool_id uuid (PStr s) = s"
  by (auto simp: sanitize_anthropic_tool_id_def legal_strip legal_allowed Let_def) (auto simp: legal_def)

text \<open>
  The id under which a tool call is sent is never empty and consists of the characters the protocol
  allows; sanitising it again, with whatever random id, gives the same id, so that a call and its result stay
  paired however often the messages are converted.
\<close>
theorem tool_ids_legal_and_stable:
  assumes "legal uuid"
  shows "legal (sanitize_anthropic_tool_id uuid v) \<and>
         sanitize_anthropic_tool_id uuid' (PStr (sanitize_anthropic_tool_id uuid v)) = sanitize_anthropic_tool_id uuid v"
  using tool_id_legal [OF assms] tool_id_fixed by blast

lemma tool_name_legal: "legal (sanitize_anthropic_tool_name v) \<and> length (sanitize_anthropic_tool_name v) \<le> 64"
proof -
  have "legal ''tool''" by (simp add: legal_def id_char_def)
  moreover have "legal s \<Longrightarrow> legal (take 64 s)" for s by (auto simp: legal_def dest: in_set_takeD)
  ultimately show ?thesis using replaced_legal allowed_legal
    by (auto simp: sanitize_anthropic_tool_name_def ANTHROPIC_TOOL_NAME_MAX_def Let_def)
qed

section \<open>Cleanup\<close>

lemma msg_get_dict: "is_pdict m \<Longrightarrow> \<exists>d. m = PDict d"
  by (cases m) (auto simp: is_pdict_def)

lemma dget_dpop [simp]: "dget (dremove d k) k' = (if k' = k then PNone else dget d k')"
  by (simp add: dget_def)

lemma with_calls_get:
  "msg_get (with_calls kept m) k = (if k = ''tool_calls'' \<and> is_pdict m then (if kept = [] then PNone else PList kept) else msg_get m k)"
  by (cases m) (auto simp: with_calls_def msg_get_def is_pdict_def dget_dset)

lemma calls_with_calls: "calls_of m \<noteq> [] \<Longrightarrow> calls_of (with_calls kept m) = kept"
proof -
  assume "calls_of m \<noteq> []"
  then have "has_role ''assistant'' m" by (simp add: calls_of_def split: if_splits)
  moreover from this have "is_pdict m" by (cases m) (simp_all add: has_role_def msg_get_def is_pdict_def)
  ultimately show ?thesis by (simp add: calls_of_def has_role_def with_calls_get)
qed

lemma has_role_with_calls [simp]: "has_role r (with_calls kept m) = has_role r m"
  by (simp add: has_role_def with_calls_get)

lemma tool_no_calls: "has_role ''tool'' m \<Longrightarrow> calls_of m = []"
  by (simp add: calls_of_def has_role_def)

lemma ids_kept: "set (ids_of (kept_calls keep calls)) = set (ids_of calls) \<inter> keep"
  by (auto simp: ids_of_def kept_calls_def)

lemma all_kept: "length (kept_calls keep calls) = length calls \<Longrightarrow> kept_calls keep calls = calls"
  by (metis filter_True kept_calls_def length_filter_less linorder_neq_iff)

lemma cleaned_calls: "cleaned keep m = Some m' \<Longrightarrow> set (ids_of (calls_of m')) = set (ids_of (calls_of m)) \<inter> keep"
proof -
  assume c: "cleaned keep m = Some m'"
  show ?thesis
  proof (cases "has_role ''tool'' m \<or> calls_of m = []")
    case True
    with c show ?thesis by (auto simp: cleaned_def tool_no_calls ids_of_def split: if_splits)
  next
    case False
    let ?kept = "kept_calls keep (calls_of m)"
    from c False have "m' = (if length ?kept = length (calls_of m) then m else with_calls ?kept m)"
      by (simp add: cleaned_def Let_def)
    then have "calls_of m' = ?kept" using False all_kept [of keep "calls_of m"] calls_with_calls [of m ?kept] by presburger
    then show ?thesis by (simp add: ids_kept)
  qed
qed

lemma cleaned_role: "cleaned keep m = Some m' \<Longrightarrow> has_role r m' = has_role r m"
  by (auto simp: cleaned_def Let_def split: if_splits)

lemma set_call_ids: "x \<in> set (call_ids ms) \<longleftrightarrow> (\<exists>m \<in> set ms. x \<in> set (ids_of (calls_of m)))"
  by (simp add: call_ids_def)

lemma set_result_ids: "x \<in> set (result_ids ms) \<longleftrightarrow> truthy x \<and> (\<exists>m \<in> set ms. has_role ''tool'' m \<and> result_id m = x)"
  by (auto simp: result_ids_def)

lemma cleaned_ids:
  assumes "keep = set (call_ids ms) \<inter> set (result_ids ms)"
  shows "set (call_ids (List.map_filter (cleaned keep) ms)) = keep" and "set (result_ids (List.map_filter (cleaned keep) ms)) = keep"
proof -
  have nontool: "has_role ''tool'' m \<or> cleaned keep m \<noteq> None" for m by (simp add: cleaned_def Let_def)
  have tool: "has_role ''tool'' m \<Longrightarrow> cleaned keep m = (if result_id m \<in> keep then Some m else None)" for m by (simp add: cleaned_def)
  show "set (call_ids (List.map_filter (cleaned keep) ms)) = keep"
  proof (intro equalityI subsetI)
    fix x assume "x \<in> set (call_ids (List.map_filter (cleaned keep) ms))"
    then show "x \<in> keep" by (auto simp: set_call_ids set_map_filter_iff cleaned_calls)
  next
    fix x assume x: "x \<in> keep"
    then obtain m where m: "m \<in> set ms" "x \<in> set (ids_of (calls_of m))" by (auto simp: assms set_call_ids)
    then have "\<not> has_role ''tool'' m" using tool_no_calls by (force simp: ids_of_def)
    then obtain m' where "cleaned keep m = Some m'" using nontool [of m] by auto
    with m x cleaned_calls show "x \<in> set (call_ids (List.map_filter (cleaned keep) ms))"
      by (fastforce simp: set_call_ids set_map_filter_iff)
  qed
  show "set (result_ids (List.map_filter (cleaned keep) ms)) = keep"
  proof (intro equalityI subsetI)
    fix x assume "x \<in> set (result_ids (List.map_filter (cleaned keep) ms))"
    then obtain m m' where "cleaned keep m = Some m'" "has_role ''tool'' m'" "result_id m' = x" by (auto simp: set_result_ids set_map_filter_iff)
    then show "x \<in> keep" using tool [of m] cleaned_role [of keep m m'] by (auto split: if_splits)
  next
    fix x assume x: "x \<in> keep"
    then obtain m where "m \<in> set ms" "has_role ''tool'' m" "result_id m = x" "truthy x" by (auto simp: assms set_result_ids)
    moreover from this x tool [of m] have "m \<in> set (List.map_filter (cleaned keep) ms)" by (auto simp: set_map_filter_iff)
    ultimately show "x \<in> set (result_ids (List.map_filter (cleaned keep) ms))" by (auto simp: set_result_ids)
  qed
qed

definition without_calls :: "pyval \<Rightarrow> pyval" where
  "without_calls m = (case m of PDict d \<Rightarrow> PDict (dremove d ''tool_calls'') | _ \<Rightarrow> m)"

lemma dpop_dset: "dremove (dset d k v) k = dremove d k"
  by (induction d k v rule: dset.induct) (auto simp: dremove_def)

lemma dpop_idem [simp]: "dremove (dremove d k) k = dremove d k"
  by (simp add: dremove_def)

lemma without_with [simp]: "without_calls (with_calls kept m) = without_calls m"
  by (cases m) (simp_all add: without_calls_def with_calls_def dpop_dset)



section \<open>Moving notices\<close>

definition wanted :: "pyval list \<Rightarrow> pyval \<Rightarrow> bool" where
  "wanted want m \<longleftrightarrow> has_role ''tool'' m \<and> result_id m \<in> set want"

definition stops :: "pyval list \<Rightarrow> pyval list \<Rightarrow> bool" where
  "stops want ms \<longleftrightarrow> (ms = [] \<or> (\<not> wanted want (hd ms) \<and> \<not> is_notice (hd ms)))"

definition block :: "pyval list \<Rightarrow> pyval list \<Rightarrow> pyval list \<Rightarrow> pyval list \<Rightarrow> pyval list \<Rightarrow> bool" where
  \<comment> \<open>the messages \<open>ms\<close> are the results \<open>rs\<close> and the notices \<open>ns\<close> in some interleaving, followed by \<open>rest\<close>\<close>
  "block want ms rs ns rest \<longleftrightarrow> (\<forall>r \<in> set rs. wanted want r) \<and> (\<forall>n \<in> set ns. is_notice n) \<and> mset ms = mset (rs @ ns @ rest) \<and>
     filter (Not \<circ> is_notice) ms = rs @ filter (Not \<circ> is_notice) rest \<and> filter is_notice ms = ns @ filter is_notice rest \<and> stops want rest"

lemma wanted_not_notice: "wanted want m \<Longrightarrow> \<not> is_notice m"
  by (auto simp: wanted_def is_notice_def has_role_def)

lemma take_block_step:
  "take_block want (rs, ns, moved) (m # ms) =
     (if wanted want m then take_block want (rs @ [m], ns, moved \<or> ns \<noteq> []) ms
      else if is_notice m then take_block want (rs, ns @ [m], moved) ms else ((rs, ns, moved), m # ms))"
  by (auto simp: wanted_def is_notice_def has_role_def)

lemma take_block_keeps: "take_block want (rs0, ns0, True) ms = ((rs, ns, mv), rest) \<Longrightarrow> mv"
  by (induction ms arbitrary: rs0 ns0) (auto simp: take_block_step simp del: take_block.simps(2) split: if_splits)

lemma take_block_ok:
  "take_block want (rs0, ns0, mv0) ms = ((rs, ns, mv), rest) \<Longrightarrow>
     \<exists>rs' ns'. rs = rs0 @ rs' \<and> ns = ns0 @ ns' \<and> block want ms rs' ns' rest \<and>
       (\<not> mv \<longrightarrow> (rs' = [] \<or> ns0 = []) \<and> ms = rs' @ ns' @ rest)"
proof (induction ms arbitrary: rs0 ns0 mv0)
  case Nil
  then show ?case by (simp add: block_def stops_def)
next
  case (Cons m ms)
  consider "wanted want m" | "is_notice m" "\<not> wanted want m" | "\<not> wanted want m" "\<not> is_notice m" by blast
  then show ?case
  proof cases
    case 1
    with Cons.prems have "take_block want (rs0 @ [m], ns0, mv0 \<or> ns0 \<noteq> []) ms = ((rs, ns, mv), rest)" by (simp add: take_block_step del: take_block.simps)
    from Cons.IH [OF this] obtain rs' ns' where *: "rs = (rs0 @ [m]) @ rs'" "ns = ns0 @ ns'" "block want ms rs' ns' rest"
      "\<not> mv \<longrightarrow> (rs' = [] \<or> ns0 = []) \<and> ms = rs' @ ns' @ rest" by blast
    have "\<not> mv \<longrightarrow> ns0 = []"
      using take_block_keeps [of want "rs0 @ [m]" ns0 ms rs ns mv rest] Cons.prems 1
      by (cases "ns0 = []") (simp_all add: take_block_step del: take_block.simps)
    with * 1 wanted_not_notice [OF 1] show ?thesis
      by (intro exI [of _ "m # rs'"] exI [of _ ns']) (auto simp: block_def)
  next
    case 2
    with Cons.prems have "take_block want (rs0, ns0 @ [m], mv0) ms = ((rs, ns, mv), rest)" by (simp add: take_block_step del: take_block.simps)
    from Cons.IH [OF this] obtain rs' ns' where *: "rs = rs0 @ rs'" "ns = (ns0 @ [m]) @ ns'" "block want ms rs' ns' rest"
      "\<not> mv \<longrightarrow> rs' = [] \<and> ms = rs' @ ns' @ rest" by auto
    with 2 show ?thesis by (intro exI [of _ rs'] exI [of _ "m # ns'"]) (auto simp: block_def)
  next
    case 3
    with Cons.prems show ?thesis by (auto simp: take_block_step block_def stops_def simp del: take_block.simps)
  qed
qed

lemma take_block_form:
  assumes "\<forall>r \<in> set rs. wanted want r" and "\<forall>n \<in> set ns. is_notice n" and "stops want rest"
  shows "take_block want ([], [], False) (rs @ ns @ rest) = ((rs, ns, False), rest)"
proof -
  have notices: "take_block want (rs0, ns0, mv) (ns @ rest) = ((rs0, ns0 @ ns, mv), rest)" for rs0 ns0 mv
    using assms(2)
  proof (induction ns arbitrary: ns0)
    case Nil
    with assms(3) show ?case by (cases rest) (simp_all add: take_block_step stops_def del: take_block.simps(2))
  next
    case (Cons n ns)
    then have "is_notice n" "\<not> wanted want n" using wanted_not_notice by auto
    with Cons show ?case by (simp add: take_block_step del: take_block.simps)
  qed
  have "take_block want (rs0, [], False) (rs @ ns @ rest) = ((rs0 @ rs, ns, False), rest)" for rs0
    using assms(1)
  proof (induction rs arbitrary: rs0)
    case Nil
    with notices [of rs0 "[]" False] show ?case by simp
  next
    case (Cons r rs)
    then show ?case by (simp add: take_block_step del: take_block.simps)
  qed
  from this [of "[]"] show ?thesis by simp
qed

lemma take_block_results: "take_block want (rs0, ns0, mv0) ms = ((rs, ns, mv), rest) \<Longrightarrow> rs0 = [] \<longrightarrow> \<not> mv0 \<Longrightarrow> rs = [] \<longrightarrow> \<not> mv"
proof (induction ms arbitrary: rs0 ns0 mv0)
  case (Cons m ms)
  then show ?case using take_block_ok [of want "rs0 @ [m]"]
    by (fastforce simp: take_block_step simp del: take_block.simps split: if_splits)
qed simp

lemma repack_block:
  assumes "calls_of m \<noteq> []" and "take_block (ids_of (calls_of m)) ([], [], False) ms = ((rs, ns, mv), rest)"
  shows "block (ids_of (calls_of m)) ms rs ns rest" and "\<not> mv \<Longrightarrow> ms = rs @ ns @ rest"
    and "repack_from (m # ms) = (m # rs @ ns @ fst (repack_from rest), mv \<or> snd (repack_from rest))"
  using take_block_ok [OF assms(2)] take_block_results [OF assms(2)] assms by (auto split: prod.splits)

lemma repack_plain: "calls_of m = [] \<Longrightarrow> repack_from (m # ms) = (m # fst (repack_from ms), snd (repack_from ms))"
  by (simp split: prod.splits)

lemmas repack_from_simps [simp del] = repack_from.simps(2)

lemma repack_hd: "stops want ms \<Longrightarrow> stops want (fst (repack_from ms))"
proof (cases ms)
  case (Cons m ms')
  then show "stops want ms \<Longrightarrow> ?thesis"
    by (cases "calls_of m = []"; cases "take_block (ids_of (calls_of m)) ([], [], False) ms'")
      (auto simp: repack_plain repack_block(3) stops_def)
qed simp

lemma notice_no_calls: "is_notice m \<Longrightarrow> calls_of m = []" and wanted_no_calls: "wanted want m \<Longrightarrow> calls_of m = []"
  by (auto simp: is_notice_def calls_of_def has_role_def wanted_def)

lemma repack_same:
  "mset (fst (repack_from ms)) = mset ms \<and>
   filter (Not \<circ> is_notice) (fst (repack_from ms)) = filter (Not \<circ> is_notice) ms \<and>
   filter is_notice (fst (repack_from ms)) = filter is_notice ms \<and>
   (\<not> snd (repack_from ms) \<longrightarrow> fst (repack_from ms) = ms)"
proof (induction "length ms" arbitrary: ms rule: less_induct)
  case less
  show ?case
  proof (cases ms)
    case (Cons m ms')
    show ?thesis
    proof (cases "calls_of m = []")
      case True
      with Cons less [of ms'] show ?thesis by (simp add: repack_plain)
    next
      case False
      obtain rs ns mv rest where t: "take_block (ids_of (calls_of m)) ([], [], False) ms' = ((rs, ns, mv), rest)" by (metis prod_cases3 surj_pair)
      note b = repack_block [OF False t]
      from t have "length rest \<le> length ms'" by (rule take_block_length)
      with Cons less [of rest] have ih: "mset (fst (repack_from rest)) = mset rest"
        "filter (Not \<circ> is_notice) (fst (repack_from rest)) = filter (Not \<circ> is_notice) rest"
        "filter is_notice (fst (repack_from rest)) = filter is_notice rest"
        "\<not> snd (repack_from rest) \<longrightarrow> fst (repack_from rest) = rest" by auto
      have rn: "filter (Not \<circ> is_notice) rs = rs" "filter is_notice rs = []" "filter (Not \<circ> is_notice) ns = []" "filter is_notice ns = ns"
        using b(1) wanted_not_notice by (auto simp: block_def filter_id_conv filter_empty_conv)
      have "\<not> is_notice m" using False notice_no_calls by blast
      with b ih rn Cons show ?thesis by (auto simp: block_def)
    qed
  qed simp
qed

lemma repack_settled: "\<not> snd (repack_from (fst (repack_from ms)))"
proof (induction "length ms" arbitrary: ms rule: less_induct)
  case less
  show ?case
  proof (cases ms)
    case (Cons m ms')
    show ?thesis
    proof (cases "calls_of m = []")
      case True
      with Cons less [of ms'] show ?thesis by (simp add: repack_plain)
    next
      case False
      obtain rs ns mv rest where t: "take_block (ids_of (calls_of m)) ([], [], False) ms' = ((rs, ns, mv), rest)" by (metis prod_cases3 surj_pair)
      note b = repack_block [OF False t]
      from t have "length rest \<le> length ms'" by (rule take_block_length)
      with Cons less [of rest] have ih: "\<not> snd (repack_from (fst (repack_from rest)))" by simp
      have "take_block (ids_of (calls_of m)) ([], [], False) (rs @ ns @ fst (repack_from rest)) = ((rs, ns, False), fst (repack_from rest))"
        using b(1) repack_hd by (intro take_block_form) (auto simp: block_def)
      from repack_block(3) [OF False this] b(3) ih Cons show ?thesis by simp
    qed
  qed simp
qed

definition contiguous :: "pyval list \<Rightarrow> bool" where
  \<comment> \<open>from a message with calls to a result of one of them, over results of the group and notices only, there is no notice\<close>
  "contiguous ms \<longleftrightarrow> (\<forall>pre m mid r post. ms = pre @ m # mid @ r # post \<longrightarrow> calls_of m \<noteq> [] \<longrightarrow> wanted (ids_of (calls_of m)) r \<longrightarrow>
     (\<forall>x \<in> set mid. wanted (ids_of (calls_of m)) x \<or> is_notice x) \<longrightarrow> (\<forall>x \<in> set mid. \<not> is_notice x))"

lemma contiguousD:
  "contiguous ms \<Longrightarrow> ms = pre @ m # mid @ r # post \<Longrightarrow> calls_of m \<noteq> [] \<Longrightarrow> wanted (ids_of (calls_of m)) r \<Longrightarrow>
   \<forall>x \<in> set mid. wanted (ids_of (calls_of m)) x \<or> is_notice x \<Longrightarrow> x \<in> set mid \<Longrightarrow> \<not> is_notice x"
  unfolding contiguous_def by blast

lemma append_split:
  assumes "a @ b = c @ d" and "length a \<le> length c"
  obtains q where "c = a @ q" and "b = q @ d"
  using assms by (metis append_eq_append_conv_if append_take_drop_id)

lemma block_prefix:
  assumes "rs @ ns @ rest = mid @ r # post" and "\<forall>x \<in> set rs. wanted want x" and "\<forall>x \<in> set ns. is_notice x" and "stops want rest"
    and "wanted want r" and "\<forall>x \<in> set mid. wanted want x \<or> is_notice x"
  shows "\<forall>x \<in> set mid. \<not> is_notice x"
proof -
  have "length mid < length rs"
  proof (rule ccontr)
    assume "\<not> length mid < length rs"
    then obtain mid' where mid: "mid = rs @ mid'" "ns @ rest = mid' @ r # post"
      using append_split [OF assms(1)] by (metis not_less)
    show False
    proof (cases "length mid' < length ns")
      case True
      with mid(2) have "ns ! length mid' = r" by (metis nth_append nth_append_length)
      with True assms(3,5) wanted_not_notice show False by (metis nth_mem)
    next
      case False
      then obtain q where q: "mid' = ns @ q" "rest = q @ r # post"
        using append_split [OF mid(2)] by (metis not_less)
      then have "hd rest \<in> set (q @ [r])" by (cases q) auto
      with q mid(1) assms(4-6) show False by (auto simp: stops_def)
    qed
  qed
  then have "mid = take (length mid) rs" using assms(1) by (simp add: append_eq_append_conv_if)
  with assms(2) wanted_not_notice show ?thesis by (metis in_set_takeD)
qed

lemma calls_in_rest:
  assumes "rs @ ns @ rest = pre @ m # tail" and "\<forall>x \<in> set rs. wanted want x" and "\<forall>x \<in> set ns. is_notice x" and "calls_of m \<noteq> []"
  obtains pre' where "rest = pre' @ m # tail"
proof -
  have notin: "m \<notin> set (rs @ ns)" using assms(2-4) wanted_no_calls notice_no_calls by auto
  have "length (rs @ ns) \<le> length pre"
  proof (rule ccontr)
    assume "\<not> ?thesis"
    then have "(rs @ ns) ! length pre = m" using assms(1) by (metis append.assoc nth_append nth_append_length not_le)
    with \<open>\<not> ?thesis\<close> notin show False by (metis not_le nth_mem)
  qed
  then have "rest = drop (length (rs @ ns)) pre @ m # tail" using assms(1) by (metis append.assoc append_eq_conv_conj drop_append diff_is_0_eq drop_0)
  with that show ?thesis by blast
qed

lemma unmoved_contiguous: "\<not> snd (repack_from ms) \<Longrightarrow> contiguous ms"
proof (induction "length ms" arbitrary: ms rule: less_induct)
  case less
  show ?case
  proof (cases ms)
    case (Cons m0 ms')
    show ?thesis
    proof (cases "calls_of m0 = []")
      case True
      with Cons less have "contiguous ms'" by (simp add: repack_plain)
      show ?thesis unfolding contiguous_def
      proof (intro allI impI)
        fix pre m mid r post
        assume d: "ms = pre @ m # mid @ r # post" and c: "calls_of m \<noteq> []" "wanted (ids_of (calls_of m)) r"
          "\<forall>x \<in> set mid. wanted (ids_of (calls_of m)) x \<or> is_notice x"
        from d c(1) True Cons obtain pre' where "ms' = pre' @ m # mid @ r # post" by (cases pre) auto
        with \<open>contiguous ms'\<close> c show "\<forall>x \<in> set mid. \<not> is_notice x" unfolding contiguous_def by blast
      qed
    next
      case False
      obtain rs ns mv rest where t: "take_block (ids_of (calls_of m0)) ([], [], False) ms' = ((rs, ns, mv), rest)" by (metis prod_cases3 surj_pair)
      note b = repack_block [OF False t]
      from b(3) less.prems Cons have u: "\<not> mv" "\<not> snd (repack_from rest)" by auto
      from t have "length rest \<le> length ms'" by (rule take_block_length)
      with less.hyps [of rest] u(2) Cons have rest: "contiguous rest" by simp
      have ms': "ms' = rs @ ns @ rest" using b(2) u(1) by blast
      have wn: "\<forall>x \<in> set rs. wanted (ids_of (calls_of m0)) x" "\<forall>x \<in> set ns. is_notice x" "stops (ids_of (calls_of m0)) rest"
        using b(1) by (auto simp: block_def)
      show ?thesis unfolding contiguous_def
      proof (intro allI impI)
        fix pre m mid r post
        assume d: "ms = pre @ m # mid @ r # post" and c: "calls_of m \<noteq> []" "wanted (ids_of (calls_of m)) r"
          "\<forall>x \<in> set mid. wanted (ids_of (calls_of m)) x \<or> is_notice x"
        show "\<forall>x \<in> set mid. \<not> is_notice x"
        proof (cases pre)
          case Nil
          with d Cons ms' have "m = m0" "rs @ ns @ rest = mid @ r # post" by auto
          with block_prefix wn c show ?thesis by blast
        next
          case (Cons p0 pre')
          with d ms' \<open>ms = m0 # ms'\<close> have "rs @ ns @ rest = pre' @ m # mid @ r # post" by simp
          from calls_in_rest [OF this wn(1,2) c(1)] obtain pre'' where "rest = pre'' @ m # mid @ r # post" by blast
          with rest c show ?thesis unfolding contiguous_def by blast
        qed
      qed
    qed
  qed (simp add: contiguous_def)
qed

lemma short_contiguous: "length ms < 3 \<Longrightarrow> contiguous ms"
  unfolding contiguous_def by (auto simp: in_set_conv_decomp)

lemma repack_value:
  "contiguous (repack_tool_result_blocks ms) \<and>
   (3 \<le> length ms \<longrightarrow> repack_tool_result_blocks ms = fst (repack_from ms) \<and> \<not> snd (repack_from (repack_tool_result_blocks ms)))"
proof (cases "length ms < 3")
  case False
  then have "repack_tool_result_blocks ms = fst (repack_from ms)"
    using repack_same [of ms] by (auto simp: repack_tool_result_blocks_def split: prod.splits)
  with repack_settled [of ms] unmoved_contiguous show ?thesis by simp
qed (simp add: repack_tool_result_blocks_def short_contiguous)

lemma repack_keeps:
  "mset (repack_tool_result_blocks ms) = mset ms" "filter (Not \<circ> is_notice) (repack_tool_result_blocks ms) = filter (Not \<circ> is_notice) ms"
  "filter is_notice (repack_tool_result_blocks ms) = filter is_notice ms"
  using repack_same [of ms] by (auto simp: repack_tool_result_blocks_def split: prod.splits)


section \<open>The order of the repairs\<close>

lemma ids_by_set: "set ms = set ms' \<Longrightarrow> set (call_ids ms) = set (call_ids ms')" "set ms = set ms' \<Longrightarrow> set (result_ids ms) = set (result_ids ms')"
  by (auto simp: set_call_ids set_result_ids)

text \<open>
  Removing orphans before notices are moved would repair every history: calls and results match, and no
  notice stands between them.
\<close>
theorem cleanup_first_repairs:
  "contiguous (repack_tool_result_blocks (cleanup_orphan_tool_calls ms)) \<and>
   set (call_ids (repack_tool_result_blocks (cleanup_orphan_tool_calls ms))) =
   set (result_ids (repack_tool_result_blocks (cleanup_orphan_tool_calls ms)))"
proof -
  let ?c = "cleanup_orphan_tool_calls ms"
  have same: "set (repack_tool_result_blocks ?c) = set ?c" by (metis repack_keeps(1) set_mset_mset)
  have "set (call_ids ?c) = set (result_ids ?c)"
  proof (cases "call_ids ms = [] \<and> result_ids ms = []")
    case False
    then show ?thesis using cleaned_ids [OF refl, of ms] by (auto simp: cleanup_orphan_tool_calls_def)
  qed (simp add: cleanup_orphan_tool_calls_def)
  with ids_by_set [OF same] repack_value [of ?c] show ?thesis by simp
qed

definition call_message :: "string list \<Rightarrow> pyval" where
  "call_message ids = PDict [(''role'', PStr ''assistant''), (''tool_calls'', PList (map (\<lambda>i. PDict [(''id'', PStr i)]) ids))]"

definition result_message :: "string \<Rightarrow> pyval" where
  "result_message i = PDict [(''role'', PStr ''tool''), (''tool_call_id'', PStr i)]"

definition notice_message :: pyval where
  "notice_message = PDict [(''role'', PStr ''system'')]"

lemma message_kinds [simp]:
  "calls_of (call_message ids) = map (\<lambda>i. PDict [(''id'', PStr i)]) ids" "calls_of (result_message i) = []" "calls_of notice_message = []"
  "has_role ''tool'' (result_message i)" "\<not> has_role ''tool'' (call_message ids)" "\<not> has_role ''tool'' notice_message"
  "result_id (result_message i) = PStr i" "is_notice notice_message" "\<not> is_notice (result_message i)"
  by (simp_all add: calls_of_def call_message_def result_message_def notice_message_def has_role_def msg_get_def result_id_def is_notice_def)

lemma ids_of_texts [simp]: "\<forall>i \<in> set ids. i \<noteq> [] \<Longrightarrow> ids_of (map (\<lambda>i. PDict [(''id'', PStr i)]) ids) = map PStr ids"
  by (induction ids) (auto simp: ids_of_def is_pdict_def msg_get_def)

text \<open>
  The provider moves notices first and removes orphans afterwards. An orphaned result between two results
  ends the group while notices are moved; once it has been removed, a notice behind it stands between the
  call and its result, and the upstream rejects the history. Such a history has a call with two ids, the result
  of the first, a result that belongs to no call, a notice, and the result of the second.
\<close>
theorem provider_order_leaves_broken_pair:
  assumes "c0 \<noteq> []" and "c1 \<noteq> []" and "x \<noteq> []" and "distinct [c0, c1, x]"
    and "ms = [call_message [c0, c1], result_message c0, result_message x, notice_message, result_message c1]"
  shows "prepare_messages ms = [call_message [c0, c1], result_message c0, notice_message, result_message c1] \<and>
         \<not> contiguous (prepare_messages ms)"
proof -
  have want: "ids_of [PDict [(''id'', PStr c0)], PDict [(''id'', PStr c1)]] = [PStr c0, PStr c1]"
    using assms ids_of_texts [of "[c0, c1]"] by simp
  have "repack_from ms = (ms, False)"
    using assms by (auto simp: repack_from_simps want)
  then have r: "repack_tool_result_blocks ms = ms" by (simp add: repack_tool_result_blocks_def)
  have ids: "call_ids ms = [PStr c0, PStr c1]" "result_ids ms = [PStr c0, PStr x, PStr c1]"
    using assms ids_of_texts [of "[c0, c1]"] by (simp_all add: call_ids_def result_ids_def ids_of_def)
  have kept: "kept_calls {PStr c0, PStr c1} [PDict [(''id'', PStr c0)], PDict [(''id'', PStr c1)]] = [PDict [(''id'', PStr c0)], PDict [(''id'', PStr c1)]]"
    by (simp add: kept_calls_def is_pdict_def msg_get_def)
  have "set [PStr c0, PStr c1] \<inter> set [PStr c0, PStr x, PStr c1] = {PStr c0, PStr c1}" using assms by auto
  then have p: "prepare_messages ms = [call_message [c0, c1], result_message c0, notice_message, result_message c1]"
    unfolding prepare_messages_def r cleanup_orphan_tool_calls_def ids using assms kept
    by (auto simp: List.map_filter_simps cleaned_def)
  have "\<not> contiguous (prepare_messages ms)"
  proof
    assume "contiguous (prepare_messages ms)"
    then have "\<not> is_notice notice_message"
      by (rule contiguousD [of _ "[]" "call_message [c0, c1]" "[result_message c0, notice_message]" "result_message c1" "[]"])
        (simp_all add: p want wanted_def)
    then show False by simp
  qed
  with p show ?thesis by blast
qed

section \<open>Long messages\<close>

lemma concat_pieces: "concat (split_pieces est max_tokens chars) = chars"
  by (induction est max_tokens chars rule: split_pieces.induct) (subst split_pieces.simps, auto simp: Let_def)

lemma pieces_nonempty: "p \<in> set (split_pieces est max_tokens chars) \<Longrightarrow> p \<noteq> []"
proof (induction est max_tokens chars rule: split_pieces.induct)
  case (1 est max_tokens chars)
  let ?b = "split_budget (length chars) max_tokens (est (concat chars))"
  have "0 < split_at_delimiter chars ?b" by (rule split_at_delimiter_pos) (simp add: split_budget_def)
  with 1 show ?case by (subst (asm) split_pieces.simps) (auto simp: Let_def split: if_splits)
qed

lemma concat_map_concat: "concat (map concat xss) = concat (concat xss)"
  by (induction xss) auto

lemma code_point_nonempty: "c \<in> set (code_points s) \<Longrightarrow> c \<noteq> []"
  by (induction s rule: code_points.induct) auto

lemma piece_text_nonempty:
  assumes "p \<in> set (split_pieces est max_tokens (code_points s))"
  shows "concat p \<noteq> []"
proof -
  have "set p \<subseteq> set (code_points s)" using assms concat_pieces [of est max_tokens "code_points s"] by (metis set_concat UN_upper)
  with pieces_nonempty [OF assms] code_point_nonempty show ?thesis by (cases p) auto
qed

definition content_text :: "pyval \<Rightarrow> string" where
  "content_text m = (case msg_get m ''content'' of PStr s \<Rightarrow> s | _ \<Rightarrow> [])"

lemma piece_get:
  "msg_get (piece_message d l t) k = (if k = ''content'' then PStr t else if k = ''cache_control'' \<and> \<not> l then PNone else dget d k)"
  by (simp add: piece_message_def msg_get_def Let_def dget_dset)

lemma piece_content: "content_text (piece_message d l t) = t"
  by (simp add: content_text_def piece_get)

lemma msg_get_PDict: "msg_get (PDict d) k = dget d k"
  by (simp add: msg_get_def)

text \<open>
  Cutting a message that is too long keeps its text: the texts of the pieces, one after the other, are the
  text of the message, character by character. Every piece is a copy of the message but for the text, and for
  the mark of a cached prefix, which only the last piece keeps; no piece is empty. The cutting ends for every
  estimate of tokens, however inconsistent.
\<close>
theorem splitting_keeps_text:
  "concat (map content_text (split_message est max_tokens m)) = content_text m \<and>
   (\<forall>p \<in> set (split_message est max_tokens m). \<forall>k. k \<noteq> ''content'' \<and> k \<noteq> ''cache_control'' \<longrightarrow> msg_get p k = msg_get m k) \<and>
   msg_get (last (split_message est max_tokens m)) ''cache_control'' = msg_get m ''cache_control'' \<and>
   (split_message est max_tokens m \<noteq> [m] \<longrightarrow> (\<forall>p \<in> set (split_message est max_tokens m). content_text p \<noteq> []))"
proof (cases "split_message est max_tokens m = [m]")
  case False
  then obtain d s where m: "m = PDict d" "splittable est max_tokens d = Some s"
    by (auto simp: split_message_def split: pyval.splits option.splits)
  then have s: "dget d ''content'' = PStr s" by (auto simp: splittable_def split: pyval.splits if_splits)
  define ps where "ps = map concat (split_pieces est max_tokens (code_points s))"
  from False m have split: "split_message est max_tokens m = map (piece_message d False) (butlast ps) @ [piece_message d True (last ps)]"
    and ne: "ps \<noteq> []" by (auto simp: split_message_def ps_def Let_def split: if_splits)
  have "concat ps = s" using concat_pieces [of est max_tokens "code_points s"] concat_code_points [of s]
    by (metis concat_map_concat ps_def)
  moreover have "concat (butlast ps) @ last ps = concat ps" using ne by (metis append_butlast_last_id concat.simps concat_append append_Nil2)
  moreover have nonempty: "p \<noteq> []" if "p \<in> set ps" for p
    using that piece_text_nonempty unfolding ps_def by (metis imageE set_map)
  ultimately show ?thesis using m s ne split
    by (auto simp: piece_content piece_get comp_def msg_get_PDict content_text_def [of "PDict d"] dest: in_set_butlastD)
qed simp

section \<open>Witnesses\<close>

theorem tool_ids_legal_and_stable_witness:
  "legal ''0af3'' \<and> legal (sanitize_anthropic_tool_id ''0af3'' (PStr ''functions.todo:3'')) \<and>
   sanitize_anthropic_tool_id ''b7'' (PStr (sanitize_anthropic_tool_id ''0af3'' (PStr ''functions.todo:3''))) =
     sanitize_anthropic_tool_id ''0af3'' (PStr ''functions.todo:3'')"
proof -
  have "legal ''0af3''" by (simp add: legal_def id_char_def)
  with tool_ids_legal_and_stable [OF this] show ?thesis by blast
qed


theorem provider_order_leaves_broken_pair_witness:
  "\<not> contiguous (prepare_messages [call_message [''a'', ''b''], result_message ''a'', result_message ''z'', notice_message, result_message ''b''])"
  by (rule provider_order_leaves_broken_pair [of "''a''" "''b''" "''z''", OF _ _ _ _ refl, THEN conjunct2]) simp_all

theorem splitting_keeps_text_witness:
  "concat (map content_text (split_message (\<lambda>t. int (length t)) 4 (PDict [(''role'', PStr ''user''), (''content'', PStr ''hello world'')]))) = ''hello world''"
  using splitting_keeps_text [of "\<lambda>t. int (length t)" 4 "PDict [(''role'', PStr ''user''), (''content'', PStr ''hello world'')]"]
  by (simp add: content_text_def msg_get_def)

end
