(* ===== verification/Lub_Stream.thy ===== *)
theory Lub_Stream
  imports Lub_Messages
begin

text \<open>
  \<open>convert_stream_to_anthropic\<close> and \<open>_merge_tool_calls\<close> of \<open>server/message_utils.py\<close>: an OpenAI stream becomes
  the events of an Anthropic stream.

  The chunks of the stream are an argument, as are the estimated input tokens, the estimate of a text, the
  generated message id and the random ids. A step returns the events it yields and, where Python raises, the
  exception; the events yielded before it have been sent. Events are values of \<open>sse_event\<close>; \<open>event_text\<close>
  renders them. Indices of calls, which are keys of a dictionary, are compared as values.
\<close>

section \<open>Partial tool calls\<close>

record tool_call =
  tc_id :: pyval
  tc_name :: pyval
  tc_args :: string

definition merge_call :: "pydict \<Rightarrow> tool_call \<Rightarrow> pyerror + tool_call" where
  "merge_call tc c =
     (let func = (case dget tc ''function'' of PDict f \<Rightarrow> f | _ \<Rightarrow> []);
          c1 = (if truthy (dget tc ''id'') then c\<lparr>tc_id := dget tc ''id''\<rparr> else c);
          c2 = (if truthy (dget func ''name'') then c1\<lparr>tc_name := dget func ''name''\<rparr> else c1);
          args = dget func ''arguments'' in
      if \<not> truthy args then Inr c2
      else (case args of
              PDict d \<Rightarrow> Inr (c2\<lparr>tc_args := json_dumps args\<rparr>)
            | PStr s \<Rightarrow> Inr (c2\<lparr>tc_args := tc_args c2 @ s\<rparr>)
            | _ \<Rightarrow> Inl TypeError))"

fun set_call :: "(pyval \<times> tool_call) list \<Rightarrow> pyval \<Rightarrow> tool_call \<Rightarrow> (pyval \<times> tool_call) list" where
  "set_call [] k c = [(k, c)]"
| "set_call ((k', c') # m) k c = (if k' = k then (k, c) # m else (k', c') # set_call m k c)"

definition hashable :: "pyval \<Rightarrow> bool" where
  "hashable v = (case v of PList _ \<Rightarrow> False | PDict _ \<Rightarrow> False | _ \<Rightarrow> True)"

definition empty_call :: tool_call where
  "empty_call = \<lparr>tc_id = PStr [], tc_name = PStr [], tc_args = []\<rparr>"

fun merge_partial :: "pyval list \<Rightarrow> (pyval \<times> tool_call) list \<Rightarrow> pyerror + (pyval \<times> tool_call) list" where
  "merge_partial [] m = Inr m"
| "merge_partial (v # vs) m =
     (case v of
        PDict tc \<Rightarrow>
          (let idx = dget_or tc ''index'' (PInt (int (length m))) in
           if \<not> hashable idx then Inl TypeError
           else py_then (merge_call tc (case map_of m idx of Some c \<Rightarrow> c | None \<Rightarrow> empty_call))
                  (\<lambda>c. merge_partial vs (set_call m idx c)))
      | _ \<Rightarrow> merge_partial vs m)"

record wire_call =
  wc_id :: string
  wc_name :: string
  wc_args :: string

definition finish_call :: "string \<Rightarrow> tool_call \<Rightarrow> wire_call" where
  "finish_call uuid c =
     \<lparr>wc_id = sanitize_anthropic_tool_id uuid (tc_id c), wc_name = sanitize_anthropic_tool_name (tc_name c),
      wc_args = (if tc_args c = [] then ''{}'' else tc_args c)\<rparr>"

definition merge_tool_calls :: "(nat \<Rightarrow> string) \<Rightarrow> pyval list \<Rightarrow> pyerror + wire_call list" where
  "merge_tool_calls uuids partial =
     py_then (merge_partial partial []) (\<lambda>m. Inr (map (\<lambda>(i, c). finish_call (uuids i) c) (enumerate 0 (map snd m))))"

definition wire_dict :: "wire_call \<Rightarrow> pyval" where
  "wire_dict c = PDict [(''id'', PStr (wc_id c)), (''type'', PStr ''function''),
     (''function'', PDict [(''name'', PStr (wc_name c)), (''arguments'', PStr (wc_args c))])]"

section \<open>Events\<close>

datatype block_kind = Thinking_Block | Text_Block | Tool_Block string string

datatype block_delta = Thinking_Delta string | Signature_Delta | Text_Delta string | Json_Delta string

datatype sse_event =
    Message_Start pyval int
  | Ping
  | Block_Start nat block_kind
  | Block_Delta nat block_delta
  | Block_Stop nat
  | Message_Delta string int int
  | Message_Stop

definition SYNTHETIC_SIGNATURE :: string where
  "SYNTHETIC_SIGNATURE = ''cHJveHktc3ludGhldGljLXNpZ25hdHVyZQ''"

fun block_val :: "block_kind \<Rightarrow> pyval" where
  "block_val Thinking_Block = PDict [(''type'', PStr ''thinking''), (''thinking'', PStr []), (''signature'', PStr SYNTHETIC_SIGNATURE)]"
| "block_val Text_Block = PDict [(''type'', PStr ''text''), (''text'', PStr [])]"
| "block_val (Tool_Block i n) = PDict [(''type'', PStr ''tool_use''), (''id'', PStr i), (''name'', PStr n), (''input'', PDict [])]"

fun delta_val :: "block_delta \<Rightarrow> pyval" where
  "delta_val (Thinking_Delta t) = PDict [(''type'', PStr ''thinking_delta''), (''thinking'', PStr t)]"
| "delta_val Signature_Delta = PDict [(''type'', PStr ''signature_delta''), (''signature'', PStr SYNTHETIC_SIGNATURE)]"
| "delta_val (Text_Delta t) = PDict [(''type'', PStr ''text_delta''), (''text'', PStr t)]"
| "delta_val (Json_Delta t) = PDict [(''type'', PStr ''input_json_delta''), (''partial_json'', PStr t)]"

definition usage_val :: "int \<Rightarrow> int \<Rightarrow> pyval" where
  "usage_val i out = PDict [(''input_tokens'', PInt i), (''output_tokens'', PInt out)]"

fun event_data :: "string \<Rightarrow> sse_event \<Rightarrow> string \<times> pydict" where
  "event_data model (Message_Start i n) = (''message_start'', [(''message'', PDict [(''id'', i), (''type'', PStr ''message''),
     (''role'', PStr ''assistant''), (''content'', PList []), (''model'', PStr model), (''stop_reason'', PNone), (''stop_sequence'', PNone),
     (''usage'', usage_val n 0)])])"
| "event_data model Ping = (''ping'', [])"
| "event_data model (Block_Start i k) = (''content_block_start'', [(''index'', PInt (int i)), (''content_block'', block_val k)])"
| "event_data model (Block_Delta i d) = (''content_block_delta'', [(''index'', PInt (int i)), (''delta'', delta_val d)])"
| "event_data model (Block_Stop i) = (''content_block_stop'', [(''index'', PInt (int i))])"
| "event_data model (Message_Delta r n k) = (''message_delta'', [(''delta'', PDict [(''stop_reason'', PStr r), (''stop_sequence'', PNone)]), (''usage'', usage_val n k)])"
| "event_data model Message_Stop = (''message_stop'', [])"

definition event_text :: "string \<Rightarrow> sse_event \<Rightarrow> string" where
  "event_text model e = (case event_data model e of (t, d) \<Rightarrow>
     ''event: '' @ t @ [CHR 0x0A] @ ''data: '' @ json_dumps (PDict ((''type'', PStr t) # d)) @ [CHR 0x0A, CHR 0x0A])"

section \<open>State of the conversion\<close>

record conv =
  cv_id :: pyval
  cv_started :: bool
  cv_index :: nat
  cv_thinking_open :: bool
  cv_text_open :: bool
  cv_buffered :: "pyval list"
  cv_finish :: pyval
  cv_input :: int
  cv_output :: int
  cv_text :: string
  cv_reasoning :: string
  cv_current :: "string option"

definition conv0 :: "int \<Rightarrow> conv" where
  "conv0 estimated_input =
     \<lparr>cv_id = PNone, cv_started = False, cv_index = 0, cv_thinking_open = False, cv_text_open = False, cv_buffered = [],
      cv_finish = PNone, cv_input = estimated_input, cv_output = 0, cv_text = [], cv_reasoning = [], cv_current = None\<rparr>"

type_synonym emitted = "(conv \<times> pyerror option) \<times> sse_event list"

definition message_start_events :: "string \<Rightarrow> conv \<Rightarrow> conv \<times> sse_event list" where
  \<comment> \<open>\<open>gen\<close>: the id that is generated if the upstream sent none\<close>
  "message_start_events gen s =
     (if cv_started s then (s, [])
      else (s\<lparr>cv_started := True\<rparr>, [Message_Start (py_or (cv_id s) (PStr gen)) (cv_input s), Ping]))"

definition close_open_block :: "conv \<Rightarrow> conv \<times> sse_event list" where
  "close_open_block s =
     (if cv_thinking_open s
      then (s\<lparr>cv_thinking_open := False, cv_index := cv_index s + 1\<rparr>, [Block_Delta (cv_index s) Signature_Delta, Block_Stop (cv_index s)])
      else if cv_text_open s then (s\<lparr>cv_text_open := False, cv_index := cv_index s + 1\<rparr>, [Block_Stop (cv_index s)])
      else (s, []))"

definition extract_sub_frames :: "pydict \<Rightarrow> (string \<times> pyval) list" where
  "extract_sub_frames delta =
     filter (\<lambda>(t, v). truthy v)
       [(''thinking'', py_or (dget delta ''reasoning_content'') (py_or (dget delta ''reasoning'') (dget delta ''thinking''))),
        (''text'', dget delta ''content''), (''tool_use'', dget delta ''tool_calls'')]"

definition switch_block :: "string \<Rightarrow> conv \<Rightarrow> conv \<times> sse_event list" where
  "switch_block t s =
     (if cv_current s = Some t then (s, [])
      else (case close_open_block s of (s1, es) \<Rightarrow> (s1\<lparr>cv_current := Some t\<rparr>, es)))"

definition write_sub_frame :: "string \<Rightarrow> pyval \<Rightarrow> conv \<Rightarrow> emitted" where
  "write_sub_frame t v s =
     (if t = ''thinking''
      then (case v of
              PStr x \<Rightarrow> ((s\<lparr>cv_reasoning := cv_reasoning s @ x, cv_thinking_open := True\<rparr>, None),
                 (if cv_thinking_open s then [] else [Block_Start (cv_index s) Thinking_Block]) @ [Block_Delta (cv_index s) (Thinking_Delta x)])
            | _ \<Rightarrow> ((s, Some TypeError), []))
      else if t = ''text''
      then (case v of
              PStr x \<Rightarrow> ((s\<lparr>cv_text := cv_text s @ x, cv_text_open := True\<rparr>, None),
                 (if cv_text_open s then [] else [Block_Start (cv_index s) Text_Block]) @ [Block_Delta (cv_index s) (Text_Delta x)])
            | _ \<Rightarrow> ((s, Some TypeError), []))
      else (case py_iter v of
              Inr xs \<Rightarrow> ((s\<lparr>cv_buffered := cv_buffered s @ xs\<rparr>, None), [])
            | Inl e \<Rightarrow> ((s, Some e), [])))"

definition sub_frame :: "string \<Rightarrow> string \<times> pyval \<Rightarrow> conv \<Rightarrow> emitted" where
  "sub_frame gen f s =
     (case message_start_events gen s of (s1, es1) \<Rightarrow>
      case switch_block (fst f) s1 of (s2, es2) \<Rightarrow>
      case write_sub_frame (fst f) (snd f) s2 of (r, es3) \<Rightarrow> (r, es1 @ es2 @ es3))"

fun each :: "('x \<Rightarrow> conv \<Rightarrow> emitted) \<Rightarrow> 'x list \<Rightarrow> conv \<Rightarrow> emitted" where
  \<comment> \<open>a \<open>for\<close> loop whose body yields events and may raise\<close>
  "each step [] s = ((s, None), [])"
| "each step (x # xs) s =
     (case step x s of
        ((s1, Some e), es) \<Rightarrow> ((s1, Some e), es)
      | ((s1, None), es) \<Rightarrow> (case each step xs s1 of (r, es') \<Rightarrow> (r, es @ es')))"

definition first_choice :: "pyval \<Rightarrow> pyerror + pydict" where
  \<comment> \<open>\<open>choices[0]\<close>, on which \<open>get\<close> is called\<close>
  "first_choice choices = (case choices of
      PList (PDict d # _) \<Rightarrow> Inr d | PList _ \<Rightarrow> Inl AttributeError | PStr _ \<Rightarrow> Inl AttributeError
    | PDict _ \<Rightarrow> Inl KeyError | _ \<Rightarrow> Inl TypeError)"

definition frame_usage :: "pydict \<Rightarrow> pyerror + pyval" where
  "frame_usage chunk =
     (case dget chunk ''usage'' of
        PDict u \<Rightarrow> Inr (PDict u)
      | u \<Rightarrow> py_then (py_iter (py_or (dget_or chunk ''choices'' (PList [])) (PList []))) (\<lambda>cs.
           Inr (case List.find (\<lambda>c. is_pdict (msg_get c ''usage'')) cs of Some c \<Rightarrow> msg_get c ''usage'' | None \<Rightarrow> u)))"

definition note_usage :: "pyval \<Rightarrow> conv \<Rightarrow> conv \<times> pyerror option" where
  "note_usage u s =
     (if \<not> truthy u then (s, None)
      else (case u of
              PDict d \<Rightarrow> (let n = normalize_usage d in
                 (s\<lparr>cv_input := max (cv_input s) (us_prompt n), cv_output := max (cv_output s) (us_completion n)\<rparr>, None))
            | _ \<Rightarrow> (s, Some AttributeError)))"

definition finish_frame :: "pyval \<Rightarrow> conv \<Rightarrow> conv \<times> sse_event list" where
  "finish_frame fr s =
     (if truthy fr \<and> cv_current s \<noteq> None
      then (case close_open_block s of (s1, es) \<Rightarrow> (s1\<lparr>cv_current := None\<rparr>, es))
      else (s, []))"

definition choice_frame :: "string \<Rightarrow> pydict \<Rightarrow> conv \<Rightarrow> emitted" where
  "choice_frame gen choice s =
     (let delta = (case dget choice ''delta'' of PDict d \<Rightarrow> d | _ \<Rightarrow> []);
          fr = dget choice ''finish_reason'';
          s1 = (if truthy fr then s\<lparr>cv_finish := fr\<rparr> else s) in
      case each (sub_frame gen) (extract_sub_frames delta) s1 of
        ((s2, Some e), es) \<Rightarrow> ((s2, Some e), es)
      | ((s2, None), es) \<Rightarrow> (case finish_frame fr s2 of (s3, es') \<Rightarrow> ((s3, None), es @ es')))"

definition stream_frame :: "string \<Rightarrow> pydict \<Rightarrow> conv \<Rightarrow> emitted" where
  "stream_frame gen chunk s =
     (let choices = dget_or chunk ''choices'' (PList []);
          s1 = (if \<not> truthy (cv_id s) \<and> truthy (dget chunk ''id'') then s\<lparr>cv_id := dget chunk ''id''\<rparr> else s) in
      case frame_usage chunk of
        Inl e \<Rightarrow> ((s1, Some e), [])
      | Inr u \<Rightarrow>
         (case note_usage u s1 of
            (s2, Some e) \<Rightarrow> ((s2, Some e), [])
          | (s2, None) \<Rightarrow>
             (if \<not> truthy choices then ((s2, None), [])
              else (case first_choice choices of
                      Inl e \<Rightarrow> ((s2, Some e), [])
                    | Inr choice \<Rightarrow> choice_frame gen choice s2))))"

definition line_frame :: "string \<Rightarrow> pydict option" where
  "line_frame line =
     (if \<not> startswith line ''data:'' then None
      else (let t = strip (drop 5 line) in
            if t = ''[DONE]'' \<or> t = [] then None
            else (case json_loads t of Some (PDict d) \<Rightarrow> Some d | _ \<Rightarrow> None)))"

fun chunk_frames :: "pyval \<Rightarrow> pyerror + pydict list" where
  "chunk_frames (PDict d) = (if map_of d ''_retry_path'' \<noteq> None \<or> d = [] then Inr [] else Inl AttributeError)"
| "chunk_frames (PStr t) = Inr (List.map_filter line_frame (split_on (CHR 0x0A) (strip t)))"
| "chunk_frames v = (if truthy v then Inl AttributeError else Inr [])"

definition stream_chunk :: "string \<Rightarrow> pyval \<Rightarrow> conv \<Rightarrow> emitted" where
  "stream_chunk gen c s =
     (case chunk_frames c of Inl e \<Rightarrow> ((s, Some e), []) | Inr fs \<Rightarrow> each (stream_frame gen) fs s)"

section \<open>The end of the stream\<close>

definition call_events :: "nat \<Rightarrow> wire_call \<Rightarrow> sse_event list" where
  "call_events i c = [Block_Start i (Tool_Block (wc_id c) (wc_name c)), Block_Delta i (Json_Delta (wc_args c)), Block_Stop i]"

definition stop_reason :: "pyval \<Rightarrow> string" where
  "stop_reason fr = (if fr = PStr ''tool_calls'' then ''tool_use'' else if fr = PStr ''length'' then ''max_tokens'' else ''end_turn'')"

definition fallback_text :: "conv \<Rightarrow> wire_call list \<Rightarrow> string" where
  "fallback_text s calls = cv_reasoning s @ cv_text s @ (if calls = [] then [] else CHR 0x0A # json_dumps (PList (map wire_dict calls)))"

text \<open>
  The ids and names of calls are sanitised once more before they are sent, which leaves them as they are. The
  reason is looked up in a dictionary, which raises for a list or an object.
\<close>

definition stream_end :: "(string \<Rightarrow> int) \<Rightarrow> string \<Rightarrow> (nat \<Rightarrow> string) \<Rightarrow> conv \<Rightarrow> emitted" where
  "stream_end est gen uuids s =
     (case message_start_events gen s of (s1, es1) \<Rightarrow>
      case close_open_block s1 of (s2, es2) \<Rightarrow>
      case merge_tool_calls uuids (cv_buffered s2) of
        Inl e \<Rightarrow> ((s2, Some e), es1 @ es2)
      | Inr calls \<Rightarrow>
         (let es3 = concat (map (\<lambda>(i, c). call_events i c) (enumerate (cv_index s2) calls));
              n = cv_index s2 + length calls;
              es4 = (if n = 0 then [Block_Start 0 Text_Block, Block_Stop 0] else []);
              out = (if 0 < cv_output s2 then cv_output s2 else est (fallback_text s2 calls))
          in if \<not> hashable (cv_finish s2) then ((s2\<lparr>cv_index := max 1 n\<rparr>, Some TypeError), es1 @ es2 @ es3 @ es4)
             else ((s2\<lparr>cv_index := max 1 n\<rparr>, None),
               es1 @ es2 @ es3 @ es4 @ [Message_Delta (stop_reason (cv_finish s2)) (cv_input s2) out, Message_Stop])))"

definition prompt_text :: "pyval list \<Rightarrow> string" where
  "prompt_text msgs = concat (map (\<lambda>m. case m of
       PDict d \<Rightarrow> CHR 0x0A # json_dumps (dget_or d ''content'' (PStr [])) @
         (if truthy (dget d ''tool_calls'') then CHR 0x0A # json_dumps (dget d ''tool_calls'') else [])
     | _ \<Rightarrow> []) msgs)"

definition estimated_input_tokens :: "(string \<Rightarrow> int) \<Rightarrow> pyval list \<Rightarrow> int" where
  "estimated_input_tokens est msgs = (if msgs = [] then 0 else est (prompt_text msgs))"

definition convert_stream_to_anthropic ::
    "(string \<Rightarrow> int) \<Rightarrow> string \<Rightarrow> (nat \<Rightarrow> string) \<Rightarrow> pyval list \<Rightarrow> pyval list \<Rightarrow> emitted" where
  \<comment> \<open>no request messages are the empty list\<close>
  "convert_stream_to_anthropic est gen uuids request_messages upstream =
     (case each (stream_chunk gen) upstream (conv0 (estimated_input_tokens est request_messages)) of
        ((s, Some e), es) \<Rightarrow> ((s, Some e), es)
      | ((s, None), es) \<Rightarrow> (case stream_end est gen uuids s of (r, es') \<Rightarrow> (r, es @ es')))"

end
