(* ===== verification/Lub_StreamProps.thy ===== *)
theory Lub_StreamProps
  imports Lub_Stream
begin

text \<open>
  The conversion of a stream keeps the protocol of Anthropic streams, whatever the upstream sends: an
  automaton of the protocol accepts what was sent at every moment, and a stream that is not aborted is
  complete. Texts arrive unchanged. The arguments of a tool call are the concatenation of its fragments.
\<close>

section \<open>The protocol of events\<close>

datatype stream_phase = Before | Pinging | Idle nat | In_Block nat block_kind bool | Ending | Done

fun proto :: "stream_phase \<Rightarrow> sse_event \<Rightarrow> stream_phase option" where
  \<comment> \<open>the flag of a block: a thinking block has been signed\<close>
  "proto Before (Message_Start i n) = Some Pinging"
| "proto Pinging Ping = Some (Idle 0)"
| "proto (Idle n) (Block_Start i k) = (if i = n then Some (In_Block n k False) else None)"
| "proto (In_Block n k signed) (Block_Delta i d) =
     (if i \<noteq> n then None
      else (case (k, d) of
              (Thinking_Block, Thinking_Delta t) \<Rightarrow> if signed then None else Some (In_Block n k False)
            | (Thinking_Block, Signature_Delta) \<Rightarrow> if signed then None else Some (In_Block n k True)
            | (Text_Block, Text_Delta t) \<Rightarrow> Some (In_Block n k signed)
            | (Tool_Block a b, Json_Delta t) \<Rightarrow> Some (In_Block n k signed)
            | _ \<Rightarrow> None))"
| "proto (In_Block n k signed) (Block_Stop i) = (if i = n \<and> (k = Thinking_Block \<longrightarrow> signed) then Some (Idle (Suc n)) else None)"
| "proto (Idle n) (Message_Delta r i k) = (if 0 < n then Some Ending else None)"
| "proto Ending Message_Stop = Some Done"
| "proto _ _ = None"

fun accept :: "stream_phase \<Rightarrow> sse_event list \<Rightarrow> stream_phase option" where
  "accept p [] = Some p"
| "accept p (e # es) = (case proto p e of None \<Rightarrow> None | Some p' \<Rightarrow> accept p' es)"

lemma accept_append: "accept p (es @ es') = (case accept p es of None \<Rightarrow> None | Some p' \<Rightarrow> accept p' es')"
  by (induction p es rule: accept.induct) (auto split: option.splits)

lemma accept_appendI: "accept p es = Some p' \<Longrightarrow> accept p' es' = r \<Longrightarrow> accept p (es @ es') = r"
  by (simp add: accept_append)

section \<open>The phase of a state\<close>

definition phase_of :: "conv \<Rightarrow> stream_phase" where
  "phase_of s = (if \<not> cv_started s then Before
     else if cv_thinking_open s then In_Block (cv_index s) Thinking_Block False
     else if cv_text_open s then In_Block (cv_index s) Text_Block False
     else Idle (cv_index s))"

definition conv_ok :: "conv \<Rightarrow> bool" where
  "conv_ok s \<longleftrightarrow> (\<not> cv_started s \<longrightarrow> \<not> cv_thinking_open s \<and> \<not> cv_text_open s \<and> cv_index s = 0) \<and>
     (cv_thinking_open s \<longrightarrow> cv_current s = Some ''thinking'') \<and> (cv_text_open s \<longrightarrow> cv_current s = Some ''text'')"

definition keeps_protocol :: "conv \<Rightarrow> conv \<Rightarrow> sse_event list \<Rightarrow> bool" where
  "keeps_protocol s s' es \<longleftrightarrow> conv_ok s' \<and> accept (phase_of s) es = Some (phase_of s')"

lemma keeps_trans: "keeps_protocol s s1 es \<Longrightarrow> keeps_protocol s1 s2 es' \<Longrightarrow> keeps_protocol s s2 (es @ es')"
  by (simp add: keeps_protocol_def accept_append)

lemma keeps_refl: "conv_ok s \<Longrightarrow> keeps_protocol s s []"
  by (simp add: keeps_protocol_def)

lemma keeps_silent:
  "conv_ok s \<Longrightarrow> cv_started s' = cv_started s \<Longrightarrow> cv_index s' = cv_index s \<Longrightarrow> cv_thinking_open s' = cv_thinking_open s \<Longrightarrow>
   cv_text_open s' = cv_text_open s \<Longrightarrow> cv_current s' = cv_current s \<Longrightarrow> keeps_protocol s s' []"
  by (simp add: keeps_protocol_def conv_ok_def phase_of_def)

lemma start_keeps: "conv_ok s \<Longrightarrow> message_start_events gen s = (s', es) \<Longrightarrow> keeps_protocol s s' es \<and> cv_started s'"
  by (auto simp: message_start_events_def keeps_protocol_def conv_ok_def phase_of_def split: if_splits)

lemma close_keeps:
  "conv_ok s \<Longrightarrow> cv_started s \<Longrightarrow> close_open_block s = (s', es) \<Longrightarrow>
     keeps_protocol s s' es \<and> cv_started s' \<and> \<not> cv_thinking_open s' \<and> \<not> cv_text_open s'"
  by (auto simp: close_open_block_def keeps_protocol_def conv_ok_def phase_of_def split: if_splits)

lemma close_idle: "conv_ok s \<Longrightarrow> \<not> cv_started s \<Longrightarrow> close_open_block s = (s, [])"
  by (simp add: close_open_block_def conv_ok_def)

lemma current_keeps:
  "conv_ok s \<Longrightarrow> \<not> cv_thinking_open s \<Longrightarrow> \<not> cv_text_open s \<Longrightarrow> keeps_protocol s (s\<lparr>cv_current := c\<rparr>) []"
  by (simp add: keeps_protocol_def conv_ok_def phase_of_def)

lemma switch_keeps:
  assumes "conv_ok s" and "cv_started s" and "switch_block t s = (s', es)"
  shows "keeps_protocol s s' es \<and> cv_started s' \<and> cv_current s' = Some t"
proof (cases "cv_current s = Some t")
  case False
  obtain s1 es1 where c: "close_open_block s = (s1, es1)" by force
  with assms False have "s' = s1\<lparr>cv_current := Some t\<rparr>" "es = es1" by (auto simp: switch_block_def)
  moreover have k: "keeps_protocol s s1 es1" "cv_started s1" "\<not> cv_thinking_open s1" "\<not> cv_text_open s1"
    using close_keeps [OF assms(1,2) c] by auto
  moreover from k have "keeps_protocol s1 (s1\<lparr>cv_current := Some t\<rparr>) []" by (intro current_keeps) (auto simp: keeps_protocol_def)
  ultimately show ?thesis using keeps_trans by fastforce
qed (use assms in \<open>auto simp: switch_block_def keeps_refl\<close>)

lemma write_keeps:
  assumes "conv_ok s" and "cv_started s" and "cv_current s = Some t" and "write_sub_frame t v s = ((s', e), es)"
  shows "keeps_protocol s s' es"
  using assms
  by (auto simp: write_sub_frame_def keeps_protocol_def conv_ok_def phase_of_def split: if_splits pyval.splits sum.splits)

lemma sub_frame_keeps:
  assumes "conv_ok s" and "sub_frame gen f s = ((s', e), es)"
  shows "keeps_protocol s s' es"
proof -
  obtain s1 es1 where a: "message_start_events gen s = (s1, es1)" by force
  obtain s2 es2 where b: "switch_block (fst f) s1 = (s2, es2)" by force
  obtain es3 where c: "write_sub_frame (fst f) (snd f) s2 = ((s', e), es3)" "es = es1 @ es2 @ es3"
    using assms(2) a b by (auto simp: sub_frame_def split: prod.splits)
  have 1: "keeps_protocol s s1 es1" "cv_started s1" using start_keeps [OF assms(1) a] by auto
  then have 2: "keeps_protocol s1 s2 es2" "cv_started s2" "cv_current s2 = Some (fst f)"
    using switch_keeps [OF _ _ b] by (auto simp: keeps_protocol_def)
  then have "keeps_protocol s2 s' es3" using write_keeps [OF _ _ _ c(1)] by (auto simp: keeps_protocol_def)
  with 1 2 c(2) keeps_trans show ?thesis by blast
qed

lemma keeps_ok: "keeps_protocol s s' es \<Longrightarrow> conv_ok s'"
  by (simp add: keeps_protocol_def)

text \<open>What a loop relies on of its body: the body keeps the protocol. Then so does the loop, also when it is left by an exception.\<close>

locale protocol_step =
  fixes step :: "'x \<Rightarrow> conv \<Rightarrow> emitted"
  assumes step_keeps: "conv_ok s \<Longrightarrow> step x s = ((s', e), es) \<Longrightarrow> keeps_protocol s s' es"
begin

lemma each_keeps: "conv_ok s \<Longrightarrow> each step xs s = ((s', e), es) \<Longrightarrow> keeps_protocol s s' es"
proof (induction xs arbitrary: s s' e es)
  case (Cons x xs)
  obtain s1 e1 es1 where f: "step x s = ((s1, e1), es1)" by (metis surj_pair)
  note k = step_keeps [OF Cons.prems(1) f]
  show ?case
  proof (cases e1)
    case None
    obtain r2 es2 where r: "each step xs s1 = (r2, es2)" by (cases "each step xs s1") auto
    with f None Cons.prems(2) have "r2 = (s', e)" "es = es1 @ es2" by auto
    with Cons.IH [OF keeps_ok [OF k], of s' e es2] r k keeps_trans show ?thesis by blast
  qed (use f k Cons.prems in auto)
qed (simp add: keeps_refl)

end

interpretation sub_loop: protocol_step "sub_frame gen" for gen
  by unfold_locales (rule sub_frame_keeps)

lemma finish_keeps: "conv_ok s \<Longrightarrow> finish_frame fr s = (s', es) \<Longrightarrow> keeps_protocol s s' es"
proof -
  assume a: "conv_ok s" "finish_frame fr s = (s', es)"
  obtain s1 es1 where c: "close_open_block s = (s1, es1)" by force
  show ?thesis
  proof (cases "truthy fr \<and> cv_current s \<noteq> None")
    case True
    with a c have r: "s' = s1\<lparr>cv_current := None\<rparr>" "es = es1" by (auto simp: finish_frame_def)
    have "keeps_protocol s s1 es1 \<and> \<not> cv_thinking_open s1 \<and> \<not> cv_text_open s1"
    proof (cases "cv_started s")
      case False
      with a close_idle [of s] c have "s1 = s" "es1 = []" by auto
      with a False show ?thesis by (auto simp: keeps_refl conv_ok_def)
    qed (use close_keeps [OF a(1) _ c] in simp)
    with r current_keeps [of s1 None] keeps_trans [of s s1 es1 _ "[]"] keeps_ok show ?thesis by auto
  qed (use a in \<open>auto simp: finish_frame_def keeps_refl\<close>)
qed

lemma choice_keeps: "conv_ok s \<Longrightarrow> choice_frame gen choice s = ((s', e), es) \<Longrightarrow> keeps_protocol s s' es"
proof -
  assume a: "conv_ok s" "choice_frame gen choice s = ((s', e), es)"
  define delta where "delta = (case dget choice ''delta'' of PDict d \<Rightarrow> d | _ \<Rightarrow> [])"
  define s1 where "s1 = (if truthy (dget choice ''finish_reason'') then s\<lparr>cv_finish := dget choice ''finish_reason''\<rparr> else s)"
  have 1: "keeps_protocol s s1 []" using a(1) by (intro keeps_silent) (simp_all add: s1_def)
  obtain s2 e2 es2 where f: "each (sub_frame gen) (extract_sub_frames delta) s1 = ((s2, e2), es2)" by (metis surj_pair)
  have 2: "keeps_protocol s1 s2 es2" using sub_loop.each_keeps [OF keeps_ok [OF 1] f] .
  obtain s3 es3 where g: "finish_frame (dget choice ''finish_reason'') s2 = (s3, es3)" by force
  have 3: "keeps_protocol s2 s3 es3" using finish_keeps [OF keeps_ok [OF 2] g] .
  have "e2 = None \<and> s' = s3 \<and> es = es2 @ es3 \<or> e2 \<noteq> None \<and> s' = s2 \<and> es = es2"
    using a(2) f g by (auto simp: choice_frame_def delta_def [symmetric] s1_def [symmetric] Let_def split: option.splits)
  with keeps_trans [OF 1 2] keeps_trans [OF keeps_trans [OF 1 2] 3] show ?thesis by auto
qed

lemma note_usage_silent: "note_usage u s = (s', e) \<Longrightarrow> conv_ok s \<Longrightarrow> keeps_protocol s s' []"
  by (auto simp: note_usage_def Let_def intro: keeps_silent split: if_splits pyval.splits)

lemma frame_keeps: "conv_ok s \<Longrightarrow> stream_frame gen chunk s = ((s', e), es) \<Longrightarrow> keeps_protocol s s' es"
proof -
  assume a: "conv_ok s" "stream_frame gen chunk s = ((s', e), es)"
  define s1 where "s1 = (if \<not> truthy (cv_id s) \<and> truthy (dget chunk ''id'') then s\<lparr>cv_id := dget chunk ''id''\<rparr> else s)"
  have 1: "keeps_protocol s s1 []" using a(1) by (intro keeps_silent) (simp_all add: s1_def)
  show ?thesis
  proof (cases "frame_usage chunk")
    case (Inl x)
    with a 1 show ?thesis by (simp add: stream_frame_def s1_def [symmetric] Let_def)
  next
    case (Inr u)
    obtain s2 e2 where n: "note_usage u s1 = (s2, e2)" by force
    have 2: "keeps_protocol s1 s2 []" using note_usage_silent [OF n keeps_ok [OF 1]] .
    have "s' = s2 \<and> es = [] \<or> (\<exists>choice. choice_frame gen choice s2 = ((s', e), es))"
      using a(2) n Inr by (auto simp: stream_frame_def s1_def [symmetric] Let_def split: option.splits if_splits sum.splits)
    with keeps_trans [OF 1 2] choice_keeps [OF keeps_ok [OF 2]] keeps_trans [OF keeps_trans [OF 1 2]] show ?thesis by fastforce
  qed
qed

interpretation frame_loop: protocol_step "stream_frame gen" for gen
  by unfold_locales (rule frame_keeps)

lemma chunk_keeps: "conv_ok s \<Longrightarrow> stream_chunk gen c s = ((s', e), es) \<Longrightarrow> keeps_protocol s s' es"
  by (auto simp: stream_chunk_def keeps_refl intro: frame_loop.each_keeps split: sum.splits)

interpretation chunk_loop: protocol_step "stream_chunk gen" for gen
  by unfold_locales (rule chunk_keeps)

lemma accept_calls: "accept (Idle n) (concat (map (\<lambda>(i, c). call_events i c) (enumerate n calls))) = Some (Idle (n + length calls))"
  by (induction calls arbitrary: n) (auto simp: call_events_def accept_append)

lemma end_keeps:
  assumes "conv_ok s" and "stream_end est gen uuids s = ((s', e), es)"
  shows "\<exists>p. accept (phase_of s) es = Some p \<and> (e = None \<longrightarrow> p = Done)"
proof -
  obtain s1 es1 where a: "message_start_events gen s = (s1, es1)" by force
  obtain s2 es2 where b: "close_open_block s1 = (s2, es2)" by force
  have 1: "keeps_protocol s s1 es1" "cv_started s1" using start_keeps [OF assms(1) a] by auto
  have 2: "keeps_protocol s1 s2 es2" "cv_started s2" "\<not> cv_thinking_open s2" "\<not> cv_text_open s2"
    using close_keeps [OF keeps_ok [OF 1(1)] 1(2) b] by auto
  have 3: "accept (phase_of s) (es1 @ es2) = Some (Idle (cv_index s2))"
    using keeps_trans [OF 1(1) 2(1)] 2 by (simp add: keeps_protocol_def phase_of_def)
  show ?thesis
  proof (cases "merge_tool_calls uuids (cv_buffered s2)")
    case (Inl x)
    with assms(2) a b have "e = Some x" "es = es1 @ es2" by (auto simp: stream_end_def)
    with 3 show ?thesis by simp
  next
    case (Inr calls)
    define es3 where "es3 = concat (map (\<lambda>(i, c). call_events i c) (enumerate (cv_index s2) calls))"
    define n where "n = cv_index s2 + length calls"
    define es4 where "es4 = (if n = 0 then [Block_Start 0 Text_Block, Block_Stop 0] else [])"
    have 4: "accept (phase_of s) ((es1 @ es2) @ es3 @ es4) = Some (Idle (max 1 n))"
      using accept_calls [of "cv_index s2" calls] by (intro accept_appendI [OF 3]) (auto simp: es3_def es4_def n_def accept_append max_def Suc_le_eq)
    have "(e \<noteq> None \<and> es = (es1 @ es2) @ es3 @ es4) \<or>
        (\<exists>r i k. e = None \<and> es = ((es1 @ es2) @ es3 @ es4) @ [Message_Delta r i k, Message_Stop])"
      using assms(2) a b Inr by (auto simp: stream_end_def es3_def [symmetric] n_def [symmetric] es4_def [symmetric] Let_def split: if_splits)
    then show ?thesis using 4 accept_append [of "phase_of s" "(es1 @ es2) @ es3 @ es4"] by auto
  qed
qed

text \<open>
  C19. Whatever the upstream sends, the client gets a well-formed Anthropic stream: the message starts before
  anything else, blocks are numbered in order and never overlap, every fragment belongs to the open block and
  fits its kind, a thinking block is signed before it ends, there is at least one block, and the end of the
  message comes once and last. If a malformed frame makes the conversion raise, what was sent is the beginning
  of such a stream; otherwise it is complete.
\<close>
theorem anthropic_stream_well_formed:
  assumes "convert_stream_to_anthropic est gen uuids msgs upstream = ((s, e), es)"
  shows "\<exists>p. accept Before es = Some p \<and> (e = None \<longrightarrow> p = Done)"
proof -
  have ok: "conv_ok (conv0 (estimated_input_tokens est msgs))" and ph: "phase_of (conv0 (estimated_input_tokens est msgs)) = Before" by (simp_all add: conv_ok_def conv0_def phase_of_def)
  obtain s1 e1 es1 where c: "each (stream_chunk gen) upstream (conv0 (estimated_input_tokens est msgs)) = ((s1, e1), es1)" by (metis surj_pair)
  note k = chunk_loop.each_keeps [OF ok c]
  show ?thesis
  proof (cases e1)
    case None
    obtain s2 e2 es2 where d: "stream_end est gen uuids s1 = ((s2, e2), es2)" by (metis surj_pair)
    with assms c None have "e = e2" "es = es1 @ es2" by (auto simp: convert_stream_to_anthropic_def)
    with end_keeps [OF keeps_ok [OF k] d] k ph show ?thesis by (auto simp: keeps_protocol_def accept_append)
  next
    case (Some x)
    with assms c have "e = Some x" "es = es1" by (auto simp: convert_stream_to_anthropic_def)
    with k ph show ?thesis by (auto simp: keeps_protocol_def)
  qed
qed

section \<open>Texts\<close>

fun event_text_part :: "sse_event \<Rightarrow> string" where
  "event_text_part (Block_Delta i (Text_Delta t)) = t"
| "event_text_part _ = []"

fun event_thinking_part :: "sse_event \<Rightarrow> string" where
  "event_thinking_part (Block_Delta i (Thinking_Delta t)) = t"
| "event_thinking_part _ = []"

definition client_text :: "sse_event list \<Rightarrow> string \<times> string" where
  \<comment> \<open>the text and the thinking that arrive\<close>
  "client_text es = (concat (map event_text_part es), concat (map event_thinking_part es))"

definition join2 :: "string \<times> string \<Rightarrow> string \<times> string \<Rightarrow> string \<times> string" where
  "join2 a b = (fst a @ fst b, snd a @ snd b)"


lemma client_text_Nil [simp]: "client_text [] = ([], [])"
  by (simp add: client_text_def)

lemma join2_Nil [simp]: "join2 ([], []) b = b" "join2 a ([], []) = a"
  by (simp_all add: join2_def)




















section \<open>Fragments of tool calls\<close>

definition fragment_index :: "pyval \<Rightarrow> pyval" where
  "fragment_index v = msg_get v ''index''"

definition fragment_args :: "pyval \<Rightarrow> pyval" where
  "fragment_args v = msg_get (msg_get v ''function'') ''arguments''"

definition fragment :: "pyval \<Rightarrow> bool" where
  \<comment> \<open>an object with an index, whose arguments are a text or missing\<close>
  "fragment v \<longleftrightarrow> (case v of PDict tc \<Rightarrow> map_of tc ''index'' \<noteq> None \<and> hashable (fragment_index v) \<and> (fragment_args v = PNone \<or> is_pstr (fragment_args v)) | _ \<Rightarrow> False)"

definition args_at :: "(pyval \<times> tool_call) list \<Rightarrow> pyval \<Rightarrow> string" where
  "args_at m idx = (case map_of m idx of Some c \<Rightarrow> tc_args c | None \<Rightarrow> [])"

definition arg_text :: "pyval \<Rightarrow> string" where
  "arg_text v = (case v of PStr t \<Rightarrow> t | _ \<Rightarrow> [])"

lemma map_of_set_call: "map_of (set_call m k c) k' = (if k' = k then Some c else map_of m k')"
  by (induction m k c rule: set_call.induct) auto

lemma merge_call_args:
  assumes "dget tc ''function'' = f" and "msg_get f ''arguments'' = PNone \<or> is_pstr (msg_get f ''arguments'')"
  shows "\<exists>c'. merge_call tc c = Inr c' \<and> tc_args c' = tc_args c @ arg_text (msg_get f ''arguments'')"
  using assms
  by (cases f; cases "msg_get f ''arguments''") (auto simp: merge_call_def msg_get_def arg_text_def is_pstr_def Let_def)

lemma fragment_step:
  assumes "fragment v"
  obtains c where "merge_partial (v # vs) m = merge_partial vs (set_call m (fragment_index v) c)"
    and "tc_args c = args_at m (fragment_index v) @ arg_text (fragment_args v)"
proof -
  from assms obtain tc where v: "v = PDict tc" by (cases v) (auto simp: fragment_def)
  with assms have idx: "dget_or tc ''index'' d = fragment_index v" for d
    by (auto simp: fragment_def fragment_index_def msg_get_def dget_or_def dget_def split: option.splits)
  define c0 where "c0 = (case map_of m (fragment_index v) of Some c \<Rightarrow> c | None \<Rightarrow> empty_call)"
  obtain c' where c': "merge_call tc c0 = Inr c'" "tc_args c' = tc_args c0 @ arg_text (fragment_args v)"
    using merge_call_args [of tc "dget tc ''function''" c0] assms v by (auto simp: fragment_def fragment_args_def msg_get_def)
  have "merge_partial (v # vs) m = merge_partial vs (set_call m (fragment_index v) c')"
    using assms c'(1) c0_def idx by (simp add: v fragment_def Let_def)
  moreover have "tc_args c0 = args_at m (fragment_index v)" by (simp add: c0_def args_at_def empty_call_def split: option.splits)
  ultimately show ?thesis using that c'(2) by metis
qed

text \<open>
  The arguments of a tool call are the fragments with its index, joined in the order they came in, even
  when the fragments of several calls are interleaved.
\<close>
theorem tool_arguments_joined:
  assumes "\<forall>v \<in> set vs. fragment v"
  shows "\<exists>m'. merge_partial vs m = Inr m' \<and>
    (\<forall>idx. args_at m' idx = args_at m idx @ concat (map (arg_text \<circ> fragment_args) (filter (\<lambda>v. fragment_index v = idx) vs)))"
  using assms
proof (induction vs arbitrary: m)
  case (Cons v vs)
  from Cons.prems have v: "fragment v" by simp
  obtain c where c: "merge_partial (v # vs) m = merge_partial vs (set_call m (fragment_index v) c)"
    "tc_args c = args_at m (fragment_index v) @ arg_text (fragment_args v)" by (rule fragment_step [OF v])
  from Cons.IH [of "set_call m (fragment_index v) c"] Cons.prems obtain m' where m': "merge_partial vs (set_call m (fragment_index v) c) = Inr m'"
    "\<forall>idx. args_at m' idx = args_at (set_call m (fragment_index v) c) idx @ concat (map (arg_text \<circ> fragment_args) (filter (\<lambda>v. fragment_index v = idx) vs))"
    by (metis list.set_intros(2))
  have "args_at (set_call m (fragment_index v) c) idx = (if fragment_index v = idx then tc_args c else args_at m idx)" for idx
    by (auto simp: args_at_def map_of_set_call)
  with c m' show ?case by (simp add: comp_def del: merge_partial.simps)
qed simp

definition frag :: "int \<Rightarrow> string \<Rightarrow> pyval" where
  "frag i t = PDict [(''index'', PInt i), (''function'', PDict [(''arguments'', PStr t)])]"

theorem tool_arguments_joined_witness:
  "\<exists>m'. merge_partial [frag 0 ''a'', frag 1 ''x'', frag 0 ''b''] [] = Inr m' \<and> args_at m' (PInt 0) = ''ab''"
proof -
  have "\<forall>v \<in> set [frag 0 ''a'', frag 1 ''x'', frag 0 ''b'']. fragment v"
    by (simp add: frag_def fragment_def fragment_index_def fragment_args_def msg_get_def hashable_def is_pstr_def)
  from tool_arguments_joined [OF this, of "[]"] show ?thesis
    by (auto simp: frag_def fragment_index_def fragment_args_def msg_get_def arg_text_def args_at_def)
qed

section \<open>Witnesses\<close>

definition sample_chunk :: string where
  "sample_chunk = ''data: {'' @ [CHR 0x22] @ ''choices'' @ [CHR 0x22] @ '':[{'' @ [CHR 0x22] @ ''delta'' @ [CHR 0x22] @ '':{'' @ [CHR 0x22] @ ''content'' @ [CHR 0x22] @
     '':'' @ [CHR 0x22] @ ''hi'' @ [CHR 0x22] @ ''}}]}''"

definition sample_prompt :: "pyval list" where
  "sample_prompt = [PDict [(''role'', PStr ''user''), (''content'', PStr ''hi'')]]"

definition sample_run :: emitted where
  "sample_run = convert_stream_to_anthropic (\<lambda>t. 1) ''msg_1'' (\<lambda>i. ''a'') sample_prompt [PStr sample_chunk]"

lemma sample_returns: "snd (fst sample_run) = None"
  by code_simp

theorem anthropic_stream_well_formed_witness: "snd (fst sample_run) = None \<and> accept Before (snd sample_run) = Some Done"
proof -
  obtain s es where r: "sample_run = ((s, None), es)" using sample_returns by (metis prod.collapse)
  with anthropic_stream_well_formed [of "\<lambda>t. 1" "''msg_1''" "\<lambda>i. ''a''" sample_prompt "[PStr sample_chunk]" s None es] show ?thesis
    by (auto simp: sample_run_def)
qed


end
