(* ===== verification/Lub_Convert.thy ===== *)
theory Lub_Convert
  imports Lub_Stream
begin

text \<open>
  The conversions of requests and complete responses between the OpenAI and the Anthropic format:
  \<open>server/message_utils.py\<close> with the caller in \<open>providers/custom.py\<close>.

  A \<open>ValueError\<close> stands for its text. The random id that is drawn for a call or a result without an id
  is an argument: for the k-th entry of a list the k-th text of a function, for the messages of a request one
  such function per message. What is only logged is left out, except where the log line itself raises.
\<close>

section \<open>Images and texts\<close>

definition before_comma :: "string \<Rightarrow> string" where
  "before_comma s = takeWhile (\<lambda>c. c \<noteq> CHR '','') s"

definition safe_image_url_preview :: "string \<Rightarrow> string" where
  "safe_image_url_preview url =
     (if url = [] then [] else if startswith url ''data:'' then before_comma url @ '',...'' else url)"

definition data_url_to_media_and_data :: "string \<Rightarrow> pyerror + string \<times> string" where
  "data_url_to_media_and_data url =
     (let header = before_comma url; data = tl (dropWhile (\<lambda>c. c \<noteq> CHR '','') url);
          media_type = takeWhile (\<lambda>c. c \<noteq> CHR '';'') (drop 5 header) in
      if CHR '','' \<notin> set url then Inl ValueError
      else if \<not> startswith header ''data:'' \<or> \<not> contains header '';base64'' then Inl ValueError
      else if \<not> startswith media_type ''image/'' then Inl ValueError
      else if data = [] then Inl ValueError
      else Inr (media_type, data))"

definition openai_image_url_value :: "pyval \<Rightarrow> string" where
  "openai_image_url_value image_url =
     (case image_url of PStr s \<Rightarrow> s | PDict d \<Rightarrow> text_or (dget d ''url'') [] | _ \<Rightarrow> [])"

definition openai_image_url_to_anthropic_source :: "pyval \<Rightarrow> pyerror + pyval" where
  "openai_image_url_to_anthropic_source image_url =
     (let url = openai_image_url_value image_url in
      if url = [] then Inl ValueError
      else if startswith url ''http://'' \<or> startswith url ''https://''
      then Inr (PDict [(''type'', PStr ''url''), (''url'', PStr url)])
      else if startswith url ''data:''
      then py_then (data_url_to_media_and_data url) (\<lambda>(media_type, data).
        Inr (PDict [(''type'', PStr ''base64''), (''media_type'', PStr media_type), (''data'', PStr data)]))
      else Inl ValueError)"

definition TEXT_TYPES :: "pyval list" where
  "TEXT_TYPES = [PStr ''input_text'', PStr ''output_text'', PStr ''text'']"

definition image_preview :: "string \<Rightarrow> string \<Rightarrow> string" where
  "image_preview name url =
     (let preview = safe_image_url_preview url in
      if preview \<noteq> [] then ''['' @ name @ '': '' @ preview @ '']'' else ''['' @ name @ '']'')"

lemma size_dget: "dget d k \<noteq> PNone \<Longrightarrow> size (dget d k) < size (PDict d)"
  by (auto simp: dget_def dest: size_map_of split: option.splits)

function openai_content_part_text :: "bool \<Rightarrow> pydict \<Rightarrow> string"
  and openai_content_to_text :: "bool \<Rightarrow> pyval \<Rightarrow> string" where
  "openai_content_part_text images item =
     (let t = dget item ''type'' in
      if t \<in> set TEXT_TYPES then text_or (dget item ''text'') []
      else if t = PStr ''image_url''
      then (if images then image_preview ''image_url'' (openai_image_url_value (dget item ''image_url'')) else [])
      else if t = PStr ''input_image''
      then (if images then image_preview ''input_image'' (text_or (py_or (dget item ''image_url'') (dget item ''url'')) []) else [])
      else if dget item ''text'' \<noteq> PNone then text_or (dget item ''text'') []
      else if dget item ''content'' \<noteq> PNone then openai_content_to_text images (dget item ''content'')
      else json_compact (PDict item))"
| "openai_content_to_text images content =
     (case content of
        PNone \<Rightarrow> []
      | PStr s \<Rightarrow> s
      | PList xs \<Rightarrow> join [CHR 0x0A] (concat (map (\<lambda>x. case x of
            PStr s \<Rightarrow> [s]
          | PDict d \<Rightarrow> (let t = openai_content_part_text images d in if t \<noteq> [] then [t] else [])
          | PNone \<Rightarrow> []
          | _ \<Rightarrow> [py_str x]) xs))
      | PDict d \<Rightarrow> openai_content_part_text images d
      | _ \<Rightarrow> py_str content)"
  by pat_completeness auto
termination
proof (relation "measure (case_sum (\<lambda>p. 2 * size (PDict (snd p))) (\<lambda>p. 2 * size (snd p) + 1))", goal_cases)
  case (2 images item t)
  then show ?case using size_dget [of item "''content''"] by simp
next
  case (3 images content xs x d)
  then have "size (PDict d) \<le> size_list size xs" by (intro size_list_estimation' [of "PDict d"]) simp_all
  with 3 show ?case by simp
qed simp_all

declare openai_content_part_text.simps [simp del] openai_content_to_text.simps [simp del]

section \<open>OpenAI messages to Anthropic messages\<close>

definition require_openai_content_part_dict :: "pyval \<Rightarrow> pyerror + pydict" where
  "require_openai_content_part_dict item =
     (case item of PDict d \<Rightarrow> if truthy (dget d ''type'') then Inr d else Inl ValueError | _ \<Rightarrow> Inl ValueError)"

definition text_block :: "string \<Rightarrow> pyval" where
  "text_block s = PDict [(''type'', PStr ''text''), (''text'', PStr s)]"

fun traverse :: "('a \<Rightarrow> pyerror + 'b) \<Rightarrow> 'a list \<Rightarrow> pyerror + 'b list" where
  \<comment> \<open>a loop that appends one result per item and may raise\<close>
  "traverse f [] = Inr []"
| "traverse f (x # xs) = py_then (f x) (\<lambda>y. py_then (traverse f xs) (\<lambda>ys. Inr (y # ys)))"

definition content_part_block :: "string \<Rightarrow> pyval \<Rightarrow> pyerror + pyval" where
  "content_part_block role raw =
     (case raw of
        PStr s \<Rightarrow> Inr (text_block s)
      | _ \<Rightarrow> py_then (require_openai_content_part_dict raw) (\<lambda>item.
          let t = dget item ''type'' in
          if t \<in> set TEXT_TYPES then Inr (text_block (text_or (dget item ''text'') []))
          else if t = PStr ''image_url''
          then (if role \<noteq> ''user'' then Inl ValueError
                else py_then (openai_image_url_to_anthropic_source (dget item ''image_url''))
                       (\<lambda>src. Inr (PDict [(''type'', PStr ''image''), (''source'', src)])))
          else Inl ValueError))"

definition openai_content_to_anthropic_blocks :: "string \<Rightarrow> pyval \<Rightarrow> pyerror + pyval list" where
  "openai_content_to_anthropic_blocks role content =
     (case content of
        PNone \<Rightarrow> Inr []
      | PStr s \<Rightarrow> Inr (if s = [] then [] else [text_block s])
      | PDict d \<Rightarrow> traverse (content_part_block role) [content]
      | PList xs \<Rightarrow> traverse (content_part_block role) xs
      | _ \<Rightarrow> Inr [text_block (py_str content)])"

definition parse_openai_tool_arguments :: "pyval \<Rightarrow> pydict" where
  "parse_openai_tool_arguments arguments =
     (case arguments of
        PDict d \<Rightarrow> d
      | PStr s \<Rightarrow> (case json_loads s of Some (PDict d) \<Rightarrow> d | _ \<Rightarrow> [])
      | _ \<Rightarrow> [])"

definition tool_use_block :: "string \<Rightarrow> string \<Rightarrow> pyval \<Rightarrow> pyval" where
  "tool_use_block i n input = PDict [(''type'', PStr ''tool_use''), (''id'', PStr i), (''name'', PStr n), (''input'', input)]"

definition call_block :: "string \<Rightarrow> pyval \<Rightarrow> pyval option" where
  "call_block uuid tool_call =
     (case tool_call of
        PDict tc \<Rightarrow>
          (let func = (case dget tc ''function'' of PDict f \<Rightarrow> f | _ \<Rightarrow> []) in
           Some (tool_use_block (sanitize_anthropic_tool_id uuid (dget tc ''id'')) (sanitize_anthropic_tool_name (dget func ''name''))
             (PDict (parse_openai_tool_arguments (dget func ''arguments'')))))
      | _ \<Rightarrow> None)"

definition openai_tool_calls_to_anthropic_blocks :: "(nat \<Rightarrow> string) \<Rightarrow> pyval \<Rightarrow> pyerror + pyval list" where
  "openai_tool_calls_to_anthropic_blocks uuids tool_calls =
     py_then (py_iter (py_or tool_calls (PList []))) (\<lambda>xs.
       Inr (List.map_filter (\<lambda>(k, tc). call_block (uuids k) tc) (enumerate 0 xs)))"

definition openai_tool_message_to_anthropic_block :: "string \<Rightarrow> pydict \<Rightarrow> pyval" where
  "openai_tool_message_to_anthropic_block uuid message =
     PDict [(''type'', PStr ''tool_result''),
       (''tool_use_id'', PStr (sanitize_anthropic_tool_id uuid
          (py_or (dget message ''tool_call_id'') (py_or (dget message ''id'') (PStr (''toolu_'' @ take 24 uuid)))))),
       (''content'', PStr (openai_content_to_text True (dget_or message ''content'' (PStr []))))]"

definition system_part :: "pyval \<Rightarrow> pyerror + string" where
  "system_part raw =
     (case raw of
        PStr s \<Rightarrow> Inr s
      | _ \<Rightarrow> py_then (require_openai_content_part_dict raw) (\<lambda>item.
          if dget item ''type'' \<in> set TEXT_TYPES then Inr (text_or (dget item ''text'') []) else Inl ValueError))"

definition joined_lines :: "string list \<Rightarrow> string" where
  "joined_lines parts = join [CHR 0x0A] (filter (\<lambda>t. t \<noteq> []) parts)"

definition openai_system_content_to_text :: "pyval \<Rightarrow> pyerror + string" where
  "openai_system_content_to_text content =
     (case content of
        PNone \<Rightarrow> Inr []
      | PStr s \<Rightarrow> Inr s
      | PDict d \<Rightarrow> py_then (traverse system_part [content]) (\<lambda>parts. Inr (joined_lines parts))
      | PList xs \<Rightarrow> py_then (traverse system_part xs) (\<lambda>parts. Inr (joined_lines parts))
      | _ \<Rightarrow> Inr (py_str content))"

definition thinking_block :: "string \<Rightarrow> pyval \<Rightarrow> pyval" where
  "thinking_block signature v = PDict [(''type'', PStr ''thinking''), (''thinking'', v), (''signature'', PStr signature)]"

definition assistant_part :: "bool \<Rightarrow> pyerror + pyval list \<Rightarrow> pyerror + pyval list" where
  "assistant_part b blocks = (if b then blocks else Inr [])"

definition message_blocks :: "(nat \<Rightarrow> string) \<Rightarrow> string \<Rightarrow> pydict \<Rightarrow> pyerror + pyval list" where
  "message_blocks uuids role msg =
     (let thinking = (if role = ''assistant'' \<and> truthy (dget msg ''reasoning_content'')
            then [thinking_block [] (PStr (text_or (dget msg ''reasoning_content'') []))] else []) in
      py_then (openai_content_to_anthropic_blocks role (dget_or msg ''content'' (PStr []))) (\<lambda>blocks.
      py_then (assistant_part (role = ''assistant'' \<and> truthy (dget msg ''tool_calls''))
          (openai_tool_calls_to_anthropic_blocks uuids (dget msg ''tool_calls''))) (\<lambda>calls.
      Inr (thinking @ blocks @ calls))))"

definition anthropic_message :: "string \<Rightarrow> pyval \<Rightarrow> pyval" where
  "anthropic_message role content = PDict [(''role'', PStr role), (''content'', content)]"

definition blocks_val :: "pyval list \<Rightarrow> pyval" where
  "blocks_val blocks = (if blocks = [] then PStr [] else PList blocks)"

definition convert_message :: "(nat \<Rightarrow> string) \<Rightarrow> pyval \<Rightarrow> pyerror + string list \<times> pyval list" where
  \<comment> \<open>what one message adds to the system texts and to the messages\<close>
  "convert_message uuids m =
     (case m of
        PDict msg \<Rightarrow>
          (let role = py_or (dget msg ''role'') (PStr ''user'') in
           if role = PStr ''system'' \<or> role = PStr ''developer''
           then py_then (openai_system_content_to_text (dget_or msg ''content'' (PStr [])))
                  (\<lambda>t. Inr (if t = [] then [] else [t], []))
           else if role = PStr ''tool''
           then Inr ([], [anthropic_message ''user'' (PList [openai_tool_message_to_anthropic_block (uuids 0) msg])])
           else if role = PStr ''user'' \<or> role = PStr ''assistant''
           then (let r = (if role = PStr ''user'' then ''user'' else ''assistant'') in
             py_then (message_blocks uuids r msg) (\<lambda>blocks. Inr ([], [anthropic_message r (blocks_val blocks)])))
           else Inl ValueError)
      | _ \<Rightarrow> Inl ValueError)"

definition openai_messages_to_anthropic_messages ::
    "(nat \<Rightarrow> nat \<Rightarrow> string) \<Rightarrow> pyval list \<Rightarrow> pyerror + string list \<times> pyval list" where
  "openai_messages_to_anthropic_messages uuids messages =
     py_then (traverse (\<lambda>(i, m). convert_message (uuids i) m) (enumerate 0 messages)) (\<lambda>parts.
       Inr (concat (map fst parts), concat (map snd parts)))"

section \<open>Cleaning an Anthropic request\<close>

definition sanitize_block :: "string \<Rightarrow> pyval \<Rightarrow> pyval" where
  "sanitize_block uuid block =
     (case block of
        PDict b \<Rightarrow>
          (if dget b ''type'' = PStr ''tool_use''
           then (let b1 = dset b ''id'' (PStr (sanitize_anthropic_tool_id uuid (dget b ''id''))) in
                 PDict (if map_of b1 ''name'' = None then b1 else dset b1 ''name'' (PStr (sanitize_anthropic_tool_name (dget b1 ''name'')))))
           else if dget b ''type'' = PStr ''tool_result''
           then PDict (dset b ''tool_use_id'' (PStr (sanitize_anthropic_tool_id uuid (dget b ''tool_use_id''))))
           else block)
      | _ \<Rightarrow> block)"

definition on_content :: "(pyval list \<Rightarrow> pyval) \<Rightarrow> pyval \<Rightarrow> pyval" where
  "on_content f m = (case m of
      PDict msg \<Rightarrow> (case dget msg ''content'' of PList bs \<Rightarrow> PDict (dset msg ''content'' (f bs)) | _ \<Rightarrow> m)
    | _ \<Rightarrow> m)"

definition on_messages :: "(nat \<Rightarrow> pyval \<Rightarrow> pyval) \<Rightarrow> pydict \<Rightarrow> pydict" where
  "on_messages f body = (case dget body ''messages'' of
      PList ms \<Rightarrow> dset body ''messages'' (PList (map (\<lambda>(i, m). f i m) (enumerate 0 ms)))
    | _ \<Rightarrow> body)"

definition sanitize_anthropic_tool_ids_in_body :: "(nat \<Rightarrow> nat \<Rightarrow> string) \<Rightarrow> pydict \<Rightarrow> pydict" where
  \<comment> \<open>without blocks of tools the body is copied, which is the same as rewriting nothing\<close>
  "sanitize_anthropic_tool_ids_in_body uuids =
     on_messages (\<lambda>i. on_content (\<lambda>bs. PList (map (\<lambda>(k, b). sanitize_block (uuids i k) b) (enumerate 0 bs))))"

definition unsigned :: "pyval \<Rightarrow> bool" where
  \<comment> \<open>a thinking block whose signature is missing, blank or our own\<close>
  "unsigned block = (case block of
      PDict b \<Rightarrow> dget b ''type'' = PStr ''thinking'' \<and>
        (case dget b ''signature'' of PStr s \<Rightarrow> strip s = [] \<or> s = SYNTHETIC_SIGNATURE | _ \<Rightarrow> True)
    | _ \<Rightarrow> False)"

definition drop_unsigned :: "pyval list \<Rightarrow> pyval" where
  "drop_unsigned bs = (let kept = filter (Not \<circ> unsigned) bs in
     if length kept = length bs then PList bs else blocks_val kept)"

definition sanitize_anthropic_request_body :: "(nat \<Rightarrow> nat \<Rightarrow> string) \<Rightarrow> pydict \<Rightarrow> pydict" where
  "sanitize_anthropic_request_body uuids body =
     on_messages (\<lambda>i. on_content drop_unsigned) (sanitize_anthropic_tool_ids_in_body uuids body)"

definition system_texts :: "pyval list \<Rightarrow> string list" where
  "system_texts system = concat (map (\<lambda>block. case block of
      PDict b \<Rightarrow> if dget b ''type'' = PStr ''text'' \<and> truthy (dget b ''text'') then [py_str (dget b ''text'')] else []
    | PStr s \<Rightarrow> if s \<noteq> [] then [s] else []
    | _ \<Rightarrow> []) system)"

definition coerce_anthropic_system :: "pyval \<Rightarrow> pyval \<Rightarrow> pyval" where
  "coerce_anthropic_system system system_type =
     (let target = lower (text_or system_type []) in
      if target \<noteq> ''str'' \<and> target \<noteq> ''array'' then system
      else if system = PNone \<or> system = PStr [] then system
      else if target = ''str''
      then (case system of PList bs \<Rightarrow> PStr (join [CHR 0x0A, CHR 0x0A] (system_texts bs)) | _ \<Rightarrow> system)
      else (case system of PStr s \<Rightarrow> PList [text_block s] | _ \<Rightarrow> system))"

definition strip_assistant_reasoning_content :: "pyval list \<Rightarrow> pyval list" where
  "strip_assistant_reasoning_content messages = map (\<lambda>m. case m of
      PDict msg \<Rightarrow> if dget msg ''role'' = PStr ''assistant'' then PDict (dremove msg ''reasoning_content'') else m
    | _ \<Rightarrow> m) messages"

end
