(* ===== verification/Lub_ConvertBack.thy ===== *)
theory Lub_ConvertBack
  imports Lub_Convert
begin

text \<open>
  The request of the custom provider in the Anthropic format (\<open>_openai_request_to_anthropic\<close> of
  \<open>providers/custom.py\<close>), and the conversions for Anthropic clients: their requests to OpenAI messages and
  parameters (\<open>anthropic_to_openai_messages\<close>), complete OpenAI responses to theirs
  (\<open>openai_to_anthropic_response\<close>, both in \<open>server/message_utils.py\<close>).
\<close>

section \<open>The request of the provider\<close>

datatype request_error = Invalid_Message | Raised pyerror
  \<comment> \<open>the HTTP error 400 \<open>invalid_message_content\<close>, or another exception\<close>

definition dset_some :: "string \<Rightarrow> pyval \<Rightarrow> pydict \<Rightarrow> pydict" where
  \<comment> \<open>\<open>if v is not None: d[k] = v\<close>\<close>
  "dset_some k v d = (if v = PNone then d else dset d k v)"

definition EMPTY_SCHEMA :: pyval where
  "EMPTY_SCHEMA = PDict [(''type'', PStr ''object''), (''properties'', PDict [])]"

definition openai_tool_to_anthropic :: "pydict \<Rightarrow> pyval" where
  "openai_tool_to_anthropic tool =
     (let fn = (case dget tool ''function'' of PDict f \<Rightarrow> f | _ \<Rightarrow> []) in
      PDict [(''name'', PStr (sanitize_anthropic_tool_name (dget fn ''name''))),
        (''description'', dget_or fn ''description'' (PStr [])),
        (''input_schema'', py_or (dget fn ''parameters'') EMPTY_SCHEMA)])"

definition openai_tool_choice_to_anthropic :: "pyval \<Rightarrow> pyerror + pyval" where
  "openai_tool_choice_to_anthropic tool_choice =
     (case tool_choice of
        PDict tc \<Rightarrow>
          (if dget tc ''type'' = PStr ''function''
           then (case py_or (dget tc ''function'') (PDict []) of
                   PDict f \<Rightarrow> Inr (PDict [(''type'', PStr ''tool''), (''name'', PStr (sanitize_anthropic_tool_name (dget f ''name'')))])
                 | _ \<Rightarrow> Inl AttributeError)
           else Inr tool_choice)
      | PStr s \<Rightarrow> Inr (if s = ''required'' then PDict [(''type'', PStr ''any'')]
                     else if s = ''auto'' \<or> s = ''none'' then PDict [(''type'', tool_choice)] else tool_choice)
      | _ \<Rightarrow> Inr tool_choice)"

definition drop_tool_choice_without_tools :: "pydict \<Rightarrow> pydict" where
  "drop_tool_choice_without_tools payload =
     (case dget payload ''tools'' of PList (x # xs) \<Rightarrow> payload | _ \<Rightarrow> dremove payload ''tool_choice'')"

definition PASSED_KEYS :: "string list" where
  "PASSED_KEYS = [''temperature'', ''top_p'', ''top_k'', ''metadata'', ''service_tier'', ''container'', ''context_management'', ''mcp_servers'']"

definition with_stop :: "pydict \<Rightarrow> pydict \<Rightarrow> pydict" where
  "with_stop payload d =
     (case dget payload ''stop'' of PNone \<Rightarrow> d | PList xs \<Rightarrow> dset d ''stop_sequences'' (PList xs)
      | v \<Rightarrow> dset d ''stop_sequences'' (PList [v]))"

definition with_tools :: "pydict \<Rightarrow> pydict \<Rightarrow> pyerror + pydict" where
  "with_tools payload d =
     (if \<not> truthy (dget payload ''tools'') then Inr d
      else py_then (py_iter (dget payload ''tools'')) (\<lambda>xs.
        Inr (dset d ''tools'' (PList (map openai_tool_to_anthropic (filter (\<lambda>t. dget t ''type'' = PStr ''function'') (dicts_of xs)))))))"

definition with_tool_choice :: "pydict \<Rightarrow> pydict \<Rightarrow> pyerror + pydict" where
  "with_tool_choice payload d =
     (if dget payload ''tool_choice'' = PNone then Inr d
      else py_then (openai_tool_choice_to_anthropic (dget payload ''tool_choice'')) (\<lambda>v. Inr (dset d ''tool_choice'' v)))"

definition with_effort :: "pydict \<Rightarrow> pydict \<Rightarrow> pydict" where
  "with_effort payload d =
     (let effort = dget payload ''reasoning_effort'' in
      if dget payload ''thinking'' \<noteq> PNone then d
      else if effort \<in> {PStr ''minimal'', PStr ''none''} then dset d ''thinking'' (PDict [(''type'', PStr ''disabled'')])
      else if effort \<in> {PStr ''low'', PStr ''medium'', PStr ''high'', PStr ''xhigh''}
      then dset (dset d ''thinking'' (PDict [(''type'', PStr ''enabled''), (''budget_tokens'', py_or (dget payload ''thinking_budget'') (PInt 1024))]))
             ''output_config'' (PDict [(''effort'', if effort = PStr ''xhigh'' then PStr ''max'' else effort)])
      else d)"

definition anthropic_request :: "pydict \<Rightarrow> string list \<Rightarrow> pyval list \<Rightarrow> pyerror + pydict" where
  "anthropic_request payload system_parts messages =
     (let d0 = [(''model'', dget payload ''model''), (''messages'', PList messages), (''stream'', dget_or payload ''stream'' (PBool False))];
          d1 = dset_some ''max_tokens'' (dget payload ''max_tokens'') d0;
          d2 = (if system_parts = [] then d1 else dset d1 ''system'' (PStr (join [CHR 0x0A, CHR 0x0A] system_parts)));
          d3 = fold (\<lambda>k. dset_some k (dget payload k)) PASSED_KEYS d2;
          d4 = with_stop payload (dset_some ''thinking'' (dget payload ''thinking'') d3) in
      py_then (with_tools payload d4) (\<lambda>d5.
      py_then (with_tool_choice payload d5) (\<lambda>d6.
      Inr (drop_tool_choice_without_tools (with_effort payload d6)))))"

definition openai_request_to_anthropic :: "(nat \<Rightarrow> nat \<Rightarrow> string) \<Rightarrow> pydict \<Rightarrow> request_error + pydict" where
  \<comment> \<open>as the provider calls it, with \<open>_skip_client_preset_body\<close>\<close>
  "openai_request_to_anthropic uuids payload =
     (case py_then (py_iter (py_or (dget_or payload ''messages'' (PList [])) (PList []))) (openai_messages_to_anthropic_messages uuids) of
        Inl e \<Rightarrow> Inl (if e = ValueError then Invalid_Message else Raised e)
      | Inr (system_parts, messages) \<Rightarrow> map_sum Raised id (anthropic_request payload system_parts messages))"

definition apply_system_type :: "pyval \<Rightarrow> pydict \<Rightarrow> pydict" where
  "apply_system_type system_type data =
     (if dget data ''system'' = PNone then data
      else dset data ''system'' (coerce_anthropic_system (dget data ''system'') (py_or system_type (PStr ''auto''))))"

section \<open>Requests of Anthropic clients\<close>

definition get_type :: "pyval \<Rightarrow> pyerror + pydict" where
  \<comment> \<open>a value on which \<open>get\<close> is called\<close>
  "get_type v = (case v of PDict d \<Rightarrow> Inr d | _ \<Rightarrow> Inl AttributeError)"

definition as_text :: "pyval \<Rightarrow> pyerror + string" where
  \<comment> \<open>a value that is added to a text or joined\<close>
  "as_text v = (case v of PStr s \<Rightarrow> Inr s | _ \<Rightarrow> Inl TypeError)"

definition sized :: "pyval \<Rightarrow> bool" where
  \<comment> \<open>\<open>len(v)\<close> is defined\<close>
  "sized v = (case v of PStr _ \<Rightarrow> True | PList _ \<Rightarrow> True | PDict _ \<Rightarrow> True | _ \<Rightarrow> False)"

definition joined :: "pyval list \<Rightarrow> pyerror + string" where
  \<comment> \<open>a join with line breaks\<close>
  "joined vs = py_then (traverse as_text vs) (\<lambda>ts. Inr (join [CHR 0x0A] ts))"

definition system_message :: "pyval \<Rightarrow> pyerror + pyval list" where
  "system_message system =
     py_then (case system of
         PStr s \<Rightarrow> Inr s
       | PList bs \<Rightarrow> py_then (traverse (\<lambda>v. py_then (get_type v) (\<lambda>b.
             if dget b ''type'' = PStr ''text'' then as_text (dget_or b ''text'' (PStr [])) else Inr [])) bs) (\<lambda>ts. Inr (concat ts))
       | _ \<Rightarrow> Inr [])
       (\<lambda>t. Inr (if t = [] then [] else [PDict [(''role'', PStr ''system''), (''content'', PStr t)]]))"

definition summary_ok :: "pyval \<Rightarrow> pyerror + pydict" where
  \<comment> \<open>the lengths that are logged for a block\<close>
  "summary_ok v = py_then (get_type v) (\<lambda>b.
     if list_all (\<lambda>k. sized (dget_or b k (PStr []))) [''text'', ''thinking'', ''data''] then Inr b else Inl TypeError)"

record turn_parts =
  pt_text :: "pyval list"
  pt_thinking :: "pyval list"
  pt_calls :: "pyval list"
  pt_results :: "(string \<times> string) list"
  pt_names :: "(string \<times> string) list"

definition openai_call :: "string \<Rightarrow> string \<Rightarrow> pyval \<Rightarrow> pyval" where
  "openai_call i n input = PDict [(''id'', PStr i), (''type'', PStr ''function''),
     (''function'', PDict [(''name'', PStr n), (''arguments'', PStr (json_dumps input))])]"

definition result_text :: "pyval \<Rightarrow> pyerror + string" where
  "result_text content =
     (case content of
        PList rbs \<Rightarrow> py_then (traverse get_type rbs) (\<lambda>ds.
          joined (map (\<lambda>d. dget_or d ''text'' (PStr [])) (filter (\<lambda>d. dget d ''type'' = PStr ''text'') ds)))
      | _ \<Rightarrow> Inr (py_str content))"

definition take_in :: "string \<Rightarrow> pydict \<Rightarrow> turn_parts \<Rightarrow> pyerror + turn_parts" where
  "take_in uuid b p =
     (let t = dget b ''type'' in
      if t = PStr ''text'' then Inr (p\<lparr>pt_text := pt_text p @ [dget_or b ''text'' (PStr [])]\<rparr>)
      else if t = PStr ''thinking''
      then (let v = dget_or b ''thinking'' (PStr []) in Inr (if truthy v then p\<lparr>pt_thinking := pt_thinking p @ [v]\<rparr> else p))
      else if t = PStr ''tool_use''
      then (let i = sanitize_anthropic_tool_id uuid (dget b ''id''); n = sanitize_anthropic_tool_name (dget b ''name'') in
            Inr (p\<lparr>pt_names := (if truthy (dget b ''name'') then dset (pt_names p) i n else pt_names p),
                   pt_calls := pt_calls p @ [openai_call i n (dget_or b ''input'' (PDict []))]\<rparr>))
      else if t = PStr ''tool_result''
      then py_then (result_text (dget_or b ''content'' (PStr []))) (\<lambda>c.
             Inr (p\<lparr>pt_results := pt_results p @ [(sanitize_anthropic_tool_id uuid (dget b ''tool_use_id''), c)]\<rparr>))
      else Inr p)"

fun take_blocks :: "(nat \<Rightarrow> string) \<Rightarrow> nat \<Rightarrow> pydict list \<Rightarrow> turn_parts \<Rightarrow> pyerror + turn_parts" where
  "take_blocks uuids k [] p = Inr p"
| "take_blocks uuids k (b # bs) p = py_then (take_in (uuids k) b p) (take_blocks uuids (Suc k) bs)"

definition assistant_message :: "pyval \<Rightarrow> turn_parts \<Rightarrow> pyerror + pyval list" where
  "assistant_message reasoning p =
     py_then (joined (pt_text p)) (\<lambda>t.
     py_then (if truthy reasoning then Inr reasoning else py_then (joined (pt_thinking p)) (\<lambda>x. Inr (PStr x))) (\<lambda>thinking.
     Inr [PDict ([(''role'', PStr ''assistant''), (''content'', PStr t)] @
       (if truthy thinking then [(''reasoning_content'', thinking)] else []) @
       (if pt_calls p \<noteq> [] then [(''tool_calls'', PList (pt_calls p))] else []))]))"

definition result_val :: "(string \<times> string) list \<Rightarrow> string \<times> string \<Rightarrow> pyval" where
  "result_val names r = PDict ([(''role'', PStr ''tool''), (''content'', PStr (snd r)), (''tool_call_id'', PStr (fst r))] @
     (case map_of names (fst r) of Some n \<Rightarrow> if n \<noteq> [] then [(''name'', PStr n)] else [] | None \<Rightarrow> []))"

definition user_messages :: "turn_parts \<Rightarrow> pyerror + pyval list" where
  "user_messages p =
     (let results = map (result_val (pt_names p)) (pt_results p) in
      if pt_text p = [] then Inr results
      else py_then (joined (pt_text p)) (\<lambda>t. Inr (results @ [PDict [(''role'', PStr ''user''), (''content'', PStr t)]])))"

definition no_parts :: "(string \<times> string) list \<Rightarrow> turn_parts" where
  "no_parts names = \<lparr>pt_text = [], pt_thinking = [], pt_calls = [], pt_results = [], pt_names = names\<rparr>"

definition anthropic_turn ::
    "(nat \<Rightarrow> string) \<Rightarrow> (string \<times> string) list \<Rightarrow> pyval \<Rightarrow> pyerror + pyval list \<times> (string \<times> string) list" where
  \<comment> \<open>the messages for one Anthropic message, and the names of the calls seen so far\<close>
  "anthropic_turn uuids names m =
     py_then (get_type m) (\<lambda>msg.
     let role = dget msg ''role''; content = dget msg ''content''; reasoning = dget_or msg ''reasoning_content'' (PStr []) in
     case content of
       PList bs \<Rightarrow>
         py_then (traverse summary_ok bs) (\<lambda>ds.
         if \<not> sized reasoning then Inl TypeError
         else py_then (take_blocks uuids 0 ds (no_parts names)) (\<lambda>p.
           py_then (if role = PStr ''assistant'' then assistant_message reasoning p
                    else if role = PStr ''user'' then user_messages p else Inr [])
             (\<lambda>out. Inr (out, pt_names p))))
     | _ \<Rightarrow>
         (if \<not> sized reasoning then Inl TypeError
          else (case content of
                  PStr s \<Rightarrow> Inr ([PDict ([(''role'', role), (''content'', content)] @
                    (if role = PStr ''assistant'' \<and> truthy reasoning then [(''reasoning_content'', reasoning)] else []))], names)
                | _ \<Rightarrow> Inr ([], names))))"

fun anthropic_turns ::
    "(nat \<Rightarrow> nat \<Rightarrow> string) \<Rightarrow> nat \<Rightarrow> (string \<times> string) list \<Rightarrow> pyval list \<Rightarrow> pyerror + pyval list" where
  "anthropic_turns uuids i names [] = Inr []"
| "anthropic_turns uuids i names (m # ms) =
     py_then (anthropic_turn (uuids i) names m) (\<lambda>(out, names').
     py_then (anthropic_turns uuids (Suc i) names' ms) (\<lambda>rest. Inr (out @ rest)))"

definition openai_tool_of :: "pydict \<Rightarrow> pyval" where
  "openai_tool_of tool =
     PDict [(''type'', PStr ''function''), (''function'', PDict [(''name'', PStr (sanitize_anthropic_tool_name (dget tool ''name''))),
       (''description'', dget_or tool ''description'' (PStr [])),
       (''parameters'', case dget tool ''input_schema'' of PDict (x # xs) \<Rightarrow> PDict (x # xs) | _ \<Rightarrow> EMPTY_SCHEMA)])]"

definition openai_tool_choice_of :: "pyval \<Rightarrow> pyval" where
  \<comment> \<open>\<open>None\<close>: the parameter is not set\<close>
  "openai_tool_choice_of tool_choice =
     (case tool_choice of
        PDict tc \<Rightarrow>
          (let t = dget tc ''type'' in
           if t = PStr ''tool''
           then PDict [(''type'', PStr ''function''), (''function'', PDict [(''name'', PStr (sanitize_anthropic_tool_name (dget tc ''name'')))])]
           else if t = PStr ''any'' then PStr ''required''
           else if t = PStr ''auto'' \<or> t = PStr ''none'' then t else PNone)
      | _ \<Rightarrow> tool_choice)"

definition KEPT_KEYS :: "string list" where
  "KEPT_KEYS = [''top_p'', ''top_k'', ''metadata'', ''service_tier'', ''container'', ''context_management'', ''mcp_servers'',
     ''stream_options'', ''parallel_tool_calls'', ''user'']"

definition with_thinking :: "pydict \<Rightarrow> pydict \<Rightarrow> pydict" where
  "with_thinking body d =
     (case dget body ''thinking'' of
        PDict th \<Rightarrow>
          (if dget th ''type'' = PStr ''enabled''
           then dset_some ''thinking_budget'' (dget th ''budget_tokens'')
                  (dset (dset (dset d ''thinking_enabled'' (PBool True)) ''thinking_mode'' (PStr ''Thinking'')) ''auto_thinking'' (PBool False))
           else d)
      | _ \<Rightarrow> d)"

definition openai_parameters :: "pydict \<Rightarrow> pyerror + pydict" where
  "openai_parameters body =
     (let d0 = dset_some ''temperature'' (dget body ''temperature'') [(''max_tokens'', dget body ''max_tokens''), (''tools'', PNone)] in
      py_then (if truthy (dget body ''tools'')
               then py_then (py_iter (dget body ''tools'')) (\<lambda>xs. Inr (dset d0 ''tools'' (PList (map openai_tool_of (dicts_of xs)))))
               else Inr d0) (\<lambda>d1.
      Inr (with_thinking body (fold (\<lambda>k. dset_some k (dget body k)) KEPT_KEYS
        (dset_some ''stop'' (dget body ''stop_sequences'') (dset_some ''tool_choice'' (openai_tool_choice_of (dget body ''tool_choice'')) d1))))))"

definition anthropic_to_openai_messages :: "(nat \<Rightarrow> nat \<Rightarrow> string) \<Rightarrow> pydict \<Rightarrow> pyerror + pyval list \<times> pydict" where
  "anthropic_to_openai_messages uuids body =
     py_then (system_message (dget body ''system'')) (\<lambda>sys.
     py_then (py_iter (dget_or body ''messages'' (PList []))) (\<lambda>ms.
     py_then (anthropic_turns uuids 0 [] ms) (\<lambda>out.
     py_then (openai_parameters body) (\<lambda>kwargs. Inr (sys @ out, kwargs)))))"

section \<open>Responses for Anthropic clients\<close>

definition response_call :: "string \<Rightarrow> pyval \<Rightarrow> pyerror + pyval" where
  "response_call uuid v =
     py_then (get_type v) (\<lambda>tc.
     py_then (get_type (dget_or tc ''function'' (PDict []))) (\<lambda>func.
     py_then (case dget_or func ''arguments'' (PStr ''{}'') of
         PDict d \<Rightarrow> Inr (PDict d)
       | PStr s \<Rightarrow> Inr (case json_loads s of Some x \<Rightarrow> x | None \<Rightarrow> PDict [])
       | _ \<Rightarrow> Inl TypeError) (\<lambda>input.
     Inr (tool_use_block (sanitize_anthropic_tool_id uuid (dget tc ''id'')) (sanitize_anthropic_tool_name (dget func ''name'')) input))))"

definition response_blocks :: "(nat \<Rightarrow> string) \<Rightarrow> pydict \<Rightarrow> pyerror + pyval list" where
  "response_blocks uuids message =
     (let content = py_or (dget_or message ''content'' (PStr [])) (PStr []);
          thinking = py_or (dget_or message ''reasoning_content'' (PStr [])) (PStr []) in
      py_then (py_iter (py_or (dget_or message ''tool_calls'' (PList [])) (PList []))) (\<lambda>tcs.
      py_then (traverse (\<lambda>(k, tc). response_call (uuids k) tc) (enumerate 0 tcs)) (\<lambda>calls.
        let blocks = (if truthy thinking then [thinking_block SYNTHETIC_SIGNATURE thinking] else []) @
              (if truthy content then [PDict [(''type'', PStr ''text''), (''text'', content)]] else []) @ calls
        in Inr (if blocks = [] then [text_block []] else blocks))))"

definition openai_to_anthropic_response :: "string \<Rightarrow> (nat \<Rightarrow> string) \<Rightarrow> string \<Rightarrow> pydict \<Rightarrow> pyerror + pydict" where
  "openai_to_anthropic_response gen uuids model resp =
     py_then (first_choice (py_or (dget resp ''choices'') (PList [PDict []]))) (\<lambda>choice.
     py_then (get_type (py_or (dget_or choice ''message'' (PDict [])) (PDict []))) (\<lambda>message.
     let finish_reason = py_or (dget_or choice ''finish_reason'' (PStr ''stop'')) (PStr ''stop'') in
     py_then (response_blocks uuids message) (\<lambda>blocks.
     if \<not> hashable finish_reason then Inl TypeError
     else py_then (get_type (dget_or resp ''usage'' (PDict []))) (\<lambda>usage.
       Inr [(''id'', py_or (dget resp ''id'') (PStr gen)), (''type'', PStr ''message''), (''role'', PStr ''assistant''),
         (''content'', PList blocks), (''model'', PStr model), (''stop_reason'', PStr (stop_reason finish_reason)), (''stop_sequence'', PNone),
         (''usage'', PDict [(''input_tokens'', dget_or usage ''prompt_tokens'' (PInt 0)),
            (''output_tokens'', dget_or usage ''completion_tokens'' (PInt 0))])]))))"

end
