(* ===== verification/Lub_ConvertProps.thy ===== *)
theory Lub_ConvertProps
  imports Lub_ConvertBack Lub_MessagesProps
begin

text \<open>
  Properties of the conversions between the OpenAI and the Anthropic format: what is sent to an Anthropic
  upstream satisfies its restrictions, calls and results stay paired, and a conversation of an Anthropic
  client survives the way to the OpenAI format and back.
\<close>

section \<open>Blocks that the conversion makes\<close>

definition legal_name :: "string \<Rightarrow> bool" where
  "legal_name s \<longleftrightarrow> legal s \<and> length s \<le> 64"

definition made_block :: "pyval \<Rightarrow> bool" where
  "made_block b \<longleftrightarrow> (\<exists>t. b = text_block t) \<or> (\<exists>src. b = PDict [(''type'', PStr ''image''), (''source'', src)]) \<or>
     (\<exists>i n d. b = tool_use_block i n (PDict d) \<and> legal i \<and> legal_name n) \<or>
     (\<exists>i c. b = PDict [(''type'', PStr ''tool_result''), (''tool_use_id'', PStr i), (''content'', c)] \<and> legal i) \<or>
     (\<exists>v. b = thinking_block [] v)"

lemmas block_defs = text_block_def tool_use_block_def thinking_block_def

lemma traverse_all: "traverse f xs = Inr ys \<Longrightarrow> y \<in> set ys \<Longrightarrow> \<exists>x \<in> set xs. f x = Inr y"
  by (induction xs arbitrary: ys) (auto simp: returns_iff)

lemma traverse_map: "traverse f xs = Inr ys \<longleftrightarrow> map f xs = map Inr ys"
proof (induction xs arbitrary: ys)
  case (Cons x xs)
  then show ?case by (cases ys) (auto simp: returns_iff)
qed auto

lemma name_fixed: "legal_name n \<Longrightarrow> sanitize_anthropic_tool_name (PStr n) = n"
  by (auto simp: legal_name_def sanitize_anthropic_tool_name_def ANTHROPIC_TOOL_NAME_MAX_def legal_strip legal_allowed Let_def) (auto simp: legal_def)

lemma part_made: "content_part_block role v = Inr b \<Longrightarrow> made_block b"
  by (auto simp: content_part_block_def made_block_def returns_iff Let_def split: pyval.splits if_splits)

lemma made_intros [simp]:
  "made_block (text_block t)" "made_block (thinking_block [] v)"
  "legal i \<Longrightarrow> legal_name n \<Longrightarrow> made_block (tool_use_block i n (PDict d))"
  "legal i \<Longrightarrow> made_block (PDict [(''type'', PStr ''tool_result''), (''tool_use_id'', PStr i), (''content'', c)])"
  unfolding made_block_def by blast+

lemma legal_name_sanitized [simp]: "legal_name (sanitize_anthropic_tool_name v)"
  using tool_name_legal by (simp add: legal_name_def)

lemma content_made: "openai_content_to_anthropic_blocks role c = Inr bs \<Longrightarrow> b \<in> set bs \<Longrightarrow> made_block b"
  by (auto simp: openai_content_to_anthropic_blocks_def returns_iff simp del: traverse.simps split: pyval.splits if_splits
    dest!: traverse_all part_made)

lemma call_made: "call_block uuid v = Some b \<Longrightarrow> legal uuid \<Longrightarrow> made_block b"
  by (auto simp: call_block_def Let_def tool_id_legal split: pyval.splits)

lemma calls_made:
  assumes "\<forall>k. legal (uuids k)" and "openai_tool_calls_to_anthropic_blocks uuids v = Inr bs" and "b \<in> set bs"
  shows "made_block b"
  using assms by (auto simp: openai_tool_calls_to_anthropic_blocks_def returns_iff set_map_filter_iff) (metis call_made)

lemma result_made: "legal uuid \<Longrightarrow> made_block (openai_tool_message_to_anthropic_block uuid msg)"
  by (simp add: openai_tool_message_to_anthropic_block_def tool_id_legal)

definition made_message :: "pyval \<Rightarrow> bool" where
  "made_message m \<longleftrightarrow> (\<exists>r bs. (r = ''user'' \<or> r = ''assistant'') \<and> m = anthropic_message r (blocks_val bs) \<and> (\<forall>b \<in> set bs. made_block b))"

lemma blocks_made: "\<forall>k. legal (uuids k) \<Longrightarrow> message_blocks uuids r msg = Inr bs \<Longrightarrow> \<forall>b \<in> set bs. made_block b"
  by (auto simp: message_blocks_def assistant_part_def returns_iff Let_def split: if_splits dest: content_made calls_made)

lemma message_made:
  assumes "\<forall>k. legal (uuids k)" and "convert_message uuids m = Inr (sys, out)" and "x \<in> set out"
  shows "made_message x"
proof -
  have blocks: "made_message (anthropic_message r (blocks_val bs))" if "r = ''user'' \<or> r = ''assistant''" "\<forall>b \<in> set bs. made_block b" for r bs
    using that unfolding made_message_def by blast
  have "PList [b] = blocks_val [b]" for b by (simp add: blocks_val_def)
  with assms show ?thesis
    by (auto simp: convert_message_def returns_iff Let_def result_made blocks blocks_made [OF assms(1)] split: pyval.splits if_splits)
qed

lemma messages_made:
  assumes "\<forall>i k. legal (uuids i k)" and "openai_messages_to_anthropic_messages uuids ms = Inr (sys, out)" and "x \<in> set out"
  shows "made_message x"
proof -
  from assms(2,3) obtain parts p where "traverse (\<lambda>(i, m). convert_message (uuids i) m) (enumerate 0 ms) = Inr parts"
    and "p \<in> set parts" "x \<in> set (snd p)" by (auto simp: openai_messages_to_anthropic_messages_def returns_iff)
  from traverse_all [OF this(1,2)] obtain i m where "convert_message (uuids i) m = Inr p" by auto
  with \<open>x \<in> set (snd p)\<close> assms(1) show ?thesis by (cases p) (simp add: message_made [of "uuids i" m])
qed

section \<open>The request that is sent\<close>

definition content_blocks :: "pyval \<Rightarrow> pyval list" where
  "content_blocks m = (case msg_get m ''content'' of PList bs \<Rightarrow> bs | _ \<Rightarrow> [])"

definition messages_of :: "pydict \<Rightarrow> pyval list" where
  "messages_of body = (case dget body ''messages'' of PList ms \<Rightarrow> ms | _ \<Rightarrow> [])"

definition str_at :: "(string \<Rightarrow> bool) \<Rightarrow> pydict \<Rightarrow> string \<Rightarrow> bool" where
  "str_at P d k = (case dget d k of PStr s \<Rightarrow> P s | _ \<Rightarrow> False)"

definition block_accepted :: "pyval \<Rightarrow> bool" where
  \<comment> \<open>what an Anthropic upstream requires of a block without its own signatures\<close>
  "block_accepted b = (case b of
      PDict d \<Rightarrow>
        (if dget d ''type'' = PStr ''tool_use'' then str_at legal d ''id'' \<and> str_at legal_name d ''name'' \<and> is_pdict (dget d ''input'')
         else if dget d ''type'' = PStr ''tool_result'' then str_at legal d ''tool_use_id''
         else dget d ''type'' \<noteq> PStr ''thinking'')
    | _ \<Rightarrow> False)"

definition message_accepted :: "pyval \<Rightarrow> bool" where
  "message_accepted m \<longleftrightarrow> (has_role ''user'' m \<or> has_role ''assistant'' m) \<and> list_all block_accepted (content_blocks m)"

lemma made_accepted: "made_block b \<Longrightarrow> \<not> unsigned b \<Longrightarrow> block_accepted b"
  by (auto simp: made_block_def block_accepted_def block_defs str_at_def is_pdict_def unsigned_def strip_def lstrip_def rstrip_def)

lemma made_fixed: "made_block b \<Longrightarrow> sanitize_block uuid b = b"
  by (auto simp: made_block_def sanitize_block_def block_defs tool_id_fixed name_fixed Let_def)

lemma sanitize_made:
  assumes "made_message m"
  shows "message_accepted (on_content drop_unsigned (on_content (\<lambda>bs. PList (map (\<lambda>(k, b). sanitize_block (u k) b) (enumerate n bs))) m))"
proof -
  from assms obtain r bs where m: "r = ''user'' \<or> r = ''assistant''" "m = anthropic_message r (blocks_val bs)"
    and made: "\<forall>b \<in> set bs. made_block b" by (auto simp: made_message_def)
  have "map (\<lambda>(k, b). sanitize_block (u k) b) (enumerate n bs) = map snd (enumerate n bs)"
    using made by (intro map_cong) (auto simp: made_fixed in_set_enumerate_eq)
  then have "on_content (\<lambda>bs. PList (map (\<lambda>(k, b). sanitize_block (u k) b) (enumerate n bs))) m = m"
    by (simp add: m anthropic_message_def on_content_def blocks_val_def)
  moreover have "content_blocks (on_content drop_unsigned m) = filter (Not \<circ> unsigned) bs"
    by (auto simp: m anthropic_message_def on_content_def blocks_val_def drop_unsigned_def content_blocks_def msg_get_def Let_def filter_id_conv)
      (metis filter_id_conv length_filter_less nat_neq_iff comp_apply)
  moreover have "has_role r (on_content drop_unsigned m)"
    by (auto simp: m anthropic_message_def on_content_def blocks_val_def has_role_def msg_get_def)
  ultimately show ?thesis using m(1) made made_accepted by (auto simp: message_accepted_def list_all_iff)
qed

lemma map_sum_returns: "map_sum f g x = Inr y \<longleftrightarrow> (\<exists>z. x = Inr z \<and> y = g z)"
  by (cases x) auto

lemma dget_some [simp]: "dget (dset_some k v d) k' = (if k' = k \<and> v \<noteq> PNone then v else dget d k')"
  by (simp add: dset_some_def dget_dset)

lemma dget_passed: "k \<notin> set ks \<Longrightarrow> dget (fold (\<lambda>k. dset_some k (f k)) ks d) k = dget d k"
  by (induction ks arbitrary: d) auto

lemma parts_keep_messages:
  "dget (with_stop payload d) ''messages'' = dget d ''messages''"
  "dget (with_effort payload d) ''messages'' = dget d ''messages''"
  "dget (drop_tool_choice_without_tools d) ''messages'' = dget d ''messages''"
  "with_tools payload d = Inr d' \<Longrightarrow> dget d' ''messages'' = dget d ''messages''"
  "with_tool_choice payload d = Inr d' \<Longrightarrow> dget d' ''messages'' = dget d ''messages''"
  by (auto simp: with_stop_def with_effort_def drop_tool_choice_without_tools_def with_tools_def with_tool_choice_def
    returns_iff Let_def dget_dset split: pyval.splits list.splits if_splits)

lemma request_messages: "anthropic_request payload sys out = Inr data \<Longrightarrow> dget data ''messages'' = PList out"
  by (auto simp: anthropic_request_def returns_iff Let_def dget_passed PASSED_KEYS_def dget_dset parts_keep_messages(1-3)
    dest!: parts_keep_messages(4,5) simp del: fold_simps)

text \<open>
  C22. Whatever an OpenAI client sends, the messages that reach an Anthropic upstream are acceptable to it, or
  the request is refused: messages are of the user or the assistant, ids and names of tools are of the allowed
  form, inputs are objects, and no thinking block is left, because the thinking of an OpenAI client has no
  signature of the upstream.
\<close>
theorem anthropic_request_accepted:
  assumes "\<forall>i k. legal (uuids i k)" and "openai_request_to_anthropic uuids payload = Inr data"
  shows "list_all message_accepted (messages_of (sanitize_anthropic_request_body uuids data))"
proof -
  from assms(2) obtain ms sys out where conv: "openai_messages_to_anthropic_messages uuids ms = Inr (sys, out)"
    and data: "anthropic_request payload sys out = Inr data"
    by (auto simp: openai_request_to_anthropic_def returns_iff map_sum_returns split: sum.splits)
  have "\<forall>m \<in> set out. made_message m" using messages_made [OF assms(1) conv] by blast
  then show ?thesis using request_messages [OF data] sanitize_made
    by (auto simp: sanitize_anthropic_request_body_def sanitize_anthropic_tool_ids_in_body_def on_messages_def messages_of_def dget_dset
      list_all_iff in_set_enumerate_eq nth_enumerate_eq)
qed

section \<open>Calls and results\<close>

definition id_at :: "string \<Rightarrow> string \<Rightarrow> pyval \<Rightarrow> pyval option" where
  \<comment> \<open>the id under a key of a block of a type\<close>
  "id_at t k b = (if msg_get b ''type'' = PStr t then Some (msg_get b k) else None)"

definition use_ids :: "pyval list \<Rightarrow> pyval list" where
  "use_ids ms = concat (map (List.map_filter (id_at ''tool_use'' ''id'') \<circ> content_blocks) ms)"

definition answered_ids :: "pyval list \<Rightarrow> pyval list" where
  "answered_ids ms = concat (map (List.map_filter (id_at ''tool_result'' ''tool_use_id'') \<circ> content_blocks) ms)"

definition clean_id :: "pyval \<Rightarrow> pyval" where
  "clean_id v = PStr (sanitize_anthropic_tool_id [] v)"

definition named :: "pyval \<Rightarrow> bool" where
  "named v \<longleftrightarrow> strip (text_or v []) \<noteq> []"

lemma named_clean: "named v \<Longrightarrow> PStr (sanitize_anthropic_tool_id uuid v) = clean_id v"
proof -
  have "s \<noteq> [] \<Longrightarrow> replace_illegal s \<noteq> []" for s using replaced_legal by (auto simp: legal_def)
  then show "named v \<Longrightarrow> PStr (sanitize_anthropic_tool_id uuid v) = clean_id v"
    by (auto simp: named_def clean_id_def sanitize_anthropic_tool_id_def Let_def)
qed

lemma map_filter_append [simp]: "List.map_filter f (xs @ ys) = List.map_filter f xs @ List.map_filter f ys"
  by (induction xs) (auto simp: List.map_filter_simps split: option.splits)

lemma no_ids: "\<forall>x \<in> set xs. f x = None \<Longrightarrow> List.map_filter f xs = []"
  by (induction xs) (auto simp: List.map_filter_simps)

lemma part_no_ids: "content_part_block role v = Inr b \<Longrightarrow> t \<in> {''tool_use'', ''tool_result''} \<Longrightarrow> id_at t k b = None"
  by (auto simp: content_part_block_def id_at_def msg_get_def text_block_def returns_iff Let_def split: pyval.splits if_splits)

lemma content_no_ids:
  assumes "openai_content_to_anthropic_blocks role c = Inr bs" and "t \<in> {''tool_use'', ''tool_result''}"
  shows "List.map_filter (id_at t k) bs = []"
proof (rule no_ids, rule ballI)
  fix b assume "b \<in> set bs"
  moreover have "id_at t k (text_block s) = None" for s using assms(2) by (auto simp: id_at_def msg_get_def text_block_def)
  ultimately show "id_at t k b = None" using assms part_no_ids
    by (auto simp: openai_content_to_anthropic_blocks_def simp del: traverse.simps split: pyval.splits if_splits dest!: traverse_all)
qed

definition all_named :: "pyval \<Rightarrow> bool" where
  "all_named m \<longleftrightarrow> list_all (\<lambda>tc. is_pdict tc \<longrightarrow> named (msg_get tc ''id'')) (calls_of m) \<and> (has_role ''tool'' m \<longrightarrow> named (result_id m))"

lemma named_truthy: "named v \<Longrightarrow> truthy v"
  by (rule ccontr) (simp add: named_def text_or_def py_or_def py_str_def strip_def lstrip_def rstrip_def)

lemma set_ids_of: "x \<in> set (ids_of calls) \<longleftrightarrow> truthy x \<and> (\<exists>tc \<in> set calls. is_pdict tc \<and> msg_get tc ''id'' = x)"
  by (auto simp: ids_of_def)

lemma call_block_id:
  "call_block uuid tc = Some b \<Longrightarrow>
     is_pdict tc \<and> id_at ''tool_use'' ''id'' b = Some (PStr (sanitize_anthropic_tool_id uuid (msg_get tc ''id''))) \<and> id_at ''tool_result'' k b = None"
  by (auto simp: call_block_def id_at_def msg_get_def tool_use_block_def is_pdict_def Let_def split: pyval.splits)

lemma call_block_exists: "is_pdict tc \<Longrightarrow> \<exists>b. call_block uuid tc = Some b"
  by (auto simp: call_block_def is_pdict_def Let_def split: pyval.splits)

lemma calls_ids:
  assumes "openai_tool_calls_to_anthropic_blocks uuids v = Inr bs"
    and "list_all (\<lambda>tc. is_pdict tc \<longrightarrow> named (msg_get tc ''id'')) xs" and "v = PList xs"
  shows "set (List.map_filter (id_at ''tool_use'' ''id'') bs) = clean_id ` set (ids_of xs)"
proof -
  have xs: "py_iter (py_or (PList xs) (PList [])) = Inr xs" by (simp add: py_or_def py_iter_def)
  have bs: "bs = List.map_filter (\<lambda>(k, tc). call_block (uuids k) tc) (enumerate 0 xs)"
    using assms(1,3) by (auto simp: openai_tool_calls_to_anthropic_blocks_def xs)
  have ok: "named (msg_get tc ''id'')" if "tc \<in> set xs" "is_pdict tc" for tc using assms(2) that by (simp add: list_all_iff)
  show ?thesis
  proof (intro equalityI subsetI)
    fix x assume "x \<in> set (List.map_filter (id_at ''tool_use'' ''id'') bs)"
    then obtain k tc b where b: "(k, tc) \<in> set (enumerate 0 xs)" "call_block (uuids k) tc = Some b" "id_at ''tool_use'' ''id'' b = Some x"
      by (auto simp: bs set_map_filter_iff)
    then have tc: "tc \<in> set xs" "is_pdict tc" using call_block_id [OF b(2)] by (auto simp: in_set_enumerate_eq)
    with call_block_id [OF b(2)] b(3) named_clean [OF ok [OF tc]] have "x = clean_id (msg_get tc ''id'')" by simp
    moreover have "msg_get tc ''id'' \<in> set (ids_of xs)" using tc named_truthy [OF ok [OF tc]] by (auto simp: set_ids_of)
    ultimately show "x \<in> clean_id ` set (ids_of xs)" by blast
  next
    fix x assume "x \<in> clean_id ` set (ids_of xs)"
    then obtain tc where tc: "tc \<in> set xs" "is_pdict tc" "x = clean_id (msg_get tc ''id'')" by (auto simp: set_ids_of)
    then obtain k where k: "(k, tc) \<in> set (enumerate 0 xs)" using set_map [of snd "enumerate 0 xs"] by auto
    moreover obtain b where b: "call_block (uuids k) tc = Some b" using call_block_exists tc(2) by blast
    ultimately have "b \<in> set bs" by (auto simp: bs set_map_filter_iff intro!: bexI [of _ "(k, tc)"])
    moreover have "id_at ''tool_use'' ''id'' b = Some x" using call_block_id [OF b] named_clean [OF ok [OF tc(1,2)]] tc(3) by simp
    ultimately show "x \<in> set (List.map_filter (id_at ''tool_use'' ''id'') bs)" by (auto simp: set_map_filter_iff)
  qed
qed

lemma calls_not_list:
  assumes "openai_tool_calls_to_anthropic_blocks uuids v = Inr bs" and "\<forall>xs. v \<noteq> PList xs"
  shows "bs = []"
proof -
  have "py_iter (py_or v (PList [])) = Inr xs \<Longrightarrow> \<forall>x \<in> set xs. \<not> is_pdict x" for xs
    using assms(2) by (auto simp: py_iter_def py_or_def is_pdict_def split: pyval.splits if_splits)
  moreover have "call_block uuid x = None" if "\<not> is_pdict x" for uuid x
    using that by (simp add: call_block_def is_pdict_def split: pyval.splits)
  ultimately show ?thesis using assms(1)
    by (auto simp: openai_tool_calls_to_anthropic_blocks_def returns_iff in_set_enumerate_eq intro!: no_ids)
qed

lemma calls_no_results: "openai_tool_calls_to_anthropic_blocks uuids v = Inr bs \<Longrightarrow> List.map_filter (id_at ''tool_result'' k) bs = []"
  by (rule no_ids) (auto simp: openai_tool_calls_to_anthropic_blocks_def returns_iff set_map_filter_iff dest: call_block_id)

lemma thinking_no_ids: "t \<in> {''tool_use'', ''tool_result''} \<Longrightarrow> id_at t k (thinking_block sg v) = None"
  by (auto simp: id_at_def msg_get_def thinking_block_def)

lemma assistant_blocks_ids:
  assumes "message_blocks uuids ''assistant'' msg = Inr bs" and "all_named (PDict msg)" and "dget msg ''role'' = PStr ''assistant''"
  shows "set (List.map_filter (id_at ''tool_use'' ''id'') bs) = clean_id ` set (ids_of (calls_of (PDict msg)))"
    and "List.map_filter (id_at ''tool_result'' ''tool_use_id'') bs = []"
proof -
  let ?v = "dget msg ''tool_calls''"
  let ?th = "if truthy (dget msg ''reasoning_content'') then [thinking_block [] (PStr (text_or (dget msg ''reasoning_content'') []))] else []"
  obtain cs calls where bs: "bs = ?th @ cs @ calls"
    and cs: "openai_content_to_anthropic_blocks ''assistant'' (dget_or msg ''content'' (PStr [])) = Inr cs"
    and calls: "if truthy ?v then openai_tool_calls_to_anthropic_blocks uuids ?v = Inr calls else calls = []"
    using assms(1) by (auto simp: message_blocks_def assistant_part_def returns_iff Let_def split: if_splits)
  have c: "calls_of (PDict msg) = (case ?v of PList xs \<Rightarrow> xs | _ \<Rightarrow> [])"
    using assms(3) by (simp add: calls_of_def has_role_def msg_get_def)
  have ids: "set (List.map_filter (id_at ''tool_use'' ''id'') calls) = clean_id ` set (ids_of (calls_of (PDict msg)))"
  proof (cases "\<exists>xs. ?v = PList xs \<and> xs \<noteq> []")
    case True
    then obtain xs where "?v = PList xs" "xs \<noteq> []" by blast
    with calls assms(2) c show ?thesis by (simp add: calls_ids all_named_def)
  next
    case False
    then have "calls = []" using calls calls_not_list by (cases ?v) (auto split: if_splits)
    with False c show ?thesis by (cases ?v) (auto simp: ids_of_def List.map_filter_simps)
  qed
  then show "set (List.map_filter (id_at ''tool_use'' ''id'') bs) = clean_id ` set (ids_of (calls_of (PDict msg)))"
    by (auto simp: bs content_no_ids [OF cs] List.map_filter_simps thinking_no_ids)
  have "List.map_filter (id_at ''tool_result'' ''tool_use_id'') calls = []"
    using calls calls_no_results by (auto simp: List.map_filter_simps split: if_splits)
  then show "List.map_filter (id_at ''tool_result'' ''tool_use_id'') bs = []"
    by (auto simp: bs content_no_ids [OF cs] List.map_filter_simps thinking_no_ids)
qed

lemma user_blocks_ids:
  assumes "message_blocks uuids ''user'' msg = Inr bs" and "t \<in> {''tool_use'', ''tool_result''}"
  shows "List.map_filter (id_at t k) bs = []"
  using assms by (auto simp: message_blocks_def assistant_part_def returns_iff Let_def dest: content_no_ids)

lemma content_blocks_message [simp]: "content_blocks (anthropic_message r (blocks_val bs)) = bs" "content_blocks (anthropic_message r (PList bs)) = bs"
  by (simp_all add: content_blocks_def anthropic_message_def blocks_val_def msg_get_def)

lemma message_ids:
  assumes "convert_message uuids m = Inr (sys, out)" and "all_named m"
  shows "set (use_ids out) = clean_id ` set (ids_of (calls_of m))"
    and "set (answered_ids out) = (if has_role ''tool'' m then {clean_id (result_id m)} else {})"
proof -
  from assms(1) obtain msg where m: "m = PDict msg" by (cases m) (auto simp: convert_message_def)
  let ?role = "py_or (dget msg ''role'') (PStr ''user'')"
  have role: "?role = PStr r \<Longrightarrow> r \<noteq> ''user'' \<Longrightarrow> dget msg ''role'' = PStr r" for r by (auto simp: py_or_def split: if_splits)
  have none: "calls_of m = []" if "dget msg ''role'' \<noteq> PStr ''assistant''" using that by (simp add: m calls_of_def has_role_def msg_get_def)
  consider (sys) "?role = PStr ''system'' \<or> ?role = PStr ''developer''" | (tool) "?role = PStr ''tool''"
    | (user) "?role = PStr ''user''" | (assistant) "?role = PStr ''assistant''"
    using assms(1) by (auto simp: m convert_message_def Let_def split: if_splits)
  then have "set (use_ids out) = clean_id ` set (ids_of (calls_of m)) \<and>
    set (answered_ids out) = (if has_role ''tool'' m then {clean_id (result_id m)} else {})"
  proof cases
    case sys
    then have "dget msg ''role'' \<in> {PStr ''system'', PStr ''developer''}" using role by auto
    with assms(1) sys none show ?thesis
      by (auto simp: m convert_message_def returns_iff Let_def use_ids_def answered_ids_def has_role_def msg_get_def ids_of_def)
  next
    case tool
    then have r: "dget msg ''role'' = PStr ''tool''" using role by simp
    then have n: "named (dget msg ''tool_call_id'')" using assms(2) by (simp add: all_named_def m has_role_def msg_get_def result_id_def)
    with r assms(1) tool none named_clean [OF n] named_truthy [OF n] show ?thesis
      by (auto simp: m convert_message_def Let_def use_ids_def answered_ids_def has_role_def msg_get_def ids_of_def result_id_def
        openai_tool_message_to_anthropic_block_def id_at_def List.map_filter_simps py_or_def)
  next
    case user
    then have r: "dget msg ''role'' \<noteq> PStr ''assistant''" "dget msg ''role'' \<noteq> PStr ''tool''" by (auto simp: py_or_def split: if_splits)
    from assms(1) user obtain bs where bs: "message_blocks uuids ''user'' msg = Inr bs"
      and out: "out = [anthropic_message ''user'' (blocks_val bs)]" by (auto simp: m convert_message_def returns_iff Let_def)
    from user_blocks_ids [OF bs] out r none show ?thesis
      by (simp add: m use_ids_def answered_ids_def has_role_def msg_get_def ids_of_def)
  next
    case assistant
    then have r: "dget msg ''role'' = PStr ''assistant''" using role by simp
    from assms(1) assistant obtain bs where bs: "message_blocks uuids ''assistant'' msg = Inr bs"
      and out: "out = [anthropic_message ''assistant'' (blocks_val bs)]" by (auto simp: m convert_message_def returns_iff Let_def)
    from assistant_blocks_ids [OF bs _ r] assms(2) out r show ?thesis
      by (simp add: m use_ids_def answered_ids_def has_role_def msg_get_def)
  qed
  then show "set (use_ids out) = clean_id ` set (ids_of (calls_of m))"
    and "set (answered_ids out) = (if has_role ''tool'' m then {clean_id (result_id m)} else {})" by blast+
qed

lemma use_ids_append: "use_ids (xs @ ys) = use_ids xs @ use_ids ys" and answered_append: "answered_ids (xs @ ys) = answered_ids xs @ answered_ids ys"
  by (simp_all add: use_ids_def answered_ids_def)

lemma turns_ids:
  assumes "traverse (\<lambda>(i, m). convert_message (uuids i) m) (enumerate n ms) = Inr parts" and "\<forall>m \<in> set ms. all_named m"
  shows "set (use_ids (concat (map snd parts))) = clean_id ` set (call_ids ms) \<and>
         set (answered_ids (concat (map snd parts))) = clean_id ` set (result_ids ms)"
  using assms
proof (induction ms arbitrary: n parts)
  case Nil
  then show ?case by (simp add: use_ids_def answered_ids_def call_ids_def result_ids_def)
next
  case (Cons m ms)
  then obtain sys out rest where p: "convert_message (uuids n) m = Inr (sys, out)" "parts = (sys, out) # rest"
    and rest: "traverse (\<lambda>(i, m). convert_message (uuids i) m) (enumerate (Suc n) ms) = Inr rest"
    by (auto simp: returns_iff)
  have "set (use_ids out) = clean_id ` set (ids_of (calls_of m))"
    and "set (answered_ids out) = clean_id ` set (result_ids [m])"
    using message_ids [OF p(1)] Cons.prems(2) named_truthy by (auto simp: result_ids_def all_named_def)
  with Cons.IH [OF rest] Cons.prems(2) show ?case
    by (auto simp: p(2) use_ids_append answered_append call_ids_def result_ids_def)
qed

lemma cleaned_named:
  assumes "cleaned keep m = Some m'" and "\<forall>x \<in> keep. named x"
  shows "all_named m'"
proof (cases "has_role ''tool'' m \<or> calls_of m = []")
  case True
  with assms show ?thesis by (auto simp: cleaned_def all_named_def tool_no_calls split: if_splits)
next
  case False
  let ?kept = "kept_calls keep (calls_of m)"
  have "m' = (if length ?kept = length (calls_of m) then m else with_calls ?kept m)"
    using assms(1) False by (simp add: cleaned_def Let_def)
  then have "calls_of m' = ?kept" using False all_kept [of keep "calls_of m"] calls_with_calls [of m ?kept] by presburger
  moreover have "\<not> has_role ''tool'' m'" using cleaned_role [OF assms(1)] False by simp
  ultimately show ?thesis using assms(2) by (auto simp: all_named_def list_all_iff kept_calls_def)
qed

text \<open>
  C23. Calls and results that the cleanup has paired stay paired in the Anthropic format: the ids of the tool-use
  blocks and the ids the result blocks refer to are the same, namely the sanitised ids of the calls that have a
  result. The ids must not be blank, and there must be one.
\<close>
theorem converted_pairs_stay_paired:
  assumes "call_ids ms \<noteq> [] \<or> result_ids ms \<noteq> []" and "list_all named (call_ids ms)"
    and "openai_messages_to_anthropic_messages uuids (cleanup_orphan_tool_calls ms) = Inr (sys, out)"
  shows "set (use_ids out) = set (answered_ids out) \<and> set (use_ids out) = clean_id ` (set (call_ids ms) \<inter> set (result_ids ms))"
proof -
  let ?keep = "set (call_ids ms) \<inter> set (result_ids ms)" and ?ms = "cleanup_orphan_tool_calls ms"
  have ms: "?ms = List.map_filter (cleaned ?keep) ms" using assms(1) by (auto simp: cleanup_orphan_tool_calls_def)
  have "\<forall>m \<in> set ?ms. all_named m"
    using assms(2) cleaned_named [of ?keep] by (auto simp: ms set_map_filter_iff list_all_iff)
  with turns_ids assms(3) have "set (use_ids out) = clean_id ` set (call_ids ?ms)" "set (answered_ids out) = clean_id ` set (result_ids ?ms)"
    by (auto simp: openai_messages_to_anthropic_messages_def returns_iff)
  with cleaned_ids [OF refl, of ms] show ?thesis by (simp add: ms)
qed

section \<open>Witnesses\<close>

definition sample_call :: pyval where
  "sample_call = PDict [(''id'', PStr ''f.1''), (''function'', PDict [(''name'', PStr ''find''), (''arguments'', PStr ''{}'')])]"

definition sample_messages :: "pyval list" where
  "sample_messages = [PDict [(''role'', PStr ''user''), (''content'', PStr ''hi'')],
     PDict [(''role'', PStr ''assistant''), (''reasoning_content'', PStr ''hm''), (''tool_calls'', PList [sample_call])],
     PDict [(''role'', PStr ''tool''), (''tool_call_id'', PStr ''f.1''), (''content'', PStr ''ok'')]]"

definition sample_payload :: pydict where
  "sample_payload = [(''model'', PStr ''m''), (''messages'', PList sample_messages), (''stream'', PBool True)]"

lemma sample_converts:
  "\<not> isl (openai_request_to_anthropic (\<lambda>i k. ''u'') sample_payload)"
  "\<not> isl (openai_messages_to_anthropic_messages (\<lambda>i k. ''u'') (cleanup_orphan_tool_calls sample_messages))"
  by (code_simp, code_simp)

lemma legal_u: "legal ''u''"
  by (simp add: legal_def id_char_def)

theorem anthropic_request_accepted_witness:
  "\<exists>data. openai_request_to_anthropic (\<lambda>i k. ''u'') sample_payload = Inr data \<and>
     list_all message_accepted (messages_of (sanitize_anthropic_request_body (\<lambda>i k. ''u'') data))"
proof -
  obtain data where "openai_request_to_anthropic (\<lambda>i k. ''u'') sample_payload = Inr data"
    using sample_converts(1) by (cases "openai_request_to_anthropic (\<lambda>i k. ''u'') sample_payload") auto
  with anthropic_request_accepted [of "\<lambda>i k. ''u''" sample_payload data] legal_u show ?thesis by blast
qed

theorem converted_pairs_stay_paired_witness:
  "\<exists>sys out. openai_messages_to_anthropic_messages (\<lambda>i k. ''u'') (cleanup_orphan_tool_calls sample_messages) = Inr (sys, out) \<and>
     set (use_ids out) = set (answered_ids out)"
proof -
  obtain sys out where r: "openai_messages_to_anthropic_messages (\<lambda>i k. ''u'') (cleanup_orphan_tool_calls sample_messages) = Inr (sys, out)"
    using sample_converts(2) by (cases "openai_messages_to_anthropic_messages (\<lambda>i k. ''u'') (cleanup_orphan_tool_calls sample_messages)") auto
  have "call_ids sample_messages = [PStr ''f.1'']" by code_simp
  moreover have "named (PStr ''f.1'')" by code_simp
  ultimately show ?thesis using converted_pairs_stay_paired [OF _ _ r] r by simp
qed

end
