(* ===== verification/Lub_JsonProps.thy ===== *)
theory Lub_JsonProps
  imports Lub_Json
begin

text \<open>
  What \<open>json.dumps\<close> writes, \<open>json.loads\<close> reads back: for every value without floats whose dictionaries have
  distinct keys (as every Python dictionary has).
\<close>

fun json_ok :: "pyval \<Rightarrow> bool" where
  "json_ok (PFloat r) = False"
| "json_ok (PList xs) = (\<forall>x \<in> set xs. json_ok x)"
| "json_ok (PDict d) = (distinct (map fst d) \<and> (\<forall>p \<in> set d. json_ok (snd p)))"
| "json_ok _ = True"

definition delimited :: "string \<Rightarrow> bool" where
  \<comment> \<open>nothing follows that could belong to a number\<close>
  "delimited r \<longleftrightarrow> (case r of [] \<Rightarrow> True | c # _ \<Rightarrow> c = CHR '','' \<or> c = CHR '']'' \<or> c = CHR ''}'')"

lemma delimited_simps [simp]: "delimited []" "delimited (CHR '','' # r)" "delimited (CHR '']'' # r)" "delimited (CHR ''}'' # r)"
  by (simp_all add: delimited_def)

section \<open>Numbers\<close>

lemma is_digit_nat_str: "\<forall>c \<in> set (nat_str n). is_digit c"
  using digits_nat_str by (simp add: is_digit_def)

lemma digits_nat_append: "digits_nat (s @ [c]) = 10 * digits_nat s + the (digit_val c)"
  by (simp add: digits_nat_def)

lemma digit_val_char: "d < 10 \<Longrightarrow> digit_val (digit_char d) = Some d"
  by (auto simp: digit_val_def digit_char_def Let_def)

lemma digits_nat_str_inv: "digits_nat (nat_str n) = n"
proof (induction n rule: nat_str.induct)
  case (1 n)
  show ?case
  proof (cases "n < 10")
    case True
    then show ?thesis by (simp add: nat_str.simps [of n] digits_nat_def digit_val_char)
  next
    case False
    with 1 show ?thesis by (simp add: nat_str.simps [of n] digits_nat_append digit_val_char)
  qed
qed

lemma hd_nat_str: "0 < n \<Longrightarrow> hd (nat_str n) \<noteq> CHR ''0''"
proof (induction n rule: nat_str.induct)
  case (1 n)
  show ?case
  proof (cases "n < 10")
    case True
    have "digit_val (CHR ''0'') = Some 0" by (simp add: digit_val_def)
    with 1 True have "digit_char n \<noteq> CHR ''0''" using digit_val_char [of n] by (metis less_numeral_extra(3) option.inject)
    with True show ?thesis by (simp add: nat_str.simps [of n])
  next
    case False
    with 1 show ?thesis by (simp add: nat_str.simps [of n] hd_append)
  qed
qed

lemma nat_str_zero: "nat_str 0 = ''0''"
  by code_simp

lemma digit_delim: "delimited r \<Longrightarrow> r \<noteq> [] \<Longrightarrow> \<not> is_digit (hd r)"
  by (auto simp: delimited_def is_digit_def digit_val_def split: list.splits)

lemma digits_of_nat_str:
  assumes "delimited r"
  shows "(if take 1 (nat_str n @ r) = ''0'' then ''0'' else takeWhile is_digit (nat_str n @ r)) = nat_str n"
proof (cases "n = 0")
  case False
  then have "take 1 (nat_str n @ r) \<noteq> ''0''" using hd_nat_str [of n] by (cases "nat_str n") auto
  moreover have "takeWhile is_digit (nat_str n @ r) = nat_str n"
    using is_digit_nat_str [of n] digit_delim [OF assms] by (cases r) (auto simp: takeWhile_append)
  ultimately show ?thesis by simp
qed (simp add: nat_str_zero)

lemma not_sign: "take 1 (nat_str n @ r) \<noteq> ''-''"
proof -
  have "hd (nat_str n) \<noteq> CHR ''-''" using is_digit_nat_str [of n] by (cases "nat_str n") (auto simp: is_digit_def digit_val_def)
  then show ?thesis by (cases "nat_str n") auto
qed

lemma no_fraction: "delimited r \<Longrightarrow> take 1 r \<noteq> ''.'' \<and> take 1 r \<noteq> ''e'' \<and> take 1 r \<noteq> ''E''"
  by (auto simp: delimited_def split: list.splits)

lemma json_num_digits:
  assumes "delimited r"
  shows "json_num (nat_str n @ r) = Some (PInt (int n), r)" "json_num (CHR ''-'' # nat_str n @ r) = Some (PInt (- int n), r)"
proof -
  have f: "(take 1 r = ''.'') = False" "(take 1 r = ''e'') = False" "(take 1 r = ''E'') = False"
    and d: "drop (length (nat_str n)) (nat_str n @ r) = r" using no_fraction [OF assms] by auto
  note step = json_num_def Let_def digits_of_nat_str [OF assms] f d simp_thms if_True if_False takeWhile.simps take_Nil list.distinct
    digits_nat_str_inv nat_str_nonempty
  show "json_num (nat_str n @ r) = Some (PInt (int n), r)"
    by (simp only: step not_sign [THEN eq_False [THEN iffD2]]) simp
  have "(take 1 (CHR ''-'' # nat_str n @ r) = ''-'') = True" by simp
  then show "json_num (CHR ''-'' # nat_str n @ r) = Some (PInt (- int n), r)"
    by (simp only: step list.sel) simp
qed

lemma json_num_int: "delimited r \<Longrightarrow> json_num (int_str k @ r) = Some (PInt k, r)"
  using json_num_digits [of r "nat k"] json_num_digits [of r "nat (- k)"] by (simp add: int_str_def)

lemma int_str_ne [simp]: "int_str k \<noteq> []"
  by (simp add: int_str_def)

lemma int_str_hd: "int_str k = c # s \<Longrightarrow> is_digit c \<or> c = CHR ''-''"
  using is_digit_nat_str [of "nat k"] by (auto simp: int_str_def split: if_splits)

lemma json_val_int:
  assumes "delimited r"
  shows "json_val (Suc n) (int_str k @ r) = Some (PInt k, r)"
proof -
  obtain c s where s: "int_str k = c # s" by (cases "int_str k") auto
  then have "is_digit c \<or> c = CHR ''-''" by (rule int_str_hd)
  then have "c \<notin> set (CHR 0x22 # ''{[ntf'')" by (auto simp: is_digit_def digit_val_def)
  with json_num_int [OF assms, of k] s show ?thesis by (auto simp: literal_def startswith_def)
qed

section \<open>Values\<close>

lemma skip_ws_char [simp]:
  "skip_ws (CHR '':'' # x) = CHR '':'' # x" "skip_ws (CHR '','' # x) = CHR '','' # x" "skip_ws (CHR ''}'' # x) = CHR ''}'' # x"
  "skip_ws (CHR '']'' # x) = CHR '']'' # x" "skip_ws (CHR '' '' # x) = skip_ws x" "skip_ws (CHR 0x22 # x) = CHR 0x22 # x"
  by (simp_all add: skip_ws_def json_ws_def)

lemma dumps_hd:
  assumes "json_ok v"
  shows "\<exists>c s. json_dumps v = c # s \<and> \<not> json_ws c \<and> c \<noteq> CHR ''}'' \<and> c \<noteq> CHR '']''"
proof (cases v)
  case (PInt k)
  obtain c s where s: "int_str k = c # s" by (cases "int_str k") auto
  then have "is_digit c \<or> c = CHR ''-''" by (rule int_str_hd)
  with s PInt show ?thesis by (auto simp: is_digit_def digit_val_def json_ws_def)
qed (use assms in \<open>auto simp: json_ws_def json_quote_def\<close>)

lemma skip_ws_dumps [simp]: "json_ok v \<Longrightarrow> skip_ws (json_dumps v @ r) = json_dumps v @ r"
  using dumps_hd [of v] by (auto simp: skip_ws_def)

lemma dumps_ne [simp]: "json_ok v \<Longrightarrow> json_dumps v \<noteq> []"
  using dumps_hd [of v] by auto

definition reads_back :: "pyval \<Rightarrow> bool" where
  "reads_back v \<longleftrightarrow> (\<forall>n r. length (json_dumps v) \<le> n \<longrightarrow> delimited r \<longrightarrow> json_val n (json_dumps v @ r) = Some (v, r))"

lemma items_back:
  assumes "xs \<noteq> []" and "\<forall>x \<in> set xs. json_ok x \<and> reads_back x"
    and "length (join '', '' (map json_dumps xs)) < n"
  shows "json_items n acc (join '', '' (map json_dumps xs) @ CHR '']'' # r) = Some (PList (acc @ xs), r)"
  using assms
proof (induction xs arbitrary: n acc rule: list_nonempty_induct)
  case (single x)
  then obtain m where "n = Suc m" by (cases n) auto
  with single show ?case by (simp add: reads_back_def)
next
  case (cons x xs)
  then obtain m where n: "n = Suc m" by (cases n) auto
  obtain y ys where xs: "xs = y # ys" using cons by (cases xs) auto
  let ?rest = "join '', '' (map json_dumps xs) @ CHR '']'' # r"
  have split: "join '', '' (map json_dumps (x # xs)) @ CHR '']'' # r = json_dumps x @ CHR '','' # CHR '' '' # ?rest"
    by (simp add: xs)
  have "json_val m (json_dumps x @ CHR '','' # CHR '' '' # ?rest) = Some (x, CHR '','' # CHR '' '' # ?rest)"
    using cons.prems n by (simp add: reads_back_def xs)
  moreover have "skip_ws ?rest = ?rest" using cons.prems xs by (cases ys) simp_all
  moreover have "json_items m (acc @ [x]) ?rest = Some (PList ((acc @ [x]) @ xs), r)"
    using cons.prems n by (intro cons.IH) (auto simp: xs)
  ultimately show ?case unfolding split n by simp
qed

definition member :: "string \<times> pyval \<Rightarrow> string" where
  "member p = json_quote (fst p) @ '': '' @ json_dumps (snd p)"

lemma dset_fresh: "k \<notin> set (map fst d) \<Longrightarrow> dset d k v = d @ [(k, v)]"
  by (induction d k v rule: dset.induct) auto

lemma member_back:
  assumes "json_ok v" and "reads_back v" and "length (member (k, v)) \<le> n" and "delimited r"
  shows "json_members (Suc n) acc (member (k, v) @ r) =
    (case skip_ws r of [] \<Rightarrow> None
     | d # r3 \<Rightarrow> if d = CHR ''}'' then Some (PDict (dset acc k v), r3)
                 else if d = CHR '','' then json_members n (dset acc k v) (skip_ws r3) else None)"
proof -
  have "json_val n (json_dumps v @ r) = Some (v, r)" using assms by (simp add: reads_back_def member_def)
  then show ?thesis
    using assms(1) by (subst json_members.simps) (simp add: member_def json_quote_def json_str_quote del: json_members.simps length_concat)
qed

lemma members_back:
  assumes "d \<noteq> []" and "\<forall>p \<in> set d. json_ok (snd p) \<and> reads_back (snd p)" and "distinct (map fst (acc @ d))"
    and "length (join '', '' (map member d)) < n"
  shows "json_members n acc (join '', '' (map member d) @ CHR ''}'' # r) = Some (PDict (acc @ d), r)"
  using assms
proof (induction d arbitrary: n acc rule: list_nonempty_induct)
  case (single p)
  obtain k v where p: "p = (k, v)" by (cases p)
  from single obtain m where n: "n = Suc m" by (cases n) auto
  with single member_back [of v k m "CHR ''}'' # r" acc] show ?case by (simp add: p dset_fresh del: json_members.simps)
next
  case (cons p d)
  obtain k v where p: "p = (k, v)" by (cases p)
  from cons obtain m where n: "n = Suc m" by (cases n) auto
  obtain q qs where d: "d = q # qs" using cons by (cases d) auto
  let ?rest = "join '', '' (map member d) @ CHR ''}'' # r"
  have split: "join '', '' (map member (p # d)) @ CHR ''}'' # r = member (k, v) @ CHR '','' # CHR '' '' # ?rest"
    by (simp add: d p)
  have "skip_ws ?rest = ?rest" by (cases qs) (simp_all add: d member_def json_quote_def)
  moreover have "json_members m (acc @ [(k, v)]) ?rest = Some (PDict ((acc @ [(k, v)]) @ d), r)"
    using cons.prems n by (intro cons.IH) (auto simp: d p)
  moreover have "k \<notin> set (map fst acc)" using cons.prems by (auto simp: p)
  ultimately show ?case
    using cons.prems member_back [of v k m "CHR '','' # CHR '' '' # ?rest" acc]
    unfolding split n by (simp add: p d dset_fresh del: json_members.simps)
qed

lemma dumps_members: "json_dumps (PDict d) = CHR ''{'' # join '', '' (map member d) @ ''}''"
  by (simp add: member_def [abs_def])

lemma int_reads_back: "reads_back (PInt k)"
proof -
  have "length (int_str k) \<le> n \<Longrightarrow> delimited r \<Longrightarrow> json_val n (int_str k @ r) = Some (PInt k, r)" for n r
    by (cases n) (simp_all only: json_val_int list.size le_zero_eq length_0_conv int_str_ne)
  then show ?thesis by (simp add: reads_back_def)
qed

lemma str_reads_back: "reads_back (PStr t)"
proof -
  have "length (json_quote t) \<le> n \<Longrightarrow> delimited r \<Longrightarrow> json_val n (json_quote t @ r) = Some (PStr t, r)" for n r
    by (cases n) (simp add: json_quote_def, simp only: json_val_quote)
  then show ?thesis by (simp add: reads_back_def)
qed

lemma none_reads_back: "reads_back PNone"
  by (auto simp: reads_back_def literal_def startswith_def dest!: Suc_le_D)

lemma bool_reads_back: "reads_back (PBool b)"
  by (auto simp: reads_back_def literal_def startswith_def dest!: Suc_le_D)

lemma value_reads_back: "json_ok v \<Longrightarrow> reads_back v"
proof (induction v rule: json_ok.induct)
  case (2 xs)
  show ?case unfolding reads_back_def
  proof (intro allI impI)
    fix n r assume n: "length (json_dumps (PList xs)) \<le> n" and "delimited r"
    then obtain m where m: "n = Suc m" by (cases n) auto
    let ?t = "join '', '' (map json_dumps xs)"
    show "json_val n (json_dumps (PList xs) @ r) = Some (PList xs, r)"
    proof (cases "xs = []")
      case False
      obtain c s where "?t = c # s" "\<not> json_ws c" "c \<noteq> CHR '']''"
        using False 2 dumps_hd [of "hd xs"] by (cases xs; cases "tl xs") auto
      then have "skip_ws (?t @ CHR '']'' # r) = ?t @ CHR '']'' # r" "take 1 (?t @ CHR '']'' # r) \<noteq> '']''" by (simp_all add: skip_ws_def)
      moreover have "json_items m [] (?t @ CHR '']'' # r) = Some (PList ([] @ xs), r)"
        using False 2 n m by (intro items_back) auto
      ultimately show ?thesis by (simp add: m del: join.simps)
    qed (simp add: m)
  qed
next
  case (3 d)
  show ?case unfolding reads_back_def
  proof (intro allI impI)
    fix n r assume n: "length (json_dumps (PDict d)) \<le> n" and "delimited r"
    then obtain m where m: "n = Suc m" by (cases n) auto
    let ?t = "join '', '' (map member d)"
    show "json_val n (json_dumps (PDict d) @ r) = Some (PDict d, r)"
    proof (cases "d = []")
      case False
      then obtain s where "?t = CHR 0x22 # s" by (cases d; cases "tl d") (auto simp: member_def json_quote_def)
      then have "skip_ws (?t @ CHR ''}'' # r) = ?t @ CHR ''}'' # r" "take 1 (?t @ CHR ''}'' # r) \<noteq> ''}''" by simp_all
      moreover have "json_members m [] (?t @ CHR ''}'' # r) = Some (PDict ([] @ d), r)"
        using False 3 n m by (intro members_back) (auto simp: dumps_members simp del: json_dumps.simps)
      ultimately show ?thesis unfolding dumps_members by (simp add: m del: join.simps json_members.simps)
    qed (simp add: m)
  qed
qed (simp_all add: int_reads_back str_reads_back none_reads_back bool_reads_back)

text \<open>
  Reading back what was written gives the value.
\<close>
theorem json_roundtrip:
  assumes "json_ok v"
  shows "json_loads (json_dumps v) = Some v"
proof -
  have "json_val (Suc (length (json_dumps v))) (json_dumps v @ []) = Some (v, [])"
    using value_reads_back [OF assms] unfolding reads_back_def
    by (elim allE [of _ "Suc (length (json_dumps v))"] allE [of _ "[]"] impE) (simp_all del: json_val.simps)
  moreover have "skip_ws (json_dumps v) = json_dumps v" using skip_ws_dumps [OF assms, of "[]"] by simp
  moreover have "skip_ws [] = []" by (simp add: skip_ws_def)
  ultimately show ?thesis by (simp add: json_loads_def del: json_val.simps)
qed

end
