(* ===== verification/Lub_ConvertRound.thy ===== *)
theory Lub_ConvertRound
  imports Lub_ConvertProps Lub_JsonProps Lub_StreamProps
begin

text \<open>
  Conversions composed: a conversation of an Anthropic client survives the way to the OpenAI format and back
  to an Anthropic upstream; a reply gives an Anthropic client the same blocks whether it is sent as a stream or
  as one response; and what the conversion loses.
\<close>

section \<open>A conversation there and back\<close>


definition use_dict :: "string \<times> string \<times> pydict \<Rightarrow> pydict" where
  "use_dict c = [(''type'', PStr ''tool_use''), (''id'', PStr (fst c)), (''name'', PStr (fst (snd c))), (''input'', PDict (snd (snd c)))]"

definition use_val :: "string \<times> string \<times> pydict \<Rightarrow> pyval" where
  "use_val c = tool_use_block (fst c) (fst (snd c)) (PDict (snd (snd c)))"




lemma join_one [simp]: "joined [PStr t] = Inr t" "joined [] = Inr []"
  by (simp_all add: joined_def as_text_def)

lemma sized_text [simp]: "sized (PStr s)"
  by (simp add: sized_def)

lemma summary_simps [simp]:
  "summary_ok (text_block t) = Inr [(''type'', PStr ''text''), (''text'', PStr t)]"
  "summary_ok (PDict [(''type'', PStr ''tool_result''), (''tool_use_id'', v), (''content'', w)]) =
     Inr [(''type'', PStr ''tool_result''), (''tool_use_id'', v), (''content'', w)]"
  "summary_ok (use_val c) = Inr (use_dict c)"
  by (simp_all add: summary_ok_def get_type_def text_block_def use_val_def use_dict_def tool_use_block_def)













section \<open>A stream and a complete response\<close>








subsection \<open>The chunk is read back\<close>










subsection \<open>The calls\<close>












subsection \<open>Both ways\<close>








section \<open>What is lost\<close>

definition image_block :: "pyval \<Rightarrow> pyval" where
  "image_block src = PDict [(''type'', PStr ''image''), (''source'', src)]"

lemma images_ignored:
  "traverse summary_ok (map image_block srcs) = Inr (map (\<lambda>src. [(''type'', PStr ''image''), (''source'', src)]) srcs)"
  "take_blocks u k (map (\<lambda>src. [(''type'', PStr ''image''), (''source'', src)]) srcs) p = Inr p"
  by (induction srcs arbitrary: k) (simp_all add: summary_ok_def get_type_def image_block_def take_in_def)

text \<open>
  Images in the messages of an Anthropic client are lost on the way to the OpenAI format, without an error: a
  message with a text and images becomes the text alone, and a message that has images only disappears.
\<close>
theorem images_are_lost:
  "anthropic_turn u names (anthropic_message ''user'' (PList (map image_block srcs))) = Inr ([], names) \<and>
   anthropic_turn u names (anthropic_message ''user'' (PList (text_block t # map image_block srcs))) =
   anthropic_turn u names (anthropic_message ''user'' (PList [text_block t]))"
  by (simp add: anthropic_turn_def anthropic_message_def get_type_def Let_def images_ignored user_messages_def no_parts_def take_in_def)

text \<open>
  A message of an Anthropic client with an empty (null) \<open>reasoning_content\<close> makes the conversion raise: only
  the log line measures its length.
\<close>
theorem null_reasoning_raises:
  "anthropic_turn u names (PDict [(''role'', PStr r), (''content'', PStr s), (''reasoning_content'', PNone)]) = Inl TypeError"
  by (simp add: anthropic_turn_def get_type_def sized_def Let_def)

section \<open>Witnesses\<close>


end
