(* ===== verification/Spec2Isabelle.thy ===== *)
theory Spec2Isabelle
  imports Lub_ManagerProps Lub_CooldownProps Lub_ApiKey Lub_PoolProps Lub_Request Lub_LoopVariants Lub_AcquireProps
    Lub_FreezeGate Lub_ChannelProps Lub_UsageProps Lub_MessagesProps Lub_StreamProps Lub_ConvertRound
begin

text \<open>
  Verification of the limits, the routing, the retries and the message handling of the ai-lubricant gateway:
  the parts of the program that decide which upstream account may serve a request, what a request costs it,
  when an account, a model, a channel or an API key is frozen, what happens when an attempt fails, and how
  messages and streams are brought into the form an upstream or a client expects. The gateway runs as
  several processes that share one Redis.

  A request is admitted by the limiter of its API key, walks the retry loop of its route, and in every
  round asks the model pool for an account. The pool collects the candidates of the requested group,
  picks one by the group's strategy and reserves it with the limit manager, which keeps the ledgers in
  Redis. A failed attempt is classified by the freeze policy, freezes what the policy names, gives its
  lease back and excludes its candidate; a loop that has run out of candidates answers with the
  terminal error. An attempt sends its messages over a protocol row of the channel, after tool calls and
  results have been paired and long messages cut; the stream that comes back is converted to the protocol of
  the client, and the usage it reports settles the reservation.

  \<^bold>\<open>Parts and theories.\<close>
  \<^item> \<open>Lub_Prelude\<close>: text functions, decimal numerals, totals of finite maps, sliding-window lemmas, the
    development's collections of facts.
  \<^item> \<open>Lub_PyVal\<close>, \<open>Lub_Json\<close>: Python values with the built-ins the sources use, and \<open>json.loads\<close>,
    \<open>json.dumps\<close>, \<open>float()\<close>.
  \<^item> \<open>Lub_Redis\<close>: Redis is not part of the repository. It is the record \<open>redis\<close> of the commands the
    sources send, and the locale \<open>redis_store\<close> states their documented laws (reads after writes, TTLs,
    \<open>SCAN\<close> patterns, passing time); \<open>mem_redis\<close> is an executable instance of the locale, on which
    witnesses run. Every theorem about Redis holds for each store that satisfies the locale.
  \<^item> \<open>Lub_LimitRules\<close>: \<open>limits/rules.py\<close>.
  \<^item> \<open>Lub_Ledger\<close>: the Lua scripts and wrappers of \<open>limits/backend.py\<close> that reserve, roll back, reconcile,
    finalize, renew and release an account reservation, and the orphan reaper. A connection (\<open>conn\<close>) may
    lose a request or a reply at every call. \<open>Lub_LedgerSpec\<close> has the abstract ledgers (who has reserved
    how much) and the refinement of every script; \<open>Lub_LedgerSystem\<close> the step relation of all operations,
    lost messages and expiry with its invariant; \<open>Lub_LedgerProps\<close> the resulting properties.
  \<^item> \<open>Lub_Quota\<close>: \<open>providers/quota.py\<close>. \<open>Lub_Account\<close>: \<open>AccountClient\<close> and \<open>FailureWindow\<close> of
    \<open>server/rate_limiter.py\<close> (freeze bucket, derived state, quota mirror, scoring signals).
  \<^item> \<open>Lub_Windows\<close>: sliding and fixed windows, IP sets and API-key leases of \<open>limits/backend.py\<close>.
  \<^item> \<open>Lub_Cooldown\<close>, \<open>Lub_CooldownProps\<close>: the cooldown records of \<open>limits/backend.py\<close> with their indices,
    readers, clearing and overview. \<open>Lub_FreezeGate\<close>: which of these freezes the reserve script respects.
  \<^item> \<open>Lub_LimitManager\<close>, \<open>Lub_ManagerProps\<close>: \<open>limits/manager.py\<close>, which composes the above: availability,
    acquisition, settlement, cleanup after lost replies, leases, shutdown.
  \<^item> \<open>Lub_ApiKey\<close>: \<open>RateLimiter\<close> of \<open>server/rate_limiter.py\<close>, the limits of an API key.
  \<^item> \<open>Lub_FreezePolicy\<close>: \<open>server/limit_policy_store.py\<close>, the rules by which a failed response freezes an
    object, their normalisation, validation and matching, and the policy cache.
  \<^item> \<open>Lub_Reason\<close>: the texts kept with a freeze and the business codes of refusals.
  \<^item> \<open>Lub_Pool\<close>, \<open>Lub_PoolOps\<close>, \<open>Lub_PoolProps\<close>: \<open>ProviderPool\<close> of \<open>server/rate_limiter.py\<close>, the semantic
    errors of \<open>providers/base.py\<close>, header rules of \<open>limits/provider_state.py\<close>, and the cooldown events of
    \<open>server/runtime_sync.py\<close> and \<open>server/runtime_handlers.py\<close>.
  \<^item> \<open>Lub_Routing\<close>, \<open>Lub_RoutingProps\<close>: the collection of candidates by \<open>ModelClientPool\<close> of
    \<open>server/rate_limiter.py\<close>: groups, expanded and automatic routes, filters of a request, accounts held
    in a store by address because several routes share one account object.
  \<^item> \<open>Lub_Scoring\<close>, \<open>Lub_ScoringProps\<close>: the statistics per channel and account and the factors of the two
    intelligent scores.
  \<^item> \<open>Lub_Select\<close>, \<open>Lub_SelectProps\<close>: the selection strategies and affinity preferences; the locales
    \<open>chooser\<close> and \<open>total_chooser\<close> state what the acquisition relies on of a strategy, and each strategy of
    the code is an interpretation.
  \<^item> \<open>Lub_Acquire\<close>, \<open>Lub_AcquireProps\<close>: \<open>get_available_client_with_provider\<close>, from the request to a reserved
    lease or one of the documented refusals.
  \<^item> \<open>Lub_Request\<close>: \<open>server/request_reservations.py\<close>, the handle that owns the lease of an attempt.
  \<^item> \<open>Lub_Retry\<close>: \<open>server/retry_policy.py\<close>, which failures are retried and where. \<open>Lub_Attempt\<close>,
    \<open>Lub_AttemptProps\<close>: \<open>server/attempt_builder.py\<close>, the construction of one attempt.
  \<^item> \<open>Lub_Terminal\<close>: the terminal errors of \<open>main.py\<close>. \<open>Lub_RetryLoop\<close>, \<open>Lub_RetryLoopProps\<close>,
    \<open>Lub_LoopVariants\<close>: the retry loops of \<open>main.py\<close> (chat, streaming, media), their group fallback and
    what they do with leases; the locale \<open>ranked_loop\<close> has the termination argument of all of them.
  \<^item> \<open>Lub_PyOps\<close>: further Python built-ins on the values of \<open>Lub_PyVal\<close>. \<open>Lub_Channel\<close>, \<open>Lub_ChannelProps\<close>:
    \<open>server/channel.py\<close>, the configuration of a channel (defaults, merging, migration of old fields, protocol
    rows, rules that rename models), its snapshot, and the operations of \<open>Channel\<close>.
  \<^item> \<open>Lub_Usage\<close>, \<open>Lub_UsageProps\<close>: \<open>server/usage_utils.py\<close>, reported usage in one form, merged and filled from
    estimates; the estimates with their rules, tokenizers and the cache of vocabularies.
  \<^item> \<open>Lub_Messages\<close>, \<open>Lub_MessagesProps\<close>: from \<open>server/message_utils.py\<close>, ids and names of tool calls, pairing of
    calls and results, cutting of long messages, and their use in \<open>providers/custom.py\<close>.
  \<^item> \<open>Lub_Stream\<close>, \<open>Lub_StreamProps\<close>: \<open>convert_stream_to_anthropic\<close> of \<open>server/message_utils.py\<close>, which turns
    OpenAI chunks into Anthropic events. The locales \<open>protocol_step\<close> and \<open>text_step\<close> state what one step of a
    loop keeps of the protocol and of the text; the three nested loops of the conversion are interpretations.
  \<^item> \<open>Lub_Convert\<close>, \<open>Lub_ConvertBack\<close>: from \<open>server/message_utils.py\<close> and \<open>providers/custom.py\<close>, OpenAI messages
    and payloads in the Anthropic format and the cleaning of such requests; requests of Anthropic clients as
    OpenAI messages and parameters; complete OpenAI responses for Anthropic clients. \<open>Lub_JsonProps\<close>: what
    \<open>json.dumps\<close> writes \<open>json.loads\<close> reads back. \<open>Lub_ConvertProps\<close>, \<open>Lub_ConvertRound\<close>: the properties of each
    conversion and of their compositions with the cleanup, with each other and with the stream conversion.

  \<^bold>\<open>Conventions.\<close> State is passed explicitly as records. Times are rationals, integers are \<open>int\<close> as in
  Python. Exceptions are values of \<open>pyerror\<close> in a sum, or \<open>None\<close> where the source catches them. Methods
  that read the clock take it as an argument. Background tasks of the pool and cleanups of the manager
  are data in the state; running one is a separate step, so that orders can be stated. The local
  calendar (\<open>calendar\<close>), what the limit layer reads of a provider object (\<open>provider_view\<close>), rows read from
  the database and answers of upstreams are parameters. A random
  choice takes its numbers from a record (\<open>dice\<close>), and \<open>dice_ok\<close> is the documented range of the module
  \<open>random\<close>. What other parties do between two rounds of a loop is an argument of the round. Floating-point
  numbers are rationals, without rounding. Texts are byte strings; case and white space are
  those of ASCII; where the source counts or cuts characters, the model does so on the list of code points.
  The module \<open>re\<close> as applied to patterns of the configuration is the record \<open>regex\<close>, the tokenizer libraries
  are the record \<open>tokenizers\<close>, random ids are arguments. \<open>INCRBY\<close> on a text, an error in Redis, counts the text as 0:
  the sources apply it to window counters only. Message and stream functions take the estimate of
  tokens as an argument \<open>est\<close>, so that their theorems hold for every estimate.

  \<^bold>\<open>What is shown.\<close>
  \<^item> Ledgers: under every interleaving of operations and lost messages each stored total is the sum of its
    entries; admission is decided exactly by running freezes, free slots and room in the windows (a permanent
    freeze is not among them, which \<open>Lub_FreezeGate\<close> shows to be a gap of the script); rollback is the inverse of reservation and
    reconciliation replaces one amount; the reaper touches no living owner; reaching a limit freezes.
  \<^item> Manager: a reservation whose reply was lost is undone once its cleanup gets through; tests and probes change
    no ledger, neither when they reserve nor when they settle or roll back; the in-flight counter
    counts the leases; a lease is settled once.
  \<^item> Accounts, windows, quotas, API keys: the derived state, exact freeze durations, caps along every run,
    windows that fill up block until they run out.
  \<^item> Cooldowns and pool: what is frozen is read back, survives a restart and reaches other instances;
    clearing removes exactly the keys of one account; the rotation is the plain search and starves no
    account; policies are normalised idempotently, validation drops no rule, actions are well-formed.
  \<^item> Routing: the candidates are exactly the eligible accounts of the request; the statistics are consistent
    along every run; a score is positive exactly for a usable account. Selection gives up only when every
    candidate was refused or filtered, holds one lease on success and none otherwise, and its attempt bound
    is never the reason to stop. A whole request for an account, over all its phases, keeps exactly the lease it
    returns, also when an exception ends it, and the account it returns was eligible for the phase that found it.
  \<^item> Retries: the chat loop ends and gives each lease back once, unless the API key is rejected in between; an
    over-long input ends as a request to compact; the fallback between groups ends; the media loop makes the
    calls of the chat loop as long as no selection raises.
  \<^item> Channels: along every sequence of configurations, switches, model tables and response times the snapshot
    stays well-formed; the migration of old configurations keeps the snapshot; the public name of a model is
    what the configured rules give; the protocol row chosen for a request is the first of the best rank.
  \<^item> Usage: normalising is idempotent, so that the places that do it one after the other agree; the amount a
    reservation is settled with is the normalised total; estimates fill only gaps; merged frames keep the last
    value; nested counters are summed completely; an estimate exists and is positive for finite factors.
  \<^item> Messages: the cleanup leaves exactly paired calls and results and loses nothing else; repacking is a
    permutation that makes groups contiguous; cutting keeps the text; sanitised ids are legal and stable. The
    order in which the provider applies the first two steps can leave a broken pair, the other order cannot.
  \<^item> Streams: the events sent to the client follow the Anthropic protocol whatever the upstream sends, carry
    its text and thinking unchanged, and join the fragments of interleaved tool calls.
  \<^item> Formats: what is sent to an Anthropic upstream has the form it accepts; paired calls and results stay paired;
    a conversation of an Anthropic client survives the way to the OpenAI format and back; a reply gives the same
    blocks as a stream and as one response. Images of Anthropic clients are lost when the protocol changes.
  \<^item> Several theorems prove deviations from what comments or names promise; they say so in their text.

  \<^bold>\<open>Bounds.\<close> Loops of the sources run over lists, so that the model's recursions are structural, or have a
  termination proof (numerals, code points, nested error messages, fresh ids of protocol rows, nested counters,
  groups of results, pieces of a message). The JSON reader takes the length of its
  text as fuel and consumes a character at each step. \<open>select_loop\<close> counts down the code's own bound, the
  number of candidates, which is shown never to be reached first. The retry loops recurse on the rounds the
  environment offers; a rank of what is left to try decreases with every failed round.

  \<^bold>\<open>Not modelled.\<close> The rest of \<open>ModelClientPool\<close> (start-up, catalogue refresh, hot reload, periodic
  tasks, recording of a success), the HTTP entry points of \<open>main.py\<close>, the conversions to and from the
  Responses format and its events, the prompt texts of \<open>combine_messages\<close>, the presets of client bodies,
  \<open>estimate_usage\<close> and the migration of vocabulary files, the provider classes, administration and persistence, the dead \<open>LegacyRateLimiter\<close> and \<open>RedisRateTracker\<close>; removal of
  expired entries by readers where later reads ignore them anyway; log lines, notification titles and
  metrics of the modelled parts. The agent, testing, user and MCP platforms are separate programs of the
  repository.
\<close>

end
